(* ===== verification/Sapo_Prelude.thy ===== *)
theory Sapo_Prelude
  imports Complex_Main "HOL-Library.List_Lexorder" "HOL-Library.Char_ord" "HOL-Library.AList"
    "HOL-Library.Countable" "HOL-Library.Word" "HOL-Library.Product_Lexorder"
begin

text \<open>
  Shared vocabulary of the development: the hint collections, the string helpers the
  code takes from the C++ standard library (\<open>std::to_string\<close>, \<open>std::stoll\<close>,
  \<open>std::isspace\<close>, \<open>std::tolower\<close>), and the lemmas on lists, association
  lists and options that the component theories share.

  Strings are \<open>string\<close> (a list of bytes), as \<open>std::string\<close> is. A 64-bit signed
  counter or instant is an \<open>int\<close>; where the source converts text to such an integer the
  range check of \<open>std::stoll\<close> is written out.
\<close>

named_theorems sapo_defs "definitions unfolded by component proofs"
named_theorems json_simps "reading back what was written into a document"
named_theorems frame_simps "which fields an operation leaves alone"

section \<open>Bytes and characters\<close>

definition byte :: "char \<Rightarrow> nat" where
  "byte c = of_char c"

lemma byte_less [simp]: "byte c < 256"
  by (simp add: byte_def)

lemma byte_inject [simp]: "byte c = byte d \<longleftrightarrow> c = d"
  by (simp add: byte_def)

lemma char_of_byte [simp]: "char_of (byte c) = c"
  by (simp add: byte_def)

lemma byte_char_of: "n < 256 \<Longrightarrow> byte (char_of n) = n"
  by (simp add: byte_def)

text \<open>\<open>std::isspace\<close>, \<open>std::isdigit\<close>, \<open>std::isalpha\<close>, \<open>std::isalnum\<close> and
  \<open>std::tolower\<close> in the C locale.\<close>

definition is_space :: "char \<Rightarrow> bool" where
  "is_space c \<longleftrightarrow> byte c = 32 \<or> (9 \<le> byte c \<and> byte c \<le> 13)"

definition is_digit :: "char \<Rightarrow> bool" where
  "is_digit c \<longleftrightarrow> 48 \<le> byte c \<and> byte c \<le> 57"

definition is_upper :: "char \<Rightarrow> bool" where
  "is_upper c \<longleftrightarrow> 65 \<le> byte c \<and> byte c \<le> 90"

definition is_lower :: "char \<Rightarrow> bool" where
  "is_lower c \<longleftrightarrow> 97 \<le> byte c \<and> byte c \<le> 122"

definition is_alpha :: "char \<Rightarrow> bool" where
  "is_alpha c \<longleftrightarrow> is_upper c \<or> is_lower c"

definition is_alnum :: "char \<Rightarrow> bool" where
  "is_alnum c \<longleftrightarrow> is_alpha c \<or> is_digit c"

definition to_lower :: "char \<Rightarrow> char" where
  "to_lower c = (if is_upper c then char_of (byte c + 32) else c)"

definition to_upper :: "char \<Rightarrow> char" where
  "to_upper c = (if is_lower c then char_of (byte c - 32) else c)"

text \<open>The file-local helpers \<open>trim\<close> and \<open>lower\<close> of \<open>TimeUtils.cpp\<close> and
  \<open>Scheduler.cpp\<close>.\<close>

definition trim :: "string \<Rightarrow> string" where
  "trim s = rev (dropWhile is_space (rev (dropWhile is_space s)))"

definition lower :: "string \<Rightarrow> string" where
  "lower s = map to_lower s"

definition starts_with :: "string \<Rightarrow> string \<Rightarrow> bool" where
  "starts_with p s \<longleftrightarrow> take (length p) s = p"

lemma starts_with_append [simp]: "starts_with p (p @ s)"
  by (simp add: starts_with_def)

lemma starts_with_iff: "starts_with p s \<longleftrightarrow> (\<exists>t. s = p @ t)"
proof
  assume "starts_with p s"
  then have "s = p @ drop (length p) s"
    using append_take_drop_id [of "length p" s] by (simp add: starts_with_def)
  then show "\<exists>t. s = p @ t" ..
qed auto

text \<open>A text in single quotes, as the messages of the code name things.\<close>

definition quoted :: "string \<Rightarrow> string" where
  "quoted s = CHR 0x27 # s @ [CHR 0x27]"

section \<open>Decimal numerals\<close>

text \<open>\<open>std::to_string\<close> on an integer.\<close>

definition digit_char :: "nat \<Rightarrow> char" where
  "digit_char d = char_of (48 + d)"

fun nat_digits :: "nat \<Rightarrow> string" where
  "nat_digits n = (if n < 10 then [digit_char n] else nat_digits (n div 10) @ [digit_char (n mod 10)])"

declare nat_digits.simps [simp del]

definition int_str :: "int \<Rightarrow> string" where
  "int_str i = (if i < 0 then CHR ''-'' # nat_digits (nat (- i)) else nat_digits (nat i))"

text \<open>The value of a run of decimal digits, read left to right.\<close>

definition digits_val :: "string \<Rightarrow> nat" where
  "digits_val s = foldl (\<lambda>a c. 10 * a + (byte c - 48)) 0 s"

text \<open>
  \<open>std::stoll\<close>/\<open>std::stoi\<close>: leading white space, an optional sign, then the longest run
  of digits; the value and the number of characters consumed, or \<open>None\<close> for the two
  exceptions they throw (\<open>invalid_argument\<close> without a digit, \<open>out_of_range\<close> outside
  the type, whose width is the first argument).
\<close>

definition sto_int :: "nat \<Rightarrow> string \<Rightarrow> (int \<times> nat) option" where
  "sto_int w s =
     (let t = dropWhile is_space s; skipped = length s - length t;
          neg = (t \<noteq> [] \<and> hd t = CHR ''-'');
          u = (if t \<noteq> [] \<and> (hd t = CHR ''-'' \<or> hd t = CHR ''+'') then tl t else t);
          ds = takeWhile is_digit u;
          v = (if neg then - int (digits_val ds) else int (digits_val ds))
      in if ds = [] then None
         else if v < - (2 ^ (w - 1)) \<or> 2 ^ (w - 1) \<le> v then None
         else Some (v, skipped + (length t - length u) + length ds))"

text \<open>\<open>std::atoi\<close>: the same prefix, and 0 when there is no number.  (A value outside
  \<open>int\<close> is undefined behaviour in C; no caller's property depends on it.)\<close>

definition atoi :: "string \<Rightarrow> int" where
  "atoi s = (case sto_int 32 s of None \<Rightarrow> 0 | Some (v, _) \<Rightarrow> v)"

lemma byte_digit_char: "d < 10 \<Longrightarrow> byte (digit_char d) = 48 + d"
  by (simp add: digit_char_def byte_char_of)

lemma is_digit_digit_char: "d < 10 \<Longrightarrow> is_digit (digit_char d)"
  by (simp add: is_digit_def byte_digit_char)

lemma digits_val_snoc [simp]: "digits_val (s @ [c]) = 10 * digits_val s + (byte c - 48)"
  by (simp add: digits_val_def)

lemma digits_val_nat_digits [simp]: "digits_val (nat_digits n) = n"
proof (induction n rule: nat_digits.induct)
  case (1 n)
  show ?case
  proof (cases "n < 10")
    case True
    then show ?thesis
      by (simp add: nat_digits.simps [of n] digits_val_def byte_digit_char)
  next
    case False
    with 1 have "digits_val (nat_digits (n div 10)) = n div 10" by simp
    with False show ?thesis
      by (simp add: nat_digits.simps [of n] byte_digit_char)
  qed
qed

lemma nat_digits_nonempty [simp]: "nat_digits n \<noteq> []"
  by (subst nat_digits.simps) simp

lemma nat_digits_digits: "c \<in> set (nat_digits n) \<Longrightarrow> is_digit c"
proof (induction n rule: nat_digits.induct)
  case (1 n)
  then show ?case
    by (cases "n < 10") (auto simp: nat_digits.simps [of n] is_digit_digit_char)
qed

lemma takeWhile_nat_digits [simp]: "takeWhile is_digit (nat_digits n) = nat_digits n"
  by (simp add: takeWhile_eq_all_conv nat_digits_digits)

lemma hd_nat_digits: "is_digit (hd (nat_digits n))"
  by (rule nat_digits_digits [of _ n]) simp

lemma digit_not_space: "is_digit c \<Longrightarrow> \<not> is_space c"
  by (auto simp: is_digit_def is_space_def)

lemma digit_not_sign: "is_digit c \<Longrightarrow> c \<noteq> CHR ''-'' \<and> c \<noteq> CHR ''+''"
  by (auto simp: is_digit_def byte_def)

lemma dropWhile_space_digits [simp]: "dropWhile is_space (nat_digits n) = nat_digits n"
  by (cases "nat_digits n") (use hd_nat_digits [of n] in \<open>auto dest: digit_not_space\<close>)

lemma sto_int_int_str:
  assumes "- (2 ^ (w - 1)) \<le> i" and "i < 2 ^ (w - 1)"
  shows "sto_int w (int_str i) = Some (i, length (int_str i))"
proof (cases "i < 0")
  case True
  then have s: "int_str i = CHR ''-'' # nat_digits (nat (- i))" by (simp add: int_str_def)
  have "\<not> is_space (CHR ''-'')" by (simp add: is_space_def byte_def)
  with True assms show ?thesis by (simp add: s sto_int_def Let_def)
next
  case False
  have "hd (nat_digits (nat i)) \<noteq> CHR ''-'' \<and> hd (nat_digits (nat i)) \<noteq> CHR ''+''"
    by (rule digit_not_sign) (rule hd_nat_digits)
  with False assms show ?thesis by (simp add: int_str_def sto_int_def Let_def)
qed

lemma int_str_inject: "int_str i = int_str j \<longleftrightarrow> i = j"
proof
  assume eq: "int_str i = int_str j"
  have val: "digits_val (nat_digits (nat k)) = nat k" for k by simp
  have sign: "(k < 0) = (hd (int_str k) = CHR ''-'')" for k
    using digit_not_sign [OF hd_nat_digits [of "nat k"]] by (auto simp: int_str_def)
  show "i = j"
  proof (cases "i < 0")
    case True
    with eq sign have "j < 0" by metis
    with True eq have "nat_digits (nat (- i)) = nat_digits (nat (- j))" by (simp add: int_str_def)
    then have "nat (- i) = nat (- j)" by (metis digits_val_nat_digits)
    with True \<open>j < 0\<close> show ?thesis by simp
  next
    case False
    with eq sign have "\<not> j < 0" by metis
    with False eq have "nat_digits (nat i) = nat_digits (nat j)" by (simp add: int_str_def)
    then have "nat i = nat j" by (metis digits_val_nat_digits)
    with False \<open>\<not> j < 0\<close> show ?thesis by simp
  qed
qed auto

section \<open>Lists, association lists, options\<close>

lemma map_of_filter_neq: "k \<noteq> k' \<Longrightarrow> map_of (filter (\<lambda>p. fst p \<noteq> k) xs) k' = map_of xs k'"
  by (induction xs) auto

lemma map_of_update [simp]: "map_of (AList.update k v xs) = (map_of xs)(k \<mapsto> v)"
  by (rule update_conv')

lemma map_of_delete [simp]: "map_of (AList.delete k xs) = (map_of xs)(k := None)"
  by (rule delete_conv')

lemma find_Some_D: "find P xs = Some x \<Longrightarrow> P x \<and> x \<in> set xs"
  by (induction xs) (auto split: if_splits)

lemma drop_nonempty_length: "drop n xs \<noteq> [] \<Longrightarrow> n < length xs"
  by (metis drop_all linorder_not_less)

lemma foldl_invariant:
  assumes "P a" and "\<And>a x. x \<in> set xs \<Longrightarrow> P a \<Longrightarrow> P (f a x)"
  shows "P (foldl f a xs)"
  using assms by (induction xs arbitrary: a) auto

lemma int_div_bounds:
  assumes "0 < (k::int)"
  shows "k * (n div k) \<le> n" and "n < k * (n div k) + k"
proof -
  have "n = k * (n div k) + n mod k" by simp
  moreover have "0 \<le> n mod k" "n mod k < k" using assms by simp_all
  ultimately show "k * (n div k) \<le> n" "n < k * (n div k) + k" by linarith+
qed

lemma all_less_Suc: "(\<forall>k < Suc n. P k) \<longleftrightarrow> P 0 \<and> (\<forall>k < n. P (Suc k))"
  using less_Suc_eq_0_disj by auto

text \<open>The least index of an element, the model of the code's linear searches.\<close>

fun index_of :: "'a list \<Rightarrow> 'a \<Rightarrow> nat option" where
  "index_of [] y = None"
| "index_of (x # xs) y = (if x = y then Some 0 else map_option Suc (index_of xs y))"

lemma index_of_None [simp]: "index_of xs y = None \<longleftrightarrow> y \<notin> set xs"
  by (induction xs) auto

lemma index_of_SomeD: "index_of xs y = Some i \<Longrightarrow> i < length xs \<and> xs ! i = y"
  by (induction xs arbitrary: i) (auto split: if_splits simp: nth_Cons')

lemma index_of_Some_ex: "y \<in> set xs \<Longrightarrow> \<exists>i. index_of xs y = Some i \<and> i < length xs"
  using index_of_None [of xs y] index_of_SomeD [of xs y] by (cases "index_of xs y") auto

end
