(* ===== verification/Sapo_Json.thy ===== *)
theory Sapo_Json
  imports Sapo_Prelude
begin

text \<open>
  The documents the engine computes with: \<open>nlohmann::json\<close> values as a datatype, with the
  operations the engine calls on them.  An object is the association list of a
  \<open>std::map\<close>: keys in ascending byte order, each once (\<open>obj_set\<close> keeps that).
  Integers (signed and unsigned) are \<open>JInt\<close>; a double is a value of \<open>dbl\<close>, the
  binary64 values with their special cases, so that mixed comparisons can be computed.

  The typed getters \<open>value(key, default)\<close> throw a \<open>type_error\<close> in the source when the key
  holds a value of another type; here they return the default then, and the theories that
  use them show, for the documents the engine itself builds, that this case is not reached.
\<close>

section \<open>Doubles\<close>

datatype dbl = DNan | DPosInf | DNegInf | DNegZero | DFin rat

definition pow2 :: "int \<Rightarrow> rat" where
  "pow2 e = (if 0 \<le> e then 2 ^ nat e else 1 / 2 ^ nat (- e))"

fun bit_len :: "nat \<Rightarrow> nat" where
  "bit_len n = (if n = 0 then 0 else Suc (bit_len (n div 2)))"

declare bit_len.simps [simp del]

text \<open>The exponent of the leading binary digit of a positive rational.\<close>

definition ilog2 :: "rat \<Rightarrow> int" where
  "ilog2 r = (let (a, b) = quotient_of r; k = int (bit_len (nat a)) - int (bit_len (nat b))
              in if pow2 k \<le> r then k else k - 1)"

definition round_half_even :: "rat \<Rightarrow> int" where
  "round_half_even r =
     (let f = \<lfloor>r\<rfloor>; d = r - of_int f
      in if d < 1 / 2 then f else if d > 1 / 2 then f + 1 else if even f then f else f + 1)"

text \<open>Rounding to binary64, to nearest and ties to even.\<close>

definition round_dbl :: "rat \<Rightarrow> dbl" where
  "round_dbl r =
     (if r = 0 then DFin 0
      else let a = \<bar>r\<bar>; e = max (- 1074) (ilog2 a - 52);
               v = of_int (round_half_even (a / pow2 e)) * pow2 e
           in if v \<ge> 2 ^ 1024 then (if r > 0 then DPosInf else DNegInf)
              else if v = 0 \<and> r < 0 then DNegZero
              else DFin (if r < 0 then - v else v))"

text \<open>The IEEE comparison \<open>==\<close>: NaN differs from everything, the two zeros are equal.\<close>

fun dbl_eq :: "dbl \<Rightarrow> dbl \<Rightarrow> bool" where
  "dbl_eq DNan _ = False"
| "dbl_eq _ DNan = False"
| "dbl_eq DNegZero y = (y = DNegZero \<or> y = DFin 0)"
| "dbl_eq x DNegZero = (x = DFin 0)"
| "dbl_eq x y = (x = y)"

section \<open>Values\<close>

datatype json =
    JNull
  | JBool bool
  | JInt int
  | JFloat dbl
  | JStr string
  | JArr "json list"
  | JObj "(string \<times> json) list"

instance dbl :: countable
  by countable_datatype

instance json :: countable
  by countable_datatype

type_synonym obj = "(string \<times> json) list"

fun is_null :: "json \<Rightarrow> bool" where
  "is_null JNull = True" | "is_null _ = False"

fun is_string :: "json \<Rightarrow> bool" where
  "is_string (JStr _) = True" | "is_string _ = False"

fun is_array :: "json \<Rightarrow> bool" where
  "is_array (JArr _) = True" | "is_array _ = False"

fun is_object :: "json \<Rightarrow> bool" where
  "is_object (JObj _) = True" | "is_object _ = False"

text \<open>\<open>empty()\<close> and \<open>size()\<close>: null is empty, a scalar has one element.\<close>

fun jempty :: "json \<Rightarrow> bool" where
  "jempty JNull = True"
| "jempty (JArr xs) = (xs = [])"
| "jempty (JObj o') = (o' = [])"
| "jempty _ = False"

fun jsize :: "json \<Rightarrow> nat" where
  "jsize JNull = 0"
| "jsize (JArr xs) = length xs"
| "jsize (JObj o') = length o'"
| "jsize _ = 1"

text \<open>The elements of an array (none for any other value).\<close>

fun jitems :: "json \<Rightarrow> json list" where
  "jitems (JArr xs) = xs" | "jitems _ = []"

fun jentries :: "json \<Rightarrow> obj" where
  "jentries (JObj o') = o'" | "jentries _ = []"

section \<open>Objects\<close>

text \<open>\<open>std::map::operator[]\<close> and assignment; \<open>erase\<close>.  The same ordered map serves the
  other \<open>std::map\<close>s of the engine.\<close>

fun obj_set :: "'k::linorder \<Rightarrow> 'v \<Rightarrow> ('k \<times> 'v) list \<Rightarrow> ('k \<times> 'v) list" where
  "obj_set k v [] = [(k, v)]"
| "obj_set k v ((k', v') # r) =
     (if k = k' then (k, v) # r
      else if k < k' then (k, v) # (k', v') # r
      else (k', v') # obj_set k v r)"

definition obj_erase :: "'k \<Rightarrow> ('k \<times> 'v) list \<Rightarrow> ('k \<times> 'v) list" where
  "obj_erase k ob = filter (\<lambda>p. fst p \<noteq> k) ob"

definition sorted_keys :: "('k::linorder \<times> 'v) list \<Rightarrow> bool" where
  "sorted_keys ob \<longleftrightarrow> sorted_wrt (<) (map fst ob)"

lemma map_of_obj_set [simp]: "map_of (obj_set k v ob) = (map_of ob)(k \<mapsto> v)"
  by (induction ob) (auto split: if_splits)

lemma obj_set_keys: "fst ` set (obj_set k v ob) = insert k (fst ` set ob)"
  by (simp add: dom_map_of_conv_image_fst [symmetric])

lemma sorted_keys_obj_set: "sorted_keys ob \<Longrightarrow> sorted_keys (obj_set k v ob)"
proof (induction ob)
  case Nil
  then show ?case by (simp add: sorted_keys_def)
next
  case (Cons p r)
  obtain k' v' where p: "p = (k', v')" by (cases p)
  from Cons.prems have above: "\<forall>x \<in> fst ` set r. k' < x" and sr: "sorted_keys r"
    by (auto simp: sorted_keys_def p)
  from Cons.IH [OF sr] have IH: "sorted_wrt (<) (map fst (obj_set k v r))"
    by (simp add: sorted_keys_def)
  show ?case
  proof (cases "k \<le> k'")
    case True
    with above sr show ?thesis by (fastforce simp: p sorted_keys_def)
  next
    case False
    then have "\<forall>x \<in> fst ` set (obj_set k v r). k' < x"
      using above by (auto simp: obj_set_keys)
    with IH False show ?thesis by (auto simp: p sorted_keys_def)
  qed
qed

lemma sorted_keys_obj_erase: "sorted_keys ob \<Longrightarrow> sorted_keys (obj_erase k ob)"
  by (induction ob) (auto simp: sorted_keys_def obj_erase_def)

lemma sorted_keys_distinct: "sorted_keys ob \<Longrightarrow> distinct (map fst ob)"
  by (induction ob) (auto simp: sorted_keys_def)

lemma map_of_obj_erase [simp]: "map_of (obj_erase k ob) = (map_of ob)(k := None)"
  by (rule ext) (induction ob, auto simp: obj_erase_def)

lemma obj_set_same: "sorted_keys ob \<Longrightarrow> map_of ob k = Some v \<Longrightarrow> obj_set k v ob = ob"
proof (induction ob)
  case (Cons p r)
  obtain k' v' where p: "p = (k', v')" by (cases p)
  show ?case
  proof (cases "k = k'")
    case True
    with Cons.prems show ?thesis by (simp add: p)
  next
    case False
    with Cons.prems have "k \<in> fst ` set r"
      by (auto simp: p dest: map_of_SomeD intro: rev_image_eqI)
    with Cons.prems have "k' < k" by (auto simp: p sorted_keys_def)
    with False Cons show ?thesis by (auto simp: p sorted_keys_def)
  qed
qed simp

lemma obj_set_idem [simp]: "obj_set k v (obj_set k w ob) = obj_set k v ob"
  by (induction ob) auto

section \<open>Reading and writing members\<close>

fun jget :: "string \<Rightarrow> json \<Rightarrow> json option" where
  "jget k (JObj ob) = map_of ob k" | "jget _ _ = None"

definition jcontains :: "string \<Rightarrow> json \<Rightarrow> bool" where
  "jcontains k j \<longleftrightarrow> jget k j \<noteq> None"

text \<open>\<open>j[k] = v\<close>: null becomes an object first.  (On any other non-object the source throws;
  the engine only writes to documents it has made objects.)\<close>

fun jset :: "string \<Rightarrow> json \<Rightarrow> json \<Rightarrow> json" where
  "jset k v (JObj ob) = JObj (obj_set k v ob)"
| "jset k v JNull = JObj [(k, v)]"
| "jset _ _ j = j"

fun jerase :: "string \<Rightarrow> json \<Rightarrow> json" where
  "jerase k (JObj ob) = JObj (obj_erase k ob)" | "jerase _ j = j"

text \<open>A literal \<open>json{{k, v}, \<dots>}\<close>: the members inserted one after the other.\<close>

definition jobj :: "(string \<times> json) list \<Rightarrow> json" where
  "jobj kvs = JObj (foldl (\<lambda>ob (k, v). obj_set k v ob) [] kvs)"

definition jvalue :: "string \<Rightarrow> json \<Rightarrow> json \<Rightarrow> json" where
  "jvalue k d j = (case jget k j of Some v \<Rightarrow> v | None \<Rightarrow> d)"

definition jvalue_str :: "string \<Rightarrow> string \<Rightarrow> json \<Rightarrow> string" where
  "jvalue_str k d j = (case jget k j of Some (JStr s) \<Rightarrow> s | _ \<Rightarrow> d)"

definition dbl_trunc :: "dbl \<Rightarrow> int" where
  "dbl_trunc x = (case x of DFin r \<Rightarrow> (if r < 0 then - \<lfloor>- r\<rfloor> else \<lfloor>r\<rfloor>) | _ \<Rightarrow> 0)"

definition jvalue_int :: "string \<Rightarrow> int \<Rightarrow> json \<Rightarrow> int" where
  "jvalue_int k d j =
     (case jget k j of Some (JInt i) \<Rightarrow> i | Some (JBool b) \<Rightarrow> (if b then 1 else 0)
      | Some (JFloat x) \<Rightarrow> dbl_trunc x | _ \<Rightarrow> d)"

definition jvalue_bool :: "string \<Rightarrow> bool \<Rightarrow> json \<Rightarrow> bool" where
  "jvalue_bool k d j = (case jget k j of Some (JBool b) \<Rightarrow> b | _ \<Rightarrow> d)"

text \<open>When a typed getter throws: the member is there and of another type.  \<open>value(k, 0)\<close> reads into a
  32-bit \<open>int\<close>.\<close>

definition text_member :: "json \<Rightarrow> string \<Rightarrow> bool" where
  "text_member d k \<longleftrightarrow> (case jget k d of None \<Rightarrow> True | Some v \<Rightarrow> is_string v)"

definition number_member :: "json \<Rightarrow> string \<Rightarrow> bool" where
  "number_member d k \<longleftrightarrow>
     (case jget k d of None \<Rightarrow> True | Some (JInt _) \<Rightarrow> True | Some (JFloat _) \<Rightarrow> True
      | Some (JBool _) \<Rightarrow> True | Some _ \<Rightarrow> False)"

definition flag_member :: "json \<Rightarrow> string \<Rightarrow> bool" where
  "flag_member d k \<longleftrightarrow> (case jget k d of None \<Rightarrow> True | Some (JBool _) \<Rightarrow> True | Some _ \<Rightarrow> False)"

lemmas member_defs = text_member_def number_member_def flag_member_def

definition as_int32 :: "int \<Rightarrow> int" where
  "as_int32 i = (i + 2147483648) mod 4294967296 - 2147483648"

lemma as_int32_id [simp]: "- 2147483648 \<le> i \<Longrightarrow> i < 2147483648 \<Longrightarrow> as_int32 i = i"
  by (simp add: as_int32_def)

lemma jget_JObj_set [json_simps]: "jget k (JObj (obj_set k' v ob)) = (if k = k' then Some v else map_of ob k)"
  by simp

lemma jget_jset [json_simps]:
  "is_object j \<Longrightarrow> jget k (jset k' v j) = (if k = k' then Some v else jget k j)"
  by (cases j) auto

lemma jget_jerase [json_simps]: "jget k (jerase k' j) = (if k = k' then None else jget k j)"
  by (cases j) auto

lemma is_object_jset [simp]: "is_object j \<Longrightarrow> is_object (jset k v j)"
  by (cases j) auto

lemma is_object_jerase [simp]: "is_object (jerase k j) = is_object j"
  by (cases j) auto

lemma is_object_jobj [simp]: "is_object (jobj kvs)"
  by (simp add: jobj_def)

lemma map_of_foldl_obj_set:
  "map_of (foldl (\<lambda>ob (k, v). obj_set k v ob) ob kvs) = map_of ob ++ map_of (rev kvs)"
proof (induction kvs arbitrary: ob)
  case Nil
  then show ?case by simp
next
  case (Cons p kvs)
  then show ?case by (cases p) (simp add: map_add_def fun_eq_iff split: option.splits)
qed

lemma jget_jobj [json_simps]: "jget k (jobj kvs) = map_of (rev kvs) k"
  by (simp add: jobj_def map_of_foldl_obj_set)

lemma jget_jobj_distinct: "distinct (map fst kvs) \<Longrightarrow> jget k (jobj kvs) = map_of kvs k"
proof -
  assume d: "distinct (map fst kvs)"
  then have "distinct (map fst (rev kvs))" by (simp add: rev_map [symmetric])
  then have "map_of (rev kvs) = map_of kvs"
    using map_of_inject_set [of "rev kvs" kvs] d by simp
  then show ?thesis by (simp add: jget_jobj)
qed

lemmas jvalue_defs = jvalue_def jvalue_str_def jvalue_int_def jvalue_bool_def jcontains_def

lemma jvalue_str_jset [json_simps]:
  "is_object j \<Longrightarrow> jvalue_str k d (jset k' (JStr s) j) = (if k = k' then s else jvalue_str k d j)"
  by (simp add: jvalue_str_def jget_jset)

lemma jvalue_str_jset_neq [json_simps]:
  "k \<noteq> k' \<Longrightarrow> is_object j \<Longrightarrow> jvalue_str k d (jset k' v j) = jvalue_str k d j"
  by (simp add: jvalue_str_def jget_jset)

lemma jvalue_int_jset [json_simps]:
  "is_object j \<Longrightarrow> jvalue_int k d (jset k' (JInt s) j) = (if k = k' then s else jvalue_int k d j)"
  by (simp add: jvalue_int_def jget_jset)

lemma jvalue_int_jset_neq [json_simps]:
  "k \<noteq> k' \<Longrightarrow> is_object j \<Longrightarrow> jvalue_int k d (jset k' v j) = jvalue_int k d j"
  by (simp add: jvalue_int_def jget_jset)

lemma jvalue_jset [json_simps]:
  "is_object j \<Longrightarrow> jvalue k d (jset k' v j) = (if k = k' then v else jvalue k d j)"
  by (simp add: jvalue_def jget_jset)

section \<open>Equality\<close>

text \<open>\<open>operator==\<close> of the document type: numbers compare across their representations, everything
  else structurally.\<close>

function json_eq :: "json \<Rightarrow> json \<Rightarrow> bool" where
  "json_eq a b =
     (case (a, b) of
        (JInt i, JInt j) \<Rightarrow> i = j
      | (JFloat x, JFloat y) \<Rightarrow> dbl_eq x y
      | (JInt i, JFloat y) \<Rightarrow> dbl_eq (round_dbl (of_int i)) y
      | (JFloat x, JInt j) \<Rightarrow> dbl_eq x (round_dbl (of_int j))
      | (JArr xs, JArr ys) \<Rightarrow>
          length xs = length ys \<and> list_all (\<lambda>(x, y). json_eq x y) (zip xs ys)
      | (JObj xs, JObj ys) \<Rightarrow>
          length xs = length ys \<and>
          list_all (\<lambda>(p, q). fst p = fst q \<and> json_eq (snd p) (snd q)) (zip xs ys)
      | (JNull, JNull) \<Rightarrow> True
      | (JBool x, JBool y) \<Rightarrow> x = y
      | (JStr x, JStr y) \<Rightarrow> x = y
      | _ \<Rightarrow> False)"
  by pat_completeness auto

lemma size_zip_json: "(x, y) \<in> set (zip xs ys) \<Longrightarrow> size x < Suc (size_list size xs)"
  by (induction xs ys rule: list_induct2') auto

lemma size_zip_obj:
  "(p, q) \<in> set (zip xs ys) \<Longrightarrow>
   size (snd p) < Suc (size_list (size_prod (\<lambda>_. 0) size) xs)"
  by (induction xs ys rule: list_induct2') auto

termination json_eq
  by (relation "measure (\<lambda>(a, b). size a)") (auto dest: size_zip_json size_zip_obj)

declare json_eq.simps [simp del]

text \<open>Documents without a NaN equal themselves.\<close>

fun nan_free :: "json \<Rightarrow> bool" where
  "nan_free (JFloat x) = (x \<noteq> DNan)"
| "nan_free (JArr xs) = (\<forall>x \<in> set xs. nan_free x)"
| "nan_free (JObj ob) = (\<forall>p \<in> set ob. nan_free (snd p))"
| "nan_free _ = True"

lemma dbl_eq_refl: "x \<noteq> DNan \<Longrightarrow> dbl_eq x x"
  by (cases x) auto

lemma json_eq_refl: "nan_free a \<Longrightarrow> json_eq a a"
proof (induction a rule: nan_free.induct)
  case (1 x)
  then show ?case by (simp add: json_eq.simps dbl_eq_refl)
next
  case (2 xs)
  have "\<And>x y. (x, y) \<in> set (zip xs xs) \<Longrightarrow> json_eq x y"
    using 2 by (auto simp: zip_same)
  then show ?case by (subst json_eq.simps) (auto simp: list_all_iff)
next
  case (3 ob)
  have "\<And>p q. (p, q) \<in> set (zip ob ob) \<Longrightarrow> fst p = fst q \<and> json_eq (snd p) (snd q)"
    using 3 by (auto simp: zip_same)
  then show ?case by (subst json_eq.simps) (auto simp: list_all_iff)
qed (simp_all add: json_eq.simps)

end
