(* ===== verification/Sapo_JsonPath.thy ===== *)
theory Sapo_JsonPath
  imports Sapo_Json
begin

text \<open>
  \<open>src/src/util/JsonPath.cpp\<close>: dotted and bracketed paths into documents.
  \<open>parse_path\<close> is the scanner over the remaining characters, \<open>walk\<close> the lookup,
  \<open>set_walk\<close> the write that creates what is missing.  The lemmas show that a write can
  be read back through the same path, that a refused write changes nothing, and that
  other members keep their values.
\<close>

datatype step_kind = Field | Index | Wildcard

record path_step =
  ps_kind :: step_kind
  ps_field :: string
  ps_index :: int

abbreviation field_step :: "string \<Rightarrow> path_step" where
  "field_step f \<equiv> \<lparr>ps_kind = Field, ps_field = f, ps_index = 0\<rparr>"

abbreviation wildcard_step :: path_step where
  "wildcard_step \<equiv> \<lparr>ps_kind = Wildcard, ps_field = ''*'', ps_index = 0\<rparr>"

definition path_step_to_string :: "path_step \<Rightarrow> string" where
  "path_step_to_string s =
     (case ps_kind s of
        Field \<Rightarrow> ''.'' @ ps_field s
      | Index \<Rightarrow> ''['' @ int_str (ps_index s) @ '']''
      | Wildcard \<Rightarrow> ''[*]'')"

section \<open>The scanner\<close>

text \<open>The text between brackets that is not quoted: \<open>*\<close>, a decimal index (a negative one
  counts as 0), or a malformed path.\<close>

definition index_text :: "string \<Rightarrow> bool" where
  "index_text inner \<longleftrightarrow>
     inner \<noteq> [] \<and> (is_digit (hd inner) \<or> hd inner = CHR ''-'') \<and> list_all is_digit (tl inner)"

definition bracket_step :: "string \<Rightarrow> path_step option" where
  "bracket_step inner =
     (if inner = ''*'' then Some wildcard_step
      else if \<not> index_text inner then None
      else Some \<lparr>ps_kind = Index, ps_field = inner, ps_index = max 0 (atoi inner)\<rparr>)"

definition skip_dot :: "string \<Rightarrow> string" where
  "skip_dot r = (case r of c # t \<Rightarrow> (if c = CHR ''.'' then t else r) | [] \<Rightarrow> [])"

text \<open>One bracketed step, after the opening bracket: the step and the rest of the text.\<close>

definition scan_bracket :: "string \<Rightarrow> (path_step \<times> string) option" where
  "scan_bracket r =
     (if r \<noteq> [] \<and> (hd r = CHR 0x22 \<or> hd r = CHR 0x27) then
        let q = hd r; key = takeWhile (\<lambda>c. c \<noteq> q) (tl r); r2 = dropWhile (\<lambda>c. c \<noteq> q) (tl r)
        in (case r2 of
              [] \<Rightarrow> None
            | _ # r3 \<Rightarrow>
                (case r3 of
                   [] \<Rightarrow> None
                 | b # r4 \<Rightarrow> if b \<noteq> CHR '']'' then None else Some (field_step key, skip_dot r4)))
      else
        let inner = takeWhile (\<lambda>c. c \<noteq> CHR '']'') r; r2 = dropWhile (\<lambda>c. c \<noteq> CHR '']'') r
        in (case r2 of
              [] \<Rightarrow> None
            | _ # r3 \<Rightarrow> map_option (\<lambda>s. (s, skip_dot r3)) (bracket_step inner)))"

definition plain_char :: "char \<Rightarrow> bool" where
  "plain_char c \<longleftrightarrow> c \<noteq> CHR ''.'' \<and> c \<noteq> CHR ''[''"

definition name_step :: "string \<Rightarrow> path_step" where
  "name_step f = (if f = ''*'' then wildcard_step else field_step f)"

lemma skip_dot_length: "length (skip_dot r) \<le> length r"
  by (simp add: skip_dot_def split: list.split)

lemma dropWhile_tail_length: "dropWhile P xs = c # ys \<Longrightarrow> length ys < length xs"
  using length_dropWhile_le [of P xs] by simp

lemma skip_dot_tail: "dropWhile P xs = c # ys \<Longrightarrow> length (skip_dot ys) < length xs"
  using dropWhile_tail_length [of P xs c ys] skip_dot_length [of ys] by simp

lemma scan_bracket_length:
  assumes "scan_bracket r = Some (s, r')"
  shows "length r' < length r"
proof (cases "r \<noteq> [] \<and> (hd r = CHR 0x22 \<or> hd r = CHR 0x27)")
  case True
  then obtain q t where r: "r = q # t" by (cases r) auto
  from assms True obtain c b r4 where "dropWhile (\<lambda>c. c \<noteq> q) t = c # b # r4" and "r' = skip_dot r4"
    by (auto simp: scan_bracket_def Let_def r split: list.splits if_splits)
  then show ?thesis
    using dropWhile_tail_length [of "\<lambda>c. c \<noteq> q" t c "b # r4"] skip_dot_length [of r4] r by simp
next
  case False
  with assms obtain c r3 where "dropWhile (\<lambda>c. c \<noteq> CHR '']'') r = c # r3" and "r' = skip_dot r3"
    by (auto simp: scan_bracket_def Let_def split: list.splits if_splits)
  then show ?thesis using skip_dot_tail by blast
qed

function path_steps :: "string \<Rightarrow> path_step list option" where
  "path_steps [] = Some []"
| "path_steps (c # r) =
     (if c = CHR ''['' then
        (case scan_bracket r of
           None \<Rightarrow> None
         | Some (s, r') \<Rightarrow> map_option ((#) s) (path_steps r'))
      else if c = CHR ''.'' then path_steps r
      else map_option ((#) (name_step (c # takeWhile plain_char r)))
             (path_steps (dropWhile plain_char r)))"
  by pat_completeness auto
termination
  by (relation "measure length")
     (auto dest: scan_bracket_length simp: less_Suc_eq_le length_dropWhile_le)

definition strip_root :: "string \<Rightarrow> string" where
  "strip_root p =
     (case p of
        c # r \<Rightarrow> (if c = CHR ''$'' then skip_dot r else p)
      | [] \<Rightarrow> [])"

definition parse_path :: "string \<Rightarrow> path_step list option" where
  "parse_path p = path_steps (strip_root p)"

section \<open>Lookup\<close>

fun walk :: "json \<Rightarrow> path_step list \<Rightarrow> json option" where
  "walk j [] = Some j"
| "walk j (s # ss) =
     (case ps_kind s of
        Field \<Rightarrow> (case jget (ps_field s) j of None \<Rightarrow> None | Some v \<Rightarrow> walk v ss)
      | Index \<Rightarrow>
          (case j of
             JArr xs \<Rightarrow>
               if ps_index s < 0 \<or> int (length xs) \<le> ps_index s then None
               else walk (xs ! nat (ps_index s)) ss
           | _ \<Rightarrow> if ps_index s = 0 then walk j ss else None)
      | Wildcard \<Rightarrow> None)"

definition get_path :: "json \<Rightarrow> string \<Rightarrow> json option" where
  "get_path doc p = (case parse_path p of None \<Rightarrow> None | Some steps \<Rightarrow> walk doc steps)"

section \<open>Write\<close>

text \<open>\<open>while (size() <= index) push_back(nullptr)\<close>.\<close>

definition pad_to :: "nat \<Rightarrow> json list \<Rightarrow> json list" where
  "pad_to i xs = xs @ replicate (Suc i - length xs) JNull"

text \<open>The loop of \<open>setPath\<close> below one cursor: the document it leaves there, and whether
  the write went through.  A cursor of the wrong kind stops it, unless it is null.\<close>

fun set_walk :: "path_step list \<Rightarrow> json \<Rightarrow> json \<Rightarrow> json \<times> bool" where
  "set_walk [] v j = (v, True)"
| "set_walk (s # ss) v j =
     (if ps_kind s = Index then
        (if \<not> is_array j \<and> \<not> is_null j then (j, False)
         else let i = nat (ps_index s); xs = pad_to i (jitems j); (c, ok) = set_walk ss v (xs ! i)
              in (JArr (xs[i := c]), ok))
      else
        (if \<not> is_object j \<and> \<not> is_null j then (j, False)
         else let ob = jentries j; (c, ok) = set_walk ss v (jvalue (ps_field s) JNull (JObj ob))
              in (JObj (obj_set (ps_field s) c ob), ok)))"

definition set_path :: "json \<Rightarrow> string \<Rightarrow> json \<Rightarrow> json \<times> bool" where
  "set_path doc p v =
     (case parse_path p of
        None \<Rightarrow> (doc, False)
      | Some steps \<Rightarrow> if steps = [] then (doc, False) else set_walk steps v doc)"

definition join_path :: "string \<Rightarrow> string \<Rightarrow> string" where
  "join_path base suffix =
     (if base = [] then suffix
      else if suffix \<noteq> [] \<and> hd suffix = CHR ''['' then base @ suffix
      else (if last base \<noteq> CHR ''.'' then base @ ''.'' else base) @ suffix)"

section \<open>Correctness\<close>

lemma length_pad_to [simp]: "length (pad_to i xs) = max (length xs) (Suc i)"
  by (simp add: pad_to_def max_def)

lemma pad_to_nth: "k < length xs \<Longrightarrow> pad_to i xs ! k = xs ! k"
  by (simp add: pad_to_def nth_append)

lemma pad_to_new [simp]: "length xs \<le> i \<Longrightarrow> pad_to i xs ! i = JNull"
  by (simp add: pad_to_def nth_append)

lemma pad_to_id: "i < length xs \<Longrightarrow> pad_to i xs = xs"
  by (simp add: pad_to_def)

text \<open>Indices are never negative and a wildcard is not a place to write to.\<close>

definition writable :: "path_step list \<Rightarrow> bool" where
  "writable ss \<longleftrightarrow> (\<forall>s \<in> set ss. ps_kind s \<noteq> Wildcard \<and> 0 \<le> ps_index s)"

lemma writable_simps [simp]:
  "writable []"
  "writable (s # ss) \<longleftrightarrow> ps_kind s \<noteq> Wildcard \<and> 0 \<le> ps_index s \<and> writable ss"
  by (auto simp: writable_def)

lemma path_steps_index: "path_steps p = Some ss \<Longrightarrow> s \<in> set ss \<Longrightarrow> 0 \<le> ps_index s"
proof (induction p arbitrary: ss rule: path_steps.induct)
  case 1
  then show ?case by simp
next
  case (2 c r)
  have br: "scan_bracket r = Some (t, r') \<Longrightarrow> 0 \<le> ps_index t" for t r'
    by (auto simp: scan_bracket_def bracket_step_def Let_def split: if_splits list.splits)
  have nm: "0 \<le> ps_index (name_step f)" for f by (simp add: name_step_def)
  show ?case
    using 2 br nm by (fastforce split: if_splits option.splits)
qed

text \<open>A write that went through is read back by the same steps.\<close>

lemma walk_set_walk: "writable ss \<Longrightarrow> set_walk ss v j = (j', True) \<Longrightarrow> walk j' ss = Some v"
proof (induction ss v j arbitrary: j' rule: set_walk.induct)
  case (1 v j)
  then show ?case by simp
next
  case (2 s ss v j)
  show ?case
  proof (cases "ps_kind s = Index")
    case True
    with 2 show ?thesis
      by (auto simp: Let_def split: if_splits prod.splits)
  next
    case False
    with "2.prems" have "ps_kind s = Field" by (cases "ps_kind s") auto
    with 2 show ?thesis
      by (auto simp: Let_def split: if_splits prod.splits)
  qed
qed

text \<open>Sorted documents, all the way down: what parsing and every write produce.\<close>

fun wf_json :: "json \<Rightarrow> bool" where
  "wf_json (JArr xs) = (\<forall>x \<in> set xs. wf_json x)"
| "wf_json (JObj ob) = (sorted_keys ob \<and> (\<forall>p \<in> set ob. wf_json (snd p)))"
| "wf_json _ = True"

lemma wf_json_jget: "wf_json j \<Longrightarrow> jget k j = Some v \<Longrightarrow> wf_json v"
  by (cases j) (auto dest!: map_of_SomeD)

lemma is_null_iff: "is_null j \<longleftrightarrow> j = JNull"
  by (cases j) auto

text \<open>A refused write leaves the document as it was.\<close>

lemma set_walk_new_ok: "snd (set_walk ss v JNull)"
proof (induction ss)
  case (Cons s ss)
  then show ?case by (auto simp: Let_def jvalue_def split: prod.splits)
qed simp

lemma set_walk_refused:
  "wf_json j \<Longrightarrow> set_walk ss v j = (j', False) \<Longrightarrow> j' = j"
proof (induction ss arbitrary: j j')
  case Nil
  then show ?case by simp
next
  case (Cons s ss)
  have new: "set_walk ss v JNull \<noteq> (c, False)" for c
    using set_walk_new_ok [of ss v] by auto
  show ?case
  proof (cases j)
    case JNull
    with Cons.prems new show ?thesis
      by (auto simp: Let_def jvalue_def split: if_splits prod.splits)
  next
    case (JArr xs)
    define i where "i = nat (ps_index s)"
    obtain c ok where sw: "set_walk ss v (pad_to i xs ! i) = (c, ok)" by force
    show ?thesis
    proof (cases "ps_kind s = Index")
      case True
      with Cons.prems JArr sw have j': "j' = JArr ((pad_to i xs)[i := c])" and "\<not> ok"
        by (simp_all add: i_def [symmetric])
      with sw new have "i < length xs" by (cases "i < length xs") auto
      with sw \<open>\<not> ok\<close> Cons.IH [of "xs ! i" c] Cons.prems(1) JArr have "c = xs ! i"
        by (simp add: pad_to_id)
      with j' \<open>i < length xs\<close> JArr show ?thesis by (simp add: pad_to_id)
    next
      case False
      with Cons.prems JArr show ?thesis by simp
    qed
  next
    case (JObj ob)
    define f where "f = ps_field s"
    obtain c ok where sw: "set_walk ss v (jvalue f JNull (JObj ob)) = (c, ok)" by force
    show ?thesis
    proof (cases "ps_kind s = Index")
      case True
      with Cons.prems JObj show ?thesis by simp
    next
      case False
      with Cons.prems JObj sw have j': "j' = JObj (obj_set f c ob)" and "\<not> ok"
        by (simp_all add: f_def [symmetric])
      with sw new obtain d where d: "map_of ob f = Some d"
        by (cases "map_of ob f") (auto simp: jvalue_def)
      then have "wf_json d" using Cons.prems(1) JObj by (auto dest!: map_of_SomeD)
      with sw d \<open>\<not> ok\<close> Cons.IH [of d c] have "c = d" by (simp add: jvalue_def)
      with j' d Cons.prems(1) JObj show ?thesis by (simp add: obj_set_same)
    qed
  qed (use Cons.prems in \<open>auto split: if_splits\<close>)
qed

text \<open>Members other than the first step's are not touched.\<close>

lemma set_walk_other_member:
  assumes "ps_kind s \<noteq> Index" and "is_object j" and "k \<noteq> ps_field s"
  shows "jget k (fst (set_walk (s # ss) v j)) = jget k j"
  using assms by (cases j) (auto simp: Let_def split: prod.splits)

lemma set_path_get_path:
  assumes "set_path doc p v = (doc', True)" and "parse_path p = Some ss"
    and "\<forall>s \<in> set ss. ps_kind s \<noteq> Wildcard"
  shows "get_path doc' p = Some v"
proof -
  have "writable ss"
    using assms(2,3) path_steps_index by (auto simp: writable_def parse_path_def)
  with assms show ?thesis
    by (auto simp: set_path_def get_path_def split: if_splits intro: walk_set_walk)
qed

section \<open>Properties\<close>

lemma set_path_rejected:
  assumes "wf_json doc" and "set_path doc p v = (doc', False)"
  shows "doc' = doc"
  using assms set_walk_refused [OF assms(1)] by (auto simp: set_path_def split: option.splits if_splits)

text \<open>
  C36: \<open>setPath\<close> either stores the value, and then \<open>getPath\<close> reads it back through the same path, or it refuses
  and the document is as before; for every well-formed document and every path that parses and has no wildcard.
\<close>

theorem set_path_stores_or_refuses:
  assumes "wf_json doc" and "set_path doc p v = (doc', ok)" and "parse_path p = Some ss"
    and "list_all (\<lambda>s. ps_kind s \<noteq> Wildcard) ss"
  shows "if ok then get_path doc' p = Some v else doc' = doc"
  using set_path_get_path [of doc p v doc' ss] set_path_rejected [OF assms(1), of p v doc'] assms(2-4)
  by (cases ok) (auto simp: list_all_iff)

definition sample_path :: string where
  "sample_path = ''$.a.b[1]''"

lemma parse_sample_path:
  "parse_path sample_path =
     Some [\<lparr>ps_kind = Field, ps_field = ''a'', ps_index = 0\<rparr>, \<lparr>ps_kind = Field, ps_field = ''b'', ps_index = 0\<rparr>,
           \<lparr>ps_kind = Index, ps_field = ''1'', ps_index = 1\<rparr>]"
  by code_simp

theorem set_path_stores_or_refuses_witness:
  "get_path (fst (set_path (JObj [(''z'', JInt 1)]) sample_path (JInt 7))) sample_path = Some (JInt 7)"
proof -
  let ?r = "set_path (JObj [(''z'', JInt 1)]) sample_path (JInt 7)"
  have ok: "snd ?r" by code_simp
  have wf: "wf_json (JObj [(''z'', JInt 1)])" by (simp add: sorted_keys_def)
  obtain d b where r: "?r = (d, b)" by fastforce
  from set_path_stores_or_refuses [OF wf r parse_sample_path] ok r show ?thesis by simp
qed

end
