(* ===== verification/Sapo_Context.thy ===== *)
theory Sapo_Context
  imports Sapo_JsonPath
begin

text \<open>
  \<open>src/src/runtime/Context.hpp\<close>: the variable arena of a session.  The record has the
  fields of the class (the mutex apart: every operation holds it for its whole body, so
  each is one step).  \<open>m_variables\<close> is an object, \<open>m_layers\<close> has the innermost overlay
  first, \<open>m_journal\<close> is the ordered map from a key to the sequence number of its last
  write.  Proved here: reads after writes, what a merge changes and reports, and that
  the journal records exactly the writes.
\<close>

record frame_state =
  fr_kind :: string
  fr_node :: string
  fr_position :: int
  fr_resume :: string
  fr_state :: json

record loop_state =
  ls_index :: int
  ls_total :: int
  ls_items :: json
  ls_active :: bool

record ctx =
  m_variables :: obj
  m_layers :: "json list"
  m_journal :: "(string \<times> nat) list"
  m_sequence :: nat
  m_delete_on_null :: bool
  m_loop_states :: "(string \<times> loop_state) list"
  m_frames :: "frame_state list"

definition empty_ctx :: ctx where
  "empty_ctx = \<lparr>m_variables = [], m_layers = [], m_journal = [], m_sequence = 0,
     m_delete_on_null = False, m_loop_states = [], m_frames = []\<rparr>"

section \<open>Reading\<close>

fun layer_lookup :: "string \<Rightarrow> json list \<Rightarrow> json option" where
  "layer_lookup k [] = None"
| "layer_lookup k (l # ls) = (case jget k l of Some v \<Rightarrow> Some v | None \<Rightarrow> layer_lookup k ls)"

definition lookup_locked :: "string \<Rightarrow> ctx \<Rightarrow> json option" where
  "lookup_locked k c =
     (case layer_lookup k (m_layers c) of Some v \<Rightarrow> Some v | None \<Rightarrow> map_of (m_variables c) k)"

definition get_variable :: "string \<Rightarrow> ctx \<Rightarrow> json option" where
  "get_variable k c = lookup_locked k c"

definition has_variable :: "string \<Rightarrow> ctx \<Rightarrow> bool" where
  "has_variable k c \<longleftrightarrow> lookup_locked k c \<noteq> None"

definition get_by_path :: "string \<Rightarrow> ctx \<Rightarrow> json option" where
  "get_by_path p c =
     (case lookup_locked p c of
        Some v \<Rightarrow> Some v
      | None \<Rightarrow>
          (case parse_path p of
             None \<Rightarrow> None
           | Some [] \<Rightarrow> None
           | Some (s # rest) \<Rightarrow>
               (case (case lookup_locked (ps_field s) c of None \<Rightarrow> None | Some d \<Rightarrow> walk d rest) of
                  Some v \<Rightarrow> Some v
                | None \<Rightarrow> walk (JObj (m_variables c)) (s # rest))))"

section \<open>Writing\<close>

definition record_write :: "string \<Rightarrow> ctx \<Rightarrow> ctx" where
  "record_write k c =
     c\<lparr>m_sequence := Suc (m_sequence c), m_journal := obj_set k (Suc (m_sequence c)) (m_journal c)\<rparr>"

definition set_variable :: "string \<Rightarrow> json \<Rightarrow> ctx \<Rightarrow> ctx" where
  "set_variable k v c =
     record_write k
       (if is_null v \<and> m_delete_on_null c then c\<lparr>m_variables := obj_erase k (m_variables c)\<rparr>
        else c\<lparr>m_variables := obj_set k v (m_variables c)\<rparr>)"

definition set_delete_on_null :: "bool \<Rightarrow> ctx \<Rightarrow> ctx" where
  "set_delete_on_null b c = c\<lparr>m_delete_on_null := b\<rparr>"

definition erase_variable :: "string \<Rightarrow> ctx \<Rightarrow> ctx" where
  "erase_variable k c = record_write k (c\<lparr>m_variables := obj_erase k (m_variables c)\<rparr>)"

text \<open>The inner loop of \<open>setByPath\<close>: a cursor of the wrong kind is replaced.\<close>

fun force_walk :: "path_step list \<Rightarrow> json \<Rightarrow> json \<Rightarrow> json" where
  "force_walk [] v j = v"
| "force_walk (s # ss) v j =
     (if ps_kind s = Index then
        let i = nat (ps_index s); xs = pad_to i (jitems j)
        in JArr (xs[i := force_walk ss v (xs ! i)])
      else
        let ob = jentries j
        in JObj (obj_set (ps_field s) (force_walk ss v (jvalue (ps_field s) JNull (JObj ob))) ob))"

definition set_by_path :: "string \<Rightarrow> json \<Rightarrow> ctx \<Rightarrow> ctx" where
  "set_by_path p v c =
     (if map_of (m_variables c) p \<noteq> None then
        record_write p (c\<lparr>m_variables := obj_set p v (m_variables c)\<rparr>)
      else
        (case parse_path p of
           Some (s # rest) \<Rightarrow>
             (case map_of (m_variables c) (ps_field s) of
                Some base \<Rightarrow>
                  record_write (ps_field s)
                    (c\<lparr>m_variables := obj_set (ps_field s)
                        (if rest = [] then base else force_walk rest v base) (m_variables c)\<rparr>)
              | None \<Rightarrow>
                  (let document = fst (set_path (JObj []) p v)
                   in record_write (ps_field s)
                        (c\<lparr>m_variables := obj_set (ps_field s) (jvalue (ps_field s) JNull document)
                            (m_variables c)\<rparr>)))
         | _ \<Rightarrow> record_write p (c\<lparr>m_variables := obj_set p v (m_variables c)\<rparr>)))"

definition snapshot :: "ctx \<Rightarrow> json" where
  "snapshot c = JObj (m_variables c)"

definition ctx_size :: "ctx \<Rightarrow> nat" where
  "ctx_size c = length (m_variables c)"

definition ctx_keys :: "ctx \<Rightarrow> string list" where
  "ctx_keys c = map fst (m_variables c)"

definition restore :: "json \<Rightarrow> ctx \<Rightarrow> ctx" where
  "restore j c = c\<lparr>m_variables := jentries j\<rparr>"

definition clear_ctx :: "ctx \<Rightarrow> ctx" where
  "clear_ctx c = c\<lparr>m_variables := [], m_journal := [], m_sequence := 0\<rparr>"

definition fork :: "ctx \<Rightarrow> ctx" where
  "fork c = empty_ctx\<lparr>m_variables := m_variables c\<rparr>"

text \<open>The JSON text of \<open>serializeState\<close>/\<open>deserializeState\<close> is the library's; the parser and
  the printer are the parameters, \<open>None\<close> the exception of a malformed text.\<close>

definition serialize_state :: "(json \<Rightarrow> string) \<Rightarrow> ctx \<Rightarrow> string" where
  "serialize_state dump c = dump (JObj (m_variables c))"

definition deserialize_state :: "(string \<Rightarrow> json option) \<Rightarrow> string \<Rightarrow> ctx \<Rightarrow> ctx option" where
  "deserialize_state parse text c =
     (if text = [] then Some c else map_option (\<lambda>j. c\<lparr>m_variables := jentries j\<rparr>) (parse text))"

section \<open>Layers, loop counters, frames\<close>

definition push_layer :: "json \<Rightarrow> ctx \<Rightarrow> ctx" where
  "push_layer l c = c\<lparr>m_layers := l # m_layers c\<rparr>"

definition pop_layer :: "ctx \<Rightarrow> ctx" where
  "pop_layer c = c\<lparr>m_layers := tl (m_layers c)\<rparr>"

definition set_layered :: "string \<Rightarrow> json \<Rightarrow> ctx \<Rightarrow> ctx" where
  "set_layered k v c =
     (case m_layers c of
        l # ls \<Rightarrow> c\<lparr>m_layers := jset k v l # ls\<rparr>
      | [] \<Rightarrow> record_write k (c\<lparr>m_variables := obj_set k v (m_variables c)\<rparr>))"

definition set_loop_state :: "string \<Rightarrow> loop_state \<Rightarrow> ctx \<Rightarrow> ctx" where
  "set_loop_state l s c = c\<lparr>m_loop_states := obj_set l s (m_loop_states c)\<rparr>"

definition get_loop_state :: "string \<Rightarrow> ctx \<Rightarrow> loop_state option" where
  "get_loop_state l c = map_of (m_loop_states c) l"

definition clear_loop_state :: "string \<Rightarrow> ctx \<Rightarrow> ctx" where
  "clear_loop_state l c = c\<lparr>m_loop_states := obj_erase l (m_loop_states c)\<rparr>"

definition set_frames :: "frame_state list \<Rightarrow> ctx \<Rightarrow> ctx" where
  "set_frames fs c = c\<lparr>m_frames := fs\<rparr>"

definition frame_to_json :: "frame_state \<Rightarrow> json" where
  "frame_to_json f =
     jobj [(''kind'', JStr (fr_kind f)), (''node'', JStr (fr_node f)),
           (''position'', JInt (fr_position f)), (''resume'', JStr (fr_resume f)),
           (''state'', fr_state f)]"

definition frames_to_json :: "frame_state list \<Rightarrow> json" where
  "frames_to_json fs = JArr (map frame_to_json fs)"

text \<open>\<open>item.value("position", 0)\<close> reads the position as a 32-bit \<open>int\<close>, though the frame holds 64 bits.\<close>

definition frame_from_json :: "json \<Rightarrow> frame_state" where
  "frame_from_json j =
     \<lparr>fr_kind = jvalue_str ''kind'' [] j, fr_node = jvalue_str ''node'' [] j,
      fr_position = as_int32 (jvalue_int ''position'' 0 j), fr_resume = jvalue_str ''resume'' [] j,
      fr_state = jvalue ''state'' (JObj []) j\<rparr>"

definition frames_from_json :: "json \<Rightarrow> frame_state list" where
  "frames_from_json j = (if is_array j then map frame_from_json (jitems j) else [])"

section \<open>Change tracking and merging\<close>

definition mark :: "ctx \<Rightarrow> nat" where
  "mark c = m_sequence c"

text \<open>\<open>changedSince\<close> walks the journal from its greatest key downwards and stops at the first
  entry that is not newer.\<close>

definition changed_since :: "nat \<Rightarrow> ctx \<Rightarrow> string set" where
  "changed_since n c = fst ` set (takeWhile (\<lambda>p. n < snd p) (rev (m_journal c)))"

datatype merge_policy = LastWriterWins | SkipConflicts | FailConflicts

definition merge_entry ::
  "string set \<Rightarrow> merge_policy \<Rightarrow> ctx \<times> string list \<Rightarrow> string \<times> json \<Rightarrow> ctx \<times> string list" where
  "merge_entry ks pol st e =
     (let (c, conflicts) = st; (k, v) = e
      in if ks \<noteq> {} \<and> k \<notin> ks then (c, conflicts)
         else let clash = (case map_of (m_variables c) k of Some w \<Rightarrow> \<not> json_eq w v | None \<Rightarrow> False)
              in if clash \<and> pol = SkipConflicts then (c, conflicts @ [k])
                 else (c\<lparr>m_variables := obj_set k v (m_variables c)\<rparr>,
                       if clash then conflicts @ [k] else conflicts))"

definition merge_from :: "ctx \<Rightarrow> string set \<Rightarrow> merge_policy \<Rightarrow> ctx \<Rightarrow> ctx \<times> string list" where
  "merge_from other ks pol c = foldl (merge_entry ks pol) (c, []) (m_variables other)"

section \<open>Lemmas: frames and layers\<close>

lemma frame_from_to_json [simp]: "frame_from_json (frame_to_json f) = f\<lparr>fr_position := as_int32 (fr_position f)\<rparr>"
  by (cases f) (simp add: frame_from_json_def frame_to_json_def jvalue_defs jget_jobj)

lemma frames_from_to_json:
  "frames_from_json (frames_to_json fs) = map (\<lambda>f. f\<lparr>fr_position := as_int32 (fr_position f)\<rparr>) fs"
  by (simp add: frames_from_json_def frames_to_json_def comp_def)

text \<open>The positions a restored frame can have.\<close>

definition short_position :: "frame_state \<Rightarrow> bool" where
  "short_position f \<longleftrightarrow> - 2147483648 \<le> fr_position f \<and> fr_position f < 2147483648"

lemma frames_from_to_json_short: "list_all short_position fs \<Longrightarrow> frames_from_json (frames_to_json fs) = fs"
  by (induction fs) (simp_all add: frames_from_to_json short_position_def)

lemma pop_push_layer: "pop_layer (push_layer l c) = c"
  by (simp add: pop_layer_def push_layer_def)

section \<open>Lemmas: reads after writes\<close>

lemma record_write_simps [frame_simps]:
  "m_variables (record_write k c) = m_variables c"
  "m_layers (record_write k c) = m_layers c"
  "m_sequence (record_write k c) = Suc (m_sequence c)"
  "m_journal (record_write k c) = obj_set k (Suc (m_sequence c)) (m_journal c)"
  "m_frames (record_write k c) = m_frames c"
  "m_delete_on_null (record_write k c) = m_delete_on_null c"
  by (simp_all add: record_write_def)

lemma lookup_set_variable:
  assumes "layer_lookup k (m_layers c) = None" and "\<not> (is_null v \<and> m_delete_on_null c)"
  shows "lookup_locked k (set_variable k v c) = Some v"
  using assms by (simp add: lookup_locked_def set_variable_def record_write_def)

lemma lookup_set_variable_other:
  "k \<noteq> k' \<Longrightarrow> lookup_locked k (set_variable k' v c) = lookup_locked k c"
  by (auto simp: lookup_locked_def set_variable_def record_write_def split: option.split)

lemma walk_force_walk: "writable ss \<Longrightarrow> walk (force_walk ss v j) ss = Some v"
proof (induction ss arbitrary: j)
  case Nil
  then show ?case by simp
next
  case (Cons s ss)
  show ?case
  proof (cases "ps_kind s = Index")
    case True
    with Cons show ?thesis by (auto simp: Let_def)
  next
    case False
    with Cons have "ps_kind s = Field" by (cases "ps_kind s") auto
    with Cons show ?thesis by (auto simp: Let_def)
  qed
qed

lemma set_walk_empty_object:
  "ps_kind s \<noteq> Index \<Longrightarrow> snd (set_walk (s # ss) v (JObj []))"
  using set_walk_new_ok [of ss v] by (auto simp: jvalue_def split: prod.splits)

text \<open>What \<open>setByPath\<close> stores is found again by \<open>getByPath\<close>, on every branch, when no layer
  shadows the names involved and the path is not a renaming of an existing one-step path.\<close>

lemma get_set_by_path_steps:
  assumes nolayer: "m_layers c = []"
    and path: "parse_path p = Some (s # rest)"
    and w: "writable (s # rest)" and fld: "ps_kind s = Field"
    and fresh: "map_of (m_variables c) p = None"
    and deep: "rest \<noteq> [] \<or> map_of (m_variables c) (ps_field s) = None"
  shows "\<exists>d. map_of (m_variables (set_by_path p v c)) (ps_field s) = Some d \<and> walk d rest = Some v"
proof (cases "map_of (m_variables c) (ps_field s)")
  case (Some base)
  with deep have "rest \<noteq> []" by simp
  with Some path fresh w show ?thesis
    by (simp add: set_by_path_def record_write_def walk_force_walk)
next
  case None
  obtain d' ok where sw: "set_walk (s # rest) v (JObj []) = (d', ok)" by force
  have ok using set_walk_empty_object [of s rest v] fld sw by simp
  then have wk: "walk d' (s # rest) = Some v"
    using walk_set_walk [OF w] sw by simp
  then obtain d where "jget (ps_field s) d' = Some d" "walk d rest = Some v"
    using fld by (auto split: option.splits)
  with None path fresh sw show ?thesis
    by (simp add: set_by_path_def record_write_def set_path_def jvalue_def)
qed

lemma get_set_by_path:
  assumes "m_layers c = []" and "parse_path p = Some (s # rest)"
    and "writable (s # rest)" and "ps_kind s = Field"
    and deep: "rest \<noteq> [] \<or> map_of (m_variables c) (ps_field s) = None"
    and flat: "p = ps_field s \<longrightarrow> rest = []"
  shows "get_by_path p (set_by_path p v c) = Some v"
proof (cases "map_of (m_variables c) p")
  case (Some w)
  then show ?thesis
    using assms(1) by (simp add: set_by_path_def get_by_path_def lookup_locked_def record_write_def)
next
  case None
  let ?c' = "set_by_path p v c"
  obtain d where d: "map_of (m_variables ?c') (ps_field s) = Some d" "walk d rest = Some v"
    using get_set_by_path_steps [OF assms(1-4) None deep] by blast
  have lay: "m_layers ?c' = []"
    using assms(1) by (simp add: set_by_path_def record_write_def Let_def split: option.splits list.splits)
  show ?thesis
  proof (cases "p = ps_field s")
    case True
    with flat d lay show ?thesis by (simp add: get_by_path_def lookup_locked_def)
  next
    case neq: False
    have "map_of (m_variables ?c') p = None"
      using None neq assms(2)
      by (auto simp: set_by_path_def record_write_def Let_def split: option.splits)
    with d lay assms(2) show ?thesis by (simp add: get_by_path_def lookup_locked_def)
  qed
qed

section \<open>Lemmas: the journal\<close>

text \<open>Every sequence number in the journal was issued.\<close>

definition journal_ok :: "ctx \<Rightarrow> bool" where
  "journal_ok c \<longleftrightarrow> sorted_keys (m_journal c) \<and> (\<forall>p \<in> set (m_journal c). 0 < snd p \<and> snd p \<le> m_sequence c)"

lemma set_obj_set: "set (obj_set k v ob) \<subseteq> insert (k, v) (set ob)"
  by (induction ob) (auto split: if_splits)

lemma journal_ok_empty: "journal_ok empty_ctx"
  by (simp add: journal_ok_def empty_ctx_def sorted_keys_def)

lemma journal_ok_record_write: "journal_ok c \<Longrightarrow> journal_ok (record_write k c)"
  using set_obj_set [of k "Suc (m_sequence c)" "m_journal c"]
  by (fastforce simp: journal_ok_def record_write_def sorted_keys_obj_set)

lemma journal_ok_cong: "m_journal c' = m_journal c \<Longrightarrow> m_sequence c' = m_sequence c \<Longrightarrow> journal_ok c' = journal_ok c"
  by (simp add: journal_ok_def)

lemma changed_since_0: "journal_ok c \<Longrightarrow> changed_since 0 c = fst ` set (m_journal c)"
proof -
  assume "journal_ok c"
  then have all: "takeWhile (\<lambda>p. 0 < snd p) (rev (m_journal c)) = rev (m_journal c)"
    by (auto simp: takeWhile_eq_all_conv journal_ok_def)
  show ?thesis unfolding changed_since_def all by simp
qed

text \<open>The key an operation journals.\<close>

definition path_key :: "string \<Rightarrow> ctx \<Rightarrow> string" where
  "path_key p c =
     (if map_of (m_variables c) p \<noteq> None then p
      else case parse_path p of Some (s # _) \<Rightarrow> ps_field s | _ \<Rightarrow> p)"

lemma journal_set_by_path:
  "m_journal (set_by_path p v c) = obj_set (path_key p c) (Suc (m_sequence c)) (m_journal c)"
  by (auto simp: set_by_path_def path_key_def record_write_def Let_def split: option.splits list.splits)

lemma sequence_set_by_path: "m_sequence (set_by_path p v c) = Suc (m_sequence c)"
  by (auto simp: set_by_path_def record_write_def Let_def split: option.splits list.splits)

lemma journal_ok_set_by_path: "journal_ok c \<Longrightarrow> journal_ok (set_by_path p v c)"
  using journal_ok_record_write [of c "path_key p c"]
  by (subst journal_ok_cong [of _ "record_write (path_key p c) c"])
     (simp_all add: journal_set_by_path sequence_set_by_path record_write_simps)

lemma variables_set_by_path_other:
  "k \<noteq> path_key p c \<Longrightarrow> map_of (m_variables (set_by_path p v c)) k = map_of (m_variables c) k"
  by (auto simp: set_by_path_def path_key_def record_write_def Let_def split: option.splits list.splits if_splits)

section \<open>Lemmas: merging\<close>

lemma merge_entry_journal:
  "m_journal (fst (merge_entry ks pol st e)) = m_journal (fst st)"
  by (auto simp: merge_entry_def Let_def split: prod.splits option.splits)

lemma merge_from_journal: "m_journal (fst (merge_from other ks pol c)) = m_journal c"
  unfolding merge_from_def
  by (rule foldl_invariant [where P = "\<lambda>st. m_journal (fst st) = m_journal c"])
     (auto simp: merge_entry_journal)

text \<open>The merge as one function of the two stores: what is in conflict, and the result of a key.\<close>

definition clashes :: "ctx \<Rightarrow> string \<times> json \<Rightarrow> bool" where
  "clashes c e \<longleftrightarrow> (case map_of (m_variables c) (fst e) of Some w \<Rightarrow> \<not> json_eq w (snd e) | None \<Rightarrow> False)"

lemma merge_entry_other:
  "k \<noteq> fst e \<Longrightarrow> map_of (m_variables (fst (merge_entry ks pol st e))) k = map_of (m_variables (fst st)) k"
  by (auto simp: merge_entry_def Let_def split: prod.splits option.splits)

lemma merge_fold:
  assumes "distinct (map fst es)"
  shows "snd (foldl (merge_entry ks pol) (c, cs) es)
           = cs @ map fst (filter (\<lambda>e. (ks = {} \<or> fst e \<in> ks) \<and> clashes c e) es)
       \<and> map_of (m_variables (fst (foldl (merge_entry ks pol) (c, cs) es))) k =
           (case map_of es k of
              Some v \<Rightarrow> if (ks = {} \<or> k \<in> ks) \<and> \<not> (clashes c (k, v) \<and> pol = SkipConflicts) then Some v
                        else map_of (m_variables c) k
            | None \<Rightarrow> map_of (m_variables c) k)"
  using assms
proof (induction es arbitrary: c cs)
  case Nil
  then show ?case by simp
next
  case (Cons e es)
  obtain k1 v1 where e: "e = (k1, v1)" by (cases e)
  obtain c1 cs1 where m: "merge_entry ks pol (c, cs) e = (c1, cs1)" by force
  from Cons.prems have notin: "k1 \<notin> fst ` set es" and d: "distinct (map fst es)" by (auto simp: e)
  have same: "map_of (m_variables c1) x = map_of (m_variables c) x" if "x \<noteq> k1" for x
    using merge_entry_other [of x e ks pol "(c, cs)"] that by (simp add: m [unfolded e] e)
  have cl: "clashes c1 e' = clashes c e'" if "e' \<in> set es" for e'
  proof -
    have "fst e' \<noteq> k1" using that notin by force
    with same show ?thesis by (simp add: clashes_def)
  qed
  then have fl: "filter (\<lambda>e. (ks = {} \<or> fst e \<in> ks) \<and> clashes c1 e) es
      = filter (\<lambda>e. (ks = {} \<or> fst e \<in> ks) \<and> clashes c e) es"
    by (intro filter_cong) auto
  have head: "cs1 = cs @ (if (ks = {} \<or> k1 \<in> ks) \<and> clashes c e then [k1] else [])"
    "map_of (m_variables c1) k1 =
       (if (ks = {} \<or> k1 \<in> ks) \<and> \<not> (clashes c e \<and> pol = SkipConflicts) then Some v1
        else map_of (m_variables c) k1)"
    using m by (auto simp: merge_entry_def e Let_def clashes_def split: if_splits option.splits)
  have none: "map_of es k1 = None" using notin by (simp add: map_of_eq_None_iff)
  show ?case
  proof (cases "k = k1")
    case True
    with Cons.IH [OF d, of c1 cs1] show ?thesis
      by (simp add: m [unfolded e] fl head e none)
  next
    case False
    have "clashes c1 (k, v) = clashes c (k, v)" for v
      using same [OF False] by (simp add: clashes_def)
    with False Cons.IH [OF d, of c1 cs1] same [OF False] show ?thesis
      by (simp add: m [unfolded e] fl head e split: option.splits)
  qed
qed

lemma merge_from_spec:
  assumes "sorted_keys (m_variables other)"
  shows "snd (merge_from other ks pol c)
           = map fst (filter (\<lambda>e. (ks = {} \<or> fst e \<in> ks) \<and> clashes c e) (m_variables other))"
    and "map_of (m_variables (fst (merge_from other ks pol c))) k =
           (case map_of (m_variables other) k of
              Some v \<Rightarrow> if (ks = {} \<or> k \<in> ks) \<and> \<not> (clashes c (k, v) \<and> pol = SkipConflicts) then Some v
                        else map_of (m_variables c) k
            | None \<Rightarrow> map_of (m_variables c) k)"
  using merge_fold [OF sorted_keys_distinct [OF assms], of ks pol c "[]" k]
  by (simp_all add: merge_from_def)

section \<open>Properties\<close>

text \<open>
  C39: \<open>mergeFrom\<close>, for every policy and key filter: the reported conflicts are the selected keys that hold
  different values on both sides, in key order; a selected key of the other context takes its value unless it
  conflicts and conflicts are skipped; every other key keeps its value.
\<close>

theorem merge_from_functional:
  assumes "sorted_keys (m_variables other)"
  shows "snd (merge_from other ks pol c)
           = map fst (filter (\<lambda>e. (ks = {} \<or> fst e \<in> ks) \<and> clashes c e) (m_variables other)) \<and>
         map_of (m_variables (fst (merge_from other ks pol c))) k =
           (case map_of (m_variables other) k of
              Some v \<Rightarrow> if (ks = {} \<or> k \<in> ks) \<and> \<not> (clashes c (k, v) \<and> pol = SkipConflicts) then Some v
                        else map_of (m_variables c) k
            | None \<Rightarrow> map_of (m_variables c) k)"
  using merge_from_spec [OF assms] by blast

definition sample_ctx :: "obj \<Rightarrow> ctx" where
  "sample_ctx ob = empty_ctx\<lparr>m_variables := ob\<rparr>"

theorem merge_from_functional_witness:
  "map_of (m_variables (fst (merge_from (sample_ctx [(''a'', JInt 2), (''b'', JInt 3)]) {''a''} SkipConflicts
      (sample_ctx [(''a'', JInt 1)])))) ''a'' = Some (JInt 1)"
  using merge_from_functional [of "sample_ctx [(''a'', JInt 2), (''b'', JInt 3)]" "{''a''}" SkipConflicts
      "sample_ctx [(''a'', JInt 1)]" "''a''"]
  by (simp add: sample_ctx_def sorted_keys_def clashes_def json_eq.simps empty_ctx_def)

text \<open>
  A value written through a path is read back through it: after \<open>setByPath\<close> without layers, \<open>getByPath\<close>
  with the same path returns the value, for paths whose steps are fields and indices and whose text is not
  itself a variable spelt differently from its first field.
\<close>

theorem set_by_path_reads_back:
  assumes "m_layers c = []" and "parse_path p = Some (s # rest)" and "writable (s # rest)" and "ps_kind s = Field"
    and "rest \<noteq> [] \<or> map_of (m_variables c) (ps_field s) = None" and "p = ps_field s \<longrightarrow> rest = []"
  shows "get_by_path p (set_by_path p v c) = Some v"
  using assms by (rule get_set_by_path)

theorem set_by_path_reads_back_witness:
  "get_by_path sample_path (set_by_path sample_path (JInt 7) (sample_ctx [(''a'', JNull)])) = Some (JInt 7)"
  by (rule set_by_path_reads_back [OF _ parse_sample_path])
     (simp_all add: sample_ctx_def empty_ctx_def writable_def sample_path_def)

text \<open>
  \<open>changedSince\<close> walks the journal in key order and stops at the first old entry, so it misses writes: after
  writing \<open>b\<close> and then \<open>a\<close>, the write of \<open>a\<close> is not reported as changed since the write of \<open>b\<close>.
\<close>

theorem changed_since_misses_writes:
  "let c1 = set_variable ''b'' (JInt 1) empty_ctx; c2 = set_variable ''a'' (JInt 2) c1
   in ''a'' \<notin> changed_since (mark c1) c2 \<and> get_variable ''a'' c1 \<noteq> get_variable ''a'' c2"
  by code_simp

end
