(* ===== verification/Sapo_Core.thy ===== *)
theory Sapo_Core
  imports Sapo_Json
begin

text \<open>
  \<open>src/src/runtime/SapoError.hpp\<close> and \<open>src/src/runtime/ControlFlow.hpp\<close>: the error type
  every component reports with, and the signals a node activation returns to the
  interpreter.
\<close>

section \<open>Errors\<close>

datatype error_code =
    Parse | Validation | Routing | NotFound | ExpressionErr | Http | HttpStatus | CapabilityErr
  | DataSourceErr | Store | Timeout | Limit | NotImplemented | Internal

fun error_code_string :: "error_code \<Rightarrow> string" where
  "error_code_string Parse = ''PARSE_ERROR''"
| "error_code_string Validation = ''VALIDATION_ERROR''"
| "error_code_string Routing = ''ROUTING_ERROR''"
| "error_code_string NotFound = ''NOT_FOUND''"
| "error_code_string ExpressionErr = ''EXPRESSION_ERROR''"
| "error_code_string Http = ''HTTP_ERROR''"
| "error_code_string HttpStatus = ''HTTP_STATUS_ERROR''"
| "error_code_string CapabilityErr = ''CAPABILITY_ERROR''"
| "error_code_string DataSourceErr = ''DATA_SOURCE_ERROR''"
| "error_code_string Store = ''STORE_ERROR''"
| "error_code_string Timeout = ''TIMEOUT''"
| "error_code_string Limit = ''LIMIT_EXCEEDED''"
| "error_code_string NotImplemented = ''NOT_IMPLEMENTED''"
| "error_code_string Internal = ''INTERNAL_ERROR''"

record sapo_error =
  se_code :: error_code
  se_message :: string
  se_data :: json
  se_node :: string

type_synonym 'a res = "sapo_error + 'a"

definition sapo_error :: "error_code \<Rightarrow> string \<Rightarrow> json \<Rightarrow> string \<Rightarrow> sapo_error" where
  "sapo_error c m d n = \<lparr>se_code = c, se_message = m, se_data = d, se_node = n\<rparr>"

text \<open>\<open>SapoError::toJson\<close>: the \<open>$error\<close> object handed to catch blocks.\<close>

definition sapo_error_json :: "sapo_error \<Rightarrow> json" where
  "sapo_error_json e =
     (let j = jobj [(''code'', JStr (error_code_string (se_code e))),
                    (''message'', JStr (se_message e)),
                    (''node'', if se_node e = [] then JNull else JStr (se_node e))]
      in if is_null (se_data e) then j else jset ''data'' (se_data e) j)"

text \<open>The codes are told apart by their strings (they are compared as strings by \<open>retry_on\<close>
  and by the catch routing).\<close>

lemma error_code_string_inject: "error_code_string a = error_code_string b \<longleftrightarrow> a = b"
  by (cases a; cases b) simp_all

section \<open>Control signals\<close>

record suspend_request =
  sr_session :: string
  sr_node :: string
  sr_reason :: string
  sr_prompt :: json
  sr_input_variable :: string
  sr_resume_at :: "int option"
  sr_timeout :: "int option"
  sr_resume_node :: string
  sr_event_name :: "string option"
  sr_handler_node :: "string option"
  sr_data :: json

text \<open>A request with the defaults of the struct.\<close>

definition default_suspend :: suspend_request where
  "default_suspend =
     \<lparr>sr_session = [], sr_node = [], sr_reason = ''input'', sr_prompt = JNull,
      sr_input_variable = ''input'', sr_resume_at = None, sr_timeout = None, sr_resume_node = [],
      sr_event_name = None, sr_handler_node = None, sr_data = JObj []\<rparr>"

record terminate_signal =
  tm_status :: string
  tm_payload :: json
  tm_error_code :: "string option"
  tm_message :: "string option"

datatype signal =
    Continue
  | JumpTo string
  | Suspend suspend_request
  | Terminate terminate_signal
  | LoopBreak "string option"
  | LoopContinue "string option"

fun describe_signal :: "signal \<Rightarrow> string" where
  "describe_signal Continue = ''continue''"
| "describe_signal (JumpTo t) = ''jump:'' @ t"
| "describe_signal (Suspend _) = ''suspend''"
| "describe_signal (Terminate t) = ''terminate:'' @ tm_status t"
| "describe_signal (LoopBreak _) = ''break''"
| "describe_signal (LoopContinue _) = ''continue-loop''"

text \<open>\<open>outcomeName\<close> of the interpreter's trace records.\<close>

fun outcome_name :: "signal \<Rightarrow> string" where
  "outcome_name (JumpTo _) = ''jumped''"
| "outcome_name (Suspend _) = ''suspended''"
| "outcome_name (Terminate _) = ''terminated''"
| "outcome_name (LoopBreak _) = ''looped''"
| "outcome_name (LoopContinue _) = ''looped''"
| "outcome_name Continue = ''success''"

end
