(* ===== verification/Sapo_Time.thy ===== *)
theory Sapo_Time
  imports Sapo_Json
begin

text \<open>
  \<open>src/src/util/TimeUtils.cpp\<close>: durations, fixed zone offsets, and the conversion between
  epoch milliseconds and calendar fields.  The C library's \<open>gmtime_r\<close> and \<open>timegm\<close> are
  written out as the proleptic Gregorian calendar (\<open>civil_of_days\<close>, \<open>days_of_civil\<close>),
  proved inverse to each other.  A \<open>std::stod\<close> that throws is the outcome \<open>Throws\<close>: the
  component loop of \<open>parseDuration\<close> does not catch it.
\<close>

section \<open>The civil calendar\<close>

definition leap :: "int \<Rightarrow> bool" where
  "leap y \<longleftrightarrow> y mod 4 = 0 \<and> (y mod 100 \<noteq> 0 \<or> y mod 400 = 0)"

text \<open>Days from 0001-01-01 to the first of January of a year.\<close>

definition year_days :: "int \<Rightarrow> int" where
  "year_days y = 365 * (y - 1) + (y - 1) div 4 - (y - 1) div 100 + (y - 1) div 400"

definition month_start :: "bool \<Rightarrow> int \<Rightarrow> int" where
  "month_start lp m =
     (let n = (if lp then 1 else 0)
      in if m \<le> 1 then 0 else if m = 2 then 31 else if m = 3 then 59 + n else if m = 4 then 90 + n
         else if m = 5 then 120 + n else if m = 6 then 151 + n else if m = 7 then 181 + n
         else if m = 8 then 212 + n else if m = 9 then 243 + n else if m = 10 then 273 + n
         else if m = 11 then 304 + n else 334 + n)"

definition month_of :: "bool \<Rightarrow> int \<Rightarrow> int" where
  "month_of lp doy =
     (let n = (if lp then 1 else 0)
      in if doy < 31 then 1 else if doy < 59 + n then 2 else if doy < 90 + n then 3
         else if doy < 120 + n then 4 else if doy < 151 + n then 5 else if doy < 181 + n then 6
         else if doy < 212 + n then 7 else if doy < 243 + n then 8 else if doy < 273 + n then 9
         else if doy < 304 + n then 10 else if doy < 334 + n then 11 else 12)"

text \<open>The epoch 1970-01-01 is day 719162 of this count.\<close>

definition days_of_civil :: "int \<Rightarrow> int \<Rightarrow> int \<Rightarrow> int" where
  "days_of_civil y m d = year_days y + month_start (leap y) m + (d - 1) - 719162"

definition year_of :: "int \<Rightarrow> int" where
  "year_of n =
     (let y = 400 * n div 146097 + 1
      in if n < year_days y then y - 1 else if year_days (y + 1) \<le> n then y + 1 else y)"

definition civil_of_days :: "int \<Rightarrow> int \<times> int \<times> int" where
  "civil_of_days day =
     (let n = day + 719162; y = year_of n; doy = n - year_days y; m = month_of (leap y) doy
      in (y, m, doy - month_start (leap y) m + 1))"

lemma year_days_bounds:
  "400 * year_days (Y + 1) \<le> 146097 * Y + 396" "146097 * Y - 699 \<le> 400 * year_days (Y + 1)"
proof -
  have m: "0 \<le> Y mod k" "Y mod k < k" "k * (Y div k) + Y mod k = Y" if "0 < k" for k :: int
    using that by simp_all
  show "400 * year_days (Y + 1) \<le> 146097 * Y + 396" "146097 * Y - 699 \<le> 400 * year_days (Y + 1)"
    using m [of 4] m [of 100] m [of 400] unfolding year_days_def by simp_all
qed

lemma year_of_bounds: "year_days (year_of n) \<le> n \<and> n < year_days (year_of n + 1)"
proof -
  define q where "q = 400 * n div 146097"
  have q: "146097 * q \<le> 400 * n" "400 * n < 146097 * q + 146097"
    using div_mult_mod_eq [of "400 * n" 146097] pos_mod_bound [of 146097 "400 * n"]
      pos_mod_sign [of 146097 "400 * n"] unfolding q_def by linarith+
  define Y1 where "Y1 = year_days (q - 1 + 1)"
  define Y2 where "Y2 = year_days (q + 2 + 1)"
  have "Y1 \<le> n" "n < Y2"
    using q year_days_bounds(1) [of "q - 1", folded Y1_def] year_days_bounds(2) [of "q + 2", folded Y2_def]
    by simp_all
  then have lo: "year_days q \<le> n" and hi: "n < year_days (q + 3)"
    by (simp_all add: Y1_def Y2_def add.commute)
  show ?thesis
    using lo hi unfolding year_of_def Let_def q_def [symmetric]
    by (auto simp: not_less not_le add.commute)
qed

lemma div_pred:
  assumes "0 < (k::int)"
  shows "y div k = (y - 1) div k + (if y mod k = 0 then 1 else 0)"
proof (cases "y mod k = 0")
  case True
  define q where "q = y div k"
  from True have "y = k * q" using div_mult_mod_eq [of y k] by (simp add: q_def mult.commute)
  then have eq: "y - 1 = k * (q - 1) + (k - 1)" by (simp add: algebra_simps)
  have "(y - 1) div k = q - 1" by (rule int_div_pos_eq [OF eq]) (use assms in auto)
  then have "(y - 1) div k = y div k - 1" by (simp only: q_def)
  with True show ?thesis by simp
next
  case False
  have "y - 1 = k * (y div k) + (y mod k - 1)" by simp
  moreover have "0 \<le> y mod k - 1" "y mod k - 1 < k"
    using False assms pos_mod_sign [of k y] pos_mod_bound [of k y] by linarith+
  ultimately have "(y - 1) div k = y div k" by (rule int_div_pos_eq)
  with False show ?thesis by simp
qed

lemma year_length: "year_days (y + 1) = year_days y + (if leap y then 366 else 365)"
proof -
  define a b c where "a = y div 4" and "b = y div 100" and "c = y div 400"
  define a' b' c' where "a' = (y - 1) div 4" and "b' = (y - 1) div 100" and "c' = (y - 1) div 400"
  define A B C where "A \<longleftrightarrow> y mod 4 = 0" and "B \<longleftrightarrow> y mod 100 = 0" and "C \<longleftrightarrow> y mod 400 = 0"
  have pos: "0 < (4::int)" "0 < (100::int)" "0 < (400::int)" by simp_all
  note pred = div_pred [OF pos(1), of y, folded a_def a'_def A_def]
    div_pred [OF pos(2), of y, folded b_def b'_def B_def]
    div_pred [OF pos(3), of y, folded c_def c'_def C_def]
  have dvd: "C \<Longrightarrow> B" "B \<Longrightarrow> A"
    unfolding A_def B_def C_def by presburger+
  have lp: "leap y \<longleftrightarrow> A \<and> (\<not> B \<or> C)"
    unfolding A_def B_def C_def leap_def by blast
  define i j k :: int where "i = (if A then 1 else 0)" and "j = (if B then 1 else 0)" and "k = (if C then 1 else 0)"
  have steps: "a = a' + i" "b = b' + j" "c = c' + k"
    using pred unfolding i_def j_def k_def by simp_all
  have d: "year_days (y + 1) = 365 * y + a - b + c" "year_days y = 365 * (y - 1) + a' - b' + c'"
    unfolding year_days_def a_def b_def c_def a'_def b'_def c'_def add_diff_cancel_right' by (rule refl)+
  have e: "year_days (y + 1) = year_days y + 365 + i - j + k"
    unfolding d steps by (simp add: algebra_simps)
  show ?thesis
    unfolding e lp i_def j_def k_def using dvd by (cases A; cases B; cases C) simp_all
qed

lemma year_days_mono: "a \<le> b \<Longrightarrow> year_days a \<le> year_days b"
proof (induction b rule: int_ge_induct)
  case (step b)
  then show ?case using year_length [of b] by (simp split: if_splits)
qed simp

lemma year_of_day: "year_days y \<le> n \<Longrightarrow> n < year_days (y + 1) \<Longrightarrow> year_of n = y"
proof -
  have mono: "a < b \<Longrightarrow> year_days (a + 1) \<le> year_days b" for a b
    by (rule year_days_mono) simp
  assume "year_days y \<le> n" "n < year_days (y + 1)"
  then show ?thesis
    using year_of_bounds [of n] mono [of y "year_of n"] mono [of "year_of n" y] by linarith
qed

lemma month_bounds:
  assumes "0 \<le> doy" and "doy < (if lp then 366 else 365)"
  shows "month_start lp (month_of lp doy) \<le> doy" and "1 \<le> month_of lp doy" and "month_of lp doy \<le> 12"
  using assms by (auto simp: month_of_def month_start_def Let_def)

text \<open>The two conversions are inverse: every day has a date, and the date leads back to it.\<close>

lemma days_of_civil_of_days: "(case civil_of_days day of (y, m, d) \<Rightarrow> days_of_civil y m d) = day"
  by (simp add: civil_of_days_def days_of_civil_def Let_def)

lemma civil_of_days_range:
  assumes "civil_of_days day = (y, m, d)"
  shows "1 \<le> m \<and> m \<le> 12 \<and> 1 \<le> d \<and> d \<le> 31"
proof -
  define n where "n = day + 719162"
  have b: "0 \<le> n - year_days (year_of n)" "n - year_days (year_of n) < (if leap (year_of n) then 366 else 365)"
    using year_of_bounds [of n] year_length [of "year_of n"] by (simp_all split: if_splits)
  define doy where "doy = n - year_days (year_of n)"
  define lp where "lp = leap (year_of n)"
  have b': "0 \<le> doy" "doy < (if lp then 366 else 365)" using b by (simp_all add: doy_def lp_def)
  have "doy - month_start lp (month_of lp doy) \<le> 30"
    using b' by (auto simp: month_of_def month_start_def Let_def split: if_splits)
  with assms month_bounds [OF b'] show ?thesis
    by (auto simp: civil_of_days_def Let_def n_def [symmetric] doy_def [symmetric] lp_def [symmetric])
qed

section \<open>Broken-down time\<close>

record broken_down =
  bd_year :: int
  bd_month :: int
  bd_day :: int
  bd_hour :: int
  bd_minute :: int
  bd_second :: int
  bd_weekday :: int

text \<open>Division of \<open>int64_t\<close> truncates towards zero.\<close>

definition trunc_div :: "int \<Rightarrow> int \<Rightarrow> int" where
  "trunc_div a b = sgn a * sgn b * (\<bar>a\<bar> div \<bar>b\<bar>)"

text \<open>\<open>gmtime_r\<close> on a number of seconds; 1970-01-01 was a Thursday.\<close>

definition gmtime :: "int \<Rightarrow> broken_down" where
  "gmtime t =
     (let day = t div 86400; sec = t mod 86400; (y, m, d) = civil_of_days day
      in \<lparr>bd_year = y, bd_month = m, bd_day = d, bd_hour = sec div 3600,
          bd_minute = sec mod 3600 div 60, bd_second = sec mod 60, bd_weekday = (day + 4) mod 7\<rparr>)"

text \<open>\<open>timegm\<close> for fields within their ranges (what both callers pass).\<close>

definition timegm :: "broken_down \<Rightarrow> int" where
  "timegm b =
     days_of_civil (bd_year b) (bd_month b) (bd_day b) * 86400
       + bd_hour b * 3600 + bd_minute b * 60 + bd_second b"

definition break_down :: "int \<Rightarrow> int \<Rightarrow> broken_down" where
  "break_down epoch_ms offset = gmtime (trunc_div (epoch_ms + offset * 1000) 1000)"

definition compose :: "broken_down \<Rightarrow> int \<Rightarrow> int" where
  "compose b offset = (timegm b - offset) * 1000"

lemma timegm_gmtime: "timegm (gmtime t) = t"
proof -
  obtain y m d where c: "civil_of_days (t div 86400) = (y, m, d)" by (cases "civil_of_days (t div 86400)")
  then have "days_of_civil y m d = t div 86400" using days_of_civil_of_days [of "t div 86400"] by simp
  moreover have "s div 3600 * 3600 + s mod 3600 div 60 * 60 + s mod 60 = s" for s :: int
    using div_mult_mod_eq [of s 3600] div_mult_mod_eq [of "s mod 3600" 60]
      mod_mod_cancel [of 60 3600 s, simplified] by linarith
  moreover have "t div 86400 * 86400 + t mod 86400 = t" by simp
  ultimately show ?thesis
    unfolding gmtime_def timegm_def Let_def c by (simp only: prod.case broken_down.simps add.assoc)
qed

lemma trunc_div_nonneg: "0 \<le> a \<Longrightarrow> 0 < b \<Longrightarrow> trunc_div a b = a div b"
  by (cases "a = 0") (simp_all add: trunc_div_def)

text \<open>Composing what was broken down gives the instant back, cut to its second.\<close>

lemma compose_break_down:
  assumes "0 \<le> epoch_ms + offset * 1000"
  shows "compose (break_down epoch_ms offset) offset = epoch_ms - epoch_ms mod 1000"
proof -
  have "(epoch_ms + offset * 1000) div 1000 = epoch_ms div 1000 + offset" by simp
  with assms show ?thesis
    by (simp add: compose_def break_down_def timegm_gmtime trunc_div_nonneg minus_mod_eq_mult_div)
qed

section \<open>Zones\<close>

definition pad2 :: "nat \<Rightarrow> string" where
  "pad2 n = (if n < 10 then CHR ''0'' # nat_digits n else nat_digits n)"

definition zone_offset_to_string :: "int \<Rightarrow> string" where
  "zone_offset_to_string seconds =
     (let a = nat \<bar>seconds\<bar>
      in (if seconds < 0 then CHR ''-'' else CHR ''+'') # pad2 (a div 3600) @ '':'' @ pad2 (a div 60 mod 60))"

definition parse_zone_offset :: "string \<Rightarrow> int option" where
  "parse_zone_offset raw =
     (let zone = lower (trim raw)
      in if zone = [] \<or> zone = ''utc'' \<or> zone = ''gmt'' \<or> zone = ''z'' then Some 0
         else if zone = ''local'' then None
         else if (hd zone = CHR ''+'' \<or> hd zone = CHR ''-'') \<and> 3 \<le> length zone then
           (let body = tl zone;
                (hours, minutes) =
                  (case index_of body (CHR '':'') of
                     Some (Suc c) \<Rightarrow> (atoi (take (Suc c) body), atoi (drop (Suc (Suc c)) body))
                   | _ \<Rightarrow>
                       if 4 \<le> length body \<and> list_all is_digit body
                       then (atoi (take 2 body), atoi (take 2 (drop 2 body)))
                       else (atoi body, 0));
                total = hours * 3600 + minutes * 60
            in Some (if hd zone = CHR ''-'' then - total else total))
         else None)"

section \<open>Durations\<close>

datatype 'a outcome = Throws | Returns 'a

fun map_outcome :: "('a \<Rightarrow> 'b) \<Rightarrow> 'a outcome \<Rightarrow> 'b outcome" where
  "map_outcome f Throws = Throws" | "map_outcome f (Returns x) = Returns (f x)"

text \<open>\<open>std::stod\<close> on a run of digits and dots: the longest decimal prefix, rounded to binary64;
  \<open>None\<close> for its exceptions (no digit at all, or a magnitude outside the normal range).\<close>

definition decimal_value :: "string \<Rightarrow> string \<Rightarrow> rat" where
  "decimal_value ip fp = of_nat (digits_val ip) + of_nat (digits_val fp) / 10 ^ length fp"

definition stod_decimal :: "string \<Rightarrow> rat option" where
  "stod_decimal s =
     (let ip = takeWhile is_digit s; r = dropWhile is_digit s;
          fp = (if r \<noteq> [] \<and> hd r = CHR ''.'' then takeWhile is_digit (tl r) else [])
      in if ip = [] \<and> fp = [] then None
         else (case round_dbl (decimal_value ip fp) of
                 DFin v \<Rightarrow> if 0 < decimal_value ip fp \<and> v < pow2 (- 1022) then None else Some v
               | _ \<Rightarrow> None))"

text \<open>\<open>static_cast<int64_t>(a * b)\<close> for two finite doubles.\<close>

definition mult_to_int :: "rat \<Rightarrow> rat \<Rightarrow> int" where
  "mult_to_int a b = dbl_trunc (round_dbl (a * b))"

definition unit_ms :: "string \<Rightarrow> int option" where
  "unit_ms u =
     (if u = ''ms'' then Some 1
      else if u \<in> {''s'', ''sec'', ''secs'', ''second'', ''seconds''} then Some 1000
      else if u \<in> {''m'', ''min'', ''mins'', ''minute'', ''minutes''} then Some (60 * 1000)
      else if u \<in> {''h'', ''hr'', ''hrs'', ''hour'', ''hours''} then Some (3600 * 1000)
      else if u \<in> {''d'', ''day'', ''days''} then Some (86400 * 1000)
      else if u \<in> {''w'', ''week'', ''weeks''} then Some (7 * 86400 * 1000)
      else None)"

definition num_char :: "char \<Rightarrow> bool" where
  "num_char c \<longleftrightarrow> is_digit c \<or> c = CHR ''.''"

definition sep_char :: "char \<Rightarrow> bool" where
  "sep_char c \<longleftrightarrow> c = CHR '' '' \<or> c = CHR '','' \<or> c = CHR '':''"

lemma duration_rest_shorter:
  assumes "takeWhile num_char s \<noteq> []"
  shows "length (dropWhile sep_char (dropWhile is_alpha (dropWhile num_char s))) < length s"
proof -
  have "length (dropWhile sep_char (dropWhile is_alpha (dropWhile num_char s))) \<le> length (dropWhile num_char s)"
    using length_dropWhile_le le_trans by blast
  moreover have "length (takeWhile num_char s) + length (dropWhile num_char s) = length s"
    by (metis length_append takeWhile_dropWhile_id)
  moreover have "0 < length (takeWhile num_char s)" using assms by simp
  ultimately show ?thesis by linarith
qed

function duration_parts :: "int \<Rightarrow> string \<Rightarrow> int option outcome" where
  "duration_parts acc text =
     (if text = [] then Returns (Some acc)
      else let num = takeWhile num_char text; r = dropWhile num_char text;
               u = lower (trim (takeWhile is_alpha r)); rest = dropWhile sep_char (dropWhile is_alpha r)
           in if num = [] then Returns None
              else (case stod_decimal num of
                      None \<Rightarrow> Throws
                    | Some magnitude \<Rightarrow>
                        (case unit_ms u of
                           None \<Rightarrow> Returns None
                         | Some ms \<Rightarrow> duration_parts (acc + mult_to_int magnitude (of_int ms)) rest)))"
  by pat_completeness auto
termination
  by (relation "measure (\<lambda>(t, s). length s)") (auto intro: duration_rest_shorter)

declare duration_parts.simps [simp del]

definition parse_duration :: "string \<Rightarrow> int option outcome" where
  "parse_duration raw =
     (let text = lower (trim raw)
      in if text = [] then Returns None
         else if list_all num_char text \<and> CHR ''.'' \<notin> set text then
           Returns (map_option (\<lambda>(v, _). v * 1000) (sto_int 64 text))
         else if list_all num_char text then
           Returns (map_option (\<lambda>v. mult_to_int v 1000) (stod_decimal text))
         else duration_parts 0 text)"

text \<open>The \<open>find\<close>/\<open>replace\<close> loop of \<open>parseRelativeDelay\<close>: it resumes behind the position of the
  needle's old end, although the replacement is shorter.\<close>

fun find_sub :: "string \<Rightarrow> string \<Rightarrow> nat option" where
  "find_sub needle s =
     (if starts_with needle s then Some 0
      else case s of [] \<Rightarrow> None | _ # t \<Rightarrow> map_option Suc (find_sub needle t))"

declare find_sub.simps [simp del]

fun replace_from :: "nat \<Rightarrow> string \<Rightarrow> string \<Rightarrow> nat \<Rightarrow> string \<Rightarrow> string" where
  "replace_from 0 needle by_text pos s = s"
| "replace_from (Suc fuel) needle by_text pos s =
     (if length s < pos then s
      else case find_sub needle (drop pos s) of
             None \<Rightarrow> s
           | Some i \<Rightarrow>
               replace_from fuel needle by_text (pos + i + length needle)
                 (take (pos + i) s @ by_text @ drop (pos + i + length needle) s))"

definition delay_words :: "(string \<times> string) list" where
  "delay_words =
     [(''milliseconds'', ''ms''), (''millisecond'', ''ms''), (''milliseconds'', ''ms''), (''ms'', ''ms''),
      (''seconds'', ''s''), (''second'', ''s''), (''secs'', ''s''), (''minutes'', ''m''),
      (''minute'', ''m''), (''hours'', ''h''), (''hour'', ''h''), (''days'', ''d'')]"

definition parse_relative_delay :: "string \<Rightarrow> int option outcome" where
  "parse_relative_delay raw =
     (let text = lower (trim raw);
          tail = (if starts_with ''in '' text then drop 3 text
                  else if starts_with ''after '' text then drop 6 text
                  else if starts_with ''in'' text then drop 2 text else text);
          compact = filter (\<lambda>c. \<not> is_space c) tail;
          short = foldl (\<lambda>s (w, l). replace_from (Suc (length s)) w l 0 s) compact delay_words
      in parse_duration short)"

text \<open>Every pass of the replacement loop moves the position forward, so \<open>Suc (length s)\<close> passes
  are enough: more fuel gives the same text.\<close>

lemma find_sub_bound: "find_sub needle s = Some i \<Longrightarrow> i + length needle \<le> length s"
proof (induction s arbitrary: i)
  case Nil
  then show ?case by (auto simp: find_sub.simps [of needle "[]"] starts_with_iff split: if_splits)
next
  case (Cons c s)
  show ?case
  proof (cases "starts_with needle (c # s)")
    case True
    then obtain t where "c # s = needle @ t" by (auto simp: starts_with_iff)
    then have "length needle \<le> length (c # s)" by simp
    with True Cons.prems show ?thesis by (simp add: find_sub.simps [of needle "c # s"])
  next
    case False
    with Cons show ?thesis by (auto simp: find_sub.simps [of needle "c # s"])
  qed
qed

lemma replace_from_enough:
  assumes "needle \<noteq> []" and "length by_text \<le> length needle"
    and "length s < pos + fuel"
  shows "replace_from (fuel + extra) needle by_text pos s = replace_from fuel needle by_text pos s"
  using assms(3)
proof (induction fuel arbitrary: pos s)
  case 0
  then show ?case by (cases extra) auto
next
  case (Suc fuel)
  show ?case
  proof (cases "length s < pos \<or> find_sub needle (drop pos s) = None")
    case True
    then show ?thesis by auto
  next
    case False
    then obtain i where i: "find_sub needle (drop pos s) = Some i" and "pos \<le> length s" by auto
    let ?s = "take (pos + i) s @ by_text @ drop (pos + i + length needle) s"
    have "pos + i + length needle \<le> length s"
      using find_sub_bound [OF i] \<open>pos \<le> length s\<close> by simp
    then have "length ?s \<le> length s" using assms(2) by simp
    moreover have "0 < length needle" using assms(1) by simp
    ultimately have "length ?s < pos + i + length needle + fuel" using Suc.prems by linarith
    from Suc.IH [OF this] i \<open>pos \<le> length s\<close> show ?thesis by simp
  qed
qed

section \<open>Properties\<close>

lemma gmtime_fields:
  "0 \<le> bd_hour (gmtime t) \<and> bd_hour (gmtime t) < 24 \<and> 0 \<le> bd_minute (gmtime t) \<and> bd_minute (gmtime t) < 60 \<and>
   0 \<le> bd_second (gmtime t) \<and> bd_second (gmtime t) < 60 \<and> 1 \<le> bd_month (gmtime t) \<and> bd_month (gmtime t) \<le> 12 \<and>
   1 \<le> bd_day (gmtime t) \<and> bd_day (gmtime t) \<le> 31"
proof -
  obtain y m d where c: "civil_of_days (t div 86400) = (y, m, d)" by (cases "civil_of_days (t div 86400)")
  have hour: "0 \<le> a \<and> a < 86400 \<Longrightarrow> a div 3600 < 24" and minute: "0 \<le> a \<and> a < 3600 \<Longrightarrow> a div 60 < 60" for a :: int
    using int_div_bounds(1) [of 3600 a] int_div_bounds(1) [of 60 a] by linarith+
  have pos: "0 \<le> t mod 86400" "t mod 86400 < 86400" "0 \<le> t mod 86400 mod 3600" "t mod 86400 mod 3600 < 3600"
    "0 \<le> t mod 86400 mod 60" "t mod 86400 mod 60 < 60" by (rule pos_mod_sign pos_mod_bound; simp)+
  show ?thesis
    unfolding gmtime_def Let_def c prod.case broken_down.simps
    using civil_of_days_range [OF c] pos hour [OF conjI [OF pos(1,2)]] minute [OF conjI [OF pos(3,4)]]
      pos_imp_zdiv_nonneg_iff [of 3600 "t mod 86400", OF zero_less_numeral, THEN iffD2, OF pos(1)]
      pos_imp_zdiv_nonneg_iff [of 60 "t mod 86400 mod 3600", OF zero_less_numeral, THEN iffD2, OF pos(3)] by blast
qed

text \<open>
  Breaking an instant down into local fields and composing it again gives the instant back, cut to its second, and
  the fields are those of a calendar: months 1-12, days 1-31, hours, minutes and seconds in their ranges.
\<close>

theorem broken_down_time_composes:
  assumes "0 \<le> epoch_ms + offset * 1000"
  shows "compose (break_down epoch_ms offset) offset = epoch_ms - epoch_ms mod 1000 \<and>
         1 \<le> bd_month (break_down epoch_ms offset) \<and> bd_month (break_down epoch_ms offset) \<le> 12 \<and>
         1 \<le> bd_day (break_down epoch_ms offset) \<and> bd_day (break_down epoch_ms offset) \<le> 31 \<and>
         0 \<le> bd_hour (break_down epoch_ms offset) \<and> bd_hour (break_down epoch_ms offset) < 24 \<and>
         0 \<le> bd_minute (break_down epoch_ms offset) \<and> bd_minute (break_down epoch_ms offset) < 60"
  using compose_break_down [OF assms] gmtime_fields by (simp add: break_down_def)

theorem broken_down_time_composes_witness:
  "compose (break_down 1700000000123 7200) 7200 = 1700000000000"
  using broken_down_time_composes [of 1700000000123 7200] by simp

text \<open>
  The replacement loop of \<open>parseRelativeDelay\<close> skips text: it goes on behind the old end of the word it has just
  shortened, so of a delay in two parts the second \<open>minutes\<close> is left to a later word and becomes milliseconds.
\<close>

theorem relative_delay_skips_a_word: "parse_relative_delay ''in 1 minutes 2 minutes'' = parse_duration ''1m2ms''"
proof -
  have short: "foldl (\<lambda>s (w, l). replace_from (Suc (length s)) w l 0 s) ''1minutes2minutes'' delay_words = ''1m2ms''"
    by code_simp
  have compact: "filter (\<lambda>c. \<not> is_space c) (drop 3 ''in 1 minutes 2 minutes'') = ''1minutes2minutes''"
    and start: "lower (trim ''in 1 minutes 2 minutes'') = ''in 1 minutes 2 minutes'' \<and>
      starts_with ''in '' ''in 1 minutes 2 minutes''" by code_simp+
  show ?thesis unfolding parse_relative_delay_def Let_def using short compact start by simp
qed

end
