(* ===== verification/Sapo_Cron.thy ===== *)
theory Sapo_Cron
  imports Sapo_Time
begin

text \<open>
  \<open>CronExpression\<close> of \<open>runtime/Scheduler.cpp\<close>: reading a schedule text (five or six cron
  fields, an \<open>@macro\<close>, or a relative delay) and computing the first firing after an instant.
  A \<open>std::set<int>\<close> is the ascending list of its elements.  \<open>parse\<close> gives \<open>Throws\<close> where the
  duration reader throws, \<open>Inl\<close> the message it leaves in \<open>error\<close>, and \<open>Inr\<close> the expression.
  It also gives \<open>Throws\<close> where the loop over a field's values overflows its \<open>int\<close>: the code has
  no defined behaviour there (an expression like \<open>1-59/2147483647\<close> passes all checks before), and no
  result is claimed for it.

  The lemmas: what \<open>parse\<close> accepts is well formed; \<open>nextAfter\<close> returns an instant strictly later
  than the one asked about, on a matching minute, with no matching minute in between; and it
  gives up only when no minute of the 1501 days it scans matches.
\<close>

section \<open>Text helpers\<close>

text \<open>\<open>std::getline(stream, item, ',')\<close> until the stream is exhausted.\<close>

fun split_on :: "char \<Rightarrow> string \<Rightarrow> string list" where
  "split_on sep [] = [[]]"
| "split_on sep (c # s) =
     (if c = sep then [] # split_on sep s
      else case split_on sep s of [] \<Rightarrow> [[c]] | w # ws \<Rightarrow> (c # w) # ws)"

definition getline_items :: "char \<Rightarrow> string \<Rightarrow> string list" where
  "getline_items sep s =
     (let ws = split_on sep s in if ws \<noteq> [] \<and> last ws = [] then butlast ws else ws)"

text \<open>\<open>stream >> token\<close> until it fails: the words between white space.\<close>

fun words_acc :: "string \<Rightarrow> string \<Rightarrow> string list" where
  "words_acc w [] = (if w = [] then [] else [rev w])"
| "words_acc w (c # s) =
     (if is_space c then (if w = [] then words_acc [] s else rev w # words_acc [] s)
      else words_acc (c # w) s)"

definition words_of :: "string \<Rightarrow> string list" where
  "words_of s = words_acc [] s"

section \<open>Fields\<close>

definition months :: "string list" where
  "months = [''jan'', ''feb'', ''mar'', ''apr'', ''may'', ''jun'',
             ''jul'', ''aug'', ''sep'', ''oct'', ''nov'', ''dec'']"

definition weekdays :: "string list" where
  "weekdays = [''sun'', ''mon'', ''tue'', ''wed'', ''thu'', ''fri'', ''sat'']"

text \<open>The lambda \<open>named\<close>: a name of the field's calendar, or a whole numeral.\<close>

definition named_value :: "bool \<Rightarrow> int \<Rightarrow> string \<Rightarrow> int option" where
  "named_value is_dow max_value token =
     (let numeral_value =
            (case sto_int 32 token of
               Some (v, consumed) \<Rightarrow> if consumed = length token then Some v else None
             | None \<Rightarrow> None)
      in if is_dow then
           (case index_of weekdays (lower token) of Some i \<Rightarrow> Some (int i) | None \<Rightarrow> numeral_value)
         else if max_value = 12 then
           (case index_of months (lower token) of Some i \<Rightarrow> Some (int i + 1) | None \<Rightarrow> numeral_value)
         else numeral_value)"

text \<open>What keeps a field from being read: a message, or a loop counter that overflows.\<close>

datatype field_error = CounterOverflow | FieldMessage string

text \<open>\<open>for (int value = begin; value <= end; value += step)\<close>; nothing when \<open>value += step\<close> leaves the range
  of \<open>int\<close>.\<close>

function step_range :: "int \<Rightarrow> int \<Rightarrow> int \<Rightarrow> int list option" where
  "step_range b e s =
     (if s \<le> 0 \<or> e < b then Some []
      else if 2147483647 < b + s then None
      else map_option ((#) b) (step_range (b + s) e s))"
  by pat_completeness auto
termination
  by (relation "measure (\<lambda>(b, e, s). nat (e + 1 - b))") auto

declare step_range.simps [simp del]

text \<open>One comma-separated item of a field: its values, or the message.\<close>

definition item_bounds :: "int \<Rightarrow> int \<Rightarrow> bool \<Rightarrow> bool \<Rightarrow> string \<Rightarrow> field_error + (int \<times> int)" where
  "item_bounds min_value max_value is_dow had_step item =
     (if item = ''*'' \<or> item = ''?'' then Inr (min_value, max_value)
      else case index_of item (CHR ''-'') of
        Some d \<Rightarrow>
          (case (named_value is_dow max_value (trim (take d item)),
                 named_value is_dow max_value (trim (drop (Suc d) item))) of
             (Some lo, Some hi) \<Rightarrow> Inr (lo, hi)
           | _ \<Rightarrow> Inl (FieldMessage (''bad range '' @ quoted item)))
      | None \<Rightarrow>
          (case named_value is_dow max_value item of
             None \<Rightarrow> Inl (FieldMessage (''bad value '' @ quoted item))
           | Some lo \<Rightarrow> Inr (lo, if had_step then max_value else lo)))"

definition item_values :: "int \<Rightarrow> int \<Rightarrow> bool \<Rightarrow> string \<Rightarrow> int \<Rightarrow> int \<Rightarrow> int \<Rightarrow> field_error + int list" where
  "item_values min_value max_value is_dow item step lo hi0 =
     (let hi = (if is_dow \<and> hi0 = 7 then 0 else hi0)
      in if lo < min_value \<or> hi > max_value \<or> lo < min_value then
           Inl (FieldMessage (''value out of range in '' @ quoted item @ '' (allowed ''
                @ int_str min_value @ ''-'' @ int_str max_value @ '')''))
         else if lo > hi then Inl (FieldMessage (''reversed range '' @ quoted item @ '' is not supported''))
         else (case step_range lo hi step of None \<Rightarrow> Inl CounterOverflow | Some vs \<Rightarrow> Inr vs))"

definition parse_item :: "int \<Rightarrow> int \<Rightarrow> bool \<Rightarrow> string \<Rightarrow> field_error + int list" where
  "parse_item min_value max_value is_dow raw_item =
     (let (item, step_text) =
            (case index_of raw_item (CHR ''/'') of
               Some k \<Rightarrow> (trim (take k raw_item), Some (trim (drop (Suc k) raw_item)))
             | None \<Rightarrow> (raw_item, None))
      in case (case step_text of None \<Rightarrow> Some 1 | Some t \<Rightarrow> map_option fst (sto_int 32 t)) of
           None \<Rightarrow> Inl (FieldMessage (''bad step in '' @ quoted raw_item))
         | Some step \<Rightarrow>
             if step \<le> 0 then Inl (FieldMessage (''step must be >= 1 in '' @ quoted raw_item))
             else if item = [] then Inl (FieldMessage (''empty range in '' @ quoted raw_item))
             else case item_bounds min_value max_value is_dow (step_text \<noteq> None) item of
                    Inl e \<Rightarrow> Inl e
                  | Inr (lo, hi) \<Rightarrow> item_values min_value max_value is_dow item step lo hi)"

fun parse_items :: "int \<Rightarrow> int \<Rightarrow> bool \<Rightarrow> string list \<Rightarrow> int list \<Rightarrow> field_error + int list" where
  "parse_items min_value max_value is_dow [] out = Inr out"
| "parse_items min_value max_value is_dow (i # is) out =
     (case parse_item min_value max_value is_dow i of
        Inl e \<Rightarrow> Inl e
      | Inr vs \<Rightarrow> parse_items min_value max_value is_dow is (fold insort_insert vs out))"

text \<open>\<open>parseField\<close>: the values and whether the field was narrowed.\<close>

definition parse_field :: "string \<Rightarrow> int \<Rightarrow> int \<Rightarrow> bool \<Rightarrow> field_error + (int list \<times> bool)" where
  "parse_field field min_value max_value is_dow =
     (let s = trim field
      in if s = [] then Inl (FieldMessage ''empty field'')
         else if s = ''*'' \<or> s = ''?'' then Inr ([min_value..max_value], False)
         else case parse_items min_value max_value is_dow (map trim (getline_items (CHR '','') s)) [] of
                Inl e \<Rightarrow> Inl e
              | Inr out \<Rightarrow> if out = [] then Inl (FieldMessage ''field selects nothing'') else Inr (out, True))"

section \<open>Expressions\<close>

datatype cron_kind = Cron | Relative

record cron_expr =
  cx_kind :: cron_kind
  cx_text :: string
  cx_minute :: "int list"
  cx_hour :: "int list"
  cx_dom :: "int list"
  cx_month :: "int list"
  cx_dow :: "int list"
  cx_year :: "int list"
  cx_dom_restricted :: bool
  cx_dow_restricted :: bool
  cx_interval_ms :: int
  cx_one_shot :: bool

definition empty_cron :: "string \<Rightarrow> cron_expr" where
  "empty_cron s =
     \<lparr>cx_kind = Cron, cx_text = s, cx_minute = [], cx_hour = [], cx_dom = [], cx_month = [],
      cx_dow = [], cx_year = [], cx_dom_restricted = False, cx_dow_restricted = False,
      cx_interval_ms = 0, cx_one_shot = False\<rparr>"

definition parse_macro :: "string \<Rightarrow> string + cron_expr" where
  "parse_macro trimmed =
     (let macro = lower trimmed; e = empty_cron trimmed
      in if macro = ''@yearly'' \<or> macro = ''@annually'' then
           Inr (e\<lparr>cx_minute := [0], cx_hour := [0], cx_dom := [1], cx_month := [1], cx_dow := [0..6],
                  cx_dom_restricted := True\<rparr>)
         else if macro = ''@monthly'' then
           Inr (e\<lparr>cx_minute := [0], cx_hour := [0], cx_dom := [1], cx_month := [1..12], cx_dow := [0..6],
                  cx_dom_restricted := True\<rparr>)
         else if macro = ''@weekly'' then
           Inr (e\<lparr>cx_minute := [0], cx_hour := [0], cx_dom := [1..31], cx_month := [1..12], cx_dow := [0],
                  cx_dow_restricted := True\<rparr>)
         else if macro = ''@daily'' \<or> macro = ''@midnight'' then
           Inr (e\<lparr>cx_minute := [0], cx_hour := [0], cx_dom := [1..31], cx_month := [1..12], cx_dow := [0..6]\<rparr>)
         else if macro = ''@hourly'' then
           Inr (e\<lparr>cx_minute := [0], cx_hour := [0..23], cx_dom := [1..31], cx_month := [1..12], cx_dow := [0..6]\<rparr>)
         else if macro = ''@minutely'' \<or> macro = ''@every_minute'' then
           Inr (e\<lparr>cx_minute := [0..59], cx_hour := [0..23], cx_dom := [1..31], cx_month := [1..12],
                  cx_dow := [0..6]\<rparr>)
         else Inl (''unknown schedule macro '' @ quoted trimmed))"

text \<open>The relative branch.  \<open>find(' ') + 1\<close> is 0 when there is no blank.\<close>

definition parse_relative :: "string \<Rightarrow> (string + cron_expr) outcome" where
  "parse_relative trimmed =
     (let tail = (if starts_with ''every '' trimmed then lower (drop 6 trimmed)
                  else lower (drop (case index_of trimmed (CHR '' '') of Some k \<Rightarrow> Suc k | None \<Rightarrow> 0) trimmed));
          finish = (\<lambda>delay. case delay of
             Some d \<Rightarrow>
               if d \<le> 0 then Inl (''cannot read the delay in '' @ quoted trimmed)
               else Inr ((empty_cron trimmed)\<lparr>cx_kind := Relative, cx_interval_ms := d,
                           cx_one_shot := starts_with ''in '' trimmed\<rparr>)
           | None \<Rightarrow> Inl (''cannot read the delay in '' @ quoted trimmed))
      in case parse_relative_delay trimmed of
           Throws \<Rightarrow> Throws
         | Returns (Some d) \<Rightarrow> Returns (finish (Some d))
         | Returns None \<Rightarrow> map_outcome finish (parse_duration tail))"

text \<open>The five or six cron fields; a failing field ends the parse with its message.\<close>

definition parse_cron_fields :: "string \<Rightarrow> field_error + cron_expr" where
  "parse_cron_fields trimmed =
     (let fields = words_of trimmed
      in if length fields < 5 \<or> 6 < length fields then
           Inl (FieldMessage (''expected 5 (or 6 with year) cron fields, got '' @ int_str (int (length fields))))
         else
           case parse_field (fields ! 0) 0 59 False of Inl e \<Rightarrow> Inl e | Inr (minute, _) \<Rightarrow>
           (case parse_field (fields ! 1) 0 23 False of Inl e \<Rightarrow> Inl e | Inr (hour, _) \<Rightarrow>
           (case parse_field (fields ! 2) 1 31 False of Inl e \<Rightarrow> Inl e | Inr (doms, dom_r) \<Rightarrow>
           (case parse_field (fields ! 3) 1 12 False of Inl e \<Rightarrow> Inl e | Inr (month, _) \<Rightarrow>
           (case parse_field (fields ! 4) 0 7 True of Inl e \<Rightarrow> Inl e | Inr (dow0, dow_r) \<Rightarrow>
             (let dow = (if 7 \<in> set dow0 then insort_insert 0 (filter (\<lambda>v. v \<noteq> 7) dow0) else dow0);
                  build = (\<lambda>year. (empty_cron trimmed)\<lparr>cx_minute := minute, cx_hour := hour, cx_dom := doms,
                             cx_month := month, cx_dow := dow, cx_year := year,
                             cx_dom_restricted := dom_r, cx_dow_restricted := dow_r\<rparr>)
              in if length fields = 6 then
                   (case parse_field (fields ! 5) 1970 9999 False of
                      Inl e \<Rightarrow> Inl e | Inr (year, _) \<Rightarrow> Inr (build year))
                 else Inr (build [])))))))"

definition parse_cron :: "string \<Rightarrow> (string + cron_expr) outcome" where
  "parse_cron s =
     (let trimmed = trim s
      in if trimmed = [] then Returns (Inl ''empty schedule'')
         else if hd trimmed = CHR ''i'' \<or> starts_with ''every '' trimmed then parse_relative trimmed
         else if hd trimmed = CHR ''@'' then Returns (parse_macro trimmed)
         else (case parse_cron_fields trimmed of
                 Inl CounterOverflow \<Rightarrow> Throws
               | Inl (FieldMessage e) \<Rightarrow> Returns (Inl e)
               | Inr c \<Rightarrow> Returns (Inr c)))"

definition day_matches :: "cron_expr \<Rightarrow> int \<Rightarrow> int \<Rightarrow> int \<Rightarrow> int \<Rightarrow> bool" where
  "day_matches c year month day weekday =
     (if month \<notin> set (cx_month c) then False
      else if cx_year c \<noteq> [] \<and> year \<notin> set (cx_year c) then False
      else let dom_ok = (day \<in> set (cx_dom c)); dow_ok = (weekday \<in> set (cx_dow c))
           in if cx_dom_restricted c \<and> cx_dow_restricted c then dom_ok \<or> dow_ok else dom_ok \<and> dow_ok)"

definition cron_matches :: "cron_expr \<Rightarrow> int \<Rightarrow> int \<Rightarrow> int \<Rightarrow> int \<Rightarrow> int \<Rightarrow> int \<Rightarrow> bool" where
  "cron_matches c year month day weekday hour minute =
     (if cx_year c \<noteq> [] \<and> year \<notin> set (cx_year c) then False
      else if month \<notin> set (cx_month c) then False
      else if hour \<notin> set (cx_hour c) then False
      else if minute \<notin> set (cx_minute c) then False
      else let dom_ok = (day \<in> set (cx_dom c)); dow_ok = (weekday \<in> set (cx_dow c))
           in if cx_dom_restricted c \<and> cx_dow_restricted c then dom_ok \<or> dow_ok else dom_ok \<and> dow_ok)"

section \<open>The next firing\<close>

text \<open>The two inner loops: the first minute of the day in the expression, on the first day only
  those after the current minute.\<close>

definition minutes_of_day :: "cron_expr \<Rightarrow> int list" where
  "minutes_of_day c = concat (map (\<lambda>h. map (\<lambda>m. h * 60 + m) (cx_minute c)) (cx_hour c))"

definition first_minute_of_day :: "cron_expr \<Rightarrow> bool \<Rightarrow> int \<Rightarrow> int option" where
  "first_minute_of_day c first_day first_minute =
     find (\<lambda>m. \<not> (first_day \<and> m \<le> first_minute)) (minutes_of_day c)"

text \<open>The day loop, over the offsets still to visit.\<close>

fun scan_days :: "cron_expr \<Rightarrow> int \<Rightarrow> int \<Rightarrow> int \<Rightarrow> int list \<Rightarrow> int option" where
  "scan_days c offset day_start first_minute [] = None"
| "scan_days c offset day_start first_minute (k # ks) =
     (let day_ms = day_start + k * 86400000; b = break_down day_ms offset
      in if cx_year c \<noteq> [] \<and> last (cx_year c) < bd_year b then None
         else if \<not> day_matches c (bd_year b) (bd_month b) (bd_day b) (bd_weekday b) then
           scan_days c offset day_start first_minute ks
         else case first_minute_of_day c (k = 0) first_minute of
                Some m \<Rightarrow> Some (day_ms + m * 60000)
              | None \<Rightarrow> scan_days c offset day_start first_minute ks)"

definition next_after :: "cron_expr \<Rightarrow> int \<Rightarrow> int \<Rightarrow> int option" where
  "next_after c epoch_ms offset =
     (case cx_kind c of
        Relative \<Rightarrow> Some (epoch_ms + cx_interval_ms c)
      | Cron \<Rightarrow>
          (let start = break_down epoch_ms offset;
               day_start = compose (start\<lparr>bd_hour := 0, bd_minute := 0, bd_second := 0\<rparr>) offset
           in scan_days c offset day_start (trunc_div (epoch_ms - day_start) 60000) [0..1500]))"

definition offset_for :: "string \<Rightarrow> int" where
  "offset_for timezone =
     (if timezone = [] then 0 else case parse_zone_offset timezone of Some s \<Rightarrow> s | None \<Rightarrow> 0)"

definition is_valid_cron_expression :: "string \<Rightarrow> bool outcome" where
  "is_valid_cron_expression s = map_outcome (\<lambda>r. case r of Inl _ \<Rightarrow> False | Inr _ \<Rightarrow> True) (parse_cron s)"

definition next_scheduled_time :: "string \<Rightarrow> int \<Rightarrow> string \<Rightarrow> (string + int) outcome" where
  "next_scheduled_time s from_ms timezone =
     map_outcome (\<lambda>r. case r of
         Inl e \<Rightarrow> Inl e
       | Inr c \<Rightarrow> (case next_after c from_ms (offset_for timezone) of
                     Some n \<Rightarrow> Inr n
                   | None \<Rightarrow> Inl (''schedule '' @ quoted s @ '' has no future occurrence'')))
       (parse_cron s)"


section \<open>What \<open>parse\<close> accepts is well formed\<close>

lemma set_step_range:
  "0 < s \<Longrightarrow> step_range b e s = Some vs \<Longrightarrow> set vs = {v. b \<le> v \<and> v \<le> e \<and> (v - b) mod s = 0}"
proof (induction b e s arbitrary: vs rule: step_range.induct)
  case (1 b e s)
  show ?case
  proof (cases "e < b")
    case True
    then show ?thesis using 1(3) by (auto simp: step_range.simps [of b e s])
  next
    case False
    have shift: "(v - (b + s)) mod s = (v - b) mod s" for v
      using mod_diff_right_eq [of "v - b" s s] by (simp add: diff_diff_eq [symmetric])
    have later: "b + s \<le> v" if "b \<le> v" "(v - b) mod s = 0" "v \<noteq> b" for v
      using zdvd_imp_le [of s "v - b"] that by (simp add: mod_eq_0_iff_dvd)
    define P where "P = (\<lambda>v. (v - b) mod s = 0)"
    have later': "b + s \<le> v" if "b \<le> v" "P v" "v \<noteq> b" for v using later that by (simp add: P_def)
    have "P b" by (simp add: P_def)
    obtain us where us: "step_range (b + s) e s = Some us" "vs = b # us"
      and small: "\<not> 2147483647 < b + s" using 1(2,3) False by (auto simp: step_range.simps [of b e s] split: if_splits)
    have "set us = {v. b + s \<le> v \<and> v \<le> e \<and> P v}"
      using 1(1) [OF _ small 1(2) us(1)] 1(2) False by (simp add: shift P_def)
    then have "set vs = insert b {v. b + s \<le> v \<and> v \<le> e \<and> P v}" by (simp add: us(2))
    also have "\<dots> = {v. b \<le> v \<and> v \<le> e \<and> P v}"
      using later' \<open>P b\<close> False 1(2) by force
    finally show ?thesis by (simp only: P_def)
  qed
qed

text \<open>Steps below two thousand million never overflow: the fields end at 9999.\<close>

lemma step_range_defined: "e + s \<le> 2147483647 \<Longrightarrow> step_range b e s \<noteq> None"
proof (induction b e s rule: step_range.induct)
  case (1 b e s)
  then show ?case by (cases "s \<le> 0 \<or> e < b") (simp_all add: step_range.simps [of b e s])
qed

definition value_set :: "int \<Rightarrow> int \<Rightarrow> int list \<Rightarrow> bool" where
  "value_set lo hi vs \<longleftrightarrow> sorted vs \<and> distinct vs \<and> set vs \<subseteq> {lo..hi}"

lemma value_set_fold_insort:
  "value_set lo hi vs \<Longrightarrow> set us \<subseteq> {lo..hi} \<Longrightarrow> value_set lo hi (fold insort_insert us vs)"
proof (induction us arbitrary: vs)
  case (Cons u us)
  then have "value_set lo hi (insort_insert u vs)"
    by (auto simp: value_set_def sorted_insort_insert distinct_insort_insert set_insort_insert)
  with Cons show ?case by simp
qed simp

lemma item_values_range: "item_values lo hi d item s a b = Inr vs \<Longrightarrow> 0 < s \<Longrightarrow> set vs \<subseteq> {lo..hi}"
  by (auto simp: item_values_def Let_def dest!: set_step_range split: if_splits option.splits)

lemma parse_item_range: "parse_item lo hi d raw = Inr vs \<Longrightarrow> set vs \<subseteq> {lo..hi}"
  unfolding parse_item_def Let_def
  by (auto split: option.splits if_splits sum.splits prod.splits simp: not_le dest!: item_values_range)

lemma parse_items_range:
  "parse_items lo hi d is vs = Inr out \<Longrightarrow> value_set lo hi vs \<Longrightarrow> value_set lo hi out"
proof (induction "is" arbitrary: vs)
  case (Cons i "is")
  then show ?case
    by (auto split: sum.splits dest: parse_item_range intro: value_set_fold_insort)
qed simp

lemma parse_field_range:
  assumes "parse_field f lo hi d = Inr (vs, r)" and "lo \<le> hi"
  shows "value_set lo hi vs \<and> vs \<noteq> []"
  using assms parse_items_range [of lo hi d _ "[]"]
  by (auto simp: parse_field_def Let_def value_set_def split: sum.splits if_splits)

definition cron_wf :: "cron_expr \<Rightarrow> bool" where
  "cron_wf c \<longleftrightarrow>
     (case cx_kind c of
        Relative \<Rightarrow> 0 < cx_interval_ms c
      | Cron \<Rightarrow>
          value_set 0 59 (cx_minute c) \<and> cx_minute c \<noteq> [] \<and> value_set 0 23 (cx_hour c) \<and> cx_hour c \<noteq> [] \<and>
          value_set 1 31 (cx_dom c) \<and> cx_dom c \<noteq> [] \<and> value_set 1 12 (cx_month c) \<and> cx_month c \<noteq> [] \<and>
          value_set 0 6 (cx_dow c) \<and> cx_dow c \<noteq> [] \<and> value_set 1970 9999 (cx_year c))"

lemma value_set_dow:
  assumes "value_set 0 7 vs" and "vs \<noteq> []"
  defines "ws \<equiv> (if 7 \<in> set vs then insort_insert 0 (filter (\<lambda>v. v \<noteq> 7) vs) else vs)"
  shows "value_set 0 6 ws \<and> ws \<noteq> []"
proof (cases "7 \<in> set vs")
  case True
  then have ws: "set ws = insert 0 (set vs - {7})" by (auto simp: ws_def set_insort_insert)
  have "v \<le> 6" if "v \<in> set vs" "v \<noteq> 7" for v using that assms(1) by (force simp: value_set_def)
  then have "set ws \<subseteq> {0..6}" using assms(1) unfolding ws by (auto simp: value_set_def)
  moreover have "sorted ws \<and> distinct ws"
    using True assms(1) by (simp add: ws_def value_set_def sorted_insort_insert distinct_insort_insert sorted_wrt_filter)
  moreover have "ws \<noteq> []" using ws by auto
  ultimately show ?thesis by (simp add: value_set_def)
next
  case False
  have "v \<le> 6" if "v \<in> set vs" for v
    using that assms(1) False by (cases "v = 7") (force simp: value_set_def)+
  with False assms show ?thesis by (auto simp: value_set_def)
qed

lemma value_set_upto [simp]: "value_set lo hi [a..b] \<longleftrightarrow> b < a \<or> lo \<le> a \<and> b \<le> hi"
  by (auto simp: value_set_def)

lemma value_set_single [simp]: "value_set lo hi [a] \<longleftrightarrow> lo \<le> a \<and> a \<le> hi"
  by (auto simp: value_set_def)

lemma value_set_Nil [simp]: "value_set lo hi []"
  by (simp add: value_set_def)

lemma parse_macro_wf: "parse_macro s = Inr c \<Longrightarrow> cron_wf c \<and> cx_kind c = Cron"
  by (auto simp: parse_macro_def Let_def empty_cron_def cron_wf_def split: if_splits)

lemma parse_relative_wf: "parse_relative s = Returns (Inr c) \<Longrightarrow> cron_wf c \<and> cx_kind c = Relative"
  unfolding parse_relative_def Let_def
  by (cases "parse_relative_delay s"; cases "parse_duration (if starts_with ''every '' s then lower (drop 6 s)
        else lower (drop (case index_of s (CHR '' '') of None \<Rightarrow> 0 | Some k \<Rightarrow> Suc k) s))")
     (auto simp: cron_wf_def empty_cron_def split: option.splits if_splits)

lemma parse_cron_fields_wf:
  assumes "parse_cron_fields s = Inr c"
  shows "cron_wf c \<and> cx_kind c = Cron"
proof -
  let ?f = "words_of s"
  obtain mi a ho b d dr mo e w wr where
    f: "parse_field (?f ! 0) 0 59 False = Inr (mi, a)" "parse_field (?f ! 1) 0 23 False = Inr (ho, b)"
      "parse_field (?f ! 2) 1 31 False = Inr (d, dr)" "parse_field (?f ! 3) 1 12 False = Inr (mo, e)"
      "parse_field (?f ! 4) 0 7 True = Inr (w, wr)"
    using assms by (auto simp: parse_cron_fields_def Let_def split: if_splits sum.splits)
  let ?w = "if 7 \<in> set w then insort_insert 0 (filter (\<lambda>v. v \<noteq> 7) w) else w"
  have "\<exists>y. c = (empty_cron s)\<lparr>cx_minute := mi, cx_hour := ho, cx_dom := d, cx_month := mo, cx_dow := ?w,
      cx_year := y, cx_dom_restricted := dr, cx_dow_restricted := wr\<rparr> \<and> value_set 1970 9999 y"
    using assms f by (auto simp: parse_cron_fields_def Let_def split: if_splits sum.splits dest: parse_field_range)
  then obtain y where c: "c = (empty_cron s)\<lparr>cx_minute := mi, cx_hour := ho, cx_dom := d, cx_month := mo,
      cx_dow := ?w, cx_year := y, cx_dom_restricted := dr, cx_dow_restricted := wr\<rparr>" and "value_set 1970 9999 y"
    by blast
  moreover have "value_set 0 6 ?w \<and> ?w \<noteq> []"
    by (rule value_set_dow) (use parse_field_range [OF f(5)] in auto)
  ultimately show ?thesis
    using parse_field_range [OF f(1)] parse_field_range [OF f(2)] parse_field_range [OF f(3)]
      parse_field_range [OF f(4)] unfolding cron_wf_def c by (simp add: empty_cron_def)
qed

lemma parse_cron_wf: "parse_cron s = Returns (Inr c) \<Longrightarrow> cron_wf c"
  using parse_macro_wf [of "trim s" c] parse_relative_wf [of "trim s" c] parse_cron_fields_wf [of "trim s" c]
  by (auto simp: parse_cron_def Let_def split: if_splits sum.splits field_error.splits)

section \<open>The first firing is the next one\<close>

text \<open>The specification: an instant fires when it is a whole local minute that matches.\<close>

definition fires_at :: "cron_expr \<Rightarrow> int \<Rightarrow> int \<Rightarrow> bool" where
  "fires_at c offset ms \<longleftrightarrow>
     (ms + offset * 1000) mod 60000 = 0 \<and>
     (let b = break_down ms offset
      in cron_matches c (bd_year b) (bd_month b) (bd_day b) (bd_weekday b) (bd_hour b) (bd_minute b))"

definition day_ok :: "cron_expr \<Rightarrow> int \<Rightarrow> bool" where
  "day_ok c day = (case civil_of_days day of (y, m, d) \<Rightarrow> day_matches c y m d ((day + 4) mod 7))"

definition year_of_day_number :: "int \<Rightarrow> int" where
  "year_of_day_number day = fst (civil_of_days day)"

lemma year_of_mono: "a \<le> b \<Longrightarrow> year_of a \<le> year_of b"
  using year_of_bounds [of a] year_of_bounds [of b] year_days_mono [of "year_of b + 1" "year_of a"]
  by linarith

lemma year_of_day_number_mono: "a \<le> b \<Longrightarrow> year_of_day_number a \<le> year_of_day_number b"
  by (simp add: year_of_day_number_def civil_of_days_def Let_def year_of_mono)

lemma break_down_nonneg:
  "0 \<le> ms + offset * 1000 \<Longrightarrow> break_down ms offset = gmtime ((ms + offset * 1000) div 1000)"
  by (simp add: break_down_def trunc_div_nonneg)

lemma break_down_at:
  assumes "ms + offset * 1000 = x * 1000" and "0 \<le> x"
  shows "break_down ms offset = gmtime x"
  using break_down_nonneg [of ms offset] assms(2) unfolding assms(1) by simp

lemma gmtime_minute:
  assumes "0 \<le> m" and "m < 1440"
  shows "gmtime (day * 86400 + m * 60) =
    (case civil_of_days day of (y, mo, d) \<Rightarrow>
       \<lparr>bd_year = y, bd_month = mo, bd_day = d, bd_hour = m div 60, bd_minute = m mod 60,
        bd_second = 0, bd_weekday = (day + 4) mod 7\<rparr>)"
proof -
  have q: "(day * 86400 + m * 60) div 86400 = day" "(day * 86400 + m * 60) mod 86400 = m * 60"
    using assms int_div_pos_eq [of "day * 86400 + m * 60" 86400 day "m * 60"]
      int_mod_pos_eq [of "day * 86400 + m * 60" 86400 day "m * 60"] by simp_all
  have "m * 60 = 3600 * (m div 60) + m mod 60 * 60" using div_mult_mod_eq [of m 60] by linarith
  from int_div_pos_eq [OF this] int_mod_pos_eq [OF this]
  have h: "m * 60 div 3600 = m div 60" "m * 60 mod 3600 = m mod 60 * 60"
    using pos_mod_bound [of 60 m] pos_mod_sign [of 60 m] by simp_all
  show ?thesis
    unfolding gmtime_def Let_def q h by (simp split: prod.split)
qed

lemma minutes_of_day_iff:
  assumes "value_set 0 59 (cx_minute c)" and "0 \<le> m"
  shows "m \<in> set (minutes_of_day c) \<longleftrightarrow> m div 60 \<in> set (cx_hour c) \<and> m mod 60 \<in> set (cx_minute c)"
proof
  assume "m \<in> set (minutes_of_day c)"
  then obtain h k where "h \<in> set (cx_hour c)" "k \<in> set (cx_minute c)" and m: "m = h * 60 + k"
    by (auto simp: minutes_of_day_def)
  moreover from this have "0 \<le> k" "k < 60" using assms(1) by (auto simp: value_set_def)
  ultimately show "m div 60 \<in> set (cx_hour c) \<and> m mod 60 \<in> set (cx_minute c)"
    using int_div_pos_eq [of m 60 h k] int_mod_pos_eq [of m 60 h k] by simp
next
  assume "m div 60 \<in> set (cx_hour c) \<and> m mod 60 \<in> set (cx_minute c)"
  then have "m div 60 * 60 + m mod 60 \<in> set (minutes_of_day c)" unfolding minutes_of_day_def by force
  then show "m \<in> set (minutes_of_day c)" by simp
qed

lemma sorted_wrt_minutes:
  assumes "sorted_wrt (<) hs" and "value_set 0 59 ms"
  shows "sorted_wrt (<) (concat (map (\<lambda>h. map (\<lambda>m. h * 60 + m) ms) hs))"
  using assms(1)
proof (induction hs)
  case (Cons h hs)
  have "sorted_wrt (<) ms" using assms(2) by (simp add: value_set_def strict_sorted_iff)
  then have "sorted_wrt (<) (map (\<lambda>m. h * 60 + m) ms)" by (simp add: sorted_wrt_map)
  moreover have "h * 60 + m < h' * 60 + m'" if "h' \<in> set hs" "m \<in> set ms" "m' \<in> set ms" for h' m m'
  proof -
    have "h < h'" using that(1) Cons.prems by simp
    moreover have "m \<le> 59" "0 \<le> m'" using that assms(2) by (auto simp: value_set_def)
    ultimately show ?thesis by linarith
  qed
  ultimately show ?case using Cons by (auto simp: sorted_wrt_append)
qed simp

lemma find_sorted_first:
  assumes "sorted_wrt (<) xs" and "find P xs = Some (x::int)"
  shows "x \<in> set xs \<and> P x \<and> (\<forall>y \<in> set xs. P y \<longrightarrow> x \<le> y)"
  using assms by (induction xs) (auto split: if_splits)

lemma first_minute_of_day_spec:
  assumes "cron_wf c" and "cx_kind c = Cron"
  shows "first_minute_of_day c fd fm = Some m \<Longrightarrow>
      m \<in> set (minutes_of_day c) \<and> (fd \<longrightarrow> fm < m) \<and>
      (\<forall>m' \<in> set (minutes_of_day c). (fd \<longrightarrow> fm < m') \<longrightarrow> m \<le> m')"
    and "first_minute_of_day c fd fm = None \<Longrightarrow> m' \<in> set (minutes_of_day c) \<Longrightarrow> fd \<and> m' \<le> fm"
proof -
  have "sorted_wrt (<) (minutes_of_day c)"
    unfolding minutes_of_day_def using assms
    by (intro sorted_wrt_minutes) (auto simp: cron_wf_def value_set_def strict_sorted_iff)
  from find_sorted_first [OF this]
  show "first_minute_of_day c fd fm = Some m \<Longrightarrow>
      m \<in> set (minutes_of_day c) \<and> (fd \<longrightarrow> fm < m) \<and>
      (\<forall>m' \<in> set (minutes_of_day c). (fd \<longrightarrow> fm < m') \<longrightarrow> m \<le> m')"
    unfolding first_minute_of_day_def by (fastforce simp: not_le)
  show "first_minute_of_day c fd fm = None \<Longrightarrow> m' \<in> set (minutes_of_day c) \<Longrightarrow> fd \<and> m' \<le> fm"
    unfolding first_minute_of_day_def by (auto simp: find_None_iff)
qed


definition candidate :: "cron_expr \<Rightarrow> int \<Rightarrow> int \<Rightarrow> int \<Rightarrow> int \<Rightarrow> bool" where
  "candidate c d0 fm k m \<longleftrightarrow> day_ok c (d0 + k) \<and> m \<in> set (minutes_of_day c) \<and> (k = 0 \<longrightarrow> fm < m)"

lemma day_ok_year: "day_ok c day \<Longrightarrow> cx_year c = [] \<or> year_of_day_number day \<in> set (cx_year c)"
  by (auto simp: day_ok_def day_matches_def year_of_day_number_def split: prod.splits if_splits)

lemma sorted_last_max: "sorted xs \<Longrightarrow> x \<in> set xs \<Longrightarrow> x \<le> last xs"
  by (induction xs) (auto split: if_splits)

lemma last_year_max: "cron_wf c \<Longrightarrow> cx_kind c = Cron \<Longrightarrow> y \<in> set (cx_year c) \<Longrightarrow> y \<le> last (cx_year c)"
  by (rule sorted_last_max) (simp_all add: cron_wf_def value_set_def)

lemma scan_days_step:
  assumes "ds = (d0 * 86400 - offset) * 1000" and "0 \<le> d0" and "0 \<le> k"
  shows "scan_days c offset ds fm (k # ks) =
    (if cx_year c \<noteq> [] \<and> last (cx_year c) < year_of_day_number (d0 + k) then None
     else if \<not> day_ok c (d0 + k) then scan_days c offset ds fm ks
     else case first_minute_of_day c (k = 0) fm of
            Some m \<Rightarrow> Some (ds + k * 86400000 + m * 60000)
          | None \<Rightarrow> scan_days c offset ds fm ks)"
proof -
  have e: "ds + k * 86400000 + offset * 1000 = ((d0 + k) * 86400) * 1000" using assms(1) by (simp add: algebra_simps)
  have "break_down (ds + k * 86400000) offset = gmtime ((d0 + k) * 86400)"
    by (rule break_down_at [OF e]) (use assms(2,3) in simp)
  also have "\<dots> = (case civil_of_days (d0 + k) of (y, mo, d) \<Rightarrow>
     \<lparr>bd_year = y, bd_month = mo, bd_day = d, bd_hour = 0, bd_minute = 0, bd_second = 0,
      bd_weekday = (d0 + k + 4) mod 7\<rparr>)"
    using gmtime_minute [of 0 "d0 + k"] by (simp add: add.assoc)
  finally show ?thesis
    by (simp add: day_ok_def year_of_day_number_def Let_def split: prod.split)
qed

lemma scan_days_spec:
  assumes wf: "cron_wf c" "cx_kind c = Cron" and ds: "ds = (d0 * 86400 - offset) * 1000" "0 \<le> d0"
    and "sorted_wrt (<) ks" and "\<forall>k \<in> set ks. 0 \<le> k"
  shows "case scan_days c offset ds fm ks of
      Some n \<Rightarrow> \<exists>k \<in> set ks. \<exists>m. candidate c d0 fm k m \<and> n = ds + k * 86400000 + m * 60000 \<and>
                  (\<forall>k' \<in> set ks. \<forall>m'. candidate c d0 fm k' m' \<longrightarrow> k < k' \<or> k = k' \<and> m \<le> m')
    | None \<Rightarrow> \<forall>k' \<in> set ks. \<forall>m'. \<not> candidate c d0 fm k' m'"
  using assms(5,6)
proof (induction ks)
  case (Cons k ks)
  then have k: "0 \<le> k" and above: "\<forall>k' \<in> set ks. k < k'" by auto
  from Cons have IH: "case scan_days c offset ds fm ks of
      Some n \<Rightarrow> \<exists>k \<in> set ks. \<exists>m. candidate c d0 fm k m \<and> n = ds + k * 86400000 + m * 60000 \<and>
                  (\<forall>k' \<in> set ks. \<forall>m'. candidate c d0 fm k' m' \<longrightarrow> k < k' \<or> k = k' \<and> m \<le> m')
    | None \<Rightarrow> \<forall>k' \<in> set ks. \<forall>m'. \<not> candidate c d0 fm k' m'" by simp
  note step = scan_days_step [OF ds k, of c fm ks]
  consider (late) "cx_year c \<noteq> []" "last (cx_year c) < year_of_day_number (d0 + k)"
    | (skip) "\<not> (cx_year c \<noteq> [] \<and> last (cx_year c) < year_of_day_number (d0 + k))"
        "\<not> day_ok c (d0 + k) \<or> first_minute_of_day c (k = 0) fm = None"
    | (hit) m where "\<not> (cx_year c \<noteq> [] \<and> last (cx_year c) < year_of_day_number (d0 + k))"
        "day_ok c (d0 + k)" "first_minute_of_day c (k = 0) fm = Some m"
    by blast
  then show ?case
  proof cases
    case late
    have "\<not> candidate c d0 fm k' m'" if "k' \<in> set (k # ks)" for k' m'
    proof
      assume "candidate c d0 fm k' m'"
      then have "year_of_day_number (d0 + k') \<le> last (cx_year c)"
        using day_ok_year last_year_max [OF wf] late(1) by (auto simp: candidate_def)
      moreover have "year_of_day_number (d0 + k) \<le> year_of_day_number (d0 + k')"
        using that above by (intro year_of_day_number_mono) auto
      ultimately show False using late(2) by simp
    qed
    moreover have "scan_days c offset ds fm (k # ks) = None" using late by (simp only: step) simp
    ultimately show ?thesis by simp
  next
    case skip
    then have s: "scan_days c offset ds fm (k # ks) = scan_days c offset ds fm ks"
      by (simp only: step) auto
    have "\<not> candidate c d0 fm k m'" for m'
      using skip(2) first_minute_of_day_spec(2) [OF wf, of "k = 0" fm m'] by (auto simp: candidate_def)
    with IH show ?thesis unfolding s by (auto split: option.splits)
  next
    case hit
    then have "scan_days c offset ds fm (k # ks) = Some (ds + k * 86400000 + m * 60000)"
      by (simp only: step) simp
    moreover note first_minute_of_day_spec(1) [OF wf hit(3)]
    ultimately show ?thesis using hit(2) above by (auto simp: candidate_def)
  qed
qed simp

lemma fires_at_candidate:
  assumes wf: "cron_wf c" "cx_kind c = Cron" and ms: "ms = (day * 86400 - offset) * 1000 + m * 60000"
    and "0 \<le> day" and "0 \<le> m" and "m < 1440"
  shows "fires_at c offset ms \<longleftrightarrow> day_ok c day \<and> m \<in> set (minutes_of_day c)"
proof -
  have e: "ms + offset * 1000 = (day * 86400 + m * 60) * 1000" by (simp add: ms algebra_simps)
  then have e60: "ms + offset * 1000 = 60000 * (day * 1440 + m)" by simp
  have b: "break_down ms offset = gmtime (day * 86400 + m * 60)"
    by (rule break_down_at [OF e]) (use assms(4,5) in simp)
  have z: "(ms + offset * 1000) mod 60000 = 0" unfolding e60 by simp
  have "value_set 0 59 (cx_minute c)" using wf by (simp add: cron_wf_def)
  note md = minutes_of_day_iff [OF this assms(5)]
  obtain y mo d where civil: "civil_of_days day = (y, mo, d)" by (cases "civil_of_days day")
  show ?thesis
    unfolding fires_at_def b gmtime_minute [OF assms(5,6)] Let_def civil day_ok_def md prod.case
      broken_down.simps cron_matches_def day_matches_def
    using z by (auto simp del: minus_mod_eq_mult_div)
qed

lemma minutes_of_day_range:
  assumes "cron_wf c" and "cx_kind c = Cron" and "m \<in> set (minutes_of_day c)"
  shows "0 \<le> m \<and> m < 1440"
proof -
  obtain h k where h: "h \<in> set (cx_hour c)" and k: "k \<in> set (cx_minute c)" and m: "m = h * 60 + k"
    using assms(3) by (auto simp: minutes_of_day_def)
  have "0 \<le> h" "h \<le> 23" using h assms(1,2) by (auto simp: cron_wf_def value_set_def)
  moreover have "0 \<le> k" "k \<le> 59" using k assms(1,2) by (auto simp: cron_wf_def value_set_def)
  ultimately show ?thesis unfolding m by simp
qed

text \<open>The local day an instant lies in, and the midnight it began with.\<close>

definition local_day :: "int \<Rightarrow> int \<Rightarrow> int" where
  "local_day ms offset = (ms + offset * 1000) div 86400000"

definition midnight :: "int \<Rightarrow> int \<Rightarrow> int" where
  "midnight day offset = (day * 86400 - offset) * 1000"

lemma midnight_local_day:
  "midnight (local_day ms offset) offset \<le> ms" "ms < midnight (local_day ms offset) offset + 86400000"
proof -
  define q where "q = local_day ms offset"
  have q: "86400000 * q \<le> ms + offset * 1000" "ms + offset * 1000 < 86400000 * q + 86400000"
    unfolding q_def local_day_def by (rule int_div_bounds, simp)+
  then show "midnight (local_day ms offset) offset \<le> ms" "ms < midnight (local_day ms offset) offset + 86400000"
    unfolding midnight_def q_def [symmetric] by simp_all
qed

lemma next_after_scan:
  assumes "cx_kind c = Cron" and "0 \<le> t + offset * 1000"
  defines "ds \<equiv> midnight (local_day t offset) offset"
  shows "next_after c t offset = scan_days c offset ds ((t - ds) div 60000) [0..1500]"
proof -
  have d: "(t + offset * 1000) div 1000 div 86400 = local_day t offset"
    using zdiv_zmult2_eq [of 86400 "t + offset * 1000" 1000] by (simp add: local_day_def)
  have "compose ((break_down t offset)\<lparr>bd_hour := 0, bd_minute := 0, bd_second := 0\<rparr>) offset = ds"
    unfolding break_down_nonneg [OF assms(2)] gmtime_def Let_def d compose_def timegm_def
    using days_of_civil_of_days [of "local_day t offset"] by (simp add: ds_def midnight_def split: prod.splits)
  moreover have "0 \<le> t - ds" using midnight_local_day [of t offset] by (simp add: ds_def)
  ultimately show ?thesis using assms(1) by (simp add: next_after_def Let_def trunc_div_nonneg)
qed

text \<open>An instant after \<open>t\<close> that fires is a candidate of the scan, at its day and minute.\<close>

lemma fires_at_later:
  assumes wf: "cron_wf c" "cx_kind c = Cron" and t: "0 \<le> t + offset * 1000" "t < u" and "fires_at c offset u"
  defines "d0 \<equiv> local_day t offset"
  obtains k m where "0 \<le> k" and "0 \<le> m" and "m < 1440" and "u = midnight d0 offset + k * 86400000 + m * 60000"
    and "candidate c d0 ((t - midnight d0 offset) div 60000) k m"
proof -
  define L where "L = (u + offset * 1000) div 60000"
  have L: "u + offset * 1000 = 60000 * L"
    using assms(5) div_mult_mod_eq [of "u + offset * 1000" 60000] by (simp add: fires_at_def L_def)
  define k m where "k = L div 1440 - d0" and "m = L mod 1440"
  have Lkm: "L = 1440 * (d0 + k) + m" unfolding k_def m_def by (simp add: algebra_simps)
  have m: "0 \<le> m" "m < 1440" unfolding m_def by simp_all
  have u: "u = midnight d0 offset + k * 86400000 + m * 60000"
    using L unfolding Lkm midnight_def by (simp add: algebra_simps)
  have "midnight d0 offset \<le> t" unfolding d0_def by (rule midnight_local_day)
  then have k: "0 \<le> k" using u m t(2) by linarith
  have d0: "0 \<le> d0" using t(1) by (simp add: d0_def local_day_def)
  have e: "u = ((d0 + k) * 86400 - offset) * 1000 + m * 60000" unfolding u midnight_def by (simp add: algebra_simps)
  have f: "day_ok c (d0 + k) \<and> m \<in> set (minutes_of_day c)"
    using fires_at_candidate [OF wf e _ m] assms(5) k d0 by simp
  moreover have "(t - midnight d0 offset) div 60000 < m" if "k = 0"
  proof -
    have "t - midnight d0 offset < 60000 * m" using u t(2) that by linarith
    moreover have "60000 * ((t - midnight d0 offset) div 60000) \<le> t - midnight d0 offset"
      by (rule int_div_bounds) simp
    ultimately have "60000 * ((t - midnight d0 offset) div 60000) < 60000 * m" by (rule le_less_trans [rotated])
    then show ?thesis by simp
  qed
  ultimately have "candidate c d0 ((t - midnight d0 offset) div 60000) k m" by (simp add: candidate_def)
  with k m u show thesis by (rule that)
qed

lemma next_after_first:
  assumes wf: "cron_wf c" "cx_kind c = Cron" and t: "0 \<le> t + offset * 1000"
    and n: "next_after c t offset = Some n"
  shows "t < n \<and> fires_at c offset n \<and> (\<forall>u. t < u \<and> u < n \<longrightarrow> \<not> fires_at c offset u)"
proof -
  define d0 where "d0 = local_day t offset"
  define ds where "ds = midnight d0 offset"
  define fm where "fm = (t - ds) div 60000"
  have d0: "0 \<le> d0" using t by (simp add: d0_def local_day_def)
  have "\<forall>k \<in> set [0..1500::int]. 0 \<le> k" by auto
  from scan_days_spec [OF wf ds_def [unfolded midnight_def] d0 sorted_wrt_upto this, of fm]
    n [unfolded next_after_scan [OF wf(2) t], folded d0_def, folded ds_def, folded fm_def]
  obtain k m where k: "k \<in> {0..1500}" and cm: "candidate c d0 fm k m" and nkm: "n = ds + k * 86400000 + m * 60000"
    and least: "\<And>k' m'. k' \<in> {0..1500} \<Longrightarrow> candidate c d0 fm k' m' \<Longrightarrow> k < k' \<or> k = k' \<and> m \<le> m'"
    by auto
  have m: "0 \<le> m" "m < 1440" using cm minutes_of_day_range [OF wf] by (auto simp: candidate_def)
  have tds: "ds \<le> t" "t < ds + 86400000"
    using midnight_local_day [of t offset] by (simp_all add: ds_def d0_def)
  have "t < n"
  proof (cases "k = 0")
    case True
    with cm have "fm < m" by (simp add: candidate_def)
    then have "fm * 60000 + 60000 \<le> m * 60000" by simp
    moreover have "t - ds < 60000 * fm + 60000" unfolding fm_def by (rule int_div_bounds) simp
    ultimately show ?thesis using nkm True by linarith
  next
    case False
    with k have "1 \<le> k" by simp
    with nkm m tds show ?thesis by linarith
  qed
  moreover have "fires_at c offset n"
  proof -
    have "n = ((d0 + k) * 86400 - offset) * 1000 + m * 60000"
      unfolding nkm ds_def midnight_def by (simp add: algebra_simps)
    from fires_at_candidate [OF wf this] show ?thesis using cm d0 k m by (simp add: candidate_def)
  qed
  moreover have "\<not> fires_at c offset u" if "t < u" "u < n" for u
  proof
    assume "fires_at c offset u"
    from fires_at_later [OF wf t that(1) this, folded d0_def, folded ds_def, folded fm_def]
    obtain k' m' where u: "0 \<le> k'" "0 \<le> m'" "m' < 1440" "u = ds + k' * 86400000 + m' * 60000"
      and c': "candidate c d0 fm k' m'" .
    have "k' \<le> k" using u m nkm that(2) by linarith
    with k u(1) have "k' \<in> {0..1500}" by simp
    from least [OF this c'] \<open>k' \<le> k\<close> have "k = k'" "m \<le> m'" by simp_all
    with u(4) nkm that(2) show False by simp
  qed
  ultimately show ?thesis by blast
qed

lemma next_after_none:
  assumes wf: "cron_wf c" "cx_kind c = Cron" and t: "0 \<le> t + offset * 1000"
    and n: "next_after c t offset = None" and u: "t < u" "local_day u offset \<le> local_day t offset + 1500"
  shows "\<not> fires_at c offset u"
proof
  assume f: "fires_at c offset u"
  define d0 where "d0 = local_day t offset"
  define ds where "ds = midnight d0 offset"
  define fm where "fm = (t - ds) div 60000"
  have d0: "0 \<le> d0" using t by (simp add: d0_def local_day_def)
  have "\<forall>k \<in> set [0..1500::int]. 0 \<le> k" by auto
  from scan_days_spec [OF wf ds_def [unfolded midnight_def] d0 sorted_wrt_upto this, of fm]
    n [unfolded next_after_scan [OF wf(2) t], folded d0_def, folded ds_def, folded fm_def]
  have none: "\<And>k' m'. k' \<in> {0..1500} \<Longrightarrow> \<not> candidate c d0 fm k' m'" by auto
  from fires_at_later [OF wf t u(1) f, folded d0_def, folded ds_def, folded fm_def]
  obtain k m where k: "0 \<le> k" "0 \<le> m" "m < 1440" "u = ds + k * 86400000 + m * 60000" "candidate c d0 fm k m" .
  have "u + offset * 1000 = 86400000 * (d0 + k) + m * 60000"
    unfolding k(4) ds_def midnight_def by (simp add: algebra_simps)
  then have "local_day u offset = d0 + k"
    unfolding local_day_def by (rule int_div_pos_eq) (use k(2,3) in simp_all)
  with u(2) k(1) have "k \<in> {0..1500}" by (simp add: d0_def)
  with none k(5) show False by blast
qed

section \<open>Properties\<close>

definition hourly :: cron_expr where
  "hourly = (empty_cron ''@hourly'')\<lparr>cx_minute := [0], cx_hour := [0..23], cx_dom := [1..31],
     cx_month := [1..12], cx_dow := [0..6]\<rparr>"

lemma parse_hourly: "parse_cron ''@hourly'' = Returns (Inr hourly)"
  by (simp add: parse_cron_def parse_macro_def trim_def lower_def Let_def is_space_def byte_def to_lower_def
      is_upper_def starts_with_def hourly_def)

lemma hourly_kind [simp]: "cx_kind hourly = Cron"
  by (simp add: hourly_def empty_cron_def)

text \<open>
  C9: For every schedule that \<open>CronExpression::parse\<close> accepts as a cron expression, \<open>nextAfter\<close> returns the
  next firing: it is later than the given instant, it is a whole local minute that the expression matches,
  and no instant in between is; and when it returns nothing, no instant of the next 1500 days matches.
\<close>

theorem cron_next_firing:
  assumes "parse_cron text = Returns (Inr c)" and "cx_kind c = Cron" and "0 \<le> t + offset * 1000"
  shows "case next_after c t offset of
      Some n \<Rightarrow> t < n \<and> fires_at c offset n \<and> (\<forall>u. t < u \<and> u < n \<longrightarrow> \<not> fires_at c offset u)
    | None \<Rightarrow> (\<forall>u. t < u \<and> local_day u offset \<le> local_day t offset + 1500 \<longrightarrow> \<not> fires_at c offset u)"
  using next_after_first [OF parse_cron_wf [OF assms(1)] assms(2,3)]
    next_after_none [OF parse_cron_wf [OF assms(1)] assms(2,3)]
  by (auto split: option.splits)

theorem cron_next_firing_witness:
  "case next_after hourly 1700000000000 3600 of
     Some n \<Rightarrow> 1700000000000 < n \<and> fires_at hourly 3600 n \<and>
       (\<forall>u. 1700000000000 < u \<and> u < n \<longrightarrow> \<not> fires_at hourly 3600 u)
   | None \<Rightarrow> (\<forall>u. 1700000000000 < u \<and> local_day u 3600 \<le> local_day 1700000000000 3600 + 1500
               \<longrightarrow> \<not> fires_at hourly 3600 u)"
  by (rule cron_next_firing [OF parse_hourly]) simp_all

text \<open>
  What \<open>CronExpression::parse\<close> accepts is well-formed: each field is a strictly increasing list of values
  inside its range (minutes 0-59, hours 0-23, days 1-31, months 1-12, weekdays 0-6, years from 1970), no
  field that must select something is empty, and an interval is positive.
\<close>

theorem cron_parse_well_formed: "parse_cron text = Returns (Inr c) \<Longrightarrow> cron_wf c"
  by (rule parse_cron_wf)

theorem cron_parse_well_formed_witness: "cron_wf hourly"
  by (rule cron_parse_well_formed [OF parse_hourly])

text \<open>
  A step near the largest \<open>int\<close> passes every check of the parser and overflows the counter of the loop that
  follows them; from zero, the same step is harmless.
\<close>

theorem long_step_overflows:
  "item_values 0 59 False item 2147483647 1 59 = Inl CounterOverflow \<and> item_values 0 59 False item 2147483647 0 59 = Inr [0]"
  by (simp add: item_values_def step_range.simps)

end
