(* ===== verification/Sapo_Scheduler.thy ===== *)
theory Sapo_Scheduler
  imports Sapo_Cron Sapo_Core "HOL-Library.Multiset"
begin

text \<open>
  \<open>Scheduler\<close> of \<open>runtime/Scheduler.cpp\<close>: the job and timer registry.  The clock reading and the
  random identifier an operation draws are arguments (\<open>now\<close>, \<open>fresh\<close>); the callbacks are the list
  of jobs and timers a tick returns, in the order they are called.  \<open>Throws\<close> is an exception of the
  duration reader (or an overflow in the cron parser, which has no defined behaviour) that leaves the operation; the
  registry is then as far updated as the code got.
  \<open>std::sort\<close> is a stable sort here; no lemma depends on the order of timers due at the same instant.

  The lemmas: the documents of jobs and timers read back as written; identifiers stay unique and
  timers sorted; a tick returns exactly the timers that are due and leaves no job due, so that the
  next wake-up lies in the future; catch-up firings are consecutive matching minutes, at most the
  configured number of them.
\<close>

section \<open>Jobs and timers\<close>

record job =
  jb_id :: string
  jb_schedule :: string
  jb_timezone :: string
  jb_workflow :: string
  jb_node_id :: string
  jb_entry_node :: string
  jb_input :: json
  jb_enabled :: bool
  jb_catch_up :: bool
  jb_max_catch_up :: int
  jb_next_fire_ms :: int
  jb_last_fire_ms :: int
  jb_fire_count :: nat

definition job_to_json :: "job \<Rightarrow> json" where
  "job_to_json j = jobj
     [(''id'', JStr (jb_id j)), (''schedule'', JStr (jb_schedule j)), (''timezone'', JStr (jb_timezone j)),
      (''workflow'', JStr (jb_workflow j)), (''node_id'', JStr (jb_node_id j)),
      (''entry_node'', JStr (jb_entry_node j)), (''input'', jb_input j), (''enabled'', JBool (jb_enabled j)),
      (''catch_up'', JBool (jb_catch_up j)), (''max_catch_up'', JInt (jb_max_catch_up j)),
      (''next_fire_ms'', JInt (jb_next_fire_ms j)), (''last_fire_ms'', JInt (jb_last_fire_ms j)),
      (''fire_count'', JInt (int (jb_fire_count j)))]"

definition job_from_json :: "json \<Rightarrow> job" where
  "job_from_json d =
     \<lparr>jb_id = jvalue_str ''id'' [] d, jb_schedule = jvalue_str ''schedule'' [] d,
      jb_timezone = jvalue_str ''timezone'' ''UTC'' d, jb_workflow = jvalue_str ''workflow'' [] d,
      jb_node_id = jvalue_str ''node_id'' [] d, jb_entry_node = jvalue_str ''entry_node'' [] d,
      jb_input = jvalue ''input'' (JObj []) d, jb_enabled = jvalue_bool ''enabled'' True d,
      jb_catch_up = jvalue_bool ''catch_up'' False d, jb_max_catch_up = as_int32 (jvalue_int ''max_catch_up'' 5 d),
      jb_next_fire_ms = jvalue_int ''next_fire_ms'' 0 d, jb_last_fire_ms = jvalue_int ''last_fire_ms'' 0 d,
      jb_fire_count = nat (jvalue_int ''fire_count'' 0 d)\<rparr>"

record timer =
  ti_id :: string
  ti_session_id :: string
  ti_due_ms :: int
  ti_resume_node :: string
  ti_reason :: string
  ti_checkpoint_key :: string

definition timer_to_json :: "timer \<Rightarrow> json" where
  "timer_to_json t = jobj
     [(''id'', JStr (ti_id t)), (''session_id'', JStr (ti_session_id t)), (''due_ms'', JInt (ti_due_ms t)),
      (''resume_node'', JStr (ti_resume_node t)), (''reason'', JStr (ti_reason t)),
      (''context_checkpoint_key'', JStr (ti_checkpoint_key t))]"

definition timer_from_json :: "json \<Rightarrow> timer" where
  "timer_from_json d =
     \<lparr>ti_id = jvalue_str ''id'' [] d, ti_session_id = jvalue_str ''session_id'' [] d,
      ti_due_ms = jvalue_int ''due_ms'' 0 d, ti_resume_node = jvalue_str ''resume_node'' [] d,
      ti_reason = jvalue_str ''reason'' [] d,
      ti_checkpoint_key = jvalue_str ''context_checkpoint_key'' [] d\<rparr>"

text \<open>The documents \<open>fromJson\<close> reads without throwing.\<close>

definition job_typed :: "json \<Rightarrow> bool" where
  "job_typed d \<longleftrightarrow> is_object d \<and>
     list_all (text_member d) [''id'', ''schedule'', ''timezone'', ''workflow'', ''node_id'', ''entry_node''] \<and>
     list_all (flag_member d) [''enabled'', ''catch_up''] \<and>
     list_all (number_member d) [''max_catch_up'', ''next_fire_ms'', ''last_fire_ms'', ''fire_count'']"

definition timer_typed :: "json \<Rightarrow> bool" where
  "timer_typed d \<longleftrightarrow> is_object d \<and>
     list_all (text_member d) [''id'', ''session_id'', ''resume_node'', ''reason'', ''context_checkpoint_key''] \<and>
     number_member d ''due_ms''"

lemma job_round_trip:
  assumes "- 2147483648 \<le> jb_max_catch_up j" and "jb_max_catch_up j < 2147483648"
  shows "job_typed (job_to_json j) \<and> job_from_json (job_to_json j) = j"
  using assms by (simp add: job_typed_def job_from_json_def job_to_json_def jvalue_defs member_defs jget_jobj)

lemma timer_round_trip: "timer_from_json (timer_to_json t) = t"
  by (simp add: timer_from_json_def timer_to_json_def jvalue_defs jget_jobj)

lemma timer_typed_to_json [simp]: "timer_typed (timer_to_json t)"
  by (simp add: timer_typed_def timer_to_json_def text_member_def number_member_def jget_jobj)

section \<open>The registry\<close>

record sched =
  sc_jobs :: "job list"
  sc_timers :: "timer list"

definition empty_sched :: sched where
  "empty_sched = \<lparr>sc_jobs = [], sc_timers = []\<rparr>"

definition reschedule :: "job \<Rightarrow> int \<Rightarrow> job outcome" where
  "reschedule j from_ms =
     map_outcome (\<lambda>r. case r of
         Inl _ \<Rightarrow> j\<lparr>jb_enabled := False, jb_next_fire_ms := 0\<rparr>
       | Inr c \<Rightarrow> (case next_after c from_ms (offset_for (jb_timezone j)) of
                     None \<Rightarrow> j\<lparr>jb_enabled := False, jb_next_fire_ms := 0\<rparr>
                   | Some n \<Rightarrow> j\<lparr>jb_next_fire_ms := n\<rparr>))
       (parse_cron (jb_schedule j))"

text \<open>\<open>addJob\<close>: an invalid schedule is a \<open>SapoError\<close> (\<open>Inl\<close>), otherwise the job's identifier.\<close>

definition add_job :: "int \<Rightarrow> string \<Rightarrow> job \<Rightarrow> sched \<Rightarrow> sched \<times> (sapo_error + string) outcome" where
  "add_job now fresh j s =
     (case parse_cron (jb_schedule j) of
        Throws \<Rightarrow> (s, Throws)
      | Returns (Inl e) \<Rightarrow>
          (s, Returns (Inl \<lparr>se_code = Parse,
                se_message = ''invalid schedule '' @ quoted (jb_schedule j) @ '': '' @ e,
                se_data = jobj [(''schedule'', JStr (jb_schedule j))], se_node = jb_node_id j\<rparr>))
      | Returns (Inr c) \<Rightarrow>
          (let j1 = (if jb_id j = [] then j\<lparr>jb_id := ''job_'' @ fresh\<rparr> else j)
           in case (if jb_next_fire_ms j1 \<le> now then reschedule j1 now else Returns j1) of
                Throws \<Rightarrow> (s, Throws)
              | Returns j2 \<Rightarrow>
                  (s\<lparr>sc_jobs := filter (\<lambda>x. jb_id x \<noteq> jb_id j2) (sc_jobs s) @ [j2]\<rparr>,
                   Returns (Inr (jb_id j2)))))"

definition remove_job :: "string \<Rightarrow> sched \<Rightarrow> sched \<times> bool" where
  "remove_job i s =
     (let js = filter (\<lambda>x. jb_id x \<noteq> i) (sc_jobs s)
      in (s\<lparr>sc_jobs := js\<rparr>, length js \<noteq> length (sc_jobs s)))"

fun enable_in :: "string \<Rightarrow> bool \<Rightarrow> int \<Rightarrow> job list \<Rightarrow> job list \<times> bool outcome" where
  "enable_in i on now [] = ([], Returns False)"
| "enable_in i on now (j # js) =
     (if jb_id j \<noteq> i then (case enable_in i on now js of (js', r) \<Rightarrow> (j # js', r))
      else let j1 = j\<lparr>jb_enabled := on\<rparr>
           in if on then (case reschedule j1 now of
                            Throws \<Rightarrow> (j1 # js, Throws)
                          | Returns j2 \<Rightarrow> (j2 # js, Returns True))
              else (j1 # js, Returns True))"

definition enable_job :: "string \<Rightarrow> bool \<Rightarrow> int \<Rightarrow> sched \<Rightarrow> sched \<times> bool outcome" where
  "enable_job i on now s = (case enable_in i on now (sc_jobs s) of (js, r) \<Rightarrow> (s\<lparr>sc_jobs := js\<rparr>, r))"

definition find_job :: "string \<Rightarrow> sched \<Rightarrow> job option" where
  "find_job i s = find (\<lambda>j. jb_id j = i) (sc_jobs s)"

definition add_timer :: "string \<Rightarrow> timer \<Rightarrow> sched \<Rightarrow> sched \<times> string" where
  "add_timer fresh t s =
     (let t1 = (if ti_id t = [] then t\<lparr>ti_id := ''timer_'' @ fresh\<rparr> else t);
          ts = sort_key ti_due_ms (filter (\<lambda>x. ti_id x \<noteq> ti_id t1) (sc_timers s) @ [t1])
      in (s\<lparr>sc_timers := ts\<rparr>, ti_id (last ts)))"

definition cancel_timer :: "string \<Rightarrow> sched \<Rightarrow> sched \<times> bool" where
  "cancel_timer i s =
     (let ts = filter (\<lambda>x. ti_id x \<noteq> i) (sc_timers s)
      in (s\<lparr>sc_timers := ts\<rparr>, length ts \<noteq> length (sc_timers s)))"

definition cancel_timers_for_session :: "string \<Rightarrow> sched \<Rightarrow> sched \<times> bool" where
  "cancel_timers_for_session sid s =
     (let ts = filter (\<lambda>x. ti_session_id x \<noteq> sid) (sc_timers s)
      in (s\<lparr>sc_timers := ts\<rparr>, length ts \<noteq> length (sc_timers s)))"

definition find_timer :: "string \<Rightarrow> sched \<Rightarrow> timer option" where
  "find_timer i s = find (\<lambda>t. ti_id t = i) (sc_timers s)"

definition timers_for_session :: "string \<Rightarrow> sched \<Rightarrow> timer list" where
  "timers_for_session sid s = filter (\<lambda>t. ti_session_id t = sid) (sc_timers s)"

section \<open>Ticks\<close>

text \<open>The catch-up loop: the missed firings of one job, oldest first.\<close>

fun fire_times :: "cron_expr \<Rightarrow> int \<Rightarrow> int \<Rightarrow> nat \<Rightarrow> int \<Rightarrow> int list" where
  "fire_times c offset now 0 cursor = []"
| "fire_times c offset now (Suc n) cursor =
     cursor # (case next_after c cursor offset of
                 None \<Rightarrow> []
               | Some nx \<Rightarrow> if nx > now then [] else fire_times c offset now n nx)"

definition catch_up_limit :: "job \<Rightarrow> nat" where
  "catch_up_limit j = nat (if jb_catch_up j then max 1 (jb_max_catch_up j) else 1)"

definition job_due :: "int \<Rightarrow> job \<Rightarrow> bool" where
  "job_due now j \<longleftrightarrow> \<not> (\<not> jb_enabled j \<or> jb_next_fire_ms j \<le> 0 \<or> jb_next_fire_ms j > now)"

fun tick_jobs :: "int \<Rightarrow> job list \<Rightarrow> job list \<times> (job \<times> int) list outcome" where
  "tick_jobs now [] = ([], Returns [])"
| "tick_jobs now (j # js) =
     (if \<not> job_due now j then (case tick_jobs now js of (js', r) \<Rightarrow> (j # js', r))
      else case parse_cron (jb_schedule j) of
        Throws \<Rightarrow> (j # js, Throws)
      | Returns (Inl _) \<Rightarrow> (case tick_jobs now js of (js', r) \<Rightarrow> (j\<lparr>jb_enabled := False\<rparr> # js', r))
      | Returns (Inr c) \<Rightarrow>
          (let due = map (Pair j) (fire_times c (offset_for (jb_timezone j)) now (catch_up_limit j) (jb_next_fire_ms j));
               j1 = j\<lparr>jb_last_fire_ms := now, jb_fire_count := Suc (jb_fire_count j)\<rparr>
           in case reschedule j1 now of
                Throws \<Rightarrow> (j1 # js, Throws)
              | Returns j2 \<Rightarrow> (case tick_jobs now js of (js', r) \<Rightarrow> (j2 # js', map_outcome ((@) due) r))))"

definition tick_until :: "int \<Rightarrow> sched \<Rightarrow> sched \<times> ((job \<times> int) list \<times> timer list) outcome" where
  "tick_until now s =
     (case tick_jobs now (sc_jobs s) of
        (js, Throws) \<Rightarrow> (s\<lparr>sc_jobs := js\<rparr>, Throws)
      | (js, Returns due_jobs) \<Rightarrow>
          (s\<lparr>sc_jobs := js, sc_timers := filter (\<lambda>t. \<not> ti_due_ms t \<le> now) (sc_timers s)\<rparr>,
           Returns (due_jobs, filter (\<lambda>t. ti_due_ms t \<le> now) (sc_timers s))))"

definition next_wake_ms :: "sched \<Rightarrow> int" where
  "next_wake_ms s =
     foldl (\<lambda>nx t. if nx = 0 \<or> ti_due_ms t < nx then ti_due_ms t else nx)
       (foldl (\<lambda>nx j. if \<not> jb_enabled j \<or> jb_next_fire_ms j \<le> 0 then nx
                      else if nx = 0 \<or> jb_next_fire_ms j < nx then jb_next_fire_ms j else nx) 0 (sc_jobs s))
       (sc_timers s)"

definition pending_count :: "sched \<Rightarrow> nat" where
  "pending_count s = length (sc_timers s) + length (filter jb_enabled (sc_jobs s))"

section \<open>Persistence\<close>

definition sched_to_json :: "sched \<Rightarrow> json" where
  "sched_to_json s = jobj
     [(''version'', JInt 1), (''jobs'', JArr (map job_to_json (sc_jobs s))),
      (''timers'', JArr (map timer_to_json (sc_timers s)))]"

fun reschedule_missing :: "int \<Rightarrow> job list \<Rightarrow> job list \<times> bool outcome" where
  "reschedule_missing now [] = ([], Returns True)"
| "reschedule_missing now (j # js) =
     (if jb_enabled j \<and> jb_next_fire_ms j \<le> 0 then
        (case reschedule j now of
           Throws \<Rightarrow> (j # js, Throws)
         | Returns j' \<Rightarrow> (case reschedule_missing now js of (js', r) \<Rightarrow> (j' # js', r)))
      else (case reschedule_missing now js of (js', r) \<Rightarrow> (j # js', r)))"

text \<open>\<open>loadFromFile\<close> clears both lists, reads the jobs and the timers one by one (an entry that
  \<open>fromJson\<close> cannot read throws, with the entries before it loaded), and schedules the jobs that have no
  firing time.\<close>

definition load_document :: "int \<Rightarrow> json \<Rightarrow> sched \<Rightarrow> sched \<times> bool outcome" where
  "load_document now d s =
     (let jds = (case jget ''jobs'' d of Some (JArr xs) \<Rightarrow> xs | _ \<Rightarrow> []);
          tds = (case jget ''timers'' d of Some (JArr xs) \<Rightarrow> xs | _ \<Rightarrow> []);
          js = map job_from_json (takeWhile job_typed jds); ts = map timer_from_json (takeWhile timer_typed tds)
      in if \<not> list_all job_typed jds then (s\<lparr>sc_jobs := js, sc_timers := []\<rparr>, Throws)
         else if \<not> list_all timer_typed tds then (s\<lparr>sc_jobs := js, sc_timers := ts\<rparr>, Throws)
         else case reschedule_missing now js of (js', r) \<Rightarrow> (s\<lparr>sc_jobs := js', sc_timers := ts\<rparr>, r))"

text \<open>The file is its content, absent when it cannot be opened; \<open>dump\<close> and \<open>parse\<close> are the document
  library's.\<close>

definition save_to_file :: "(json \<Rightarrow> string) \<Rightarrow> sched \<Rightarrow> string" where
  "save_to_file dump s = dump (sched_to_json s)"

definition load_from_file :: "(string \<Rightarrow> json option) \<Rightarrow> int \<Rightarrow> string option \<Rightarrow> sched \<Rightarrow> sched \<times> bool outcome" where
  "load_from_file parse now content s =
     (case content of
        None \<Rightarrow> (s, Returns False)
      | Some text \<Rightarrow> (case parse text of None \<Rightarrow> (s, Returns False) | Some d \<Rightarrow> load_document now d s))"


section \<open>Registry invariant\<close>

definition sched_wf :: "sched \<Rightarrow> bool" where
  "sched_wf s \<longleftrightarrow>
     distinct (map jb_id (sc_jobs s)) \<and> distinct (map ti_id (sc_timers s)) \<and>
     sorted (map ti_due_ms (sc_timers s))"

lemma distinct_map_replace:
  "distinct (map f xs) \<Longrightarrow> f y = i \<Longrightarrow> distinct (map f (filter (\<lambda>x. f x \<noteq> i) xs @ [y]))"
  by (auto simp: distinct_map_filter)

lemma distinct_map_sort_key: "distinct (map f (sort_key k xs)) \<longleftrightarrow> distinct (map f xs)"
  by (rule mset_eq_imp_distinct_iff) simp

lemma reschedule_frame [frame_simps]:
  assumes "reschedule j t = Returns j'"
  shows "jb_id j' = jb_id j" "jb_schedule j' = jb_schedule j" "jb_timezone j' = jb_timezone j"
    "jb_workflow j' = jb_workflow j" "jb_input j' = jb_input j"
  using assms unfolding reschedule_def
  by (cases "parse_cron (jb_schedule j)"; auto split: sum.splits option.splits)+

lemma add_job_wf: "sched_wf s \<Longrightarrow> sched_wf (fst (add_job now fresh j s))"
  unfolding add_job_def Let_def sched_wf_def
  by (auto split: outcome.splits sum.splits simp: distinct_map_replace frame_simps simp del: map_append)

lemma remove_job_wf: "sched_wf s \<Longrightarrow> sched_wf (fst (remove_job i s))"
  by (simp add: remove_job_def Let_def sched_wf_def distinct_map_filter)

lemma enable_in_ids: "map jb_id (fst (enable_in i on now js)) = map jb_id js"
  by (induction js) (auto split: prod.splits outcome.splits simp: Let_def frame_simps)

lemma enable_job_wf: "sched_wf s \<Longrightarrow> sched_wf (fst (enable_job i on now s))"
  using enable_in_ids [of i on now "sc_jobs s"]
  by (cases "enable_in i on now (sc_jobs s)") (simp add: enable_job_def sched_wf_def)

lemma add_timer_wf: "sched_wf s \<Longrightarrow> sched_wf (fst (add_timer fresh t s))"
  unfolding add_timer_def Let_def sched_wf_def
  by (simp add: distinct_map_sort_key distinct_map_replace del: map_append)

lemma cancel_timer_wf: "sched_wf s \<Longrightarrow> sched_wf (fst (cancel_timer i s))"
  by (simp add: cancel_timer_def Let_def sched_wf_def distinct_map_filter sorted_filter)

lemma cancel_session_wf: "sched_wf s \<Longrightarrow> sched_wf (fst (cancel_timers_for_session i s))"
  by (simp add: cancel_timers_for_session_def Let_def sched_wf_def distinct_map_filter sorted_filter)

lemma tick_jobs_ids: "map jb_id (fst (tick_jobs now js)) = map jb_id js"
  by (induction js) (auto split: prod.splits outcome.splits sum.splits simp: Let_def frame_simps)

lemma tick_wf: "sched_wf s \<Longrightarrow> sched_wf (fst (tick_until now s))"
  using tick_jobs_ids [of now "sc_jobs s"]
  by (auto simp: tick_until_def sched_wf_def distinct_map_filter sorted_filter split: prod.splits outcome.splits)

lemmas sched_wf_intros = add_job_wf remove_job_wf enable_job_wf add_timer_wf cancel_timer_wf cancel_session_wf tick_wf

section \<open>What a tick does\<close>

text \<open>A rescheduled job fires later than the instant it was rescheduled from, or is switched off.\<close>

lemma reschedule_later:
  assumes "reschedule j t = Returns j'" and "0 \<le> t + offset_for (jb_timezone j) * 1000"
  shows "\<not> jb_enabled j' \<or> t < jb_next_fire_ms j'"
proof (cases "parse_cron (jb_schedule j)")
  case (Returns r)
  show ?thesis
  proof (cases r)
    case (Inr c)
    then have wf: "cron_wf c" using Returns parse_cron_wf by blast
    show ?thesis
    proof (cases "next_after c t (offset_for (jb_timezone j))")
      case (Some n)
      have "t < n"
      proof (cases "cx_kind c")
        case Cron
        from next_after_first [OF wf this assms(2) Some] show ?thesis by simp
      next
        case Relative
        with Some wf show ?thesis by (simp add: next_after_def cron_wf_def)
      qed
      with assms(1) Returns Inr Some show ?thesis by (auto simp: reschedule_def)
    qed (use assms(1) Returns Inr in \<open>auto simp: reschedule_def\<close>)
  qed (use assms(1) Returns in \<open>auto simp: reschedule_def\<close>)
qed (use assms(1) in \<open>auto simp: reschedule_def\<close>)

lemma tick_jobs_none_due:
  assumes "tick_jobs now js = (js', Returns due)" and "\<And>j. j \<in> set js \<Longrightarrow> 0 \<le> now + offset_for (jb_timezone j) * 1000"
  shows "j' \<in> set js' \<Longrightarrow> \<not> job_due now j'"
  using assms
proof (induction js arbitrary: js' due)
  case (Cons j js)
  obtain ks r where ks: "tick_jobs now js = (ks, r)" by (cases "tick_jobs now js")
  have IH: "j' \<in> set ks \<Longrightarrow> \<not> job_due now j'" if "r = Returns d" for d
    using Cons.IH [of ks d] Cons.prems(3) ks that by simp
  show ?case
  proof (cases "job_due now j")
    case False
    with Cons.prems ks IH show ?thesis by auto
  next
    case True
    then obtain pr where pr: "parse_cron (jb_schedule j) = Returns pr"
      using Cons.prems(2) by (cases "parse_cron (jb_schedule j)") auto
    show ?thesis
    proof (cases pr)
      case Inl
      with True pr Cons.prems ks IH show ?thesis by (auto simp: job_due_def)
    next
      case (Inr c)
      let ?j1 = "j\<lparr>jb_last_fire_ms := now, jb_fire_count := Suc (jb_fire_count j)\<rparr>"
      obtain j2 where j2: "reschedule ?j1 now = Returns j2"
        using True pr Inr Cons.prems(2) by (cases "reschedule ?j1 now") (auto simp: Let_def)
      have "\<not> job_due now j2"
        using reschedule_later [OF j2] Cons.prems(3) [of j] by (auto simp: job_due_def)
      moreover obtain d where "r = Returns d" "js' = j2 # ks"
        using True pr Inr Cons.prems(2) ks j2 by (cases r) (auto simp: Let_def)
      ultimately show ?thesis using Cons.prems(1) IH by auto
    qed
  qed
qed simp

text \<open>The wake-up instant is the least pending one.\<close>

definition least_step :: "int \<Rightarrow> int \<Rightarrow> int" where
  "least_step nx t = (if nx = 0 \<or> t < nx then t else nx)"

definition pending_instants :: "sched \<Rightarrow> int list" where
  "pending_instants s =
     map jb_next_fire_ms (filter (\<lambda>j. jb_enabled j \<and> 0 < jb_next_fire_ms j) (sc_jobs s)) @ map ti_due_ms (sc_timers s)"

lemma next_wake_fold: "next_wake_ms s = foldl least_step 0 (pending_instants s)"
proof -
  have f: "foldl (\<lambda>nx j. if \<not> jb_enabled j \<or> jb_next_fire_ms j \<le> 0 then nx
                      else if nx = 0 \<or> jb_next_fire_ms j < nx then jb_next_fire_ms j else nx) a js =
        foldl least_step a (map jb_next_fire_ms (filter (\<lambda>j. jb_enabled j \<and> 0 < jb_next_fire_ms j) js))" for a js
    by (induction js arbitrary: a) (auto simp: least_step_def not_le)
  have g: "foldl (\<lambda>nx t. if nx = 0 \<or> ti_due_ms t < nx then ti_due_ms t else nx) a ts =
        foldl least_step a (map ti_due_ms ts)" for a ts
    by (induction ts arbitrary: a) (auto simp: least_step_def)
  show ?thesis by (simp only: next_wake_ms_def pending_instants_def foldl_append f g)
qed

lemma least_fold:
  assumes "\<forall>x \<in> set xs. 0 < x" and "0 < a"
  shows "0 < foldl least_step a xs \<and> foldl least_step a xs \<le> a \<and>
    (\<forall>x \<in> set xs. foldl least_step a xs \<le> x) \<and> foldl least_step a xs \<in> insert a (set xs)"
  using assms
proof (induction xs arbitrary: a)
  case (Cons x xs)
  have "0 < least_step a x" using Cons.prems by (simp add: least_step_def)
  with Cons show ?case by (auto simp: least_step_def split: if_splits dest: order_trans) fastforce+
qed simp

lemma next_wake_least:
  assumes "\<forall>x \<in> set (pending_instants s). 0 < x"
  shows "if pending_instants s = [] then next_wake_ms s = 0
         else next_wake_ms s \<in> set (pending_instants s) \<and> (\<forall>x \<in> set (pending_instants s). next_wake_ms s \<le> x)"
proof (cases "pending_instants s")
  case (Cons x xs)
  with assms least_fold [of xs x] show ?thesis by (simp add: next_wake_fold least_step_def)
qed (simp add: next_wake_fold)

lemma tick_pending_later:
  assumes "tick_until now s = (s', Returns due)"
    and "\<forall>j \<in> set (sc_jobs s). 0 \<le> now + offset_for (jb_timezone j) * 1000"
    and "x \<in> set (pending_instants s')"
  shows "now < x"
proof -
  obtain js d where js: "tick_jobs now (sc_jobs s) = (js, Returns d)" and
    s': "s' = s\<lparr>sc_jobs := js, sc_timers := filter (\<lambda>t. \<not> ti_due_ms t \<le> now) (sc_timers s)\<rparr>"
    using assms(1) by (auto simp: tick_until_def split: prod.splits outcome.splits)
  from tick_jobs_none_due [OF js] assms(2) have "\<And>j. j \<in> set js \<Longrightarrow> \<not> job_due now j" by blast
  with assms(3) show ?thesis by (fastforce simp: s' pending_instants_def job_due_def)
qed

text \<open>Catch-up: at most \<open>limit\<close> firings, each a matching minute (after the first, which was computed
  earlier), none later than the tick, with no matching minute left out in between.\<close>

fun consecutive :: "cron_expr \<Rightarrow> int \<Rightarrow> int list \<Rightarrow> bool" where
  "consecutive c offset (a # b # r) \<longleftrightarrow>
     a < b \<and> fires_at c offset b \<and> (\<forall>u. a < u \<and> u < b \<longrightarrow> \<not> fires_at c offset u) \<and> consecutive c offset (b # r)"
| "consecutive c offset _ \<longleftrightarrow> True"

lemma fire_times_length: "length (fire_times c offset now n cursor) \<le> n"
  by (induction n arbitrary: cursor) (auto split: option.splits)

lemma fire_times_bound: "cursor \<le> now \<Longrightarrow> x \<in> set (fire_times c offset now n cursor) \<Longrightarrow> x \<le> now"
  by (induction n arbitrary: cursor) (auto split: option.splits if_splits simp: not_less)

lemma fire_times_consecutive:
  assumes "cron_wf c" and "cx_kind c = Cron" and "0 \<le> cursor + offset * 1000"
  shows "consecutive c offset (fire_times c offset now n cursor)"
  using assms(3)
proof (induction n arbitrary: cursor)
  case (Suc n)
  show ?case
  proof (cases "next_after c cursor offset")
    case (Some nx)
    from next_after_first [OF assms(1,2) Suc.prems Some]
    have nx: "cursor < nx" "fires_at c offset nx" "\<forall>u. cursor < u \<and> u < nx \<longrightarrow> \<not> fires_at c offset u" by auto
    with Suc.IH [of nx] Suc.prems have "consecutive c offset (fire_times c offset now n nx)" by simp
    with nx Some show ?thesis by (cases n) auto
  qed simp
qed simp

section \<open>The timer queue as an interface\<close>

text \<open>What a suspended run relies on: an armed timer stays pending until its instant, is delivered once, by
  the first tick at or after it that does not throw, and never after its session's timers are cancelled.  A tick that
  throws gives \<open>None\<close> and leaves every timer pending.\<close>

locale timer_queue =
  fixes arm :: "timer \<Rightarrow> 's \<Rightarrow> 's" and cancel :: "string \<Rightarrow> 's \<Rightarrow> 's"
    and tick :: "int \<Rightarrow> 's \<Rightarrow> 's \<times> timer list option" and pending :: "'s \<Rightarrow> timer multiset"
  assumes pending_arm: "ti_id t \<noteq> [] \<Longrightarrow> pending (arm t s) = add_mset t {#u \<in># pending s. ti_id u \<noteq> ti_id t#}"
    and pending_cancel: "pending (cancel sid s) = {#u \<in># pending s. ti_session_id u \<noteq> sid#}"
    and tick_thrown: "snd (tick now s) = None \<Longrightarrow> pending (fst (tick now s)) = pending s"
    and tick_pending: "snd (tick now s) = Some d \<Longrightarrow> pending (fst (tick now s)) = {#u \<in># pending s. now < ti_due_ms u#}"
    and tick_due: "snd (tick now s) = Some d \<Longrightarrow> mset d = {#u \<in># pending s. ti_due_ms u \<le> now#}"
begin

fun ticks :: "int list \<Rightarrow> 's \<Rightarrow> timer list option list" where
  "ticks [] s = []"
| "ticks (now # r) s = snd (tick now s) # ticks r (fst (tick now s))"

lemma ticks_length [simp]: "length (ticks ns s) = length ns"
  by (induction ns arbitrary: s) auto

text \<open>How often a tick delivers a timer: as often as it is pending, in the first tick at or after its instant
  that does not throw.\<close>

lemma delivered_count:
  "i < length ns \<Longrightarrow> ticks ns s ! i = Some d \<Longrightarrow>
   count (mset d) t =
     (if ti_due_ms t \<le> ns ! i \<and> (\<forall>k < i. ticks ns s ! k = None \<or> ns ! k < ti_due_ms t) then count (pending s) t else 0)"
proof (induction ns arbitrary: s i)
  case (Cons now r)
  show ?case
  proof (cases i)
    case (Suc k)
    with Cons.IH [of k "fst (tick now s)"] Cons.prems show ?thesis
      by (cases "snd (tick now s)") (auto simp: tick_pending tick_thrown all_less_Suc)
  qed (use Cons.prems in \<open>simp add: tick_due\<close>)
qed simp

lemma armed_count:
  assumes "ti_id t \<noteq> []" and "i < length ns" and "ticks ns (arm t s) ! i = Some d"
  shows "count (mset d) t =
     (if ti_due_ms t \<le> ns ! i \<and> (\<forall>k < i. ticks ns (arm t s) ! k = None \<or> ns ! k < ti_due_ms t) then 1 else 0)"
  using delivered_count [OF assms(2,3)] by (simp add: pending_arm [OF assms(1)])

lemma armed_pending: "ti_id t \<noteq> [] \<Longrightarrow> t \<in># pending (arm t s)"
  by (simp add: pending_arm)

lemma armed_in_tick:
  assumes "ti_id t \<noteq> []" and "snd (tick now (arm t s)) = Some d"
  shows "t \<in> set d \<longleftrightarrow> ti_due_ms t \<le> now"
proof -
  have "t \<in># mset d \<longleftrightarrow> ti_due_ms t \<le> now"
    unfolding tick_due [OF assms(2)] using armed_pending [OF assms(1)] by simp
  then show ?thesis by simp
qed

lemma cancelled_never:
  assumes "i < length ns" and "ticks ns (cancel sid s) ! i = Some d" and "t \<in> set d"
  shows "ti_session_id t \<noteq> sid"
  using delivered_count [OF assms(1,2), of t] assms(3)
  by (auto simp: pending_cancel count_eq_zero_iff split: if_splits)

end

text \<open>The timers a tick hands to the timer callback; a tick that throws hands out none.\<close>

definition tick_timers :: "int \<Rightarrow> sched \<Rightarrow> sched \<times> timer list option" where
  "tick_timers now s =
     (case tick_until now s of
        (s', Throws) \<Rightarrow> (s', None)
      | (s', Returns (js, ts)) \<Rightarrow> (s', Some ts))"

lemma tick_timers_thrown: "snd (tick_timers now s) = None \<longleftrightarrow> snd (tick_until now s) = Throws"
  by (auto simp: tick_timers_def split: prod.splits outcome.splits)

lemma tick_timers_some: "snd (tick_timers now s) = Some ts \<longleftrightarrow> (\<exists>js. snd (tick_until now s) = Returns (js, ts))"
  by (auto simp: tick_timers_def split: prod.splits outcome.splits)

lemma tick_timers_state [simp]: "fst (tick_timers now s) = fst (tick_until now s)"
  by (auto simp: tick_timers_def split: prod.splits outcome.splits)

interpretation wakeups: timer_queue "\<lambda>t s. fst (add_timer [] t s)" "\<lambda>sid s. fst (cancel_timers_for_session sid s)"
  tick_timers "\<lambda>s. mset (sc_timers s)"
proof unfold_locales
  fix t :: timer and s sid
  show "mset (sc_timers (fst (cancel_timers_for_session sid s))) = {#u \<in># mset (sc_timers s). ti_session_id u \<noteq> sid#}"
    by (simp add: cancel_timers_for_session_def Let_def)
  show "mset (sc_timers (fst (add_timer [] t s))) = add_mset t {#u \<in># mset (sc_timers s). ti_id u \<noteq> ti_id t#}" if "ti_id t \<noteq> []"
    using that by (simp add: add_timer_def Let_def)
next
  fix now s and d :: "timer list"
  show "mset (sc_timers (fst (tick_timers now s))) = mset (sc_timers s)" if "snd (tick_timers now s) = None"
    using that by (auto simp: tick_timers_thrown tick_until_def split: prod.splits outcome.splits)
  show "mset (sc_timers (fst (tick_timers now s))) = {#u \<in># mset (sc_timers s). now < ti_due_ms u#}"
    if "snd (tick_timers now s) = Some d"
    using that by (auto simp: tick_timers_some tick_until_def not_le split: prod.splits outcome.splits)
  show "mset d = {#u \<in># mset (sc_timers s). ti_due_ms u \<le> now#}" if "snd (tick_timers now s) = Some d"
    using that by (auto simp: tick_timers_some tick_until_def split: prod.splits outcome.splits)
qed

section \<open>Loading what was saved\<close>

lemma reschedule_missing_none:
  "list_all (\<lambda>j. \<not> (jb_enabled j \<and> jb_next_fire_ms j \<le> 0)) js \<Longrightarrow> reschedule_missing now js = (js, Returns True)"
  by (induction js) auto

lemma loaded_jobs:
  assumes "list_all (\<lambda>j. - 2147483648 \<le> jb_max_catch_up j \<and> jb_max_catch_up j < 2147483648) js"
  shows "list_all job_typed (map job_to_json js) \<and>
         map job_from_json (takeWhile job_typed (map job_to_json js)) = js"
  using assms by (induction js) (auto simp: job_round_trip)

lemma loaded_timers:
  "list_all timer_typed (map timer_to_json ts) \<and> map timer_from_json (takeWhile timer_typed (map timer_to_json ts)) = ts"
  by (induction ts) (auto simp: timer_round_trip)

section \<open>Properties\<close>

text \<open>A sequence of operations on the registry, at the instants they happen.  Loading takes the parsed content of
  the file, or nothing when it cannot be opened or read.\<close>

datatype sched_op =
    AddJob int string job | RemoveJob string | EnableJob string bool int
  | AddTimer string timer | CancelTimer string | CancelSession string | TickUntil int | LoadFile "json option" int

fun sched_apply :: "sched_op \<Rightarrow> sched \<Rightarrow> sched" where
  "sched_apply (AddJob now fresh j) s = fst (add_job now fresh j s)"
| "sched_apply (RemoveJob i) s = fst (remove_job i s)"
| "sched_apply (EnableJob i on now) s = fst (enable_job i on now s)"
| "sched_apply (AddTimer fresh t) s = fst (add_timer fresh t s)"
| "sched_apply (CancelTimer i) s = fst (cancel_timer i s)"
| "sched_apply (CancelSession sid) s = fst (cancel_timers_for_session sid s)"
| "sched_apply (TickUntil now) s = fst (tick_until now s)"
| "sched_apply (LoadFile d now) s = fst (load_from_file (\<lambda>_. d) now (Some []) s)"

text \<open>A loaded file is trusted: a document keeps the invariant when its own entries do.\<close>

definition document_jobs :: "json \<Rightarrow> json list" where
  "document_jobs d = (case jget ''jobs'' d of Some (JArr xs) \<Rightarrow> xs | _ \<Rightarrow> [])"

definition document_timers :: "json \<Rightarrow> json list" where
  "document_timers d = (case jget ''timers'' d of Some (JArr xs) \<Rightarrow> xs | _ \<Rightarrow> [])"

definition orderly_document :: "json \<Rightarrow> bool" where
  "orderly_document d \<longleftrightarrow>
     distinct (map (jb_id \<circ> job_from_json) (document_jobs d)) \<and>
     distinct (map (ti_id \<circ> timer_from_json) (document_timers d)) \<and>
     sorted (map (ti_due_ms \<circ> timer_from_json) (document_timers d))"

fun orderly :: "sched_op \<Rightarrow> bool" where
  "orderly (LoadFile (Some d) now) \<longleftrightarrow> orderly_document d"
| "orderly _ \<longleftrightarrow> True"

lemma reschedule_missing_ids: "map jb_id (fst (reschedule_missing now js)) = map jb_id js"
  by (induction js) (auto split: prod.splits outcome.splits simp: frame_simps)

lemma distinct_map_takeWhile: "distinct (map f xs) \<Longrightarrow> distinct (map f (takeWhile P xs))"
  by (metis distinct_take map_append takeWhile_eq_take take_map)

lemma sorted_map_takeWhile: "sorted (map f xs) \<Longrightarrow> sorted (map f (takeWhile P xs))"
  by (metis sorted_wrt_take takeWhile_eq_take take_map)

lemma load_document_wf:
  assumes "orderly_document d"
  shows "sched_wf (fst (load_document now d s))"
proof -
  let ?js = "map job_from_json (takeWhile job_typed (document_jobs d))"
  let ?ts = "map timer_from_json (takeWhile timer_typed (document_timers d))"
  have "distinct (map jb_id ?js)" "distinct (map ti_id ?ts)" "sorted (map ti_due_ms ?ts)"
    using assms unfolding orderly_document_def map_map
    by (blast intro: distinct_map_takeWhile sorted_map_takeWhile)+
  then show ?thesis
    using reschedule_missing_ids [of now ?js]
    by (auto simp: load_document_def document_jobs_def [symmetric] document_timers_def [symmetric] sched_wf_def Let_def split: prod.splits)
qed

lemma sched_apply_wf: "sched_wf s \<Longrightarrow> orderly op \<Longrightarrow> sched_wf (sched_apply op s)"
proof (cases op)
  case (LoadFile d now)
  then show "sched_wf s \<Longrightarrow> orderly op \<Longrightarrow> sched_wf (sched_apply op s)"
    by (cases d) (simp_all add: load_from_file_def load_document_wf)
qed (simp_all add: sched_wf_intros)

lemma sched_run_wf: "sched_wf s \<Longrightarrow> list_all orderly ops \<Longrightarrow> sched_wf (fold sched_apply ops s)"
  by (induction ops arbitrary: s) (simp_all add: sched_apply_wf)

definition sample_timer :: timer where
  "sample_timer = \<lparr>ti_id = ''t1'', ti_session_id = ''s1'', ti_due_ms = 2000, ti_resume_node = ''n'',
     ti_reason = ''timer'', ti_checkpoint_key = []\<rparr>"

definition sample_job :: job where
  "sample_job = \<lparr>jb_id = ''j1'', jb_schedule = ''@hourly'', jb_timezone = [], jb_workflow = ''wf'', jb_node_id = [],
     jb_entry_node = [], jb_input = JObj [], jb_enabled = True, jb_catch_up = False, jb_max_catch_up = 5,
     jb_next_fire_ms = 3600000, jb_last_fire_ms = 0, jb_fire_count = 0\<rparr>"

text \<open>
  C21: Whatever sequence of operations runs on a scheduler that starts empty (jobs added, removed, enabled,
  timers added, cancelled, ticks, files loaded), no two jobs and no two timers share an identifier and the
  timers stay sorted by their due instant, as long as every file that is loaded has these properties itself:
  loading does not check them.
\<close>

theorem scheduler_invariant:
  assumes "list_all orderly ops"
  shows "sched_wf (fold sched_apply ops empty_sched)"
  by (rule sched_run_wf [OF _ assms]) (simp add: sched_wf_def empty_sched_def)

theorem scheduler_invariant_witness:
  "sched_wf (fold sched_apply
     [LoadFile (Some (sched_to_json \<lparr>sc_jobs = [sample_job], sc_timers = [sample_timer]\<rparr>)) 5,
      AddTimer [] (sample_timer\<lparr>ti_due_ms := 1000\<rparr>), TickUntil 1500] empty_sched)"
  by (rule scheduler_invariant)
     (simp add: orderly_document_def document_jobs_def document_timers_def sched_to_json_def jget_jobj)

text \<open>
  Loading does break it: a file with one timer twice is loaded as it is, and an unsorted one stays unsorted.
\<close>

theorem loading_trusts_the_file:
  "load_document now (sched_to_json \<lparr>sc_jobs = [], sc_timers = ts\<rparr>) old = (\<lparr>sc_jobs = [], sc_timers = ts\<rparr>, Returns True)"
  using loaded_timers [of ts] by (simp add: load_document_def sched_to_json_def jget_jobj Let_def)

text \<open>
  A tick leaves nothing due behind: after \<open>tickUntil(now)\<close> every instant still pending, of an enabled job
  or of a timer, lies after \<open>now\<close>, so what the tick has reported is not reported again by a tick at the
  same time.
\<close>

theorem tick_leaves_nothing_due:
  assumes "tick_until now s = (s', Returns due)"
    and "list_all (\<lambda>j. 0 \<le> now + offset_for (jb_timezone j) * 1000) (sc_jobs s)"
  shows "list_all (\<lambda>x. now < x) (pending_instants s')"
  using tick_pending_later [OF assms(1)] assms(2) by (auto simp: list_all_iff)

theorem tick_leaves_nothing_due_witness:
  "list_all (\<lambda>x. 2500 < x) (pending_instants \<lparr>sc_jobs = [sample_job], sc_timers = [sample_timer\<lparr>ti_due_ms := 3000\<rparr>]\<rparr>)"
  by (rule tick_leaves_nothing_due
        [of 2500 "\<lparr>sc_jobs = [sample_job], sc_timers = [sample_timer, sample_timer\<lparr>ti_due_ms := 3000\<rparr>]\<rparr>" _ "([], [sample_timer])"])
     (simp_all add: tick_until_def job_due_def sample_job_def sample_timer_def offset_for_def)

text \<open>
  \<open>nextWakeMs\<close> is the earliest instant anything is pending, when all of them are positive, and zero when
  nothing is pending.
\<close>

theorem next_wake_is_earliest:
  assumes "list_all (\<lambda>x. 0 < x) (pending_instants s)"
  shows "next_wake_ms s = (if pending_instants s = [] then 0 else Min (set (pending_instants s)))"
proof (cases "pending_instants s = []")
  case True
  with next_wake_least [of s] show ?thesis by simp
next
  case False
  with next_wake_least [of s] assms
  have "next_wake_ms s \<in> set (pending_instants s)" and "\<forall>x \<in> set (pending_instants s). next_wake_ms s \<le> x"
    by (auto simp: list_all_iff)
  with False show ?thesis by (auto intro!: Min_eqI [symmetric])
qed

theorem next_wake_is_earliest_witness:
  "next_wake_ms \<lparr>sc_jobs = [sample_job], sc_timers = [sample_timer]\<rparr> =
     Min (set (pending_instants \<lparr>sc_jobs = [sample_job], sc_timers = [sample_timer]\<rparr>))"
  using next_wake_is_earliest [of "\<lparr>sc_jobs = [sample_job], sc_timers = [sample_timer]\<rparr>"]
  by (simp add: pending_instants_def sample_job_def sample_timer_def)

text \<open>
  The firings a tick catches up on, for any schedule that parses as a cron expression: at most the limit,
  none after the tick, and consecutive, so no matching minute between the first and the last of them is
  left out.
\<close>

theorem catch_up_consecutive:
  assumes "parse_cron (jb_schedule j) = Returns (Inr c)" and "cx_kind c = Cron"
    and "0 \<le> jb_next_fire_ms j + offset * 1000" and "jb_next_fire_ms j \<le> now"
  shows "consecutive c offset (fire_times c offset now (catch_up_limit j) (jb_next_fire_ms j)) \<and>
         length (fire_times c offset now (catch_up_limit j) (jb_next_fire_ms j)) \<le> catch_up_limit j \<and>
         list_all (\<lambda>x. x \<le> now) (fire_times c offset now (catch_up_limit j) (jb_next_fire_ms j))"
  using fire_times_consecutive [OF parse_cron_wf [OF assms(1)] assms(2,3)] fire_times_length fire_times_bound [OF assms(4)]
  by (auto simp: list_all_iff)

theorem catch_up_consecutive_witness:
  "consecutive hourly 0 (fire_times hourly 0 7200000 (catch_up_limit sample_job) 3600000)"
  using catch_up_consecutive [of sample_job hourly 0 7200000] parse_hourly by (simp add: sample_job_def)

text \<open>
  Saving and loading: the document \<open>toJson\<close> writes is read back by \<open>loadFromFile\<close> as the same jobs and
  timers in the same order, for jobs whose catch-up bound is a 32-bit integer and that are disabled or have
  a firing time.
\<close>

theorem scheduler_document_round_trip:
  assumes "list_all (\<lambda>j. - 2147483648 \<le> jb_max_catch_up j \<and> jb_max_catch_up j < 2147483648) (sc_jobs s)"
    and "list_all (\<lambda>j. \<not> (jb_enabled j \<and> jb_next_fire_ms j \<le> 0)) (sc_jobs s)"
  shows "load_document now (sched_to_json s) old = (s, Returns True)"
  using loaded_jobs [OF assms(1)] loaded_timers [of "sc_timers s"] reschedule_missing_none [OF assms(2), of now]
  by (simp add: load_document_def sched_to_json_def jget_jobj Let_def)

theorem scheduler_document_round_trip_witness:
  "load_document 5 (sched_to_json \<lparr>sc_jobs = [sample_job], sc_timers = [sample_timer]\<rparr>) empty_sched =
     (\<lparr>sc_jobs = [sample_job], sc_timers = [sample_timer]\<rparr>, Returns True)"
  by (rule scheduler_document_round_trip) (simp_all add: sample_job_def)

text \<open>What a sequence of ticks returns, tick by tick.\<close>

fun tick_run :: "int list \<Rightarrow> sched \<Rightarrow> ((job \<times> int) list \<times> timer list) outcome list" where
  "tick_run [] s = []"
| "tick_run (now # r) s = snd (tick_until now s) # tick_run r (fst (tick_until now s))"

definition timers_of :: "((job \<times> int) list \<times> timer list) outcome \<Rightarrow> timer list option" where
  "timers_of r = (case r of Throws \<Rightarrow> None | Returns p \<Rightarrow> Some (snd p))"

lemma timers_of_simps [simp]:
  "timers_of Throws = None" "timers_of (Returns p) = Some (snd p)" "timers_of r = None \<longleftrightarrow> r = Throws"
  by (cases r; simp add: timers_of_def)+

lemma tick_run_length [simp]: "length (tick_run ns s) = length ns"
  by (induction ns arbitrary: s) auto

lemma tick_run_ticks: "wakeups.ticks ns s = map timers_of (tick_run ns s)"
  by (induction ns arbitrary: s)
     (auto simp: tick_timers_def timers_of_def split: prod.splits outcome.splits)

text \<open>
  C20: A timer that is added is delivered exactly once: of any sequence of ticks, the first one at or after its due
  instant that does not throw delivers it once, and no other tick delivers it, whatever was pending before.
\<close>

theorem timer_delivered_once:
  assumes "ti_id t \<noteq> []" and "i < length ns" and "tick_run ns (fst (add_timer fresh t s)) = rs"
    and "rs ! i = Returns (due_jobs, due_timers)"
  shows "count (mset due_timers) t =
           (if ti_due_ms t \<le> ns ! i \<and> list_all (\<lambda>k. rs ! k = Throws \<or> ns ! k < ti_due_ms t) [0..<i] then 1 else 0)"
proof -
  have "fst (add_timer fresh t s) = fst (add_timer [] t s)" using assms(1) by (simp add: add_timer_def)
  with assms have "wakeups.ticks ns (fst (add_timer [] t s)) = map timers_of rs" "length rs = length ns"
    by (auto simp: tick_run_ticks)
  with wakeups.armed_count [OF assms(1,2), of s due_timers] assms(2,4) show ?thesis by (simp add: list_all_iff)
qed

theorem timer_delivered_once_witness:
  "count (mset [sample_timer]) sample_timer = 1 \<and>
   tick_run [1000, 2500] (fst (add_timer [] sample_timer empty_sched)) = [Returns ([], []), Returns ([], [sample_timer])]"
proof -
  have r: "tick_run [1000, 2500] (fst (add_timer [] sample_timer empty_sched)) = [Returns ([], []), Returns ([], [sample_timer])]"
    by (simp add: tick_until_def add_timer_def empty_sched_def sample_timer_def)
  with timer_delivered_once [of sample_timer 1 "[1000, 2500]" "[]" empty_sched _ "[]" "[sample_timer]"] show ?thesis
    by (simp add: sample_timer_def)
qed

end
