(* ===== verification/Sapo_StateStore.thy ===== *)
theory Sapo_StateStore
  imports Sapo_Scheduler
begin

text \<open>
  \<open>runtime/StateStore.hpp\<close> and \<open>runtime/StateStore.cpp\<close>: session checkpoints, their documents, and
  the two stores of the engine itself.  \<open>InMemoryStateStore\<close> is an association list from session
  identifiers to checkpoints, \<open>FileStateStore\<close> a directory (file names and their texts); the text of a
  document is the document library's (\<open>dump\<close>, \<open>parse\<close>), and the file system's answer to a write is an
  argument.  \<open>list()\<close> sorts by identifier.

  The locale \<open>cas_store\<close> states what a compare-and-swap store promises; under it, of any number of
  writers that start from the same version exactly one succeeds, and versions only grow.  The memory
  store and the Redis store (in its own theory) are shown to keep the promise; the file store keeps it up to
  the file name, which distinct identifiers can share.
\<close>

section \<open>Checkpoints\<close>

datatype session_status = Running | AwaitingInput | Waiting | Completed | Failed | Cancelled

fun status_index :: "session_status \<Rightarrow> nat" where
  "status_index Running = 0" | "status_index AwaitingInput = 1" | "status_index Waiting = 2"
| "status_index Completed = 3" | "status_index Failed = 4" | "status_index Cancelled = 5"

definition status_names :: "string list" where
  "status_names = [''running'', ''awaiting_input'', ''waiting'', ''completed'', ''failed'', ''cancelled'']"

definition all_statuses :: "session_status list" where
  "all_statuses = [Running, AwaitingInput, Waiting, Completed, Failed, Cancelled]"

definition status_string :: "session_status \<Rightarrow> string" where
  "status_string s = status_names ! status_index s"

definition status_from_string :: "string \<Rightarrow> session_status option" where
  "status_from_string t =
     (case index_of status_names t of
        Some i \<Rightarrow> Some (all_statuses ! i)
      | None \<Rightarrow> if t = ''suspended'' then Some AwaitingInput else if t = ''pending'' then Some Running else None)"

lemma status_round_trip [simp]: "status_from_string (status_string s) = Some s"
  by (cases s) (simp_all add: status_from_string_def status_string_def status_names_def all_statuses_def)

record checkpoint =
  ck_session_id :: string
  ck_execution_id :: string
  ck_blueprint_id :: string
  ck_blueprint_version :: string
  ck_correlation_id :: string
  ck_status :: session_status
  ck_cursor :: string
  ck_context :: json
  ck_frames :: json
  ck_pending :: json
  ck_timers :: "timer list"
  ck_result :: json
  ck_error :: string
  ck_parent_session :: string
  ck_depth :: nat
  ck_child_sessions :: "string list"
  ck_created_ms :: int
  ck_updated_ms :: int
  ck_node_visits :: nat
  ck_version :: int

definition new_checkpoint :: checkpoint where
  "new_checkpoint =
     \<lparr>ck_session_id = [], ck_execution_id = [], ck_blueprint_id = [], ck_blueprint_version = [],
      ck_correlation_id = [], ck_status = Running, ck_cursor = [], ck_context = JObj [], ck_frames = JArr [],
      ck_pending = JObj [], ck_timers = [], ck_result = JObj [], ck_error = [], ck_parent_session = [],
      ck_depth = 0, ck_child_sessions = [], ck_created_ms = 0, ck_updated_ms = 0, ck_node_visits = 0,
      ck_version = 0\<rparr>"

definition checkpoint_to_json :: "checkpoint \<Rightarrow> json" where
  "checkpoint_to_json c = jobj
     [(''session_id'', JStr (ck_session_id c)), (''execution_id'', JStr (ck_execution_id c)),
      (''blueprint_id'', JStr (ck_blueprint_id c)), (''blueprint_version'', JStr (ck_blueprint_version c)),
      (''correlation_id'', JStr (ck_correlation_id c)), (''status'', JStr (status_string (ck_status c))),
      (''cursor'', JStr (ck_cursor c)), (''context'', ck_context c), (''frames'', ck_frames c),
      (''pending'', ck_pending c), (''timers'', JArr (map timer_to_json (ck_timers c))),
      (''result'', ck_result c), (''error'', JStr (ck_error c)),
      (''parent_session'', JStr (ck_parent_session c)), (''depth'', JInt (int (ck_depth c))),
      (''child_sessions'', JArr (map JStr (ck_child_sessions c))), (''created_ms'', JInt (ck_created_ms c)),
      (''updated_ms'', JInt (ck_updated_ms c)), (''node_visits'', JInt (int (ck_node_visits c))),
      (''version'', JInt (ck_version c))]"

text \<open>\<open>fromJson\<close>.  The typed getters throw on a member of another type (and on a document that is not an
  object): \<open>None\<close>.\<close>

definition checkpoint_typed :: "json \<Rightarrow> bool" where
  "checkpoint_typed d \<longleftrightarrow> is_object d \<and>
     list_all (text_member d) [''session_id'', ''execution_id'', ''blueprint_id'', ''blueprint_version'',
       ''correlation_id'', ''status'', ''cursor'', ''error'', ''parent_session''] \<and>
     list_all (number_member d) [''depth'', ''created_ms'', ''updated_ms'', ''node_visits'', ''version''] \<and>
     (case jget ''timers'' d of Some (JArr ts) \<Rightarrow> list_all timer_typed ts | _ \<Rightarrow> True)"

fun string_items :: "json list \<Rightarrow> string list" where
  "string_items [] = []"
| "string_items (x # xs) = (case x of JStr s \<Rightarrow> s # string_items xs | _ \<Rightarrow> string_items xs)"

definition checkpoint_from_json :: "json \<Rightarrow> checkpoint option" where
  "checkpoint_from_json d =
     (if \<not> checkpoint_typed d then None
      else Some
        \<lparr>ck_session_id = jvalue_str ''session_id'' [] d, ck_execution_id = jvalue_str ''execution_id'' [] d,
         ck_blueprint_id = jvalue_str ''blueprint_id'' [] d,
         ck_blueprint_version = jvalue_str ''blueprint_version'' [] d,
         ck_correlation_id = jvalue_str ''correlation_id'' [] d,
         ck_status = (case status_from_string (jvalue_str ''status'' ''running'' d) of
                        Some s \<Rightarrow> s | None \<Rightarrow> Running),
         ck_cursor = jvalue_str ''cursor'' [] d, ck_context = jvalue ''context'' (JObj []) d,
         ck_frames = jvalue ''frames'' (JArr []) d, ck_pending = jvalue ''pending'' (JObj []) d,
         ck_timers = (case jget ''timers'' d of Some (JArr ts) \<Rightarrow> map timer_from_json ts | _ \<Rightarrow> []),
         ck_result = jvalue ''result'' (JObj []) d, ck_error = jvalue_str ''error'' [] d,
         ck_parent_session = jvalue_str ''parent_session'' [] d, ck_depth = nat (jvalue_int ''depth'' 0 d),
         ck_child_sessions = (case jget ''child_sessions'' d of Some (JArr cs) \<Rightarrow> string_items cs | _ \<Rightarrow> []),
         ck_created_ms = jvalue_int ''created_ms'' 0 d, ck_updated_ms = jvalue_int ''updated_ms'' 0 d,
         ck_node_visits = nat (jvalue_int ''node_visits'' 0 d), ck_version = jvalue_int ''version'' 0 d\<rparr>)"

lemma string_items_map [simp]: "string_items (map JStr xs) = xs"
  by (induction xs) auto

lemma checkpoint_typed_to_json: "checkpoint_typed (checkpoint_to_json c)"
  by (simp add: checkpoint_typed_def checkpoint_to_json_def text_member_def number_member_def jget_jobj list_all_iff)

lemma checkpoint_from_to_json: "checkpoint_from_json (checkpoint_to_json c) = Some c"
proof -
  have "checkpoint_typed (checkpoint_to_json c)" by (rule checkpoint_typed_to_json)
  then show ?thesis
    by (simp add: checkpoint_from_json_def)
       (simp add: checkpoint_to_json_def jvalue_defs jget_jobj comp_def timer_round_trip)
qed

section \<open>Outcomes of a conditional save\<close>

datatype save_result = SaveOk | VersionConflict | Gone

fun save_result_string :: "save_result \<Rightarrow> string" where
  "save_result_string SaveOk = ''ok''"
| "save_result_string VersionConflict = ''version_conflict''"
| "save_result_string Gone = ''gone''"

record save_outcome =
  so_result :: save_result
  so_version :: int

definition so_ok :: "save_outcome \<Rightarrow> bool" where
  "so_ok r \<longleftrightarrow> so_result r = SaveOk"

section \<open>The store in memory\<close>

type_synonym memory_store = "(string \<times> checkpoint) list"

definition mem_load :: "string \<Rightarrow> memory_store \<Rightarrow> checkpoint option" where
  "mem_load i s = map_of s i"

definition mem_save :: "checkpoint \<Rightarrow> memory_store \<Rightarrow> memory_store" where
  "mem_save c s =
     (let previous = (case map_of s (ck_session_id c) of Some old \<Rightarrow> ck_version old | None \<Rightarrow> 0)
      in AList.update (ck_session_id c) (c\<lparr>ck_version := previous + 1\<rparr>) s)"

definition mem_save_if :: "checkpoint \<Rightarrow> int \<Rightarrow> memory_store \<Rightarrow> memory_store \<times> save_outcome" where
  "mem_save_if c expected s =
     (let found = map_of s (ck_session_id c);
          current = (case found of Some old \<Rightarrow> ck_version old | None \<Rightarrow> 0)
      in if current \<noteq> expected then
           (s, \<lparr>so_result = (if found \<noteq> None then VersionConflict else Gone), so_version = current\<rparr>)
         else (AList.update (ck_session_id c) (c\<lparr>ck_version := expected + 1\<rparr>) s,
               \<lparr>so_result = SaveOk, so_version = expected + 1\<rparr>))"

definition mem_remove :: "string \<Rightarrow> memory_store \<Rightarrow> memory_store \<times> bool" where
  "mem_remove i s = (AList.delete i s, map_of s i \<noteq> None)"

definition mem_list :: "memory_store \<Rightarrow> checkpoint list" where
  "mem_list s = sort_key ck_session_id (map snd s)"

definition mem_count :: "session_status option \<Rightarrow> memory_store \<Rightarrow> nat" where
  "mem_count st s =
     (case st of None \<Rightarrow> length s | Some x \<Rightarrow> length (filter (\<lambda>(i, c). ck_status c = x) s))"

section \<open>The store in a directory\<close>

type_synonym directory = "(string \<times> string) list"

text \<open>How the file system answers a write: the temporary file does not open, the rename fails, or it works.\<close>

datatype fs_answer = Written | OpenFails | RenameFails

definition safe_char :: "char \<Rightarrow> bool" where
  "safe_char c \<longleftrightarrow> is_alnum c \<or> c = CHR ''-'' \<or> c = CHR ''_''"

definition path_for :: "string \<Rightarrow> string" where
  "path_for sid =
     (let safe = map (\<lambda>c. if safe_char c then c else CHR ''_'') sid
      in (if safe = [] then ''session'' else safe) @ ''.json'')"

definition read_checkpoint_at :: "(string \<Rightarrow> json option) \<Rightarrow> string \<Rightarrow> directory \<Rightarrow> checkpoint option" where
  "read_checkpoint_at parse path dir =
     (case map_of dir path of
        None \<Rightarrow> None
      | Some body \<Rightarrow> (case parse body of None \<Rightarrow> None | Some d \<Rightarrow> checkpoint_from_json d))"

definition write_checkpoint ::
  "(json \<Rightarrow> string) \<Rightarrow> fs_answer \<Rightarrow> string \<Rightarrow> checkpoint \<Rightarrow> directory \<Rightarrow> directory \<times> sapo_error option" where
  "write_checkpoint dump answer path c dir =
     (case answer of
        OpenFails \<Rightarrow>
          (dir, Some (sapo_error Store (''could not open '' @ quoted (path @ ''.tmp'') @ '' for writing'') JNull []))
      | RenameFails \<Rightarrow>
          (AList.delete (path @ ''.tmp'') dir,
           Some (sapo_error Store (''could not persist session '' @ quoted (ck_session_id c) @ '' to '' @ path) JNull []))
      | Written \<Rightarrow>
          (AList.update path (dump (checkpoint_to_json c)) (AList.delete (path @ ''.tmp'') dir), None))"

definition file_version :: "(string \<Rightarrow> json option) \<Rightarrow> string \<Rightarrow> directory \<Rightarrow> int" where
  "file_version parse path dir =
     (case read_checkpoint_at parse path dir of Some c \<Rightarrow> ck_version c | None \<Rightarrow> 0)"

definition file_save ::
  "(json \<Rightarrow> string) \<Rightarrow> (string \<Rightarrow> json option) \<Rightarrow> fs_answer \<Rightarrow> checkpoint \<Rightarrow> directory
   \<Rightarrow> directory \<times> sapo_error option" where
  "file_save dump parse answer c dir =
     (let path = path_for (ck_session_id c)
      in write_checkpoint dump answer path (c\<lparr>ck_version := file_version parse path dir + 1\<rparr>) dir)"

definition file_save_if ::
  "(json \<Rightarrow> string) \<Rightarrow> (string \<Rightarrow> json option) \<Rightarrow> fs_answer \<Rightarrow> checkpoint \<Rightarrow> int \<Rightarrow> directory
   \<Rightarrow> directory \<times> save_outcome res" where
  "file_save_if dump parse answer c expected dir =
     (let path = path_for (ck_session_id c); current = file_version parse path dir
      in if current \<noteq> expected then
           (dir, Inr \<lparr>so_result = (if read_checkpoint_at parse path dir \<noteq> None then VersionConflict else Gone),
                      so_version = current\<rparr>)
         else (case write_checkpoint dump answer path (c\<lparr>ck_version := expected + 1\<rparr>) dir of
                 (dir', Some e) \<Rightarrow> (dir', Inl e)
               | (dir', None) \<Rightarrow> (dir', Inr \<lparr>so_result = SaveOk, so_version = expected + 1\<rparr>)))"

definition file_load :: "(string \<Rightarrow> json option) \<Rightarrow> string \<Rightarrow> directory \<Rightarrow> checkpoint option" where
  "file_load parse sid dir = read_checkpoint_at parse (path_for sid) dir"

definition file_remove :: "string \<Rightarrow> directory \<Rightarrow> directory \<times> bool" where
  "file_remove sid dir = (AList.delete (path_for sid) dir, map_of dir (path_for sid) \<noteq> None)"

definition has_json_suffix :: "string \<Rightarrow> bool" where
  "has_json_suffix p \<longleftrightarrow> 5 < length p \<and> drop (length p - 5) p = ''.json''"

definition file_list :: "(string \<Rightarrow> json option) \<Rightarrow> directory \<Rightarrow> checkpoint list" where
  "file_list parse dir =
     sort_key ck_session_id
       (List.map_filter (\<lambda>p. read_checkpoint_at parse p dir) (filter has_json_suffix (map fst dir)))"

definition file_count :: "(string \<Rightarrow> json option) \<Rightarrow> session_status option \<Rightarrow> directory \<Rightarrow> nat" where
  "file_count parse st dir =
     (case st of None \<Rightarrow> length (file_list parse dir)
      | Some x \<Rightarrow> length (filter (\<lambda>c. ck_status c = x) (file_list parse dir)))"

section \<open>The compare-and-swap contract\<close>

text \<open>\<open>ok\<close>: the states the store works in; \<open>fits\<close>: the checkpoints it takes; \<open>room\<close>: the versions it can count
  on from.\<close>

locale cas_store =
  fixes load :: "string \<Rightarrow> 's \<Rightarrow> checkpoint option"
    and save :: "checkpoint \<Rightarrow> 's \<Rightarrow> 's"
    and save_if :: "checkpoint \<Rightarrow> int \<Rightarrow> 's \<Rightarrow> 's \<times> save_outcome"
    and ok :: "'s \<Rightarrow> bool"
    and fits :: "checkpoint \<Rightarrow> bool"
    and room :: "int \<Rightarrow> bool"
  assumes ok_save: "ok s \<Longrightarrow> fits c \<Longrightarrow>
        (case load (ck_session_id c) s of Some o' \<Rightarrow> ck_version o' | None \<Rightarrow> 0) = v \<Longrightarrow> room v \<Longrightarrow> ok (save c s)"
    and ok_save_if: "ok s \<Longrightarrow> fits c \<Longrightarrow> room e \<Longrightarrow> ok (fst (save_if c e s))"
    and load_save: "ok s \<Longrightarrow> fits c \<Longrightarrow>
        (case load (ck_session_id c) s of Some o' \<Rightarrow> ck_version o' | None \<Rightarrow> 0) = v \<Longrightarrow> room v \<Longrightarrow>
        load (ck_session_id c) (save c s) = Some (c\<lparr>ck_version := v + 1\<rparr>)"
    and load_save_other: "ok s \<Longrightarrow> fits c \<Longrightarrow>
        (case load (ck_session_id c) s of Some o' \<Rightarrow> ck_version o' | None \<Rightarrow> 0) = v \<Longrightarrow> room v \<Longrightarrow>
        i \<noteq> ck_session_id c \<Longrightarrow> load i (save c s) = load i s"
    and save_if_win: "ok s \<Longrightarrow> fits c \<Longrightarrow> room e \<Longrightarrow>
        (case load (ck_session_id c) s of Some o' \<Rightarrow> ck_version o' | None \<Rightarrow> 0) = e \<Longrightarrow>
        load (ck_session_id c) (fst (save_if c e s)) = Some (c\<lparr>ck_version := e + 1\<rparr>) \<and>
        snd (save_if c e s) = \<lparr>so_result = SaveOk, so_version = e + 1\<rparr>"
    and save_if_lose: "ok s \<Longrightarrow> fits c \<Longrightarrow> room e \<Longrightarrow>
        (case load (ck_session_id c) s of Some o' \<Rightarrow> ck_version o' | None \<Rightarrow> 0) \<noteq> e \<Longrightarrow>
        load i (fst (save_if c e s)) = load i s \<and> \<not> so_ok (snd (save_if c e s)) \<and>
        so_version (snd (save_if c e s)) = (case load (ck_session_id c) s of Some o' \<Rightarrow> ck_version o' | None \<Rightarrow> 0)"
    and save_if_other: "ok s \<Longrightarrow> fits c \<Longrightarrow> room e \<Longrightarrow> i \<noteq> ck_session_id c \<Longrightarrow> load i (fst (save_if c e s)) = load i s"
begin

definition version_of :: "string \<Rightarrow> 's \<Rightarrow> int" where
  "version_of i s = (case load i s of Some c \<Rightarrow> ck_version c | None \<Rightarrow> 0)"

lemma version_save:
  "ok s \<Longrightarrow> fits c \<Longrightarrow> room (version_of (ck_session_id c) s) \<Longrightarrow>
   version_of i (save c s) = version_of i s + (if i = ck_session_id c then 1 else 0)"
  using load_save [of s c "version_of (ck_session_id c) s"] load_save_other [of s c "version_of (ck_session_id c) s" i]
  by (auto simp: version_of_def)

lemma save_if_ok:
  "ok s \<Longrightarrow> fits c \<Longrightarrow> room e \<Longrightarrow> so_ok (snd (save_if c e s)) \<longleftrightarrow> version_of (ck_session_id c) s = e"
  using save_if_win [of s c e] save_if_lose [of s c e] by (auto simp: version_of_def so_ok_def)

text \<open>Writers that race from one version: the outcomes in the order the store serialises them.\<close>

fun race :: "checkpoint list \<Rightarrow> int \<Rightarrow> 's \<Rightarrow> 's \<times> save_outcome list" where
  "race [] e s = (s, [])"
| "race (c # cs) e s =
     (case save_if c e s of (s', r) \<Rightarrow> (case race cs e s' of (s'', rs) \<Rightarrow> (s'', r # rs)))"

lemma race_losers:
  "\<forall>c \<in> set cs. ck_session_id c = i \<and> fits c \<Longrightarrow> ok s \<Longrightarrow> room e \<Longrightarrow> version_of i s \<noteq> e \<Longrightarrow>
   load j (fst (race cs e s)) = load j s \<and> (\<forall>r \<in> set (snd (race cs e s)). \<not> so_ok r)"
proof (induction cs arbitrary: s)
  case (Cons c cs)
  let ?s = "fst (save_if c e s)"
  from Cons.prems have c: "ck_session_id c = i" "fits c" by simp_all
  have same: "load k ?s = load k s" for k
    using save_if_lose [OF Cons.prems(2) c(2) Cons.prems(3), of k] Cons.prems(4) c by (simp add: version_of_def)
  have "version_of i ?s \<noteq> e" using Cons.prems(4) by (simp add: version_of_def same)
  from Cons.IH [OF _ ok_save_if [OF Cons.prems(2) c(2) Cons.prems(3)] Cons.prems(3) this] Cons.prems(1)
    save_if_ok [OF Cons.prems(2) c(2) Cons.prems(3)] Cons.prems(4) c
  show ?case by (auto simp: split_beta same)
qed simp

lemma race_one_winner:
  assumes "\<forall>c \<in> set cs. ck_session_id c = i \<and> fits c" and "cs \<noteq> []" and "ok s" and "room e" and "version_of i s = e"
  shows "length (filter so_ok (snd (race cs e s))) = 1 \<and>
    load i (fst (race cs e s)) = Some ((hd cs)\<lparr>ck_version := e + 1\<rparr>)"
proof (cases cs)
  case (Cons c r)
  let ?s = "fst (save_if c e s)"
  from assms(1) Cons have c: "ck_session_id c = i" "fits c" by simp_all
  have win: "load i ?s = Some (c\<lparr>ck_version := e + 1\<rparr>)"
    using save_if_win [OF assms(3) c(2) assms(4)] assms(5) c by (simp add: version_of_def)
  then have "version_of i ?s \<noteq> e" by (simp add: version_of_def)
  from race_losers [OF _ ok_save_if [OF assms(3) c(2) assms(4)] assms(4) this, of r i] assms(1) Cons
  have r: "load i (fst (race r e ?s)) = load i ?s" "\<forall>x \<in> set (snd (race r e ?s)). \<not> so_ok x" by simp_all
  from r win Cons save_if_ok [OF assms(3) c(2) assms(4)] assms(5) c show ?thesis
    by (simp add: split_beta filter_empty_conv)
qed (use assms in simp)

end

interpretation memory: cas_store mem_load mem_save mem_save_if "\<lambda>s. True" "\<lambda>c. True" "\<lambda>v. True"
  by unfold_locales (auto simp: mem_load_def mem_save_def mem_save_if_def Let_def so_ok_def split: option.splits)

section \<open>The directory keeps the contract up to the file name\<close>

lemma path_for_not_tmp: "path_for sid \<noteq> path @ ''.tmp''"
proof
  assume "path_for sid = path @ ''.tmp''"
  then have "last (path_for sid) = last (path @ ''.tmp'')" by simp
  then show False by (simp add: path_for_def Let_def split: if_splits)
qed

lemma write_checkpoint_read:
  assumes "parse (dump (checkpoint_to_json c)) = Some (checkpoint_to_json c)"
  shows "read_checkpoint_at parse path (fst (write_checkpoint dump Written path c dir)) = Some c"
  using assms by (simp add: read_checkpoint_at_def write_checkpoint_def checkpoint_from_to_json)

lemma write_checkpoint_other:
  "path' \<noteq> path \<Longrightarrow> path' \<noteq> path @ ''.tmp'' \<Longrightarrow>
   read_checkpoint_at parse path' (fst (write_checkpoint dump answer path c dir)) = read_checkpoint_at parse path' dir"
  by (cases answer) (simp_all add: read_checkpoint_at_def write_checkpoint_def)

lemma write_checkpoint_failed:
  "answer \<noteq> Written \<Longrightarrow> path' \<noteq> path @ ''.tmp'' \<Longrightarrow>
   read_checkpoint_at parse path' (fst (write_checkpoint dump answer path c dir)) = read_checkpoint_at parse path' dir"
  by (cases answer) (simp_all add: read_checkpoint_at_def write_checkpoint_def)

lemma write_checkpoint_error: "snd (write_checkpoint dump answer path c dir) = None \<longleftrightarrow> answer = Written"
  by (cases answer) (simp_all add: write_checkpoint_def)

lemma file_save_if_win:
  assumes "parse (dump (checkpoint_to_json (c\<lparr>ck_version := e + 1\<rparr>))) =
      Some (checkpoint_to_json (c\<lparr>ck_version := e + 1\<rparr>))" and "file_version parse (path_for (ck_session_id c)) dir = e"
  shows "file_load parse (ck_session_id c) (fst (file_save_if dump parse Written c e dir)) = Some (c\<lparr>ck_version := e + 1\<rparr>)
    \<and> snd (file_save_if dump parse Written c e dir) = Inr \<lparr>so_result = SaveOk, so_version = e + 1\<rparr>"
proof -
  let ?w = "write_checkpoint dump Written (path_for (ck_session_id c)) (c\<lparr>ck_version := e + 1\<rparr>) dir"
  obtain dir' where w: "?w = (dir', None)"
    using write_checkpoint_error [of dump Written "path_for (ck_session_id c)" "c\<lparr>ck_version := e + 1\<rparr>" dir]
    by (cases ?w) simp
  have "read_checkpoint_at parse (path_for (ck_session_id c)) (fst ?w) = Some (c\<lparr>ck_version := e + 1\<rparr>)"
    by (rule write_checkpoint_read) (rule assms(1))
  with w assms(2) show ?thesis by (simp add: file_save_if_def file_load_def Let_def)
qed

lemma file_save_if_lose:
  assumes "file_version parse (path_for (ck_session_id c)) dir \<noteq> e"
  shows "fst (file_save_if dump parse answer c e dir) = dir"
    and "\<exists>r. snd (file_save_if dump parse answer c e dir) = Inr r \<and> \<not> so_ok r"
  using assms by (auto simp: file_save_if_def Let_def so_ok_def)

section \<open>Properties\<close>

text \<open>
  A checkpoint survives its document: \<open>fromJson\<close> reads back exactly what \<open>toJson\<close> wrote, for every
  checkpoint, its timers, frames, children and version included.
\<close>

theorem checkpoint_document_round_trip: "checkpoint_from_json (checkpoint_to_json c) = Some c"
  by (rule checkpoint_from_to_json)

text \<open>The writers of one session in the order the store's lock serialises their conditional saves.\<close>

fun mem_race :: "checkpoint list \<Rightarrow> int \<Rightarrow> memory_store \<Rightarrow> memory_store \<times> save_outcome list" where
  "mem_race [] e s = (s, [])"
| "mem_race (c # cs) e s =
     (case mem_save_if c e s of (s', r) \<Rightarrow> (case mem_race cs e s' of (s'', rs) \<Rightarrow> (s'', r # rs)))"

lemma mem_race_race: "mem_race cs e s = memory.race cs e s"
  by (induction cs arbitrary: s) (simp_all add: memory.race.simps split_beta)

text \<open>
  C10: Optimistic concurrency in the memory store: of any number of writers that checkpoint one session from
  the version it has, exactly one succeeds, the first, and its checkpoint with the next version is what the
  store then holds.
\<close>

theorem memory_store_one_winner:
  assumes "list_all (\<lambda>c. ck_session_id c = i) cs" and "cs \<noteq> []"
    and "(case mem_load i s of Some c \<Rightarrow> ck_version c | None \<Rightarrow> 0) = e"
  shows "length (filter so_ok (snd (mem_race cs e s))) = 1 \<and>
         mem_load i (fst (mem_race cs e s)) = Some ((hd cs)\<lparr>ck_version := e + 1\<rparr>)"
  using memory.race_one_winner [of cs i s e] assms
  by (simp add: mem_race_race list_all_iff memory.version_of_def)

definition sample_checkpoint :: checkpoint where
  "sample_checkpoint = new_checkpoint\<lparr>ck_session_id := ''s1'', ck_cursor := ''ask''\<rparr>"

theorem memory_store_one_winner_witness:
  "length (filter so_ok (snd (mem_race [sample_checkpoint, sample_checkpoint\<lparr>ck_cursor := ''pay''\<rparr>] 0 []))) = 1"
  using memory_store_one_winner [of "''s1''" "[sample_checkpoint, sample_checkpoint\<lparr>ck_cursor := ''pay''\<rparr>]" "[]" 0]
  by (simp add: sample_checkpoint_def mem_load_def)

text \<open>
  A failed write loses nothing: when the file store cannot open or rename its temporary file, \<open>save\<close> raises
  a store error and every session, the saved one included, loads as before.
\<close>

theorem file_store_failed_save_keeps:
  assumes "answer \<noteq> Written"
  shows "snd (file_save dump parse answer c dir) \<noteq> None \<and>
         file_load parse i (fst (file_save dump parse answer c dir)) = file_load parse i dir"
  using assms write_checkpoint_failed [OF assms path_for_not_tmp]
  by (simp add: file_save_def file_load_def Let_def write_checkpoint_error)

theorem file_store_failed_save_keeps_witness:
  "file_load (\<lambda>t. Some (checkpoint_to_json sample_checkpoint)) ''s1''
     (fst (file_save (\<lambda>d. ''x'') (\<lambda>t. Some (checkpoint_to_json sample_checkpoint)) RenameFails
        sample_checkpoint [(path_for ''s1'', ''x'')])) \<noteq> None"
proof -
  have "file_load (\<lambda>t. Some (checkpoint_to_json sample_checkpoint)) ''s1'' [(path_for ''s1'', ''x'')] =
      Some sample_checkpoint"
    by (simp add: file_load_def read_checkpoint_at_def checkpoint_from_to_json)
  then show ?thesis
    using file_store_failed_save_keeps [of RenameFails "\<lambda>d. ''x''" "\<lambda>t. Some (checkpoint_to_json sample_checkpoint)"
        sample_checkpoint "[(path_for ''s1'', ''x'')]" "''s1''"] by simp
qed

text \<open>
  C38: Conditional saves of the file store, for a parser that reads back the document that is printed and a disk that
  takes the write: when the file holds the expected version the save answers \<open>Ok\<close> with the next version and the session
  then loads as the saved checkpoint with that version; otherwise nothing is written and the outcome is not \<open>Ok\<close>.
\<close>

theorem file_store_compare_and_swap:
  assumes "parse (dump (checkpoint_to_json (c\<lparr>ck_version := e + 1\<rparr>))) =
      Some (checkpoint_to_json (c\<lparr>ck_version := e + 1\<rparr>))"
  shows "if file_version parse (path_for (ck_session_id c)) dir = e
         then file_load parse (ck_session_id c) (fst (file_save_if dump parse Written c e dir)) =
                Some (c\<lparr>ck_version := e + 1\<rparr>) \<and>
              snd (file_save_if dump parse Written c e dir) = Inr \<lparr>so_result = SaveOk, so_version = e + 1\<rparr>
         else fst (file_save_if dump parse Written c e dir) = dir \<and>
              (\<exists>r. snd (file_save_if dump parse Written c e dir) = Inr r \<and> \<not> so_ok r)"
  using file_save_if_win [where parse = parse and dump = dump and c = c and e = e and dir = dir] assms file_save_if_lose by auto

theorem file_store_compare_and_swap_witness:
  "file_load (\<lambda>t. Some (checkpoint_to_json (sample_checkpoint\<lparr>ck_version := 1\<rparr>))) ''s1''
     (fst (file_save_if (\<lambda>d. ''x'') (\<lambda>t. Some (checkpoint_to_json (sample_checkpoint\<lparr>ck_version := 1\<rparr>)))
        Written sample_checkpoint 0 [])) = Some (sample_checkpoint\<lparr>ck_version := 1\<rparr>)"
  using file_store_compare_and_swap
    [where parse = "\<lambda>t. Some (checkpoint_to_json (sample_checkpoint\<lparr>ck_version := 1\<rparr>))" and dump = "\<lambda>d. ''x''"
     and c = sample_checkpoint and e = 0 and dir = "[]"]
  by (simp add: sample_checkpoint_def file_version_def read_checkpoint_at_def)

text \<open>
  The directory does not keep sessions apart: \<open>pathFor\<close> maps the identifiers \<open>a/b\<close> and \<open>a:b\<close> to one file,
  so a conditional save of the second for a new session is refused once the first is stored, and loading the
  second returns the first one's checkpoint.
\<close>

theorem file_store_identifiers_collide:
  "path_for ''a/b'' = path_for ''a:b'' \<and>
   file_load parse ''a:b'' dir = file_load parse ''a/b'' dir"
proof -
  have "path_for ''a/b'' = path_for ''a:b''" by code_simp
  then show ?thesis by (simp add: file_load_def)
qed

end
