(* ===== verification/Sapo_Ast.thy ===== *)
theory Sapo_Ast
  imports Sapo_Json
begin

text \<open>
  \<open>parser/AstNodes.hpp\<close>: the blueprint as the interpreter sees it.  A node is the record of the base
  class with the data of its concrete class in \<open>nd_body\<close>, one constructor per class; a workflow keeps
  its nodes, its entry, its metadata and the index from identifiers to nodes.  A compiled expression is
  its source with the way it was compiled: the cached program and template are functions of the two.
\<close>

section \<open>Expressions\<close>

datatype expression =
    NoExpression
  | Template_of string
  | Program_of string
  | Literal_of json

fun expression_empty :: "expression \<Rightarrow> bool" where
  "expression_empty NoExpression = True"
| "expression_empty (Template_of s) = (s = [])"
| "expression_empty (Program_of s) = (s = [])"
| "expression_empty (Literal_of _) = False"

section \<open>Node types\<close>

datatype task_type =
    TNoop | TTransform | TQuery | TCommand | TEvent | TLoop | TLoopControl | TChoice | TCondition
  | TWait | TSchedule | TSubflow | TScript | TParallel | TTerminate | TAction | TTry

fun task_type_string :: "task_type \<Rightarrow> string" where
  "task_type_string TNoop = ''noop''" | "task_type_string TTransform = ''transform''"
| "task_type_string TQuery = ''query''" | "task_type_string TCommand = ''command''"
| "task_type_string TEvent = ''event''" | "task_type_string TLoop = ''loop''"
| "task_type_string TLoopControl = ''loop_control''" | "task_type_string TChoice = ''choice''"
| "task_type_string TCondition = ''condition''" | "task_type_string TWait = ''wait''"
| "task_type_string TSchedule = ''schedule''" | "task_type_string TSubflow = ''subflow''"
| "task_type_string TScript = ''script''" | "task_type_string TParallel = ''parallel''"
| "task_type_string TTerminate = ''terminate''" | "task_type_string TAction = ''action''"
| "task_type_string TTry = ''try''"

text \<open>The backoff multiplier and jitter are rationals (they only size a delay).\<close>

record retry_policy =
  rp_max_attempts :: int
  rp_backoff_ms :: int
  rp_multiplier :: rat
  rp_jitter :: rat
  rp_max_backoff_ms :: int
  rp_retry_on :: "string list"

definition default_retry :: retry_policy where
  "default_retry = \<lparr>rp_max_attempts = 1, rp_backoff_ms = 250, rp_multiplier = 2, rp_jitter = 1 / 5,
     rp_max_backoff_ms = 15000, rp_retry_on = []\<rparr>"

record transform_node =
  tf_operation :: string
  tf_input :: expression
  tf_mapping :: json
  tf_predicate :: expression
  tf_output :: string
  tf_item_variable :: string
  tf_index_variable :: string
  tf_output_as_array :: bool

record query_node =
  qn_source :: string
  qn_filter :: json
  qn_limit :: "int option"
  qn_offset :: "int option"
  qn_output :: string
  qn_statement :: string
  qn_parameters :: json
  qn_output_context_key :: string

record http_auth =
  ha_type :: string
  ha_username :: expression
  ha_password :: expression
  ha_token :: expression

record http_request_config =
  hr_url :: expression
  hr_auth :: "http_auth option"
  hr_headers :: json
  hr_query :: json
  hr_body :: json
  hr_timeout :: "int option"
  hr_follow_redirects :: bool
  hr_content_type :: "string option"

record command_node =
  cm_command :: string
  cm_output_paths :: "string list option"
  cm_output :: string
  cm_outputs :: json
  cm_http_request :: "http_request_config option"
  cm_inputs :: json

record event_node =
  ev_name :: string
  ev_payload :: json
  ev_publish_now :: bool

record wait_node =
  wt_duration :: "string option"
  wt_until :: expression
  wt_poll_interval_ms :: "int option"
  wt_durable :: bool

record schedule_node =
  sd_cron :: string
  sd_timezone :: "string option"
  sd_body :: string
  sd_workflow :: "string option"
  sd_job_id :: "string option"
  sd_input :: json
  sd_enabled :: bool

record subflow_node =
  sf_workflow :: string
  sf_wait_for_completion :: bool
  sf_inputs :: json
  sf_output :: "string option"
  sf_return_map :: json
  sf_max_depth :: int

record script_node =
  sn_language :: string
  sn_code :: expression
  sn_output :: "string option"
  sn_bindings :: "(string \<times> string) list"

record terminate_node =
  te_status :: string
  te_error_code :: "string option"
  te_message :: "expression option"
  te_output :: json

record noop_node =
  no_meta :: json
  no_assign :: json

record condition_node =
  cn_expression :: expression
  cn_on_true :: string
  cn_on_false :: "string option"
  cn_then_body :: "string list"
  cn_else_body :: "string list"

record choice_node =
  ch_expression :: expression
  ch_cases :: "(string \<times> string) list"
  ch_default_target :: "string option"

record branch =
  br_node_ids :: "string list"
  br_label :: "string option"

record parallel_node =
  pn_branches :: "branch list"
  pn_fail_fast :: bool
  pn_merge_policy :: string
  pn_max_concurrency :: int

record system_event =
  sy_event_name :: string
  sy_trigger_condition :: "expression option"
  sy_handler :: "string option"

record data_source_decl =
  ds_name :: string
  ds_scope :: string
  ds_provider :: string
  ds_config :: json

record task_reference =
  tr_task_id :: string
  tr_execute_condition :: "expression option"

record prompt_config =
  pc_message :: expression
  pc_interaction_type :: string
  pc_input_validation :: "expression option"
  pc_timeout_ms :: "int option"
  pc_output :: "string option"
  pc_options :: json

record action_node =
  ac_capability :: string
  ac_prompt_config :: "prompt_config option"
  ac_on_event :: "system_event option"
  ac_data_sources :: "data_source_decl list"
  ac_inputs :: json
  ac_outputs :: json
  ac_input_variable :: "string option"
  ac_next_tasks :: "task_reference list"
  ac_await_input :: bool

record loop_node =
  lp_collection :: expression
  lp_count :: expression
  lp_condition :: expression
  lp_iterator :: string
  lp_index :: string
  lp_body :: "string list"
  lp_max_iterations :: int
  lp_on_item_error :: string

record loop_control_node =
  lc_action :: string
  lc_when :: "expression option"
  lc_loop :: "string option"

record try_node =
  ty_body :: "string list"
  ty_catch_body :: "string list"
  ty_finally_body :: "string list"
  ty_error_variable :: string
  ty_catch_when :: "(string \<times> string) list"

datatype node_body =
    Noop noop_node
  | Transform transform_node
  | Query query_node
  | Command command_node
  | EventEmit event_node
  | Loop loop_node
  | LoopControl loop_control_node
  | Choice choice_node
  | Condition condition_node
  | Wait wait_node
  | Schedule schedule_node
  | Subflow subflow_node
  | Script script_node
  | Parallel parallel_node
  | TerminateN terminate_node
  | Action action_node
  | Try try_node

fun body_type :: "node_body \<Rightarrow> task_type" where
  "body_type (Noop _) = TNoop" | "body_type (Transform _) = TTransform" | "body_type (Query _) = TQuery"
| "body_type (Command _) = TCommand" | "body_type (EventEmit _) = TEvent" | "body_type (Loop _) = TLoop"
| "body_type (LoopControl _) = TLoopControl" | "body_type (Choice _) = TChoice"
| "body_type (Condition _) = TCondition" | "body_type (Wait _) = TWait" | "body_type (Schedule _) = TSchedule"
| "body_type (Subflow _) = TSubflow" | "body_type (Script _) = TScript" | "body_type (Parallel _) = TParallel"
| "body_type (TerminateN _) = TTerminate" | "body_type (Action _) = TAction" | "body_type (Try _) = TTry"

record node =
  nd_id :: string
  nd_next :: "string option"
  nd_on_error :: "string option"
  nd_retry :: "retry_policy option"
  nd_label :: "string option"
  nd_enabled :: bool
  nd_body :: node_body

definition node_type :: "node \<Rightarrow> task_type" where
  "node_type n = body_type (nd_body n)"

record workflow_metadata =
  md_name :: string
  md_version :: string
  md_description :: string
  md_trigger_event :: "string option"
  md_trigger_input :: json
  md_defaults :: json
  md_raw :: json

record workflow =
  wf_nodes :: "node list"
  wf_entry_id :: string
  wf_metadata :: workflow_metadata
  wf_warnings :: "string list"
  wf_index :: "(string \<times> node) list"

definition find_node :: "workflow \<Rightarrow> string \<Rightarrow> node option" where
  "find_node bp i = map_of (wf_index bp) i"

text \<open>The index holds each node under its own identifier.\<close>

definition index_ok :: "workflow \<Rightarrow> bool" where
  "index_ok bp \<longleftrightarrow> list_all (\<lambda>(i, n). nd_id n = i) (wf_index bp)"

lemma find_node_id: "index_ok bp \<Longrightarrow> find_node bp i = Some n \<Longrightarrow> nd_id n = i"
  unfolding index_ok_def find_node_def list_all_iff by (drule map_of_SomeD) auto

lemma task_type_string_inject: "task_type_string a = task_type_string b \<longleftrightarrow> a = b"
  by (cases a; cases b) simp_all

end
