(* ===== verification/Sapo_RunState.thy ===== *)
theory Sapo_RunState
  imports Sapo_Ast Sapo_Context Sapo_Core
begin

text \<open>
  The state of one execution (\<open>RunState\<close> of \<open>runtime/Interpreter.hpp\<close>), what a node activation can see
  (\<open>ExecutionContext\<close> of \<open>tasks/Task.hpp\<close>) and the frame primitives of \<open>Interpreter.cpp\<close>: pushing a frame,
  binding an iteration, resolving a jump.  \<open>rs_frames\<close> has the innermost frame first (the back of the vector);
  \<open>setFrames\<close> hands the context the vector, outermost first.  A frame's state is a document, as in the code.

  \<open>std::string::front\<close> of an empty body is undefined in the source; the parser refuses empty bodies, and
  \<open>front\<close> gives the empty identifier there.
\<close>

section \<open>State\<close>

record captured_error =
  ce_code :: string
  ce_message :: string
  ce_node :: string
  ce_data :: json

definition captured_to_json :: "captured_error \<Rightarrow> json" where
  "captured_to_json e =
     (let j = jobj [(''code'', JStr (ce_code e)), (''message'', JStr (ce_message e))];
          j1 = (if ce_node e = [] then j else jset ''node'' (JStr (ce_node e)) j)
      in if is_null (ce_data e) then j1 else jset ''data'' (ce_data e) j1)"

definition captured_from :: "sapo_error \<Rightarrow> captured_error" where
  "captured_from e = \<lparr>ce_code = error_code_string (se_code e), ce_message = se_message e,
     ce_node = se_node e, ce_data = se_data e\<rparr>"

definition captured_from_json :: "json \<Rightarrow> captured_error" where
  "captured_from_json j =
     \<lparr>ce_code = jvalue_str ''code'' ''INTERNAL_ERROR'' j, ce_message = jvalue_str ''message'' [] j,
      ce_node = jvalue_str ''node'' [] j, ce_data = jvalue ''data'' JNull j\<rparr>"

lemma captured_round_trip: "captured_from_json (captured_to_json e) = e"
  by (cases e) (auto simp: captured_from_json_def captured_to_json_def Let_def jvalue_defs jget_jset jget_jobj is_null_iff)

lemma captured_to_json_not_null [simp]: "captured_to_json e \<noteq> JNull"
  by (simp add: captured_to_json_def Let_def jobj_def)

record run_state =
  rs_ctx :: ctx
  rs_frames :: "frame_state list"
  rs_cursor :: string
  rs_current_node_id :: string
  rs_session_id :: string
  rs_execution_id :: string
  rs_workflow_id :: string
  rs_depth :: nat
  rs_visits :: nat
  rs_budget :: nat
  rs_visited :: "string list"
  rs_warnings :: "string list"
  rs_locals :: json
  rs_data_sources :: json
  rs_status :: string
  rs_terminate_status :: string
  rs_terminate_payload :: json
  rs_suspend_request :: json
  rs_suspend_cursor :: string
  rs_error :: string
  rs_error_code :: string
  rs_error_node :: string
  rs_error_data :: json
  rs_started_ms :: int
  rs_finished :: bool
  rs_branch_mode :: bool
  rs_branch_finished :: bool
  rs_pending_error :: json
  rs_resume_node_id :: string

definition new_run_state :: run_state where
  "new_run_state =
     \<lparr>rs_ctx = empty_ctx, rs_frames = [], rs_cursor = [], rs_current_node_id = [], rs_session_id = [],
      rs_execution_id = [], rs_workflow_id = [], rs_depth = 0, rs_visits = 0, rs_budget = 100000,
      rs_visited = [], rs_warnings = [], rs_locals = JObj [], rs_data_sources = JObj [],
      rs_status = ''running'', rs_terminate_status = ''success'', rs_terminate_payload = JObj [],
      rs_suspend_request = JObj [], rs_suspend_cursor = [], rs_error = [], rs_error_code = [],
      rs_error_node = [], rs_error_data = JNull, rs_started_ms = 0, rs_finished = False,
      rs_branch_mode = False, rs_branch_finished = False, rs_pending_error = JNull, rs_resume_node_id = []\<rparr>"

section \<open>What an activation sees\<close>

record exec =
  ex_node :: node
  ex_ctx :: ctx
  ex_session_id :: string
  ex_execution_id :: string
  ex_workflow_id :: string
  ex_depth :: nat
  ex_locals :: json
  ex_data_sources :: json
  ex_iteration :: int

definition make_execution :: "run_state \<Rightarrow> node \<Rightarrow> exec" where
  "make_execution s n =
     \<lparr>ex_node = n, ex_ctx = rs_ctx s, ex_session_id = rs_session_id s,
      ex_execution_id = rs_execution_id s, ex_workflow_id = rs_workflow_id s, ex_depth = rs_depth s,
      ex_locals = (if is_object (rs_locals s) then rs_locals s else JObj []),
      ex_data_sources = rs_data_sources s,
      ex_iteration = (case rs_frames s of [] \<Rightarrow> - 1 | f # _ \<Rightarrow> jvalue_int ''index'' (- 1) (fr_state f))\<rparr>"

text \<open>How a task ends: with a signal, with a \<open>SapoError\<close>, or with another exception (its text).\<close>

datatype task_result = Signals signal | Fails sapo_error | Crashes string

text \<open>The services the interpreter calls.  \<open>en_task\<close> is the task registry: it finds the task of a node
  type, and running it gives its result with the context it wrote to and the outside world.  \<open>en_eval\<close> and
  \<open>en_eval_bool\<close> evaluate an expression in the scope of an activation; \<open>en_dump\<close> prints a document.\<close>

record 'w env =
  en_task :: "task_type \<Rightarrow> (exec \<Rightarrow> 'w \<Rightarrow> task_result \<times> ctx \<times> 'w) option"
  en_eval :: "expression \<Rightarrow> exec \<Rightarrow> json res"
  en_eval_bool :: "expression \<Rightarrow> exec \<Rightarrow> bool res"
  en_dump :: "json \<Rightarrow> string"
  en_max_node_visits :: nat
  en_max_branch_visits :: nat

section \<open>Identifier arrays\<close>

definition id_array :: "string list \<Rightarrow> json" where
  "id_array ids = JArr (map JStr ids)"

definition id_list :: "json \<Rightarrow> string list" where
  "id_list j = List.map_filter (\<lambda>v. case v of JStr s \<Rightarrow> Some s | _ \<Rightarrow> None) (jitems j)"

definition index_of_id :: "json \<Rightarrow> string \<Rightarrow> nat option" where
  "index_of_id ids i = index_of (jitems ids) (JStr i)"

fun jstr :: "json \<Rightarrow> string" where
  "jstr (JStr s) = s" | "jstr _ = []"

definition front :: "string list \<Rightarrow> string" where
  "front ids = (case ids of [] \<Rightarrow> [] | i # _ \<Rightarrow> i)"

definition frame_ids :: "frame_state \<Rightarrow> json" where
  "frame_ids f = jvalue ''ids'' JNull (fr_state f)"

lemma id_list_array [simp]: "id_list (id_array ids) = ids"
  by (induction ids) (simp_all add: id_list_def id_array_def List.map_filter_simps)

lemma index_of_map_JStr: "index_of (map JStr ids) (JStr i) = index_of ids i"
  by (induction ids) auto

lemma index_of_id_array [simp]: "index_of_id (id_array ids) i = index_of ids i"
  by (simp add: index_of_id_def id_array_def index_of_map_JStr)

section \<open>Frames\<close>

definition sync_frames :: "run_state \<Rightarrow> run_state" where
  "sync_frames s = s\<lparr>rs_ctx := set_frames (rev (rs_frames s)) (rs_ctx s)\<rparr>"

definition push_frame ::
  "string \<Rightarrow> string \<Rightarrow> string list \<Rightarrow> string \<Rightarrow> json \<Rightarrow> run_state \<Rightarrow> run_state" where
  "push_frame kind node_id ids resume_target frame_state s =
     sync_frames (s\<lparr>rs_frames :=
       \<lparr>fr_kind = kind, fr_node = node_id, fr_position = 0, fr_resume = resume_target,
        fr_state = jset ''ids'' (id_array ids) (if is_object frame_state then frame_state else JObj [])\<rparr>
       # rs_frames s\<rparr>)"

definition set_local :: "string \<Rightarrow> json \<Rightarrow> run_state \<Rightarrow> run_state" where
  "set_local k v s = s\<lparr>rs_locals := jset k v (rs_locals s)\<rparr>"

definition erase_local :: "string \<Rightarrow> run_state \<Rightarrow> run_state" where
  "erase_local k s = s\<lparr>rs_locals := jerase k (rs_locals s)\<rparr>"

definition bind_iteration :: "frame_state \<Rightarrow> run_state \<Rightarrow> run_state" where
  "bind_iteration f s =
     (let fs = fr_state f; index = jvalue_int ''index'' 0 fs; items = jvalue ''items'' (JArr []) fs;
          iterator = jvalue_str ''iterator'' ''item'' fs;
          index_variable = jvalue_str ''index_variable'' ''index'' fs
      in if jvalue_str ''mode'' [] fs = [] then s
         else
           let s1 = (if is_array items \<and> 0 \<le> index \<and> nat index < length (jitems items) \<and> iterator \<noteq> []
                     then set_local iterator (jitems items ! nat index) s else s);
               s2 = (if index_variable \<noteq> [] then set_local index_variable (JInt index) s1 else s1)
           in set_local ''iteration'' (JInt index) s2)"

definition erase_iteration_locals :: "json \<Rightarrow> run_state \<Rightarrow> run_state" where
  "erase_iteration_locals fs s =
     (if \<not> is_object fs \<or> \<not> is_object (rs_locals s) then s
      else
        let a = jvalue_str ''iterator'' [] fs; b = jvalue_str ''index_variable'' [] fs;
            s1 = (if a \<noteq> [] then erase_local a s else s); s2 = (if b \<noteq> [] then erase_local b s1 else s1)
        in erase_local ''iteration'' s2)"

text \<open>The searches from the innermost frame outwards: the frames from the found one on, which is what
  \<open>frames.resize(depth)\<close> keeps.\<close>

fun unwind_to :: "(frame_state \<Rightarrow> bool) \<Rightarrow> frame_state list \<Rightarrow> frame_state list option" where
  "unwind_to P [] = None"
| "unwind_to P (f # fs) = (if P f then Some (f # fs) else unwind_to P fs)"

definition resolve_jump :: "string \<Rightarrow> run_state \<Rightarrow> run_state" where
  "resolve_jump target s =
     (if target = [] then s\<lparr>rs_cursor := []\<rparr>
      else case unwind_to (\<lambda>f. index_of_id (frame_ids f) target \<noteq> None) (rs_frames s) of
        Some (f # fs) \<Rightarrow>
          (let f' = f\<lparr>fr_position := int (the (index_of_id (frame_ids f) target))\<rparr>;
               s1 = s\<lparr>rs_frames := f' # fs\<rparr>;
               s2 = (if fr_kind f = ''loop'' then bind_iteration f' s1 else s1)
           in s2\<lparr>rs_cursor := target\<rparr>)
      | _ \<Rightarrow> (sync_frames (s\<lparr>rs_frames := []\<rparr>))\<lparr>rs_cursor := target\<rparr>)"

section \<open>Which fields the primitives leave alone\<close>

lemma unwind_to_Some: "unwind_to P fs = Some gs \<Longrightarrow> \<exists>f hs ps. gs = f # hs \<and> P f \<and> fs = ps @ gs \<and> (\<forall>p \<in> set ps. \<not> P p)"
proof (induction fs)
  case (Cons f fs)
  show ?case
  proof (cases "P f")
    case True
    with Cons.prems show ?thesis by auto
  next
    case False
    with Cons obtain g hs ps where "gs = g # hs" "P g" "fs = ps @ gs" "\<forall>p \<in> set ps. \<not> P p" by auto
    with False show ?thesis by (intro exI [of _ g] exI [of _ hs] exI [of _ "f # ps"]) auto
  qed
qed simp

lemma unwind_to_length: "unwind_to P fs = Some gs \<Longrightarrow> length gs \<le> length fs"
  by (auto dest: unwind_to_Some)

lemma unwind_to_None: "unwind_to P fs = None \<longleftrightarrow> (\<forall>f \<in> set fs. \<not> P f)"
  by (induction fs) auto

lemma sync_frames_frame [frame_simps]:
  "rs_frames (sync_frames s) = rs_frames s" "rs_cursor (sync_frames s) = rs_cursor s"
  "rs_visits (sync_frames s) = rs_visits s" "rs_budget (sync_frames s) = rs_budget s"
  "rs_finished (sync_frames s) = rs_finished s" "rs_status (sync_frames s) = rs_status s"
  "rs_pending_error (sync_frames s) = rs_pending_error s" "rs_locals (sync_frames s) = rs_locals s"
  "rs_current_node_id (sync_frames s) = rs_current_node_id s" "rs_visited (sync_frames s) = rs_visited s"
  "m_variables (rs_ctx (sync_frames s)) = m_variables (rs_ctx s)"
  "rs_warnings (sync_frames s) = rs_warnings s" "m_journal (rs_ctx (sync_frames s)) = m_journal (rs_ctx s)"
  by (simp_all add: sync_frames_def set_frames_def)

lemma set_local_frame [frame_simps]:
  "rs_frames (set_local k v s) = rs_frames s" "rs_cursor (set_local k v s) = rs_cursor s"
  "rs_visits (set_local k v s) = rs_visits s" "rs_budget (set_local k v s) = rs_budget s"
  "rs_finished (set_local k v s) = rs_finished s" "rs_status (set_local k v s) = rs_status s"
  "rs_pending_error (set_local k v s) = rs_pending_error s" "rs_ctx (set_local k v s) = rs_ctx s"
  "rs_current_node_id (set_local k v s) = rs_current_node_id s" "rs_visited (set_local k v s) = rs_visited s"
  "rs_warnings (set_local k v s) = rs_warnings s"
  by (simp_all add: set_local_def)

lemma erase_local_frame [frame_simps]:
  "rs_frames (erase_local k s) = rs_frames s" "rs_cursor (erase_local k s) = rs_cursor s"
  "rs_visits (erase_local k s) = rs_visits s" "rs_budget (erase_local k s) = rs_budget s"
  "rs_finished (erase_local k s) = rs_finished s" "rs_status (erase_local k s) = rs_status s"
  "rs_pending_error (erase_local k s) = rs_pending_error s" "rs_ctx (erase_local k s) = rs_ctx s"
  "rs_current_node_id (erase_local k s) = rs_current_node_id s" "rs_visited (erase_local k s) = rs_visited s"
  "rs_warnings (erase_local k s) = rs_warnings s"
  by (simp_all add: erase_local_def)

lemma bind_iteration_frame [frame_simps]:
  "rs_frames (bind_iteration f s) = rs_frames s" "rs_cursor (bind_iteration f s) = rs_cursor s"
  "rs_visits (bind_iteration f s) = rs_visits s" "rs_budget (bind_iteration f s) = rs_budget s"
  "rs_finished (bind_iteration f s) = rs_finished s" "rs_status (bind_iteration f s) = rs_status s"
  "rs_pending_error (bind_iteration f s) = rs_pending_error s" "rs_ctx (bind_iteration f s) = rs_ctx s"
  "rs_current_node_id (bind_iteration f s) = rs_current_node_id s" "rs_visited (bind_iteration f s) = rs_visited s"
  "rs_warnings (bind_iteration f s) = rs_warnings s"
  by (simp_all add: bind_iteration_def Let_def frame_simps)

lemma erase_iteration_locals_frame [frame_simps]:
  "rs_frames (erase_iteration_locals f s) = rs_frames s" "rs_cursor (erase_iteration_locals f s) = rs_cursor s"
  "rs_visits (erase_iteration_locals f s) = rs_visits s" "rs_budget (erase_iteration_locals f s) = rs_budget s"
  "rs_finished (erase_iteration_locals f s) = rs_finished s" "rs_status (erase_iteration_locals f s) = rs_status s"
  "rs_pending_error (erase_iteration_locals f s) = rs_pending_error s" "rs_ctx (erase_iteration_locals f s) = rs_ctx s"
  "rs_current_node_id (erase_iteration_locals f s) = rs_current_node_id s"
  "rs_visited (erase_iteration_locals f s) = rs_visited s"
  "rs_warnings (erase_iteration_locals f s) = rs_warnings s"
  by (simp_all add: erase_iteration_locals_def Let_def frame_simps)

lemma resolve_jump_frame [frame_simps]:
  "rs_visits (resolve_jump t s) = rs_visits s" "rs_budget (resolve_jump t s) = rs_budget s"
  "rs_finished (resolve_jump t s) = rs_finished s" "rs_status (resolve_jump t s) = rs_status s"
  "rs_pending_error (resolve_jump t s) = rs_pending_error s" "rs_cursor (resolve_jump t s) = t"
  "m_variables (rs_ctx (resolve_jump t s)) = m_variables (rs_ctx s)"
  "rs_current_node_id (resolve_jump t s) = rs_current_node_id s" "rs_visited (resolve_jump t s) = rs_visited s"
  "rs_warnings (resolve_jump t s) = rs_warnings s"
  by (simp_all add: resolve_jump_def Let_def frame_simps split: option.split list.split)

lemma resolve_jump_length: "length (rs_frames (resolve_jump t s)) \<le> length (rs_frames s)"
  by (auto simp: resolve_jump_def Let_def frame_simps dest: unwind_to_length split: option.split list.split)

text \<open>A jump lands in the innermost frame whose body has the target, dropping what is nested inside it;
  a target no live frame has drops them all.\<close>

lemma resolve_jump_frames:
  assumes "t \<noteq> []"
  shows "rs_frames (resolve_jump t s) =
    (case unwind_to (\<lambda>f. index_of_id (frame_ids f) t \<noteq> None) (rs_frames s) of
       Some (f # fs) \<Rightarrow> f\<lparr>fr_position := int (the (index_of_id (frame_ids f) t))\<rparr> # fs
     | _ \<Rightarrow> [])"
  using assms by (simp add: resolve_jump_def Let_def frame_simps split: option.split list.split)

end
