(* ===== verification/Sapo_Advance.thy ===== *)
theory Sapo_Advance
  imports Sapo_RunState
begin

text \<open>
  Frame bookkeeping of \<open>runtime/Interpreter.cpp\<close>: \<open>advanceAfterNode\<close> and the functions it calls in turn
  (\<open>advanceTryPhase\<close>, \<open>closeFrame\<close>, \<open>startNextIteration\<close>, \<open>nextIterationFor\<close>, \<open>finishLoop\<close>), and the
  error routing \<open>handleError\<close>.  In the source these functions call each other; here \<open>advance\<close> is the one
  recursive function, on the number of frames, and the others are defined with it.  The guard in its
  nested call (the frames have become fewer) always holds (\<open>advance_length\<close>); \<open>advance_unfold\<close> is the
  equation of the source without it.

  Each function gives an error (that of a loop guard that cannot be evaluated, which leaves these
  functions as an exception) with the state.

  The lemmas: frames are only popped, budgets and the variables are left alone, and the outcome of
  every kind of frame; an error goes to the node's own handler, otherwise to the nearest frame that
  handles it.
\<close>

type_synonym advanced = "sapo_error option \<times> run_state"

section \<open>Loops\<close>

text \<open>The part of \<open>nextIterationFor\<close> behind the search, on the loop frame \<open>f\<close> that is now the innermost:
  again, over (the loop's node is to be advanced from), or the guard's error.\<close>

datatype loop_decision = LoopThrows sapo_error run_state | LoopAgain run_state | LoopOver string run_state

definition loop_over :: "frame_state \<Rightarrow> frame_state list \<Rightarrow> run_state \<Rightarrow> run_state" where
  "loop_over f fs s =
     (erase_iteration_locals (fr_state f) (sync_frames (s\<lparr>rs_frames := fs\<rparr>)))\<lparr>rs_current_node_id := fr_node f\<rparr>"

definition loop_again :: "int \<Rightarrow> frame_state \<Rightarrow> frame_state list \<Rightarrow> run_state \<Rightarrow> run_state" where
  "loop_again index f fs s =
     (let ids = jvalue ''ids'' (JArr []) (fr_state f);
          f' = f\<lparr>fr_state := jset ''index'' (JInt index) (fr_state f), fr_position := 0\<rparr>
      in (sync_frames (bind_iteration f' (s\<lparr>rs_frames := f' # fs\<rparr>)))
           \<lparr>rs_cursor := (case jitems ids of [] \<Rightarrow> [] | i # _ \<Rightarrow> jstr i)\<rparr>)"

text \<open>\<open>LoopTask::guard\<close>.\<close>

definition loop_guard :: "'w env \<Rightarrow> loop_node \<Rightarrow> exec \<Rightarrow> bool res" where
  "loop_guard env l x = (if expression_empty (lp_condition l) then Inr True else en_eval_bool env (lp_condition l) x)"

definition loop_decide :: "'w env \<Rightarrow> workflow \<Rightarrow> frame_state \<Rightarrow> frame_state list \<Rightarrow> run_state \<Rightarrow> loop_decision" where
  "loop_decide env bp f fs s =
     (let st = fr_state f; owner = fr_node f;
          index = jvalue_int ''index'' 0 st + 1; maximum = jvalue_int ''total'' 0 st;
          cap = jvalue_int ''max_iterations'' 1000 st; mode = jvalue_str ''mode'' [] st;
          capped = (cap \<le> index);
          s1 = (if capped \<and> mode = ''while'' then
                  s\<lparr>rs_warnings := rs_warnings s @ [''loop '' @ quoted owner @ '' stopped after reaching max_iterations=''
                      @ int_str cap @ '' (guard may still be true)'']\<rparr>
                else s);
          more = (\<not> capped \<and> index < maximum)
      in if \<not> more then LoopOver owner (loop_over f fs s1)
         else if mode \<noteq> ''while'' then LoopAgain (loop_again index f fs s1)
         else case find_node bp owner of
                Some n \<Rightarrow>
                  (case nd_body n of
                     Loop l \<Rightarrow>
                       (case loop_guard env l (make_execution s1 n) of
                          Inl e \<Rightarrow> LoopThrows e s1
                        | Inr True \<Rightarrow> LoopAgain (loop_again index f fs s1)
                        | Inr False \<Rightarrow> LoopOver owner (loop_over f fs s1))
                   | _ \<Rightarrow> LoopOver owner (loop_over f fs s1))
              | None \<Rightarrow> LoopOver owner (loop_over f fs s1))"

section \<open>Try frames\<close>

text \<open>\<open>advanceTryPhase\<close> up to its call of \<open>closeFrame\<close>: the \<open>finally\<close> body is entered, or the frame is
  closed (\<open>close_top\<close> is what \<open>closeFrame\<close> does before it advances from the owner).\<close>

definition close_top :: "frame_state \<Rightarrow> frame_state list \<Rightarrow> run_state \<Rightarrow> run_state" where
  "close_top f fs s =
     (erase_iteration_locals (fr_state f) (sync_frames (s\<lparr>rs_frames := fs\<rparr>)))\<lparr>rs_current_node_id := fr_node f\<rparr>"

definition try_phase :: "frame_state \<Rightarrow> string" where
  "try_phase f = jvalue_str ''phase'' ''body'' (fr_state f)"

definition try_finally_ids :: "frame_state \<Rightarrow> string list" where
  "try_finally_ids f = id_list (jvalue ''finally_ids'' (JArr []) (fr_state f))"

definition finally_pending :: "frame_state \<Rightarrow> bool" where
  "finally_pending f \<longleftrightarrow> (try_phase f = ''body'' \<or> try_phase f = ''catch'') \<and> try_finally_ids f \<noteq> []"

definition enter_finally :: "frame_state \<Rightarrow> frame_state list \<Rightarrow> run_state \<Rightarrow> run_state" where
  "enter_finally f fs s =
     sync_frames (s\<lparr>rs_frames := f\<lparr>fr_state := jset ''ids'' (id_array (try_finally_ids f))
                                            (jset ''phase'' (JStr ''finally'') (fr_state f)),
                                  fr_position := 0\<rparr> # fs,
                    rs_cursor := front (try_finally_ids f)\<rparr>)"

definition release_error :: "frame_state \<Rightarrow> run_state \<Rightarrow> run_state" where
  "release_error f s =
     (case jget ''propagate'' (fr_state f) of
        None \<Rightarrow> s
      | Some e \<Rightarrow> set_local ''error'' e (s\<lparr>rs_pending_error := e\<rparr>))"

section \<open>Advancing\<close>

definition next_of :: "workflow \<Rightarrow> string \<Rightarrow> string option" where
  "next_of bp i = (case find_node bp i of Some n \<Rightarrow> nd_next n | None \<Rightarrow> None)"

definition complete :: "run_state \<Rightarrow> run_state" where
  "complete s = s\<lparr>rs_cursor := [], rs_status := (if rs_status s = ''running'' then ''completed'' else rs_status s),
                   rs_finished := True\<rparr>"

definition advance_top :: "workflow \<Rightarrow> string \<Rightarrow> run_state \<Rightarrow> run_state" where
  "advance_top bp current s =
     (case next_of bp current of Some t \<Rightarrow> s\<lparr>rs_cursor := t\<rparr> | None \<Rightarrow> complete s)"

text \<open>A body node whose explicit successor lies outside the frame leaves it.\<close>

definition escape_target :: "workflow \<Rightarrow> frame_state \<Rightarrow> string \<Rightarrow> string option" where
  "escape_target bp f current =
     (if index_of_id (frame_ids f) current = None then None
      else case next_of bp current of
             Some t \<Rightarrow> if index_of_id (frame_ids f) t = None then Some t else None
           | None \<Rightarrow> None)"

definition sibling :: "frame_state \<Rightarrow> string \<Rightarrow> (nat \<times> string) option" where
  "sibling f current =
     (case index_of_id (frame_ids f) current of
        Some i \<Rightarrow> if Suc i < length (jitems (frame_ids f)) then Some (Suc i, jstr (jitems (frame_ids f) ! Suc i)) else None
      | None \<Rightarrow> None)"

definition branch_end :: "bool \<Rightarrow> run_state \<Rightarrow> run_state" where
  "branch_end in_body s =
     s\<lparr>rs_branch_finished := True, rs_finished := True, rs_cursor := [],
       rs_status := (if in_body \<and> rs_status s = ''running'' then ''completed'' else rs_status s)\<rparr>"

definition finally_rank :: "run_state \<Rightarrow> nat" where
  "finally_rank s = (case rs_frames s of [] \<Rightarrow> 0 | f # _ \<Rightarrow> if finally_pending f then 1 else 0)"

function advance :: "'w env \<Rightarrow> workflow \<Rightarrow> string \<Rightarrow> run_state \<Rightarrow> advanced" where
  "advance env bp current s =
     (case rs_frames s of
        [] \<Rightarrow> (None, advance_top bp current s)
      | f # fs \<Rightarrow>
          (case escape_target bp f current of
             Some t \<Rightarrow> (None, resolve_jump t s)
           | None \<Rightarrow>
          (case sibling f current of
             Some (i, nx) \<Rightarrow>
               (None, sync_frames (s\<lparr>rs_frames := f\<lparr>fr_position := int i\<rparr> # fs, rs_cursor := nx\<rparr>))
           | None \<Rightarrow>
               if fr_kind f = ''try'' then
                 (if finally_pending f then
                    (let s1 = enter_finally f fs s
                     in if rs_cursor s1 \<noteq> [] \<or> rs_finished s1 then (None, s1) else advance env bp (fr_node f) s1)
                  else
                    (case advance env bp (fr_node f) (close_top f fs (release_error f s)) of
                       (Some e, s1) \<Rightarrow> (Some e, s1)
                     | (None, s1) \<Rightarrow>
                         if rs_cursor s1 \<noteq> [] \<or> rs_finished s1 then (None, s1)
                         else if length (rs_frames s1) < length (rs_frames s) then advance env bp (fr_node f) s1
                         else (None, s1)))
               else if fr_kind f = ''loop'' then
                 (case loop_decide env bp f fs s of
                    LoopThrows e s1 \<Rightarrow> (Some e, s1)
                  | LoopAgain s1 \<Rightarrow> (None, s1)
                  | LoopOver owner s1 \<Rightarrow> advance env bp owner s1)
               else if fr_kind f = ''branch'' then
                 (None, branch_end (index_of_id (frame_ids f) current \<noteq> None) s)
               else
                 (let s1 = sync_frames (s\<lparr>rs_frames := fs\<rparr>)
                  in if fr_resume f \<noteq> [] then (None, s1\<lparr>rs_cursor := fr_resume f\<rparr>)
                     else advance env bp (fr_node f) s1))))"
  by pat_completeness auto

lemma loop_decide_over: "loop_decide env bp f fs s = LoopOver owner s1 \<Longrightarrow> rs_frames s1 = fs \<and> owner = fr_node f"
  by (auto simp: loop_decide_def Let_def loop_over_def frame_simps
      split: if_splits option.splits node_body.splits sum.splits bool.splits)

lemma finally_pending_object: "finally_pending f \<Longrightarrow> is_object (fr_state f)"
  by (cases "fr_state f") (auto simp: finally_pending_def try_finally_ids_def jvalue_def id_list_def List.map_filter_simps)

lemma finally_rank_enter: "finally_pending f \<Longrightarrow> finally_rank (enter_finally f fs s) = 0"
  by (drule finally_pending_object)
     (simp add: finally_rank_def enter_finally_def frame_simps finally_pending_def try_phase_def jvalue_str_def jget_jset)

lemma enter_finally_frames [simp]: "length (rs_frames (enter_finally f fs s)) = Suc (length fs)"
  by (simp add: enter_finally_def frame_simps)

lemma close_top_frames [simp]: "rs_frames (close_top f fs s) = fs"
  by (simp add: close_top_def frame_simps)

lemma finally_rank_pending: "rs_frames s = f # fs \<Longrightarrow> finally_pending f \<Longrightarrow> finally_rank s = 1"
  by (simp add: finally_rank_def)

termination advance
  by (relation "measures [\<lambda>(env, bp, current, s). length (rs_frames s), \<lambda>(env, bp, current, s). finally_rank s]")
     (auto simp: frame_simps finally_rank_enter finally_rank_pending dest: loop_decide_over)

declare advance.simps [simp del]

section \<open>The functions around it\<close>

definition close_frame :: "'w env \<Rightarrow> workflow \<Rightarrow> run_state \<Rightarrow> advanced" where
  "close_frame env bp s =
     (case rs_frames s of
        [] \<Rightarrow> (None, complete s)
      | f # fs \<Rightarrow> advance env bp (fr_node f) (close_top f fs s))"

definition advance_after_node :: "'w env \<Rightarrow> workflow \<Rightarrow> run_state \<Rightarrow> advanced" where
  "advance_after_node env bp s = advance env bp (rs_current_node_id s) s"

definition advance_try_phase :: "'w env \<Rightarrow> workflow \<Rightarrow> run_state \<Rightarrow> advanced" where
  "advance_try_phase env bp s =
     (case rs_frames s of
        [] \<Rightarrow> (None, s)
      | f # fs \<Rightarrow>
          if fr_kind f \<noteq> ''try'' then (None, s)
          else if finally_pending f then (None, enter_finally f fs s)
          else close_frame env bp (release_error f s))"

definition loop_frame :: "string \<Rightarrow> frame_state \<Rightarrow> bool" where
  "loop_frame loop_id f \<longleftrightarrow>
     fr_kind f = ''loop'' \<and> \<not> (loop_id \<noteq> [] \<and> jvalue_str ''loop_id'' [] (fr_state f) \<noteq> loop_id \<and> fr_node f \<noteq> loop_id)"

text \<open>\<open>nextIterationFor\<close> and \<open>finishLoop\<close>; the flag is their result.\<close>

definition next_iteration_for :: "'w env \<Rightarrow> workflow \<Rightarrow> string \<Rightarrow> run_state \<Rightarrow> bool \<times> advanced" where
  "next_iteration_for env bp loop_id s =
     (case unwind_to (loop_frame loop_id) (rs_frames s) of
        Some (f # fs) \<Rightarrow>
          (case loop_decide env bp f fs (s\<lparr>rs_frames := f # fs\<rparr>) of
             LoopThrows e s1 \<Rightarrow> (True, Some e, s1)
           | LoopAgain s1 \<Rightarrow> (True, None, s1)
           | LoopOver owner s1 \<Rightarrow> (True, advance env bp owner s1))
      | _ \<Rightarrow> (False, None, s))"

definition finish_loop :: "'w env \<Rightarrow> workflow \<Rightarrow> string \<Rightarrow> run_state \<Rightarrow> bool \<times> advanced" where
  "finish_loop env bp loop_id s =
     (case unwind_to (loop_frame loop_id) (rs_frames s) of
        Some (f # fs) \<Rightarrow> (True, close_frame env bp (s\<lparr>rs_frames := f # fs\<rparr>))
      | _ \<Rightarrow> (False, None, s))"

section \<open>Error routing\<close>

datatype handled = Unhandled | Handled | HandlerThrows sapo_error

definition handled_of :: "advanced \<Rightarrow> handled \<times> run_state" where
  "handled_of a = (case fst a of None \<Rightarrow> Handled | Some e \<Rightarrow> HandlerThrows e, snd a)"

text \<open>Where a try frame sends an error: to the routed handler or the catch body, or nowhere
  (\<open>None\<close>: this catch only handles listed codes).\<close>

definition catch_handlers :: "workflow \<Rightarrow> frame_state \<Rightarrow> string \<Rightarrow> string list option" where
  "catch_handlers bp f code =
     (let catch_ids = id_list (jvalue ''catch_ids'' (JArr []) (fr_state f));
          wh = jvalue ''catch_when'' (JObj []) (fr_state f);
          routed0 = (case jget code wh of Some (JStr h) \<Rightarrow> h | _ \<Rightarrow> []);
          routed = (if routed0 \<noteq> [] \<and> find_node bp routed0 = None then [] else routed0)
      in if routed = [] \<and> catch_ids = [] \<and> is_object wh \<and> \<not> jempty wh then None
         else Some (if routed \<noteq> [] then [routed] else catch_ids))"

definition enter_catch :: "string list \<Rightarrow> json \<Rightarrow> frame_state \<Rightarrow> frame_state list \<Rightarrow> run_state \<Rightarrow> run_state" where
  "enter_catch handlers error_json f fs s =
     (let f' = f\<lparr>fr_state := jset ''ids'' (id_array handlers) (jset ''phase'' (JStr ''catch'') (fr_state f)),
                 fr_position := 0\<rparr>;
          variable = jvalue_str ''error_variable'' ''error'' (fr_state f');
          s1 = set_local ''error'' error_json (s\<lparr>rs_frames := f' # fs, rs_cursor := front handlers\<rparr>);
          s2 = (if variable \<noteq> [] \<and> variable \<noteq> ''error'' then set_local variable error_json s1 else s1);
          s3 = sync_frames s2
      in if variable \<noteq> [] then s3\<lparr>rs_ctx := set_variable variable error_json (rs_ctx s3)\<rparr> else s3)"

definition enter_cleanup :: "json \<Rightarrow> frame_state \<Rightarrow> frame_state list \<Rightarrow> run_state \<Rightarrow> run_state" where
  "enter_cleanup error_json f fs s =
     sync_frames (s\<lparr>rs_frames :=
         f\<lparr>fr_state := jset ''propagate'' error_json (jset ''ids'' (id_array (try_finally_ids f))
             (jset ''phase'' (JStr ''finally'') (fr_state f))), fr_position := 0\<rparr> # fs,
       rs_cursor := front (try_finally_ids f)\<rparr>)"

fun route_error ::
  "'w env \<Rightarrow> workflow \<Rightarrow> captured_error \<Rightarrow> run_state \<Rightarrow> frame_state list \<Rightarrow> handled \<times> run_state" where
  "route_error env bp e s [] = (Unhandled, s)"
| "route_error env bp e s (f # fs) =
     (if fr_kind f = ''try'' \<and> try_phase f = ''body'' then
        (case catch_handlers bp f (ce_code e) of
           None \<Rightarrow> route_error env bp e s fs
         | Some handlers \<Rightarrow>
             if handlers \<noteq> [] then (Handled, enter_catch handlers (captured_to_json e) f fs s)
             else if try_finally_ids f \<noteq> [] then (Handled, enter_cleanup (captured_to_json e) f fs s)
             else handled_of (close_frame env bp
                    (s\<lparr>rs_frames := f # fs, rs_pending_error := captured_to_json e\<rparr>)))
      else if fr_kind f = ''loop'' \<and> jvalue_str ''on_item_error'' ''fail'' (fr_state f) \<noteq> ''fail'' then
        handled_of (snd (next_iteration_for env bp []
          (s\<lparr>rs_warnings := rs_warnings s @ [''loop '' @ quoted (fr_node f) @ '' skipped iteration ''
               @ int_str (jvalue_int ''index'' 0 (fr_state f)) @ '' after error ['' @ ce_code e @ ''] '' @ ce_message e]\<rparr>)))
      else route_error env bp e s fs)"

definition handle_error :: "'w env \<Rightarrow> workflow \<Rightarrow> captured_error \<Rightarrow> run_state \<Rightarrow> handled \<times> run_state" where
  "handle_error env bp e s =
     (let own = (if rs_current_node_id s = [] then None
                 else case find_node bp (rs_current_node_id s) of Some n \<Rightarrow> nd_on_error n | None \<Rightarrow> None)
      in case own of
           Some (c # cs) \<Rightarrow> (Handled, resolve_jump (c # cs) (set_local ''error'' (captured_to_json e) s))
         | _ \<Rightarrow> route_error env bp e s (rs_frames s))"

section \<open>Lemmas: what advancing leaves alone\<close>

definition same_run :: "run_state \<Rightarrow> run_state \<Rightarrow> bool" where
  "same_run s s' \<longleftrightarrow>
     rs_visits s' = rs_visits s \<and> rs_budget s' = rs_budget s \<and> rs_visited s' = rs_visited s \<and>
     m_variables (rs_ctx s') = m_variables (rs_ctx s) \<and> m_journal (rs_ctx s') = m_journal (rs_ctx s) \<and>
     length (rs_frames s') \<le> length (rs_frames s)"

lemma same_run_refl [simp]: "same_run s s"
  by (simp add: same_run_def)

lemma same_run_trans: "same_run a b \<Longrightarrow> same_run b c \<Longrightarrow> same_run a c"
  by (auto simp: same_run_def)

lemma resolve_jump_journal [frame_simps]: "m_journal (rs_ctx (resolve_jump t s)) = m_journal (rs_ctx s)"
  by (simp add: resolve_jump_def Let_def frame_simps split: option.split list.split)

lemma same_run_resolve_jump: "same_run s (resolve_jump t s)"
  by (simp add: same_run_def frame_simps resolve_jump_length)

lemma same_run_close_top: "length fs \<le> length (rs_frames s) \<Longrightarrow> same_run s (close_top f fs s)"
  by (simp add: same_run_def close_top_def frame_simps)

lemma same_run_release: "same_run s (release_error f s)"
  by (simp add: same_run_def release_error_def frame_simps split: option.split)

lemma release_error_frame [frame_simps]: "rs_frames (release_error f s) = rs_frames s"
  by (simp add: release_error_def frame_simps split: option.split)

lemma same_run_enter_finally: "length (rs_frames s) = Suc (length fs) \<Longrightarrow> same_run s (enter_finally f fs s)"
  by (simp add: same_run_def enter_finally_def frame_simps)

lemma same_run_loop_over: "length fs \<le> length (rs_frames s) \<Longrightarrow> same_run s (loop_over f fs s)"
  by (simp add: same_run_def loop_over_def frame_simps)

lemma same_run_loop_again: "length (rs_frames s) = Suc (length fs) \<Longrightarrow> same_run s (loop_again i f fs s)"
  by (simp add: same_run_def loop_again_def Let_def frame_simps)

lemma same_run_warn: "same_run s (s\<lparr>rs_warnings := ws\<rparr>)"
  by (simp add: same_run_def)

lemma same_run_loop_decide:
  assumes "rs_frames s = f # fs"
  shows "case loop_decide env bp f fs s of
      LoopThrows e s1 \<Rightarrow> same_run s s1 | LoopAgain s1 \<Rightarrow> same_run s s1 | LoopOver i s1 \<Rightarrow> same_run s s1"
proof -
  have w: "same_run s s1 \<Longrightarrow> same_run (s\<lparr>rs_warnings := ws\<rparr>) s1 \<Longrightarrow> True" for s1 ws by simp
  have over: "same_run s (loop_over f fs (s\<lparr>rs_warnings := ws\<rparr>))" "same_run s (loop_over f fs s)" for ws
    using assms same_run_loop_over [of fs "s\<lparr>rs_warnings := ws\<rparr>" f] same_run_loop_over [of fs s f]
      same_run_trans [OF same_run_warn] by simp_all
  have again: "same_run s (loop_again i f fs (s\<lparr>rs_warnings := ws\<rparr>))" "same_run s (loop_again i f fs s)" for i ws
    using assms same_run_loop_again [of "s\<lparr>rs_warnings := ws\<rparr>" fs i f] same_run_loop_again [of s fs i f]
      same_run_trans [OF same_run_warn] by simp_all
  show ?thesis
    unfolding loop_decide_def Let_def
    by (auto simp: over again same_run_warn split: option.split node_body.split sum.split bool.split)
qed

lemma same_run_advance_top: "same_run s (advance_top bp c s)"
  by (simp add: same_run_def advance_top_def complete_def split: option.split)

lemma advance_same_run: "same_run s (snd (advance env bp current s))"
proof (induction env bp current s rule: advance.induct)
  case (1 env bp current s)
  show ?case
  proof (cases "rs_frames s")
    case Nil
    then show ?thesis by (simp add: advance.simps [of env bp current s] same_run_advance_top)
  next
    case (Cons f fs)
    note IH = "1.IH" [OF Cons]
    show ?thesis
    proof (cases "escape_target bp f current")
      case (Some t)
      with Cons show ?thesis by (simp add: advance.simps [of env bp current s] same_run_resolve_jump)
    next
      case esc: None
      show ?thesis
      proof (cases "sibling f current")
        case (Some p)
        with Cons esc show ?thesis
          by (cases p) (simp add: advance.simps [of env bp current s] same_run_def frame_simps)
      next
        case sib: None
        note IH = IH [OF esc sib]
        note unf = advance.simps [of env bp current s] Cons esc sib
        consider (fin) "fr_kind f = ''try''" "finally_pending f" | (close) "fr_kind f = ''try''" "\<not> finally_pending f"
          | (loop) "fr_kind f = ''loop''" | (branch) "fr_kind f = ''branch''"
          | (other) "fr_kind f \<noteq> ''try''" "fr_kind f \<noteq> ''loop''" "fr_kind f \<noteq> ''branch''" by blast
        then show ?thesis
        proof cases
          case fin
          have e: "same_run s (enter_finally f fs s)" by (rule same_run_enter_finally) (simp add: Cons)
          with fin IH(1) [OF fin refl] show ?thesis
            by (auto simp: unf Let_def intro: same_run_trans)
        next
          case close
          let ?c = "close_top f fs (release_error f s)"
          have c: "same_run s ?c"
            using same_run_trans [OF same_run_release same_run_close_top, of fs f s f] Cons by (simp add: frame_simps)
          obtain r s1 where r: "advance env bp (fr_node f) ?c = (r, s1)" by fastforce
          have s1: "same_run s s1" using same_run_trans [OF c IH(2) [OF close]] r by simp
          show ?thesis
            using close r s1 IH(3) [OF close r [symmetric]] same_run_trans [OF s1]
            by (cases r) (auto simp: unf)
        next
          case loop
          with same_run_loop_decide [OF Cons, of env bp] IH(4) show ?thesis
            by (cases "loop_decide env bp f fs s") (auto simp: unf intro: same_run_trans)
        next
          case branch
          then show ?thesis by (simp add: unf same_run_def branch_end_def)
        next
          case other
          have p: "same_run s (sync_frames (s\<lparr>rs_frames := fs\<rparr>))" by (simp add: same_run_def frame_simps Cons)
          then have "same_run s (sync_frames (s\<lparr>rs_frames := fs\<rparr>)\<lparr>rs_cursor := c\<rparr>)" for c
            by (simp add: same_run_def)
          with other p IH(5) [OF other refl] show ?thesis
            by (auto simp: unf Let_def intro: same_run_trans)
        qed
      qed
    qed
  qed
qed

lemma advance_length: "length (rs_frames (snd (advance env bp current s))) \<le> length (rs_frames s)"
  using advance_same_run [of s env bp current] by (simp add: same_run_def)

lemma advance_try_phase_close:
  "rs_frames s = f # fs \<Longrightarrow> fr_kind f = ''try'' \<Longrightarrow> \<not> finally_pending f \<Longrightarrow>
   advance_try_phase env bp s = advance env bp (fr_node f) (close_top f fs (release_error f s))"
  by (simp add: advance_try_phase_def close_frame_def frame_simps)

lemma next_iteration_top:
  assumes "rs_frames s = f # fs" and "fr_kind f = ''loop''"
  shows "snd (next_iteration_for env bp [] s) =
    (case loop_decide env bp f fs s of
       LoopThrows e s1 \<Rightarrow> (Some e, s1) | LoopAgain s1 \<Rightarrow> (None, s1) | LoopOver owner s1 \<Rightarrow> advance env bp owner s1)"
proof -
  have e: "s\<lparr>rs_frames := f # fs\<rparr> = s" using assms(1) by (cases s) simp
  with assms show ?thesis
    by (simp add: e next_iteration_for_def loop_frame_def split: loop_decision.split)
qed

text \<open>The equation of the source: the guard of the nested call is gone.\<close>

lemma advance_unfold:
  "advance env bp current s =
     (case rs_frames s of
        [] \<Rightarrow> (None, advance_top bp current s)
      | f # fs \<Rightarrow>
          (case escape_target bp f current of
             Some t \<Rightarrow> (None, resolve_jump t s)
           | None \<Rightarrow>
          (case sibling f current of
             Some (i, nx) \<Rightarrow>
               (None, sync_frames (s\<lparr>rs_frames := f\<lparr>fr_position := int i\<rparr> # fs, rs_cursor := nx\<rparr>))
           | None \<Rightarrow>
               if fr_kind f = ''try'' then
                 (case advance_try_phase env bp s of
                    (Some e, s1) \<Rightarrow> (Some e, s1)
                  | (None, s1) \<Rightarrow>
                      if rs_cursor s1 \<noteq> [] \<or> rs_finished s1 then (None, s1) else advance env bp (fr_node f) s1)
               else if fr_kind f = ''loop'' then snd (next_iteration_for env bp [] s)
               else if fr_kind f = ''branch'' then
                 (None, branch_end (index_of_id (frame_ids f) current \<noteq> None) s)
               else
                 (let s1 = sync_frames (s\<lparr>rs_frames := fs\<rparr>)
                  in if fr_resume f \<noteq> [] then (None, s1\<lparr>rs_cursor := fr_resume f\<rparr>)
                     else advance env bp (fr_node f) s1))))"
proof (cases "rs_frames s")
  case (Cons f fs)
  note unf = advance.simps [of env bp current s] Cons
  show ?thesis
  proof (cases "escape_target bp f current = None \<and> sibling f current = None")
    case True
    consider (fin) "fr_kind f = ''try''" "finally_pending f" | (close) "fr_kind f = ''try''" "\<not> finally_pending f"
      | (loop) "fr_kind f = ''loop''" | (other) "fr_kind f \<noteq> ''try''" "fr_kind f \<noteq> ''loop''" by blast
    then show ?thesis
    proof cases
      case fin
      with True show ?thesis by (simp add: unf advance_try_phase_def Let_def)
    next
      case close
      have "length (rs_frames (snd (advance_try_phase env bp s))) \<le> length fs"
        using advance_length [of env bp "fr_node f" "close_top f fs (release_error f s)"]
        by (simp add: advance_try_phase_close [OF Cons close])
      with True close show ?thesis
        by (auto simp: unf advance_try_phase_close [OF Cons close] split: prod.split option.split)
    next
      case loop
      with True show ?thesis by (simp add: unf next_iteration_top [OF Cons loop])
    next
      case other
      with True show ?thesis by (simp add: unf)
    qed
  next
    case False
    then show ?thesis by (cases "escape_target bp f current") (auto simp: unf split: option.split)
  qed
qed (simp add: advance.simps)

section \<open>Lemmas: error routing\<close>

definition same_visits :: "run_state \<Rightarrow> run_state \<Rightarrow> bool" where
  "same_visits s s' \<longleftrightarrow> rs_visits s' = rs_visits s \<and> rs_budget s' = rs_budget s \<and> rs_visited s' = rs_visited s \<and>
     length (rs_frames s') \<le> length (rs_frames s)"

lemma same_visits_run: "same_run s s' \<Longrightarrow> same_visits s s'"
  by (simp add: same_run_def same_visits_def)

lemma same_visits_trans: "same_visits a b \<Longrightarrow> same_visits b c \<Longrightarrow> same_visits a c"
  by (auto simp: same_visits_def)

lemma close_frame_same_run: "same_run s (snd (close_frame env bp s))"
proof (cases "rs_frames s")
  case (Cons f fs)
  then show ?thesis
    using same_run_trans [OF same_run_close_top [of fs s f] advance_same_run] by (simp add: close_frame_def)
qed (simp add: close_frame_def same_run_def complete_def)

lemma next_iteration_same_run: "same_run s (snd (snd (next_iteration_for env bp l s)))"
proof (cases "unwind_to (loop_frame l) (rs_frames s)")
  case (Some gs)
  then obtain f fs where gs: "gs = f # fs" using unwind_to_Some by blast
  let ?s = "s\<lparr>rs_frames := f # fs\<rparr>"
  have s: "same_run s ?s" using unwind_to_length [OF Some] gs by (simp add: same_run_def)
  have "same_run ?s (snd (case loop_decide env bp f fs ?s of
      LoopThrows e s1 \<Rightarrow> (Some e, s1) | LoopAgain s1 \<Rightarrow> (None, s1) | LoopOver i s1 \<Rightarrow> advance env bp i s1))"
    using same_run_loop_decide [of ?s f fs env bp]
    by (cases "loop_decide env bp f fs ?s") (auto intro: same_run_trans advance_same_run)
  then have "same_run s (snd (case loop_decide env bp f fs ?s of
      LoopThrows e s1 \<Rightarrow> (Some e, s1) | LoopAgain s1 \<Rightarrow> (None, s1) | LoopOver i s1 \<Rightarrow> advance env bp i s1))"
    by (rule same_run_trans [OF s])
  with Some gs show ?thesis by (cases "loop_decide env bp f fs ?s") (simp_all add: next_iteration_for_def)
qed (simp add: next_iteration_for_def)

lemma finish_loop_same_run: "same_run s (snd (snd (finish_loop env bp l s)))"
proof (cases "unwind_to (loop_frame l) (rs_frames s)")
  case (Some gs)
  then obtain f fs where gs: "gs = f # fs" using unwind_to_Some by blast
  have "same_run s (s\<lparr>rs_frames := f # fs\<rparr>)" using unwind_to_length [OF Some] gs by (simp add: same_run_def)
  from same_run_trans [OF this close_frame_same_run] Some gs show ?thesis by (simp add: finish_loop_def)
qed (simp add: finish_loop_def)

lemma enter_catch_frame [frame_simps]:
  "rs_visits (enter_catch h e f fs s) = rs_visits s" "rs_budget (enter_catch h e f fs s) = rs_budget s"
  "rs_visited (enter_catch h e f fs s) = rs_visited s" "rs_cursor (enter_catch h e f fs s) = front h"
  "rs_pending_error (enter_catch h e f fs s) = rs_pending_error s"
  "rs_finished (enter_catch h e f fs s) = rs_finished s"
  "length (rs_frames (enter_catch h e f fs s)) = Suc (length fs)"
  by (simp_all add: enter_catch_def Let_def frame_simps)

lemma enter_cleanup_frame [frame_simps]:
  "rs_visits (enter_cleanup e f fs s) = rs_visits s" "rs_budget (enter_cleanup e f fs s) = rs_budget s"
  "rs_visited (enter_cleanup e f fs s) = rs_visited s" "rs_cursor (enter_cleanup e f fs s) = front (try_finally_ids f)"
  "rs_pending_error (enter_cleanup e f fs s) = rs_pending_error s"
  "rs_finished (enter_cleanup e f fs s) = rs_finished s"
  "length (rs_frames (enter_cleanup e f fs s)) = Suc (length fs)"
  by (simp_all add: enter_cleanup_def Let_def frame_simps)

lemma route_error_same_visits:
  "length gs \<le> length (rs_frames s) \<Longrightarrow> same_visits s (snd (route_error env bp e s gs))"
proof (induction gs)
  case (Cons f fs)
  let ?p = "s\<lparr>rs_frames := f # fs, rs_pending_error := captured_to_json e\<rparr>"
  have close: "same_visits s (snd (close_frame env bp ?p))"
    using same_visits_run [OF close_frame_same_run [of ?p env bp]] Cons.prems by (auto simp: same_visits_def)
  have iter: "same_visits s (snd (snd (next_iteration_for env bp [] (s\<lparr>rs_warnings := ws\<rparr>))))" for ws
    using same_visits_run [OF next_iteration_same_run [of "s\<lparr>rs_warnings := ws\<rparr>" env bp "[]"]]
    by (auto simp: same_visits_def)
  have enter: "same_visits s (enter_catch h j f fs s)" "same_visits s (enter_cleanup j f fs s)" for h j
    using Cons.prems by (simp_all add: same_visits_def frame_simps)
  from Cons show ?case
    by (auto simp: handled_of_def close iter enter split: option.split)
qed (simp add: same_visits_def)

lemma handle_error_same_visits: "same_visits s (snd (handle_error env bp e s))"
proof -
  have "same_visits s (resolve_jump t (set_local k v s))" for t k v
    using resolve_jump_length [of t "set_local k v s"] by (simp add: same_visits_def frame_simps)
  then show ?thesis
    using route_error_same_visits [of "rs_frames s" s env bp e]
    by (auto simp: handle_error_def Let_def split: option.split list.split)
qed

section \<open>Which frame handles an error\<close>

definition handles :: "workflow \<Rightarrow> captured_error \<Rightarrow> frame_state \<Rightarrow> bool" where
  "handles bp e f \<longleftrightarrow>
     fr_kind f = ''try'' \<and> try_phase f = ''body'' \<and> catch_handlers bp f (ce_code e) \<noteq> None \<or>
     fr_kind f = ''loop'' \<and> jvalue_str ''on_item_error'' ''fail'' (fr_state f) \<noteq> ''fail''"

definition own_handler :: "workflow \<Rightarrow> run_state \<Rightarrow> string" where
  "own_handler bp s =
     (if rs_current_node_id s = [] then []
      else case find_node bp (rs_current_node_id s) of
             Some n \<Rightarrow> (case nd_on_error n of Some t \<Rightarrow> t | None \<Rightarrow> []) | None \<Rightarrow> [])"

lemma handle_error_own:
  "handle_error env bp e s =
     (if own_handler bp s \<noteq> [] then (Handled, resolve_jump (own_handler bp s) (set_local ''error'' (captured_to_json e) s))
      else route_error env bp e s (rs_frames s))"
  by (auto simp: handle_error_def own_handler_def Let_def split: option.splits list.splits)

lemma handled_of_not_unhandled [simp]: "fst (handled_of a) \<noteq> Unhandled"
  by (simp add: handled_of_def split: option.split)

lemma route_error_skips:
  "list_all (\<lambda>g. \<not> handles bp e g) inner \<Longrightarrow> route_error env bp e s (inner @ fs) = route_error env bp e s fs"
  by (induction inner) (auto simp: handles_def)

lemma route_error_handled: "handles bp e f \<Longrightarrow> fst (route_error env bp e s (f # fs)) \<noteq> Unhandled"
  by (auto simp: handles_def split: if_splits)

lemma route_error_unhandled_iff:
  "fst (route_error env bp e s fs) = Unhandled \<longleftrightarrow> list_all (\<lambda>f. \<not> handles bp e f) fs"
proof (induction fs)
  case (Cons f fs)
  show ?case
  proof (cases "handles bp e f")
    case False
    with Cons route_error_skips [of bp e "[f]" env s fs] show ?thesis by simp
  next
    case True
    then show ?thesis using route_error_handled [OF True, of env s fs] by (simp del: route_error.simps)
  qed
qed simp

lemma enter_catch_locals:
  assumes "is_object (rs_locals s)"
  shows "jget ''error'' (rs_locals (enter_catch h ej f fs s)) = Some ej"
  using assms by (simp add: enter_catch_def Let_def frame_simps set_local_def sync_frames_def json_simps)

lemma enter_catch_top:
  assumes "is_object (fr_state f)"
  shows "\<exists>f'. rs_frames (enter_catch h ej f fs s) = f' # fs \<and> fr_node f' = fr_node f \<and> fr_kind f' = fr_kind f \<and>
           try_phase f' = ''catch'' \<and> id_list (frame_ids f') = h \<and> try_finally_ids f' = try_finally_ids f"
  using assms
  by (simp add: enter_catch_def Let_def frame_simps try_phase_def frame_ids_def try_finally_ids_def jvalue_str_def json_simps)

text \<open>
  C4: An error goes to the innermost handler: when the failing node names no handler of its own and no frame inside
  the try frame \<open>f\<close> handles the code, the frames inside \<open>f\<close> are dropped, \<open>f\<close> enters its catch phase at the
  first handler with the cleanup body still to come, and the handlers see the error as the local \<open>error\<close>.
\<close>

theorem innermost_try_catches:
  assumes "own_handler bp s = []" and "rs_frames s = inner @ f # outer"
    and "list_all (\<lambda>g. \<not> handles bp e g) inner"
    and "fr_kind f = ''try''" and "try_phase f = ''body''" and "catch_handlers bp f (ce_code e) = Some (h # hs)"
    and "is_object (fr_state f)" and "is_object (rs_locals s)"
  shows "\<exists>s' f'. handle_error env bp e s = (Handled, s') \<and> rs_cursor s' = h \<and> rs_frames s' = f' # outer \<and>
           fr_node f' = fr_node f \<and> try_phase f' = ''catch'' \<and> id_list (frame_ids f') = h # hs \<and>
           try_finally_ids f' = try_finally_ids f \<and> jget ''error'' (rs_locals s') = Some (captured_to_json e)"
proof -
  let ?s = "enter_catch (h # hs) (captured_to_json e) f outer s"
  have "handle_error env bp e s = (Handled, ?s)"
    using assms(1-6) by (simp add: handle_error_own route_error_skips)
  moreover have "rs_cursor ?s = h" by (simp add: frame_simps front_def)
  ultimately show ?thesis
    using enter_catch_top [OF assms(7)] enter_catch_locals [OF assms(8)] by metis
qed

definition sample_error :: captured_error where
  "sample_error = \<lparr>ce_code = ''HTTP_ERROR'', ce_message = ''refused'', ce_node = ''call'', ce_data = JNull\<rparr>"

definition sample_try :: frame_state where
  "sample_try =
     \<lparr>fr_kind = ''try'', fr_node = ''guard'', fr_position = 0, fr_resume = [],
      fr_state = jobj [(''phase'', JStr ''body''), (''catch_ids'', id_array [''repair'']), (''finally_ids'', id_array [''close'']),
                       (''error_variable'', JStr ''error''), (''catch_when'', JObj []), (''ids'', id_array [''call''])]\<rparr>"

definition sample_body :: frame_state where
  "sample_body = \<lparr>fr_kind = ''body'', fr_node = ''if'', fr_position = 0, fr_resume = [], fr_state = JObj []\<rparr>"

theorem innermost_try_catches_witness:
  "\<forall>(env :: unit env) bp. \<exists>s' f'.
     handle_error env bp sample_error (new_run_state\<lparr>rs_frames := [sample_body, sample_try]\<rparr>) = (Handled, s') \<and>
     rs_cursor s' = ''repair'' \<and> rs_frames s' = f' # [] \<and> fr_node f' = ''guard'' \<and> try_phase f' = ''catch'' \<and>
     id_list (frame_ids f') = [''repair''] \<and> try_finally_ids f' = [''close''] \<and>
     jget ''error'' (rs_locals s') = Some (captured_to_json sample_error)"
proof (intro allI)
  fix env :: "unit env" and bp
  show "\<exists>s' f'.
     handle_error env bp sample_error (new_run_state\<lparr>rs_frames := [sample_body, sample_try]\<rparr>) = (Handled, s') \<and>
     rs_cursor s' = ''repair'' \<and> rs_frames s' = f' # [] \<and> fr_node f' = ''guard'' \<and> try_phase f' = ''catch'' \<and>
     id_list (frame_ids f') = [''repair''] \<and> try_finally_ids f' = [''close''] \<and>
     jget ''error'' (rs_locals s') = Some (captured_to_json sample_error)"
    using innermost_try_catches [where bp = bp and env = env and s = "new_run_state\<lparr>rs_frames := [sample_body, sample_try]\<rparr>"
        and inner = "[sample_body]" and f = sample_try and outer = "[]" and e = sample_error and h = "''repair''" and hs = "[]"]
    by (simp add: own_handler_def new_run_state_def handles_def sample_body_def sample_try_def sample_error_def
        catch_handlers_def try_phase_def try_finally_ids_def json_simps jvalue_def jvalue_str_def)
qed

text \<open>
  An error is uncaught exactly when nothing handles it: the failing node names no handler, and no live frame is
  a try in its body phase that accepts the code or a loop that skips failing items.  Then the state is unchanged.
\<close>

theorem uncaught_iff_no_handler:
  "fst (handle_error env bp e s) = Unhandled \<longleftrightarrow>
     own_handler bp s = [] \<and> list_all (\<lambda>f. \<not> handles bp e f) (rs_frames s)"
  by (simp add: handle_error_own route_error_unhandled_iff)

end
