(* ===== verification/Sapo_Interpreter.thy ===== *)
theory Sapo_Interpreter
  imports Sapo_Advance Sapo_Time
begin

text \<open>
  The main loop of \<open>runtime/Interpreter.cpp\<close>: activating a node with its retry policy, the control-flow
  nodes (\<open>stepLoop\<close>, \<open>stepTry\<close>, \<open>stepCondition\<close>, \<open>runParallel\<close>, with the decision functions of
  \<open>tasks/ControlFlowTasks.cpp\<close>), and \<open>drive\<close>.  One pass of the loop is \<open>drive_step\<close>; \<open>drive\<close> repeats it with
  fuel, because a parallel branch can reach its own parallel node again: the theory shows when some fuel
  is enough and that more fuel changes nothing.  \<open>steps\<close> is the same loop as a step relation, for the
  invariants.

  Not modelled: the log, metric and trace calls, and the length of a retry delay (the sink only sleeps).
  Parallel branches run one after the other, as the code does without a pool; each works on its own fork
  of the context, and the outcomes are combined in the order of the branches in both cases.
\<close>

section \<open>Activating a node\<close>

definition retryable :: "'w env \<Rightarrow> retry_policy \<Rightarrow> sapo_error \<Rightarrow> bool" where
  "retryable env p e =
     (if rp_retry_on p \<noteq> [] then
        (let status = (if is_object (se_data e) then en_dump env (jvalue ''status'' JNull (se_data e)) else [])
         in list_ex (\<lambda>needle. needle = error_code_string (se_code e) \<or> status \<noteq> [] \<and> needle = status) (rp_retry_on p))
      else
        se_code e = Http \<or> se_code e = Timeout \<or> se_code e = DataSourceErr \<or>
        se_code e = HttpStatus \<and> is_object (se_data e) \<and>
          (500 \<le> jvalue_int ''status'' 0 (se_data e) \<or> jvalue_int ''status'' 0 (se_data e) = 429))"

definition clear_resume :: "node \<Rightarrow> run_state \<Rightarrow> run_state" where
  "clear_resume n s =
     (if rs_resume_node_id s \<noteq> [] \<and> rs_resume_node_id s = nd_id n then
        (let s1 = s\<lparr>rs_resume_node_id := []\<rparr>
         in if is_object (rs_locals s1) then erase_local ''event'' (erase_local ''input'' s1) else s1)
      else s)"

text \<open>The attempts, counted by how many are left after the current one.\<close>

fun attempts ::
  "'w env \<Rightarrow> (exec \<Rightarrow> 'w \<Rightarrow> task_result \<times> ctx \<times> 'w) \<Rightarrow> node \<Rightarrow> retry_policy \<Rightarrow> nat \<Rightarrow> run_state \<Rightarrow> 'w
   \<Rightarrow> signal res \<times> run_state \<times> 'w" where
  "attempts env task n p left s w =
     (case task (make_execution s n) w of
        (Signals sig, c, w1) \<Rightarrow> (Inr sig, clear_resume n (s\<lparr>rs_ctx := c\<rparr>), w1)
      | (Fails e, c, w1) \<Rightarrow>
          (case left of
             Suc k \<Rightarrow> if retryable env p e then attempts env task n p k (s\<lparr>rs_ctx := c\<rparr>) w1
                      else (Inl e, s\<lparr>rs_ctx := c\<rparr>, w1)
           | 0 \<Rightarrow> (Inl e, s\<lparr>rs_ctx := c\<rparr>, w1))
      | (Crashes what, c, w1) \<Rightarrow>
          (Inl (sapo_error Internal (task_type_string (node_type n) @ '' node '' @ quoted (nd_id n)
                  @ '' failed unexpectedly: '' @ what) (JObj []) (nd_id n)), s\<lparr>rs_ctx := c\<rparr>, w1))"

declare attempts.simps [simp del]

definition activate_node :: "'w env \<Rightarrow> node \<Rightarrow> run_state \<Rightarrow> 'w \<Rightarrow> signal res \<times> run_state \<times> 'w" where
  "activate_node env n s w =
     (case en_task env (node_type n) of
        None \<Rightarrow>
          (Inl (sapo_error Internal (''no task implementation is registered for node type ''
                  @ quoted (task_type_string (node_type n))) (JObj []) (nd_id n)), s, w)
      | Some task \<Rightarrow>
          (let p = (case nd_retry n of Some p \<Rightarrow> p | None \<Rightarrow> default_retry)
           in attempts env task n p (nat (max 1 (rp_max_attempts p) - 1)) s w))"

section \<open>Loop, try, condition\<close>

definition json_type_name :: "json \<Rightarrow> string" where
  "json_type_name j = (case j of JNull \<Rightarrow> ''null'' | JBool _ \<Rightarrow> ''boolean'' | JInt _ \<Rightarrow> ''number''
     | JFloat _ \<Rightarrow> ''number'' | JStr _ \<Rightarrow> ''string'' | JArr _ \<Rightarrow> ''array'' | JObj _ \<Rightarrow> ''object'')"

definition count_space :: "char \<Rightarrow> bool" where
  "count_space c \<longleftrightarrow> c = CHR '' '' \<or> c = CHR 0x09 \<or> c = CHR 0x0A \<or> c = CHR 0x0D"

text \<open>The text form of a \<open>count\<close>: an optional sign, digits, a dot only in the second place.  Its value
  through \<open>strtod\<close> and the truncation to an integer.\<close>

definition numeric_count :: "string \<Rightarrow> int option" where
  "numeric_count t =
     (let body = rev (dropWhile count_space (rev (dropWhile count_space t)));
          signed = (body \<noteq> [] \<and> (hd body = CHR ''-'' \<or> hd body = CHR ''+''));
          u = (if signed then tl body else body);
          ip = takeWhile is_digit u; fp = takeWhile is_digit (drop (Suc (length ip)) u)
      in if u = [] \<or> \<not> list_all (\<lambda>(i, c). is_digit c \<or> i = 1 \<and> c = CHR ''.'') (enumerate 0 u) then None
         else Some ((if signed \<and> hd body = CHR ''-'' then - 1 else 1) * dbl_trunc (round_dbl (decimal_value ip fp))))"

definition count_items :: "int \<Rightarrow> json" where
  "count_items n = JArr (map (\<lambda>i. JInt (int i)) [0..<nat (dbl_trunc (round_dbl (of_int n)))])"

definition count_value :: "string \<Rightarrow> json \<Rightarrow> json res" where
  "count_value node_id v =
     (let bad = Inl (sapo_error Validation (''loop '' @ quoted ''count'' @ '' must resolve to a number, got ''
                       @ json_type_name v) (jobj [(''count'', v)]) node_id)
      in case v of
           JInt n \<Rightarrow> Inr (count_items n)
         | JFloat d \<Rightarrow> Inr (count_items (dbl_trunc d))
         | JStr t \<Rightarrow> (case numeric_count t of Some n \<Rightarrow> Inr (count_items n) | None \<Rightarrow> bad)
         | _ \<Rightarrow> bad)"

definition collection_value :: "json \<Rightarrow> json" where
  "collection_value v =
     (case v of JArr xs \<Rightarrow> JArr xs | JNull \<Rightarrow> JArr [] | JObj ob \<Rightarrow> JArr (map snd ob) | _ \<Rightarrow> JArr [v])"

definition loop_items :: "'w env \<Rightarrow> string \<Rightarrow> loop_node \<Rightarrow> exec \<Rightarrow> json res" where
  "loop_items env node_id l x =
     (if \<not> expression_empty (lp_count l) then
        (case en_eval env (lp_count l) x of Inl e \<Rightarrow> Inl e | Inr v \<Rightarrow> count_value node_id v)
      else if \<not> expression_empty (lp_collection l) then
        (case en_eval env (lp_collection l) x of Inl e \<Rightarrow> Inl e | Inr v \<Rightarrow> Inr (collection_value v))
      else Inr JNull)"

definition loop_frame_state :: "string \<Rightarrow> loop_node \<Rightarrow> json \<Rightarrow> json" where
  "loop_frame_state node_id l items =
     jobj [(''mode'', JStr (if is_null items then ''while'' else ''collection'')),
           (''items'', if is_null items then JArr [] else items), (''index'', JInt 0),
           (''total'', JInt (if is_null items then lp_max_iterations l else int (length (jitems items)))),
           (''max_iterations'', JInt (lp_max_iterations l)), (''iterator'', JStr (lp_iterator l)),
           (''index_variable'', JStr (lp_index l)), (''on_item_error'', JStr (lp_on_item_error l)),
           (''loop_id'', JStr node_id)]"

definition next_or_empty :: "node \<Rightarrow> string" where
  "next_or_empty n = (case nd_next n of Some t \<Rightarrow> t | None \<Rightarrow> [])"

definition step_loop :: "'w env \<Rightarrow> workflow \<Rightarrow> node \<Rightarrow> loop_node \<Rightarrow> run_state \<Rightarrow> signal res \<times> run_state" where
  "step_loop env bp n l s =
     (case find_node bp (nd_id n) of
        None \<Rightarrow> (Inl (sapo_error Routing ''loop node vanished from the workflow index'' (JObj []) (nd_id n)), s)
      | Some shared \<Rightarrow>
          (case loop_items env (nd_id n) l (make_execution s shared) of
             Inl e \<Rightarrow> (Inl e, s)
           | Inr items \<Rightarrow>
               if \<not> is_null items \<and> jitems items = [] then (Inr Continue, s)
               else
                 (let s1 = push_frame ''loop'' (nd_id n) (lp_body l) (next_or_empty n) (loop_frame_state (nd_id n) l items) s
                  in (Inr (JumpTo (front (lp_body l))), bind_iteration (hd (rs_frames s1)) s1))))"

definition try_frame_state :: "try_node \<Rightarrow> json" where
  "try_frame_state t =
     jobj [(''phase'', JStr ''body''), (''catch_ids'', id_array (ty_catch_body t)),
           (''finally_ids'', id_array (ty_finally_body t)), (''error_variable'', JStr (ty_error_variable t)),
           (''catch_when'', JObj (map (\<lambda>(k, v). (k, JStr v)) (ty_catch_when t)))]"

definition step_try :: "node \<Rightarrow> try_node \<Rightarrow> run_state \<Rightarrow> signal res \<times> run_state" where
  "step_try n t s =
     (Inr (JumpTo (front (ty_body t))),
      push_frame ''try'' (nd_id n) (ty_body t) (next_or_empty n) (try_frame_state t) s)"

record condition_branch =
  cb_taken :: bool
  cb_body :: "string list"
  cb_target :: string

definition condition_branch_of :: "'w env \<Rightarrow> condition_node \<Rightarrow> exec \<Rightarrow> condition_branch res" where
  "condition_branch_of env c x =
     (case en_eval_bool env (cn_expression c) x of
        Inl e \<Rightarrow> Inl e
      | Inr True \<Rightarrow> Inr \<lparr>cb_taken = True, cb_body = cn_then_body c, cb_target = cn_on_true c\<rparr>
      | Inr False \<Rightarrow> Inr \<lparr>cb_taken = False, cb_body = cn_else_body c,
                          cb_target = (case cn_on_false c of Some t \<Rightarrow> t | None \<Rightarrow> [])\<rparr>)"

definition step_condition :: "'w env \<Rightarrow> workflow \<Rightarrow> node \<Rightarrow> condition_node \<Rightarrow> run_state \<Rightarrow> signal res \<times> run_state" where
  "step_condition env bp n c s =
     (case find_node bp (nd_id n) of
        None \<Rightarrow> (Inl (sapo_error Routing ''condition node vanished from the workflow index'' (JObj []) (nd_id n)), s)
      | Some shared \<Rightarrow>
          (case condition_branch_of env c (make_execution s shared) of
             Inl e \<Rightarrow> (Inl e, s)
           | Inr b \<Rightarrow>
               if cb_body b \<noteq> [] then
                 (Inr (JumpTo (front (cb_body b))),
                  push_frame ''body'' (nd_id n) (cb_body b) (next_or_empty n)
                    (jobj [(''branch'', JStr (if cb_taken b then ''then'' else ''else''))]) s)
               else if cb_target b \<noteq> [] then (Inr (JumpTo (cb_target b)), s)
               else (Inr Continue, s)))"

section \<open>Parallel sections\<close>

record branch_outcome =
  bo_ran :: bool
  bo_fork :: ctx
  bo_changed :: "string set"
  bo_visited :: "string list"
  bo_visits :: nat
  bo_error :: json
  bo_terminate :: "(string \<times> json) option"
  bo_suspend_reason :: string

definition idle_outcome :: "ctx \<Rightarrow> branch_outcome" where
  "idle_outcome c = \<lparr>bo_ran = False, bo_fork = c, bo_changed = {}, bo_visited = [], bo_visits = 0,
     bo_error = JNull, bo_terminate = None, bo_suspend_reason = []\<rparr>"

definition branch_label :: "branch \<Rightarrow> nat \<Rightarrow> string" where
  "branch_label b i = (case br_label b of Some l \<Rightarrow> l | None \<Rightarrow> int_str (int i))"

definition branch_budget :: "'w env \<Rightarrow> run_state \<Rightarrow> nat" where
  "branch_budget env s =
     (let remaining = (if rs_budget s > rs_visits s then rs_budget s - rs_visits s else 1)
      in min (if en_max_branch_visits env = 0 then remaining else min remaining (en_max_branch_visits env)) remaining)"

definition branch_state :: "'w env \<Rightarrow> string \<Rightarrow> branch \<Rightarrow> nat \<Rightarrow> run_state \<Rightarrow> run_state" where
  "branch_state env node_id b i s =
     push_frame ''branch'' node_id (br_node_ids b) [] (jobj [(''branch_index'', JInt (int i))])
       (new_run_state\<lparr>rs_ctx := fork (rs_ctx s), rs_cursor := front (br_node_ids b),
          rs_session_id := rs_session_id s, rs_execution_id := rs_execution_id s @ ''#'' @ branch_label b i,
          rs_workflow_id := rs_workflow_id s, rs_depth := rs_depth s, rs_locals := rs_locals s,
          rs_data_sources := rs_data_sources s, rs_branch_mode := True, rs_budget := branch_budget env s\<rparr>)"

definition outcome_of :: "sapo_error option \<Rightarrow> run_state \<Rightarrow> branch_outcome" where
  "outcome_of thrown sub =
     \<lparr>bo_ran = True, bo_fork = rs_ctx sub, bo_changed = changed_since 0 (rs_ctx sub),
      bo_visited = rs_visited sub, bo_visits = rs_visits sub,
      bo_error =
        (if rs_error sub \<noteq> [] then
           (let j = jobj [(''code'', JStr (rs_error_code sub)), (''message'', JStr (rs_error sub)),
                          (''node'', JStr (rs_error_node sub))]
            in if is_null (rs_error_data sub) then j else jset ''data'' (rs_error_data sub) j)
         else case thrown of Some e \<Rightarrow> captured_to_json (captured_from e) | None \<Rightarrow> JNull),
      bo_terminate = (if rs_status sub = ''terminated'' \<or> rs_status sub = ''failed-by-terminate''
                      then Some (rs_terminate_status sub, rs_terminate_payload sub) else None),
      bo_suspend_reason = (if rs_status sub = ''awaiting_input'' \<or> rs_status sub = ''suspended'' then rs_status sub
                           else [])\<rparr>"

type_synonym 'w driven = "(sapo_error option \<times> run_state \<times> 'w) option"

fun run_branches ::
  "(run_state \<Rightarrow> 'w \<Rightarrow> 'w driven) \<Rightarrow> 'w env \<Rightarrow> string \<Rightarrow> run_state \<Rightarrow> nat \<Rightarrow> branch list \<Rightarrow> 'w
   \<Rightarrow> (branch_outcome list \<times> 'w) option" where
  "run_branches drv env node_id s i [] w = Some ([], w)"
| "run_branches drv env node_id s i (b # bs) w =
     (if br_node_ids b = [] then
        (case run_branches drv env node_id s (Suc i) bs w of
           None \<Rightarrow> None | Some (os, w1) \<Rightarrow> Some (idle_outcome (fork (rs_ctx s)) # os, w1))
      else
        (case drv (branch_state env node_id b i s) w of
           None \<Rightarrow> None
         | Some (thrown, sub, w1) \<Rightarrow>
             (case run_branches drv env node_id s (Suc i) bs w1 of
                None \<Rightarrow> None | Some (os, w2) \<Rightarrow> Some (outcome_of thrown sub # os, w2))))"

fun merge_policy_of :: "string \<Rightarrow> merge_policy" where
  "merge_policy_of name =
     (if name = ''skip_conflicts'' then SkipConflicts
      else if name = ''fail_conflicts'' then FailConflicts else LastWriterWins)"

text \<open>The join, branch by branch: the error that ends it or the conflicts so far.\<close>

fun join_outcomes ::
  "node \<Rightarrow> parallel_node \<Rightarrow> nat \<Rightarrow> (branch \<times> branch_outcome) list \<Rightarrow> string list \<Rightarrow> run_state
   \<Rightarrow> string list res \<times> run_state" where
  "join_outcomes n p i [] conflicts s = (Inr conflicts, s)"
| "join_outcomes n p i ((b, out) # r) conflicts s =
     (if \<not> is_null (bo_error out) \<and> pn_fail_fast p then
        (Inl (sapo_error CapabilityErr (''parallel branch '' @ quoted (branch_label b i) @ '' failed: ''
                @ jvalue_str ''message'' [] (bo_error out)) (jvalue ''data'' JNull (bo_error out))
                (jvalue_str ''node'' (nd_id n) (bo_error out))), s)
      else if bo_suspend_reason out \<noteq> [] then
        (Inl (sapo_error Validation (''a parallel branch cannot suspend ('' @ bo_suspend_reason out
                @ ''); move the wait or prompt outside the parallel section'') (jobj [(''branch'', JInt (int i))]) (nd_id n)), s)
      else if \<not> bo_ran out \<or> bo_changed out = {} then join_outcomes n p (Suc i) r conflicts s
      else
        (case merge_from (bo_fork out) (bo_changed out) (merge_policy_of (pn_merge_policy p)) (rs_ctx s) of
           (c, cs) \<Rightarrow>
             join_outcomes n p (Suc i) r (conflicts @ cs)
               (s\<lparr>rs_ctx := c, rs_visits := rs_visits s + bo_visits out, rs_visited := rs_visited s @ bo_visited out\<rparr>)))"

fun settle_outcomes :: "parallel_node \<Rightarrow> branch_outcome list \<Rightarrow> run_state \<Rightarrow> run_state" where
  "settle_outcomes p [] s = s"
| "settle_outcomes p (out # r) s =
     (let s1 = (if \<not> is_null (bo_error out) \<and> \<not> pn_fail_fast p then
                  s\<lparr>rs_warnings := rs_warnings s @ [''parallel branch failed (fail_fast=false): ''
                      @ jvalue_str ''message'' [] (bo_error out)]\<rparr>
                else s)
      in case bo_terminate out of
           Some (status, payload) \<Rightarrow>
             s1\<lparr>rs_terminate_payload := payload, rs_terminate_status := status,
                rs_status := (if status = ''success'' then ''terminated'' else ''failed''), rs_finished := True\<rparr>
         | None \<Rightarrow> settle_outcomes p r s1)"

definition run_parallel ::
  "(run_state \<Rightarrow> 'w \<Rightarrow> 'w driven) \<Rightarrow> 'w env \<Rightarrow> node \<Rightarrow> parallel_node \<Rightarrow> run_state \<Rightarrow> 'w
   \<Rightarrow> (signal res \<times> run_state \<times> 'w) option" where
  "run_parallel drv env n p s w =
     (case run_branches drv env (nd_id n) s 0 (pn_branches p) w of
        None \<Rightarrow> None
      | Some (outs, w1) \<Rightarrow>
          Some
            (case join_outcomes n p 0 (zip (pn_branches p) outs) [] s of
               (Inl e, s1) \<Rightarrow> (Inl e, s1, w1)
             | (Inr conflicts, s1) \<Rightarrow>
                 if conflicts \<noteq> [] \<and> merge_policy_of (pn_merge_policy p) = FailConflicts then
                   (Inl (sapo_error Validation (''parallel branches wrote the same context keys (''
                           @ quoted (pn_merge_policy p) @ '')'') (jobj [(''conflicts'', id_array conflicts)]) (nd_id n)), s1, w1)
                 else (Inr Continue, settle_outcomes p outs s1, w1)))"

section \<open>One pass of the loop\<close>

datatype 'w pass = Next run_state 'w | Halt run_state 'w | Escapes sapo_error run_state 'w

definition fail_run :: "string \<Rightarrow> string \<Rightarrow> string \<Rightarrow> json \<Rightarrow> run_state \<Rightarrow> run_state" where
  "fail_run code message node_id data s =
     s\<lparr>rs_status := ''failed'', rs_error := message, rs_error_code := code, rs_error_node := node_id,
       rs_error_data := data, rs_finished := True\<rparr>"

definition on_error_pass :: "handled \<times> run_state \<Rightarrow> (run_state \<Rightarrow> run_state) \<Rightarrow> 'w \<Rightarrow> 'w pass" where
  "on_error_pass h unhandled w =
     (case h of
        (Handled, s) \<Rightarrow> Next s w
      | (HandlerThrows e, s) \<Rightarrow> Escapes e s w
      | (Unhandled, s) \<Rightarrow> Halt (unhandled s) w)"

definition advanced_pass :: "advanced \<Rightarrow> 'w \<Rightarrow> 'w pass" where
  "advanced_pass a w = (case a of (None, s) \<Rightarrow> Next s w | (Some e, s) \<Rightarrow> Escapes e s w)"

text \<open>The suspend request the checkpoint carries, and where the session continues.\<close>

definition suspend_json :: "suspend_request \<Rightarrow> json" where
  "suspend_json q =
     (let j = jobj [(''reason'', JStr (sr_reason q)), (''node'', JStr (sr_node q)),
                    (''input_variable'', JStr (sr_input_variable q)), (''prompt'', sr_prompt q),
                    (''data'', sr_data q)];
          j1 = (case sr_resume_at q of Some t \<Rightarrow> jset ''resume_at_ms'' (JInt t) j | None \<Rightarrow> j);
          j2 = (case sr_timeout q of Some t \<Rightarrow> jset ''timeout_ms'' (JInt t) j1 | None \<Rightarrow> j1)
      in case sr_event_name q of Some e \<Rightarrow> jset ''event_name'' (JStr e) j2 | None \<Rightarrow> j2)"

definition resume_cursor :: "node \<Rightarrow> suspend_request \<Rightarrow> string" where
  "resume_cursor n q =
     (let c = (if sr_resume_node q \<noteq> [] then sr_resume_node q
               else if sr_reason q = ''input'' then nd_id n else next_or_empty n)
      in if c = [] \<and> sr_reason q = ''timer'' \<and> jvalue_str ''await_condition'' [] (sr_data q) \<noteq> [] then nd_id n
         else c)"

definition suspend_run :: "node \<Rightarrow> suspend_request \<Rightarrow> run_state \<Rightarrow> run_state" where
  "suspend_run n q s =
     s\<lparr>rs_suspend_request := suspend_json q,
       rs_status := (if sr_reason q = ''input'' then ''awaiting_input'' else ''suspended''),
       rs_suspend_cursor := resume_cursor n q, rs_cursor := resume_cursor n q, rs_finished := True\<rparr>"

definition terminate_run :: "node \<Rightarrow> terminate_signal \<Rightarrow> run_state \<Rightarrow> run_state" where
  "terminate_run n t s =
     (let payload = (case tm_message t of
                       Some m \<Rightarrow> if m \<noteq> [] then jset ''message'' (JStr m) (tm_payload t) else tm_payload t
                     | None \<Rightarrow> tm_payload t);
          s1 = s\<lparr>rs_terminate_status := tm_status t, rs_terminate_payload := payload,
                 rs_status := (if tm_status t = ''success'' then ''terminated'' else ''failed''), rs_finished := True\<rparr>
      in if tm_status t \<noteq> ''success'' then
           s1\<lparr>rs_error_code := (case tm_error_code t of Some c \<Rightarrow> c | None \<Rightarrow> ''WORKFLOW_FAILED''),
              rs_error := (case tm_message t of Some m \<Rightarrow> m
                           | None \<Rightarrow> ''workflow terminated with status '' @ quoted (tm_status t)),
              rs_error_node := nd_id n\<rparr>
         else s1)"

definition loop_control_pass :: "string \<Rightarrow> node \<Rightarrow> bool \<times> advanced \<Rightarrow> 'w \<Rightarrow> 'w pass" where
  "loop_control_pass word n r w =
     (case r of
        (True, a) \<Rightarrow> advanced_pass a w
      | (False, _, s) \<Rightarrow>
          Halt (s\<lparr>rs_status := ''failed'', rs_error_code := ''ROUTING_ERROR'',
                  rs_error := quoted word @ '' node '' @ quoted (nd_id n) @ '' is not inside a loop'',
                  rs_error_node := nd_id n, rs_finished := True\<rparr>) w)"

definition option_text :: "string option \<Rightarrow> string" where
  "option_text t = (case t of Some x \<Rightarrow> x | None \<Rightarrow> [])"

definition signal_pass :: "'w env \<Rightarrow> workflow \<Rightarrow> node \<Rightarrow> signal \<Rightarrow> run_state \<Rightarrow> 'w \<Rightarrow> 'w pass" where
  "signal_pass env bp n sig s w =
     (if rs_finished s then Halt s w
      else case sig of
        JumpTo t \<Rightarrow> Next (resolve_jump t s) w
      | Suspend q \<Rightarrow> Halt (suspend_run n q s) w
      | Terminate t \<Rightarrow> Halt (terminate_run n t s) w
      | LoopBreak l \<Rightarrow> loop_control_pass ''break'' n (finish_loop env bp (option_text l) s) w
      | LoopContinue l \<Rightarrow> loop_control_pass ''continue'' n (next_iteration_for env bp (option_text l) s) w
      | Continue \<Rightarrow> advanced_pass (advance_after_node env bp s) w)"

text \<open>What the node does: its signal or error, the state, the world; \<open>None\<close> when a branch of a parallel
  section has run out of fuel.\<close>

definition perform ::
  "(run_state \<Rightarrow> 'w \<Rightarrow> 'w driven) \<Rightarrow> 'w env \<Rightarrow> workflow \<Rightarrow> node \<Rightarrow> run_state \<Rightarrow> 'w
   \<Rightarrow> (signal res \<times> run_state \<times> 'w) option" where
  "perform drv env bp n s w =
     (case nd_body n of
        Loop l \<Rightarrow> Some (case step_loop env bp n l s of (r, s1) \<Rightarrow> (r, s1, w))
      | Try t \<Rightarrow> Some (case step_try n t s of (r, s1) \<Rightarrow> (r, s1, w))
      | Condition c \<Rightarrow> Some (case step_condition env bp n c s of (r, s1) \<Rightarrow> (r, s1, w))
      | Parallel p \<Rightarrow> run_parallel drv env n p s w
      | _ \<Rightarrow> Some (activate_node env n s w))"

definition budget_message :: "nat \<Rightarrow> string" where
  "budget_message budget =
     ''execution budget of '' @ int_str (int budget)
     @ '' node activations exceeded (blueprint has a runaway loop; set max_iterations or max_node_visits)''"

definition node_pass ::
  "(run_state \<Rightarrow> 'w \<Rightarrow> 'w driven) \<Rightarrow> 'w env \<Rightarrow> workflow \<Rightarrow> node \<Rightarrow> run_state \<Rightarrow> 'w \<Rightarrow> 'w pass option" where
  "node_pass drv env bp n s w =
     (let s1 = s\<lparr>rs_current_node_id := nd_id n, rs_visits := Suc (rs_visits s)\<rparr>
      in if rs_visits s1 > rs_budget s1 then
           Some (Halt (s1\<lparr>rs_status := ''failed'', rs_error_code := ''LIMIT_EXCEEDED'',
                          rs_error := budget_message (rs_budget s1), rs_error_node := nd_id n, rs_finished := True\<rparr>) w)
         else
           (let s2 = s1\<lparr>rs_visited := rs_visited s1 @ [nd_id n]\<rparr>
            in if \<not> nd_enabled n then Some (advanced_pass (advance_after_node env bp s2) w)
               else
                 (case perform drv env bp n s2 w of
                    None \<Rightarrow> None
                  | Some (Inl e, s3, w1) \<Rightarrow>
                      Some (on_error_pass (handle_error env bp (captured_from e) s3)
                              (fail_run (error_code_string (se_code e)) (se_message e)
                                 (if se_node e = [] then nd_id n else se_node e) (se_data e)) w1)
                  | Some (Inr sig, s3, w1) \<Rightarrow> Some (signal_pass env bp n sig s3 w1))))"

definition routing_error :: "string \<Rightarrow> string \<Rightarrow> captured_error" where
  "routing_error cursor current =
     \<lparr>ce_code = ''ROUTING_ERROR'', ce_message = ''control reached unknown node id '' @ quoted cursor,
      ce_node = current, ce_data = JNull\<rparr>"

definition drive_step ::
  "(run_state \<Rightarrow> 'w \<Rightarrow> 'w driven) \<Rightarrow> 'w env \<Rightarrow> workflow \<Rightarrow> run_state \<Rightarrow> 'w \<Rightarrow> 'w pass option" where
  "drive_step drv env bp s w =
     (if \<not> is_null (rs_pending_error s) then
        (let e = captured_from_json (rs_pending_error s)
         in Some (on_error_pass (handle_error env bp e (s\<lparr>rs_pending_error := JNull\<rparr>))
                    (fail_run (ce_code e) (ce_message e) (ce_node e) (ce_data e)) w))
      else if rs_cursor s = [] then
        Some (Halt (s\<lparr>rs_status := (if rs_status s = ''running'' then ''completed'' else rs_status s),
                      rs_finished := True\<rparr>) w)
      else case find_node bp (rs_cursor s) of
        None \<Rightarrow>
          (let e = routing_error (rs_cursor s) (rs_current_node_id s)
           in Some (on_error_pass (handle_error env bp e (s\<lparr>rs_cursor := []\<rparr>))
                      (\<lambda>s1. s1\<lparr>rs_status := ''failed'', rs_error := ce_message e, rs_error_code := ce_code e,
                               rs_finished := True\<rparr>) w))
      | Some n \<Rightarrow> node_pass drv env bp n s w)"

fun drive :: "nat \<Rightarrow> 'w env \<Rightarrow> workflow \<Rightarrow> run_state \<Rightarrow> 'w \<Rightarrow> 'w driven" where
  "drive 0 env bp s w = (if rs_finished s then Some (None, s, w) else None)"
| "drive (Suc fuel) env bp s w =
     (if rs_finished s then Some (None, s, w)
      else case drive_step (drive fuel env bp) env bp s w of
             None \<Rightarrow> None
           | Some (Next s1 w1) \<Rightarrow> drive fuel env bp s1 w1
           | Some (Halt s1 w1) \<Rightarrow> Some (None, s1, w1)
           | Some (Escapes e s1 w1) \<Rightarrow> Some (Some e, s1, w1))"

declare drive.simps [simp del]

section \<open>More fuel changes nothing\<close>

lemma run_branches_mono:
  assumes "\<And>s w r. drv s w = Some r \<Longrightarrow> drv' s w = Some r"
    and "run_branches drv env i s k bs w = Some r"
  shows "run_branches drv' env i s k bs w = Some r"
  using assms(2)
proof (induction bs arbitrary: k w r)
  case (Cons b bs)
  then show ?case
    by (auto split: if_splits option.splits prod.splits dest!: assms(1))
qed simp

lemma perform_mono:
  assumes "\<And>s w r. drv s w = Some r \<Longrightarrow> drv' s w = Some r" and "perform drv env bp n s w = Some r"
  shows "perform drv' env bp n s w = Some r"
proof (cases "nd_body n")
  case (Parallel p)
  with assms(2) have r: "run_parallel drv env n p s w = Some r" by (simp add: perform_def)
  then obtain os w1 where "run_branches drv env (nd_id n) s 0 (pn_branches p) w = Some (os, w1)"
    by (auto simp: run_parallel_def split: option.splits)
  from this run_branches_mono [OF assms(1) this] r Parallel show ?thesis
    by (simp add: perform_def run_parallel_def)
qed (use assms(2) in \<open>simp_all add: perform_def\<close>)

lemma drive_step_mono:
  assumes "\<And>s w r. drv s w = Some r \<Longrightarrow> drv' s w = Some r" and "drive_step drv env bp s w = Some r"
  shows "drive_step drv' env bp s w = Some r"
proof -
  have "node_pass drv env bp n s w = Some r \<Longrightarrow> node_pass drv' env bp n s w = Some r" for n
    unfolding node_pass_def Let_def
    by (auto split: if_splits option.splits simp: perform_mono [OF assms(1), where drv = drv])
  with assms(2) show ?thesis
    by (auto simp: drive_step_def Let_def split: if_splits option.splits)
qed

lemma drive_mono: "drive fuel env bp s w = Some r \<Longrightarrow> drive (fuel + k) env bp s w = Some r"
proof (induction fuel arbitrary: s w r k)
  case 0
  then show ?case by (cases k) (auto simp: drive.simps split: if_splits)
next
  case (Suc fuel)
  show ?case
  proof (cases "rs_finished s")
    case False
    with Suc.prems obtain p where p: "drive_step (drive fuel env bp) env bp s w = Some p"
      by (auto simp: drive.simps split: option.splits)
    have "drive_step (drive (fuel + k) env bp) env bp s w = Some p"
      by (rule drive_step_mono [OF _ p]) (rule Suc.IH)
    with False p Suc.prems Suc.IH show ?thesis by (auto simp: drive.simps split: pass.splits)
  qed (use Suc.prems in \<open>simp add: drive.simps\<close>)
qed

section \<open>How often a task runs\<close>

text \<open>A task that counts its own runs in the world it works on.\<close>

definition counted ::
  "(exec \<Rightarrow> 'w \<Rightarrow> task_result \<times> ctx \<times> 'w) \<Rightarrow> exec \<Rightarrow> nat \<times> 'w \<Rightarrow> task_result \<times> ctx \<times> (nat \<times> 'w)" where
  "counted task x kw = (case kw of (k, w) \<Rightarrow> (case task x w of (r, c, w1) \<Rightarrow> (r, c, (Suc k, w1))))"

definition crashes :: "(exec \<Rightarrow> 'w \<Rightarrow> task_result \<times> ctx \<times> 'w) \<Rightarrow> bool" where
  "crashes task \<longleftrightarrow> (\<exists>x w what. fst (task x w) = Crashes what)"

lemma attempts_counted:
  assumes "attempts env (counted task) n p left s (k, w) = (r, s1, (k1, w1))"
  shows "k < k1 \<and> k1 \<le> k + Suc left \<and> (\<not> crashes task \<and> r = Inl e \<and> retryable env p e \<longrightarrow> k1 = k + Suc left)"
  using assms
proof (induction left arbitrary: s k w)
  case 0
  obtain r0 c w0 where t: "task (make_execution s n) w = (r0, c, w0)" by (metis prod_cases3)
  then have "\<not> crashes task \<longrightarrow> (\<forall>what. r0 \<noteq> Crashes what)" by (auto simp: crashes_def) (metis fst_conv)
  with 0 t show ?case by (auto simp: attempts.simps counted_def split: task_result.splits)
next
  case (Suc left)
  obtain r0 c w0 where t: "task (make_execution s n) w = (r0, c, w0)" by (metis prod_cases3)
  have ct: "counted task (make_execution s n) (k, w) = (r0, c, (Suc k, w0))" using t by (simp add: counted_def)
  from t have nc: "\<not> crashes task \<longrightarrow> (\<forall>what. r0 \<noteq> Crashes what)" by (auto simp: crashes_def) (metis fst_conv)
  show ?case
  proof (cases "\<exists>e0. r0 = Fails e0 \<and> retryable env p e0")
    case True
    then have "attempts env (counted task) n p left (s\<lparr>rs_ctx := c\<rparr>) (Suc k, w0) = (r, s1, (k1, w1))"
      using Suc.prems ct by (auto simp: attempts.simps [of env "counted task" n p "Suc left"])
    from Suc.IH [OF this] show ?thesis by auto
  next
    case False
    with Suc.prems ct nc show ?thesis
      by (auto simp: attempts.simps [of env "counted task" n p "Suc left"] split: task_result.splits if_splits)
  qed
qed

section \<open>Properties\<close>

definition attempts_allowed :: "node \<Rightarrow> nat" where
  "attempts_allowed n = nat (max 1 (rp_max_attempts (case nd_retry n of Some p \<Rightarrow> p | None \<Rightarrow> default_retry)))"

text \<open>
  C26: Retries: activating a node runs its task at least once and at most \<open>max_attempts\<close> times (once without a
  policy's bound), and when a task that fails only with engine errors leaves a retryable error, all the
  attempts have been used.
\<close>

theorem task_runs_within_attempts:
  assumes "en_task env (node_type n) = Some (counted task)"
    and "activate_node env n s (k, w) = (r, s1, (k1, w1))"
  shows "k < k1 \<and> k1 \<le> k + attempts_allowed n \<and>
         (\<not> crashes task \<and> r = Inl e \<and>
          retryable env (case nd_retry n of Some p \<Rightarrow> p | None \<Rightarrow> default_retry) e \<longrightarrow> k1 = k + attempts_allowed n)"
proof -
  let ?p = "case nd_retry n of Some p \<Rightarrow> p | None \<Rightarrow> default_retry"
  have allowed: "attempts_allowed n = Suc (nat (max 1 (rp_max_attempts ?p) - 1))" by (simp add: attempts_allowed_def)
  have "attempts env (counted task) n ?p (nat (max 1 (rp_max_attempts ?p) - 1)) s (k, w) = (r, s1, (k1, w1))"
    using assms by (simp add: activate_node_def Let_def)
  from attempts_counted [OF this, of e] show ?thesis by (simp add: allowed)
qed

definition failing_task :: "exec \<Rightarrow> 'w \<Rightarrow> task_result \<times> ctx \<times> 'w" where
  "failing_task x w = (Fails (sapo_error Timeout ''late'' (JObj []) []), ex_ctx x, w)"

definition retried_node :: node where
  "retried_node =
     \<lparr>nd_id = ''a'', nd_next = None, nd_on_error = None, nd_retry = Some (default_retry\<lparr>rp_max_attempts := 3\<rparr>),
      nd_label = None, nd_enabled = True, nd_body = Noop \<lparr>no_meta = JObj [], no_assign = JObj []\<rparr>\<rparr>"

definition failing_env :: "(nat \<times> unit) env" where
  "failing_env =
     \<lparr>en_task = (\<lambda>t. Some (counted failing_task)), en_eval = (\<lambda>e x. Inr JNull), en_eval_bool = (\<lambda>e x. Inr True),
      en_dump = (\<lambda>j. ''x''), en_max_node_visits = 100, en_max_branch_visits = 100\<rparr>"

theorem task_runs_within_attempts_witness:
  "fst (snd (snd (activate_node failing_env retried_node new_run_state (0, ())))) = 3"
proof -
  obtain r s1 k1 w1 where a: "activate_node failing_env retried_node new_run_state (0, ()) = (r, s1, (k1, w1))"
    by (metis prod.exhaust)
  have t: "en_task failing_env ty = Some (counted failing_task)" for ty by (simp add: failing_env_def)
  have f: "failing_task x w = (Fails (sapo_error Timeout ''late'' (JObj []) []), ex_ctx x, w)" for x and w :: unit
    by (simp add: failing_task_def)
  have "r = Inl (sapo_error Timeout ''late'' (JObj []) [])"
    using a by (simp add: activate_node_def t retried_node_def numeral_2_eq_2 attempts.simps counted_def f
        retryable_def default_retry_def sapo_error_def Let_def split: if_splits)
  moreover have "\<not> crashes (failing_task :: exec \<Rightarrow> unit \<Rightarrow> _)" by (auto simp: crashes_def failing_task_def)
  ultimately show ?thesis
    using task_runs_within_attempts [OF t a, of "sapo_error Timeout ''late'' (JObj []) []"] a
    by (simp add: attempts_allowed_def retried_node_def retryable_def default_retry_def sapo_error_def)
qed

end
