(* ===== verification/Sapo_Progress.thy ===== *)
theory Sapo_Progress
  imports Sapo_Interpreter
begin

text \<open>
  When a run comes to an end.  The blueprint is \<open>closed\<close> when every reference of a node names a node
  (or is empty), which the parser establishes; frames are \<open>frames_ok\<close> when what they hold names nodes.
  Handling an error either leaves the run at a known node with no error pending, or with fewer frames;
  every other pass activates a node, and the budget bounds these.  So a blueprint without parallel
  sections always ends, within its budget of activations.
\<close>

section \<open>Closed blueprints\<close>

definition known :: "workflow \<Rightarrow> string \<Rightarrow> bool" where
  "known bp i \<longleftrightarrow> i = [] \<or> find_node bp i \<noteq> None"

definition known_opt :: "workflow \<Rightarrow> string option \<Rightarrow> bool" where
  "known_opt bp t = (case t of None \<Rightarrow> True | Some i \<Rightarrow> known bp i)"

fun body_refs :: "node_body \<Rightarrow> string list" where
  "body_refs (Loop l) = lp_body l"
| "body_refs (Try t) = ty_body t @ ty_catch_body t @ ty_finally_body t"
| "body_refs (Condition c) = cn_then_body c @ cn_else_body c"
| "body_refs (Parallel p) = concat (map br_node_ids (pn_branches p))"
| "body_refs _ = []"

definition node_closed :: "workflow \<Rightarrow> node \<Rightarrow> bool" where
  "node_closed bp n \<longleftrightarrow>
     known_opt bp (nd_next n) \<and> known_opt bp (nd_on_error n) \<and> list_all (known bp) (body_refs (nd_body n))"

definition closed_blueprint :: "workflow \<Rightarrow> bool" where
  "closed_blueprint bp \<longleftrightarrow> list_all (\<lambda>(i, n). node_closed bp n) (wf_index bp)"

definition sequential :: "workflow \<Rightarrow> bool" where
  "sequential bp \<longleftrightarrow> list_all (\<lambda>(i, n). case nd_body n of Parallel _ \<Rightarrow> False | _ \<Rightarrow> True) (wf_index bp)"

definition frame_ok :: "workflow \<Rightarrow> frame_state \<Rightarrow> bool" where
  "frame_ok bp f \<longleftrightarrow>
     list_all (\<lambda>v. known bp (jstr v)) (jitems (frame_ids f)) \<and> list_all (known bp) (try_finally_ids f) \<and>
     list_all (known bp) (id_list (jvalue ''catch_ids'' (JArr []) (fr_state f))) \<and> known bp (fr_resume f) \<and>
     is_object (fr_state f)"

definition frames_ok :: "workflow \<Rightarrow> run_state \<Rightarrow> bool" where
  "frames_ok bp s \<longleftrightarrow> list_all (frame_ok bp) (rs_frames s)"

lemma known_Nil [simp]: "known bp []"
  by (simp add: known_def)

lemma known_front: "list_all (known bp) ids \<Longrightarrow> known bp (front ids)"
  by (cases ids) (simp_all add: front_def)

lemma node_closed_find: "closed_blueprint bp \<Longrightarrow> find_node bp i = Some n \<Longrightarrow> node_closed bp n"
  unfolding closed_blueprint_def find_node_def list_all_iff by (drule map_of_SomeD) auto

lemma sequential_find: "sequential bp \<Longrightarrow> find_node bp i = Some n \<Longrightarrow> nd_body n \<noteq> Parallel p"
  unfolding sequential_def find_node_def list_all_iff by (drule map_of_SomeD) (auto split: node_body.splits)

lemma known_next: "closed_blueprint bp \<Longrightarrow> next_of bp i = Some t \<Longrightarrow> known bp t"
  by (auto simp: next_of_def node_closed_def known_opt_def dest: node_closed_find split: option.splits)

section \<open>Frames stay well formed\<close>

lemma frame_ok_position: "frame_ok bp (f\<lparr>fr_position := p\<rparr>) = frame_ok bp f"
  by (simp add: frame_ok_def frame_ids_def try_finally_ids_def)

lemma frame_ok_jset:
  assumes "frame_ok bp f" and "k \<noteq> ''ids''" "k \<noteq> ''finally_ids''" "k \<noteq> ''catch_ids''"
  shows "frame_ok bp (f\<lparr>fr_state := jset k v (fr_state f)\<rparr>)"
  using assms by (simp add: frame_ok_def frame_ids_def try_finally_ids_def json_simps)

lemma frame_ok_ids:
  assumes "frame_ok bp f" and "list_all (known bp) ids"
  shows "frame_ok bp (f\<lparr>fr_state := jset ''ids'' (id_array ids) (fr_state f)\<rparr>)"
  using assms by (simp add: frame_ok_def frame_ids_def try_finally_ids_def json_simps id_array_def list_all_iff)

lemma frame_ok_phase_ids:
  assumes "frame_ok bp f" and "list_all (known bp) ids"
  shows "frame_ok bp (f\<lparr>fr_state := jset ''ids'' (id_array ids) (jset ''phase'' v (fr_state f)), fr_position := p\<rparr>)"
  using frame_ok_ids [OF frame_ok_jset [OF assms(1), of "''phase''" v] assms(2)]
  by (simp add: frame_ok_def frame_ids_def try_finally_ids_def)

lemma frame_ok_finally: "frame_ok bp f \<Longrightarrow> list_all (known bp) (try_finally_ids f)"
  by (simp add: frame_ok_def)

lemma frame_ok_new:
  assumes "is_object st" and "list_all (known bp) ids" and "known bp r"
    and "list_all (known bp) (id_list (jvalue ''finally_ids'' (JArr []) st))"
    and "list_all (known bp) (id_list (jvalue ''catch_ids'' (JArr []) st))"
  shows "frame_ok bp \<lparr>fr_kind = k, fr_node = n, fr_position = 0, fr_resume = r,
           fr_state = jset ''ids'' (id_array ids) st\<rparr>"
  using assms by (simp add: frame_ok_def frame_ids_def try_finally_ids_def json_simps id_array_def list_all_iff)

lemma frames_ok_unwind: "frames_ok bp s \<Longrightarrow> unwind_to P (rs_frames s) = Some gs \<Longrightarrow> list_all (frame_ok bp) gs"
  by (auto simp: frames_ok_def dest!: unwind_to_Some)

lemma resolve_jump_ok: "frames_ok bp s \<Longrightarrow> frames_ok bp (resolve_jump t s)"
  using frames_ok_unwind [of bp s "\<lambda>f. index_of_id (frame_ids f) t \<noteq> None"]
  by (cases "t = []") (auto simp: frames_ok_def resolve_jump_frames frame_ok_position resolve_jump_def [of "[]"]
      split: option.split list.split)

text \<open>What advancing preserves, and that a pending error set on the way has cost a frame.\<close>

definition progress_ok :: "workflow \<Rightarrow> run_state \<Rightarrow> run_state \<Rightarrow> bool" where
  "progress_ok bp s s' \<longleftrightarrow>
     frames_ok bp s' \<and> known bp (rs_cursor s') \<and>
     (rs_pending_error s' = rs_pending_error s \<or> length (rs_frames s') < length (rs_frames s))"

lemma progress_ok_shorter:
  "progress_ok bp s1 s' \<Longrightarrow> length (rs_frames s') \<le> length (rs_frames s1) \<Longrightarrow>
   length (rs_frames s1) < length (rs_frames s) \<Longrightarrow> progress_ok bp s s'"
  by (auto simp: progress_ok_def)

lemma progress_ok_same:
  "progress_ok bp s1 s' \<Longrightarrow> length (rs_frames s1) = length (rs_frames s) \<Longrightarrow>
   rs_pending_error s1 = rs_pending_error s \<Longrightarrow> progress_ok bp s s'"
  by (auto simp: progress_ok_def)

lemma loop_decide_progress:
  assumes "rs_frames s = f # fs" and "frames_ok bp s" and "known bp (rs_cursor s)"
  shows "case loop_decide env bp f fs s of
      LoopThrows e s1 \<Rightarrow> progress_ok bp s s1
    | LoopAgain s1 \<Rightarrow> progress_ok bp s s1
    | LoopOver owner s1 \<Rightarrow> rs_frames s1 = fs \<and> frames_ok bp s1 \<and> known bp (rs_cursor s1) \<and>
                            rs_pending_error s1 = rs_pending_error s"
proof -
  have f: "frame_ok bp f" and fs: "list_all (frame_ok bp) fs" using assms(1,2) by (simp_all add: frames_ok_def)
  have again: "progress_ok bp s (loop_again i f fs (s\<lparr>rs_warnings := ws\<rparr>))" for i ws
  proof -
    let ?f = "f\<lparr>fr_state := jset ''index'' (JInt i) (fr_state f), fr_position := 0\<rparr>"
    have "frame_ok bp ?f"
      using frame_ok_jset [OF f, of "''index''" "JInt i"] by (simp add: frame_ok_def frame_ids_def try_finally_ids_def)
    moreover have "known bp (case jitems (jvalue ''ids'' (JArr []) (fr_state f)) of [] \<Rightarrow> [] | i # _ \<Rightarrow> jstr i)"
      using f by (auto simp: frame_ok_def frame_ids_def jvalue_def split: option.splits list.splits)
    ultimately show ?thesis
      using fs assms(1) by (simp add: progress_ok_def loop_again_def Let_def frame_simps frames_ok_def)
  qed
  have again0: "progress_ok bp s (loop_again i f fs s)" for i
    using again [of i "rs_warnings s"] by simp
  have over: "rs_frames (loop_over f fs s1) = fs \<and> frames_ok bp (loop_over f fs s1) \<and>
      rs_cursor (loop_over f fs s1) = rs_cursor s1 \<and> rs_pending_error (loop_over f fs s1) = rs_pending_error s1" for s1
    using fs by (simp add: loop_over_def frame_simps frames_ok_def)
  have throw: "progress_ok bp s (s\<lparr>rs_warnings := ws\<rparr>)" "progress_ok bp s s" for ws
    using assms by (simp_all add: progress_ok_def frames_ok_def)
  show ?thesis
    unfolding loop_decide_def Let_def
    by (auto simp: again again0 over throw assms(3) split: option.split node_body.split sum.split bool.split)
qed

lemma enter_finally_progress:
  assumes "rs_frames s = f # fs" and "frames_ok bp s"
  shows "progress_ok bp s (enter_finally f fs s)"
proof -
  have f: "frame_ok bp f" and fs: "list_all (frame_ok bp) fs" using assms by (simp_all add: frames_ok_def)
  show ?thesis
    using frame_ok_phase_ids [OF f frame_ok_finally [OF f]] fs known_front [OF frame_ok_finally [OF f]] assms(1)
    by (simp add: progress_ok_def enter_finally_def frame_simps frames_ok_def)
qed

lemma close_top_ok:
  assumes "rs_frames s = f # fs" and "frames_ok bp s"
  shows "frames_ok bp (close_top f fs s1)" and "rs_cursor (close_top f fs s1) = rs_cursor s1"
  using assms by (simp_all add: frames_ok_def close_top_def frame_simps)

lemma release_error_cursor [simp]: "rs_cursor (release_error f s) = rs_cursor s"
  by (simp add: release_error_def frame_simps split: option.split)

lemma escape_known: "closed_blueprint bp \<Longrightarrow> escape_target bp f c = Some t \<Longrightarrow> known bp t"
  by (auto simp: escape_target_def dest: known_next split: if_splits option.splits)

lemma sibling_known:
  assumes "frame_ok bp f" and "sibling f c = Some (i, nx)"
  shows "known bp nx"
proof -
  from assms(2) have "Suc (the (index_of_id (frame_ids f) c)) < length (jitems (frame_ids f))"
    and "nx = jstr (jitems (frame_ids f) ! Suc (the (index_of_id (frame_ids f) c)))"
    by (auto simp: sibling_def split: option.splits if_splits)
  with assms(1) show ?thesis by (simp add: frame_ok_def list_all_length)
qed

lemma advance_progress:
  assumes "closed_blueprint bp" and "frames_ok bp s" and "known bp (rs_cursor s)"
  shows "progress_ok bp s (snd (advance env bp current s))"
  using assms
proof (induction env bp current s rule: advance.induct)
  case (1 env bp current s)
  show ?case
  proof (cases "rs_frames s")
    case Nil
    then show ?thesis
      using "1.prems" known_next [of bp current]
      by (auto simp: advance.simps [of env bp current s] advance_top_def complete_def progress_ok_def frames_ok_def
          split: option.split)
  next
    case (Cons f fs)
    have f: "frame_ok bp f" and fs: "list_all (frame_ok bp) fs" using "1.prems"(2) Cons by (simp_all add: frames_ok_def)
    note IH = "1.IH" [OF Cons]
    show ?thesis
    proof (cases "escape_target bp f current")
      case (Some t)
      with Cons "1.prems" show ?thesis
        by (simp add: advance.simps [of env bp current s] progress_ok_def resolve_jump_ok frame_simps escape_known)
    next
      case esc: None
      show ?thesis
      proof (cases "sibling f current")
        case (Some p)
        obtain i nx where p: "p = (i, nx)" by (cases p)
        with Some f have "known bp nx" by (simp add: sibling_known)
        with Cons esc Some f fs p show ?thesis
          by (simp add: advance.simps [of env bp current s] progress_ok_def frame_simps frames_ok_def frame_ok_position)
      next
        case sib: None
        note IH = IH [OF esc sib]
        note unf = advance.simps [of env bp current s] Cons esc sib
        consider (fin) "fr_kind f = ''try''" "finally_pending f" | (close) "fr_kind f = ''try''" "\<not> finally_pending f"
          | (loop) "fr_kind f = ''loop''" | (branch) "fr_kind f = ''branch''"
          | (other) "fr_kind f \<noteq> ''try''" "fr_kind f \<noteq> ''loop''" "fr_kind f \<noteq> ''branch''" by blast
        then show ?thesis
        proof cases
          case fin
          let ?e = "enter_finally f fs s"
          have e: "progress_ok bp s ?e" by (rule enter_finally_progress [OF Cons "1.prems"(2)])
          have "progress_ok bp ?e (snd (advance env bp (fr_node f) ?e))" if "\<not> (rs_cursor ?e \<noteq> [] \<or> rs_finished ?e)"
            using IH(1) [OF fin refl that "1.prems"(1)] e by (simp add: progress_ok_def)
          moreover have "rs_pending_error ?e = rs_pending_error s" "length (rs_frames ?e) = length (rs_frames s)"
            by (simp_all add: enter_finally_def frame_simps Cons)
          ultimately show ?thesis
            using fin e by (auto simp: unf Let_def intro: progress_ok_same)
        next
          case close
          let ?c = "close_top f fs (release_error f s)"
          have c: "frames_ok bp ?c" "known bp (rs_cursor ?c)" "length (rs_frames ?c) < length (rs_frames s)"
            using close_top_ok [OF Cons "1.prems"(2), of "release_error f s"] "1.prems"(3) Cons by simp_all
          obtain r s1 where r: "advance env bp (fr_node f) ?c = (r, s1)" by fastforce
          have len: "length (rs_frames s1) \<le> length (rs_frames ?c)"
            using advance_length [of env bp "fr_node f" ?c] r by simp
          have p1: "progress_ok bp ?c s1" using IH(2) [OF close "1.prems"(1) c(1,2)] r by simp
          have s1: "progress_ok bp s s1" by (rule progress_ok_shorter [OF p1 len c(3)])
          have "progress_ok bp s (snd (advance env bp (fr_node f) s1))"
            if "r = None" "\<not> (rs_cursor s1 \<noteq> [] \<or> rs_finished s1)" "length (rs_frames s1) < length (rs_frames s)"
            using IH(3) [OF close r [symmetric] that "1.prems"(1)] p1 advance_length [of env bp "fr_node f" s1] that(3)
            by (auto intro: progress_ok_shorter simp: progress_ok_def)
          with close r s1 show ?thesis by (cases r) (auto simp: unf)
        next
          case loop
          show ?thesis
          proof (cases "loop_decide env bp f fs s")
            case (LoopOver owner s1)
            with loop_decide_progress [OF Cons "1.prems"(2,3), of env]
            have s1: "rs_frames s1 = fs" "frames_ok bp s1" "known bp (rs_cursor s1)" by simp_all
            have "progress_ok bp s1 (snd (advance env bp owner s1))"
              using IH(4) [OF _ _ LoopOver "1.prems"(1) s1(2,3)] loop by simp
            from progress_ok_shorter [OF this advance_length] s1(1) Cons loop LoopOver
            show ?thesis by (simp add: unf)
          qed (use loop_decide_progress [OF Cons "1.prems"(2,3), of env] loop in \<open>simp_all add: unf\<close>)
        next
          case branch
          with "1.prems" show ?thesis by (simp add: unf progress_ok_def branch_end_def frames_ok_def)
        next
          case other
          let ?p = "sync_frames (s\<lparr>rs_frames := fs\<rparr>)"
          have p: "frames_ok bp ?p" "known bp (rs_cursor ?p)" "length (rs_frames ?p) < length (rs_frames s)"
            using fs "1.prems"(3) Cons by (simp_all add: frames_ok_def frame_simps)
          have "progress_ok bp s (snd (advance env bp (fr_node f) ?p))" if "\<not> fr_resume f \<noteq> []"
            using progress_ok_shorter [OF IH(5) [OF other refl that "1.prems"(1) p(1,2)] advance_length p(3)] .
          moreover have "progress_ok bp s (?p\<lparr>rs_cursor := fr_resume f\<rparr>)"
            using f fs by (simp add: progress_ok_def frames_ok_def frame_simps frame_ok_def)
          ultimately show ?thesis using other by (simp add: unf Let_def)
        qed
      qed
    qed
  qed
qed

lemma close_frame_progress:
  assumes "closed_blueprint bp" and "frames_ok bp s" and "known bp (rs_cursor s)"
  shows "frames_ok bp (snd (close_frame env bp s)) \<and> known bp (rs_cursor (snd (close_frame env bp s))) \<and>
    (rs_frames s \<noteq> [] \<longrightarrow> length (rs_frames (snd (close_frame env bp s))) < length (rs_frames s))"
proof (cases "rs_frames s")
  case (Cons f fs)
  let ?c = "close_top f fs s"
  have "progress_ok bp ?c (snd (advance env bp (fr_node f) ?c))"
    using advance_progress [OF assms(1) close_top_ok(1) [OF Cons assms(2)]] assms(3) close_top_ok(2) [OF Cons assms(2)]
    by simp
  with advance_length [of env bp "fr_node f" ?c] Cons show ?thesis by (simp add: close_frame_def progress_ok_def)
qed (use assms in \<open>simp add: close_frame_def complete_def frames_ok_def\<close>)

lemma next_iteration_progress:
  assumes "closed_blueprint bp" and "frames_ok bp s" and "known bp (rs_cursor s)"
  shows "progress_ok bp s (snd (snd (next_iteration_for env bp l s)))"
proof (cases "unwind_to (loop_frame l) (rs_frames s)")
  case (Some gs)
  then obtain f fs where gs: "gs = f # fs" using unwind_to_Some by blast
  let ?s = "s\<lparr>rs_frames := f # fs\<rparr>"
  have ok: "frames_ok bp ?s" using frames_ok_unwind [OF assms(2) Some] gs by (simp add: frames_ok_def)
  have len: "length (rs_frames ?s) \<le> length (rs_frames s)" using unwind_to_length [OF Some] gs by simp
  have trans: "progress_ok bp s s1" if "progress_ok bp ?s s1" for s1
    using that len by (auto simp: progress_ok_def)
  have over: "progress_ok bp ?s (snd (advance env bp owner s1))"
    if "rs_frames s1 = fs \<and> frames_ok bp s1 \<and> known bp (rs_cursor s1)" for owner s1
    using progress_ok_shorter [OF advance_progress [OF assms(1), of s1 env owner] advance_length, of ?s] that by simp
  show ?thesis
    using loop_decide_progress [of ?s f fs bp env] ok assms(3) Some gs trans over
    by (cases "loop_decide env bp f fs ?s") (simp_all add: next_iteration_for_def)
qed (use assms in \<open>simp add: next_iteration_for_def progress_ok_def\<close>)

lemma finish_loop_progress:
  assumes "closed_blueprint bp" and "frames_ok bp s" and "known bp (rs_cursor s)"
  shows "progress_ok bp s (snd (snd (finish_loop env bp l s)))"
proof (cases "unwind_to (loop_frame l) (rs_frames s)")
  case (Some gs)
  then obtain f fs where gs: "gs = f # fs" using unwind_to_Some by blast
  let ?s = "s\<lparr>rs_frames := f # fs\<rparr>"
  have "frames_ok bp ?s" using frames_ok_unwind [OF assms(2) Some] gs by (simp add: frames_ok_def)
  with close_frame_progress [OF assms(1), of ?s env] assms(3) unwind_to_length [OF Some] gs Some
  show ?thesis by (auto simp: finish_loop_def progress_ok_def)
qed (use assms in \<open>simp add: finish_loop_def progress_ok_def\<close>)

section \<open>Error handling makes progress\<close>

lemma frame_ok_propagate:
  "frame_ok bp f \<Longrightarrow> list_all (known bp) ids \<Longrightarrow>
   frame_ok bp (f\<lparr>fr_state := jset ''propagate'' e (jset ''ids'' (id_array ids) (jset ''phase'' v (fr_state f))),
                  fr_position := p\<rparr>)"
  by (simp add: frame_ok_def frame_ids_def try_finally_ids_def json_simps id_array_def list_all_iff)

lemma enter_catch_ok:
  assumes "frame_ok bp f" and "list_all (frame_ok bp) fs" and "list_all (known bp) handlers"
  shows "frames_ok bp (enter_catch handlers e f fs s)" and "known bp (rs_cursor (enter_catch handlers e f fs s))"
  using frame_ok_phase_ids [OF assms(1,3)] assms(2) known_front [OF assms(3)]
  by (simp_all add: enter_catch_def Let_def frame_simps frames_ok_def)

lemma enter_cleanup_ok:
  assumes "frame_ok bp f" and "list_all (frame_ok bp) fs"
  shows "frames_ok bp (enter_cleanup e f fs s)" and "known bp (rs_cursor (enter_cleanup e f fs s))"
  using frame_ok_propagate [OF assms(1) frame_ok_finally [OF assms(1)]] assms(2) known_front [OF frame_ok_finally [OF assms(1)]]
  by (simp_all add: enter_cleanup_def Let_def frame_simps frames_ok_def)

lemma catch_handlers_known:
  assumes "frame_ok bp f" and "catch_handlers bp f code = Some hs"
  shows "list_all (known bp) hs"
  using assms by (auto simp: catch_handlers_def Let_def frame_ok_def known_def split: if_splits)

lemma route_error_progress:
  assumes "closed_blueprint bp" and "frames_ok bp s" and "known bp (rs_cursor s)"
  shows "rs_frames s = ps @ gs \<Longrightarrow> fst (route_error env bp e s gs) \<noteq> Unhandled \<Longrightarrow>
    progress_ok bp s (snd (route_error env bp e s gs))"
proof (induction gs arbitrary: ps)
  case (Cons f fs)
  have ok: "frame_ok bp f" "list_all (frame_ok bp) fs" "list_all (frame_ok bp) (f # fs)"
    using assms(2) Cons.prems(1) by (simp_all add: frames_ok_def)
  have len: "Suc (length fs) \<le> length (rs_frames s)" using Cons.prems(1) by simp
  have rest: "fst (route_error env bp e s fs) \<noteq> Unhandled \<Longrightarrow> progress_ok bp s (snd (route_error env bp e s fs))"
    using Cons.IH [of "ps @ [f]"] Cons.prems(1) by simp
  have catch: "progress_ok bp s (enter_catch hs j f fs s)" if "catch_handlers bp f (ce_code e) = Some hs" for hs j
    using enter_catch_ok [OF ok(1,2) catch_handlers_known [OF ok(1) that]] by (simp add: progress_ok_def frame_simps)
  have cleanup: "progress_ok bp s (enter_cleanup j f fs s)" for j
    using enter_cleanup_ok [OF ok(1,2)] by (simp add: progress_ok_def frame_simps)
  let ?p = "s\<lparr>rs_frames := f # fs, rs_pending_error := captured_to_json e\<rparr>"
  have close: "progress_ok bp s (snd (close_frame env bp ?p))"
    using close_frame_progress [OF assms(1), of ?p env] ok(3) assms(3) len by (auto simp: progress_ok_def frames_ok_def)
  have iter: "progress_ok bp s (snd (snd (next_iteration_for env bp [] (s\<lparr>rs_warnings := ws\<rparr>))))" for ws
    using next_iteration_progress [OF assms(1), of "s\<lparr>rs_warnings := ws\<rparr>" env "[]"] assms(2,3)
    by (auto simp: progress_ok_def frames_ok_def)
  from Cons.prems(2) show ?case
    by (auto simp: handled_of_def catch cleanup close iter rest split: option.splits if_splits)
qed simp

lemma handle_error_progress:
  assumes "closed_blueprint bp" and "frames_ok bp s" and "known bp (rs_cursor s)"
    and "fst (handle_error env bp e s) \<noteq> Unhandled"
  shows "progress_ok bp s (snd (handle_error env bp e s))"
proof -
  have own: "progress_ok bp s (resolve_jump t (set_local k v s))"
    if "find_node bp i = Some n" "nd_on_error n = Some t" for i n t k v
  proof -
    have "known bp t" using node_closed_find [OF assms(1) that(1)] that(2) by (simp add: node_closed_def known_opt_def)
    moreover have "frames_ok bp (set_local k v s)" using assms(2) by (simp add: frames_ok_def frame_simps)
    ultimately show ?thesis
      by (simp add: progress_ok_def resolve_jump_ok frame_simps)
  qed
  show ?thesis
    using assms(4) route_error_progress [OF assms(1-3), of "[]" "rs_frames s" env e] own
    by (auto simp: handle_error_def Let_def split: option.splits list.splits if_splits)
qed

section \<open>What a node does to the run\<close>

definition same_core :: "run_state \<Rightarrow> run_state \<Rightarrow> bool" where
  "same_core s s' \<longleftrightarrow>
     rs_visits s' = rs_visits s \<and> rs_budget s' = rs_budget s \<and> rs_visited s' = rs_visited s \<and>
     rs_pending_error s' = rs_pending_error s \<and> rs_cursor s' = rs_cursor s"

lemma same_core_refl [simp]: "same_core s s"
  by (simp add: same_core_def)

lemma attempts_core:
  "\<exists>r s1 w1. attempts env task n p k s w = (r, s1, w1) \<and> same_core s s1 \<and> rs_frames s1 = rs_frames s"
proof (induction k arbitrary: s w)
  case 0
  then show ?case
    by (auto simp: attempts.simps [of env task n p 0] same_core_def clear_resume_def Let_def frame_simps
        split: prod.split task_result.split)
next
  case (Suc k)
  obtain r c w1 where t: "task (make_execution s n) w = (r, c, w1)" by (metis prod_cases3)
  show ?case
  proof (cases "\<exists>e. r = Fails e \<and> retryable env p e")
    case True
    from Suc.IH [of "s\<lparr>rs_ctx := c\<rparr>" w1] True t show ?thesis
      by (auto simp: attempts.simps [of env task n p "Suc k"] same_core_def)
  next
    case False
    with t show ?thesis
      by (cases r) (auto simp: attempts.simps [of env task n p "Suc k"] same_core_def clear_resume_def Let_def frame_simps)
  qed
qed

lemma activate_core:
  assumes "activate_node env n s w = (r, s1, w1)"
  shows "same_core s s1 \<and> rs_frames s1 = rs_frames s"
proof (cases "en_task env (node_type n)")
  case None
  with assms show ?thesis by (auto simp: activate_node_def same_core_def)
next
  case (Some task)
  define p where "p = (case nd_retry n of Some p \<Rightarrow> p | None \<Rightarrow> default_retry)"
  from assms Some have "attempts env task n p (nat (max 1 (rp_max_attempts p) - 1)) s w = (r, s1, w1)"
    by (simp add: activate_node_def p_def Let_def)
  with attempts_core [of env task n p "nat (max 1 (rp_max_attempts p) - 1)" s w] show ?thesis by auto
qed

lemma push_frame_ok:
  assumes "frames_ok bp s" and "is_object st" and "list_all (known bp) ids" and "known bp r"
    and "list_all (known bp) (id_list (jvalue ''finally_ids'' (JArr []) st))"
    and "list_all (known bp) (id_list (jvalue ''catch_ids'' (JArr []) st))"
  shows "frames_ok bp (push_frame k n ids r st s)" and "same_core s (push_frame k n ids r st s)"
  using frame_ok_new [OF assms(2-6)] assms(1,2)
  by (simp_all add: push_frame_def frames_ok_def frame_simps same_core_def)

lemma known_next_or_empty: "node_closed bp n \<Longrightarrow> known bp (next_or_empty n)"
  by (simp add: next_or_empty_def node_closed_def known_opt_def split: option.splits)

lemma id_list_empty [simp]: "id_list (JArr []) = []"
  by (simp add: id_list_def List.map_filter_simps)

lemma perform_core:
  assumes "\<And>p. nd_body n \<noteq> Parallel p" and "node_closed bp n" and "frames_ok bp s"
    and "perform drv env bp n s w = Some (r, s1, w1)"
  shows "same_core s s1 \<and> frames_ok bp s1"
proof -
  have act: "same_core s s1 \<and> frames_ok bp s1" if "activate_node env n s w = (r, s1, w1)"
    using activate_core [OF that] assms(3) by (simp add: frames_ok_def)
  note nx = known_next_or_empty [OF assms(2)]
  have refs: "list_all (known bp) (body_refs (nd_body n))" using assms(2) by (simp add: node_closed_def)
  note id_of = jvalue_def jget_jobj
  show ?thesis
  proof (cases "nd_body n")
    case (Loop l)
    have "list_all (known bp) (lp_body l)" using refs Loop by simp
    from push_frame_ok [OF assms(3) _ this nx, of "loop_frame_state i l items" for i items]
    have pf: "frames_ok bp (push_frame k i (lp_body l) (next_or_empty n) (loop_frame_state i l items) s)"
      "same_core s (push_frame k i (lp_body l) (next_or_empty n) (loop_frame_state i l items) s)" for k i items
      by (simp_all add: loop_frame_state_def id_of)
    have bind: "frames_ok bp s2 \<Longrightarrow> same_core s s2 \<Longrightarrow> frames_ok bp (bind_iteration f s2) \<and> same_core s (bind_iteration f s2)"
      for f s2 by (simp add: frames_ok_def same_core_def frame_simps)
    from Loop assms(3,4) show ?thesis
      by (auto simp: perform_def step_loop_def Let_def pf bind split: option.splits sum.splits if_splits)
  next
    case (Try t)
    have "list_all (known bp) (ty_body t)" "list_all (known bp) (ty_catch_body t)" "list_all (known bp) (ty_finally_body t)"
      using refs Try by simp_all
    with push_frame_ok [OF assms(3) _ _ nx, of "try_frame_state t" "ty_body t"]
    have "frames_ok bp (push_frame k i (ty_body t) (next_or_empty n) (try_frame_state t) s)"
      "same_core s (push_frame k i (ty_body t) (next_or_empty n) (try_frame_state t) s)" for k i
      by (simp_all add: try_frame_state_def id_of)
    with Try assms(4) show ?thesis by (auto simp: perform_def step_try_def)
  next
    case (Condition c)
    have "list_all (known bp) (cn_then_body c)" "list_all (known bp) (cn_else_body c)" using refs Condition by simp_all
    then have bl: "condition_branch_of env c x = Inr b \<Longrightarrow> list_all (known bp) (cb_body b)" for x b
      by (auto simp: condition_branch_of_def split: sum.splits bool.splits)
    from push_frame_ok [OF assms(3) _ bl nx]
    have pf: "condition_branch_of env c x = Inr b \<Longrightarrow>
       frames_ok bp (push_frame k i (cb_body b) (next_or_empty n) (jobj [(''branch'', v)]) s) \<and>
       same_core s (push_frame k i (cb_body b) (next_or_empty n) (jobj [(''branch'', v)]) s)" for x b k i v
      by (simp add: id_of)
    from Condition assms(3,4) show ?thesis
      by (auto simp: perform_def step_condition_def pf split: option.splits sum.splits if_splits)
  qed (use assms(1,4) act in \<open>simp_all add: perform_def\<close>)
qed

lemma perform_some:
  "(\<And>p. nd_body n \<noteq> Parallel p) \<Longrightarrow>
   perform drv env bp n s w \<noteq> None \<and> perform drv env bp n s w = perform drv' env bp n s w"
  by (cases "nd_body n"; blast?) (simp_all add: perform_def)

section \<open>Every pass of a sequential blueprint makes progress\<close>

definition run_ok :: "workflow \<Rightarrow> run_state \<Rightarrow> bool" where
  "run_ok bp s \<longleftrightarrow> frames_ok bp s \<and> (rs_pending_error s \<noteq> JNull \<longrightarrow> known bp (rs_cursor s))"

definition detour :: "workflow \<Rightarrow> run_state \<Rightarrow> nat" where
  "detour bp s = 2 * length (rs_frames s) + (if rs_pending_error s \<noteq> JNull \<or> \<not> known bp (rs_cursor s) then 1 else 0)"

definition closer :: "workflow \<Rightarrow> run_state \<Rightarrow> run_state \<Rightarrow> bool" where
  "closer bp s s' \<longleftrightarrow> run_ok bp s' \<and> rs_budget s' = rs_budget s \<and>
     (rs_visits s' = Suc (rs_visits s) \<and> rs_visits s < rs_budget s \<and> length (rs_visited s') = Suc (length (rs_visited s)) \<or>
      rs_visits s' = rs_visits s \<and> rs_visited s' = rs_visited s \<and> detour bp s' < detour bp s)"

lemma run_ok_progress: "progress_ok bp s s' \<Longrightarrow> run_ok bp s'"
  by (simp add: progress_ok_def run_ok_def)

lemma closer_error:
  assumes "closed_blueprint bp" and "frames_ok bp s0" and "known bp (rs_cursor s0)" and "rs_pending_error s0 = JNull"
    and "handle_error env bp e s0 = (Handled, s')"
    and "rs_frames s0 = rs_frames s" "rs_visits s0 = rs_visits s" "rs_budget s0 = rs_budget s" "rs_visited s0 = rs_visited s"
    and "rs_pending_error s \<noteq> JNull \<or> \<not> known bp (rs_cursor s)"
  shows "closer bp s s'"
proof -
  have p: "progress_ok bp s0 s'" using handle_error_progress [OF assms(1-3), of env e] assms(5) by simp
  moreover have "same_visits s0 s'" using handle_error_same_visits [of s0 env bp e] assms(5) by simp
  ultimately show ?thesis
    using assms(4,6-10) run_ok_progress [OF p] by (auto simp: closer_def detour_def progress_ok_def same_visits_def)
qed

definition sequential_node :: "node \<Rightarrow> bool" where
  "sequential_node n \<longleftrightarrow> (\<forall>p. nd_body n \<noteq> Parallel p)"

lemma signal_pass_next:
  assumes "closed_blueprint bp" and "frames_ok bp s" and "known bp (rs_cursor s)" and "rs_pending_error s = JNull"
    and "signal_pass env bp n sig s w = Next s' w'"
  shows "run_ok bp s' \<and> same_visits s s'"
proof -
  note prog = advance_progress [OF assms(1-3)] next_iteration_progress [OF assms(1-3)] finish_loop_progress [OF assms(1-3)]
  have jump: "run_ok bp (resolve_jump t s) \<and> same_visits s (resolve_jump t s)" for t
    using resolve_jump_ok [OF assms(2)] assms(4) resolve_jump_length [of t s]
    by (simp add: run_ok_def frame_simps same_visits_def)
  have adv: "run_ok bp s1 \<and> same_visits s s1" if "advance env bp c s = (None, s1)" for c s1
    using prog(1) [of env c] advance_same_run [of s env bp c] that
    by (auto intro: run_ok_progress same_visits_run)
  have iter: "run_ok bp s1 \<and> same_visits s s1" if "next_iteration_for env bp l s = (b, None, s1)" for l b s1
    using prog(2) [of env l] next_iteration_same_run [of s env bp l] that
    by (auto intro: run_ok_progress same_visits_run)
  have fin: "run_ok bp s1 \<and> same_visits s s1" if "finish_loop env bp l s = (b, None, s1)" for l b s1
    using prog(3) [of env l] finish_loop_same_run [of s env bp l] that
    by (auto intro: run_ok_progress same_visits_run)
  have pass: "x = (None, s') \<and> \<not> b = False" if "loop_control_pass word n (b, x) w = Next s' w'" for word b x
    using that by (cases b; cases x; cases "fst x") (auto simp: loop_control_pass_def advanced_pass_def)
  show ?thesis
  proof (cases sig)
    case Continue
    with assms(5) obtain "advance env bp (rs_current_node_id s) s = (None, s')"
      by (cases "advance env bp (rs_current_node_id s) s")
         (auto simp: signal_pass_def advanced_pass_def advance_after_node_def split: if_splits option.splits)
    then show ?thesis by (rule adv)
  next
    case (LoopBreak l)
    obtain b x where f: "finish_loop env bp (option_text l) s = (b, x)" by (metis surj_pair)
    with LoopBreak assms(5) have "x = (None, s')"
      using pass by (auto simp: signal_pass_def split: if_splits)
    with f show ?thesis using fin by simp
  next
    case (LoopContinue l)
    obtain b x where f: "next_iteration_for env bp (option_text l) s = (b, x)" by (metis surj_pair)
    with LoopContinue assms(5) have "x = (None, s')"
      using pass by (auto simp: signal_pass_def split: if_splits)
    with f show ?thesis using iter by simp
  qed (use assms(5) jump in \<open>auto simp: signal_pass_def split: if_splits\<close>)
qed

lemma node_pass_next:
  assumes "closed_blueprint bp" and "sequential_node n" and "node_closed bp n" and "frames_ok bp s"
    and "known bp (rs_cursor s)" and "rs_pending_error s = JNull"
    and "node_pass drv env bp n s w = Some (Next s' w')"
  shows "closer bp s s'"
proof -
  let ?s = "s\<lparr>rs_current_node_id := nd_id n, rs_visits := Suc (rs_visits s), rs_visited := rs_visited s @ [nd_id n]\<rparr>"
  have ok: "frames_ok bp ?s" "known bp (rs_cursor ?s)" "rs_pending_error ?s = JNull"
    using assms(4-6) by (simp_all add: frames_ok_def)
  have budget: "rs_visits s < rs_budget s"
    using assms(7) by (auto simp: node_pass_def Let_def not_less split: if_splits)
  have goal: "run_ok bp s' \<Longrightarrow> same_visits ?s s' \<Longrightarrow> closer bp s s'"
    using budget by (auto simp: closer_def same_visits_def)
  have np: "node_pass drv env bp n s w =
      (if \<not> nd_enabled n then Some (advanced_pass (advance_after_node env bp ?s) w)
       else (case perform drv env bp n ?s w of
          None \<Rightarrow> None
        | Some (Inl e, s3, w1) \<Rightarrow>
            Some (on_error_pass (handle_error env bp (captured_from e) s3)
                    (fail_run (error_code_string (se_code e)) (se_message e)
                       (if se_node e = [] then nd_id n else se_node e) (se_data e)) w1)
        | Some (Inr sig, s3, w1) \<Rightarrow> Some (signal_pass env bp n sig s3 w1)))"
    using budget by (simp add: node_pass_def Let_def)
  show ?thesis
  proof (cases "nd_enabled n")
    case False
    with assms(7) np obtain "advance env bp (nd_id n) ?s = (None, s')"
      by (auto simp: advanced_pass_def advance_after_node_def split: prod.splits option.splits)
    with advance_progress [OF assms(1) ok(1,2), of env "nd_id n"] advance_same_run [of ?s env bp "nd_id n"] show ?thesis
      by (intro goal) (auto intro: run_ok_progress same_visits_run)
  next
    case True
    obtain r s3 w1 where pf: "perform drv env bp n ?s w = Some (r, s3, w1)"
      using perform_some [of n drv env bp ?s w drv] assms(2) by (auto simp: sequential_node_def)
    have core: "same_core ?s s3" "frames_ok bp s3"
      using perform_core [OF _ assms(3) ok(1) pf] assms(2) by (auto simp: sequential_node_def)
    then have s3: "known bp (rs_cursor s3)" "rs_pending_error s3 = JNull"
      using ok by (simp_all add: same_core_def)
    show ?thesis
    proof (cases r)
      case (Inl e)
      with assms(7) np True pf have h: "handle_error env bp (captured_from e) s3 = (Handled, s')"
        by (auto simp: on_error_pass_def split: prod.splits handled.splits)
      have "run_ok bp s'"
        using handle_error_progress [OF assms(1) core(2) s3(1), of env "captured_from e"] h by (auto intro: run_ok_progress)
      moreover have "rs_visits s' = rs_visits s3" "rs_budget s' = rs_budget s3" "rs_visited s' = rs_visited s3"
        using handle_error_same_visits [of s3 env bp "captured_from e"] h by (simp_all add: same_visits_def)
      ultimately show ?thesis using budget core(1) by (auto simp: closer_def same_core_def)
    next
      case (Inr sig)
      with assms(7) np True pf have "signal_pass env bp n sig s3 w1 = Next s' w'" by simp
      from signal_pass_next [OF assms(1) core(2) s3 this] budget core(1) show ?thesis
        by (auto simp: closer_def same_core_def same_visits_def)
    qed
  qed
qed

lemma drive_step_next:
  assumes "closed_blueprint bp" and "sequential bp" and "run_ok bp s"
    and "drive_step drv env bp s w = Some (Next s' w')"
  shows "closer bp s s'"
proof (cases "rs_pending_error s = JNull")
  case False
  let ?s = "s\<lparr>rs_pending_error := JNull\<rparr>"
  from False assms(4) have "handle_error env bp (captured_from_json (rs_pending_error s)) ?s = (Handled, s')"
    by (auto simp: drive_step_def Let_def on_error_pass_def is_null_iff split: prod.splits handled.splits)
  with closer_error [OF assms(1), of ?s env _ s' s] assms(3) False show ?thesis
    by (simp add: run_ok_def frames_ok_def)
next
  case True
  have cur: "rs_cursor s \<noteq> []" using assms(4) True by (auto simp: drive_step_def)
  show ?thesis
  proof (cases "find_node bp (rs_cursor s)")
    case None
    let ?s = "s\<lparr>rs_cursor := []\<rparr>"
    from None True cur assms(4)
    have "handle_error env bp (routing_error (rs_cursor s) (rs_current_node_id s)) ?s = (Handled, s')"
      by (auto simp: drive_step_def Let_def on_error_pass_def split: prod.splits handled.splits)
    with closer_error [OF assms(1), of ?s env _ s' s] assms(3) True None cur show ?thesis
      by (simp add: run_ok_def frames_ok_def known_def)
  next
    case (Some n)
    then have "sequential_node n" using sequential_find [OF assms(2)] by (simp add: sequential_node_def)
    moreover have "node_closed bp n" by (rule node_closed_find [OF assms(1) Some])
    moreover have "node_pass drv env bp n s w = Some (Next s' w')" using assms(4) True cur Some by (simp add: drive_step_def)
    moreover have "known bp (rs_cursor s)" using Some by (simp add: known_def)
    ultimately show ?thesis using node_pass_next [OF assms(1)] assms(3) True by (simp add: run_ok_def)
  qed
qed

lemma drive_step_some:
  assumes "sequential bp"
  shows "drive_step drv env bp s w \<noteq> None" and "drive_step drv env bp s w = drive_step drv' env bp s w"
proof -
  have np: "node_pass drv env bp n s w \<noteq> None \<and> node_pass drv env bp n s w = node_pass drv' env bp n s w"
    if found: "find_node bp i = Some n" for i n
  proof -
    let ?s = "s\<lparr>rs_current_node_id := nd_id n, rs_visits := Suc (rs_visits s), rs_visited := rs_visited s @ [nd_id n]\<rparr>"
    obtain r s3 w1 where "perform drv env bp n ?s w = Some (r, s3, w1)" "perform drv' env bp n ?s w = Some (r, s3, w1)"
      using perform_some [of n drv env bp ?s w drv'] sequential_find [OF assms found] by fastforce
    then show ?thesis by (simp add: node_pass_def Let_def split: sum.split)
  qed
  show "drive_step drv env bp s w \<noteq> None" "drive_step drv env bp s w = drive_step drv' env bp s w"
    using np by (cases "find_node bp (rs_cursor s)"; fastforce simp: drive_step_def Let_def)+
qed

lemma drive_terminates_ex:
  assumes "closed_blueprint bp" and "sequential bp" and "run_ok bp s"
  shows "\<exists>fuel. drive fuel env bp s w \<noteq> None"
  using assms(3)
proof (induction s arbitrary: w rule: wf_induct_rule
    [OF wf_measures [of "[\<lambda>s. Suc (rs_budget s) - rs_visits s, detour bp]"]])
  case (1 s)
  show ?case
  proof (cases "rs_finished s")
    case True
    then have "drive 0 env bp s w \<noteq> None" by (simp add: drive.simps)
    then show ?thesis ..
  next
    case False
    obtain p where p: "drive_step (drive 0 env bp) env bp s w = Some p"
      using drive_step_some(1) [OF assms(2), of "drive 0 env bp" env s w] by auto
    show ?thesis
    proof (cases p)
      case (Next s' w')
      from drive_step_next [OF assms(1,2) "1.prems"] p Next have c: "closer bp s s'" by simp
      then have "(s', s) \<in> measures [\<lambda>s. Suc (rs_budget s) - rs_visits s, detour bp]" by (auto simp: closer_def)
      moreover have "run_ok bp s'" using c by (simp add: closer_def)
      ultimately obtain k where "drive k env bp s' w' \<noteq> None" using "1.IH" by blast
      with False p Next drive_step_some(2) [OF assms(2), of "drive 0 env bp" env s w "drive k env bp"]
      have "drive (Suc k) env bp s w \<noteq> None" by (simp add: drive.simps)
      then show ?thesis ..
    qed (use False p in \<open>auto simp: drive.simps intro!: exI [of _ "Suc 0"]\<close>)
  qed
qed

section \<open>The loop as a step relation\<close>

inductive steps :: "'w env \<Rightarrow> workflow \<Rightarrow> run_state \<times> 'w \<Rightarrow> run_state \<times> 'w \<Rightarrow> bool"
  for env :: "'w env" and bp :: workflow where
  pass: "\<not> rs_finished s \<Longrightarrow> drive_step (drive fuel env bp) env bp s w = Some (Next s' w') \<Longrightarrow>
         steps env bp (s, w) (s', w')"

inductive_simps steps_iff: "steps env bp (s, w) (s', w')"

inductive_cases steps_cases: "steps env bp (s, w) x"

text \<open>What \<open>drive\<close> returns: the state the passes lead to, when it is finished, or the one its last pass
  left.\<close>

inductive drives :: "'w env \<Rightarrow> workflow \<Rightarrow> run_state \<times> 'w \<Rightarrow> sapo_error option \<times> run_state \<times> 'w \<Rightarrow> bool"
  for env :: "'w env" and bp :: workflow where
  over: "rs_finished s \<Longrightarrow> drives env bp (s, w) (None, s, w)"
| halt: "\<not> rs_finished s \<Longrightarrow> drive_step (drive fuel env bp) env bp s w = Some (Halt s' w') \<Longrightarrow>
         drives env bp (s, w) (None, s', w')"
| escape: "\<not> rs_finished s \<Longrightarrow> drive_step (drive fuel env bp) env bp s w = Some (Escapes e s' w') \<Longrightarrow>
           drives env bp (s, w) (Some e, s', w')"
| more: "steps env bp x y \<Longrightarrow> drives env bp y r \<Longrightarrow> drives env bp x r"

lemma drive_drives: "drive fuel env bp s w = Some r \<Longrightarrow> drives env bp (s, w) r"
proof (induction fuel arbitrary: s w)
  case 0
  then show ?case by (auto simp: drive.simps intro: drives.over split: if_splits)
next
  case (Suc fuel)
  show ?case
  proof (cases "rs_finished s")
    case False
    with Suc.prems obtain p where p: "drive_step (drive fuel env bp) env bp s w = Some p"
      by (auto simp: drive.simps split: option.splits)
    show ?thesis
    proof (cases p)
      case (Next s' w')
      with Suc False p have "drives env bp (s', w') r" by (simp add: drive.simps)
      then show ?thesis by (rule drives.more [OF steps.pass [OF False p [unfolded Next]]])
    next
      case (Halt s' w')
      with Suc.prems False p have "r = (None, s', w')" by (simp add: drive.simps)
      then show ?thesis using drives.halt [OF False p [unfolded Halt]] by simp
    next
      case (Escapes e s' w')
      with Suc.prems False p have "r = (Some e, s', w')" by (simp add: drive.simps)
      then show ?thesis using drives.escape [OF False p [unfolded Escapes]] by simp
    qed
  qed (use Suc.prems in \<open>auto simp: drive.simps intro: drives.over\<close>)
qed

text \<open>A run that ends without an escaping error is marked finished.\<close>

lemma signal_pass_halt: "signal_pass env bp n sig s w = Halt s' w' \<Longrightarrow> rs_finished s'"
  by (cases sig)
     (auto simp: signal_pass_def suspend_run_def terminate_run_def loop_control_pass_def advanced_pass_def Let_def
       split: if_splits prod.splits option.splits bool.splits)

lemma on_error_halt:
  "on_error_pass h u w = Halt s' w' \<Longrightarrow> (\<And>s. rs_finished (u s)) \<Longrightarrow> rs_finished s'"
  by (auto simp: on_error_pass_def split: prod.splits handled.splits)

lemma fail_run_finished [simp]: "rs_finished (fail_run c m i d s)"
  by (simp add: fail_run_def)

lemma node_pass_halt: "node_pass drv env bp n s w = Some (Halt s' w') \<Longrightarrow> rs_finished s'"
  by (auto simp: node_pass_def Let_def advanced_pass_def dest: signal_pass_halt on_error_halt
      split: if_splits option.splits prod.splits sum.splits)

lemma drive_step_halt: "drive_step drv env bp s w = Some (Halt s' w') \<Longrightarrow> rs_finished s'"
  by (auto simp: drive_step_def Let_def dest: node_pass_halt dest!: on_error_halt split: if_splits option.splits)

lemma drives_finished: "drives env bp x r \<Longrightarrow> fst r = None \<Longrightarrow> rs_finished (fst (snd r))"
  by (induction rule: drives.induct) (auto dest: drive_step_halt)

section \<open>The budget\<close>

definition in_budget :: "nat \<Rightarrow> run_state \<Rightarrow> bool" where
  "in_budget b s \<longleftrightarrow> rs_budget s = b \<and> rs_visits s \<le> b \<and> length (rs_visited s) \<le> rs_visits s"

definition budget_kept :: "nat \<Rightarrow> run_state \<Rightarrow> bool" where
  "budget_kept b s \<longleftrightarrow> rs_visits s \<le> Suc b \<and> length (rs_visited s) \<le> b"

lemma in_budget_within: "in_budget b s \<Longrightarrow> budget_kept b s"
  by (simp add: in_budget_def budget_kept_def)

lemma within_same: "same_visits s s' \<Longrightarrow> budget_kept b s \<Longrightarrow> budget_kept b s'"
  by (simp add: same_visits_def budget_kept_def)

lemma on_error_within:
  assumes "budget_kept b s" and "\<And>s. rs_visits (u s) = rs_visits s \<and> rs_visited (u s) = rs_visited s"
    and "on_error_pass (handle_error env bp e s) u w = p"
  shows "case p of Next s' _ \<Rightarrow> True | Halt s' _ \<Rightarrow> budget_kept b s' | Escapes _ s' _ \<Rightarrow> budget_kept b s'"
  using within_same [OF handle_error_same_visits [of s env bp e] assms(1)] assms(2,3)
  by (auto simp: on_error_pass_def budget_kept_def split: prod.splits handled.splits)

lemma advanced_within:
  "budget_kept b s \<Longrightarrow> same_visits s (snd a) \<Longrightarrow> advanced_pass a w = Escapes e s' w' \<Longrightarrow> budget_kept b s'"
  by (auto simp: advanced_pass_def budget_kept_def same_visits_def split: prod.splits option.splits)

lemma advanced_not_halt [simp]: "advanced_pass a w \<noteq> Halt s' w'"
  by (auto simp: advanced_pass_def split: prod.splits option.splits)

lemma loop_control_within:
  assumes "budget_kept b s" and "same_visits s (snd (snd r))"
  shows "case loop_control_pass word n r w of Next _ _ \<Rightarrow> True | Halt s' _ \<Rightarrow> budget_kept b s' | Escapes _ s' _ \<Rightarrow> budget_kept b s'"
  using assms
  by (auto simp: loop_control_pass_def advanced_pass_def budget_kept_def same_visits_def
      split: prod.splits option.splits bool.splits pass.splits)

lemma signal_pass_within:
  assumes "budget_kept b s"
  shows "case signal_pass env bp n sig s w of Next _ _ \<Rightarrow> True | Halt s' _ \<Rightarrow> budget_kept b s' | Escapes _ s' _ \<Rightarrow> budget_kept b s'"
proof (cases sig)
  case Continue
  have "same_visits s (snd (advance_after_node env bp s))"
    unfolding advance_after_node_def by (rule same_visits_run [OF advance_same_run])
  with Continue assms show ?thesis
    by (auto simp: signal_pass_def split: pass.splits dest: advanced_within)
next
  case (LoopBreak l)
  from loop_control_within [OF assms same_visits_run [OF finish_loop_same_run [of s env bp "option_text l"]],
      of "''break''" n w] LoopBreak assms
  show ?thesis by (simp add: signal_pass_def)
next
  case (LoopContinue l)
  from loop_control_within [OF assms same_visits_run [OF next_iteration_same_run [of s env bp "option_text l"]],
      of "''continue''" n w] LoopContinue assms
  show ?thesis by (simp add: signal_pass_def)
qed (use assms in \<open>simp_all add: signal_pass_def suspend_run_def terminate_run_def Let_def budget_kept_def\<close>)

lemma node_pass_within:
  assumes "sequential_node n" and "node_closed bp n" and "frames_ok bp s" and "in_budget b s"
    and "node_pass drv env bp n s w = Some p"
  shows "case p of Next _ _ \<Rightarrow> True | Halt s' _ \<Rightarrow> budget_kept b s' | Escapes _ s' _ \<Rightarrow> budget_kept b s'"
proof (cases "rs_visits s < rs_budget s")
  case False
  with assms(4,5) show ?thesis by (auto simp: node_pass_def Let_def in_budget_def budget_kept_def split: if_splits)
next
  case True
  let ?s = "s\<lparr>rs_current_node_id := nd_id n, rs_visits := Suc (rs_visits s), rs_visited := rs_visited s @ [nd_id n]\<rparr>"
  have w0: "budget_kept b ?s" using assms(4) True by (simp add: budget_kept_def in_budget_def)
  have ok: "frames_ok bp ?s" using assms(3) by (simp add: frames_ok_def)
  show ?thesis
  proof (cases "nd_enabled n")
    case False
    have "same_visits ?s (snd (advance_after_node env bp ?s))"
      unfolding advance_after_node_def by (rule same_visits_run [OF advance_same_run])
    with advanced_within [OF w0 this] False True assms(5) show ?thesis
      by (auto simp: node_pass_def Let_def split: pass.splits)
  next
    case en: True
    obtain r s3 w1 where pf: "perform drv env bp n ?s w = Some (r, s3, w1)"
      using perform_some [of n drv env bp ?s w drv] assms(1) by (auto simp: sequential_node_def)
    have "same_core ?s s3"
      using perform_core [OF _ assms(2) ok pf] assms(1) by (auto simp: sequential_node_def)
    then have w3: "budget_kept b s3" using w0 by (simp add: same_core_def budget_kept_def)
    have fin: "rs_visits (fail_run c m i d s) = rs_visits s \<and> rs_visited (fail_run c m i d s) = rs_visited s" for c m i d s
      by (simp add: fail_run_def)
    show ?thesis
    proof (cases r)
      case (Inl e)
      with True en pf assms(5) show ?thesis
        by (auto simp: node_pass_def Let_def intro!: on_error_within [OF w3 fin])
    next
      case (Inr sig)
      with True en pf assms(5) signal_pass_within [OF w3, of env bp n sig w1] show ?thesis
        by (auto simp: node_pass_def Let_def)
    qed
  qed
qed

lemma drive_step_within:
  assumes "closed_blueprint bp" and "sequential bp" and "run_ok bp s" and "in_budget b s"
    and "drive_step drv env bp s w = Some p"
  shows "case p of Next _ _ \<Rightarrow> True | Halt s' _ \<Rightarrow> budget_kept b s' | Escapes _ s' _ \<Rightarrow> budget_kept b s'"
proof (cases "is_null (rs_pending_error s)")
  case False
  have w0: "budget_kept b (s\<lparr>rs_pending_error := JNull\<rparr>)" using in_budget_within [OF assms(4)] by (simp add: budget_kept_def)
  have fin: "rs_visits (fail_run c m i d s) = rs_visits s \<and> rs_visited (fail_run c m i d s) = rs_visited s" for c m i d s
    by (simp add: fail_run_def)
  from False assms(5) show ?thesis
    by (auto simp: drive_step_def Let_def intro!: on_error_within [OF w0 fin])
next
  case True
  have w0: "budget_kept b (s\<lparr>rs_cursor := []\<rparr>)" "budget_kept b s" using in_budget_within [OF assms(4)] by (simp_all add: budget_kept_def)
  show ?thesis
  proof (cases "rs_cursor s = []")
    case cur: False
    show ?thesis
    proof (cases "find_node bp (rs_cursor s)")
      case None
      let ?e = "routing_error (rs_cursor s) (rs_current_node_id s)"
      let ?u = "\<lambda>s1. s1\<lparr>rs_status := ''failed'', rs_error := ce_message ?e, rs_error_code := ce_code ?e,
                          rs_finished := True\<rparr>"
      from None True cur assms(5) on_error_within [OF w0(1) _ refl, of ?u env bp ?e w] show ?thesis
        by (simp add: drive_step_def Let_def)
    next
      case (Some n)
      then have sq: "sequential_node n" using sequential_find [OF assms(2)] by (simp add: sequential_node_def)
      have fr: "frames_ok bp s" using assms(3) by (simp add: run_ok_def)
      have "node_pass drv env bp n s w = Some p" using True cur Some assms(5) by (simp add: drive_step_def)
      then show ?thesis by (rule node_pass_within [OF sq node_closed_find [OF assms(1) Some] fr assms(4)])
    qed
  qed (use True assms(5) w0 in \<open>auto simp: drive_step_def budget_kept_def\<close>)
qed

lemma drives_within:
  assumes "closed_blueprint bp" and "sequential bp"
  shows "drives env bp x r \<Longrightarrow> run_ok bp (fst x) \<Longrightarrow> in_budget b (fst x) \<Longrightarrow> budget_kept b (fst (snd r))"
proof (induction rule: drives.induct)
  case (over s w)
  then show ?case by (simp add: in_budget_within)
next
  case (halt s fuel w s' w')
  with drive_step_within [OF assms _ _ halt(2), of b] show ?case by simp
next
  case (escape s fuel w e s' w')
  with drive_step_within [OF assms _ _ escape(2), of b] show ?case by simp
next
  case (more x y r)
  then obtain s w s' w' fuel where xy: "x = (s, w)" "y = (s', w')"
    and st: "drive_step (drive fuel env bp) env bp s w = Some (Next s' w')"
    by (auto elim: steps.cases)
  have c: "closer bp s s'" using drive_step_next [OF assms _ st] more.prems(1) xy by simp
  then have "in_budget b s'" using more.prems(2) xy by (auto simp: closer_def in_budget_def)
  with more.IH c xy show ?case by (simp add: closer_def)
qed

section \<open>Properties\<close>

lemma drive_more_fuel: "drive fuel env bp s w = Some r \<Longrightarrow> fuel \<le> k \<Longrightarrow> drive k env bp s w = Some r"
  using drive_mono [of fuel env bp s w r "k - fuel"] by simp

text \<open>A blueprint of two nodes, the second of which loops over itself, for the witnesses.\<close>

definition plain_node :: "string \<Rightarrow> string option \<Rightarrow> node_body \<Rightarrow> node" where
  "plain_node i nx body =
     \<lparr>nd_id = i, nd_next = nx, nd_on_error = None, nd_retry = None, nd_label = None, nd_enabled = True, nd_body = body\<rparr>"

definition noop_body :: node_body where
  "noop_body = Noop \<lparr>no_meta = JObj [], no_assign = JObj []\<rparr>"

definition demo_blueprint :: workflow where
  "demo_blueprint =
     \<lparr>wf_nodes = [], wf_entry_id = ''a'',
      wf_metadata = \<lparr>md_name = ''demo'', md_version = ''1'', md_description = [], md_trigger_event = None,
        md_trigger_input = JObj [], md_defaults = JObj [], md_raw = JObj []\<rparr>,
      wf_warnings = [],
      wf_index = [(''a'', plain_node ''a'' (Some ''b'') noop_body), (''b'', plain_node ''b'' (Some ''b'') noop_body)]\<rparr>"

definition demo_env :: "'w env" where
  "demo_env =
     \<lparr>en_task = (\<lambda>t. if t = TNoop then Some (\<lambda>x w. (Signals Continue, ex_ctx x, w)) else None),
      en_eval = (\<lambda>e x. Inr JNull), en_eval_bool = (\<lambda>e x. Inr True), en_dump = (\<lambda>j. ''x''),
      en_max_node_visits = 100, en_max_branch_visits = 100\<rparr>"

definition demo_start :: run_state where
  "demo_start = new_run_state\<lparr>rs_cursor := ''a'', rs_budget := 100\<rparr>"

lemma demo_closed: "closed_blueprint demo_blueprint" "sequential demo_blueprint"
  by (simp_all add: closed_blueprint_def sequential_def demo_blueprint_def node_closed_def known_opt_def known_def
      find_node_def plain_node_def noop_body_def)

lemma demo_start_ok: "run_ok demo_blueprint demo_start" "in_budget 100 demo_start"
  by (simp_all add: run_ok_def frames_ok_def demo_start_def new_run_state_def in_budget_def)

text \<open>
  C1: Every run of a blueprint without parallel sections ends, whatever its tasks, expressions and jumps do: from
  some fuel on \<open>drive\<close> returns one and the same result, the run is marked finished unless an exception left the
  loop, at most \<open>budget\<close> nodes have been executed, and the counter has passed the budget by at most one.
\<close>

theorem run_ends_within_budget:
  assumes "closed_blueprint bp" and "sequential bp" and "run_ok bp s"
    and "rs_visits s \<le> rs_budget s" and "length (rs_visited s) \<le> rs_visits s"
  shows "\<exists>fuel thrown s' w'. (\<forall>k \<ge> fuel. drive k env bp s w = Some (thrown, s', w')) \<and>
           (thrown = None \<longrightarrow> rs_finished s') \<and>
           length (rs_visited s') \<le> rs_budget s \<and> rs_visits s' \<le> Suc (rs_budget s)"
proof -
  obtain fuel thrown s' w' where d: "drive fuel env bp s w = Some (thrown, s', w')"
    using drive_terminates_ex [OF assms(1-3), where env = env and w = w] by auto
  note dr = drive_drives [OF d]
  have b: "in_budget (rs_budget s) (fst (s, w))" using assms(4,5) by (simp add: in_budget_def)
  have ok: "run_ok bp (fst (s, w))" using assms(3) by simp
  show ?thesis
    using drive_more_fuel [OF d] drives_finished [OF dr] drives_within [OF assms(1,2) dr ok b]
    by (auto simp: budget_kept_def intro!: exI [of _ fuel] exI [of _ thrown] exI [of _ s'] exI [of _ w'])
qed

theorem run_ends_within_budget_witness:
  "\<exists>fuel thrown s' w'. (\<forall>k \<ge> fuel. drive k (demo_env :: unit env) demo_blueprint demo_start () = Some (thrown, s', w')) \<and>
     (thrown = None \<longrightarrow> rs_finished s') \<and> length (rs_visited s') \<le> 100 \<and> rs_visits s' \<le> 101"
  using run_ends_within_budget [OF demo_closed demo_start_ok(1), where env = "demo_env :: unit env" and w = "()"]
  by (simp add: demo_start_def new_run_state_def)

end
