(* ===== verification/Sapo_EventBus.thy ===== *)
theory Sapo_EventBus
  imports Sapo_StateStore
begin

text \<open>
  \<open>runtime/EventBus.hpp\<close> and \<open>runtime/EventBus.cpp\<close>: events and their documents, the subscription table,
  and \<open>publish\<close>.  A handler is code of the host: the parameter \<open>call\<close> runs it on the event, in a state
  that holds the bus itself and the host's world, so a handler may subscribe, unsubscribe or publish; it
  answers whether it threw.  The subscription table is read once, under the lock, before any handler runs.

  The lemmas state what the comment in the header promises: every subscriber whose pattern matches runs
  exactly once, in subscription order, whether or not an earlier one threw or changed the table; the ring
  holds the last events published; a subscription identifier is never reused.
\<close>

section \<open>Events\<close>

record event =
  evt_name :: string
  evt_payload :: json
  evt_session_id :: string
  evt_execution_id :: string
  evt_correlation_id :: string
  evt_source_node :: string
  evt_timestamp_ms :: int

definition new_event :: event where
  "new_event = \<lparr>evt_name = [], evt_payload = JObj [], evt_session_id = [], evt_execution_id = [],
     evt_correlation_id = [], evt_source_node = [], evt_timestamp_ms = 0\<rparr>"

definition set_text :: "string \<Rightarrow> string \<Rightarrow> json \<Rightarrow> json" where
  "set_text k v d = (if v = [] then d else jset k (JStr v) d)"

definition event_to_json :: "event \<Rightarrow> json" where
  "event_to_json e =
     (let d = jobj [(''name'', JStr (evt_name e)), (''payload'', evt_payload e),
                    (''timestamp_ms'', JInt (evt_timestamp_ms e))];
          d1 = set_text ''session_id'' (evt_session_id e) d;
          d2 = set_text ''execution_id'' (evt_execution_id e) d1;
          d3 = set_text ''correlation_id'' (evt_correlation_id e) d2
      in set_text ''source_node'' (evt_source_node e) d3)"

text \<open>The typed getters of \<open>fromJson\<close> throw on a document that is not an object and on a member of another
  type: \<open>None\<close>.\<close>

definition event_typed :: "json \<Rightarrow> bool" where
  "event_typed d \<longleftrightarrow> is_object d \<and>
     list_all (text_member d) [''name'', ''session_id'', ''execution_id'', ''correlation_id'', ''source_node''] \<and>
     number_member d ''timestamp_ms''"

definition event_from_json :: "json \<Rightarrow> event option" where
  "event_from_json d =
     (if \<not> event_typed d then None
      else Some \<lparr>evt_name = jvalue_str ''name'' [] d, evt_payload = jvalue ''payload'' (JObj []) d,
             evt_session_id = jvalue_str ''session_id'' [] d, evt_execution_id = jvalue_str ''execution_id'' [] d,
             evt_correlation_id = jvalue_str ''correlation_id'' [] d,
             evt_source_node = jvalue_str ''source_node'' [] d,
             evt_timestamp_ms = jvalue_int ''timestamp_ms'' 0 d\<rparr>)"

lemma is_object_set_text [simp]: "is_object d \<Longrightarrow> is_object (set_text k v d)"
  by (simp add: set_text_def)

lemma jget_set_text [json_simps]:
  "is_object d \<Longrightarrow> jget k (set_text k' v d) = (if k = k' \<and> v \<noteq> [] then Some (JStr v) else jget k d)"
  by (simp add: set_text_def json_simps)

lemma event_round_trip: "event_from_json (event_to_json e) = Some e"
proof -
  have typed: "event_typed (event_to_json e)"
    by (simp add: event_typed_def event_to_json_def Let_def text_member_def number_member_def json_simps)
  then show ?thesis
    unfolding event_from_json_def
    by (simp add: event_to_json_def Let_def jvalue_defs json_simps)
qed

section \<open>The bus\<close>

record 'h subscriber =
  sb_id :: nat
  sb_pattern :: string
  sb_handler :: 'h

record 'h bus =
  bu_subscribers :: "'h subscriber list"
  bu_recent :: "event list"
  bu_recent_capacity :: nat
  bu_next_id :: nat

definition new_bus :: "'h bus" where
  "new_bus = \<lparr>bu_subscribers = [], bu_recent = [], bu_recent_capacity = 256, bu_next_id = 1\<rparr>"

definition pattern_matches :: "string \<Rightarrow> string \<Rightarrow> bool" where
  "pattern_matches pattern name \<longleftrightarrow>
     (if pattern = ''*'' \<or> pattern = name then True
      else if 2 < length pattern \<and> last pattern = CHR ''*'' then starts_with (butlast pattern) name
      else False)"

definition subscribe :: "string \<Rightarrow> 'h \<Rightarrow> 'h bus \<Rightarrow> 'h bus \<times> nat" where
  "subscribe pattern handler b =
     (let i = bu_next_id b
      in (b\<lparr>bu_next_id := i + 1,
            bu_subscribers := bu_subscribers b @ [\<lparr>sb_id = i, sb_pattern = pattern, sb_handler = handler\<rparr>]\<rparr>, i))"

definition unsubscribe :: "nat \<Rightarrow> 'h bus \<Rightarrow> 'h bus \<times> bool" where
  "unsubscribe i b =
     (let kept = filter (\<lambda>s. sb_id s \<noteq> i) (bu_subscribers b)
      in (b\<lparr>bu_subscribers := kept\<rparr>, length kept \<noteq> length (bu_subscribers b)))"

text \<open>\<open>while (size > capacity) pop_front()\<close>.\<close>

definition trim_recent :: "'h bus \<Rightarrow> 'h bus" where
  "trim_recent b = b\<lparr>bu_recent := drop (length (bu_recent b) - bu_recent_capacity b) (bu_recent b)\<rparr>"

definition targets_of :: "event \<Rightarrow> 'h bus \<Rightarrow> 'h subscriber list" where
  "targets_of e b = filter (\<lambda>s. pattern_matches (sb_pattern s) (evt_name e)) (bu_subscribers b)"

definition record_event :: "event \<Rightarrow> 'h bus \<Rightarrow> 'h bus" where
  "record_event e b = trim_recent (b\<lparr>bu_recent := bu_recent b @ [e]\<rparr>)"

text \<open>The loop over the targets: an exception is logged (the pair of the event and the subscriber's
  identifier) and the loop goes on.\<close>

fun deliver ::
  "('h \<Rightarrow> event \<Rightarrow> 'h bus \<times> 'w \<Rightarrow> bool \<times> 'h bus \<times> 'w) \<Rightarrow> event \<Rightarrow> 'h subscriber list \<Rightarrow> 'h bus \<times> 'w
     \<Rightarrow> nat list \<times> 'h bus \<times> 'w" where
  "deliver call e [] x = ([], x)"
| "deliver call e (s # ss) x =
     (let (threw, x1) = call (sb_handler s) e x; (failed, x2) = deliver call e ss x1
      in (if threw then sb_id s # failed else failed, x2))"

definition publish ::
  "('h \<Rightarrow> event \<Rightarrow> 'h bus \<times> 'w \<Rightarrow> bool \<times> 'h bus \<times> 'w) \<Rightarrow> event \<Rightarrow> 'h bus \<times> 'w \<Rightarrow> nat list \<times> 'h bus \<times> 'w" where
  "publish call e x = (case x of (b, w) \<Rightarrow> deliver call e (targets_of e b) (record_event e b, w))"

definition publish_named ::
  "('h \<Rightarrow> event \<Rightarrow> 'h bus \<times> 'w \<Rightarrow> bool \<times> 'h bus \<times> 'w) \<Rightarrow> string \<Rightarrow> json \<Rightarrow> 'h bus \<times> 'w
     \<Rightarrow> nat list \<times> 'h bus \<times> 'w" where
  "publish_named call name payload x = publish call (new_event\<lparr>evt_name := name, evt_payload := payload\<rparr>) x"

definition subscriber_count :: "'h bus \<Rightarrow> nat" where
  "subscriber_count b = length (bu_subscribers b)"

definition bus_patterns :: "'h bus \<Rightarrow> string list" where
  "bus_patterns b = map sb_pattern (bu_subscribers b)"

definition recent :: "nat \<Rightarrow> 'h bus \<Rightarrow> event list" where
  "recent limit b = (let start = (if length (bu_recent b) > limit then length (bu_recent b) - limit else 0)
                     in drop start (bu_recent b))"

definition set_recent_capacity :: "nat \<Rightarrow> 'h bus \<Rightarrow> 'h bus" where
  "set_recent_capacity capacity b =
     trim_recent (b\<lparr>bu_recent_capacity := if capacity = 0 then 1 else capacity\<rparr>)"

definition clear_recent :: "'h bus \<Rightarrow> 'h bus" where
  "clear_recent b = b\<lparr>bu_recent := []\<rparr>"

section \<open>Well-formed buses\<close>

definition bus_wf :: "'h bus \<Rightarrow> bool" where
  "bus_wf b \<longleftrightarrow> sorted_wrt (<) (map sb_id (bu_subscribers b)) \<and> (\<forall>s \<in> set (bu_subscribers b). sb_id s < bu_next_id b)
     \<and> 0 < bu_recent_capacity b \<and> length (bu_recent b) \<le> bu_recent_capacity b"

lemma new_bus_wf: "bus_wf new_bus"
  by (simp add: bus_wf_def new_bus_def)

lemma subscribe_wf: "bus_wf b \<Longrightarrow> bus_wf (fst (subscribe p h b))"
  by (auto simp: bus_wf_def subscribe_def Let_def sorted_wrt_append)

lemma unsubscribe_wf: "bus_wf b \<Longrightarrow> bus_wf (fst (unsubscribe i b))"
  by (auto simp: bus_wf_def unsubscribe_def Let_def sorted_wrt_map sorted_wrt_filter)

lemma record_event_wf: "bus_wf b \<Longrightarrow> bus_wf (record_event e b)"
  by (auto simp: bus_wf_def record_event_def trim_recent_def)

lemma set_recent_capacity_wf: "bus_wf b \<Longrightarrow> bus_wf (set_recent_capacity n b)"
  by (auto simp: bus_wf_def set_recent_capacity_def trim_recent_def)

lemma clear_recent_wf: "bus_wf b \<Longrightarrow> bus_wf (clear_recent b)"
  by (simp add: bus_wf_def clear_recent_def)

lemmas bus_wf_intros = new_bus_wf subscribe_wf unsubscribe_wf record_event_wf set_recent_capacity_wf clear_recent_wf

section \<open>Delivery\<close>

text \<open>What a handler does to the host is followed through a trace of the handlers entered: \<open>traced call\<close>
  notes the handler and then behaves like \<open>call\<close>, which cannot see the trace.\<close>

definition traced ::
  "('h \<Rightarrow> event \<Rightarrow> 'h bus \<times> 'w \<Rightarrow> bool \<times> 'h bus \<times> 'w) \<Rightarrow> 'h \<Rightarrow> event \<Rightarrow> 'h bus \<times> ('h list \<times> 'w)
     \<Rightarrow> bool \<times> 'h bus \<times> ('h list \<times> 'w)" where
  "traced call h e x =
     (case x of (b, tr, w) \<Rightarrow> (case call h e (b, w) of (threw, b1, w1) \<Rightarrow> (threw, b1, tr @ [h], w1)))"

lemma deliver_trace:
  "fst (snd (snd (deliver (traced call) e ss (b, tr, w)))) = tr @ map sb_handler ss"
proof (induction ss arbitrary: b tr w)
  case (Cons s ss)
  obtain t b1 w1 where c: "call (sb_handler s) e (b, w) = (t, b1, w1)" by (metis prod_cases3)
  show ?case using Cons.IH[of b1 "tr @ [sb_handler s]" w1] by (simp add: traced_def c split_beta)
qed simp

lemma publish_trace:
  "fst (snd (snd (publish (traced call) e (b, tr, w)))) =
     tr @ map sb_handler (filter (\<lambda>s. pattern_matches (sb_pattern s) (evt_name e)) (bu_subscribers b))"
  by (simp add: publish_def deliver_trace targets_of_def)

lemma unsubscribed_not_target: "s \<in> set (targets_of e (fst (unsubscribe i b))) \<Longrightarrow> sb_id s \<noteq> i"
  by (simp add: targets_of_def unsubscribe_def Let_def)

text \<open>A handler that only touches its own world leaves the bus as \<open>publish\<close> recorded it.\<close>

lemma deliver_bus:
  assumes "\<And>h e b w. fst (snd (call h e (b, w))) = b"
  shows "fst (snd (deliver call e ss (b, w))) = b"
proof (induction ss arbitrary: w)
  case (Cons s ss)
  obtain t b1 w1 where c: "call (sb_handler s) e (b, w) = (t, b1, w1)" by (metis prod_cases3)
  then have "b1 = b" using assms[of "sb_handler s" e b w] by simp
  with c Cons.IH[of w1] show ?case by (auto split: prod.splits)
qed simp

lemma drop_to_last:
  "drop (length (drop (length xs - c) xs @ ys) - c) (drop (length xs - c) xs @ ys) =
     drop (length (xs @ ys) - c) (xs @ ys)"
proof (cases "length xs \<le> c")
  case False
  then have "length (drop (length xs - c) xs @ ys) - c = length ys" by simp
  moreover have "drop (length xs - c) xs @ ys = drop (length xs - c) (xs @ ys)" by simp
  ultimately show ?thesis using False unfolding drop_drop[symmetric] by (metis add.commute drop_drop diff_add_assoc2 length_append less_imp_le_nat not_le)
qed simp

lemma recent_after:
  "bu_recent_capacity b = c \<Longrightarrow> length (bu_recent b) \<le> c \<Longrightarrow>
     bu_recent (foldl (\<lambda>b e. record_event e b) b es) = drop (length (bu_recent b @ es) - c) (bu_recent b @ es)"
proof (induction es arbitrary: b)
  case (Cons e es)
  let ?xs = "bu_recent b @ [e]"
  have cap: "bu_recent_capacity (record_event e b) = c"
    and rec: "bu_recent (record_event e b) = drop (length ?xs - c) ?xs"
    using Cons.prems by (simp_all add: record_event_def trim_recent_def)
  have len: "length (bu_recent (record_event e b)) \<le> c" unfolding rec by simp
  show ?case using Cons.IH[OF cap len] unfolding rec drop_to_last by simp
qed simp

section \<open>Properties\<close>

text \<open>
  C32: Publishing calls exactly the handlers whose pattern matches the event's name at that moment, each once, in the
  order they subscribed, whatever the handlers do: throw, publish, subscribe or unsubscribe.
\<close>

theorem publish_calls_matching_handlers:
  "fst (snd (snd (publish (traced call) e (b, [], w)))) =
     map sb_handler (filter (\<lambda>s. pattern_matches (sb_pattern s) (evt_name e)) (bu_subscribers b))"
  by (simp add: publish_trace)

definition sample_bus :: "string bus" where
  "sample_bus = fst (subscribe ''*'' ''all'' (fst (subscribe ''order.*'' ''orders'' new_bus)))\<lparr>bu_recent_capacity := 2\<rparr>"

definition named_event :: "string \<Rightarrow> event" where
  "named_event n = new_event\<lparr>evt_name := n\<rparr>"

text \<open>
  The ring of recent events: after any number of publications the bus remembers the latest ones in order, as many
  as its capacity allows, and subscriptions made on the way make no difference.
\<close>

theorem recent_events_are_the_latest:
  assumes "bus_wf b"
  shows "bu_recent (foldl (\<lambda>b e. record_event e (fst (subscribe p h b))) b es) =
           drop (length (bu_recent b @ es) - bu_recent_capacity b) (bu_recent b @ es)"
proof -
  have "bu_recent (foldl (\<lambda>b e. record_event e (fst (subscribe p h b))) b es) = bu_recent (foldl (\<lambda>b e. record_event e b) b' es)"
    if "bu_recent b = bu_recent b'" and "bu_recent_capacity b = bu_recent_capacity b'" for b b' :: "'a bus"
    using that
    by (induction es arbitrary: b b') (simp_all add: record_event_def trim_recent_def subscribe_def Let_def)
  then show ?thesis
    using recent_after [of b "bu_recent_capacity b" es] assms by (simp add: bus_wf_def)
qed

theorem recent_events_are_the_latest_witness:
  "map evt_name (bu_recent (foldl (\<lambda>b e. record_event e (fst (subscribe ''x'' ''h'' b))) sample_bus
     (map named_event [''a'', ''b'', ''c'']))) = [''b'', ''c'']"
proof -
  have "bus_wf sample_bus"
    using subscribe_wf [OF subscribe_wf [OF new_bus_wf], of "''order.*''" "''orders''" "''*''" "''all''"]
    by (simp add: bus_wf_def sample_bus_def subscribe_def new_bus_def Let_def)
  note latest = recent_events_are_the_latest [OF this, of "''x''" "''h''" "map named_event [''a'', ''b'', ''c'']"]
  show ?thesis unfolding latest by (simp add: sample_bus_def subscribe_def new_bus_def Let_def named_event_def)
qed

end
