(* ===== verification/Sapo_Registry.thy ===== *)
theory Sapo_Registry
  imports Sapo_EventBus Sapo_Ast Sapo_Context
begin

text \<open>
  \<open>runtime/WorkflowRegistry.hpp\<close> and \<open>runtime/WorkflowRegistry.cpp\<close>: the registered workflows (a
  \<open>std::map\<close>: an association list in key order), which of them an event starts, the subscriptions that
  start them, and \<open>runChild\<close>, the guard every subflow passes.  The runner is the callback the virtual machine
  installs: an argument.  Loading blueprints from texts and files is not part of this theory.

  The lemmas show that the identifiers stay sorted and distinct, that \<open>runChild\<close> calls the runner only for
  a registered workflow below the depth limit, and how the two decisions "which workflows does this event
  start" relate: the table (\<open>workflowsTriggeredBy\<close>) and the bus (\<open>installEventTriggers\<close>) agree except on
  triggers of one character and a star, which the bus never delivers.
\<close>

section \<open>Entries\<close>

record workflow_entry =
  we_id :: string
  we_workflow :: workflow
  we_origin :: string
  we_loaded_ms :: int

record child_request =
  cq_workflow_id :: string
  cq_input :: json
  cq_parent_session :: string
  cq_correlation_id :: string
  cq_depth :: nat
  cq_wait :: bool
  cq_node_id :: string
  cq_output_key :: string
  cq_return_map :: json

record child_result =
  cr_session_id :: string
  cr_status :: string
  cr_output :: json
  cr_error :: string

record registry =
  rg_entries :: "(string \<times> workflow_entry) list"
  rg_max_depth :: nat

definition empty_registry :: registry where
  "empty_registry = \<lparr>rg_entries = [], rg_max_depth = 8\<rparr>"

definition registry_add :: "int \<Rightarrow> workflow \<Rightarrow> string \<Rightarrow> string \<Rightarrow> registry \<Rightarrow> registry \<times> string" where
  "registry_add now bp i origin rg =
     (let i1 = (if i = [] then md_name (wf_metadata bp) else i);
          i2 = (if i1 = [] then ''workflow_'' @ int_str (int (length (rg_entries rg) + 1)) else i1);
          bp1 = bp\<lparr>wf_metadata := (wf_metadata bp)\<lparr>md_name := i2\<rparr>\<rparr>;
          e = \<lparr>we_id = i2, we_workflow = bp1, we_origin = (if origin = [] then ''<inline>'' else origin),
               we_loaded_ms = now\<rparr>
      in (rg\<lparr>rg_entries := obj_set i2 e (rg_entries rg)\<rparr>, i2))"

definition registry_remove :: "string \<Rightarrow> registry \<Rightarrow> registry \<times> bool" where
  "registry_remove i rg =
     (rg\<lparr>rg_entries := obj_erase i (rg_entries rg)\<rparr>, map_of (rg_entries rg) i \<noteq> None)"

definition registry_clear :: "registry \<Rightarrow> registry" where
  "registry_clear rg = rg\<lparr>rg_entries := []\<rparr>"

definition registry_entry :: "string \<Rightarrow> registry \<Rightarrow> workflow_entry option" where
  "registry_entry i rg = map_of (rg_entries rg) i"

definition registry_find :: "string \<Rightarrow> registry \<Rightarrow> workflow option" where
  "registry_find i rg = map_option we_workflow (map_of (rg_entries rg) i)"

definition registry_ids :: "registry \<Rightarrow> string list" where
  "registry_ids rg = map fst (rg_entries rg)"

definition set_max_depth :: "nat \<Rightarrow> registry \<Rightarrow> registry" where
  "set_max_depth n rg = rg\<lparr>rg_max_depth := if n = 0 then 1 else n\<rparr>"

section \<open>Triggers\<close>

definition trigger_of :: "workflow_entry \<Rightarrow> string option" where
  "trigger_of e = (case md_trigger_event (wf_metadata (we_workflow e)) of
                     Some t \<Rightarrow> if t = [] then None else Some t | None \<Rightarrow> None)"

definition starts_on :: "string \<Rightarrow> string \<Rightarrow> bool" where
  "starts_on ev t \<longleftrightarrow> t = ev \<or> (t \<noteq> [] \<and> last t = CHR ''*'' \<and> starts_with (butlast t) ev)"

definition workflows_triggered_by :: "string \<Rightarrow> registry \<Rightarrow> string list" where
  "workflows_triggered_by ev rg =
     sort (map fst (filter (\<lambda>(i, e). case trigger_of e of Some t \<Rightarrow> starts_on ev t | None \<Rightarrow> False)
       (rg_entries rg)))"

text \<open>The subscription's handler is the closure over the workflow's identifier: \<open>start i\<close>.\<close>

fun install_entries ::
  "(string \<Rightarrow> 'h) \<Rightarrow> (string \<times> workflow_entry) list \<Rightarrow> 'h bus \<Rightarrow> 'h bus \<times> nat list" where
  "install_entries start [] b = (b, [])"
| "install_entries start ((i, e) # es) b =
     (case trigger_of e of
        None \<Rightarrow> install_entries start es b
      | Some t \<Rightarrow> (let (b1, sub) = subscribe t (start i) b; (b2, subs) = install_entries start es b1
                   in (b2, sub # subs)))"

definition install_event_triggers :: "(string \<Rightarrow> 'h) \<Rightarrow> registry \<Rightarrow> 'h bus \<Rightarrow> 'h bus \<times> nat list" where
  "install_event_triggers start rg b = install_entries start (rg_entries rg) b"

section \<open>Subflows\<close>

fun join_comma :: "string list \<Rightarrow> string" where
  "join_comma [] = []"
| "join_comma [x] = x"
| "join_comma (x # xs) = x @ '', '' @ join_comma xs"

definition run_child ::
  "(child_request \<Rightarrow> 'w \<Rightarrow> child_result res \<times> 'w) option \<Rightarrow> registry \<Rightarrow> child_request \<Rightarrow> 'w
     \<Rightarrow> child_result res \<times> 'w" where
  "run_child runner rg q w =
     (if cq_workflow_id q = [] then
        (Inl (sapo_error Validation (''subflow node has no '' @ quoted ''workflow'' @ '' id'') (JObj [])
           (cq_node_id q)), w)
      else if rg_max_depth rg \<le> cq_depth q then
        (Inl (sapo_error Limit
           (''subflow recursion limit reached ('' @ int_str (int (rg_max_depth rg)) @ '' levels) while starting ''
              @ quoted (cq_workflow_id q))
           (jobj [(''workflow'', JStr (cq_workflow_id q)), (''depth'', JInt (int (cq_depth q)))])
           (cq_node_id q)), w)
      else (case registry_entry (cq_workflow_id q) rg of
        None \<Rightarrow>
          (let available = join_comma (registry_ids rg)
           in (Inl (sapo_error NotFound
                 (''subflow references workflow '' @ quoted (cq_workflow_id q) @ '' which is not registered'' @
                    (if available = [] then '' (no workflows are registered)'' else ''; registered: '' @ available))
                 (jobj [(''workflow'', JStr (cq_workflow_id q))]) (cq_node_id q)), w))
      | Some _ \<Rightarrow>
          (case runner of
             None \<Rightarrow> (Inl (sapo_error Internal
                ''no workflow runner is installed on the registry (subflows need a VM)'' (JObj [])
                (cq_node_id q)), w)
           | Some run \<Rightarrow> run q w)))"

definition reference_problems :: "registry \<Rightarrow> string \<times> workflow_entry \<Rightarrow> string list" where
  "reference_problems rg ie =
     (case ie of (i, e) \<Rightarrow>
        let ns = wf_nodes (we_workflow e);
            missing = (\<lambda>verb n target. if map_of (rg_entries rg) target = None
                         then [''workflow '' @ quoted i @ '' node '' @ quoted (nd_id n) @ verb @ quoted target]
                         else [])
        in concat (map (\<lambda>n. case nd_body n of
                Subflow b \<Rightarrow> missing '' calls unregistered workflow '' n (sf_workflow b) | _ \<Rightarrow> []) ns)
           @ concat (map (\<lambda>n. case nd_body n of
                Schedule b \<Rightarrow> (case sd_workflow b of
                     Some t \<Rightarrow> missing '' schedules unregistered workflow '' n t | None \<Rightarrow> []) | _ \<Rightarrow> []) ns))"

definition unresolved_references :: "registry \<Rightarrow> string list" where
  "unresolved_references rg = remdups_adj (sort (concat (map (reference_problems rg) (rg_entries rg))))"

section \<open>Well-formed registries\<close>

definition registry_wf :: "registry \<Rightarrow> bool" where
  "registry_wf rg \<longleftrightarrow> sorted_keys (rg_entries rg) \<and>
     (\<forall>(i, e) \<in> set (rg_entries rg). i \<noteq> [] \<and> we_id e = i \<and> md_name (wf_metadata (we_workflow e)) = i)"

lemma registry_add_wf: "registry_wf rg \<Longrightarrow> registry_wf (fst (registry_add now bp i origin rg))"
  by (auto simp: registry_wf_def registry_add_def Let_def sorted_keys_obj_set dest!: subsetD[OF set_obj_set])

lemma registry_remove_wf: "registry_wf rg \<Longrightarrow> registry_wf (fst (registry_remove i rg))"
  by (auto simp: registry_wf_def registry_remove_def sorted_keys_obj_erase) (auto simp: obj_erase_def)

lemma registry_find_add:
  "registry_find k (fst (registry_add now bp i origin rg)) =
     (let i2 = snd (registry_add now bp i origin rg)
      in if k = i2 then Some (bp\<lparr>wf_metadata := (wf_metadata bp)\<lparr>md_name := i2\<rparr>\<rparr>) else registry_find k rg)"
  by (simp add: registry_find_def registry_add_def Let_def)

lemma registry_find_remove:
  "registry_find k (fst (registry_remove i rg)) = (if k = i then None else registry_find k rg)"
  by (simp add: registry_find_def registry_remove_def)

lemma run_child_runs:
  "run_child runner rg q w = (Inr r, w') \<Longrightarrow>
     cq_workflow_id q \<noteq> [] \<and> cq_depth q < rg_max_depth rg \<and> registry_find (cq_workflow_id q) rg \<noteq> None \<and>
     (\<exists>run. runner = Some run \<and> run q w = (Inr r, w'))"
  by (auto simp: run_child_def registry_entry_def registry_find_def Let_def split: if_splits option.splits)

lemma run_child_depth:
  "rg_max_depth rg \<le> cq_depth q \<Longrightarrow> \<exists>e. run_child runner rg q w = (Inl e, w)"
  by (simp add: run_child_def)

section \<open>The two readings of a trigger\<close>

lemma starts_on_matches:
  assumes "t \<noteq> []"
  shows "starts_on ev t \<longleftrightarrow> pattern_matches t ev \<or> (length t = 2 \<and> last t = CHR ''*'' \<and> starts_with (butlast t) ev)"
proof -
  consider "length t = 1" | "length t = 2" | "2 < length t"
    using assms by (cases t; cases "tl t"; cases "tl (tl t)") auto
  then show ?thesis
  proof cases
    case 1
    then obtain c where "t = [c]" by (auto simp: length_Suc_conv)
    then show ?thesis by (auto simp: starts_on_def pattern_matches_def starts_with_def)
  next
    case 2
    then have "t \<noteq> ''*''" by auto
    with 2 show ?thesis by (auto simp: starts_on_def pattern_matches_def)
  next
    case 3
    then have "t \<noteq> ''*''" and "t \<noteq> []" by auto
    with 3 show ?thesis by (auto simp: starts_on_def pattern_matches_def)
  qed
qed

lemma install_entries_handlers:
  "map (\<lambda>s. (sb_pattern s, sb_handler s)) (bu_subscribers (fst (install_entries start es b))) =
     map (\<lambda>s. (sb_pattern s, sb_handler s)) (bu_subscribers b) @
     List.map_filter (\<lambda>(i, e). map_option (\<lambda>t. (t, start i)) (trigger_of e)) es"
proof (induction es arbitrary: b)
  case (Cons ie es)
  obtain i e where ie: "ie = (i, e)" by (cases ie)
  show ?case
  proof (cases "trigger_of e")
    case None
    then show ?thesis using Cons.IH[of b] by (simp add: ie List.map_filter_def)
  next
    case (Some t)
    then show ?thesis using Cons.IH[of "fst (subscribe t (start i) b)"]
      by (simp add: ie List.map_filter_def subscribe_def Let_def split_beta)
  qed
qed (simp add: List.map_filter_def)

definition plain_triggers :: "registry \<Rightarrow> bool" where
  "plain_triggers rg \<longleftrightarrow>
     list_all (\<lambda>(i, e). case trigger_of e of Some t \<Rightarrow> length t \<noteq> 2 \<or> last t \<noteq> CHR ''*'' | None \<Rightarrow> True) (rg_entries rg)"

lemma handlers_of_filter:
  "map sb_handler (filter (\<lambda>s. P (sb_pattern s)) xs) =
     map snd (filter (\<lambda>p. P (fst p)) (map (\<lambda>s. (sb_pattern s, sb_handler s)) xs))"
  by (induction xs) auto

lemma installed_entries:
  assumes "list_all (\<lambda>(i, e). case trigger_of e of Some t \<Rightarrow> length t \<noteq> 2 \<or> last t \<noteq> CHR ''*'' | None \<Rightarrow> True) es"
  shows "map snd (filter (\<lambda>p. pattern_matches (fst p) name)
           (List.map_filter (\<lambda>(i, e). map_option (\<lambda>t. (t, start i)) (trigger_of e)) es)) =
         map start (map fst (filter (\<lambda>(i, e). case trigger_of e of Some t \<Rightarrow> starts_on name t | None \<Rightarrow> False) es))"
  using assms
proof (induction es)
  case (Cons ie es)
  obtain i e where ie: "ie = (i, e)" by (cases ie)
  show ?case
  proof (cases "trigger_of e")
    case None
    then show ?thesis using Cons by (simp add: ie List.map_filter_def)
  next
    case (Some t)
    then have "t \<noteq> []" by (auto simp: trigger_of_def split: option.splits if_splits)
    from starts_on_matches[OF this, of name] Some Cons show ?thesis
      by (auto simp: ie List.map_filter_def)
  qed
qed (simp add: List.map_filter_def)

lemma installed_targets:
  assumes "registry_wf rg" and "plain_triggers rg"
  shows "map sb_handler (targets_of e (fst (install_event_triggers start rg new_bus))) =
         map start (workflows_triggered_by (evt_name e) rg)"
proof -
  let ?P = "\<lambda>(i, en). case trigger_of en of Some t \<Rightarrow> starts_on (evt_name e) t | None \<Rightarrow> False"
  have "sorted (map fst (rg_entries rg))"
    using assms(1) by (simp add: registry_wf_def sorted_keys_def strict_sorted_iff)
  then have "sorted (map fst (filter ?P (rg_entries rg)))"
    by (rule sorted_filter)
  then have "workflows_triggered_by (evt_name e) rg = map fst (filter ?P (rg_entries rg))"
    by (simp add: workflows_triggered_by_def sorted_sort_id)
  then show ?thesis
    using installed_entries[OF assms(2)[unfolded plain_triggers_def], of "evt_name e" start]
    by (simp add: targets_of_def install_event_triggers_def install_entries_handlers new_bus_def
        handlers_of_filter[where P = "\<lambda>p. pattern_matches p (evt_name e)"])
qed

section \<open>Properties\<close>

text \<open>
  C40: Installing the event triggers on a fresh bus makes an event start exactly the workflows
  \<open>workflowsTriggeredBy\<close> names, once each and in that order, unless a trigger is a single letter before the star.
\<close>

theorem triggers_start_named_workflows:
  assumes "registry_wf rg" and "plain_triggers rg"
  shows "map sb_handler (targets_of e (fst (install_event_triggers start rg new_bus))) =
         map start (workflows_triggered_by (evt_name e) rg)"
  using assms by (rule installed_targets)

definition triggered :: "string \<Rightarrow> workflow" where
  "triggered t =
     \<lparr>wf_nodes = [], wf_entry_id = [],
      wf_metadata = \<lparr>md_name = ''w1'', md_version = ''1'', md_description = [], md_trigger_event = Some t,
        md_trigger_input = JObj [], md_defaults = JObj [], md_raw = JObj []\<rparr>,
      wf_warnings = [], wf_index = []\<rparr>"

definition one_workflow :: "string \<Rightarrow> registry" where
  "one_workflow t =
     fst (registry_add 0 (triggered t) ''w1'' ''file'' \<lparr>rg_entries = [], rg_max_depth = 32\<rparr>)"

lemma one_workflow_entries:
  "rg_entries (one_workflow t) = [(''w1'', \<lparr>we_id = ''w1'', we_workflow = triggered t, we_origin = ''file'', we_loaded_ms = 0\<rparr>)]"
  by (simp add: one_workflow_def registry_add_def triggered_def Let_def)

theorem triggers_start_named_workflows_witness:
  "map sb_handler (targets_of (named_event ''order.paid'') (fst (install_event_triggers id (one_workflow ''order.*'') new_bus))) =
     [''w1'']"
proof -
  have "registry_wf (one_workflow ''order.*'')"
    by (simp add: registry_wf_def one_workflow_entries sorted_keys_def triggered_def)
  moreover have "plain_triggers (one_workflow ''order.*'')"
    by (simp add: plain_triggers_def one_workflow_entries trigger_of_def triggered_def)
  ultimately show ?thesis
    using triggers_start_named_workflows [where rg = "one_workflow ''order.*''" and start = id and e = "named_event ''order.paid''"]
    by (simp add: workflows_triggered_by_def one_workflow_entries trigger_of_def triggered_def starts_on_def starts_with_def
        named_event_def)
qed

text \<open>
  A trigger of one letter and a star is lost: \<open>workflowsTriggeredBy\<close> names the workflow for an event with that
  letter in front, but the subscription made for it is not a target of the event.
\<close>

theorem short_prefix_trigger_lost:
  "workflows_triggered_by ''ab'' (one_workflow ''a*'') = [''w1''] \<and>
   targets_of (named_event ''ab'') (fst (install_event_triggers id (one_workflow ''a*'') new_bus)) = []"
  by (simp add: workflows_triggered_by_def install_event_triggers_def one_workflow_entries trigger_of_def triggered_def
      starts_on_def starts_with_def targets_of_def subscribe_def new_bus_def pattern_matches_def named_event_def Let_def)

text \<open>
  Subflows are bounded: a child workflow runs only when its identifier is registered and the depth is below the
  limit, and then the runner is called exactly once with the request; a request at the limit starts nothing.
\<close>

theorem child_runs_only_below_limit:
  "(fst (run_child runner rg q w) = Inr r \<longrightarrow>
      cq_depth q < rg_max_depth rg \<and> registry_find (cq_workflow_id q) rg \<noteq> None \<and>
      (\<exists>run. runner = Some run \<and> run_child runner rg q w = run q w)) \<and>
   (rg_max_depth rg \<le> cq_depth q \<longrightarrow> (\<exists>e. run_child runner rg q w = (Inl e, w)))"
  using run_child_depth [of rg q runner w] run_child_runs [of runner rg q w r "snd (run_child runner rg q w)"]
  by (cases "run_child runner rg q w") auto

definition idle_runner :: "child_request \<Rightarrow> unit \<Rightarrow> child_result res \<times> unit" where
  "idle_runner q w = (Inr \<lparr>cr_session_id = [], cr_status = ''launched'', cr_output = JNull, cr_error = []\<rparr>, w)"

definition deep_request :: child_request where
  "deep_request =
     \<lparr>cq_workflow_id = ''w1'', cq_input = JNull, cq_parent_session = [], cq_correlation_id = [], cq_depth = 32,
      cq_wait = True, cq_node_id = [], cq_output_key = [], cq_return_map = JNull\<rparr>"

theorem child_runs_only_below_limit_witness:
  "\<exists>e. run_child (Some idle_runner) (one_workflow ''a'') deep_request () = (Inl e, ())"
  using child_runs_only_below_limit [of "Some idle_runner" "one_workflow ''a''" deep_request "()"]
  by (simp add: one_workflow_def registry_add_def deep_request_def Let_def)

end
