(* ===== verification/Sapo_Session.thy ===== *)
theory Sapo_Session
  imports Sapo_Registry Sapo_Progress
begin

text \<open>
  The session half of \<open>runtime/Interpreter.cpp\<close>: \<open>run\<close>, \<open>resume\<close>, \<open>resumeSession\<close>, \<open>cancelSession\<close>,
  \<open>finishRun\<close>, \<open>checkpointFor\<close>, \<open>armWakeup\<close>, \<open>disarmWakeup\<close>, and the callbacks that \<open>installRunners\<close>
  gives to the scheduler, the bus and the registry.  The record \<open>host\<close> holds the services a session reads
  and writes (a service that is not configured is \<open>None\<close>): the clock, the state store in memory, the
  scheduler, the registered workflows, the bus and \<open>m_event_subscriptions\<close>; it is extensible, so tasks may
  keep a world of their own beside it.  \<open>services\<close> holds what does not change: the task environment, the
  data-source declarations of the provider configuration, the data-source check, and the source of fresh
  identifiers.  Metrics and log lines are left out.

  A run that does not return within the fuel is \<open>None\<close>; an exception that leaves \<open>run\<close> is \<open>Inl\<close>.  The
  members of a stored \<open>pending\<close> document are read as \<open>checkpointFor\<close> writes them.

  The lemmas show what a suspended session keeps: its context, frames, cursor, depth and visits survive the
  checkpoint; only a suspended session is resumed and only a live one cancelled; a session that waits for
  an instant is in the scheduler's queue under its own name and leaves it when it is resumed or cancelled.
\<close>

section \<open>Options, reports, services\<close>

record run_options =
  ro_session_id :: string
  ro_execution_id :: string
  ro_start_node :: string
  ro_input :: json
  ro_persist :: bool
  ro_max_node_visits :: nat
  ro_correlation_id :: string
  ro_depth :: nat

definition default_options :: run_options where
  "default_options =
     \<lparr>ro_session_id = [], ro_execution_id = [], ro_start_node = [], ro_input = JObj [], ro_persist = True,
      ro_max_node_visits = 0, ro_correlation_id = [], ro_depth = 0\<rparr>"

record report =
  rp_session_id :: string
  rp_execution_id :: string
  rp_blueprint_id :: string
  rp_status :: string
  rp_cursor :: string
  rp_output :: json
  rp_prompt :: json
  rp_error_code :: string
  rp_error_message :: string
  rp_error_node :: string
  rp_error_data :: json
  rp_correlation_id :: string
  rp_visited :: "string list"
  rp_warnings :: "string list"
  rp_node_visits :: nat
  rp_elapsed_ms :: int
  rp_context :: json

definition new_report :: report where
  "new_report =
     \<lparr>rp_session_id = [], rp_execution_id = [], rp_blueprint_id = [], rp_status = ''completed'', rp_cursor = [],
      rp_output = JObj [], rp_prompt = JObj [], rp_error_code = [], rp_error_message = [], rp_error_node = [],
      rp_error_data = JNull, rp_correlation_id = [], rp_visited = [], rp_warnings = [], rp_node_visits = 0,
      rp_elapsed_ms = 0, rp_context = JObj []\<rparr>"

definition rp_succeeded :: "report \<Rightarrow> bool" where
  "rp_succeeded r \<longleftrightarrow> rp_status r = ''completed'' \<or> rp_status r = ''terminated''"

definition rp_suspended :: "report \<Rightarrow> bool" where
  "rp_suspended r \<longleftrightarrow> rp_status r = ''awaiting_input'' \<or> rp_status r = ''suspended''"

definition rp_failed :: "report \<Rightarrow> bool" where
  "rp_failed r \<longleftrightarrow> rp_status r = ''failed''"

definition report_to_json :: "report \<Rightarrow> json" where
  "report_to_json r =
     (let d = jobj [(''session_id'', JStr (rp_session_id r)), (''execution_id'', JStr (rp_execution_id r)),
                    (''blueprint_id'', JStr (rp_blueprint_id r)), (''status'', JStr (rp_status r)),
                    (''node_visits'', JInt (int (rp_node_visits r))), (''elapsed_ms'', JInt (rp_elapsed_ms r)),
                    (''output'', rp_output r)];
          d1 = set_text ''cursor'' (rp_cursor r) d;
          d2 = (if jempty (rp_prompt r) then d1 else jset ''prompt'' (rp_prompt r) d1);
          err = jobj [(''code'', JStr (rp_error_code r)), (''message'', JStr (rp_error_message r)),
                      (''node'', JStr (rp_error_node r))];
          err1 = (if is_null (rp_error_data r) then err else jset ''data'' (rp_error_data r) err);
          d3 = (if rp_error_message r = [] then d2 else jset ''error'' err1 d2);
          d4 = (if rp_visited r = [] then d3 else jset ''visited'' (JArr (map JStr (rp_visited r))) d3)
      in if rp_warnings r = [] then d4 else jset ''warnings'' (JArr (map JStr (rp_warnings r))) d4)"

text \<open>The closures subscribed on the bus: waking one session, and starting the triggered workflows.\<close>

datatype wakeup = WakeSession string | StartTriggered

record host =
  ho_clock :: "int option"
  ho_store :: "memory_store option"
  ho_sched :: "sched option"
  ho_workflows :: "registry option"
  ho_bus :: "wakeup bus option"
  ho_subs :: "(string \<times> nat list) list"
  ho_uuids :: nat

record 'w services =
  sv_env :: "'w env"
  sv_declarations :: "json list option"
  sv_source_problems :: "(json \<Rightarrow> string list) option"
  sv_uuid :: "nat \<Rightarrow> string"
  sv_pool :: bool

definition now_ms :: "'x host_scheme \<Rightarrow> int" where
  "now_ms w = (case ho_clock w of Some t \<Rightarrow> t | None \<Rightarrow> 0)"

definition id_or_uuid :: "'w services \<Rightarrow> string \<Rightarrow> 'x host_scheme \<Rightarrow> string \<times> 'x host_scheme" where
  "id_or_uuid sv i w = (if i = [] then (sv_uuid sv (ho_uuids w), w\<lparr>ho_uuids := Suc (ho_uuids w)\<rparr>) else (i, w))"

definition stored :: "string \<Rightarrow> 'x host_scheme \<Rightarrow> checkpoint option" where
  "stored sid w = (case ho_store w of Some st \<Rightarrow> mem_load sid st | None \<Rightarrow> None)"

definition workflow_for :: "string \<Rightarrow> 'x host_scheme \<Rightarrow> workflow option" where
  "workflow_for i w = (case ho_workflows w of Some rg \<Rightarrow> registry_find i rg | None \<Rightarrow> None)"

section \<open>Data sources of a run\<close>

definition declare_sources :: "node \<Rightarrow> json \<Rightarrow> json" where
  "declare_sources n out =
     (case nd_body n of
        Action a \<Rightarrow>
          foldl (\<lambda>o1 d. jset (ds_name d)
                   (jobj [(''name'', JStr (ds_name d)), (''provider'', JStr (ds_provider d)),
                          (''scope'', JStr (ds_scope d)), (''config'', ds_config d),
                          (''declared_by'', JStr (nd_id n))]) o1) out (ac_data_sources a)
      | _ \<Rightarrow> out)"

definition configured_source :: "json \<Rightarrow> json \<Rightarrow> json" where
  "configured_source out d =
     (case jget ''name'' d of
        Some (JStr name) \<Rightarrow> if jcontains name out then out else jset name d out
      | _ \<Rightarrow> out)"

definition build_data_sources :: "'w services \<Rightarrow> workflow \<Rightarrow> json" where
  "build_data_sources sv bp =
     (let out = foldl (\<lambda>o1 n. declare_sources n o1) (JObj []) (wf_nodes bp)
      in case sv_declarations sv of
           Some ds \<Rightarrow> foldl configured_source out ds | None \<Rightarrow> out)"

section \<open>Wake-ups\<close>

definition suspended_status :: "string \<Rightarrow> bool" where
  "suspended_status st \<longleftrightarrow> st = ''awaiting_input'' \<or> st = ''suspended''"

definition arm_timer :: "run_state \<Rightarrow> checkpoint \<Rightarrow> string \<Rightarrow> timer \<Rightarrow> timer" where
  "arm_timer s ck reason t =
     (let t1 = t\<lparr>ti_session_id := rs_session_id s\<rparr>;
          t2 = (if ti_resume_node t1 = [] then t1\<lparr>ti_resume_node := ck_cursor ck\<rparr> else t1)
      in if ti_id t2 = [] then t2\<lparr>ti_id := rs_session_id s @ ''/'' @ reason\<rparr> else t2)"

definition pending_object :: "checkpoint \<Rightarrow> json" where
  "pending_object ck = (if is_object (ck_pending ck) then ck_pending ck else JObj [])"

definition arm_wakeup :: "run_state \<Rightarrow> checkpoint \<Rightarrow> 'x host_scheme \<Rightarrow> 'x host_scheme" where
  "arm_wakeup s ck w =
     (let pending = pending_object ck;
          reason = jvalue_str ''reason'' ''wait'' pending;
          w1 = (case ho_sched w of
                  Some sc \<Rightarrow> w\<lparr>ho_sched := Some (foldl (\<lambda>sc t. fst (add_timer [] (arm_timer s ck reason t) sc))
                                                  sc (ck_timers ck))\<rparr>
                | None \<Rightarrow> w)
      in case (ho_bus w1, jget ''event_name'' pending) of
           (Some b, Some (JStr name)) \<Rightarrow>
             if reason = ''event'' then
               (let sid = rs_session_id s; (b1, sub) = subscribe name (WakeSession sid) b;
                    old = (case map_of (ho_subs w1) sid of Some ids \<Rightarrow> ids | None \<Rightarrow> [])
                in w1\<lparr>ho_bus := Some b1, ho_subs := obj_set sid (old @ [sub]) (ho_subs w1)\<rparr>)
             else w1
         | _ \<Rightarrow> w1)"

definition disarm_wakeup :: "string \<Rightarrow> 'x host_scheme \<Rightarrow> 'x host_scheme" where
  "disarm_wakeup sid w =
     (case map_of (ho_subs w) sid of
        None \<Rightarrow> w
      | Some ids \<Rightarrow>
          (let w1 = w\<lparr>ho_subs := obj_erase sid (ho_subs w)\<rparr>
           in case ho_bus w1 of
                Some b \<Rightarrow> w1\<lparr>ho_bus := Some (foldl (\<lambda>b i. fst (unsubscribe i b)) b ids)\<rparr>
              | None \<Rightarrow> w1))"

definition cancel_timers :: "string \<Rightarrow> 'x host_scheme \<Rightarrow> 'x host_scheme" where
  "cancel_timers sid w =
     (case ho_sched w of
        Some sc \<Rightarrow> w\<lparr>ho_sched := Some (fst (cancel_timers_for_session sid sc))\<rparr> | None \<Rightarrow> w)"

section \<open>The end of a run\<close>

definition checkpoint_status :: "string \<Rightarrow> session_status" where
  "checkpoint_status st =
     (if st = ''awaiting_input'' then AwaitingInput else if st = ''suspended'' then Waiting
      else if st = ''failed'' then Failed else if st = ''cancelled'' then Cancelled else Completed)"

definition wakeup_timer :: "run_state \<Rightarrow> int \<Rightarrow> json \<Rightarrow> timer" where
  "wakeup_timer s updated pending =
     (let t = \<lparr>ti_id = [], ti_session_id = rs_session_id s, ti_due_ms = 0, ti_resume_node = rs_cursor s,
               ti_reason = jvalue_str ''reason'' ''wait'' pending, ti_checkpoint_key = []\<rparr>
      in if jcontains ''resume_at_ms'' pending then t\<lparr>ti_due_ms := jvalue_int ''resume_at_ms'' 0 pending\<rparr>
         else if jcontains ''timeout_ms'' pending then
           (let t1 = t\<lparr>ti_due_ms := updated + jvalue_int ''timeout_ms'' 0 pending\<rparr>
            in if ti_reason t1 = ''input'' then t1\<lparr>ti_reason := ''prompt_timeout''\<rparr> else t1)
         else t)"

definition checkpoint_base :: "workflow \<Rightarrow> run_state \<Rightarrow> report \<Rightarrow> checkpoint" where
  "checkpoint_base bp s r =
     new_checkpoint\<lparr>ck_session_id := rs_session_id s, ck_execution_id := rs_execution_id s,
       ck_blueprint_id := md_name (wf_metadata bp), ck_correlation_id := rp_correlation_id r,
       ck_depth := rs_depth s, ck_node_visits := rs_visits s, ck_created_ms := rs_started_ms s,
       ck_updated_ms := rs_started_ms s + rp_elapsed_ms r, ck_cursor := rs_cursor s,
       ck_context := snapshot (rs_ctx s), ck_frames := frames_to_json (rev (rs_frames s)),
       ck_status := checkpoint_status (rs_status s)\<rparr>"

definition suspend_checkpoint :: "run_state \<Rightarrow> checkpoint \<Rightarrow> checkpoint" where
  "suspend_checkpoint s ck =
     (let p = (if is_object (rs_suspend_request s) then rs_suspend_request s else JObj []);
          p1 = jset ''resume_node'' (JStr (rs_cursor s)) p;
          t = wakeup_timer s (ck_updated_ms ck) p1;
          ts = (if 0 < ti_due_ms t then [t] else [])
      in ck\<lparr>ck_timers := ts, ck_pending := jset ''timers'' (JArr (map timer_to_json ts)) p1\<rparr>)"

definition payload_or :: "json \<Rightarrow> json \<Rightarrow> json" where
  "payload_or p d = (if is_object p \<and> \<not> jempty p then p else d)"

definition failed_checkpoint :: "run_state \<Rightarrow> report \<Rightarrow> checkpoint \<Rightarrow> checkpoint" where
  "failed_checkpoint s r ck =
     ck\<lparr>ck_error := ''['' @ rp_error_code r @ ''] '' @ rp_error_message r @
           (if rp_error_node r = [] then [] else '' (node '' @ quoted (rp_error_node r) @ '')''),
        ck_result := payload_or (rs_terminate_payload s) (JObj [])\<rparr>"

definition checkpoint_for :: "workflow \<Rightarrow> run_state \<Rightarrow> report \<Rightarrow> checkpoint" where
  "checkpoint_for bp s r =
     (let ck = checkpoint_base bp s r
      in if suspended_status (rs_status s) then suspend_checkpoint s ck
         else if rp_failed r then failed_checkpoint s r ck
         else ck\<lparr>ck_result := (if rs_status s = ''terminated'' then rs_terminate_payload s else ck_context ck)\<rparr>)"

definition finish_status :: "run_state \<Rightarrow> run_state" where
  "finish_status s = (if rs_status s = ''running'' then s\<lparr>rs_status := ''completed''\<rparr> else s)"

definition report_base :: "workflow \<Rightarrow> int \<Rightarrow> run_state \<Rightarrow> report \<Rightarrow> report" where
  "report_base bp now s r =
     r\<lparr>rp_elapsed_ms := max 0 (now - rs_started_ms s), rp_blueprint_id := md_name (wf_metadata bp),
       rp_visited := rs_visited s, rp_warnings := rs_warnings s, rp_node_visits := rs_visits s,
       rp_context := snapshot (rs_ctx s), rp_output := snapshot (rs_ctx s), rp_status := rs_status s,
       rp_error_code := rs_error_code s, rp_error_message := rs_error s, rp_error_node := rs_error_node s,
       rp_error_data := rs_error_data s\<rparr>"

definition report_output :: "run_state \<Rightarrow> report \<Rightarrow> report" where
  "report_output s r =
     (if rs_status s = ''terminated'' then r\<lparr>rp_output := payload_or (rs_terminate_payload s) (rp_output r)\<rparr> else r)"

definition report_prompt :: "run_state \<Rightarrow> report \<Rightarrow> report" where
  "report_prompt s r =
     (if suspended_status (rs_status s) then
        r\<lparr>rp_cursor := rs_cursor s, rp_prompt := jvalue ''prompt'' (rs_suspend_request s) (rs_suspend_request s),
          rp_output := JObj []\<rparr>
      else r)"

definition report_message :: "run_state \<Rightarrow> report \<Rightarrow> report" where
  "report_message s r =
     (if rs_status s = ''failed'' \<and> rp_error_message r = [] then r\<lparr>rp_error_message := ''execution failed''\<rparr> else r)"

definition finish_report :: "workflow \<Rightarrow> int \<Rightarrow> run_state \<Rightarrow> report \<Rightarrow> report" where
  "finish_report bp now s r = report_message s (report_prompt s (report_output s (report_base bp now s r)))"

lemma finish_report_fields [simp]:
  "rp_status (finish_report bp now s r) = rs_status s"
  "rp_correlation_id (finish_report bp now s r) = rp_correlation_id r"
  "rp_session_id (finish_report bp now s r) = rp_session_id r"
  "rp_elapsed_ms (finish_report bp now s r) = max 0 (now - rs_started_ms s)"
  "rp_visited (finish_report bp now s r) = rs_visited s"
  "rp_context (finish_report bp now s r) = snapshot (rs_ctx s)"
  "rp_error_code (finish_report bp now s r) = rs_error_code s"
  by (simp_all add: finish_report_def report_message_def report_prompt_def report_output_def report_base_def)

definition finish_run ::
  "workflow \<Rightarrow> run_options \<Rightarrow> run_state \<Rightarrow> report \<Rightarrow> 'x host_scheme \<Rightarrow> report \<times> 'x host_scheme" where
  "finish_run bp opts s r w =
     (let s1 = finish_status s; r1 = finish_report bp (now_ms w) s1 r
      in case ho_store w of
           None \<Rightarrow> (r1, w)
         | Some st \<Rightarrow>
             (let ck = checkpoint_for bp s1 r1;
                  w1 = (if ro_persist opts then w\<lparr>ho_store := Some (mem_save ck st)\<rparr> else w)
              in (r1, if suspended_status (rs_status s1) then arm_wakeup s1 ck w1 else w1)))"

section \<open>Starting a run\<close>

definition seed_context :: "run_options \<Rightarrow> workflow \<Rightarrow> json \<Rightarrow> run_state \<Rightarrow> run_state" where
  "seed_context opts bp input s =
     (let put = foldl (\<lambda>c kv. set_by_path (fst kv) (snd kv) c);
          c1 = put (rs_ctx s) (jentries (md_defaults (wf_metadata bp)));
          c2 = (if is_object input then put c1 (jentries input)
                else if is_null input then c1 else set_variable ''input'' input c1);
          c3 = set_variable ''session''
                 (jobj [(''id'', JStr (rs_session_id s)), (''execution_id'', JStr (rs_execution_id s)),
                        (''workflow'', JStr (rs_workflow_id s)), (''started_at_ms'', JInt (rs_started_ms s)),
                        (''correlation_id'', JStr (ro_correlation_id opts)), (''depth'', JInt (int (rs_depth s)))]) c2
      in s\<lparr>rs_ctx := c3\<rparr>)"

definition start_state ::
  "'w services \<Rightarrow> workflow \<Rightarrow> run_options \<Rightarrow> string \<Rightarrow> string \<Rightarrow> int \<Rightarrow> run_state" where
  "start_state sv bp opts sid eid now =
     new_run_state\<lparr>rs_session_id := sid, rs_execution_id := eid, rs_workflow_id := md_name (wf_metadata bp),
       rs_budget := (if ro_max_node_visits opts \<noteq> 0 then ro_max_node_visits opts
                     else en_max_node_visits (sv_env sv)),
       rs_depth := ro_depth opts, rs_started_ms := now, rs_data_sources := build_data_sources sv bp\<rparr>"

definition source_problems :: "'w services \<Rightarrow> run_state \<Rightarrow> string list" where
  "source_problems sv s =
     (case sv_source_problems sv of
        Some check \<Rightarrow> if is_object (rs_data_sources s) \<and> \<not> jempty (rs_data_sources s)
                      then check (rs_data_sources s) else []
      | None \<Rightarrow> [])"

text \<open>A stored session of that identifier hands down its workflow and its correlation.\<close>

definition adopt_parent :: "checkpoint option \<Rightarrow> run_state \<Rightarrow> report \<Rightarrow> run_state \<times> report" where
  "adopt_parent parent s r =
     (case parent of
        None \<Rightarrow> (s, r)
      | Some p \<Rightarrow> (s\<lparr>rs_workflow_id := ck_blueprint_id p\<rparr>,
                   if ck_correlation_id p = [] then r else r\<lparr>rp_correlation_id := ck_correlation_id p\<rparr>))"

type_synonym 'w ran = "(report res \<times> 'w) option"

definition finished :: "report \<times> 'w \<Rightarrow> 'w ran" where
  "finished x = (case x of (r, w) \<Rightarrow> Some (Inr r, w))"

definition drive_and_finish ::
  "nat \<Rightarrow> 'x host_scheme services \<Rightarrow> workflow \<Rightarrow> run_options \<Rightarrow> run_state \<Rightarrow> report \<Rightarrow> 'x host_scheme
     \<Rightarrow> 'x host_scheme ran" where
  "drive_and_finish fuel sv bp opts s r w =
     (case drive fuel (sv_env sv) bp s w of
        None \<Rightarrow> None
      | Some (Some e, s1, w1) \<Rightarrow> Some (Inl e, w1)
      | Some (None, s1, w1) \<Rightarrow> finished (finish_run bp opts s1 r w1))"

definition run_session ::
  "nat \<Rightarrow> 'x host_scheme services \<Rightarrow> workflow \<Rightarrow> json \<Rightarrow> run_options \<Rightarrow> 'x host_scheme \<Rightarrow> 'x host_scheme ran" where
  "run_session fuel sv bp input opts w =
     (let (sid, w1) = id_or_uuid sv (ro_session_id opts) w;
          (eid, w2) = id_or_uuid sv (ro_execution_id opts) w1;
          s = start_state sv bp opts sid eid (now_ms w2);
          r = new_report\<lparr>rp_session_id := sid, rp_execution_id := eid\<rparr>;
          problems = source_problems sv s
      in if problems \<noteq> [] then
           finished (finish_run bp opts
             (s\<lparr>rs_status := ''failed'', rs_error_code := ''VALIDATION_ERROR'',
                rs_error := ''data source configuration is invalid: '' @
                              en_dump (sv_env sv) (JArr (map JStr problems)),
                rs_finished := True\<rparr>) r w2)
         else
           (let s1 = seed_context opts bp input s;
                parent = (if ro_persist opts then stored sid w2 else None);
                (s2, r1) = adopt_parent parent s1 r;
                start = (if ro_start_node opts = [] then wf_entry_id bp else ro_start_node opts);
                s3 = s2\<lparr>rs_cursor := start\<rparr>
            in if start = [] \<or> find_node bp start = None then
                 (if ro_start_node opts \<noteq> [] then
                    finished (finish_run bp opts
                      (s3\<lparr>rs_status := ''failed'', rs_error_code := ''ROUTING_ERROR'',
                          rs_error := ''start node '' @ quoted (ro_start_node opts) @
                            '' is not part of workflow '' @ quoted (rs_workflow_id s3)\<rparr>) r1 w2)
                  else finished (finish_run bp opts (s3\<lparr>rs_status := ''completed'', rs_finished := True\<rparr>) r1 w2))
               else drive_and_finish fuel sv bp opts s3 r1 w2))"

section \<open>Resuming\<close>

text \<open>\<open>pending.value("timeout_ms", 0)\<close> reads the number as a 32-bit \<open>int\<close> (\<open>as_int32\<close>).\<close>

definition known_cursor :: "workflow \<Rightarrow> string \<Rightarrow> bool" where
  "known_cursor bp c \<longleftrightarrow> c \<noteq> [] \<and> find_node bp c \<noteq> None"

definition restored_state :: "'w services \<Rightarrow> workflow \<Rightarrow> checkpoint \<Rightarrow> string \<Rightarrow> int \<Rightarrow> run_state" where
  "restored_state sv bp ck eid now =
     (let c = (if is_object (ck_context ck) then restore (ck_context ck) empty_ctx else empty_ctx);
          fs = frames_from_json (ck_frames ck);
          s = new_run_state\<lparr>rs_ctx := set_frames fs c, rs_frames := rev fs\<rparr>;
          s1 = foldl (\<lambda>s f. if fr_kind f = ''loop'' then bind_iteration f s else s) s fs
      in s1\<lparr>rs_session_id := ck_session_id ck, rs_execution_id := eid, rs_workflow_id := ck_blueprint_id ck,
            rs_depth := ck_depth ck, rs_visits := ck_node_visits ck,
            rs_budget := en_max_node_visits (sv_env sv), rs_started_ms := now,
            rs_data_sources := build_data_sources sv bp\<rparr>)"

definition timeout_error :: "json \<Rightarrow> captured_error" where
  "timeout_error pending =
     \<lparr>ce_code = ''TIMEOUT'', ce_message = ''no input received within the configured prompt timeout'',
      ce_node = jvalue_str ''node'' [] pending,
      ce_data = jobj [(''reason'', JStr ''prompt_timeout''),
                      (''timeout_ms'', JInt (as_int32 (jvalue_int ''timeout_ms'' 0 pending)))]\<rparr>"

definition has_input :: "string \<Rightarrow> json \<Rightarrow> bool" where
  "has_input reason input \<longleftrightarrow>
     \<not> is_null input \<and> \<not> (is_object input \<and> jempty input \<and> reason = ''input'')"

definition cursor_or :: "workflow \<Rightarrow> string \<Rightarrow> string \<Rightarrow> string" where
  "cursor_or bp c other = (if known_cursor bp c then c else other)"

definition deliver_answer :: "workflow \<Rightarrow> checkpoint \<Rightarrow> json \<Rightarrow> json \<Rightarrow> run_state \<Rightarrow> run_state" where
  "deliver_answer bp ck pending input s =
     (let variable = jvalue_str ''input_variable'' [] pending; waiting = jvalue_str ''node'' [] pending;
          s1 = (if variable = [] then s else s\<lparr>rs_ctx := set_by_path variable input (rs_ctx s)\<rparr>);
          s2 = set_local ''input'' input s1
      in s2\<lparr>rs_resume_node_id := waiting, rs_cursor := cursor_or bp waiting (ck_cursor ck)\<rparr>)"

definition deliver_wakeup :: "workflow \<Rightarrow> checkpoint \<Rightarrow> json \<Rightarrow> string \<Rightarrow> json \<Rightarrow> run_state \<Rightarrow> run_state" where
  "deliver_wakeup bp ck pending reason input s =
     (let s1 = s\<lparr>rs_cursor := cursor_or bp (ck_cursor ck) (jvalue_str ''resume_node'' [] pending)\<rparr>;
          key = (if reason = [] then ''event'' else reason); s2 = set_local key input s1
      in s2\<lparr>rs_ctx := foldl (\<lambda>c kv. set_by_path (fst kv) (snd kv) c) (rs_ctx s2) (jentries input)\<rparr>)"

definition resume_state ::
  "'w services \<Rightarrow> workflow \<Rightarrow> checkpoint \<Rightarrow> json \<Rightarrow> bool \<Rightarrow> string \<Rightarrow> int \<Rightarrow> run_state" where
  "resume_state sv bp ck input timed_out eid now =
     (let s = restored_state sv bp ck eid now;
          pending = pending_object ck; reason = jvalue_str ''reason'' ''input'' pending
      in if timed_out then
           s\<lparr>rs_pending_error := captured_to_json (timeout_error pending),
             rs_cursor := cursor_or bp (jvalue_str ''node'' (ck_cursor ck) pending) (ck_cursor ck)\<rparr>
         else if has_input reason input then
           (if reason = ''input'' then deliver_answer bp ck pending input s
            else deliver_wakeup bp ck pending reason input s)
         else s\<lparr>rs_cursor := cursor_or bp (ck_cursor ck) (jvalue_str ''resume_node'' [] pending)\<rparr>)"

definition resume_options :: "'w services \<Rightarrow> checkpoint \<Rightarrow> run_options" where
  "resume_options sv ck =
     default_options\<lparr>ro_persist := True, ro_correlation_id := ck_correlation_id ck,
       ro_max_node_visits := en_max_node_visits (sv_env sv)\<rparr>"

definition resume ::
  "nat \<Rightarrow> 'x host_scheme services \<Rightarrow> workflow \<Rightarrow> checkpoint \<Rightarrow> json \<Rightarrow> bool \<Rightarrow> 'x host_scheme \<Rightarrow> 'x host_scheme ran" where
  "resume fuel sv bp ck input timed_out w =
     (let (eid, w1) = id_or_uuid sv (ck_execution_id ck) w;
          s = resume_state sv bp ck input timed_out eid (now_ms w1);
          r = new_report\<lparr>rp_session_id := ck_session_id ck, rp_execution_id := eid\<rparr>;
          w2 = cancel_timers (ck_session_id ck) (disarm_wakeup (ck_session_id ck) w1);
          opts = resume_options sv ck
      in if \<not> known_cursor bp (rs_cursor s) then
           finished (finish_run bp opts (s\<lparr>rs_status := ''completed'', rs_finished := True\<rparr>) r w2)
         else drive_and_finish fuel sv bp opts (s\<lparr>rs_current_node_id := rs_cursor s\<rparr>) r w2)"

definition live_suspended :: "session_status \<Rightarrow> bool" where
  "live_suspended st \<longleftrightarrow> st = AwaitingInput \<or> st = Waiting"

definition refused :: "string \<Rightarrow> string \<Rightarrow> string \<Rightarrow> report" where
  "refused sid code message =
     new_report\<lparr>rp_session_id := sid, rp_status := ''failed'', rp_error_code := code, rp_error_message := message\<rparr>"

definition resume_session ::
  "nat \<Rightarrow> 'x host_scheme services \<Rightarrow> string \<Rightarrow> json \<Rightarrow> 'x host_scheme \<Rightarrow> 'x host_scheme ran" where
  "resume_session fuel sv sid input w =
     (if ho_store w = None then
        Some (Inr (refused sid ''SESSION_NOT_FOUND''
               ''no state store is configured, so sessions cannot be resumed''), w)
      else (case stored sid w of
        None \<Rightarrow> Some (Inr (refused sid ''SESSION_NOT_FOUND''
                  (''no checkpoint stored for session '' @ quoted sid)), w)
      | Some ck \<Rightarrow>
          if \<not> live_suspended (ck_status ck) then
            Some (Inr ((refused sid ''SESSION_NOT_SUSPENDED''
                   (''session '' @ quoted sid @ '' is '' @ status_string (ck_status ck) @ '', not suspended''))
                   \<lparr>rp_blueprint_id := ck_blueprint_id ck\<rparr>), w)
          else (case workflow_for (ck_blueprint_id ck) w of
            None \<Rightarrow> Some (Inr (refused sid ''WORKFLOW_NOT_FOUND''
                     (''workflow '' @ quoted (ck_blueprint_id ck) @ '' needed to resume session '' @ quoted sid @
                      '' is not registered'')), w)
          | Some bp \<Rightarrow> resume fuel sv bp ck input False w)))"

section \<open>Cancelling\<close>

definition live :: "session_status \<Rightarrow> bool" where
  "live st \<longleftrightarrow> st = Running \<or> st = AwaitingInput \<or> st = Waiting"

definition cancelled_checkpoint :: "int \<Rightarrow> string \<Rightarrow> checkpoint \<Rightarrow> checkpoint" where
  "cancelled_checkpoint now reason ck =
     ck\<lparr>ck_status := Cancelled, ck_updated_ms := now,
        ck_pending := jobj [(''reason'', JStr ''cancelled''), (''detail'', JStr reason)]\<rparr>"

definition cancel_session :: "string \<Rightarrow> string \<Rightarrow> 'x host_scheme \<Rightarrow> 'x host_scheme \<times> bool" where
  "cancel_session sid reason w =
     (case ho_store w of
        None \<Rightarrow> (w, False)
      | Some st \<Rightarrow>
          (let found = mem_load sid st; w1 = cancel_timers sid (disarm_wakeup sid w)
           in case found of
                None \<Rightarrow> (w1, False)
              | Some ck \<Rightarrow>
                  if \<not> live (ck_status ck) then (w1, False)
                  else (w1\<lparr>ho_store := Some (mem_save (cancelled_checkpoint (now_ms w1) reason ck) st)\<rparr>, True)))"

section \<open>The installed callbacks\<close>

text \<open>An exception that leaves the run is caught by the callback (or, for \<open>wake_on_event\<close>, by the bus) and
  logged: the host is as it was when it was thrown.\<close>

definition swallow :: "'w ran \<Rightarrow> 'w option" where
  "swallow x = map_option snd x"

definition start_scheduled_job ::
  "nat \<Rightarrow> 'x host_scheme services \<Rightarrow> job \<Rightarrow> 'x host_scheme \<Rightarrow> 'x host_scheme option" where
  "start_scheduled_job fuel sv j w =
     (case workflow_for (jb_workflow j) w of
        None \<Rightarrow> Some w
      | Some bp \<Rightarrow>
          (let opts = default_options\<lparr>ro_input := jb_input j, ro_correlation_id := ''job:'' @ jb_id j,
                        ro_max_node_visits := en_max_node_visits (sv_env sv)\<rparr>;
               opts1 = (if jb_entry_node j \<noteq> [] \<and> find_node bp (jb_entry_node j) \<noteq> None
                        then opts\<lparr>ro_start_node := jb_entry_node j\<rparr> else opts)
           in swallow (run_session fuel sv bp (jb_input j) opts1 w)))"

definition start_triggered_workflow ::
  "nat \<Rightarrow> 'x host_scheme services \<Rightarrow> string \<Rightarrow> event \<Rightarrow> 'x host_scheme \<Rightarrow> 'x host_scheme option" where
  "start_triggered_workflow fuel sv i e w =
     (case workflow_for i w of
        None \<Rightarrow> Some w
      | Some bp \<Rightarrow>
          (let input = (if is_null (evt_payload e) then JObj [] else evt_payload e)
           in swallow (run_session fuel sv bp input
                (default_options\<lparr>ro_input := input, ro_correlation_id := ''event:'' @ evt_name e\<rparr>) w)))"

fun start_all ::
  "nat \<Rightarrow> 'x host_scheme services \<Rightarrow> string list \<Rightarrow> event \<Rightarrow> 'x host_scheme \<Rightarrow> 'x host_scheme option" where
  "start_all fuel sv [] e w = Some w"
| "start_all fuel sv (i # is) e w =
     (case start_triggered_workflow fuel sv i e w of None \<Rightarrow> None | Some w1 \<Rightarrow> start_all fuel sv is e w1)"

definition on_trigger_event ::
  "nat \<Rightarrow> 'x host_scheme services \<Rightarrow> event \<Rightarrow> 'x host_scheme \<Rightarrow> 'x host_scheme option" where
  "on_trigger_event fuel sv e w =
     (case ho_workflows w of
        None \<Rightarrow> Some w | Some rg \<Rightarrow> start_all fuel sv (workflows_triggered_by (evt_name e) rg) e w)"

text \<open>The checkpoint and the workflow of a session that can be woken.\<close>

definition wakeable :: "string \<Rightarrow> 'x host_scheme \<Rightarrow> (checkpoint \<times> workflow) option" where
  "wakeable sid w =
     (case stored sid w of
        Some ck \<Rightarrow> if live_suspended (ck_status ck)
                   then map_option (\<lambda>bp. (ck, bp)) (workflow_for (ck_blueprint_id ck) w) else None
      | None \<Rightarrow> None)"

definition wake_on_event ::
  "nat \<Rightarrow> 'x host_scheme services \<Rightarrow> string \<Rightarrow> event \<Rightarrow> 'x host_scheme \<Rightarrow> 'x host_scheme option" where
  "wake_on_event fuel sv sid e w =
     (case wakeable sid w of
        None \<Rightarrow> Some w
      | Some (ck, bp) \<Rightarrow> swallow (resume fuel sv bp ck (evt_payload e) False w))"

definition resume_from_timer ::
  "nat \<Rightarrow> 'x host_scheme services \<Rightarrow> timer \<Rightarrow> 'x host_scheme \<Rightarrow> 'x host_scheme option" where
  "resume_from_timer fuel sv t w =
     (if ti_session_id t = [] then Some w
      else (case wakeable (ti_session_id t) w of
        None \<Rightarrow> Some w
      | Some (ck, bp) \<Rightarrow>
          swallow (resume fuel sv bp ck JNull
            (ti_reason t = ''prompt_timeout'' \<or> ti_reason t = ''input_timeout'') w)))"

text \<open>What a handler on the bus does, and an event published while no task is running.\<close>

definition handle_wakeup ::
  "nat \<Rightarrow> 'x host_scheme services \<Rightarrow> wakeup \<Rightarrow> event \<Rightarrow> 'x host_scheme \<Rightarrow> 'x host_scheme option" where
  "handle_wakeup fuel sv h e w =
     (case h of WakeSession sid \<Rightarrow> wake_on_event fuel sv sid e w | StartTriggered \<Rightarrow> on_trigger_event fuel sv e w)"

fun handle_all ::
  "nat \<Rightarrow> 'x host_scheme services \<Rightarrow> event \<Rightarrow> wakeup list \<Rightarrow> 'x host_scheme \<Rightarrow> 'x host_scheme option" where
  "handle_all fuel sv e [] w = Some w"
| "handle_all fuel sv e (h # hs) w =
     (case handle_wakeup fuel sv h e w of None \<Rightarrow> None | Some w1 \<Rightarrow> handle_all fuel sv e hs w1)"

definition publish_event ::
  "nat \<Rightarrow> 'x host_scheme services \<Rightarrow> event \<Rightarrow> 'x host_scheme \<Rightarrow> 'x host_scheme option" where
  "publish_event fuel sv e w =
     (case ho_bus w of
        None \<Rightarrow> Some w
      | Some b \<Rightarrow> handle_all fuel sv e (map sb_handler (targets_of e b)) (w\<lparr>ho_bus := Some (record_event e b)\<rparr>))"

text \<open>A tick of the scheduler with the two callbacks installed.\<close>

fun fire_jobs ::
  "nat \<Rightarrow> 'x host_scheme services \<Rightarrow> (job \<times> int) list \<Rightarrow> 'x host_scheme \<Rightarrow> 'x host_scheme option" where
  "fire_jobs fuel sv [] w = Some w"
| "fire_jobs fuel sv ((j, fired_at) # js) w =
     (case start_scheduled_job fuel sv j w of None \<Rightarrow> None | Some w1 \<Rightarrow> fire_jobs fuel sv js w1)"

fun fire_timers ::
  "nat \<Rightarrow> 'x host_scheme services \<Rightarrow> timer list \<Rightarrow> 'x host_scheme \<Rightarrow> 'x host_scheme option" where
  "fire_timers fuel sv [] w = Some w"
| "fire_timers fuel sv (t # ts) w =
     (case resume_from_timer fuel sv t w of None \<Rightarrow> None | Some w1 \<Rightarrow> fire_timers fuel sv ts w1)"

definition host_tick ::
  "nat \<Rightarrow> 'x host_scheme services \<Rightarrow> 'x host_scheme \<Rightarrow> ('x host_scheme \<times> nat outcome) option" where
  "host_tick fuel sv w =
     (case ho_sched w of
        None \<Rightarrow> Some (w, Returns 0)
      | Some sc \<Rightarrow>
          (case tick_until (now_ms w) sc of
             (sc1, Throws) \<Rightarrow> Some (w\<lparr>ho_sched := Some sc1\<rparr>, Throws)
           | (sc1, Returns (js, ts)) \<Rightarrow>
               (case fire_jobs fuel sv js (w\<lparr>ho_sched := Some sc1\<rparr>) of
                  None \<Rightarrow> None
                | Some w1 \<Rightarrow> map_option (\<lambda>w2. (w2, Returns (length js + length ts))) (fire_timers fuel sv ts w1))))"

definition install_runners :: "nat \<Rightarrow> 'x host_scheme \<Rightarrow> 'x host_scheme" where
  "install_runners max_depth w =
     (let w1 = (case ho_workflows w of
                  Some rg \<Rightarrow> if 0 < max_depth then w\<lparr>ho_workflows := Some (set_max_depth max_depth rg)\<rparr> else w
                | None \<Rightarrow> w)
      in case (ho_workflows w1, ho_bus w1) of
           (Some _, Some b) \<Rightarrow> w1\<lparr>ho_bus := Some (fst (subscribe ''*'' StartTriggered b))\<rparr>
         | _ \<Rightarrow> w1)"

text \<open>The runner of subflows.  With a worker pool and without waiting, the run is handed to the pool and
  happens later.\<close>

definition child_result_of :: "report \<Rightarrow> child_result" where
  "child_result_of r =
     \<lparr>cr_session_id = rp_session_id r, cr_status = rp_status r, cr_output = rp_output r,
      cr_error = (if rp_failed r then (if rp_error_message r = [] then rp_error_code r else rp_error_message r)
                  else [])\<rparr>"

definition child_options :: "child_request \<Rightarrow> run_options" where
  "child_options q =
     default_options\<lparr>ro_input := cq_input q, ro_depth := cq_depth q, ro_correlation_id := cq_correlation_id q,
       ro_persist := False\<rparr>"

definition run_child_session ::
  "nat \<Rightarrow> 'x host_scheme services \<Rightarrow> child_request \<Rightarrow> 'x host_scheme
     \<Rightarrow> (child_result res \<times> 'x host_scheme) option" where
  "run_child_session fuel sv q w =
     (case workflow_for (cq_workflow_id q) w of
        None \<Rightarrow>
          Some (Inl (sapo_error NotFound
            (''subflow references workflow '' @ quoted (cq_workflow_id q) @ '', which is not registered'')
            (jobj [(''available'', JArr (map JStr (case ho_workflows w of Some rg \<Rightarrow> registry_ids rg
                                                    | None \<Rightarrow> [])))]) (cq_node_id q)), w)
      | Some bp \<Rightarrow>
          if \<not> cq_wait q \<and> sv_pool sv then
            Some (Inr \<lparr>cr_session_id = [], cr_status = ''launched'', cr_output = JObj [], cr_error = []\<rparr>, w)
          else (case run_session fuel sv bp (cq_input q) (child_options q) w of
            None \<Rightarrow> None
          | Some (Inl e, w1) \<Rightarrow> Some (Inl e, w1)
          | Some (Inr r, w1) \<Rightarrow> Some (Inr (child_result_of r), w1)))"

section \<open>Cancelling and refusing\<close>

lemma host_frame [frame_simps]:
  "ho_store (disarm_wakeup sid w) = ho_store w" "ho_sched (disarm_wakeup sid w) = ho_sched w"
  "ho_clock (disarm_wakeup sid w) = ho_clock w" "ho_workflows (disarm_wakeup sid w) = ho_workflows w"
  "ho_store (cancel_timers sid w) = ho_store w" "ho_clock (cancel_timers sid w) = ho_clock w"
  "ho_workflows (cancel_timers sid w) = ho_workflows w" "ho_subs (cancel_timers sid w) = ho_subs w"
  "ho_bus (cancel_timers sid w) = ho_bus w"
  "ho_store (arm_wakeup s ck w) = ho_store w" "ho_clock (arm_wakeup s ck w) = ho_clock w"
  by (simp_all add: disarm_wakeup_def cancel_timers_def arm_wakeup_def Let_def split_beta
        split: option.splits json.splits)

lemma cancel_timers_session: "ho_sched (cancel_timers sid w) = Some sc \<Longrightarrow> t \<in> set (sc_timers sc) \<Longrightarrow> ti_session_id t \<noteq> sid"
  by (auto simp: cancel_timers_def cancel_timers_for_session_def Let_def split: option.splits)

lemma disarm_subs: "map_of (ho_subs (disarm_wakeup sid w)) sid = None"
  by (auto simp: disarm_wakeup_def Let_def split: option.splits)

lemma cancel_session_iff:
  "snd (cancel_session sid reason w) \<longleftrightarrow> (\<exists>ck. stored sid w = Some ck \<and> live (ck_status ck))"
  by (auto simp: cancel_session_def stored_def Let_def split: option.splits)

lemma mem_load_save [simp]:
  "mem_load i (mem_save c st) =
     (if i = ck_session_id c
      then Some (c\<lparr>ck_version := (case mem_load i st of Some old \<Rightarrow> ck_version old | None \<Rightarrow> 0) + 1\<rparr>)
      else mem_load i st)"
  by (auto simp: mem_load_def mem_save_def Let_def)

lemma cancel_session_stored:
  assumes "stored sid w = Some ck" and "live (ck_status ck)" and "ck_session_id ck = sid"
  shows "stored sid (fst (cancel_session sid reason w)) =
           Some ((cancelled_checkpoint (now_ms w) reason ck)\<lparr>ck_version := ck_version ck + 1\<rparr>)"
proof -
  let ?w1 = "cancel_timers sid (disarm_wakeup sid w)"
  obtain st where st: "ho_store w = Some st" "mem_load sid st = Some ck"
    using assms(1) by (auto simp: stored_def split: option.splits)
  have "now_ms ?w1 = now_ms w" by (simp add: now_ms_def frame_simps)
  then have "fst (cancel_session sid reason w) =
      ?w1\<lparr>ho_store := Some (mem_save (cancelled_checkpoint (now_ms w) reason ck) st)\<rparr>"
    using assms(2) by (simp add: cancel_session_def st Let_def)
  then show ?thesis using st(2) assms(3) by (simp add: stored_def cancelled_checkpoint_def)
qed

lemma cancel_session_timers:
  assumes "ho_store w \<noteq> None" and "ho_sched (fst (cancel_session sid reason w)) = Some sc"
    and "t \<in> set (sc_timers sc)"
  shows "ti_session_id t \<noteq> sid"
proof -
  from assms(1) obtain st where "ho_store w = Some st" by auto
  then have "ho_sched (fst (cancel_session sid reason w)) = ho_sched (cancel_timers sid (disarm_wakeup sid w))"
    by (auto simp: cancel_session_def Let_def split: option.splits)
  with assms(2,3) show ?thesis using cancel_timers_session by metis
qed

lemma resume_session_refused:
  assumes "\<And>ck. stored sid w = Some ck \<Longrightarrow> live_suspended (ck_status ck) \<Longrightarrow> workflow_for (ck_blueprint_id ck) w = None"
  shows "\<exists>r. resume_session fuel sv sid input w = Some (Inr r, w) \<and> rp_failed r \<and>
           rp_error_code r \<in> {''SESSION_NOT_FOUND'', ''SESSION_NOT_SUSPENDED'', ''WORKFLOW_NOT_FOUND''}"
  using assms by (auto simp: resume_session_def refused_def rp_failed_def new_report_def split: option.splits)

section \<open>What a checkpoint keeps\<close>

lemma suspend_checkpoint_fields [simp]:
  "ck_session_id (suspend_checkpoint s ck) = ck_session_id ck"
  "ck_execution_id (suspend_checkpoint s ck) = ck_execution_id ck"
  "ck_blueprint_id (suspend_checkpoint s ck) = ck_blueprint_id ck"
  "ck_correlation_id (suspend_checkpoint s ck) = ck_correlation_id ck"
  "ck_status (suspend_checkpoint s ck) = ck_status ck" "ck_cursor (suspend_checkpoint s ck) = ck_cursor ck"
  "ck_context (suspend_checkpoint s ck) = ck_context ck" "ck_frames (suspend_checkpoint s ck) = ck_frames ck"
  "ck_depth (suspend_checkpoint s ck) = ck_depth ck"
  "ck_node_visits (suspend_checkpoint s ck) = ck_node_visits ck"
  unfolding suspend_checkpoint_def Let_def by simp_all

lemma failed_checkpoint_fields [simp]:
  "ck_session_id (failed_checkpoint s r ck) = ck_session_id ck"
  "ck_execution_id (failed_checkpoint s r ck) = ck_execution_id ck"
  "ck_blueprint_id (failed_checkpoint s r ck) = ck_blueprint_id ck"
  "ck_correlation_id (failed_checkpoint s r ck) = ck_correlation_id ck"
  "ck_status (failed_checkpoint s r ck) = ck_status ck" "ck_cursor (failed_checkpoint s r ck) = ck_cursor ck"
  "ck_context (failed_checkpoint s r ck) = ck_context ck" "ck_frames (failed_checkpoint s r ck) = ck_frames ck"
  "ck_depth (failed_checkpoint s r ck) = ck_depth ck"
  "ck_node_visits (failed_checkpoint s r ck) = ck_node_visits ck"
  unfolding failed_checkpoint_def by simp_all

lemma checkpoint_for_fields:
  "ck_session_id (checkpoint_for bp s r) = rs_session_id s"
  "ck_execution_id (checkpoint_for bp s r) = rs_execution_id s"
  "ck_blueprint_id (checkpoint_for bp s r) = md_name (wf_metadata bp)"
  "ck_correlation_id (checkpoint_for bp s r) = rp_correlation_id r"
  "ck_status (checkpoint_for bp s r) = checkpoint_status (rs_status s)"
  "ck_cursor (checkpoint_for bp s r) = rs_cursor s"
  "ck_context (checkpoint_for bp s r) = snapshot (rs_ctx s)"
  "ck_frames (checkpoint_for bp s r) = frames_to_json (rev (rs_frames s))"
  "ck_depth (checkpoint_for bp s r) = rs_depth s"
  "ck_node_visits (checkpoint_for bp s r) = rs_visits s"
  by (simp_all add: checkpoint_for_def Let_def checkpoint_base_def)

lemma foldl_bind_iteration:
  "rs_frames (foldl (\<lambda>s f. if fr_kind f = ''loop'' then bind_iteration f s else s) s fs) = rs_frames s"
  "rs_ctx (foldl (\<lambda>s f. if fr_kind f = ''loop'' then bind_iteration f s else s) s fs) = rs_ctx s"
  "rs_pending_error (foldl (\<lambda>s f. if fr_kind f = ''loop'' then bind_iteration f s else s) s fs) = rs_pending_error s"
  "rs_visited (foldl (\<lambda>s f. if fr_kind f = ''loop'' then bind_iteration f s else s) s fs) = rs_visited s"
  by (induction fs arbitrary: s) (simp_all add: frame_simps)

lemma restored_state_fields:
  "rs_frames (restored_state sv bp ck eid now) = rev (frames_from_json (ck_frames ck))"
  "rs_visits (restored_state sv bp ck eid now) = ck_node_visits ck"
  "rs_depth (restored_state sv bp ck eid now) = ck_depth ck"
  "rs_session_id (restored_state sv bp ck eid now) = ck_session_id ck"
  "rs_execution_id (restored_state sv bp ck eid now) = eid"
  "rs_budget (restored_state sv bp ck eid now) = en_max_node_visits (sv_env sv)"
  "m_variables (rs_ctx (restored_state sv bp ck eid now)) = (if is_object (ck_context ck) then jentries (ck_context ck) else [])"
  "rs_pending_error (restored_state sv bp ck eid now) = JNull"
  "rs_visited (restored_state sv bp ck eid now) = []"
  by (simp_all add: restored_state_def Let_def foldl_bind_iteration new_run_state_def set_frames_def restore_def empty_ctx_def)

text \<open>The resumed state against the suspended one: everything a blueprint can observe is back.\<close>

definition same_session :: "run_state \<Rightarrow> run_state \<Rightarrow> bool" where
  "same_session s s' \<longleftrightarrow> rs_frames s' = rs_frames s \<and> rs_visits s' = rs_visits s \<and> rs_depth s' = rs_depth s \<and>
     rs_session_id s' = rs_session_id s \<and> rs_execution_id s' = rs_execution_id s \<and>
     m_variables (rs_ctx s') = m_variables (rs_ctx s)"

lemma restored_same_session:
  assumes "list_all short_position (rs_frames s)" and "rs_execution_id s \<noteq> []"
  shows "same_session s (restored_state sv bp (checkpoint_for bp s r)
           (fst (id_or_uuid sv (ck_execution_id (checkpoint_for bp s r)) w)) now)"
  using assms
  by (simp add: same_session_def restored_state_fields checkpoint_for_fields frames_from_to_json_short snapshot_def id_or_uuid_def)

lemma resume_state_plain:
  assumes "timed_out \<or> \<not> has_input (jvalue_str ''reason'' ''input'' (pending_object ck)) input"
  shows "rs_frames (resume_state sv bp ck input timed_out eid now) = rs_frames (restored_state sv bp ck eid now)"
    "rs_visits (resume_state sv bp ck input timed_out eid now) = rs_visits (restored_state sv bp ck eid now)"
    "rs_depth (resume_state sv bp ck input timed_out eid now) = rs_depth (restored_state sv bp ck eid now)"
    "rs_session_id (resume_state sv bp ck input timed_out eid now) = rs_session_id (restored_state sv bp ck eid now)"
    "rs_execution_id (resume_state sv bp ck input timed_out eid now) = rs_execution_id (restored_state sv bp ck eid now)"
    "rs_ctx (resume_state sv bp ck input timed_out eid now) = rs_ctx (restored_state sv bp ck eid now)"
  using assms by (auto simp: resume_state_def Let_def)

section \<open>Stored and armed\<close>

lemma finish_run_stored:
  assumes "ho_store w = Some st" and "ro_persist opts" and "finish_run bp opts s r w = (r1, w1)"
  shows "stored (rs_session_id s) w1 =
           Some ((checkpoint_for bp (finish_status s) r1)\<lparr>ck_version :=
             (case mem_load (rs_session_id s) st of Some old \<Rightarrow> ck_version old | None \<Rightarrow> 0) + 1\<rparr>)"
  using assms
  by (auto simp: finish_run_def Let_def stored_def frame_simps checkpoint_for_fields finish_status_def split: if_splits)

lemma finish_run_status:
  "finish_run bp opts s r w = (r1, w1) \<Longrightarrow>
     rp_status r1 = (if rs_status s = ''running'' then ''completed'' else rs_status s)"
  by (auto simp: finish_run_def Let_def finish_status_def split: option.splits)

lemma finish_run_correlation: "finish_run bp opts s r w = (r1, w1) \<Longrightarrow> rp_correlation_id r1 = rp_correlation_id r"
  by (auto simp: finish_run_def Let_def split: option.splits)

lemma suspend_json_object [simp]: "is_object (suspend_json q)"
  by (auto simp: suspend_json_def Let_def split: option.splits)

lemma suspend_json_fields [json_simps]:
  "jget ''resume_at_ms'' (suspend_json q) = map_option JInt (sr_resume_at q)"
  "jget ''timeout_ms'' (suspend_json q) = map_option JInt (sr_timeout q)"
  "jget ''reason'' (suspend_json q) = Some (JStr (sr_reason q))"
  "jget ''node'' (suspend_json q) = Some (JStr (sr_node q))"
  by (auto simp: suspend_json_def Let_def json_simps split: option.splits)

text \<open>When a session that suspended for \<open>q\<close> wakes up by itself.\<close>

definition due_of :: "suspend_request \<Rightarrow> int \<Rightarrow> int" where
  "due_of q updated =
     (case sr_resume_at q of Some t \<Rightarrow> t
      | None \<Rightarrow> (case sr_timeout q of Some d \<Rightarrow> updated + d | None \<Rightarrow> 0))"

lemma wakeup_timer_suspended:
  "wakeup_timer s updated (jset ''resume_node'' (JStr c) (suspend_json q)) =
     \<lparr>ti_id = [], ti_session_id = rs_session_id s, ti_due_ms = due_of q updated, ti_resume_node = rs_cursor s,
      ti_reason = (if sr_resume_at q = None \<and> sr_timeout q \<noteq> None \<and> sr_reason q = ''input''
                   then ''prompt_timeout'' else sr_reason q), ti_checkpoint_key = []\<rparr>"
  by (auto simp: wakeup_timer_def due_of_def Let_def jcontains_def jvalue_int_def jvalue_str_def json_simps
      split: option.splits)

section \<open>Runs and resumed runs return\<close>

lemma fail_run_status [simp]: "rs_status (fail_run c m i d s) = ''failed''"
  by (simp add: fail_run_def)

lemma not_suspended_failed [simp]: "\<not> suspended_status ''failed''"
  by (simp add: suspended_status_def)

lemma on_error_not_suspended:
  "on_error_pass h u w = Halt s' w' \<Longrightarrow> (\<And>s. rs_status (u s) = ''failed'') \<Longrightarrow> \<not> suspended_status (rs_status s')"
  by (auto simp: on_error_pass_def split: prod.splits handled.splits)

lemma signal_pass_suspended:
  assumes "frames_ok bp s" and "signal_pass env bp n sig s w = Halt s' w'" and "suspended_status (rs_status s')"
  shows "frames_ok bp s'"
  using assms
  by (cases sig)
     (auto simp: signal_pass_def suspend_run_def terminate_run_def loop_control_pass_def frames_ok_def Let_def
        split: if_splits prod.splits bool.splits)

lemma drive_step_suspended:
  assumes "closed_blueprint bp" and "sequential bp" and "run_ok bp s"
    and "drive_step drv env bp s w = Some (Halt s' w')" and "suspended_status (rs_status s')"
  shows "frames_ok bp s'"
proof (cases "rs_pending_error s = JNull \<and> rs_cursor s \<noteq> [] \<and> find_node bp (rs_cursor s) \<noteq> None")
  case False
  with assms(3-5) show ?thesis
    by (auto simp: drive_step_def Let_def is_null_iff run_ok_def frames_ok_def split: if_splits option.splits
        dest!: on_error_not_suspended)
next
  case True
  then obtain n where n: "find_node bp (rs_cursor s) = Some n" by auto
  with True assms(4) have np: "node_pass drv env bp n s w = Some (Halt s' w')"
    by (simp add: drive_step_def is_null_iff)
  have closed: "node_closed bp n" by (rule node_closed_find [OF assms(1) n])
  have seq: "\<And>p. nd_body n \<noteq> Parallel p" by (rule sequential_find [OF assms(2) n])
  let ?s2 = "s\<lparr>rs_current_node_id := nd_id n, rs_visits := Suc (rs_visits s), rs_visited := rs_visited s @ [nd_id n]\<rparr>"
  have ok: "frames_ok bp ?s2" using assms(3) by (simp add: run_ok_def frames_ok_def)
  obtain r s3 w3 where p: "perform drv env bp n ?s2 w = Some (r, s3, w3)" and budget: "\<not> rs_budget s < Suc (rs_visits s)"
    and on: "nd_enabled n"
    using np assms(5) by (auto simp: node_pass_def Let_def split: if_splits option.splits prod.splits)
  have ok3: "frames_ok bp s3" using perform_core [OF seq closed ok p] by simp
  show ?thesis
  proof (cases r)
    case (Inl e)
    with np p budget on assms(5) show ?thesis
      by (auto simp: node_pass_def Let_def dest!: on_error_not_suspended)
  next
    case (Inr sig)
    with np p budget on have "signal_pass env bp n sig s3 w3 = Halt s' w'" by (simp add: node_pass_def Let_def)
    from signal_pass_suspended [OF ok3 this assms(5)] show ?thesis .
  qed
qed

lemma drives_suspended:
  assumes "closed_blueprint bp" and "sequential bp"
  shows "drives env bp x r \<Longrightarrow> run_ok bp (fst x) \<Longrightarrow> fst r = None \<Longrightarrow> suspended_status (rs_status (fst (snd r))) \<Longrightarrow>
           frames_ok bp (fst (snd r))"
proof (induction rule: drives.induct)
  case (over s w)
  then show ?case by (simp add: run_ok_def)
next
  case (halt s fuel w s' w')
  then show ?case using drive_step_suspended [OF assms] by simp
next
  case (escape s fuel w e s' w')
  then show ?case by simp
next
  case (more x y r)
  obtain s w s' w' where xy: "x = (s, w)" "y = (s', w')" by (cases x; cases y)
  with more.hyps(1) obtain fuel where "drive_step (drive fuel env bp) env bp s w = Some (Next s' w')"
    by (auto simp: steps_iff)
  from drive_step_next [OF assms _ this] more.prems(1) xy have "run_ok bp (fst y)" by (simp add: closer_def)
  with more show ?case by simp
qed

lemma finished_some [simp]: "finished x \<noteq> None"
  by (cases x) (simp add: finished_def)

lemma drive_and_finish_returns:
  assumes "closed_blueprint bp" and "sequential bp" and "run_ok bp s"
  shows "\<exists>fuel. drive_and_finish fuel sv bp opts s r w \<noteq> None"
proof -
  obtain fuel where "drive fuel (sv_env sv) bp s w \<noteq> None"
    using drive_terminates_ex [OF assms, where env = "sv_env sv" and w = w] by blast
  then have "drive_and_finish fuel sv bp opts s r w \<noteq> None"
    by (auto simp: drive_and_finish_def finished_def split: option.splits prod.splits)
  then show ?thesis ..
qed

lemma start_state_ok [simp]: "rs_frames (start_state sv bp opts sid eid now) = []"
  "rs_pending_error (start_state sv bp opts sid eid now) = JNull"
  by (simp_all add: start_state_def new_run_state_def)

lemma seed_context_frame [frame_simps]:
  "rs_frames (seed_context opts bp input s) = rs_frames s"
  "rs_pending_error (seed_context opts bp input s) = rs_pending_error s"
  "rs_session_id (seed_context opts bp input s) = rs_session_id s"
  by (simp_all add: seed_context_def Let_def)

lemma adopt_parent_frame [frame_simps]:
  "rs_frames (fst (adopt_parent p s r)) = rs_frames s"
  "rs_pending_error (fst (adopt_parent p s r)) = rs_pending_error s"
  "rs_session_id (fst (adopt_parent p s r)) = rs_session_id s"
  by (auto simp: adopt_parent_def split: option.splits)

lemma run_session_returns:
  assumes "closed_blueprint bp" and "sequential bp"
  shows "\<exists>fuel. run_session fuel sv bp input opts w \<noteq> None"
proof -
  obtain sid w1 where a: "id_or_uuid sv (ro_session_id opts) w = (sid, w1)" by fastforce
  obtain eid w2 where b: "id_or_uuid sv (ro_execution_id opts) w1 = (eid, w2)" by fastforce
  let ?s = "start_state sv bp opts sid eid (now_ms w2)"
  let ?r = "new_report\<lparr>rp_session_id := sid, rp_execution_id := eid\<rparr>"
  let ?p = "if ro_persist opts then stored sid w2 else None"
  obtain s2 r1 where c: "adopt_parent ?p (seed_context opts bp input ?s) ?r = (s2, r1)" by fastforce
  have "rs_frames s2 = []" and "rs_pending_error s2 = JNull"
    using adopt_parent_frame(1,2) [of ?p "seed_context opts bp input ?s" ?r] c by (simp_all add: frame_simps)
  then have "run_ok bp (s2\<lparr>rs_cursor := c\<rparr>)" for c by (simp add: run_ok_def frames_ok_def)
  from drive_and_finish_returns [OF assms this]
  obtain fuel where "drive_and_finish fuel sv bp opts
      (s2\<lparr>rs_cursor := if ro_start_node opts = [] then wf_entry_id bp else ro_start_node opts\<rparr>) r1 w2 \<noteq> None" by blast
  then have "run_session fuel sv bp input opts w \<noteq> None"
    unfolding run_session_def a b Let_def prod.case c by (simp del: not_None_eq)
  then show ?thesis ..
qed

lemma resume_state_run_ok:
  assumes "list_all (frame_ok bp) (frames_from_json (ck_frames ck))"
    and "known_cursor bp (rs_cursor (resume_state sv bp ck input timed_out eid now))"
  shows "run_ok bp ((resume_state sv bp ck input timed_out eid now)\<lparr>rs_current_node_id := c\<rparr>)"
proof -
  have "rs_frames (resume_state sv bp ck input timed_out eid now) = rev (frames_from_json (ck_frames ck))"
    by (simp add: resume_state_def Let_def deliver_answer_def deliver_wakeup_def frame_simps restored_state_fields)
  with assms show ?thesis by (simp add: run_ok_def frames_ok_def known_cursor_def known_def)
qed

lemma resume_returns:
  assumes "closed_blueprint bp" and "sequential bp" and "list_all (frame_ok bp) (frames_from_json (ck_frames ck))"
  shows "\<exists>fuel. resume fuel sv bp ck input timed_out w \<noteq> None"
proof -
  obtain eid w1 where a: "id_or_uuid sv (ck_execution_id ck) w = (eid, w1)" by fastforce
  let ?s = "resume_state sv bp ck input timed_out eid (now_ms w1)"
  show ?thesis
  proof (cases "known_cursor bp (rs_cursor ?s)")
    case True
    from drive_and_finish_returns [OF assms(1,2) resume_state_run_ok [OF assms(3) True]] True
    show ?thesis unfolding resume_def a Let_def prod.case by simp
  qed (simp add: resume_def a del: not_None_eq)
qed

section \<open>Properties\<close>

text \<open>
  C34: A suspended session is restored as it was: its checkpoint, written to a document and read back, gives a run
  state with the same frames, variables, count of activations, depth and identifiers (the execution's is the
  checkpoint's, as long as it has one), provided the positions of the frames fit in 32 bits.
\<close>

theorem suspended_session_is_restored:
  assumes "list_all short_position (rs_frames s)" and "rs_execution_id s \<noteq> []"
  shows "\<exists>ck. checkpoint_from_json (checkpoint_to_json (checkpoint_for bp s r)) = Some ck \<and>
     same_session s (restored_state sv bp ck (fst (id_or_uuid sv (ck_execution_id ck) w)) now)"
  using restored_same_session [OF assms] by (simp add: checkpoint_from_to_json)

lemma stored_store: "stored sid w = Some ck \<Longrightarrow> ho_store w \<noteq> None"
  by (cases "ho_store w") (simp_all add: stored_def)

lemma cancel_session_result:
  assumes "cancel_session sid reason w = (w1, True)" and "stored sid w = Some ck" and "ck_session_id ck = sid"
  shows "stored sid w1 = Some ((cancelled_checkpoint (now_ms w) reason ck)\<lparr>ck_version := ck_version ck + 1\<rparr>)"
proof -
  have "live (ck_status ck)" using cancel_session_iff [of sid reason w] assms by auto
  from cancel_session_stored [OF assms(2) this assms(3), of reason] assms(1) show ?thesis by simp
qed

lemma cancel_session_subs:
  "cancel_session sid reason w = (w1, True) \<Longrightarrow> map_of (ho_subs w1) sid = None"
  using disarm_subs [of sid w] by (auto simp: cancel_session_def Let_def frame_simps split: option.splits if_splits)

lemma cancelled_not_live [simp]: "\<not> live Cancelled" "\<not> live_suspended Cancelled"
  by (simp_all add: live_def live_suspended_def)

text \<open>
  C5: Cancelling is final: after a cancellation that reported success the session is stored as cancelled, has no timer
  and no subscription left, cannot be cancelled again, is not woken by timers and events, and resuming it is
  refused without a run.
\<close>

theorem cancel_is_final:
  assumes "cancel_session sid reason w = (w1, True)" and "stored sid w = Some ck" and "ck_session_id ck = sid"
  shows "map_option ck_status (stored sid w1) = Some Cancelled \<and>
         map_of (ho_subs w1) sid = None \<and> list_all (\<lambda>t. ti_session_id t \<noteq> sid) (case ho_sched w1 of Some sc \<Rightarrow> sc_timers sc | None \<Rightarrow> []) \<and>
         snd (cancel_session sid reason' w1) = False \<and> wakeable sid w1 = None \<and>
         (\<exists>r. resume_session fuel sv sid input w1 = Some (Inr r, w1) \<and> rp_error_code r = ''SESSION_NOT_SUSPENDED'')"
proof -
  note st = cancel_session_result [OF assms]
  have has: "ho_store w \<noteq> None" "ho_store w1 \<noteq> None" using stored_store [OF assms(2)] stored_store [OF st] by simp_all
  have "list_all (\<lambda>t. ti_session_id t \<noteq> sid) (case ho_sched w1 of Some sc \<Rightarrow> sc_timers sc | None \<Rightarrow> [])"
    using cancel_session_timers [OF has(1), of sid reason] assms(1) by (cases "ho_sched w1") (auto simp: list_all_iff)
  then show ?thesis
    using st has cancel_session_subs [OF assms(1)] cancel_session_iff [of sid reason' w1]
    by (auto simp: cancelled_checkpoint_def wakeable_def resume_session_def refused_def)
qed

definition sample_host :: host where
  "sample_host =
     \<lparr>ho_clock = Some 1000, ho_store = Some [(''s1'', sample_checkpoint\<lparr>ck_status := AwaitingInput\<rparr>)],
      ho_sched = Some \<lparr>sc_jobs = [], sc_timers = [sample_timer]\<rparr>, ho_workflows = None, ho_bus = Some new_bus,
      ho_subs = [(''s1'', [1])], ho_uuids = 0\<rparr>"

theorem cancel_is_final_witness:
  "wakeable ''s1'' (fst (cancel_session ''s1'' ''stop'' sample_host)) = None \<and>
   snd (cancel_session ''s1'' ''again'' (fst (cancel_session ''s1'' ''stop'' sample_host))) = False"
proof -
  have ck: "stored ''s1'' sample_host = Some (sample_checkpoint\<lparr>ck_status := AwaitingInput\<rparr>)"
    by (simp add: stored_def sample_host_def mem_load_def)
  obtain w1 b where c: "cancel_session ''s1'' ''stop'' sample_host = (w1, b)" by fastforce
  have "snd (cancel_session ''s1'' ''stop'' sample_host)" using ck by (simp add: cancel_session_iff live_def)
  with c have "cancel_session ''s1'' ''stop'' sample_host = (w1, True)" by simp
  from cancel_is_final [OF this ck, where reason' = "''again''"] c show ?thesis by (simp add: sample_checkpoint_def)
qed

lemma delivered_once:
  assumes "ti_id t \<noteq> []" and "snd (tick_until n (fst (add_timer [] t sc))) = Returns (js, ts)"
  shows "t \<in> set ts \<longleftrightarrow> ti_due_ms t \<le> n"
  using assms(2) by (intro wakeups.armed_in_tick [OF assms(1), of n sc]) (simp add: tick_timers_some)

lemma thrown_keeps:
  assumes "snd (tick_until n sc) = Throws"
  shows "set (sc_timers (fst (tick_until n sc))) = set (sc_timers sc)"
proof -
  have "mset (sc_timers (fst (tick_until n sc))) = mset (sc_timers sc)"
    using wakeups.tick_thrown [of n sc] assms by (simp add: tick_timers_thrown)
  then show ?thesis by (rule mset_eq_setD)
qed

lemma in_added_timers: "ti_id t \<noteq> [] \<Longrightarrow> t \<in> set (sc_timers (fst (add_timer [] t sc)))"
  using wakeups.armed_pending [of t sc] by simp

lemma arm_timer_id: "ti_id (arm_timer s ck reason t) \<noteq> []"
  by (simp add: arm_timer_def Let_def)

lemma arm_timer_fields [simp]:
  "ti_session_id (arm_timer s ck reason t) = rs_session_id s" "ti_due_ms (arm_timer s ck reason t) = ti_due_ms t"
  by (simp_all add: arm_timer_def Let_def)

lemma arm_wakeup_sched:
  assumes "ho_sched w = Some sc" and "ck_timers ck = [t]"
  shows "ho_sched (arm_wakeup s ck w) =
           Some (fst (add_timer [] (arm_timer s ck (jvalue_str ''reason'' ''wait'' (pending_object ck)) t) sc))"
  using assms by (simp add: arm_wakeup_def Let_def split_beta split: option.split json.split)

definition wakeup_due :: "suspend_request \<Rightarrow> run_state \<Rightarrow> int \<Rightarrow> int" where
  "wakeup_due q s now = due_of q (rs_started_ms s + max 0 (now - rs_started_ms s))"

lemma checkpoint_timers:
  assumes "suspended_status (rs_status s)" and "rs_suspend_request s = suspend_json q" and "0 < wakeup_due q s now"
  shows "\<exists>t. ck_timers (checkpoint_for bp s (finish_report bp now s r)) = [t] \<and> ti_due_ms t = wakeup_due q s now"
  using assms
  by (simp add: checkpoint_for_def suspend_checkpoint_def checkpoint_base_def wakeup_timer_suspended Let_def wakeup_due_def)

text \<open>
  C35: A session that suspends with a deadline is woken by it: finishing the run arms a timer of the session that is
  due at the requested instant (or the timeout after the last update), and a tick delivers it when, and only
  when, that instant has come; a tick that throws in a job delivers no timer and leaves this one pending.
\<close>

theorem suspended_session_wakes_on_time:
  assumes "suspended_status (rs_status s)" and "rs_suspend_request s = suspend_json q"
    and "0 < wakeup_due q s (now_ms w)" and "ho_store w = Some st" and "ho_sched w = Some sc"
  shows "\<exists>sc1 t. ho_sched (snd (finish_run bp opts s r w)) = Some sc1 \<and> t \<in> set (sc_timers sc1) \<and>
           ti_session_id t = rs_session_id s \<and> ti_due_ms t = wakeup_due q s (now_ms w) \<and>
           (\<forall>now js ts. snd (tick_until now sc1) = Returns (js, ts) \<longrightarrow> (t \<in> set ts \<longleftrightarrow> wakeup_due q s (now_ms w) \<le> now)) \<and>
           (\<forall>now. snd (tick_until now sc1) = Throws \<longrightarrow> t \<in> set (sc_timers (fst (tick_until now sc1))))"
proof -
  have run: "finish_status s = s" using assms(1) by (auto simp: finish_status_def suspended_status_def)
  let ?r = "finish_report bp (now_ms w) s r"
  let ?ck = "checkpoint_for bp s ?r"
  obtain t where t: "ck_timers ?ck = [t]" "ti_due_ms t = wakeup_due q s (now_ms w)"
    using checkpoint_timers [OF assms(1-3)] by blast
  let ?t = "arm_timer s ?ck (jvalue_str ''reason'' ''wait'' (pending_object ?ck)) t"
  let ?w = "if ro_persist opts then w\<lparr>ho_store := Some (mem_save ?ck st)\<rparr> else w"
  have "ho_sched (arm_wakeup s ?ck ?w) = Some (fst (add_timer [] ?t sc))"
    by (rule arm_wakeup_sched [OF _ t(1)]) (simp add: assms(5))
  moreover have "snd (finish_run bp opts s r w) = arm_wakeup s ?ck ?w"
    using assms(1,4) run by (simp add: finish_run_def Let_def)
  moreover have "?t \<in> set (sc_timers (fst (add_timer [] ?t sc)))"
    by (rule in_added_timers [OF arm_timer_id])
  moreover have "?t \<in> set ts \<longleftrightarrow> wakeup_due q s (now_ms w) \<le> now"
    if "snd (tick_until now (fst (add_timer [] ?t sc))) = Returns (js, ts)" for now js ts
    using delivered_once [OF arm_timer_id that] t(2) by simp
  moreover have "?t \<in> set (sc_timers (fst (tick_until now (fst (add_timer [] ?t sc)))))"
    if "snd (tick_until now (fst (add_timer [] ?t sc))) = Throws" for now
    using thrown_keeps [OF that] by (simp add: in_added_timers arm_timer_id)
  ultimately show ?thesis using t(2) by (intro exI [of _ "fst (add_timer [] ?t sc)"] exI [of _ ?t]) simp
qed

definition asking_state :: run_state where
  "asking_state = new_run_state\<lparr>rs_session_id := ''s2'', rs_status := ''awaiting_input'',
     rs_suspend_request := suspend_json (default_suspend\<lparr>sr_timeout := Some 500\<rparr>)\<rparr>"

theorem suspended_session_wakes_on_time_witness:
  "\<exists>sc1 t. ho_sched (snd (finish_run demo_blueprint default_options asking_state new_report sample_host)) = Some sc1 \<and>
     t \<in> set (sc_timers sc1) \<and> ti_session_id t = ''s2'' \<and> ti_due_ms t = 1500 \<and>
     (\<forall>js ts. snd (tick_until 1500 sc1) = Returns (js, ts) \<longrightarrow> t \<in> set ts)"
proof -
  let ?q = "default_suspend\<lparr>sr_timeout := Some 500\<rparr>"
  have due: "wakeup_due ?q asking_state (now_ms sample_host) = 1500"
    by (simp add: wakeup_due_def due_of_def asking_state_def sample_host_def now_ms_def new_run_state_def default_suspend_def)
  have st: "suspended_status (rs_status asking_state)" "rs_suspend_request asking_state = suspend_json ?q"
    "rs_session_id asking_state = ''s2''"
    by (simp_all add: asking_state_def suspended_status_def)
  obtain store sched where h: "ho_store sample_host = Some store" "ho_sched sample_host = Some sched"
    by (simp add: sample_host_def)
  obtain sc1 t where t: "ho_sched (snd (finish_run demo_blueprint default_options asking_state new_report sample_host)) = Some sc1"
      "t \<in> set (sc_timers sc1)" "ti_session_id t = ''s2''" "ti_due_ms t = 1500"
    and d: "\<forall>now js ts. snd (tick_until now sc1) = Returns (js, ts) \<longrightarrow> (t \<in> set ts \<longleftrightarrow> 1500 \<le> now)"
    using suspended_session_wakes_on_time [OF st(1,2) _ h, of demo_blueprint default_options new_report]
    unfolding due st(3) by auto
  then show ?thesis by (intro exI [of _ sc1] exI [of _ t]) simp
qed

text \<open>
  C2: A suspended session can always be resumed: when a run of a closed blueprint without parallel sections suspends
  and is finished with persistence, its checkpoint is stored under the session, and resuming from it (with any
  input, after any time, or for a timed-out prompt) again returns.
\<close>

theorem suspended_session_can_resume:
  assumes "closed_blueprint bp" and "sequential bp" and "run_ok bp s"
    and "drive fuel env bp s w = Some (None, s1, w1)" and "suspended_status (rs_status s1)"
    and "ho_store w1 = Some st" and "ro_persist opts"
  shows "\<exists>ck. stored (rs_session_id s1) (snd (finish_run bp opts s1 r w1)) = Some ck \<and>
           (\<exists>more. resume more sv bp ck input timed_out later \<noteq> None)"
proof -
  obtain r2 w2 where f: "finish_run bp opts s1 r w1 = (r2, w2)" by fastforce
  have run: "finish_status s1 = s1" using assms(5) by (auto simp: finish_status_def suspended_status_def)
  let ?ck = "(checkpoint_for bp s1 r2)\<lparr>ck_version :=
    (case mem_load (rs_session_id s1) st of Some old \<Rightarrow> ck_version old | None \<Rightarrow> 0) + 1\<rparr>"
  have "stored (rs_session_id s1) w2 = Some ?ck"
    using finish_run_stored [OF assms(6,7) f] run by simp
  moreover have "frames_ok bp s1"
    using drives_suspended [OF assms(1,2) drive_drives [OF assms(4)]] assms(3,5) by simp
  then have fr: "list_all (frame_ok bp) (frames_from_json (ck_frames ?ck))"
    by (simp add: checkpoint_for_fields frames_from_to_json frames_ok_def list.pred_map comp_def frame_ok_position)
  ultimately show ?thesis using resume_returns [OF assms(1,2) fr] f by (simp del: not_None_eq)
qed

definition asking_env :: "host env" where
  "asking_env = demo_env\<lparr>en_task := (\<lambda>t. Some (\<lambda>x w. (Signals (Suspend default_suspend), ex_ctx x, w)))\<rparr>"

definition plain_services :: "'w env \<Rightarrow> 'w services" where
  "plain_services env =
     \<lparr>sv_env = env, sv_declarations = None, sv_source_problems = None, sv_uuid = (\<lambda>n. ''u''), sv_pool = False\<rparr>"

definition framed_state :: run_state where
  "framed_state = demo_start\<lparr>rs_execution_id := ''e1'',
     rs_frames := [\<lparr>fr_kind = ''branch'', fr_node = ''a'', fr_position = 3, fr_resume = [], fr_state = JObj []\<rparr>]\<rparr>"

theorem suspended_session_is_restored_witness:
  "\<exists>ck. checkpoint_from_json (checkpoint_to_json (checkpoint_for demo_blueprint framed_state new_report)) = Some ck \<and>
     same_session framed_state (restored_state (plain_services (demo_env :: host env)) demo_blueprint ck
       (fst (id_or_uuid (plain_services (demo_env :: host env)) (ck_execution_id ck) sample_host)) 5)"
  by (rule suspended_session_is_restored) (simp_all add: framed_state_def short_position_def)

theorem suspended_session_can_resume_witness:
  "\<exists>s1 ck. stored (rs_session_id s1) (snd (finish_run demo_blueprint default_options s1 new_report sample_host)) = Some ck \<and>
     (\<exists>more. resume more (plain_services asking_env) demo_blueprint ck (JStr ''yes'') False sample_host \<noteq> None)"
proof -
  let ?s = "demo_start\<lparr>rs_session_id := ''s3''\<rparr>"
  have ok: "run_ok demo_blueprint ?s" using demo_start_ok(1) by (simp add: run_ok_def frames_ok_def)
  obtain s1 w1 where d: "drive 1 asking_env demo_blueprint ?s sample_host = Some (None, s1, w1)"
    and st: "suspended_status (rs_status s1)" and h: "w1 = sample_host"
    by (simp add: drive.simps drive_step_def node_pass_def perform_def activate_node_def attempts.simps demo_start_def
        new_run_state_def demo_blueprint_def find_node_def plain_node_def noop_body_def asking_env_def signal_pass_def
        suspend_run_def clear_resume_def Let_def default_suspend_def suspended_status_def)
  have "ho_store w1 = Some [(''s1'', sample_checkpoint\<lparr>ck_status := AwaitingInput\<rparr>)]" by (simp add: h sample_host_def)
  from suspended_session_can_resume [OF demo_closed ok d st this, of default_options new_report "plain_services asking_env" "JStr ''yes''" False sample_host] h
  show ?thesis by (simp add: default_options_def del: not_None_eq) blast
qed

text \<open>
  The correlation identifier a caller passes is lost: \<open>run\<close> puts it into the \<open>session\<close> variable only, so for a
  session that is not stored yet the report of the run carries none, whatever the options say.
\<close>

theorem run_forgets_correlation:
  assumes "\<forall>sid. stored sid w = None" and "run_session fuel sv bp input opts w = Some (Inr r, w1)"
  shows "rp_correlation_id r = []"
proof -
  obtain sid wa where a: "id_or_uuid sv (ro_session_id opts) w = (sid, wa)" by fastforce
  obtain eid wb where b: "id_or_uuid sv (ro_execution_id opts) wa = (eid, wb)" by fastforce
  have "ho_store wb = ho_store w" using a b by (auto simp: id_or_uuid_def split: if_splits)
  then have p: "(if ro_persist opts then stored sid wb else None) = None" using assms(1) by (simp add: stored_def)
  have fin: "rp_correlation_id r = []" if "rp_correlation_id r0 = []" and "finished (finish_run bp opts s0 r0 w0) = Some (Inr r, w1)" for s0 r0 w0
    using that finish_run_correlation [of bp opts s0 r0 w0] by (auto simp: finished_def split: prod.splits)
  have df: "rp_correlation_id r = []" if "rp_correlation_id r0 = []" and "drive_and_finish fuel sv bp opts s0 r0 w0 = Some (Inr r, w1)" for s0 r0 w0
    using that fin by (auto simp: drive_and_finish_def split: option.splits prod.splits)
  show ?thesis
    using assms(2) unfolding run_session_def a b Let_def prod.case p adopt_parent_def option.case
    by (auto simp: new_report_def dest!: fin [rotated] df [rotated] split: if_splits)
qed

definition tagged_options :: run_options where
  "tagged_options = default_options\<lparr>ro_session_id := ''s1'', ro_execution_id := ''e1'', ro_correlation_id := ''corr-1''\<rparr>"

theorem run_forgets_correlation_witness:
  "\<exists>fuel r w1. run_session fuel (plain_services (demo_env :: host env)) demo_blueprint (JObj []) tagged_options
       (sample_host\<lparr>ho_store := Some []\<rparr>) = Some (r, w1) \<and> (\<forall>rep. r = Inr rep \<longrightarrow> rp_correlation_id rep = [])"
proof -
  obtain fuel r w1 where r: "run_session fuel (plain_services (demo_env :: host env)) demo_blueprint (JObj []) tagged_options
      (sample_host\<lparr>ho_store := Some []\<rparr>) = Some (r, w1)"
    using run_session_returns [OF demo_closed, of "plain_services demo_env" "JObj []" tagged_options "sample_host\<lparr>ho_store := Some []\<rparr>"] by auto
  have "rp_correlation_id rep = []" if "r = Inr rep" for rep
    by (rule run_forgets_correlation [OF _ r [unfolded that]]) (simp add: stored_def mem_load_def)
  with r show ?thesis by blast
qed

end
