(* ===== verification/Sapo_Encoding.thy ===== *)
theory Sapo_Encoding
  imports Sapo_Prelude "HOL-Library.Word"
begin

unbundle bit_operations_syntax

text \<open>
  \<open>util/Encoding.cpp\<close>: base 64 (both alphabets), hexadecimal, base 32 and percent encoding.  The bit buffers
  are the 32-bit integers of the source: the left shifts drop what leaves the word.  (A right shift of the
  signed buffer differs from \<open>drop_bit\<close> only in bits above the ones that are then masked out.)

  The lemmas: what an encoder prints, its decoder reads back, for every string of bytes.
\<close>

section \<open>Base 64\<close>

definition base64_alphabet :: string where
  "base64_alphabet = ''ABCDEFGHIJKLMNOPQRSTUVWXYZabcdefghijklmnopqrstuvwxyz0123456789+/''"

definition base64url_alphabet :: string where
  "base64url_alphabet = ''ABCDEFGHIJKLMNOPQRSTUVWXYZabcdefghijklmnopqrstuvwxyz0123456789-_''"

definition char_word :: "char \<Rightarrow> 32 word" where
  "char_word c = of_nat (byte c)"

definition sextet :: "string \<Rightarrow> 32 word \<Rightarrow> int \<Rightarrow> char" where
  "sextet alphabet val shift = alphabet ! unat (drop_bit (nat shift) val AND 0x3F)"

function emit_sextets :: "string \<Rightarrow> 32 word \<Rightarrow> int \<Rightarrow> string \<times> int" where
  "emit_sextets alphabet val bits =
     (if 0 \<le> bits then
        (case emit_sextets alphabet val (bits - 6) of (out, rest) \<Rightarrow> (sextet alphabet val bits # out, rest))
      else ([], bits))"
  by pat_completeness auto
termination emit_sextets
  by (relation "measure (\<lambda>(a, v, b). nat (b + 6))") auto

declare emit_sextets.simps [simp del]

fun encode_loop :: "string \<Rightarrow> 32 word \<Rightarrow> int \<Rightarrow> string \<Rightarrow> string" where
  "encode_loop alphabet val bits [] =
     (if bits > - 6 then [sextet alphabet (push_bit 8 val) (bits + 8)] else [])"
| "encode_loop alphabet val bits (c # cs) =
     (let val1 = push_bit 8 val + char_word c
      in case emit_sextets alphabet val1 (bits + 8) of
           (out, bits1) \<Rightarrow> out @ encode_loop alphabet val1 bits1 cs)"

definition pad_with :: "nat \<Rightarrow> string \<Rightarrow> string" where
  "pad_with n out = out @ replicate ((n - length out mod n) mod n) (CHR ''='')"

definition encode_base :: "string \<Rightarrow> string \<Rightarrow> bool \<Rightarrow> string" where
  "encode_base input alphabet padding =
     (let out = encode_loop alphabet 0 (- 6) input in if padding then pad_with 4 out else out)"

definition octet :: "32 word \<Rightarrow> int \<Rightarrow> char" where
  "octet val shift = char_of (unat (drop_bit (nat shift) val AND 0xFF))"

fun decode_loop :: "string \<Rightarrow> 32 word \<Rightarrow> int \<Rightarrow> string \<Rightarrow> string option" where
  "decode_loop alphabet val bits [] = Some []"
| "decode_loop alphabet val bits (c # cs) =
     (if c = CHR ''='' then Some []
      else if is_space c then decode_loop alphabet val bits cs
      else case index_of alphabet c of
             None \<Rightarrow> None
           | Some p \<Rightarrow>
               (let val1 = push_bit 6 val + of_nat p; bits1 = bits + 6
                in if 0 \<le> bits1 then
                     map_option (\<lambda>out. octet val1 bits1 # out)
                       (decode_loop alphabet val1 (bits1 - 8) cs)
                   else decode_loop alphabet val1 bits1 cs))"

definition decode_base :: "string \<Rightarrow> string \<Rightarrow> string option" where
  "decode_base input alphabet = decode_loop alphabet 0 (- 8) input"

definition base64_encode :: "string \<Rightarrow> string" where
  "base64_encode s = encode_base s base64_alphabet True"

definition base64_decode :: "string \<Rightarrow> string option" where
  "base64_decode s = decode_base s base64_alphabet"

definition base64url_encode :: "string \<Rightarrow> string" where
  "base64url_encode s = encode_base s base64url_alphabet False"

definition base64url_decode :: "string \<Rightarrow> string option" where
  "base64url_decode s =
     (let t = map (\<lambda>c. if c = CHR ''-'' then CHR ''+'' else if c = CHR ''_'' then CHR ''/'' else c) s
      in decode_base (pad_with 4 t) base64_alphabet)"

section \<open>Hexadecimal\<close>

definition hex_digit :: "nat \<Rightarrow> char" where
  "hex_digit n = ''0123456789abcdef'' ! n"

definition to_hex :: "string \<Rightarrow> string" where
  "to_hex bytes = concat (map (\<lambda>c. [hex_digit (byte c div 16), hex_digit (byte c mod 16)]) bytes)"

definition nibble :: "char \<Rightarrow> nat option" where
  "nibble c =
     (if is_digit c then Some (byte c - 48)
      else if CHR ''a'' \<le> c \<and> c \<le> CHR ''f'' then Some (byte c - 97 + 10)
      else if CHR ''A'' \<le> c \<and> c \<le> CHR ''F'' then Some (byte c - 65 + 10) else None)"

fun hex_pairs :: "string \<Rightarrow> string option" where
  "hex_pairs (a # b # cs) =
     (case (nibble a, nibble b) of
        (Some hi, Some lo) \<Rightarrow> map_option (\<lambda>out. char_of (hi * 16 + lo) # out) (hex_pairs cs)
      | _ \<Rightarrow> None)"
| "hex_pairs _ = Some []"

definition from_hex :: "string \<Rightarrow> string option" where
  "from_hex h = (if length h mod 2 \<noteq> 0 then None else hex_pairs h)"

section \<open>Base 32\<close>

definition base32_alphabet :: string where
  "base32_alphabet = ''ABCDEFGHIJKLMNOPQRSTUVWXYZ234567''"

function emit_quintets :: "32 word \<Rightarrow> nat \<Rightarrow> string \<times> nat" where
  "emit_quintets buffer left =
     (if 5 \<le> left then
        (case emit_quintets buffer (left - 5) of
           (out, rest) \<Rightarrow> (base32_alphabet ! unat (drop_bit (left - 5) buffer AND 0x1F) # out, rest))
      else ([], left))"
  by pat_completeness auto
termination emit_quintets
  by (relation "measure snd") auto

declare emit_quintets.simps [simp del]

fun base32_loop :: "32 word \<Rightarrow> nat \<Rightarrow> string \<Rightarrow> string" where
  "base32_loop buffer left [] =
     (if 0 < left then [base32_alphabet ! unat (push_bit (5 - left) buffer AND 0x1F)] else [])"
| "base32_loop buffer left (c # cs) =
     (let buffer1 = push_bit 8 buffer OR char_word c
      in case emit_quintets buffer1 (left + 8) of (out, left1) \<Rightarrow> out @ base32_loop buffer1 left1 cs)"

definition base32_encode :: "string \<Rightarrow> string" where
  "base32_encode s = pad_with 8 (base32_loop 0 0 s)"

definition base32_value :: "char \<Rightarrow> nat option" where
  "base32_value c =
     (if CHR ''A'' \<le> c \<and> c \<le> CHR ''Z'' then Some (byte c - 65)
      else if CHR ''a'' \<le> c \<and> c \<le> CHR ''z'' then Some (byte c - 97)
      else if CHR ''2'' \<le> c \<and> c \<le> CHR ''7'' then Some (byte c - 50 + 26) else None)"

fun base32_decode_loop :: "32 word \<Rightarrow> nat \<Rightarrow> string \<Rightarrow> string option" where
  "base32_decode_loop buffer left [] = Some []"
| "base32_decode_loop buffer left (c # cs) =
     (if c = CHR ''='' \<or> c = CHR '' '' \<or> c = CHR ''-'' then base32_decode_loop buffer left cs
      else case base32_value c of
             None \<Rightarrow> None
           | Some v \<Rightarrow>
               (let buffer1 = push_bit 5 buffer OR of_nat v; left1 = left + 5
                in if 8 \<le> left1 then
                     map_option (\<lambda>out. octet buffer1 (int left1 - 8) # out)
                       (base32_decode_loop buffer1 (left1 - 8) cs)
                   else base32_decode_loop buffer1 left1 cs))"

definition base32_decode :: "string \<Rightarrow> string option" where
  "base32_decode s = base32_decode_loop 0 0 s"

section \<open>Percent encoding\<close>

definition upper_hex_digit :: "nat \<Rightarrow> char" where
  "upper_hex_digit n = ''0123456789ABCDEF'' ! n"

definition unreserved :: "char \<Rightarrow> bool" where
  "unreserved c \<longleftrightarrow> is_alnum c \<or> c \<in> {CHR ''-'', CHR ''_'', CHR ''.'', CHR ''~''}"

definition percent_encode :: "string \<Rightarrow> string" where
  "percent_encode s =
     concat (map (\<lambda>c. if unreserved c then [c]
                      else [CHR ''%'', upper_hex_digit (byte c div 16), upper_hex_digit (byte c mod 16)]) s)"

section \<open>Hexadecimal round trip\<close>

lemma nibble_hex_digit: "n < 16 \<Longrightarrow> nibble (hex_digit n) = Some n"
proof -
  have "\<forall>n \<in> set [0..<16]. nibble (hex_digit n) = Some n" by code_simp
  then show "n < 16 \<Longrightarrow> nibble (hex_digit n) = Some n" by simp
qed

lemma hex_pairs_to_hex: "hex_pairs (to_hex s) = Some s"
proof (induction s)
  case (Cons c s)
  have "byte c div 16 < 16" using byte_less [of c] by linarith
  then have "nibble (hex_digit (byte c div 16)) = Some (byte c div 16)"
    "nibble (hex_digit (byte c mod 16)) = Some (byte c mod 16)" by (simp_all add: nibble_hex_digit)
  with Cons show ?case by (simp add: to_hex_def)
qed (simp add: to_hex_def)

lemma length_to_hex: "length (to_hex s) = 2 * length s"
  by (induction s) (simp_all add: to_hex_def)

lemma from_hex_to_hex: "from_hex (to_hex s) = Some s"
  by (simp add: from_hex_def length_to_hex hex_pairs_to_hex)

section \<open>Base 64 round trip\<close>

text \<open>What the buffer's low bits are, as numbers.\<close>

lemma digit_mod: "n + k \<le> 32 \<Longrightarrow> (x mod 4294967296) div 2 ^ n mod 2 ^ k = (x div 2 ^ n mod 2 ^ k :: nat)"
proof -
  assume "n + k \<le> 32"
  then have "take_bit k (drop_bit n (take_bit 32 x)) = take_bit k (drop_bit n x)"
    by (auto simp: bit_eq_iff bit_take_bit_iff bit_drop_bit_eq)
  then show ?thesis by (simp add: take_bit_eq_mod drop_bit_eq_div)
qed

lemma unat_low_bits: "unat (drop_bit n (w :: 32 word) AND mask k) = unat w div 2 ^ n mod 2 ^ k"
proof -
  have "unat (drop_bit n w AND mask k) = take_bit k (drop_bit n (unat w))"
    by (simp only: take_bit_eq_mask [symmetric] unsigned_take_bit_eq unat_drop_bit_eq)
  then show ?thesis by (simp only: take_bit_eq_mod drop_bit_eq_div)
qed

lemma sextet_value: "sextet alphabet w n = alphabet ! (unat w div 2 ^ nat n mod 64)"
  using unat_low_bits [of "nat n" w 6] by (simp add: sextet_def mask_numeral)

lemma octet_value: "octet w n = char_of (unat w div 2 ^ nat n mod 256)"
  using unat_low_bits [of "nat n" w 8] by (simp only: octet_def) (simp add: mask_numeral)

lemma unat_shift6: "unat (push_bit 6 (w :: 32 word) + of_nat b) = (unat w * 64 + b) mod 4294967296"
  by (simp add: unat_word_ariths push_bit_eq_mult unat_of_nat mod_simps)

lemma unat_shift8: "unat (push_bit 8 (w :: 32 word) + char_word c) = (unat w * 256 + byte c) mod 4294967296"
  by (simp add: unat_word_ariths push_bit_eq_mult unat_of_nat mod_simps char_word_def)

lemma unat_push8: "unat (push_bit 8 (w :: 32 word)) = (unat w * 256) mod 4294967296"
  using unat_shift6 [of w 0] by (simp add: unat_word_ariths push_bit_eq_mult mod_simps)

text \<open>The digits of a number that was shifted by a multiple of the digit's position.\<close>

lemma mod_pack: "r < c \<Longrightarrow> (v * c + r) mod (c * m) = v mod m * c + r" for v r c m :: nat
  by (simp add: mod_mult2_eq)

lemma chunk: "a < k * d \<Longrightarrow> 0 < d \<Longrightarrow> (v * (k * d) + a) div d mod (k * m) = v mod m * k + a div d" for v k d a m :: nat
proof -
  assume "a < k * d" and "0 < d"
  moreover from this have "(v * (k * d) + a) div d = v * k + a div d"
    by (metis add.commute div_mult_self1 mult.assoc not_gr_zero)
  ultimately show ?thesis using mod_pack [of "a div d" k v m] by (simp add: less_mult_imp_div_less)
qed

lemma low_mod: "k * c dvd 4294967296 \<Longrightarrow> (v * (k * c) + b) mod 4294967296 mod c = b mod c" for v k c b :: nat
proof -
  assume "k * c dvd 4294967296"
  then have "(v * (k * c) + b) mod 4294967296 mod c = (v * (k * c) + b) mod c"
    by (meson dvd_mult_right mod_mod_cancel)
  also have "\<dots> = b mod c" by (metis add.commute mod_mult_self1 mult.assoc)
  finally show ?thesis .
qed

lemma chunk_mod:
  "a < k * 2 ^ n \<Longrightarrow> k * m = 2 ^ j \<Longrightarrow> n + j \<le> 32 \<Longrightarrow>
   (v * (k * 2 ^ n) + a) mod 4294967296 div 2 ^ n mod 2 ^ j = v mod m * k + a div 2 ^ n" for v k a m :: nat
  using chunk [of a k "2 ^ n" v m] digit_mod [of n j "v * (k * 2 ^ n) + a"] by simp

lemma low_digits:
  "unat (push_bit 8 (w :: 32 word) + char_word c) mod 4 = byte c mod 4"
  "unat (push_bit 8 w + char_word c) mod 16 = byte c mod 16"
  "unat (push_bit 8 w + char_word c) mod 64 = byte c mod 64"
  unfolding unat_shift8
  subgoal using low_mod [of 64 4 "unat w" "byte c"] by simp
  subgoal using low_mod [of 16 16 "unat w" "byte c"] by simp
  subgoal using low_mod [of 4 64 "unat w" "byte c"] by simp
  done

lemma high_sextets:
  "unat (push_bit 8 (w :: 32 word) + char_word c) div 4 mod 64 = byte c div 4"
  "unat (push_bit 8 w + char_word c) div 16 mod 64 = unat w mod 4 * 16 + byte c div 16"
  "unat (push_bit 8 w + char_word c) div 64 mod 64 = unat w mod 16 * 4 + byte c div 64"
  unfolding unat_shift8
  subgoal using chunk_mod [of "byte c" 64 2 1 6 "unat w"] by simp
  subgoal using chunk_mod [of "byte c" 16 4 4 6 "unat w"] by simp
  subgoal using chunk_mod [of "byte c" 4 6 16 6 "unat w"] by simp
  done

lemma tail_sextets:
  "unat (push_bit 8 (w :: 32 word)) div 16 mod 64 = unat w mod 4 * 16"
  "unat (push_bit 8 w) div 64 mod 64 = unat w mod 16 * 4"
  unfolding unat_push8
  subgoal using chunk_mod [of 0 16 4 4 6 "unat w"] by simp
  subgoal using chunk_mod [of 0 4 6 16 6 "unat w"] by simp
  done

lemmas sextets = low_digits high_sextets tail_sextets

text \<open>Three bytes become four characters that do not depend on what the buffer held before.\<close>

definition quad :: "string \<Rightarrow> nat \<Rightarrow> nat \<Rightarrow> nat \<Rightarrow> string" where
  "quad alphabet a b c =
     [alphabet ! (a div 4), alphabet ! (a mod 4 * 16 + b div 16), alphabet ! (b mod 16 * 4 + c div 64), alphabet ! (c mod 64)]"

lemma encode_three:
  "\<exists>v'. encode_loop alphabet v (- 6) (a # b # c # s) =
     quad alphabet (byte a) (byte b) (byte c) @ encode_loop alphabet v' (- 6) s"
  by (auto simp: emit_sextets.simps quad_def sextet_value Let_def sextets)

lemma encode_two:
  "encode_loop alphabet v (- 6) [a, b] =
     [alphabet ! (byte a div 4), alphabet ! (byte a mod 4 * 16 + byte b div 16), alphabet ! (byte b mod 16 * 4)]"
  by (simp add: emit_sextets.simps sextet_value Let_def sextets)

lemma encode_one:
  "encode_loop alphabet v (- 6) [a] = [alphabet ! (byte a div 4), alphabet ! (byte a mod 4 * 16)]"
  by (simp add: emit_sextets.simps sextet_value Let_def sextets)

text \<open>And four characters become three bytes.\<close>

definition good_alphabet :: "string \<Rightarrow> bool" where
  "good_alphabet alphabet \<longleftrightarrow>
     distinct alphabet \<and> length alphabet = 64 \<and> list_all (\<lambda>c. c \<noteq> CHR ''='' \<and> \<not> is_space c) alphabet"

lemma good_alphabets: "good_alphabet base64_alphabet" "good_alphabet base64url_alphabet"
  by code_simp+

lemma index_of_nth: "distinct xs \<Longrightarrow> p < length xs \<Longrightarrow> index_of xs (xs ! p) = Some p"
  by (metis index_of_SomeD index_of_Some_ex nth_eq_iff_index_eq nth_mem)

lemma good_char:
  assumes "good_alphabet alphabet" and "p < 64"
  shows "index_of alphabet (alphabet ! p) = Some p" "alphabet ! p \<noteq> CHR ''=''" "\<not> is_space (alphabet ! p)"
  using assms by (auto simp: good_alphabet_def index_of_nth list_all_length)

lemma octets:
  assumes "p < 64"
  shows "octet (push_bit 6 w + of_nat p) 4 = char_of (unat w mod 64 * 4 + p div 16)"
    and "octet (push_bit 6 w + of_nat p) 2 = char_of (unat w mod 16 * 16 + p div 4)"
    and "octet (push_bit 6 w + of_nat p) 0 = char_of (unat w mod 4 * 64 + p)"
    and "unat (push_bit 6 w + of_nat p) mod 64 = p"
    and "unat (push_bit 6 w + of_nat p) mod 16 = p mod 16"
    and "unat (push_bit 6 w + of_nat p) mod 4 = p mod 4"
  unfolding octet_value unat_shift6
  subgoal using chunk_mod [of p 4 4 64 8 "unat w"] assms by (simp del: char_of_mod_256)
  subgoal using chunk_mod [of p 16 2 16 8 "unat w"] assms by simp
  subgoal using chunk_mod [of p 64 0 4 8 "unat w"] assms by simp
  subgoal using low_mod [of 1 64 "unat w" p] assms by simp
  subgoal using low_mod [of 4 16 "unat w" p] by simp
  subgoal using low_mod [of 16 4 "unat w" p] by simp
  done

lemma decode_four:
  assumes "good_alphabet alphabet" and "p1 < 64" and "p2 < 64" and "p3 < 64" and "p4 < 64"
  shows "\<exists>v'. decode_loop alphabet v (- 8) ([alphabet ! p1, alphabet ! p2, alphabet ! p3, alphabet ! p4] @ s) =
     map_option (\<lambda>out. char_of (p1 * 4 + p2 div 16) # char_of (p2 mod 16 * 16 + p3 div 4) # char_of (p3 mod 4 * 64 + p4) # out)
       (decode_loop alphabet v' (- 8) s)"
  using assms by (auto simp: good_char Let_def octets option.map_comp o_def)

lemma decode_stop:
  assumes "good_alphabet alphabet" and "p1 < 64" and "p2 < 64" and "p3 < 64" and "s = [] \<or> hd s = CHR ''=''"
  shows "decode_loop alphabet v (- 8) ([alphabet ! p1, alphabet ! p2] @ s) = Some [char_of (p1 * 4 + p2 div 16)]"
    and "decode_loop alphabet v (- 8) ([alphabet ! p1, alphabet ! p2, alphabet ! p3] @ s) =
      Some [char_of (p1 * 4 + p2 div 16), char_of (p2 mod 16 * 16 + p3 div 4)]"
  using assms by (cases s; simp add: good_char Let_def octets)+

lemma rebuilt:
  assumes "b < 256" and "c < 256"
  shows "(a div 4) * 4 + (a mod 4 * 16 + b div 16) div 16 = (a :: nat)"
    and "(a mod 4 * 16 + b div 16) mod 16 * 16 + (b mod 16 * 4 + c div 64) div 4 = (b :: nat)"
    and "(b mod 16 * 4 + c div 64) mod 4 * 64 + c mod 64 = (c :: nat)"
    and "(a mod 4 * 16 + b div 16) mod 16 * 16 + b mod 16 * 4 div 4 = (b :: nat)"
    and "(a div 4) * 4 + a mod 4 * 16 div 16 = (a :: nat)"
proof -
  have "b div 16 < 16" "c div 64 < 4" using assms by linarith+
  then have "(a mod 4 * 16 + b div 16) div 16 = a mod 4" "(a mod 4 * 16 + b div 16) mod 16 = b div 16"
    "(b mod 16 * 4 + c div 64) div 4 = b mod 16" "(b mod 16 * 4 + c div 64) mod 4 = c div 64" by simp_all
  then show "(a div 4) * 4 + (a mod 4 * 16 + b div 16) div 16 = (a :: nat)"
    and "(a mod 4 * 16 + b div 16) mod 16 * 16 + (b mod 16 * 4 + c div 64) div 4 = (b :: nat)"
    and "(b mod 16 * 4 + c div 64) mod 4 * 64 + c mod 64 = (c :: nat)"
    and "(a mod 4 * 16 + b div 16) mod 16 * 16 + b mod 16 * 4 div 4 = (b :: nat)"
    and "(a div 4) * 4 + a mod 4 * 16 div 16 = (a :: nat)" by simp_all
qed

lemma sextet_bounds:
  assumes "a < 256" and "b < 256" and "c < 256"
  shows "a div 4 < (64 :: nat)" "a mod 4 * 16 + b div 16 < (64 :: nat)" "b mod 16 * 4 + c div 64 < (64 :: nat)" "c mod 64 < (64 :: nat)"
    "a mod 4 * 16 < (64 :: nat)" "b mod 16 * 4 < (64 :: nat)"
proof -
  have "a mod 4 < 4" "b mod 16 < 16" "b div 16 < 16" "c div 64 < 4" "a div 4 < 64" "c mod 64 < 64" using assms by linarith+
  then show "a div 4 < (64 :: nat)" "a mod 4 * 16 + b div 16 < (64 :: nat)" "b mod 16 * 4 + c div 64 < (64 :: nat)" "c mod 64 < (64 :: nat)"
    "a mod 4 * 16 < (64 :: nat)" "b mod 16 * 4 < (64 :: nat)" by linarith+
qed

fun by_three :: "'a list \<Rightarrow> nat" where
  "by_three (a # b # c # s) = Suc (by_three s)"
| "by_three [] = 0"
| "by_three [a] = 1"
| "by_three [a, b] = 1"

lemma decode_encode_loop:
  assumes "good_alphabet alphabet" and "pad = [] \<or> hd pad = CHR ''=''"
  shows "decode_loop alphabet w (- 8) (encode_loop alphabet v (- 6) s @ pad) = Some s"
proof (induction s arbitrary: v w rule: by_three.induct)
  case (1 a b c s)
  note bounds = sextet_bounds [OF byte_less [of a] byte_less [of b] byte_less [of c]]
  obtain v' where e: "encode_loop alphabet v (- 6) (a # b # c # s) =
      quad alphabet (byte a) (byte b) (byte c) @ encode_loop alphabet v' (- 6) s" using encode_three by blast
  note bytes = rebuilt(1-3) [OF byte_less [of b] byte_less [of c]]
  from decode_four [OF assms(1) bounds(1-4), of w "encode_loop alphabet v' (- 6) s @ pad"]
  obtain w' where "decode_loop alphabet w (- 8) (quad alphabet (byte a) (byte b) (byte c) @ encode_loop alphabet v' (- 6) s @ pad) =
      map_option (\<lambda>out. a # b # c # out) (decode_loop alphabet w' (- 8) (encode_loop alphabet v' (- 6) s @ pad))"
    unfolding quad_def bytes char_of_byte by blast
  with e "1.IH" show ?case by simp
next
  case 2
  then show ?case using assms(2) by (cases pad) auto
next
  case (3 a)
  note bounds = sextet_bounds [OF byte_less [of a] byte_less [of a] byte_less [of a]]
  show ?case
    using decode_stop(1) [OF assms(1) bounds(1) bounds(5) bounds(5) assms(2), of w]
    by (simp only: encode_one rebuilt(5) [OF byte_less [of a] byte_less [of a]] char_of_byte)
next
  case (4 a b)
  note bounds = sextet_bounds [OF byte_less [of a] byte_less [of b] byte_less [of b]]
  show ?case
    using decode_stop(2) [OF assms(1) bounds(1,2,6) assms(2), of w]
    by (simp only: encode_two rebuilt(1,4) [OF byte_less [of b] byte_less [of b]] char_of_byte)
qed

lemma pad_with_tail: "\<exists>pad. pad_with n out = out @ pad \<and> (pad = [] \<or> hd pad = CHR ''='')"
  by (cases "(n - length out mod n) mod n") (auto simp: pad_with_def)

lemma decode_encode_base: "good_alphabet alphabet \<Longrightarrow> decode_base (encode_base s alphabet padding) alphabet = Some s"
  using pad_with_tail [of 4 "encode_loop alphabet 0 (- 6) s"] decode_encode_loop [of alphabet _ 0 0 s]
    decode_encode_loop [of alphabet "[]" 0 0 s]
  by (auto simp: decode_base_def encode_base_def Let_def)

lemma emit_sextets_map:
  "emit_sextets alphabet v bits = (out, rest) \<Longrightarrow> length alphabet = 64 \<Longrightarrow>
   emit_sextets (map f alphabet) v bits = (map f out, rest)"
proof (induction alphabet v bits arbitrary: out rest rule: emit_sextets.induct)
  case (1 alphabet v bits)
  have "sextet (map f alphabet) v b = f (sextet alphabet v b)" for b
    using "1.prems"(2) by (simp add: sextet_value)
  with 1 show ?case
    by (cases "emit_sextets alphabet v (bits - 6)")
       (auto simp: emit_sextets.simps [of alphabet v bits] emit_sextets.simps [of "map f alphabet" v bits] split: if_splits)
qed

lemma encode_loop_map:
  "length alphabet = 64 \<Longrightarrow> encode_loop (map f alphabet) v bits s = map f (encode_loop alphabet v bits s)"
proof (induction s arbitrary: v bits)
  case Nil
  then show ?case by (simp add: sextet_value)
next
  case (Cons c s)
  obtain out rest where e: "emit_sextets alphabet (push_bit 8 v + char_word c) (bits + 8) = (out, rest)" by fastforce
  from Cons emit_sextets_map [OF e, of f] e show ?case by (simp add: Let_def)
qed

section \<open>Properties\<close>

lemma base64_round_trip: "base64_decode (base64_encode s) = Some s"
  by (simp add: base64_decode_def base64_encode_def decode_encode_base good_alphabets)

lemma base64url_round_trip: "base64url_decode (base64url_encode s) = Some s"
proof -
  define f where "f = (\<lambda>c. if c = CHR ''-'' then CHR ''+'' else if c = CHR ''_'' then CHR ''/'' else c)"
  have "base64_alphabet = map f base64url_alphabet" unfolding f_def by code_simp
  moreover have "length base64url_alphabet = 64" by code_simp
  ultimately have "map f (encode_loop base64url_alphabet 0 (- 6) s) = encode_loop base64_alphabet 0 (- 6) s"
    using encode_loop_map [of base64url_alphabet f 0 "- 6" s] by metis
  then have "base64url_decode (base64url_encode s) = decode_base (pad_with 4 (encode_loop base64_alphabet 0 (- 6) s)) base64_alphabet"
    by (simp add: base64url_decode_def base64url_encode_def encode_base_def Let_def f_def)
  also have "\<dots> = Some s"
    using decode_encode_base [OF good_alphabets(1), of s True] by (simp add: encode_base_def)
  finally show ?thesis .
qed

text \<open>
  Whatever is encoded is decoded again, for every string of bytes: base 64 with padding, base 64 for URLs without
  padding, and hexadecimal.
\<close>

theorem encodings_round_trip:
  "base64_decode (base64_encode s) = Some s \<and> base64url_decode (base64url_encode s) = Some s \<and>
   from_hex (to_hex s) = Some s"
  by (simp add: base64_round_trip base64url_round_trip from_hex_to_hex)

end
