(* ===== verification/Sapo_Crypto.thy ===== *)
theory Sapo_Crypto
  imports Sapo_Encoding
begin

text \<open>
  \<open>util/Crypto.cpp\<close>: the digests SHA-256, SHA-1 and MD5 on 32-bit words, HMAC and PBKDF2 over them, the
  comparison of secrets and the identifiers made of random bytes (the random bytes are an argument).
  The constants of MD5 are the values of \<open>floor(abs(sin(i + 1)) * 2^32)\<close> the source computes at start-up.

  The lemmas: padded messages are whole blocks, digests have the size of their kind, and the comparison is
  equality.
\<close>

type_synonym bytes = "8 word list"

definition bytes_of :: "string \<Rightarrow> bytes" where
  "bytes_of s = map (\<lambda>c. of_nat (byte c)) s"

definition str_of :: "bytes \<Rightarrow> string" where
  "str_of bs = map (\<lambda>b. char_of (unat b)) bs"

section \<open>Blocks\<close>

definition rotr32 :: "32 word \<Rightarrow> nat \<Rightarrow> 32 word" where
  "rotr32 x n = drop_bit n x OR push_bit (32 - n) x"

definition rotl32 :: "32 word \<Rightarrow> nat \<Rightarrow> 32 word" where
  "rotl32 x n = push_bit n x OR drop_bit (32 - n) x"

text \<open>The byte \<open>0x80\<close>, zeros up to 56 bytes in the last block, and the length in bits, its bytes in the
  order \<open>order\<close> lists their positions.\<close>

definition bit_length :: "bytes \<Rightarrow> 64 word" where
  "bit_length bs = of_nat (length bs) * 8"

definition length_bytes :: "nat list \<Rightarrow> bytes \<Rightarrow> bytes" where
  "length_bytes order bs = map (\<lambda>i. ucast (drop_bit (i * 8) (bit_length bs))) order"

definition zeros_to_56 :: "nat \<Rightarrow> bytes" where
  "zeros_to_56 n = replicate ((120 - n mod 64) mod 64) 0"

definition padded :: "nat list \<Rightarrow> bytes \<Rightarrow> bytes" where
  "padded order bs =
     (let marked = bs @ [0x80] in marked @ zeros_to_56 (length marked) @ length_bytes order bs)"

definition big_endian :: "nat list" where
  "big_endian = [7, 6, 5, 4, 3, 2, 1, 0]"

definition little_endian :: "nat list" where
  "little_endian = [0, 1, 2, 3, 4, 5, 6, 7]"

definition word_be :: "bytes \<Rightarrow> nat \<Rightarrow> 32 word" where
  "word_be block i =
     push_bit 24 (ucast (block ! (4 * i))) OR push_bit 16 (ucast (block ! (4 * i + 1)))
       OR push_bit 8 (ucast (block ! (4 * i + 2))) OR ucast (block ! (4 * i + 3))"

definition word_le :: "bytes \<Rightarrow> nat \<Rightarrow> 32 word" where
  "word_le block i =
     ucast (block ! (4 * i)) OR push_bit 8 (ucast (block ! (4 * i + 1)))
       OR push_bit 16 (ucast (block ! (4 * i + 2))) OR push_bit 24 (ucast (block ! (4 * i + 3)))"

definition bytes_be :: "32 word \<Rightarrow> bytes" where
  "bytes_be w = [ucast (drop_bit 24 w), ucast (drop_bit 16 w), ucast (drop_bit 8 w), ucast w]"

definition bytes_le :: "32 word \<Rightarrow> bytes" where
  "bytes_le w = [ucast w, ucast (drop_bit 8 w), ucast (drop_bit 16 w), ucast (drop_bit 24 w)]"

text \<open>The loop over the chunks of 64 bytes.\<close>

function over_blocks :: "('s \<Rightarrow> bytes \<Rightarrow> 's) \<Rightarrow> 's \<Rightarrow> bytes \<Rightarrow> 's" where
  "over_blocks step h buf = (if buf = [] then h else over_blocks step (step h (take 64 buf)) (drop 64 buf))"
  by pat_completeness auto
termination over_blocks
  by (relation "measure (\<lambda>(step, h, buf). length buf)") auto

declare over_blocks.simps [simp del]

section \<open>SHA-256\<close>

text \<open>The round constants, a row of the source's table (eight words) per numeral.\<close>

definition table_row :: "256 word \<Rightarrow> 32 word list" where
  "table_row r = map (\<lambda>i. ucast (drop_bit (32 * i) r)) [7, 6, 5, 4, 3, 2, 1, 0]"

definition sha256_k :: "32 word list" where
  "sha256_k = concat (map table_row
     [0x428a2f9871374491b5c0fbcfe9b5dba53956c25b59f111f1923f82a4ab1c5ed5,
      0xd807aa9812835b01243185be550c7dc372be5d7480deb1fe9bdc06a7c19bf174,
      0xe49b69c1efbe47860fc19dc6240ca1cc2de92c6f4a7484aa5cb0a9dc76f988da,
      0x983e5152a831c66db00327c8bf597fc7c6e00bf3d5a7914706ca635114292967,
      0x27b70a852e1b21384d2c6dfc53380d13650a7354766a0abb81c2c92e92722c85,
      0xa2bfe8a1a81a664bc24b8b70c76c51a3d192e819d6990624f40e3585106aa070,
      0x19a4c1161e376c082748774c34b0bcb5391c0cb34ed8aa4a5b9cca4f682e6ff3,
      0x748f82ee78a5636f84c878148cc7020890befffaa4506cebbef9a3f7c67178f2])"

fun extend_schedule :: "(32 word list \<Rightarrow> nat \<Rightarrow> 32 word) \<Rightarrow> nat \<Rightarrow> 32 word list \<Rightarrow> 32 word list" where
  "extend_schedule entry 0 w = w"
| "extend_schedule entry (Suc n) w = extend_schedule entry n (w @ [entry w (length w)])"

definition sha256_entry :: "32 word list \<Rightarrow> nat \<Rightarrow> 32 word" where
  "sha256_entry w i =
     (let x = w ! (i - 15); y = w ! (i - 2);
          s0 = rotr32 x 7 XOR rotr32 x 18 XOR drop_bit 3 x;
          s1 = rotr32 y 17 XOR rotr32 y 19 XOR drop_bit 10 y
      in w ! (i - 16) + s0 + w ! (i - 7) + s1)"

record sha_state =
  sh_a :: "32 word"
  sh_b :: "32 word"
  sh_c :: "32 word"
  sh_d :: "32 word"
  sh_e :: "32 word"
  sh_f :: "32 word"
  sh_g :: "32 word"
  sh_h :: "32 word"

definition sha256_start :: sha_state where
  "sha256_start =
     \<lparr>sh_a = 0x6a09e667, sh_b = 0xbb67ae85, sh_c = 0x3c6ef372, sh_d = 0xa54ff53a,
      sh_e = 0x510e527f, sh_f = 0x9b05688c, sh_g = 0x1f83d9ab, sh_h = 0x5be0cd19\<rparr>"

definition sha256_round :: "sha_state \<Rightarrow> 32 word \<times> 32 word \<Rightarrow> sha_state" where
  "sha256_round s kw =
     (let a = sh_a s; e = sh_e s;
          S1 = rotr32 e 6 XOR rotr32 e 11 XOR rotr32 e 25;
          ch = (e AND sh_f s) XOR (NOT e AND sh_g s);
          temp1 = sh_h s + S1 + ch + fst kw + snd kw;
          S0 = rotr32 a 2 XOR rotr32 a 13 XOR rotr32 a 22;
          maj = (a AND sh_b s) XOR (a AND sh_c s) XOR (sh_b s AND sh_c s);
          temp2 = S0 + maj
      in \<lparr>sh_a = temp1 + temp2, sh_b = a, sh_c = sh_b s, sh_d = sh_c s,
          sh_e = sh_d s + temp1, sh_f = e, sh_g = sh_f s, sh_h = sh_g s\<rparr>)"

definition sha256_block :: "sha_state \<Rightarrow> bytes \<Rightarrow> sha_state" where
  "sha256_block h block =
     (let w = extend_schedule sha256_entry 48 (map (word_be block) [0..<16]);
          t = foldl sha256_round h (zip sha256_k w)
      in \<lparr>sh_a = sh_a h + sh_a t, sh_b = sh_b h + sh_b t, sh_c = sh_c h + sh_c t, sh_d = sh_d h + sh_d t,
          sh_e = sh_e h + sh_e t, sh_f = sh_f h + sh_f t, sh_g = sh_g h + sh_g t, sh_h = sh_h h + sh_h t\<rparr>)"

definition sha256 :: "bytes \<Rightarrow> bytes" where
  "sha256 data =
     (let h = over_blocks sha256_block sha256_start (padded big_endian data)
      in concat (map bytes_be [sh_a h, sh_b h, sh_c h, sh_d h, sh_e h, sh_f h, sh_g h, sh_h h]))"

section \<open>SHA-1\<close>

record quint =
  qu_a :: "32 word"
  qu_b :: "32 word"
  qu_c :: "32 word"
  qu_d :: "32 word"
  qu_e :: "32 word"

definition sha1_start :: quint where
  "sha1_start =
     \<lparr>qu_a = 0x67452301, qu_b = 0xefcdab89, qu_c = 0x98badcfe, qu_d = 0x10325476, qu_e = 0xc3d2e1f0\<rparr>"

definition sha1_entry :: "32 word list \<Rightarrow> nat \<Rightarrow> 32 word" where
  "sha1_entry w i = rotl32 (w ! (i - 3) XOR w ! (i - 8) XOR w ! (i - 14) XOR w ! (i - 16)) 1"

definition sha1_mix :: "nat \<Rightarrow> quint \<Rightarrow> 32 word \<times> 32 word" where
  "sha1_mix i s =
     (let b = qu_b s; c = qu_c s; d = qu_d s
      in if i < 20 then ((b AND c) OR (NOT b AND d), 0x5a827999)
         else if i < 40 then (b XOR c XOR d, 0x6ed9eba1)
         else if i < 60 then ((b AND c) OR (b AND d) OR (c AND d), 0x8f1bbcdc)
         else (b XOR c XOR d, 0xca62c1d6))"

definition sha1_round :: "quint \<Rightarrow> nat \<times> 32 word \<Rightarrow> quint" where
  "sha1_round s iw =
     (let (f, k) = sha1_mix (fst iw) s;
          temp = rotl32 (qu_a s) 5 + f + qu_e s + k + snd iw
      in \<lparr>qu_a = temp, qu_b = qu_a s, qu_c = rotl32 (qu_b s) 30, qu_d = qu_c s, qu_e = qu_d s\<rparr>)"

definition sha1_block :: "quint \<Rightarrow> bytes \<Rightarrow> quint" where
  "sha1_block h block =
     (let w = extend_schedule sha1_entry 64 (map (word_be block) [0..<16]);
          t = foldl sha1_round h (enumerate 0 w)
      in \<lparr>qu_a = qu_a h + qu_a t, qu_b = qu_b h + qu_b t, qu_c = qu_c h + qu_c t, qu_d = qu_d h + qu_d t,
          qu_e = qu_e h + qu_e t\<rparr>)"

definition sha1 :: "bytes \<Rightarrow> bytes" where
  "sha1 data =
     (let h = over_blocks sha1_block sha1_start (padded big_endian data)
      in concat (map bytes_be [qu_a h, qu_b h, qu_c h, qu_d h, qu_e h]))"

section \<open>MD5\<close>

definition md5_shifts :: "nat list" where
  "md5_shifts =
     concat (map (\<lambda>s. s @ s @ s @ s) [[7, 12, 17, 22], [5, 9, 14, 20], [4, 11, 16, 23], [6, 10, 15, 21]])"

definition md5_k :: "32 word list" where
  "md5_k =
     [0xd76aa478, 0xe8c7b756, 0x242070db, 0xc1bdceee, 0xf57c0faf, 0x4787c62a, 0xa8304613, 0xfd469501,
      0x698098d8, 0x8b44f7af, 0xffff5bb1, 0x895cd7be, 0x6b901122, 0xfd987193, 0xa679438e, 0x49b40821,
      0xf61e2562, 0xc040b340, 0x265e5a51, 0xe9b6c7aa, 0xd62f105d, 0x02441453, 0xd8a1e681, 0xe7d3fbc8,
      0x21e1cde6, 0xc33707d6, 0xf4d50d87, 0x455a14ed, 0xa9e3e905, 0xfcefa3f8, 0x676f02d9, 0x8d2a4c8a,
      0xfffa3942, 0x8771f681, 0x6d9d6122, 0xfde5380c, 0xa4beea44, 0x4bdecfa9, 0xf6bb4b60, 0xbebfbc70,
      0x289b7ec6, 0xeaa127fa, 0xd4ef3085, 0x04881d05, 0xd9d4d039, 0xe6db99e5, 0x1fa27cf8, 0xc4ac5665,
      0xf4292244, 0x432aff97, 0xab9423a7, 0xfc93a039, 0x655b59c3, 0x8f0ccc92, 0xffeff47d, 0x85845dd1,
      0x6fa87e4f, 0xfe2ce6e0, 0xa3014314, 0x4e0811a1, 0xf7537e82, 0xbd3af235, 0x2ad7d2bb, 0xeb86d391]"

record quad_state =
  qd_a :: "32 word"
  qd_b :: "32 word"
  qd_c :: "32 word"
  qd_d :: "32 word"

definition md5_start :: quad_state where
  "md5_start = \<lparr>qd_a = 0x67452301, qd_b = 0xefcdab89, qd_c = 0x98badcfe, qd_d = 0x10325476\<rparr>"

definition md5_mix :: "nat \<Rightarrow> quad_state \<Rightarrow> 32 word \<times> nat" where
  "md5_mix i s =
     (let B = qd_b s; C = qd_c s; D = qd_d s
      in if i < 16 then ((B AND C) OR (NOT B AND D), i)
         else if i < 32 then ((D AND B) OR (NOT D AND C), (5 * i + 1) mod 16)
         else if i < 48 then (B XOR C XOR D, (3 * i + 5) mod 16)
         else (C XOR (B OR NOT D), (7 * i) mod 16))"

definition md5_round :: "32 word list \<Rightarrow> quad_state \<Rightarrow> nat \<Rightarrow> quad_state" where
  "md5_round m s i =
     (let (F, g) = md5_mix i s; F1 = F + qd_a s + md5_k ! i + m ! g
      in \<lparr>qd_a = qd_d s, qd_b = qd_b s + rotl32 F1 (md5_shifts ! i), qd_c = qd_b s, qd_d = qd_c s\<rparr>)"

definition md5_block :: "quad_state \<Rightarrow> bytes \<Rightarrow> quad_state" where
  "md5_block h block =
     (let t = foldl (md5_round (map (word_le block) [0..<16])) h [0..<64]
      in \<lparr>qd_a = qd_a h + qd_a t, qd_b = qd_b h + qd_b t, qd_c = qd_c h + qd_c t, qd_d = qd_d h + qd_d t\<rparr>)"

definition md5 :: "bytes \<Rightarrow> bytes" where
  "md5 data =
     (let h = over_blocks md5_block md5_start (padded little_endian data)
      in concat (map bytes_le [qd_a h, qd_b h, qd_c h, qd_d h]))"

section \<open>Digests by kind and by name\<close>

datatype digest_kind = Sha256 | Sha1 | Md5 | Sha512

fun digest_size :: "digest_kind \<Rightarrow> nat" where
  "digest_size Sha256 = 32" | "digest_size Sha1 = 20" | "digest_size Md5 = 16" | "digest_size Sha512 = 64"

fun raw_digest :: "digest_kind \<Rightarrow> bytes \<Rightarrow> bytes" where
  "raw_digest Sha256 data = sha256 data" | "raw_digest Sha1 data = sha1 data"
| "raw_digest Md5 data = md5 data" | "raw_digest Sha512 data = []"

definition digest :: "digest_kind \<Rightarrow> string \<Rightarrow> string" where
  "digest kind data = str_of (raw_digest kind (bytes_of data))"

definition digest_hex :: "digest_kind \<Rightarrow> string \<Rightarrow> string" where
  "digest_hex kind data = to_hex (digest kind data)"

definition kind_for :: "string \<Rightarrow> digest_kind option" where
  "kind_for algorithm =
     (let l = map to_lower algorithm
      in if l \<in> {''sha256'', ''sha-256'', ''sha_256''} then Some Sha256
         else if l \<in> {''sha1'', ''sha-1'', ''sha_1''} then Some Sha1
         else if l = ''md5'' then Some Md5 else None)"

definition digest_hex_by_name :: "string \<Rightarrow> string \<Rightarrow> string option" where
  "digest_hex_by_name algorithm data = map_option (\<lambda>k. digest_hex k data) (kind_for algorithm)"

section \<open>HMAC, PBKDF2\<close>

definition hmac_key :: "digest_kind \<Rightarrow> bytes \<Rightarrow> bytes" where
  "hmac_key kind key =
     (let k = (if 64 < length key then raw_digest kind key else key)
      in take 64 k @ replicate (64 - length k) 0)"

definition hmac_raw :: "digest_kind \<Rightarrow> bytes \<Rightarrow> bytes \<Rightarrow> bytes" where
  "hmac_raw kind key data =
     (let k = hmac_key kind key
      in raw_digest kind (map (\<lambda>b. b XOR 0x5c) k @ raw_digest kind (map (\<lambda>b. b XOR 0x36) k @ data)))"

definition hmac :: "digest_kind \<Rightarrow> string \<Rightarrow> string \<Rightarrow> string option" where
  "hmac kind key data = Some (str_of (hmac_raw kind (bytes_of key) (bytes_of data)))"

definition hmac_hex :: "string \<Rightarrow> string \<Rightarrow> string \<Rightarrow> string option" where
  "hmac_hex algorithm key data =
     (case kind_for algorithm of None \<Rightarrow> None | Some k \<Rightarrow> map_option to_hex (hmac k key data))"

text \<open>The inner loop of PBKDF2: the remaining iterations, the last block and the exclusive or so far.\<close>

fun pbkdf2_chain :: "nat \<Rightarrow> bytes \<Rightarrow> bytes \<Rightarrow> bytes \<Rightarrow> bytes" where
  "pbkdf2_chain 0 password prev t = t"
| "pbkdf2_chain (Suc n) password prev t =
     (let nxt = hmac_raw Sha256 password prev in pbkdf2_chain n password nxt (map2 (\<lambda>a b. a XOR b) t nxt))"

definition pbkdf2_block :: "bytes \<Rightarrow> bytes \<Rightarrow> 32 word \<Rightarrow> 32 word \<Rightarrow> bytes" where
  "pbkdf2_block password salt iterations index =
     (let u = hmac_raw Sha256 password (salt @ bytes_be index)
      in pbkdf2_chain (unat iterations - 1) password u u)"

text \<open>The outer loop.  A block has 32 bytes, so \<open>derived_len\<close> passes are enough.\<close>

fun pbkdf2_loop :: "nat \<Rightarrow> bytes \<Rightarrow> bytes \<Rightarrow> 32 word \<Rightarrow> nat \<Rightarrow> 32 word \<Rightarrow> bytes \<Rightarrow> bytes" where
  "pbkdf2_loop 0 password salt iterations derived_len index out = out"
| "pbkdf2_loop (Suc fuel) password salt iterations derived_len index out =
     (if length out < derived_len then
        pbkdf2_loop fuel password salt iterations derived_len (index + 1) (out @ pbkdf2_block password salt iterations index)
      else out)"

definition pbkdf2_sha256 :: "string \<Rightarrow> string \<Rightarrow> 32 word \<Rightarrow> nat \<Rightarrow> string" where
  "pbkdf2_sha256 password salt iterations derived_len =
     (let out = pbkdf2_loop derived_len (bytes_of password) (bytes_of salt) iterations derived_len 1 []
      in str_of (take derived_len out @ replicate (derived_len - length out) 0))"

section \<open>Secrets and identifiers\<close>

definition timing_safe_equals :: "string \<Rightarrow> string \<Rightarrow> bool" where
  "timing_safe_equals a b =
     (if length a \<noteq> length b then False
      else foldl (\<lambda>diff (x, y). diff OR (x XOR y)) 0 (zip (bytes_of a) (bytes_of b)) = 0)"

text \<open>\<open>bytes\<close> are the 16 random bytes, \<open>rolls\<close> the random digits.\<close>

definition uuid_v4 :: "bytes \<Rightarrow> string" where
  "uuid_v4 bytes =
     (let b = bytes[6 := (bytes ! 6 AND 0x0F) OR 0x40, 8 := (bytes ! 8 AND 0x3F) OR 0x80];
          hex = to_hex (str_of b); part = (\<lambda>from n. take n (drop from hex))
      in part 0 8 @ ''-'' @ part 8 4 @ ''-'' @ part 12 4 @ ''-'' @ part 16 4 @ ''-'' @ part 20 12)"

definition random_pin :: "nat list \<Rightarrow> string" where
  "random_pin rolls = map (\<lambda>d. char_of (48 + d)) rolls"

section \<open>Sizes\<close>

lemma bytes_of_inject [simp]: "bytes_of a = bytes_of b \<longleftrightarrow> a = b"
proof -
  have "unat (of_nat (byte c) :: 8 word) = byte c" for c by (simp add: unat_of_nat)
  then have "inj (\<lambda>c. of_nat (byte c) :: 8 word)" by (metis byte_inject injI)
  then show ?thesis by (simp add: bytes_of_def inj_map_eq_map)
qed

lemma length_bytes_of [simp]: "length (bytes_of s) = length s"
  by (simp add: bytes_of_def)

lemma length_str_of [simp]: "length (str_of bs) = length bs"
  by (simp add: str_of_def)

lemma fill_to_56:
  assumes "r < 64"
  shows "\<exists>k. r + (120 - r) mod 64 + 8 = 64 * (k :: nat)"
proof (cases "r \<le> 56")
  case True
  then have e: "120 - r = (56 - r) + 64" and l: "56 - r < (64 :: nat)" by linarith+
  have "(120 - r) mod 64 = 56 - r"
    unfolding e mod_add_self2 by (rule mod_less [OF l])
  with True have "r + (120 - r) mod 64 + 8 = 64 * 1" by linarith
  then show ?thesis by blast
next
  case False
  then have "(120 - r) mod 64 = 120 - r" using assms by simp
  with assms have "r + (120 - r) mod 64 + 8 = 64 * 2" by linarith
  then show ?thesis by blast
qed

lemma padded_blocks: "length order = 8 \<Longrightarrow> length (padded order bs) mod 64 = 0"
proof -
  assume order: "length order = 8"
  define n where "n = length bs + 1"
  define r where "r = n mod 64"
  have len: "length (padded order bs) = n + (120 - r) mod 64 + 8"
    using order by (simp add: padded_def zeros_to_56_def length_bytes_def Let_def n_def r_def)
  have n: "n = 64 * (n div 64) + r" by (simp add: r_def)
  obtain k where "r + (120 - r) mod 64 + 8 = 64 * k"
    using fill_to_56 [of r] by (auto simp: r_def)
  with n len have "length (padded order bs) = 64 * (n div 64 + k)"
    by (metis add.assoc distrib_left)
  then show ?thesis by simp
qed

lemma length_sha256 [simp]: "length (sha256 d) = 32"
  by (simp add: sha256_def Let_def bytes_be_def)

lemma length_sha1 [simp]: "length (sha1 d) = 20"
  by (simp add: sha1_def Let_def bytes_be_def)

lemma length_md5 [simp]: "length (md5 d) = 16"
  by (simp add: md5_def Let_def bytes_le_def)

lemma length_raw_digest: "length (raw_digest kind d) = (if kind = Sha512 then 0 else digest_size kind)"
  by (cases kind) simp_all

lemma length_hmac_key [simp]: "length (hmac_key kind key) = 64"
  by (simp add: hmac_key_def Let_def)

lemma length_pbkdf2_chain [simp]: "length t \<le> 32 \<Longrightarrow> length (pbkdf2_chain n password prev t) = length t"
  by (induction n arbitrary: prev t) (simp_all add: Let_def hmac_raw_def)

lemma length_pbkdf2_block [simp]: "length (pbkdf2_block password salt iterations index) = 32"
  by (simp add: pbkdf2_block_def Let_def hmac_raw_def)

lemma pbkdf2_loop_enough:
  "derived_len \<le> length out + fuel \<Longrightarrow>
   derived_len \<le> length (pbkdf2_loop fuel password salt iterations derived_len index out)"
  by (induction fuel arbitrary: index out) auto

lemma fold_or_zero:
  "foldl (\<lambda>diff (x, y). diff OR (x XOR y)) d ps = (0 :: 8 word) \<longleftrightarrow> d = 0 \<and> (\<forall>(x, y) \<in> set ps. x = y)"
proof (induction ps arbitrary: d)
  case (Cons p ps)
  have "d OR (x XOR y) = 0 \<longleftrightarrow> d = 0 \<and> x = y" for x y :: "8 word"
    by (auto simp: bit_eq_iff bit_simps)
  with Cons show ?case by (cases p) simp
qed simp

lemma timing_safe_equals_iff: "timing_safe_equals a b \<longleftrightarrow> a = b"
proof (cases "length a = length b")
  case True
  then have "list_all2 (=) (bytes_of a) (bytes_of b) \<longleftrightarrow> (\<forall>(x, y) \<in> set (zip (bytes_of a) (bytes_of b)). x = y)"
    by (simp add: list_all2_iff)
  with True show ?thesis by (simp add: timing_safe_equals_def fold_or_zero list_all2_eq [symmetric])
qed (auto simp: timing_safe_equals_def)

section \<open>Properties\<close>

text \<open>
  Digests and keys have their sizes: a padded message is a whole number of 64-byte blocks, a digest has the size
  of its kind (but the announced SHA-512 gives nothing), and PBKDF2 returns exactly the number of bytes asked for, all of
  them taken from its blocks.
\<close>

theorem digests_have_their_size:
  "length (padded big_endian bs) mod 64 = 0 \<and> length (padded little_endian bs) mod 64 = 0 \<and>
   length (digest kind data) = (if kind = Sha512 then 0 else digest_size kind) \<and>
   length (pbkdf2_sha256 password salt iterations derived_len) = derived_len \<and>
   derived_len \<le> length (pbkdf2_loop derived_len (bytes_of password) (bytes_of salt) iterations derived_len 1 [])"
  using pbkdf2_loop_enough [of derived_len "[]" derived_len]
  by (simp add: padded_blocks big_endian_def little_endian_def digest_def length_raw_digest pbkdf2_sha256_def Let_def)

text \<open>
  The constant-time comparison of secrets is equality, for strings of any length.
\<close>

theorem timing_safe_equals_is_equality: "timing_safe_equals a b \<longleftrightarrow> a = b"
  by (rule timing_safe_equals_iff)

end
