(* ===== verification/Sapo_Value.thy ===== *)
theory Sapo_Value
  imports Sapo_Core
begin

text \<open>
  \<open>src/src/runtime/expressions/Value.hpp\<close>: how the expression language reads documents as numbers, texts and
  truth values, and how it compares them.  The first part states the binary64 operations of the C++ library the
  code uses (\<open>std::stod\<close>, \<open>floor\<close>, \<open>round\<close>, \<open>fmod\<close>, the conversions to integers) on the
  exact values of \<open>dbl\<close>.  A conversion of a double outside the integer type is undefined in C++; the model has
  the result of the x86-64 instruction, the least integer.  \<open>dump\<close>, the printer of the document library, is a
  parameter.
\<close>

section \<open>Binary64 operations\<close>

fun dbl_rat :: "dbl \<Rightarrow> rat" where
  "dbl_rat (DFin r) = r" | "dbl_rat _ = 0"

fun dbl_finite :: "dbl \<Rightarrow> bool" where
  "dbl_finite (DFin _) = True" | "dbl_finite DNegZero = True" | "dbl_finite _ = False"

fun dbl_negative :: "dbl \<Rightarrow> bool" where
  "dbl_negative DNegInf = True" | "dbl_negative DNegZero = True"
| "dbl_negative (DFin r) = (r < 0)" | "dbl_negative _ = False"

definition dbl_zero :: "dbl \<Rightarrow> bool" where
  "dbl_zero x \<longleftrightarrow> x = DNegZero \<or> x = DFin 0"

definition signed_zero :: "bool \<Rightarrow> dbl" where
  "signed_zero neg = (if neg then DNegZero else DFin 0)"

definition signed_inf :: "bool \<Rightarrow> dbl" where
  "signed_inf neg = (if neg then DNegInf else DPosInf)"

text \<open>A result of sign \<open>neg\<close> whose exact value is \<open>r\<close>.\<close>

definition round_signed :: "bool \<Rightarrow> rat \<Rightarrow> dbl" where
  "round_signed neg r = (if r = 0 then signed_zero neg else round_dbl r)"

fun dbl_neg :: "dbl \<Rightarrow> dbl" where
  "dbl_neg DNan = DNan" | "dbl_neg DPosInf = DNegInf" | "dbl_neg DNegInf = DPosInf"
| "dbl_neg DNegZero = DFin 0" | "dbl_neg (DFin r) = (if r = 0 then DNegZero else DFin (- r))"

definition dbl_abs :: "dbl \<Rightarrow> dbl" where
  "dbl_abs x = (if dbl_negative x then dbl_neg x else x)"

definition dbl_add :: "dbl \<Rightarrow> dbl \<Rightarrow> dbl" where
  "dbl_add x y =
     (if x = DNan \<or> y = DNan then DNan
      else if \<not> dbl_finite x then (if \<not> dbl_finite y \<and> y \<noteq> x then DNan else x)
      else if \<not> dbl_finite y then y
      else round_signed (x = DNegZero \<and> y = DNegZero) (dbl_rat x + dbl_rat y))"

definition dbl_sub :: "dbl \<Rightarrow> dbl \<Rightarrow> dbl" where
  "dbl_sub x y = dbl_add x (dbl_neg y)"

definition dbl_mul :: "dbl \<Rightarrow> dbl \<Rightarrow> dbl" where
  "dbl_mul x y =
     (let neg = (dbl_negative x \<noteq> dbl_negative y)
      in if x = DNan \<or> y = DNan then DNan
         else if \<not> dbl_finite x \<or> \<not> dbl_finite y then
           (if dbl_zero x \<or> dbl_zero y then DNan else signed_inf neg)
         else round_signed neg (dbl_rat x * dbl_rat y))"

definition dbl_div :: "dbl \<Rightarrow> dbl \<Rightarrow> dbl" where
  "dbl_div x y =
     (let neg = (dbl_negative x \<noteq> dbl_negative y)
      in if x = DNan \<or> y = DNan then DNan
         else if \<not> dbl_finite x then (if \<not> dbl_finite y then DNan else signed_inf neg)
         else if \<not> dbl_finite y then signed_zero neg
         else if dbl_zero y then (if dbl_zero x then DNan else signed_inf neg)
         else round_signed neg (dbl_rat x / dbl_rat y))"

definition rat_trunc :: "rat \<Rightarrow> int" where
  "rat_trunc r = (if r < 0 then - \<lfloor>- r\<rfloor> else \<lfloor>r\<rfloor>)"

text \<open>\<open>std::fmod\<close> is exact.\<close>

definition dbl_fmod :: "dbl \<Rightarrow> dbl \<Rightarrow> dbl" where
  "dbl_fmod x y =
     (if x = DNan \<or> y = DNan \<or> \<not> dbl_finite x \<or> dbl_zero y then DNan
      else if \<not> dbl_finite y then x
      else let r = dbl_rat x - of_int (rat_trunc (dbl_rat x / dbl_rat y)) * dbl_rat y
           in if r = 0 then signed_zero (dbl_negative x) else DFin r)"

text \<open>\<open>std::floor\<close>, \<open>std::ceil\<close> and \<open>std::round\<close> (halves away from zero); a zero keeps the sign of
  the argument.\<close>

definition integral :: "(rat \<Rightarrow> int) \<Rightarrow> dbl \<Rightarrow> dbl" where
  "integral f x =
     (case x of DFin r \<Rightarrow> (let v = f r in if v = 0 then signed_zero (r < 0) else DFin (of_int v)) | _ \<Rightarrow> x)"

definition dbl_floor :: "dbl \<Rightarrow> dbl" where
  "dbl_floor = integral floor"

definition dbl_ceil :: "dbl \<Rightarrow> dbl" where
  "dbl_ceil = integral ceiling"

definition round_half_away :: "rat \<Rightarrow> int" where
  "round_half_away r = (if r < 0 then - \<lfloor>1 / 2 - r\<rfloor> else \<lfloor>r + 1 / 2\<rfloor>)"

definition dbl_round :: "dbl \<Rightarrow> dbl" where
  "dbl_round = integral round_half_away"

fun dbl_lt :: "dbl \<Rightarrow> dbl \<Rightarrow> bool" where
  "dbl_lt DNan y = False"
| "dbl_lt x DNan = False"
| "dbl_lt DNegInf y = (y \<noteq> DNegInf)"
| "dbl_lt x DNegInf = False"
| "dbl_lt DPosInf y = False"
| "dbl_lt x DPosInf = True"
| "dbl_lt x y = (dbl_rat x < dbl_rat y)"

definition dbl_of_int :: "int \<Rightarrow> dbl" where
  "dbl_of_int i = round_dbl (of_int i)"

text \<open>The conversions to \<open>int\<close> and \<open>long long\<close>, and the wrap-around of an unsigned 64-bit integer.\<close>

definition dbl_to_int :: "nat \<Rightarrow> dbl \<Rightarrow> int" where
  "dbl_to_int w x =
     (if dbl_finite x \<and> - (2 ^ (w - 1)) \<le> rat_trunc (dbl_rat x) \<and> rat_trunc (dbl_rat x) < 2 ^ (w - 1)
      then rat_trunc (dbl_rat x) else - (2 ^ (w - 1)))"

definition as_int64 :: "int \<Rightarrow> int" where
  "as_int64 i = (i + 9223372036854775808) mod 18446744073709551616 - 9223372036854775808"

section \<open>\<open>std::stod\<close>\<close>

text \<open>The value read and the number of characters used, or one of its two exceptions.\<close>

datatype strtod = NoNumber | OutOfRange | Number dbl nat

definition pow10 :: "int \<Rightarrow> rat" where
  "pow10 e = (if 0 \<le> e then 10 ^ nat e else 1 / 10 ^ nat (- e))"

definition hex_value :: "char \<Rightarrow> nat option" where
  "hex_value c =
     (if is_digit c then Some (byte c - 48)
      else if 97 \<le> byte (to_lower c) \<and> byte (to_lower c) \<le> 102 then Some (byte (to_lower c) - 87) else None)"

definition hex_val :: "string \<Rightarrow> nat" where
  "hex_val s = foldl (\<lambda>a c. 16 * a + the (hex_value c)) 0 s"

text \<open>A magnitude in range; \<open>errno\<close> reports overflow, and an inexact result below the normal numbers.\<close>

definition ranged :: "bool \<Rightarrow> rat \<Rightarrow> nat \<Rightarrow> strtod" where
  "ranged neg r n =
     (case round_dbl r of
        DFin v \<Rightarrow>
          if v < pow2 (- 1022) \<and> v \<noteq> r then OutOfRange
          else Number (if neg then dbl_neg (DFin v) else DFin v) n
      | _ \<Rightarrow> OutOfRange)"

text \<open>An exponent part after the letters in \<open>marks\<close>: its value and its length (0 when it is not one).\<close>

definition exponent_part :: "char list \<Rightarrow> string \<Rightarrow> int \<times> nat" where
  "exponent_part marks s =
     (case s of [] \<Rightarrow> (0, 0)
      | c # r \<Rightarrow>
          let signed = (r \<noteq> [] \<and> (hd r = CHR ''+'' \<or> hd r = CHR ''-''));
              ds = takeWhile is_digit (if signed then tl r else r);
              v = int (digits_val ds)
          in if c \<notin> set marks \<or> ds = [] then (0, 0)
             else (if signed \<and> hd r = CHR ''-'' then - v else v, 1 + (if signed then 1 else 0) + length ds))"

text \<open>Digits, a point and digits, an exponent; \<open>None\<close> when there is no digit.\<close>

definition mantissa :: "(char \<Rightarrow> bool) \<Rightarrow> string \<Rightarrow> (string \<times> string \<times> string) option" where
  "mantissa digit s =
     (let d1 = takeWhile digit s; r = dropWhile digit s;
          d2 = (if r \<noteq> [] \<and> hd r = CHR ''.'' then takeWhile digit (tl r) else []);
          rest = (if r \<noteq> [] \<and> hd r = CHR ''.'' then dropWhile digit (tl r) else r)
      in if d1 = [] \<and> d2 = [] then None else Some (d1, d2, rest))"

definition read_decimal :: "bool \<Rightarrow> nat \<Rightarrow> string \<Rightarrow> strtod" where
  "read_decimal neg skipped s =
     (case mantissa is_digit s of None \<Rightarrow> NoNumber
      | Some (d1, d2, rest) \<Rightarrow>
          let (e, n) = exponent_part [CHR ''e'', CHR ''E''] rest;
              m = digits_val (d1 @ d2)
          in if m = 0 then Number (signed_zero neg) (skipped + (length s - length rest) + n)
             else ranged neg (of_nat m * pow10 (e - int (length d2))) (skipped + (length s - length rest) + n))"

definition read_hex :: "bool \<Rightarrow> nat \<Rightarrow> string \<Rightarrow> strtod" where
  "read_hex neg skipped s =
     (case mantissa (\<lambda>c. hex_value c \<noteq> None) s of None \<Rightarrow> NoNumber
      | Some (d1, d2, rest) \<Rightarrow>
          let (e, n) = exponent_part [CHR ''p'', CHR ''P''] rest;
              m = hex_val (d1 @ d2)
          in if m = 0 then Number (signed_zero neg) (skipped + (length s - length rest) + n)
             else ranged neg (of_nat m * pow2 (e - 4 * int (length d2))) (skipped + (length s - length rest) + n))"

definition nan_tail :: "string \<Rightarrow> nat" where
  "nan_tail s =
     (case s of [] \<Rightarrow> 0
      | c # r \<Rightarrow>
          let w = takeWhile (\<lambda>c. is_alnum c \<or> c = CHR ''_'') r; t = drop (length w) r
          in if c = CHR ''('' \<and> t \<noteq> [] \<and> hd t = CHR '')'' then length w + 2 else 0)"

definition stod :: "string \<Rightarrow> strtod" where
  "stod s =
     (let t = dropWhile is_space s;
          signed = (t \<noteq> [] \<and> (hd t = CHR ''-'' \<or> hd t = CHR ''+''));
          neg = (t \<noteq> [] \<and> hd t = CHR ''-'');
          u = (if signed then tl t else t); skipped = length s - length u; l = lower u
      in if starts_with ''infinity'' l then Number (signed_inf neg) (skipped + 8)
         else if starts_with ''inf'' l then Number (signed_inf neg) (skipped + 3)
         else if starts_with ''nan'' l then Number DNan (skipped + 3 + nan_tail (drop 3 u))
         else if starts_with ''0x'' l \<and> mantissa (\<lambda>c. hex_value c \<noteq> None) (drop 2 u) \<noteq> None
              then read_hex neg (skipped + 2) (drop 2 u)
         else read_decimal neg skipped u)"

section \<open>Documents as numbers, truth values and texts\<close>

definition text_number :: "string \<Rightarrow> dbl option" where
  "text_number s =
     (if s = [] then None
      else case stod s of
        Number x consumed \<Rightarrow> if dropWhile is_space (drop consumed s) = [] then Some x else None
      | _ \<Rightarrow> None)"

fun to_number :: "json \<Rightarrow> dbl option" where
  "to_number (JInt i) = Some (dbl_of_int i)"
| "to_number (JFloat x) = Some x"
| "to_number (JBool b) = Some (DFin (if b then 1 else 0))"
| "to_number (JStr s) = text_number s"
| "to_number _ = None"

definition number_or :: "json \<Rightarrow> dbl \<Rightarrow> dbl" where
  "number_or v fallback = (case to_number v of Some x \<Rightarrow> x | None \<Rightarrow> fallback)"

text \<open>
  \<open>floor(log10(m))\<close> for the magnitudes the window lets through.  (Just below a power of ten the library's
  logarithm rounds up to it; \<open>tidy\<close> gives that power of ten with either exponent.)
\<close>

definition decimal_exponent :: "rat \<Rightarrow> int" where
  "decimal_exponent m = int (length (filter (\<lambda>k. pow10 k \<le> m) [- 8..14])) - 9"

definition tidy :: "dbl \<Rightarrow> dbl" where
  "tidy x =
     (if \<not> dbl_finite x \<or> dbl_zero x then x
      else let magnitude = dbl_abs x
           in if \<not> dbl_lt magnitude (DFin (10 ^ 15)) \<or> dbl_lt magnitude (round_dbl (pow10 (- 9))) then x
              else let factor = round_dbl (pow10 (12 - decimal_exponent (dbl_rat magnitude)))
                   in dbl_div (dbl_round (dbl_mul x factor)) factor)"

definition false_words :: "string list" where
  "false_words = [''false'', ''0'', ''null'', ''no'']"

fun truthy :: "json \<Rightarrow> bool" where
  "truthy JNull = False"
| "truthy (JBool b) = b"
| "truthy (JInt i) = (i \<noteq> 0)"
| "truthy (JFloat x) = (\<not> dbl_zero x)"
| "truthy (JStr s) =
     (if s = [] \<or> s \<in> set false_words then False
      else case text_number s of Some x \<Rightarrow> \<not> dbl_zero x | None \<Rightarrow> True)"
| "truthy (JArr xs) = (xs \<noteq> [])"
| "truthy (JObj ob) = (ob \<noteq> [])"

text \<open>\<open>drop_zeros\<close> is the clean-up of a printed fraction.\<close>

definition drop_zeros :: "string \<Rightarrow> string" where
  "drop_zeros s =
     (let t = rev (dropWhile (\<lambda>c. c = CHR ''0'') (rev s))
      in if t \<noteq> [] \<and> last t = CHR ''.'' then butlast t else t)"

definition integral_dbl :: "dbl \<Rightarrow> bool" where
  "integral_dbl x \<longleftrightarrow> dbl_finite x \<and> dbl_eq x (dbl_floor x)"

fun str_value :: "(json \<Rightarrow> string) \<Rightarrow> json \<Rightarrow> string" where
  "str_value dump (JStr s) = s"
| "str_value dump JNull = []"
| "str_value dump (JInt i) = int_str (as_int64 i)"
| "str_value dump (JFloat x) =
     (if integral_dbl x \<and> dbl_lt (dbl_abs x) (DFin (10 ^ 15)) then int_str (dbl_to_int 64 x)
      else drop_zeros (dump (JFloat x)))"
| "str_value dump v = dump v"

definition is_integer_value :: "json \<Rightarrow> bool" where
  "is_integer_value v = (case to_number v of None \<Rightarrow> False | Some x \<Rightarrow> integral_dbl x)"

fun type_name :: "json \<Rightarrow> string" where
  "type_name JNull = ''null''" | "type_name (JBool _) = ''boolean''" | "type_name (JInt _) = ''integer''"
| "type_name (JFloat _) = ''number''" | "type_name (JStr _) = ''string''" | "type_name (JArr _) = ''array''"
| "type_name (JObj _) = ''object''"

section \<open>Comparison\<close>

fun is_number :: "json \<Rightarrow> bool" where
  "is_number (JInt _) = True" | "is_number (JFloat _) = True" | "is_number _ = False"

fun is_boolean :: "json \<Rightarrow> bool" where
  "is_boolean (JBool _) = True" | "is_boolean _ = False"

definition is_scalar :: "json \<Rightarrow> bool" where
  "is_scalar v \<longleftrightarrow> is_number v \<or> is_boolean v \<or> is_string v"

definition equals :: "(json \<Rightarrow> string) \<Rightarrow> json \<Rightarrow> json \<Rightarrow> bool" where
  "equals dump a b =
     (if type_name a = type_name b \<and> \<not> is_number a then json_eq a b
      else if is_scalar a \<and> is_scalar b then
        (case (to_number a, to_number b) of
           (Some x, Some y) \<Rightarrow> dbl_eq x y
         | _ \<Rightarrow> if is_boolean a \<or> is_boolean b then truthy a = truthy b
                else str_value dump a = str_value dump b)
      else json_eq a b)"

definition compare :: "json \<Rightarrow> json \<Rightarrow> int option" where
  "compare a b =
     (case (to_number a, to_number b) of
        (Some x, Some y) \<Rightarrow> Some (if dbl_lt x y then - 1 else if dbl_lt y x then 1 else 0)
      | _ \<Rightarrow>
          (case (a, b) of
             (JStr s, JStr t) \<Rightarrow> Some (if s < t then - 1 else if t < s then 1 else 0)
           | (JBool p, JBool q) \<Rightarrow> Some ((if p then 1 else 0) - (if q then 1 else 0))
           | _ \<Rightarrow> None))"

section \<open>Properties\<close>

lemma round_five: "round_dbl 5 = DFin 5"
proof -
  have "bit_len 5 = 3" "bit_len 1 = 1" by (simp_all add: bit_len.simps)
  then have "ilog2 5 = 2" by (simp add: ilog2_def pow2_def)
  then show ?thesis by (simp add: round_dbl_def pow2_def round_half_even_def)
qed

lemma fives: "text_number ''5'' = Some (DFin 5)" "text_number ''5.0'' = Some (DFin 5)"
proof -
  have small: "pow2 (- 1022) < 5" by (simp add: pow2_def)
  have r: "ranged False 5 n = Number (DFin 5) n" for n using small by (simp add: ranged_def round_five)
  have p: "of_nat 50 * pow10 (- 1) = 5" by (simp add: pow10_def)
  have d: "digits_val ''5'' = 5" "digits_val ''50'' = 50" by (simp_all add: digits_val_def byte_def)
  have m: "mantissa is_digit ''5'' = Some (''5'', [], [])" "mantissa is_digit ''5.0'' = Some (''5'', ''0'', [])"
    by (simp_all add: mantissa_def is_digit_def byte_def)
  have "stod ''5'' = Number (DFin 5) 1" "stod ''5.0'' = Number (DFin 5) 3"
    using r p d by (simp_all add: stod_def read_decimal_def m exponent_part_def is_space_def byte_def lower_def to_lower_def
        is_upper_def starts_with_def pow10_def)
  then show "text_number ''5'' = Some (DFin 5)" "text_number ''5.0'' = Some (DFin 5)"
    by (simp_all add: text_number_def)
qed

text \<open>
  The equality of the language is no equivalence: a text equals the number it spells, two spellings of the number
  both equal it, but not each other; the ordering operators then call the two equal.
\<close>

theorem equality_not_transitive:
  "equals dump (JStr ''5'') (JInt 5) \<and> equals dump (JInt 5) (JStr ''5.0'') \<and>
   \<not> equals dump (JStr ''5'') (JStr ''5.0'') \<and> compare (JStr ''5'') (JStr ''5.0'') = Some 0"
proof -
  have a: "to_number (JStr ''5'') = Some (DFin 5)" by (simp add: fives)
  have b: "to_number (JStr ''5.0'') = Some (DFin 5)" by (simp add: fives)
  have c: "to_number (JInt 5) = Some (DFin 5)" by (simp add: dbl_of_int_def round_five)
  show ?thesis
    unfolding equals_def compare_def a b c by (simp add: is_scalar_def json_eq.simps)
qed

text \<open>
  A number that the printer writes with an exponent loses the zeros at the end of that exponent: the text of
  \<open>1e+20\<close> is \<open>1e+2\<close>.
\<close>

theorem large_number_text_is_cut:
  "dump (JFloat (DFin (10 ^ 20))) = ''1e+20'' \<Longrightarrow> str_value dump (JFloat (DFin (10 ^ 20))) = ''1e+2''"
  by (simp add: integral_dbl_def dbl_floor_def integral_def dbl_abs_def drop_zeros_def)

theorem large_number_text_is_cut_witness:
  "str_value (\<lambda>v. ''1e+20'') (JFloat (DFin (10 ^ 20))) = ''1e+2''"
  by (rule large_number_text_is_cut) simp

end
