(* ===== verification/Sapo_SelSyntax.thy ===== *)
theory Sapo_SelSyntax
  imports Sapo_Value
begin

text \<open>
  The front end of the expression language, \<open>src/src/runtime/expressions/Sel.cpp\<close>: tokens and lexer, the
  syntax tree of \<open>SelNodes.hpp\<close>, the recursive-descent parser, the compile cache.  The parser takes fuel, its
  depth of calls; \<open>parse_ends\<close> below shows that the fuel \<open>parse_program\<close> gives it always is enough.
\<close>

section \<open>Errors\<close>

definition sel_fail :: "string \<Rightarrow> nat \<Rightarrow> string \<Rightarrow> sapo_error" where
  "sel_fail message position source =
     sapo_error ExpressionErr message (jobj [(''expression'', JStr source), (''offset'', JInt (int position))]) []"

section \<open>Tokens\<close>

datatype tok_kind =
    TEnd | TNumber | TString | TIdent | TDollar | TDot | TOptDot | TLParen | TRParen | TLBracket | TRBracket
  | TLBrace | TRBrace | TComma | TColon | TQuestion | TCoalesce | TPlus | TMinus | TStar | TSlash | TPercent
  | TEq | TNe | TLt | TLe | TGt | TGe | TAnd | TOr | TNot | TKeyword

record token =
  tk_kind :: tok_kind
  tk_text :: string
  tk_literal :: json
  tk_pos :: nat

definition is_ident_start :: "char \<Rightarrow> bool" where
  "is_ident_start c \<longleftrightarrow> is_alpha c \<or> c = CHR ''_''"

definition is_ident_char :: "char \<Rightarrow> bool" where
  "is_ident_char c \<longleftrightarrow> is_alnum c \<or> c = CHR ''_''"

section \<open>Lexer\<close>

text \<open>The text of a numeric literal and what follows it.\<close>

definition number_text :: "string \<Rightarrow> string \<times> string" where
  "number_text s =
     (let part = (\<lambda>c. is_digit c \<or> c = CHR ''.''); d = takeWhile part s; r = dropWhile part s
      in if r \<noteq> [] \<and> hd r \<in> {CHR ''e'', CHR ''E''} then
           let r1 = tl r;
               sign = (if r1 \<noteq> [] \<and> hd r1 \<in> {CHR ''+'', CHR ''-''} then [hd r1] else []);
               r2 = drop (length sign) r1
           in (d @ [hd r] @ sign @ takeWhile is_digit r2, dropWhile is_digit r2)
         else (d, r))"

text \<open>\<open>json::parse\<close> on a run of digits: no leading zeros, unsigned 64-bit integers, doubles above them.\<close>

definition parse_digits :: "string \<Rightarrow> json option" where
  "parse_digits ds =
     (if 1 < length ds \<and> hd ds = CHR ''0'' then None
      else let v = int (digits_val ds)
           in if v < 2 ^ 64 then Some (JInt v)
              else case dbl_of_int v of DFin r \<Rightarrow> Some (JFloat (DFin r)) | _ \<Rightarrow> None)"

definition number_literal :: "string \<Rightarrow> json option" where
  "number_literal ds =
     (if list_all (\<lambda>c. c \<notin> {CHR ''.'', CHR ''e'', CHR ''E''}) ds then parse_digits ds
      else case stod ds of Number x _ \<Rightarrow> Some (JFloat x) | _ \<Rightarrow> None)"

definition unescape :: "char \<Rightarrow> char" where
  "unescape c =
     (if c = CHR ''n'' then CHR 0x0A else if c = CHR ''t'' then CHR 0x09 else if c = CHR ''r'' then CHR 0x0D
      else if c = CHR ''0'' then CHR 0x00 else c)"

text \<open>The value of a string literal after its opening quote, and what follows the closing one.\<close>

fun string_body :: "char \<Rightarrow> string \<Rightarrow> (string \<times> string) option" where
  "string_body q [] = None"
| "string_body q [c] = (if c = q then Some ([], []) else None)"
| "string_body q (c # e # r) =
     (if c = q then Some ([], e # r)
      else if c = CHR 0x5C then map_option (\<lambda>(v, t). (unescape e # v, t)) (string_body q r)
      else map_option (\<lambda>(v, t). (c # v, t)) (string_body q (e # r)))"

definition sel_keywords :: "string list" where
  "sel_keywords =
     [''and'', ''or'', ''not'', ''in'', ''contains'', ''true'', ''false'', ''null'', ''startsWith'', ''endsWith'']"

text \<open>A keyword is one only when no parenthesis follows; the two names at the end are plain functions.\<close>

definition word_kind :: "string \<Rightarrow> string \<Rightarrow> tok_kind" where
  "word_kind w rest =
     (if w \<in> set sel_keywords \<and> \<not> starts_with ''('' rest \<and> w \<noteq> ''startsWith'' \<and> w \<noteq> ''endsWith''
      then TKeyword else TIdent)"

definition two_char_tokens :: "(string \<times> tok_kind) list" where
  "two_char_tokens =
     [(''??'', TCoalesce), (''?.'', TOptDot), (''=='', TEq), (''=~'', TKeyword), (''!='', TNe), (''<='', TLe),
      (''>='', TGe), (''&&'', TAnd), (''||'', TOr)]"

definition one_char_tokens :: "(char \<times> tok_kind) list" where
  "one_char_tokens =
     [(CHR ''$'', TDollar), (CHR ''.'', TDot), (CHR ''('', TLParen), (CHR '')'', TRParen), (CHR ''['', TLBracket),
      (CHR '']'', TRBracket), (CHR ''{'', TLBrace), (CHR ''}'', TRBrace), (CHR '','', TComma), (CHR '':'', TColon),
      (CHR ''?'', TQuestion), (CHR ''+'', TPlus), (CHR ''-'', TMinus), (CHR ''*'', TStar), (CHR ''/'', TSlash),
      (CHR ''%'', TPercent), (CHR ''!'', TNot), (CHR ''<'', TLt), (CHR ''>'', TGt)]"

definition bad_char_message :: "char \<Rightarrow> string" where
  "bad_char_message c =
     (if c = CHR ''='' then quoted ''='' @ '' is not a valid operator; use '' @ quoted ''=='' @ '' for comparison''
      else if c = CHR ''&'' then ''unexpected character '' @ quoted ''&'' @ ''; use '' @ quoted ''&&''
      else if c = CHR ''|'' then ''unexpected character '' @ quoted ''|'' @ ''; use '' @ quoted ''||''
      else ''unexpected character '' @ quoted [c])"

definition lex_token :: "string \<Rightarrow> char \<Rightarrow> string \<Rightarrow> (token \<times> string) res" where
  "lex_token src c r =
     (let s = c # r; start = length src - length s;
          tok = (\<lambda>k text lit. \<lparr>tk_kind = k, tk_text = text, tk_literal = lit, tk_pos = start\<rparr>);
          bad = (\<lambda>message. Inl (sel_fail message start src))
      in if is_digit c then
           let (ds, rest) = number_text s
           in case number_literal ds of Some lit \<Rightarrow> Inr (tok TNumber ds lit, rest)
              | None \<Rightarrow> bad (''malformed numeric literal '' @ quoted ds)
         else if c = CHR 0x22 \<or> c = CHR 0x27 then
           case string_body c r of Some (v, rest) \<Rightarrow> Inr (tok TString v (JStr v), rest)
           | None \<Rightarrow> bad ''unterminated string literal''
         else if is_ident_start c then
           let w = takeWhile is_ident_char s; rest = dropWhile is_ident_char s
           in Inr (tok (word_kind w rest) w JNull, rest)
         else case map_of two_char_tokens (take 2 s) of
           Some k \<Rightarrow> Inr (tok k (take 2 s) JNull, drop 2 s)
         | None \<Rightarrow>
             case map_of one_char_tokens c of
               Some k \<Rightarrow> Inr (tok k [c] JNull, r)
             | None \<Rightarrow> bad (bad_char_message c))"

text \<open>All tokens but the last one, \<open>End\<close>, which \<open>peek_tok\<close> gives back at the end of the list.\<close>

lemma number_text_length: "number_text s = (ds, rest) \<Longrightarrow> length rest \<le> length (dropWhile (\<lambda>c. is_digit c \<or> c = CHR ''.'') s)"
proof -
  have drop: "length (dropWhile is_digit (drop n (tl r))) \<le> length r" for n and r :: string
    by (rule order.trans [OF length_dropWhile_le]) simp
  have drop0: "length (dropWhile is_digit (tl r)) \<le> length r" for r :: string
    using drop [of 0 r] by simp
  show "number_text s = (ds, rest) \<Longrightarrow> length rest \<le> length (dropWhile (\<lambda>c. is_digit c \<or> c = CHR ''.'') s)"
    by (auto simp: number_text_def Let_def drop drop0 split: if_splits)
qed

lemma string_body_length: "string_body q s = Some (v, rest) \<Longrightarrow> length v + length rest < length s"
  by (induction q s arbitrary: v rest rule: string_body.induct) (fastforce split: if_splits)+

lemma two_char_length: "map_of two_char_tokens t = Some k \<Longrightarrow> length t = 2"
  by (auto simp: two_char_tokens_def split: if_splits)

lemma lex_token_length: "lex_token src c r = Inr (t, rest) \<Longrightarrow> length rest \<le> length r"
proof -
  assume "lex_token src c r = Inr (t, rest)"
  moreover have "length ds \<le> length r"
    if "is_digit c" "number_text (c # r) = (t', ds)" for t' ds
    using number_text_length [OF that(2)] that(1)
      length_dropWhile_le [of "\<lambda>c. is_digit c \<or> c = CHR ''.''" r] by simp
  moreover have "length ds \<le> length r" if "string_body c r = Some (v, ds)" for v ds
    using string_body_length [OF that] by simp
  moreover have "length (dropWhile is_ident_char (c # r)) \<le> length r" if "is_ident_start c"
    using that length_dropWhile_le [of is_ident_char r]
    by (auto simp: is_ident_start_def is_ident_char_def is_alnum_def)
  ultimately show ?thesis
    by (auto simp: lex_token_def Let_def split: if_splits option.splits prod.splits)
qed

function tokenize :: "string \<Rightarrow> string \<Rightarrow> token list res" where
  "tokenize src s =
     (case dropWhile is_space s of
        [] \<Rightarrow> Inr []
      | c # r \<Rightarrow>
          case lex_token src c r of
            Inl e \<Rightarrow> Inl e
          | Inr (t, rest) \<Rightarrow> (case tokenize src rest of Inl e \<Rightarrow> Inl e | Inr ts \<Rightarrow> Inr (t # ts)))"
  by pat_completeness auto

lemma dropWhile_Cons_length: "dropWhile P s = c # r \<Longrightarrow> length r < length s"
  using length_dropWhile_le [of P s] by simp

termination tokenize
  by (relation "measure (\<lambda>(src, s). length s)")
     (auto dest!: lex_token_length dropWhile_Cons_length)

declare tokenize.simps [simp del]

section \<open>Syntax trees\<close>

datatype sel =
    Literal json
  | Variable string bool
  | Member sel string bool
  | StaticIndex sel int
  | ComputedIndex sel sel
  | Call string "sel list"
  | MethodCall sel string "sel list" bool
  | Unary string sel
  | Binary string sel sel
  | Ternary sel sel sel
  | Coalesce sel sel
  | ArrayLiteral "sel list"
  | ObjectLiteral "(string \<times> sel) list"

section \<open>Parser\<close>

datatype 'a pres = Parsed 'a "token list" | Refused sapo_error | NoFuel

definition pbind :: "'a pres \<Rightarrow> ('a \<Rightarrow> token list \<Rightarrow> 'b pres) \<Rightarrow> 'b pres" where
  "pbind p f = (case p of Parsed x ts \<Rightarrow> f x ts | Refused e \<Rightarrow> Refused e | NoFuel \<Rightarrow> NoFuel)"

lemma pbind_simps [simp]:
  "pbind (Parsed x ts) f = f x ts" "pbind (Refused e) f = Refused e" "pbind NoFuel f = NoFuel"
  by (simp_all add: pbind_def)

definition peek_tok :: "string \<Rightarrow> token list \<Rightarrow> token" where
  "peek_tok src ts =
     (case ts of [] \<Rightarrow> \<lparr>tk_kind = TEnd, tk_text = [], tk_literal = JNull, tk_pos = length src\<rparr> | t # _ \<Rightarrow> t)"

definition at_kind :: "tok_kind \<Rightarrow> token list \<Rightarrow> bool" where
  "at_kind k ts \<longleftrightarrow> (case ts of [] \<Rightarrow> k = TEnd | t # _ \<Rightarrow> tk_kind t = k)"

definition sel_bad :: "string \<Rightarrow> string \<Rightarrow> token list \<Rightarrow> 'a pres" where
  "sel_bad src message ts = Refused (sel_fail message (tk_pos (peek_tok src ts)) src)"

definition found_text :: "string \<Rightarrow> token list \<Rightarrow> string" where
  "found_text src ts = (if tk_text (peek_tok src ts) = [] then ''<end>'' else tk_text (peek_tok src ts))"

definition sel_expect :: "string \<Rightarrow> tok_kind \<Rightarrow> string \<Rightarrow> token list \<Rightarrow> unit pres" where
  "sel_expect src k what ts =
     (if at_kind k ts then Parsed () (tl ts)
      else sel_bad src (''expected '' @ what @ '' but found '' @ quoted (found_text src ts)) ts)"

text \<open>The levels of the binary operators, from the weakest, and the operator a token is on a level.\<close>

datatype level = LOr | LAnd | LEquality | LComparison | LAdditive | LMultiplicative

fun tighter :: "level \<Rightarrow> level option" where
  "tighter LOr = Some LAnd" | "tighter LAnd = Some LEquality" | "tighter LEquality = Some LComparison"
| "tighter LComparison = Some LAdditive" | "tighter LAdditive = Some LMultiplicative"
| "tighter LMultiplicative = None"

fun level_op :: "level \<Rightarrow> token \<Rightarrow> string option" where
  "level_op LOr t = (if tk_kind t = TOr \<or> (tk_kind t = TKeyword \<and> tk_text t = ''or'') then Some ''||'' else None)"
| "level_op LAnd t = (if tk_kind t = TAnd \<or> (tk_kind t = TKeyword \<and> tk_text t = ''and'') then Some ''&&'' else None)"
| "level_op LEquality t = (if tk_kind t \<in> {TEq, TNe} then Some (tk_text t) else None)"
| "level_op LComparison t =
     (if tk_kind t \<in> {TLt, TLe, TGt, TGe} \<or>
         (tk_kind t = TKeyword \<and> tk_text t \<in> {''in'', ''contains'', ''=~''}) then Some (tk_text t) else None)"
| "level_op LAdditive t = (if tk_kind t \<in> {TPlus, TMinus} then Some (tk_text t) else None)"
| "level_op LMultiplicative t = (if tk_kind t \<in> {TStar, TSlash, TPercent} then Some (tk_text t) else None)"

definition infix_at :: "level \<Rightarrow> token list \<Rightarrow> string option" where
  "infix_at l ts = (case ts of [] \<Rightarrow> None | t # _ \<Rightarrow> level_op l t)"

definition unary_at :: "token list \<Rightarrow> string option" where
  "unary_at ts =
     (case ts of [] \<Rightarrow> None
      | t # _ \<Rightarrow>
          if tk_kind t \<in> {TNot, TMinus, TPlus} \<or> (tk_kind t = TKeyword \<and> tk_text t = ''not'')
          then Some (if tk_text t = ''not'' then ''!'' else tk_text t) else None)"

text \<open>An index written as an integer literal is stored as an \<open>int\<close>.\<close>

definition make_index :: "sel \<Rightarrow> sel \<Rightarrow> sel" where
  "make_index base ix = (case ix of Literal (JInt i) \<Rightarrow> StaticIndex base (as_int32 i) | _ \<Rightarrow> ComputedIndex base ix)"

text \<open>
  Each method of the parser calls only \<open>parseTernary\<close> again from inside: it is the parameter \<open>tern\<close> of the
  methods below it.  The fuel \<open>n\<close> of a method bounds its own loop.
\<close>

type_synonym sel_parser = "token list \<Rightarrow> sel pres"

fun parse_items :: "sel_parser \<Rightarrow> nat \<Rightarrow> token list \<Rightarrow> sel list pres" where
  "parse_items tern 0 ts = NoFuel"
| "parse_items tern (Suc n) ts =
     pbind (tern ts) (\<lambda>e r.
       if at_kind TComma r then pbind (parse_items tern n (tl r)) (\<lambda>es r1. Parsed (e # es) r1)
       else Parsed [e] r)"

definition parse_arguments :: "string \<Rightarrow> sel_parser \<Rightarrow> nat \<Rightarrow> token list \<Rightarrow> sel list pres" where
  "parse_arguments src tern n ts =
     (if at_kind TRParen ts then Parsed [] (tl ts)
      else pbind (parse_items tern n ts) (\<lambda>es r.
             pbind (sel_expect src TRParen (quoted '')'') r) (\<lambda>_ r1. Parsed es r1)))"

fun parse_entries :: "string \<Rightarrow> sel_parser \<Rightarrow> nat \<Rightarrow> token list \<Rightarrow> (string \<times> sel) list pres" where
  "parse_entries src tern 0 ts = NoFuel"
| "parse_entries src tern (Suc n) ts =
     (if at_kind TString ts \<or> at_kind TIdent ts \<or> at_kind TNumber ts then
        let key = tk_text (peek_tok src ts)
        in pbind (sel_expect src TColon (quoted '':'' @ '' in object literal'') (tl ts)) (\<lambda>_ r.
             pbind (tern r) (\<lambda>e r1.
               if at_kind TComma r1
               then pbind (parse_entries src tern n (tl r1)) (\<lambda>es r2. Parsed ((key, e) # es) r2)
               else Parsed [(key, e)] r1))
      else sel_bad src ''expected an object key'' ts)"

definition parse_bracketed :: "string \<Rightarrow> tok_kind \<Rightarrow> string \<Rightarrow> (token list \<Rightarrow> 'a list pres) \<Rightarrow> ('a list \<Rightarrow> sel) \<Rightarrow> sel_parser" where
  "parse_bracketed src close what inner build ts =
     pbind (if at_kind close ts then Parsed [] ts else inner ts) (\<lambda>es r.
       pbind (sel_expect src close what r) (\<lambda>_ r1. Parsed (build es) r1))"

text \<open>A name: a call when a parenthesis follows, else a variable.\<close>

definition parse_name :: "string \<Rightarrow> sel_parser \<Rightarrow> nat \<Rightarrow> string \<Rightarrow> bool \<Rightarrow> sel_parser" where
  "parse_name src tern n name dollar ts =
     (if at_kind TLParen ts
      then pbind (parse_arguments src tern n (tl ts)) (\<lambda>args r. Parsed (Call name args) r)
      else Parsed (Variable name dollar) ts)"

definition parse_dollar :: "string \<Rightarrow> sel_parser \<Rightarrow> nat \<Rightarrow> sel_parser" where
  "parse_dollar src tern n ts =
     (if at_kind TIdent ts then parse_name src tern n (tk_text (peek_tok src ts)) True (tl ts)
      else sel_bad src (''expected a variable name after '' @ quoted ''$'') ts)"

definition parse_keyword :: "string \<Rightarrow> string \<Rightarrow> sel_parser" where
  "parse_keyword src w ts =
     (if w = ''true'' \<or> w = ''false'' then Parsed (Literal (JBool (w = ''true''))) ts
      else if w = ''null'' then Parsed (Literal JNull) ts
      else sel_bad src (''unexpected keyword '' @ quoted w) ts)"

definition parse_group :: "string \<Rightarrow> sel_parser \<Rightarrow> sel_parser" where
  "parse_group src tern ts =
     pbind (tern ts) (\<lambda>e r. pbind (sel_expect src TRParen (quoted '')'') r) (\<lambda>_ r1. Parsed e r1))"

definition parse_primary :: "string \<Rightarrow> sel_parser \<Rightarrow> nat \<Rightarrow> sel_parser" where
  "parse_primary src tern n ts =
     (let t = peek_tok src ts; k = tk_kind t; r = tl ts
      in if k = TNumber \<or> k = TString then Parsed (Literal (tk_literal t)) r
         else if k = TLParen then parse_group src tern r
         else if k = TLBracket then
           parse_bracketed src TRBracket (quoted '']'') (parse_items tern n) ArrayLiteral r
         else if k = TLBrace then
           parse_bracketed src TRBrace (quoted ''}'') (parse_entries src tern n) ObjectLiteral r
         else if k = TDollar then parse_dollar src tern n r
         else if k = TKeyword then parse_keyword src (tk_text t) r
         else if k = TIdent then parse_name src tern n (tk_text t) False r
         else sel_bad src (''unexpected token '' @ quoted (found_text src ts)) ts)"

text \<open>One link of a chain: a member, a method call or an index; \<open>None\<close> when the chain ends.\<close>

definition parse_field :: "string \<Rightarrow> sel_parser \<Rightarrow> nat \<Rightarrow> sel \<Rightarrow> bool \<Rightarrow> sel_parser" where
  "parse_field src tern n e optional ts =
     (if at_kind TIdent ts \<or> at_kind TNumber ts then
        let field = tk_text (peek_tok src ts); r = tl ts
        in if at_kind TLParen r
           then pbind (parse_arguments src tern n (tl r)) (\<lambda>args r1. Parsed (MethodCall e field args optional) r1)
           else Parsed (Member e field optional) r
      else sel_bad src (''expected a field name after '' @ quoted ''.'') ts)"

definition parse_index :: "string \<Rightarrow> sel_parser \<Rightarrow> sel \<Rightarrow> sel_parser" where
  "parse_index src tern e ts =
     pbind (tern ts) (\<lambda>ix r.
       pbind (sel_expect src TRBracket (quoted '']'') r) (\<lambda>_ r1. Parsed (make_index e ix) r1))"

definition parse_link :: "string \<Rightarrow> sel_parser \<Rightarrow> nat \<Rightarrow> sel \<Rightarrow> token list \<Rightarrow> sel pres option" where
  "parse_link src tern n e ts =
     (if at_kind TDot ts \<or> at_kind TOptDot ts then
        let r = (if at_kind TDot ts then tl ts else ts); optional = at_kind TOptDot r
        in Some (parse_field src tern n e optional (if optional then tl r else r))
      else if at_kind TLBracket ts then Some (parse_index src tern e (tl ts))
      else None)"

fun parse_chain :: "string \<Rightarrow> sel_parser \<Rightarrow> nat \<Rightarrow> sel \<Rightarrow> sel_parser" where
  "parse_chain src tern 0 e ts = NoFuel"
| "parse_chain src tern (Suc n) e ts =
     (case parse_link src tern n e ts of
        None \<Rightarrow> Parsed e ts
      | Some p \<Rightarrow> pbind p (\<lambda>e' r. parse_chain src tern n e' r))"

fun parse_unary :: "string \<Rightarrow> sel_parser \<Rightarrow> nat \<Rightarrow> sel_parser" where
  "parse_unary src tern 0 ts = NoFuel"
| "parse_unary src tern (Suc n) ts =
     (case unary_at ts of
        Some op \<Rightarrow> pbind (parse_unary src tern n (tl ts)) (\<lambda>e r. Parsed (Unary op e) r)
      | None \<Rightarrow> pbind (parse_primary src tern n ts) (\<lambda>e r. parse_chain src tern n e r))"

fun level_loop :: "sel_parser \<Rightarrow> nat \<Rightarrow> level \<Rightarrow> sel \<Rightarrow> sel_parser" where
  "level_loop operand 0 l e ts = NoFuel"
| "level_loop operand (Suc n) l e ts =
     (case infix_at l ts of
        None \<Rightarrow> Parsed e ts
      | Some op \<Rightarrow> pbind (operand (tl ts)) (\<lambda>e' r. level_loop operand n l (Binary op e e') r))"

fun level_rank :: "level \<Rightarrow> nat" where
  "level_rank LOr = 5" | "level_rank LAnd = 4" | "level_rank LEquality = 3" | "level_rank LComparison = 2"
| "level_rank LAdditive = 1" | "level_rank LMultiplicative = 0"

lemma tighter_rank: "tighter l = Some k \<Longrightarrow> level_rank k < level_rank l"
  by (cases l) auto

function parse_level :: "string \<Rightarrow> sel_parser \<Rightarrow> nat \<Rightarrow> level \<Rightarrow> sel_parser" where
  "parse_level src tern n l ts =
     (let operand = (case tighter l of Some k \<Rightarrow> parse_level src tern n k | None \<Rightarrow> parse_unary src tern n)
      in pbind (operand ts) (\<lambda>e r. level_loop operand n l e r))"
  by pat_completeness auto
termination parse_level
  by (relation "measure (\<lambda>(src, tern, n, l, ts). level_rank l)") (auto dest: tighter_rank)

declare parse_level.simps [simp del]

fun parse_coalesce :: "string \<Rightarrow> sel_parser \<Rightarrow> nat \<Rightarrow> sel_parser" where
  "parse_coalesce src tern 0 ts = NoFuel"
| "parse_coalesce src tern (Suc n) ts =
     pbind (parse_level src tern n LOr ts) (\<lambda>l r.
       if at_kind TCoalesce r then pbind (parse_coalesce src tern n (tl r)) (\<lambda>e r1. Parsed (Coalesce l e) r1)
       else Parsed l r)"

fun parse_ternary :: "string \<Rightarrow> nat \<Rightarrow> sel_parser" where
  "parse_ternary src 0 ts = NoFuel"
| "parse_ternary src (Suc n) ts =
     (let tern = parse_ternary src n
      in pbind (parse_coalesce src tern n ts) (\<lambda>c r.
           if at_kind TQuestion r then
             pbind (tern (tl r)) (\<lambda>t r1.
               pbind (sel_expect src TColon (quoted '':'' @ '' in ternary'') r1) (\<lambda>_ r2.
                 pbind (tern r2) (\<lambda>e r3. Parsed (Ternary c t e) r3)))
           else Parsed c r))"

text \<open>The whole text.  A method of the parser uses a token for every call it makes, so three more than the number of
  tokens is enough fuel (\<open>parse_ends\<close>).\<close>

definition parse_program :: "string \<Rightarrow> sel pres" where
  "parse_program src =
     (case tokenize src src of
        Inl e \<Rightarrow> Refused e
      | Inr ts \<Rightarrow>
          if ts = [] then Refused (sel_fail ''empty expression'' 0 src)
          else pbind (parse_ternary src (length ts + 3) ts) (\<lambda>e r.
                 if r = [] then Parsed e []
                 else sel_bad src (''unexpected trailing token '' @ quoted (tk_text (peek_tok src r))) r))"

definition compile :: "string \<Rightarrow> sel res" where
  "compile src = (case parse_program src of Parsed e _ \<Rightarrow> Inr e | Refused e \<Rightarrow> Inl e | NoFuel \<Rightarrow> Inl (sel_fail [] 0 src))"

section \<open>The parser ends\<close>

text \<open>
  \<open>need\<close> is the depth evaluation may reach: a text literal may itself be compiled and evaluated (as the
  predicate of a higher-order function), and then its length bounds what it needs.  Parsing never makes a tree that
  needs more than the tokens it used were long.
\<close>

fun need :: "sel \<Rightarrow> nat" where
  "need (Literal v) = (case v of JStr s \<Rightarrow> Suc (length s) | _ \<Rightarrow> 1)"
| "need (Variable _ _) = 1"
| "need (Member e _ _) = Suc (need e)"
| "need (StaticIndex e _) = Suc (need e)"
| "need (ComputedIndex a b) = Suc (need a + need b)"
| "need (Call _ args) = Suc (sum_list (map need args))"
| "need (MethodCall e _ args _) = Suc (need e + sum_list (map need args))"
| "need (Unary _ e) = Suc (need e)"
| "need (Binary _ a b) = Suc (need a + need b)"
| "need (Ternary a b c) = Suc (need a + need b + need c)"
| "need (Coalesce a b) = Suc (need a + need b)"
| "need (ArrayLiteral es) = Suc (sum_list (map need es))"
| "need (ObjectLiteral es) = Suc (sum_list (map (\<lambda>p. need (snd p)) es))"

definition tok_weight :: "token \<Rightarrow> nat" where
  "tok_weight t = (case tk_literal t of JStr s \<Rightarrow> Suc (length s) | _ \<Rightarrow> 1)"

definition weight :: "token list \<Rightarrow> nat" where
  "weight ts = sum_list (map tok_weight ts)"

lemma weight_simps [simp]: "weight [] = 0" "weight (t # ts) = tok_weight t + weight ts"
  by (simp_all add: weight_def)

lemma tok_weight_pos: "0 < tok_weight t"
  by (simp add: tok_weight_def split: json.split)

text \<open>A successful step used tokens, at least as many (by weight) as what it returns needs.\<close>

definition consumes :: "('a \<Rightarrow> nat) \<Rightarrow> token list \<Rightarrow> 'a pres \<Rightarrow> bool" where
  "consumes w ts p \<longleftrightarrow>
     (case p of Parsed x r \<Rightarrow> w x + weight r \<le> weight ts \<and> length r < length ts | Refused _ \<Rightarrow> True | NoFuel \<Rightarrow> False)"

lemma consumes_simps [simp]:
  "consumes w ts (Parsed x r) \<longleftrightarrow> w x + weight r \<le> weight ts \<and> length r < length ts"
  "consumes w ts (Refused e)" "\<not> consumes w ts NoFuel"
  "consumes w ts (sel_bad src m us)"
  by (simp_all add: consumes_def sel_bad_def)

lemma consumes_bind:
  assumes "consumes w ts p" and "\<And>x r. w x + weight r \<le> weight ts \<Longrightarrow> length r < length ts \<Longrightarrow> consumes w' us (f x r)"
  shows "consumes w' us (pbind p f)"
  using assms by (cases p) simp_all

lemma consumes_later:
  "consumes w r p \<Longrightarrow> k + weight r \<le> weight ts \<Longrightarrow> length r \<le> length ts \<Longrightarrow> consumes (\<lambda>x. w x + k) ts p"
  by (cases p) simp_all

lemma at_kind_Cons: "at_kind k ts \<Longrightarrow> k \<noteq> TEnd \<Longrightarrow> \<exists>t r. ts = t # r \<and> tk_kind t = k"
  by (cases ts) (auto simp: at_kind_def)

lemma tl_uses: "ts \<noteq> [] \<Longrightarrow> weight (tl ts) < weight ts \<and> length (tl ts) < length ts"
  by (cases ts) (simp_all add: tok_weight_pos)

lemma at_kind_uses:
  "at_kind k ts \<Longrightarrow> k \<noteq> TEnd \<Longrightarrow> weight (tl ts) < weight ts \<and> length (tl ts) < length ts"
  by (rule tl_uses) (auto simp: at_kind_def)

lemma consumes_expect: "k \<noteq> TEnd \<Longrightarrow> consumes (\<lambda>_. 1) ts (sel_expect src k what ts)"
  using at_kind_uses [of k ts] by (auto simp: sel_expect_def)

lemmas expect_bind = consumes_bind [OF consumes_expect]

definition shorter_fine :: "sel_parser \<Rightarrow> nat \<Rightarrow> bool" where
  "shorter_fine tern m \<longleftrightarrow> (\<forall>ts. length ts < m \<longrightarrow> consumes need ts (tern ts))"

lemma shorter_fineD: "shorter_fine tern m \<Longrightarrow> length ts < m \<Longrightarrow> consumes need ts (tern ts)"
  by (simp add: shorter_fine_def)

lemma shorter_fine_mono: "shorter_fine tern m \<Longrightarrow> m' \<le> m \<Longrightarrow> shorter_fine tern m'"
  by (simp add: shorter_fine_def)

abbreviation needs :: "sel list \<Rightarrow> nat" where
  "needs es \<equiv> sum_list (map need es)"

lemma parse_items_fine:
  "shorter_fine tern m \<Longrightarrow> length ts < m \<Longrightarrow> length ts < n \<Longrightarrow> consumes needs ts (parse_items tern n ts)"
proof (induction n arbitrary: ts)
  case (Suc n)
  show ?case
  proof (simp, rule consumes_bind [OF shorter_fineD [OF Suc.prems(1,2)]])
    fix e r assume r: "need e + weight r \<le> weight ts" "length r < length ts"
    show "consumes needs ts
           (if at_kind TComma r then pbind (parse_items tern n (tl r)) (\<lambda>es r1. Parsed (e # es) r1) else Parsed [e] r)"
    proof (cases "at_kind TComma r")
      case True
      then have tl: "weight (tl r) < weight r" "length (tl r) < length r" using at_kind_uses by blast+
      have "consumes needs (tl r) (parse_items tern n (tl r))"
        using Suc.prems tl r by (intro Suc.IH) simp_all
      then show ?thesis using True r tl by (auto intro!: consumes_bind)
    qed (use r in simp)
  qed
qed simp

lemma parse_arguments_fine:
  assumes "shorter_fine tern m" and "length ts < m" and "length ts < n"
  shows "consumes needs ts (parse_arguments src tern n ts)"
proof (cases "at_kind TRParen ts")
  case True
  then show ?thesis using at_kind_uses [of TRParen ts] by (simp add: parse_arguments_def)
next
  case False
  then show ?thesis unfolding parse_arguments_def
    by (auto intro!: consumes_bind [OF parse_items_fine [OF assms]] expect_bind)
qed

abbreviation entry_needs :: "(string \<times> sel) list \<Rightarrow> nat" where
  "entry_needs es \<equiv> sum_list (map (\<lambda>p. need (snd p)) es)"

lemma parse_entries_fine:
  "shorter_fine tern m \<Longrightarrow> length ts < m \<Longrightarrow> length ts < n \<Longrightarrow> consumes entry_needs ts (parse_entries src tern n ts)"
proof (induction n arbitrary: ts)
  case (Suc n)
  show ?case
  proof (cases "at_kind TString ts \<or> at_kind TIdent ts \<or> at_kind TNumber ts")
    case True
    then have ts: "weight (tl ts) < weight ts" "length (tl ts) < length ts" using at_kind_uses by blast+
    have step: "consumes entry_needs ts
        (if at_kind TComma r1 then pbind (parse_entries src tern n (tl r1)) (\<lambda>es r2. Parsed ((key, e) # es) r2)
         else Parsed [(key, e)] r1)"
      if "need e + weight r1 \<le> weight r" "length r1 < length r" "Suc (weight r) \<le> weight (tl ts)" "length r < length (tl ts)"
      for key e r r1
    proof (cases "at_kind TComma r1")
      case True
      then have tl: "weight (tl r1) < weight r1" "length (tl r1) < length r1" using at_kind_uses by blast+
      have "consumes entry_needs (tl r1) (parse_entries src tern n (tl r1))"
        using Suc.prems tl that ts by (intro Suc.IH) simp_all
      then show ?thesis using True that tl ts by (auto intro!: consumes_bind)
    qed (use that ts in simp)
    have tern: "consumes need r (tern r)" if "length r < length (tl ts)" for r
      using Suc.prems ts that by (intro shorter_fineD [OF Suc.prems(1)]) simp
    have "consumes entry_needs ts
        (let key = tk_text (peek_tok src ts)
         in pbind (sel_expect src TColon (quoted '':'' @ '' in object literal'') (tl ts)) (\<lambda>_ r.
              pbind (tern r) (\<lambda>e r1.
                if at_kind TComma r1
                then pbind (parse_entries src tern n (tl r1)) (\<lambda>es r2. Parsed ((key, e) # es) r2)
                else Parsed [(key, e)] r1)))"
      unfolding Let_def
      by (rule expect_bind [where ts = "tl ts"], simp, rule consumes_bind [OF tern], simp, rule step) simp_all
    with True show ?thesis by (auto simp only: parse_entries.simps if_True)
  qed simp
qed simp

lemma peek_literal: "at_kind k ts \<Longrightarrow> k \<noteq> TEnd \<Longrightarrow> need (Literal (tk_literal (peek_tok src ts))) + weight (tl ts) \<le> weight ts"
  by (auto dest!: at_kind_Cons simp: peek_tok_def tok_weight_def split: json.splits)

lemma parse_name_fine:
  assumes "shorter_fine tern m" and "length ts < m" and "length ts < n"
  shows "consumes need (t # ts) (parse_name src tern n name dollar ts)"
proof (cases "at_kind TLParen ts")
  case True
  then have tl: "weight (tl ts) < weight ts" "length (tl ts) < length ts" using at_kind_uses by blast+
  have "consumes needs (tl ts) (parse_arguments src tern n (tl ts))"
    using assms tl by (intro parse_arguments_fine [OF assms(1)]) simp_all
  with True tl show ?thesis
    by (auto simp: parse_name_def intro!: consumes_bind)
next
  case False
  then show ?thesis using tok_weight_pos [of t] by (simp add: parse_name_def Suc_le_eq)
qed

lemma parse_group_fine:
  assumes "shorter_fine tern m" and "length ts < m"
  shows "consumes need (t # ts) (parse_group src tern ts)"
  unfolding parse_group_def
  by (rule consumes_bind [OF shorter_fineD [OF assms]], rule expect_bind) auto

lemma parse_bracketed_fine:
  assumes "consumes w ts (inner ts)" and "\<And>es. need (build es) = Suc (w es)" and "w [] = 0" and "close \<noteq> TEnd"
  shows "consumes need (t # ts) (parse_bracketed src close what inner build ts)"
proof -
  have t: "0 < tok_weight t" by (rule tok_weight_pos)
  show ?thesis
  proof (cases "at_kind close ts")
    case True
    with assms(2-4) t at_kind_uses [OF True] show ?thesis
      by (auto simp: parse_bracketed_def intro!: expect_bind)
  next
    case False
    with assms(2,4) t show ?thesis
      by (auto simp: parse_bracketed_def intro!: consumes_bind [OF assms(1)] expect_bind)
  qed
qed

lemma parse_primary_fine:
  assumes "shorter_fine tern m" and "length ts \<le> m" and "length ts \<le> n"
  shows "consumes need ts (parse_primary src tern n ts)"
proof (cases ts)
  case Nil
  then show ?thesis by (simp add: parse_primary_def Let_def peek_tok_def)
next
  case (Cons t r)
  have r: "length r < m" "length r < n" using assms(2,3) Cons by simp_all
  note group = parse_group_fine [OF assms(1) r(1), of t src]
  note name = parse_name_fine [OF assms(1) r, of t src]
  have dollar: "consumes need ts (parse_dollar src tern n r)"
  proof (cases "at_kind TIdent r")
    case True
    then obtain u q where q: "r = u # q" by (auto dest!: at_kind_Cons)
    have "consumes need (u # q) (parse_name src tern n (tk_text (peek_tok src r)) True q)"
      using r q by (intro parse_name_fine [OF assms(1)]) simp_all
    with True q Cons show ?thesis by (cases "parse_name src tern n (tk_text (peek_tok src r)) True q") (simp_all add: parse_dollar_def)
  qed (simp add: parse_dollar_def)
  have items: "consumes need ts (parse_bracketed src TRBracket w (parse_items tern n) ArrayLiteral r)" for w
    unfolding Cons by (rule parse_bracketed_fine [where w = needs], rule parse_items_fine [OF assms(1) r]) simp_all
  have entries: "consumes need ts (parse_bracketed src TRBrace w (parse_entries src tern n) ObjectLiteral r)" for w
    unfolding Cons by (rule parse_bracketed_fine [where w = entry_needs], rule parse_entries_fine [OF assms(1) r]) simp_all
  have literal: "consumes need ts (Parsed (Literal (tk_literal t)) r)"
    by (auto simp: Cons tok_weight_def split: json.splits)
  have keyword: "consumes need ts (parse_keyword src w r)" for w
    using tok_weight_pos [of t] by (simp add: Cons parse_keyword_def Suc_le_eq)
  show ?thesis
    using group name dollar items entries literal keyword
    by (simp add: parse_primary_def Let_def Cons peek_tok_def)
qed

text \<open>What follows an operand adds what it uses to what the operand needs.\<close>

lemma parse_field_fine:
  assumes "shorter_fine tern m" and "length ts \<le> m" and "length ts \<le> n"
  shows "consumes (\<lambda>x. need x - need e) ts (parse_field src tern n e optional ts) \<and>
         (\<forall>x r. parse_field src tern n e optional ts = Parsed x r \<longrightarrow> need e \<le> need x)"
proof (cases "at_kind TIdent ts \<or> at_kind TNumber ts")
  case True
  then have r: "weight (tl ts) < weight ts" "length (tl ts) < length ts" using at_kind_uses by blast+
  show ?thesis
  proof (cases "at_kind TLParen (tl ts)")
    case call: True
    then have q: "weight (tl (tl ts)) < weight (tl ts)" "length (tl (tl ts)) < length (tl ts)"
      using at_kind_uses by blast+
    have "consumes needs (tl (tl ts)) (parse_arguments src tern n (tl (tl ts)))"
      using assms r q by (intro parse_arguments_fine [OF assms(1)]) linarith+
    with True call r q show ?thesis
      by (cases "parse_arguments src tern n (tl (tl ts))") (auto simp: parse_field_def Let_def)
  qed (use True r in \<open>auto simp: parse_field_def Let_def\<close>)
qed (simp add: parse_field_def sel_bad_def)

lemma make_index_need: "need (make_index e ix) \<le> Suc (need e + need ix) \<and> need e \<le> need (make_index e ix)"
  by (auto simp: make_index_def split: sel.splits json.splits)

lemma parse_index_fine:
  assumes "shorter_fine tern m" and "length ts < m"
  shows "consumes (\<lambda>x. need x - need e - 1) ts (parse_index src tern e ts) \<and>
         (\<forall>x r. parse_index src tern e ts = Parsed x r \<longrightarrow> need e \<le> need x)"
proof (cases "tern ts")
  case (Parsed ix r)
  with shorter_fineD [OF assms] have ix: "need ix + weight r \<le> weight ts" "length r < length ts" by simp_all
  note m = make_index_need [of e ix]
  show ?thesis
  proof (cases "sel_expect src TRBracket (quoted '']'') r")
    case (Parsed u r1)
    with consumes_expect [of TRBracket r src "quoted '']''"] have "Suc (weight r1) \<le> weight r" "length r1 < length r"
      by simp_all
    moreover have "need (make_index e ix) - Suc (need e) \<le> need ix" using m by linarith
    ultimately show ?thesis using Parsed \<open>tern ts = Parsed ix r\<close> ix m by (simp add: parse_index_def)
  qed (use Parsed consumes_expect [of TRBracket r src "quoted '']''"] in \<open>simp_all add: parse_index_def\<close>)
qed (use shorter_fineD [OF assms] in \<open>simp_all add: parse_index_def\<close>)

lemma parse_link_fine:
  assumes "shorter_fine tern m" and "length ts \<le> m" and "length ts \<le> n" and "parse_link src tern n e ts = Some p"
  shows "consumes (\<lambda>x. need x - need e) ts p \<and> (\<forall>x r. p = Parsed x r \<longrightarrow> need e \<le> need x)"
proof (cases "at_kind TDot ts \<or> at_kind TOptDot ts")
  case True
  define r where "r = (if at_kind TDot ts then tl ts else ts)"
  define q where "q = (if at_kind TOptDot r then tl r else r)"
  have q: "weight q < weight ts" "length q < length ts"
    using True at_kind_uses [of TDot ts] at_kind_uses [of TOptDot ts] at_kind_uses [of TOptDot r]
    by (auto simp: q_def r_def split: if_splits)
  have p: "p = parse_field src tern n e (at_kind TOptDot r) q"
    using assms(4) True by (auto simp: parse_link_def Let_def r_def q_def)
  have "length q \<le> m" "length q \<le> n" using assms q by linarith+
  from parse_field_fine [OF assms(1) this, of e src "at_kind TOptDot r"] q show ?thesis
    unfolding p [symmetric] by (cases p) auto
next
  case False
  with assms(4) have b: "at_kind TLBracket ts" and p: "p = parse_index src tern e (tl ts)"
    by (auto simp: parse_link_def split: if_splits)
  from at_kind_uses [OF b] have q: "weight (tl ts) < weight ts" "length (tl ts) < length ts" by simp_all
  then have "length (tl ts) < m" using assms by linarith
  from parse_index_fine [OF assms(1) this, of e src] q show ?thesis
    unfolding p [symmetric] by (cases p) auto
qed

text \<open>\<open>grows e ts p\<close>: \<open>p\<close> extends the operand \<open>e\<close> and does not fail to stop.\<close>

definition grows :: "sel \<Rightarrow> token list \<Rightarrow> sel pres \<Rightarrow> bool" where
  "grows e ts p \<longleftrightarrow>
     (case p of Parsed x r \<Rightarrow> need x + weight r \<le> need e + weight ts \<and> length r \<le> length ts
      | Refused _ \<Rightarrow> True | NoFuel \<Rightarrow> False)"

lemma grows_simps [simp]:
  "grows e ts (Parsed x r) \<longleftrightarrow> need x + weight r \<le> need e + weight ts \<and> length r \<le> length ts"
  "grows e ts (Refused err)" "\<not> grows e ts NoFuel"
  by (simp_all add: grows_def)

lemma grows_trans:
  "grows e' r p \<Longrightarrow> need e' + weight r \<le> need e + weight ts \<Longrightarrow> length r \<le> length ts \<Longrightarrow> grows e ts p"
  by (cases p) simp_all

lemma consumes_grows:
  "consumes need ts p \<Longrightarrow> (\<And>e r. length r < length ts \<Longrightarrow> grows e r (f e r)) \<Longrightarrow> consumes need ts (pbind p f)"
proof (cases p)
  case (Parsed e r)
  assume c: "consumes need ts p" and g: "\<And>e r. length r < length ts \<Longrightarrow> grows e r (f e r)"
  from c Parsed have r: "need e + weight r \<le> weight ts" "length r < length ts" by simp_all
  from g [OF r(2), of e] r Parsed show ?thesis by (cases "f e r") simp_all
qed simp_all

lemma parse_chain_fine:
  "shorter_fine tern m \<Longrightarrow> length ts \<le> m \<Longrightarrow> length ts < n \<Longrightarrow> grows e ts (parse_chain src tern n e ts)"
proof (induction n arbitrary: e ts)
  case (Suc n)
  show ?case
  proof (cases "parse_link src tern n e ts")
    case (Some p)
    have link: "consumes (\<lambda>x. need x - need e) ts p" "\<forall>x r. p = Parsed x r \<longrightarrow> need e \<le> need x"
      using parse_link_fine [OF Suc.prems(1,2) _ Some] Suc.prems(3) by auto
    show ?thesis
    proof (cases p)
      case (Parsed x r)
      with link have x: "need x + weight r \<le> need e + weight ts" "length r < length ts" by auto
      then have "grows x r (parse_chain src tern n x r)" using Suc.prems by (intro Suc.IH) simp_all
      then have "grows e ts (parse_chain src tern n x r)"
        by (rule grows_trans) (use x in simp_all)
      with Some Parsed show ?thesis by simp
    qed (use Some link in simp_all)
  qed simp
qed simp

lemma unary_at_Cons: "unary_at ts = Some op \<Longrightarrow> ts \<noteq> []"
  by (auto simp: unary_at_def)

lemma infix_at_Cons: "infix_at l ts = Some op \<Longrightarrow> ts \<noteq> []"
  by (auto simp: infix_at_def)

lemma parse_unary_fine:
  "shorter_fine tern m \<Longrightarrow> length ts \<le> m \<Longrightarrow> length ts < n \<Longrightarrow> consumes need ts (parse_unary src tern n ts)"
proof (induction n arbitrary: ts)
  case (Suc n)
  show ?case
  proof (cases "unary_at ts")
    case None
    have "consumes need ts (parse_primary src tern n ts)" using Suc.prems by (intro parse_primary_fine [OF Suc.prems(1)]) simp_all
    then have "consumes need ts (pbind (parse_primary src tern n ts) (\<lambda>e r. parse_chain src tern n e r))"
      using Suc.prems by (rule_tac consumes_grows) (auto intro: parse_chain_fine [OF Suc.prems(1)])
    with None show ?thesis by simp
  next
    case (Some op)
    from unary_at_Cons [OF Some] have r: "weight (tl ts) < weight ts" "length (tl ts) < length ts" using tl_uses by blast+
    have "consumes need (tl ts) (parse_unary src tern n (tl ts))" using Suc.prems r by (intro Suc.IH) linarith+
    with Some r show ?thesis by (auto intro!: consumes_bind)
  qed
qed simp

lemma level_loop_fine:
  assumes operand: "\<And>ts. length ts < m \<Longrightarrow> consumes need ts (operand ts)"
  shows "length ts \<le> m \<Longrightarrow> length ts < n \<Longrightarrow> grows e ts (level_loop operand n l e ts)"
proof (induction n arbitrary: e ts)
  case (Suc n)
  show ?case
  proof (cases "infix_at l ts")
    case (Some op)
    from infix_at_Cons [OF Some] have r: "weight (tl ts) < weight ts" "length (tl ts) < length ts" using tl_uses by blast+
    have c: "consumes need (tl ts) (operand (tl ts))" using Suc.prems r by (intro operand) linarith
    show ?thesis
    proof (cases "operand (tl ts)")
      case (Parsed e' q)
      with c have q: "need e' + weight q \<le> weight (tl ts)" "length q < length (tl ts)" by simp_all
      then have "grows (Binary op e e') q (level_loop operand n l (Binary op e e') q)"
        using Suc.prems r by (intro Suc.IH) linarith+
      then have "grows e ts (level_loop operand n l (Binary op e e') q)"
        by (rule grows_trans) (use q r in simp_all)
      with Some Parsed show ?thesis by simp
    qed (use c Some in simp_all)
  qed simp
qed simp

lemma parse_level_fine:
  "shorter_fine tern m \<Longrightarrow> length ts \<le> m \<Longrightarrow> length ts < n \<Longrightarrow> consumes need ts (parse_level src tern n l ts)"
proof (induction "level_rank l" arbitrary: l ts rule: less_induct)
  case less
  define operand where
    "operand = (case tighter l of Some k \<Rightarrow> parse_level src tern n k | None \<Rightarrow> parse_unary src tern n)"
  have operand: "consumes need us (operand us)" if "length us \<le> length ts" for us
  proof (cases "tighter l")
    case None
    with that less.prems show ?thesis by (simp add: operand_def parse_unary_fine [OF less.prems(1)])
  next
    case (Some k)
    then show ?thesis
      using less.hyps [OF tighter_rank [OF Some] less.prems(1)] that less.prems by (simp add: operand_def)
  qed
  have loop: "grows e r (level_loop operand n l e r)" if "length r < length ts" for e r
    using that less.prems by (intro level_loop_fine [where m = "length ts"]) (auto intro: operand)
  show ?case
    unfolding parse_level.simps [of src tern n l ts] Let_def operand_def [symmetric]
    by (rule consumes_grows [OF operand [OF order_refl] loop])
qed

lemma parse_coalesce_fine:
  "shorter_fine tern m \<Longrightarrow> length ts \<le> m \<Longrightarrow> Suc (length ts) < n \<Longrightarrow> consumes need ts (parse_coalesce src tern n ts)"
proof (induction n arbitrary: ts)
  case (Suc n)
  have "consumes need ts (parse_level src tern n LOr ts)"
    using Suc.prems by (intro parse_level_fine [OF Suc.prems(1)]) simp_all
  then show ?case
  proof (simp, rule_tac consumes_bind, assumption)
    fix l r assume r: "need l + weight r \<le> weight ts" "length r < length ts"
    show "consumes need ts
           (if at_kind TCoalesce r then pbind (parse_coalesce src tern n (tl r)) (\<lambda>e r1. Parsed (Coalesce l e) r1)
            else Parsed l r)"
    proof (cases "at_kind TCoalesce r")
      case True
      then have q: "weight (tl r) < weight r" "length (tl r) < length r" using at_kind_uses by blast+
      have "consumes need (tl r) (parse_coalesce src tern n (tl r))" using Suc.prems r q by (intro Suc.IH) linarith+
      with True r q show ?thesis by (auto intro!: consumes_bind)
    qed (use r in simp)
  qed
qed simp

lemma parse_ternary_fine: "length ts + 2 < n \<Longrightarrow> consumes need ts (parse_ternary src n ts)"
proof (induction n arbitrary: ts)
  case (Suc n)
  have tern: "shorter_fine (parse_ternary src n) (length ts)"
    using Suc by (simp add: shorter_fine_def)
  have "consumes need ts (parse_coalesce src (parse_ternary src n) n ts)"
    using Suc.prems by (intro parse_coalesce_fine [OF tern]) simp_all
  then show ?case
  proof (simp add: Let_def, rule_tac consumes_bind, assumption)
    fix c r assume r: "need c + weight r \<le> weight ts" "length r < length ts"
    show "consumes need ts
           (if at_kind TQuestion r then
              pbind (parse_ternary src n (tl r)) (\<lambda>t r1.
                pbind (sel_expect src TColon (quoted '':'' @ '' in ternary'') r1) (\<lambda>_ r2.
                  pbind (parse_ternary src n r2) (\<lambda>e r3. Parsed (Ternary c t e) r3)))
            else Parsed c r)"
    proof (cases "at_kind TQuestion r")
      case True
      then have q: "weight (tl r) < weight r" "length (tl r) < length r" using at_kind_uses by blast+
      have branch: "consumes need us (parse_ternary src n us)" if "length us < length ts" for us
        using that by (rule shorter_fineD [OF tern])
      have "consumes need ts
              (pbind (parse_ternary src n (tl r)) (\<lambda>t r1.
                pbind (sel_expect src TColon (quoted '':'' @ '' in ternary'') r1) (\<lambda>_ r2.
                  pbind (parse_ternary src n r2) (\<lambda>e r3. Parsed (Ternary c t e) r3))))"
        by (rule consumes_bind [OF branch], use q r in linarith, rule expect_bind, simp,
            rule consumes_bind [OF branch], use q r in linarith, use q r in simp)
      with True show ?thesis by simp
    qed (use r in simp)
  qed
qed simp

lemma number_literal_weight: "number_literal ds = Some lit \<Longrightarrow> (case lit of JStr s \<Rightarrow> Suc (length s) | _ \<Rightarrow> 1) = 1"
  by (auto simp: number_literal_def parse_digits_def Let_def split: if_splits dbl.splits strtod.splits)

lemma lex_token_weight: "lex_token src c r = Inr (t, rest) \<Longrightarrow> tok_weight t + length rest \<le> Suc (length r)"
proof -
  assume lex: "lex_token src c r = Inr (t, rest)"
  have shorter: "length rest \<le> length r" by (rule lex_token_length [OF lex])
  show ?thesis
  proof (cases "\<exists>v. tk_literal t = JStr v \<and> string_body c r = Some (v, rest)")
    case True
    then obtain v where v: "tk_literal t = JStr v" "string_body c r = Some (v, rest)" by blast
    from string_body_length [OF v(2)] v(1) show ?thesis by (simp add: tok_weight_def)
  next
    case False
    with lex have "tok_weight t = 1"
      by (auto simp: lex_token_def Let_def tok_weight_def number_literal_weight split: if_splits option.splits prod.splits)
    with shorter show ?thesis by simp
  qed
qed

lemma tokenize_weight: "tokenize src s = Inr ts \<Longrightarrow> weight ts \<le> length s"
proof (induction src s arbitrary: ts rule: tokenize.induct)
  case (1 src s)
  show ?case
  proof (cases "dropWhile is_space s")
    case Nil
    with "1.prems" show ?thesis by (simp add: tokenize.simps [of src s])
  next
    case (Cons c r)
    with "1.prems" obtain t rest us where t: "lex_token src c r = Inr (t, rest)" "tokenize src rest = Inr us" "ts = t # us"
      by (auto simp: tokenize.simps [of src s] split: sum.splits)
    with "1.IH" [OF Cons t(1) refl t(2)] lex_token_weight [OF t(1)] dropWhile_Cons_length [OF Cons]
    show ?thesis by simp
  qed
qed

theorem parse_program_fine:
  "(case parse_program src of Parsed e r \<Rightarrow> r = [] \<and> need e \<le> length src | Refused _ \<Rightarrow> True | NoFuel \<Rightarrow> False)"
proof (cases "tokenize src src")
  case (Inr ts)
  have fine: "consumes need ts (parse_ternary src (length ts + 3) ts)" by (rule parse_ternary_fine) simp
  with tokenize_weight [OF Inr] show ?thesis
    by (cases "parse_ternary src (length ts + 3) ts") (auto simp: parse_program_def Inr sel_bad_def)
qed (simp add: parse_program_def)

lemma compile_need: "compile src = Inr e \<Longrightarrow> need e \<le> length src"
  using parse_program_fine [of src] by (auto simp: compile_def split: pres.splits)

section \<open>The compile cache\<close>

text \<open>\<open>ExpressionCache\<close>, for programs (the one for templates works the same way): the compiled programs by
  source text, emptied when it has reached its limit.\<close>

type_synonym 'v cache = "(string \<times> 'v) list"

definition cache_soft_limit :: nat where
  "cache_soft_limit = 4096"

definition cache_get :: "(string \<Rightarrow> 'v res) \<Rightarrow> string \<Rightarrow> 'v cache \<Rightarrow> 'v res \<times> 'v cache" where
  "cache_get build src c =
     (case map_of c src of
        Some v \<Rightarrow> (Inr v, c)
      | None \<Rightarrow>
          (case build src of
             Inl e \<Rightarrow> (Inl e, c)
           | Inr v \<Rightarrow> (Inr v, obj_set src v (if cache_soft_limit \<le> length c then [] else c))))"

definition get_or_compile :: "string \<Rightarrow> sel cache \<Rightarrow> sel res \<times> sel cache" where
  "get_or_compile = cache_get compile"

definition cache_sound :: "(string \<Rightarrow> 'v res) \<Rightarrow> 'v cache \<Rightarrow> bool" where
  "cache_sound build c \<longleftrightarrow> length c \<le> cache_soft_limit \<and> (\<forall>src v. map_of c src = Some v \<longrightarrow> build src = Inr v)"

lemma length_obj_set: "length (obj_set k v ob) \<le> Suc (length ob)"
  by (induction ob) auto

lemma cache_get_sound:
  assumes "cache_sound build c"
  shows "fst (cache_get build src c) = build src" and "cache_sound build (snd (cache_get build src c))"
proof -
  show "fst (cache_get build src c) = build src"
    using assms by (auto simp: cache_get_def cache_sound_def split: option.splits sum.splits)
  have grow: "length (obj_set src v c) \<le> cache_soft_limit" if "length c < cache_soft_limit" for v
    using length_obj_set [of src v c] that by simp
  show "cache_sound build (snd (cache_get build src c))"
    using assms grow
    by (auto simp: cache_get_def cache_sound_def not_le cache_soft_limit_def split: option.splits sum.splits if_splits)
qed

lemma cache_history_sound: "cache_sound build c \<Longrightarrow> cache_sound build (foldl (\<lambda>c t. snd (cache_get build t c)) c texts)"
  by (induction texts arbitrary: c) (simp_all add: cache_get_sound)

section \<open>Properties\<close>

text \<open>
  Whatever texts were asked for before, the cache answers what compiling the text gives, errors included, and it
  never holds more than its limit.
\<close>

theorem cache_answers_as_compile:
  "fst (get_or_compile src (foldl (\<lambda>c t. snd (get_or_compile t c)) [] texts)) = compile src \<and>
   length (foldl (\<lambda>c t. snd (get_or_compile t c)) [] texts) \<le> cache_soft_limit"
proof -
  have "cache_sound compile []" by (simp add: cache_sound_def)
  then have "cache_sound compile (foldl (\<lambda>c t. snd (get_or_compile t c)) [] texts)"
    unfolding get_or_compile_def by (rule cache_history_sound)
  then show ?thesis
    by (simp add: get_or_compile_def cache_get_sound(1)) (simp add: cache_sound_def)
qed

end
