(* ===== verification/Sapo_Iso.thy ===== *)
theory Sapo_Iso
  imports Sapo_Time Sapo_Value
begin

text \<open>
  \<open>parseIso8601\<close> and \<open>formatIso8601\<close> of \<open>src/src/util/TimeUtils.cpp\<close>, with the conversions of
  \<open>std::sscanf\<close> they use: \<open>%d\<close>, \<open>%lf\<close>, \<open>%63s\<close> and the literal characters of the format.
\<close>

section \<open>\<open>sscanf\<close>\<close>

definition scan_int :: "string \<Rightarrow> (int \<times> string) option" where
  "scan_int s =
     (let t = dropWhile is_space s; signed = (t \<noteq> [] \<and> hd t \<in> {CHR ''+'', CHR ''-''});
          u = (if signed then tl t else t); ds = takeWhile is_digit u; v = int (digits_val ds)
      in if ds = [] then None
         else Some (as_int32 (if signed \<and> hd t = CHR ''-'' then - v else v), dropWhile is_digit u))"

definition scan_double :: "string \<Rightarrow> (dbl \<times> string) option" where
  "scan_double s = (case stod s of Number x n \<Rightarrow> Some (x, drop n s) | _ \<Rightarrow> None)"

text \<open>A white-space character of the format matches any white space, also none.\<close>

definition scan_char :: "char \<Rightarrow> string \<Rightarrow> string option" where
  "scan_char c s =
     (if is_space c then Some (dropWhile is_space s)
      else if s \<noteq> [] \<and> hd s = c then Some (tl s) else None)"

record iso_scan =
  is_matched :: nat
  is_year :: int
  is_month :: int
  is_day :: int
  is_hour :: int
  is_minute :: int
  is_second :: dbl
  is_tail :: string

definition iso_start :: iso_scan where
  "iso_start =
     \<lparr>is_matched = 0, is_year = 1970, is_month = 1, is_day = 1, is_hour = 0, is_minute = 0, is_second = DFin 0,
      is_tail = []\<rparr>"

text \<open>A conversion after a literal character; when either fails the scan ends with what it has.\<close>

definition scan_step ::
  "char option \<Rightarrow> (string \<Rightarrow> ('a \<times> string) option) \<Rightarrow> ('a \<Rightarrow> iso_scan \<Rightarrow> iso_scan) \<Rightarrow>
   (iso_scan \<Rightarrow> string \<Rightarrow> iso_scan) \<Rightarrow> iso_scan \<Rightarrow> string \<Rightarrow> iso_scan" where
  "scan_step sep conv put next x s =
     (case (case sep of None \<Rightarrow> Some s | Some c \<Rightarrow> scan_char c s) of
        None \<Rightarrow> x
      | Some t \<Rightarrow> (case conv t of None \<Rightarrow> x
                   | Some (v, r) \<Rightarrow> next (put v (x\<lparr>is_matched := Suc (is_matched x)\<rparr>)) r))"

definition scan_word :: "string \<Rightarrow> (string \<times> string) option" where
  "scan_word s =
     (let t = dropWhile is_space s; w = take 63 (takeWhile (\<lambda>c. \<not> is_space c) t)
      in if w = [] then None else Some (w, drop (length w) t))"

definition scan_iso :: "char \<Rightarrow> string \<Rightarrow> iso_scan" where
  "scan_iso sep s =
     scan_step None scan_int (\<lambda>v x. x\<lparr>is_year := v\<rparr>)
       (scan_step (Some (CHR ''-'')) scan_int (\<lambda>v x. x\<lparr>is_month := v\<rparr>)
         (scan_step (Some (CHR ''-'')) scan_int (\<lambda>v x. x\<lparr>is_day := v\<rparr>)
           (scan_step (Some sep) scan_int (\<lambda>v x. x\<lparr>is_hour := v\<rparr>)
             (scan_step (Some (CHR '':'')) scan_int (\<lambda>v x. x\<lparr>is_minute := v\<rparr>)
               (scan_step (Some (CHR '':'')) scan_double (\<lambda>v x. x\<lparr>is_second := v\<rparr>)
                 (scan_step None scan_word (\<lambda>v x. x\<lparr>is_tail := v\<rparr>) (\<lambda>x r. x))))))) iso_start s"

section \<open>Instants\<close>

text \<open>\<open>timegm\<close> on fields out of their ranges: months carry into years, the rest is linear.\<close>

definition timegm_fields :: "int \<Rightarrow> int \<Rightarrow> int \<Rightarrow> int \<Rightarrow> int \<Rightarrow> int \<Rightarrow> int" where
  "timegm_fields y m d h mi s =
     (days_of_civil (y + (m - 1) div 12) ((m - 1) mod 12 + 1) 1 + (d - 1)) * 86400 + h * 3600 + mi * 60 + s"

definition iso_zone :: "string \<Rightarrow> int option" where
  "iso_zone tail =
     (let zone = lower (trim tail)
      in if zone = [] then Some 0
         else if zone = ''z'' then Some 0
         else if 5 \<le> length zone \<and> hd zone \<in> {CHR ''+'', CHR ''-''} then
           let zh = atoi (take 2 (drop 1 zone));
               zm = (if 6 \<le> length zone \<and> zone ! 3 = CHR '':'' then atoi (take 2 (drop 4 zone))
                     else atoi (take 2 (drop 3 zone)))
           in Some ((if hd zone = CHR ''-'' then - 1 else 1) * (zh * 3600 + zm * 60))
         else None)"

definition parse_iso8601 :: "string \<Rightarrow> int option" where
  "parse_iso8601 raw =
     (let text = trim raw; first = scan_iso (CHR ''T'') text;
          scan = (if is_matched first < 3 then scan_iso (CHR '' '') text else first)
      in if is_matched scan < 3 then None
         else
           let x = (if is_matched scan = 3 then scan\<lparr>is_hour := 0, is_minute := 0, is_second := DFin 0\<rparr> else scan)
           in case iso_zone (is_tail x) of None \<Rightarrow> None
              | Some offset \<Rightarrow>
                  let second = is_second x;
                      epoch = timegm_fields (is_year x) (is_month x) (is_day x) (is_hour x) (is_minute x)
                                (dbl_to_int 32 second);
                      fraction = dbl_to_int 64 (dbl_mul (dbl_sub second (dbl_floor second)) (DFin 1000))
                  in if epoch = - 1 then None else Some (epoch * 1000 + fraction - offset * 1000))"

text \<open>\<open>%Y-%m-%dT%H:%M:%S\<close>, a point, the milliseconds in a field of three, \<open>Z\<close>.\<close>

definition pad_left :: "nat \<Rightarrow> string \<Rightarrow> string" where
  "pad_left n s = replicate (n - length s) (CHR ''0'') @ s"

definition trunc_mod :: "int \<Rightarrow> int \<Rightarrow> int" where
  "trunc_mod a b = a - trunc_div a b * b"

definition iso_seconds :: "int \<Rightarrow> string" where
  "iso_seconds t =
     (let b = gmtime t
      in int_str (bd_year b) @ ''-'' @ pad2 (nat (bd_month b)) @ ''-'' @ pad2 (nat (bd_day b)) @ ''T''
           @ pad2 (nat (bd_hour b)) @ '':'' @ pad2 (nat (bd_minute b)) @ '':'' @ pad2 (nat (bd_second b)))"

definition format_iso8601 :: "int \<Rightarrow> string" where
  "format_iso8601 epoch_ms =
     iso_seconds (trunc_div epoch_ms 1000) @ ''.'' @ pad_left 3 (int_str (trunc_mod epoch_ms 1000)) @ ''Z''"

section \<open>Properties\<close>

text \<open>
  A date and a time separated by a blank: the scan with the separator \<open>T\<close> already has the date, so the
  second scan is not tried and the time of day is dropped.
\<close>

theorem iso_blank_drops_time:
  "parse_iso8601 ''2024-01-05 10:30:00'' = parse_iso8601 ''2024-01-05''"
  by code_simp

end
