(* ===== verification/Sapo_SelLib.thy ===== *)
theory Sapo_SelLib
  imports Sapo_SelSyntax Sapo_Iso Sapo_JsonPath Sapo_Crypto "HOL-Library.Multiset"
begin

text \<open>
  The function library of the expression language (\<open>functionTable\<close> in
  \<open>src/src/runtime/expressions/Sel.cpp\<close>).  A function gets its arguments unevaluated and evaluates the ones it
  needs, in its own order: an argument is here the pair of the computations the library makes of it, its evaluation
  and its use as a predicate.  A computation threads the local variables of the iterators and a counter that tells
  the readings of the clock and of the random source apart.

  Where C++ leaves the order of evaluation open (the arguments of one call) the model goes from left to right.
\<close>

section \<open>Host and computations\<close>

text \<open>What is not the engine's code: the document printer and parser, regular expressions, clock, random source,
  \<open>strftime\<close>, \<open>pow\<close> and \<open>sqrt\<close>; \<open>ho_resolve\<close> is the resolver of the evaluation.\<close>

record sel_host =
  ho_resolve :: "string \<Rightarrow> json option"
  ho_dump :: "json \<Rightarrow> string"
  ho_parse :: "string \<Rightarrow> json option"
  ho_search :: "string \<Rightarrow> string \<Rightarrow> string + bool"
  ho_match :: "string \<Rightarrow> string \<Rightarrow> string + bool"
  ho_clock :: "nat \<Rightarrow> int"
  ho_bytes :: "nat \<Rightarrow> nat \<Rightarrow> bytes"
  ho_digits :: "nat \<Rightarrow> nat \<Rightarrow> nat list"
  ho_integer :: "nat \<Rightarrow> int \<Rightarrow> int \<Rightarrow> int"
  ho_strftime :: "string \<Rightarrow> broken_down \<Rightarrow> string"
  ho_pow :: "dbl \<Rightarrow> dbl \<Rightarrow> dbl"
  ho_sqrt :: "dbl \<Rightarrow> dbl"

record sel_state =
  ss_locals :: "(string \<times> json) list"
  ss_draws :: nat

text \<open>A value, a \<open>SapoError\<close>, another exception, or the end of the fuel.\<close>

datatype 'a ev = Val 'a | Thr sapo_error | Crash | Deep

type_synonym 'a comp = "sel_state \<Rightarrow> 'a ev \<times> sel_state"

definition ret :: "'a \<Rightarrow> 'a comp" where
  "ret x = (\<lambda>s. (Val x, s))"

definition sthrow :: "sapo_error \<Rightarrow> 'a comp" where
  "sthrow e = (\<lambda>s. (Thr e, s))"

definition sbind :: "'a comp \<Rightarrow> ('a \<Rightarrow> 'b comp) \<Rightarrow> 'b comp" where
  "sbind m f = (\<lambda>s. case m s of (Val x, s') \<Rightarrow> f x s' | (Thr e, s') \<Rightarrow> (Thr e, s') | (Crash, s') \<Rightarrow> (Crash, s')
                    | (Deep, s') \<Rightarrow> (Deep, s'))"

definition invalid :: "string \<Rightarrow> 'a comp" where
  "invalid message = sthrow (sapo_error Validation message JNull [])"

text \<open>A step that reads the clock or the random source.\<close>

definition draw :: "(nat \<Rightarrow> 'a) \<Rightarrow> 'a comp" where
  "draw f = (\<lambda>s. (Val (f (ss_draws s)), s\<lparr>ss_draws := Suc (ss_draws s)\<rparr>))"

text \<open>\<open>EvalState relaxed = state\<close>: a copy, whose locals are dropped at the end.\<close>

definition on_copy :: "'a comp \<Rightarrow> 'a comp" where
  "on_copy m = (\<lambda>s. case m s of (r, s') \<Rightarrow> (r, s'\<lparr>ss_locals := ss_locals s\<rparr>))"

text \<open>\<open>LocalScope\<close> with the two variables of the iterators; its destructor erases them, on every way out.\<close>

definition erase_iterators :: "(string \<times> json) list \<Rightarrow> (string \<times> json) list" where
  "erase_iterators locals = obj_erase ''index'' (obj_erase ''item'' locals)"

definition in_scope :: "json \<Rightarrow> nat \<Rightarrow> 'a comp \<Rightarrow> 'a comp" where
  "in_scope item position m =
     (\<lambda>s. case m (s\<lparr>ss_locals := obj_set ''index'' (JInt (int position)) (obj_set ''item'' item (ss_locals s))\<rparr>) of
            (r, s') \<Rightarrow> (r, s'\<lparr>ss_locals := erase_iterators (ss_locals s')\<rparr>))"

fun in_sequence :: "'a comp list \<Rightarrow> 'a list comp" where
  "in_sequence [] = ret []"
| "in_sequence (m # ms) = sbind m (\<lambda>x. sbind (in_sequence ms) (\<lambda>xs. ret (x # xs)))"

section \<open>Arguments\<close>

text \<open>An argument: evaluated, strictly or not, and as a predicate.\<close>

record sel_arg =
  ar_eval :: "bool \<Rightarrow> json comp"
  ar_predicate :: "bool \<Rightarrow> json comp"

definition eval_arg :: "bool \<Rightarrow> sel_arg list \<Rightarrow> nat \<Rightarrow> json comp" where
  "eval_arg strict a i = (if i < length a then ar_eval (a ! i) strict else ret JNull)"

definition eval_predicate_arg :: "bool \<Rightarrow> sel_arg list \<Rightarrow> nat \<Rightarrow> json comp" where
  "eval_predicate_arg strict a i = (if i < length a then ar_predicate (a ! i) strict else ret JNull)"

definition arity_message :: "string \<Rightarrow> nat \<Rightarrow> nat \<Rightarrow> string" where
  "arity_message name needed got =
     ''function '' @ quoted (name @ ''()'') @ '' expects at least '' @ nat_digits needed @ '' argument(s), got ''
       @ nat_digits got"

definition arity_at_least :: "sel_arg list \<Rightarrow> nat \<Rightarrow> string \<Rightarrow> json comp \<Rightarrow> json comp" where
  "arity_at_least a needed name m =
     (if length a < needed then invalid (arity_message name needed (length a)) else m)"

definition array_value :: "json \<Rightarrow> json list" where
  "array_value v = (case v of JArr xs \<Rightarrow> xs | JNull \<Rightarrow> [] | _ \<Rightarrow> [v])"

definition array_arg :: "bool \<Rightarrow> sel_arg list \<Rightarrow> nat \<Rightarrow> json list comp" where
  "array_arg strict a i = sbind (eval_arg strict a i) (\<lambda>v. ret (array_value v))"

definition number_message :: "sel_host \<Rightarrow> json \<Rightarrow> string \<Rightarrow> string" where
  "number_message h v what =
     ''expected a number for '' @ what @ '', got '' @ type_name v @ '' '' @ quoted (str_value (ho_dump h) v)"

definition require_number :: "sel_host \<Rightarrow> json \<Rightarrow> string \<Rightarrow> dbl comp" where
  "require_number h v what =
     (case to_number v of Some x \<Rightarrow> ret x | None \<Rightarrow> invalid (number_message h v what))"

definition number_arg :: "sel_host \<Rightarrow> bool \<Rightarrow> sel_arg list \<Rightarrow> nat \<Rightarrow> string \<Rightarrow> dbl comp" where
  "number_arg h strict a i what = sbind (eval_arg strict a i) (\<lambda>v. require_number h v what)"

definition text_arg :: "sel_host \<Rightarrow> bool \<Rightarrow> sel_arg list \<Rightarrow> nat \<Rightarrow> string comp" where
  "text_arg h strict a i = sbind (eval_arg strict a i) (\<lambda>v. ret (str_value (ho_dump h) v))"

definition predicate_at :: "bool \<Rightarrow> sel_arg list \<Rightarrow> json \<times> nat \<Rightarrow> json comp" where
  "predicate_at strict a ip = in_scope (fst ip) (snd ip) (eval_predicate_arg strict a 1)"

definition predicate_true :: "bool \<Rightarrow> sel_arg list \<Rightarrow> json \<times> nat \<Rightarrow> bool comp" where
  "predicate_true strict a ip = sbind (predicate_at strict a ip) (\<lambda>v. ret (truthy v))"

definition positions :: "json list \<Rightarrow> (json \<times> nat) list" where
  "positions xs = zip xs [0..<length xs]"

type_synonym sel_fun = "sel_host \<Rightarrow> bool \<Rightarrow> sel_arg list \<Rightarrow> json comp"

section \<open>Texts and collections\<close>

fun length_value :: "json \<Rightarrow> int" where
  "length_value (JStr s) = int (length s)"
| "length_value (JArr xs) = int (length xs)"
| "length_value (JObj ob) = int (length ob)"
| "length_value JNull = 0"
| "length_value _ = 1"

definition f_len :: sel_fun where
  "f_len h strict a = sbind (eval_arg strict a 0) (\<lambda>v. ret (JInt (length_value v)))"

definition text_fun :: "(string \<Rightarrow> json) \<Rightarrow> sel_fun" where
  "text_fun f h strict a = sbind (text_arg h strict a 0) (\<lambda>t. ret (f t))"

definition f_upper :: sel_fun where
  "f_upper = text_fun (\<lambda>t. JStr (map to_upper t))"

definition f_lower :: sel_fun where
  "f_lower = text_fun (\<lambda>t. JStr (map to_lower t))"

definition f_trim :: sel_fun where
  "f_trim = text_fun (\<lambda>t. JStr (trim t))"

definition text_fun2 :: "(string \<Rightarrow> string \<Rightarrow> json) \<Rightarrow> sel_fun" where
  "text_fun2 f h strict a = sbind (text_arg h strict a 0) (\<lambda>t. sbind (text_arg h strict a 1) (\<lambda>u. ret (f t u)))"

definition f_starts_with :: sel_fun where
  "f_starts_with = text_fun2 (\<lambda>t p. JBool (starts_with p t))"

definition f_ends_with :: sel_fun where
  "f_ends_with = text_fun2 (\<lambda>t p. JBool (length p \<le> length t \<and> drop (length t - length p) t = p))"

definition contains_value :: "(json \<Rightarrow> string) \<Rightarrow> json \<Rightarrow> json \<Rightarrow> bool" where
  "contains_value dump haystack needle =
     (case haystack of
        JArr xs \<Rightarrow> list_ex (\<lambda>x. equals dump x needle) xs
      | JObj ob \<Rightarrow> (case needle of JStr k \<Rightarrow> map_of ob k \<noteq> None | _ \<Rightarrow> False)
      | _ \<Rightarrow> find_sub (str_value dump needle) (str_value dump haystack) \<noteq> None)"

definition f_contains :: sel_fun where
  "f_contains h strict a =
     arity_at_least a 2 ''contains'' (sbind (eval_arg strict a 0) (\<lambda>x. sbind (eval_arg strict a 1) (\<lambda>y.
       ret (JBool (contains_value (ho_dump h) x y)))))"

definition f_index_of :: sel_fun where
  "f_index_of = text_fun2 (\<lambda>t n. JInt (case find_sub n t of Some i \<Rightarrow> int i | None \<Rightarrow> - 1))"

definition substring :: "string \<Rightarrow> int \<Rightarrow> int \<Rightarrow> string" where
  "substring t start amount =
     (if start < 0 \<or> int (length t) < start then []
      else take (nat (min amount (int (length t) - start))) (drop (nat start) t))"

definition f_substring :: sel_fun where
  "f_substring h strict a =
     sbind (text_arg h strict a 0) (\<lambda>t.
     sbind (number_arg h strict a 1 ''start'') (\<lambda>x.
     sbind (if 2 < length a then sbind (number_arg h strict a 2 ''length'') (\<lambda>y. ret (dbl_to_int 64 y))
            else ret (int (length t))) (\<lambda>amount.
       ret (JStr (substring t (dbl_to_int 64 x) amount)))))"

text \<open>Every occurrence from left to right; the search goes on behind the inserted text.\<close>

function replace_all :: "string \<Rightarrow> string \<Rightarrow> string \<Rightarrow> string" where
  "replace_all old new s =
     (if old = [] then s
      else case find_sub old s of None \<Rightarrow> s
           | Some i \<Rightarrow> if s = [] then [] else take i s @ new @ replace_all old new (drop (i + length old) s))"
  by pat_completeness auto
termination replace_all
  by (relation "measure (\<lambda>(old, new, s). length s)") auto

declare replace_all.simps [simp del]

definition f_replace :: sel_fun where
  "f_replace h strict a =
     sbind (text_arg h strict a 0) (\<lambda>t. sbind (text_arg h strict a 1) (\<lambda>old. sbind (text_arg h strict a 2) (\<lambda>new.
       ret (JStr (replace_all old new t)))))"

function split_text :: "string \<Rightarrow> string \<Rightarrow> string list" where
  "split_text sep s =
     (case find_sub sep s of None \<Rightarrow> [s]
      | Some i \<Rightarrow> if sep = [] \<or> s = [] then [s] else take i s # split_text sep (drop (i + length sep) s))"
  by pat_completeness auto
termination split_text
  by (relation "measure (\<lambda>(sep, s). length s)") auto

declare split_text.simps [simp del]

text \<open>The separator of \<open>split\<close> and \<open>join\<close> is a comma when it is not given.\<close>

definition separator_arg :: "sel_host \<Rightarrow> bool \<Rightarrow> sel_arg list \<Rightarrow> string comp" where
  "separator_arg h strict a = (if 1 < length a then text_arg h strict a 1 else ret '','')"

definition f_split :: sel_fun where
  "f_split h strict a =
     sbind (text_arg h strict a 0) (\<lambda>t. sbind (separator_arg h strict a) (\<lambda>sep.
       ret (JArr (map JStr (if sep = [] then map (\<lambda>c. [c]) t else split_text sep t)))))"

fun join_texts :: "string \<Rightarrow> string list \<Rightarrow> string" where
  "join_texts sep [] = []"
| "join_texts sep [t] = t"
| "join_texts sep (t # ts) = t @ sep @ join_texts sep ts"

definition f_join :: sel_fun where
  "f_join h strict a =
     sbind (array_arg strict a 0) (\<lambda>xs. sbind (separator_arg h strict a) (\<lambda>sep.
       ret (JStr (join_texts sep (map (str_value (ho_dump h)) xs)))))"

text \<open>\<open>concat\<close>: an array met while the result is still empty is printed in a second pair of brackets.\<close>

fun concat_values :: "(json \<Rightarrow> string) \<Rightarrow> string \<Rightarrow> json list \<Rightarrow> string" where
  "concat_values dump out [] = out"
| "concat_values dump out (v # vs) =
     concat_values dump (if is_array v \<and> out = [] then ''['' @ dump v @ '']'' else out @ str_value dump v) vs"

definition all_args :: "bool \<Rightarrow> sel_arg list \<Rightarrow> json list comp" where
  "all_args strict a = in_sequence (map (\<lambda>x. ar_eval x strict) a)"

definition f_concat :: sel_fun where
  "f_concat h strict a = sbind (all_args strict a) (\<lambda>vs. ret (JStr (concat_values (ho_dump h) [] vs)))"

definition f_keys :: sel_fun where
  "f_keys h strict a = sbind (eval_arg strict a 0) (\<lambda>v. ret (JArr (map (\<lambda>p. JStr (fst p)) (jentries v))))"

definition f_values :: sel_fun where
  "f_values h strict a = sbind (eval_arg strict a 0) (\<lambda>v.
     ret (case v of JObj ob \<Rightarrow> JArr (map snd ob) | JArr xs \<Rightarrow> JArr xs | _ \<Rightarrow> JArr []))"

definition f_has :: sel_fun where
  "f_has h strict a =
     arity_at_least a 2 ''has'' (sbind (eval_arg strict a 0) (\<lambda>v. sbind (text_arg h strict a 1) (\<lambda>p.
       ret (JBool (get_path v p \<noteq> None)))))"

definition f_get :: sel_fun where
  "f_get h strict a =
     arity_at_least a 2 ''get'' (sbind (eval_arg strict a 0) (\<lambda>v. sbind (text_arg h strict a 1) (\<lambda>p.
       case get_path v p of
         Some x \<Rightarrow> (if is_null x then eval_arg strict a 2 else ret x)
       | None \<Rightarrow> eval_arg strict a 2)))"

section \<open>Types and conversions\<close>

definition value_fun :: "(json \<Rightarrow> json) \<Rightarrow> sel_fun" where
  "value_fun f h strict a = sbind (eval_arg strict a 0) (\<lambda>v. ret (f v))"

definition f_type :: sel_fun where
  "f_type = value_fun (\<lambda>v. JStr (type_name v))"

definition f_is_number :: sel_fun where
  "f_is_number = value_fun (\<lambda>v. JBool (to_number v \<noteq> None))"

definition decimal_text :: "string \<Rightarrow> bool" where
  "decimal_text t \<longleftrightarrow>
     CHR ''.'' \<in> set t \<and> (case stod t of Number x n \<Rightarrow> n = length t \<and> dbl_finite x | _ \<Rightarrow> False)"

definition f_is_decimal :: sel_fun where
  "f_is_decimal = value_fun (\<lambda>v. JBool (case v of JFloat _ \<Rightarrow> True | JStr t \<Rightarrow> decimal_text t | _ \<Rightarrow> False))"

definition f_is_integer :: sel_fun where
  "f_is_integer = value_fun (\<lambda>v. JBool (is_integer_value v))"

definition f_is_string :: sel_fun where
  "f_is_string = value_fun (\<lambda>v. JBool (is_string v))"

definition f_is_bool :: sel_fun where
  "f_is_bool = value_fun (\<lambda>v. JBool (is_boolean v))"

definition f_is_null :: sel_fun where
  "f_is_null = value_fun (\<lambda>v. JBool (is_null v))"

definition f_is_empty :: sel_fun where
  "f_is_empty = value_fun (\<lambda>v. JBool (case v of JNull \<Rightarrow> True | JStr s \<Rightarrow> s = [] | JArr xs \<Rightarrow> xs = []
                                       | JObj ob \<Rightarrow> ob = [] | _ \<Rightarrow> False))"

definition f_is_array :: sel_fun where
  "f_is_array = value_fun (\<lambda>v. JBool (is_array v))"

definition f_is_object :: sel_fun where
  "f_is_object = value_fun (\<lambda>v. JBool (is_object v))"

definition f_to_string :: sel_fun where
  "f_to_string = text_fun JStr"

text \<open>A conversion: a value that is not a number gives the second argument, or an error naming the function.\<close>

definition conversion :: "string \<Rightarrow> (dbl \<Rightarrow> json) \<Rightarrow> sel_fun" where
  "conversion name f h strict a =
     sbind (eval_arg strict a 0) (\<lambda>v.
       case to_number v of
         Some x \<Rightarrow> ret (f x)
       | None \<Rightarrow>
           if 1 < length a then eval_arg strict a 1
           else invalid (name @ '' cannot convert '' @ quoted (str_value (ho_dump h) v)))"

definition f_to_number :: sel_fun where
  "f_to_number =
     conversion ''to_number()'' (\<lambda>x. if integral_dbl x \<and> dbl_lt (dbl_abs x) (DFin 9000000000000000)
                                  then JInt (dbl_to_int 64 x) else JFloat (tidy x))"

definition f_to_int :: sel_fun where
  "f_to_int = conversion ''to_int()'' (\<lambda>x. JInt (dbl_to_int 64 (dbl_round x)))"

definition f_to_bool :: sel_fun where
  "f_to_bool = value_fun (\<lambda>v. JBool (truthy v))"

definition f_to_json :: sel_fun where
  "f_to_json h strict a = sbind (eval_arg strict a 0) (\<lambda>v. ret (JStr (ho_dump h v)))"

definition f_from_json :: sel_fun where
  "f_from_json h strict a =
     sbind (text_arg h strict a 0) (\<lambda>t.
       case ho_parse h t of
         Some v \<Rightarrow> ret v
       | None \<Rightarrow> if 1 < length a then eval_arg strict a 1 else invalid ''from_json() received invalid JSON'')"

section \<open>Arithmetic\<close>

definition number_fun :: "string \<Rightarrow> (dbl \<Rightarrow> json) \<Rightarrow> sel_fun" where
  "number_fun what f h strict a = sbind (number_arg h strict a 0 what) (\<lambda>x. ret (f x))"

definition f_abs :: sel_fun where
  "f_abs = number_fun ''abs()'' (\<lambda>x. JFloat (dbl_abs x))"

definition f_floor :: sel_fun where
  "f_floor = number_fun ''floor()'' (\<lambda>x. JInt (dbl_to_int 64 (dbl_floor x)))"

definition f_ceil :: sel_fun where
  "f_ceil = number_fun ''ceil()'' (\<lambda>x. JInt (dbl_to_int 64 (dbl_ceil x)))"

definition f_round :: sel_fun where
  "f_round h strict a =
     sbind (number_arg h strict a 0 ''round()'') (\<lambda>value.
     sbind (if 1 < length a then sbind (number_arg h strict a 1 ''digits'') (\<lambda>d. ret (dbl_to_int 32 d)) else ret 0) (\<lambda>digits.
       let factor = ho_pow h (DFin 10) (dbl_of_int digits);
           rounded = dbl_div (dbl_round (dbl_mul value factor)) factor
       in ret (if digits \<le> 0 then JInt (dbl_to_int 64 rounded) else JFloat rounded)))"

definition dbl_largest :: dbl where
  "dbl_largest = DFin (of_int ((2 ^ 53 - 1) * 2 ^ 971))"

definition take_min :: "dbl \<Rightarrow> dbl \<Rightarrow> dbl" where
  "take_min best x = (if dbl_lt x best then x else best)"

definition take_max :: "dbl \<Rightarrow> dbl \<Rightarrow> dbl" where
  "take_max best x = (if dbl_lt best x then x else best)"

fun fold_numbers :: "(dbl \<Rightarrow> dbl \<Rightarrow> dbl) \<Rightarrow> dbl \<Rightarrow> dbl comp list \<Rightarrow> dbl comp" where
  "fold_numbers f best [] = ret best"
| "fold_numbers f best (m # ms) = sbind m (\<lambda>x. fold_numbers f (f best x) ms)"

text \<open>\<open>min\<close> and \<open>max\<close>: of the elements of one array, or of the arguments (a single argument that is no
  array is evaluated twice).\<close>

definition extremum :: "string \<Rightarrow> (dbl \<Rightarrow> dbl \<Rightarrow> dbl) \<Rightarrow> dbl \<Rightarrow> sel_fun" where
  "extremum what f start h strict a =
     (let of_args = sbind (fold_numbers f start (map (\<lambda>x. sbind (ar_eval x strict) (\<lambda>v. require_number h v what)) a))
                      (\<lambda>x. ret (JFloat x))
      in if a = [] then ret JNull
         else if length a = 1 then
           sbind (eval_arg strict a 0) (\<lambda>v.
             case v of
               JArr xs \<Rightarrow> sbind (fold_numbers f start (map (\<lambda>x. require_number h x what) xs)) (\<lambda>x. ret (JFloat x))
             | _ \<Rightarrow> of_args)
         else of_args)"

definition f_min :: sel_fun where
  "f_min = extremum ''min()'' take_min dbl_largest"

definition f_max :: sel_fun where
  "f_max = extremum ''max()'' take_max (dbl_neg dbl_largest)"

definition sum_numbers :: "json list \<Rightarrow> dbl" where
  "sum_numbers xs = foldl (\<lambda>t v. case to_number v of Some x \<Rightarrow> dbl_add t x | None \<Rightarrow> t) (DFin 0) xs"

definition f_sum :: sel_fun where
  "f_sum h strict a =
     sbind (eval_arg strict a 0) (\<lambda>v.
       case v of
         JArr xs \<Rightarrow>
           if 1 < length a then
             sbind (fold_numbers dbl_add (DFin 0)
                      (map (\<lambda>ip. in_scope (fst ip) (snd ip)
                                  (sbind (eval_predicate_arg strict a 1) (\<lambda>p. require_number h p ''sum()''))) (positions xs)))
               (\<lambda>t. ret (JFloat t))
           else ret (JFloat (tidy (sum_numbers xs)))
       | _ \<Rightarrow> ret (JFloat (tidy (DFin 0))))"

definition counted_numbers :: "json list \<Rightarrow> json list" where
  "counted_numbers xs = filter (\<lambda>v. is_number v \<or> is_string v) xs"

definition f_avg :: sel_fun where
  "f_avg h strict a =
     sbind (array_arg strict a 0) (\<lambda>xs.
       if xs = [] then ret (JFloat (DFin 0))
       else let counted = counted_numbers xs
            in sbind (fold_numbers dbl_add (DFin 0) (map (\<lambda>x. require_number h x ''avg()'') counted)) (\<lambda>t.
                 ret (JFloat (if counted = [] then DFin 0 else tidy (dbl_div t (dbl_of_int (int (length counted))))))))"

definition f_pow :: sel_fun where
  "f_pow h strict a =
     sbind (number_arg h strict a 0 ''pow() base'') (\<lambda>x. sbind (number_arg h strict a 1 ''pow() exponent'') (\<lambda>y.
       ret (JFloat (ho_pow h x y))))"

definition f_sqrt :: sel_fun where
  "f_sqrt h strict a = sbind (number_arg h strict a 0 ''sqrt()'') (\<lambda>x. ret (JFloat (ho_sqrt h x)))"

definition f_mod :: sel_fun where
  "f_mod h strict a =
     sbind (number_arg h strict a 1 ''mod()'') (\<lambda>d.
       if dbl_zero d then invalid ''mod() by zero''
       else sbind (number_arg h strict a 0 ''mod()'') (\<lambda>x. ret (JFloat (dbl_fmod x d))))"

section \<open>Choices\<close>

text \<open>The first argument that is neither null nor the empty text, all of them evaluated leniently on one copy.\<close>

fun first_present :: "json comp list \<Rightarrow> json comp" where
  "first_present [] = ret JNull"
| "first_present (m # ms) = sbind m (\<lambda>v. if v \<noteq> JNull \<and> v \<noteq> JStr [] then ret v else first_present ms)"

definition f_coalesce :: sel_fun where
  "f_coalesce h strict a = on_copy (first_present (map (\<lambda>x. ar_eval x False) a))"

definition f_default :: sel_fun where
  "f_default h strict a =
     arity_at_least a 2 ''default'' (sbind (on_copy (eval_arg False a 0)) (\<lambda>v.
       if v = JNull then eval_arg strict a 1 else ret v))"

definition f_if :: sel_fun where
  "f_if h strict a =
     arity_at_least a 2 ''if'' (sbind (eval_arg strict a 0) (\<lambda>c.
       if truthy c then eval_arg strict a 1 else if 2 < length a then eval_arg strict a 2 else ret JNull))"

section \<open>Time\<close>

definition f_now :: sel_fun where
  "f_now h strict a =
     (let iso = draw (\<lambda>k. JStr (format_iso8601 (ho_clock h k)))
      in if a = [] then iso
         else sbind (text_arg h strict a 0) (\<lambda>u.
                sbind (draw (ho_clock h)) (\<lambda>ms.
                  if u = ''ms'' \<or> u = ''millis'' then ret (JInt ms)
                  else if u = ''s'' \<or> u = ''seconds'' then ret (JInt (trunc_div ms 1000))
                  else iso)))"

definition cannot_parse :: "sel_host \<Rightarrow> string \<Rightarrow> json \<Rightarrow> 'a comp" where
  "cannot_parse h name v = invalid (name @ '' cannot parse '' @ quoted (str_value (ho_dump h) v))"

definition f_timestamp :: sel_fun where
  "f_timestamp h strict a =
     (if a = [] then draw (\<lambda>k. JInt (trunc_div (ho_clock h k) 1000))
      else sbind (eval_arg strict a 0) (\<lambda>v.
             case v of
               JStr t \<Rightarrow> (case parse_iso8601 t of Some ms \<Rightarrow> ret (JInt (trunc_div ms 1000))
                          | None \<Rightarrow> cannot_parse h ''timestamp()'' v)
             | _ \<Rightarrow> sbind (require_number h v ''timestamp()'') (\<lambda>x. ret (JInt (dbl_to_int 64 x)))))"

text \<open>A small number counts as seconds.\<close>

definition instant_of :: "dbl \<Rightarrow> int" where
  "instant_of x = (let ms = dbl_to_int 64 x in if ms < 100000000000 then as_int64 (ms * 1000) else ms)"

definition f_format_date :: sel_fun where
  "f_format_date h strict a =
     sbind (draw (ho_clock h)) (\<lambda>now.
     sbind (if a = [] then ret now
            else sbind (eval_arg strict a 0) (\<lambda>v.
                   case v of
                     JStr t \<Rightarrow> (case parse_iso8601 t of Some ms \<Rightarrow> ret ms
                                | None \<Rightarrow> cannot_parse h ''format_date()'' v)
                   | _ \<Rightarrow> sbind (require_number h v ''format_date()'') (\<lambda>x. ret (instant_of x)))) (\<lambda>ms.
     sbind (if 1 < length a then text_arg h strict a 1 else ret ''%Y-%m-%d'') (\<lambda>fmt.
       ret (JStr (ho_strftime h fmt (break_down ms 0))))))"

definition f_date_add :: sel_fun where
  "f_date_add h strict a =
     arity_at_least a 2 ''date_add''
       (sbind (draw (ho_clock h)) (\<lambda>now.
        sbind (eval_arg strict a 0) (\<lambda>base.
          let ms = (case base of
                      JStr t \<Rightarrow> (case parse_iso8601 t of Some ms \<Rightarrow> ms | None \<Rightarrow> now)
                    | _ \<Rightarrow> (if is_number base then (case to_number base of Some x \<Rightarrow> instant_of x | None \<Rightarrow> now) else now))
          in sbind (text_arg h strict a 1) (\<lambda>d.
               case parse_duration d of
                 Returns (Some delta) \<Rightarrow> ret (JStr (format_iso8601 (as_int64 (ms + delta))))
               | Returns None \<Rightarrow> invalid ''date_add() got an invalid duration''
               | Throws \<Rightarrow> (\<lambda>s. (Crash, s))))))"

section \<open>Encodings, digests, random values\<close>

definition f_base64_encode :: sel_fun where
  "f_base64_encode = text_fun (\<lambda>t. JStr (base64_encode t))"

definition f_base64_decode :: sel_fun where
  "f_base64_decode h strict a =
     sbind (text_arg h strict a 0) (\<lambda>t.
       case base64_decode t of
         Some d \<Rightarrow> ret (JStr d)
       | None \<Rightarrow> if strict then invalid ''base64_decode() received invalid input'' else ret (JStr []))"

definition f_url_encode :: sel_fun where
  "f_url_encode = text_fun (\<lambda>t. JStr (percent_encode t))"

definition f_hex_encode :: sel_fun where
  "f_hex_encode = text_fun (\<lambda>t. JStr (to_hex t))"

definition f_sha256 :: sel_fun where
  "f_sha256 = text_fun (\<lambda>t. JStr (digest_hex Sha256 t))"

definition f_md5 :: sel_fun where
  "f_md5 = text_fun (\<lambda>t. JStr (digest_hex Md5 t))"

definition algorithm_arg :: "sel_host \<Rightarrow> bool \<Rightarrow> sel_arg list \<Rightarrow> nat \<Rightarrow> string comp" where
  "algorithm_arg h strict a i = (if i < length a then text_arg h strict a i else ret ''sha256'')"

definition f_hash :: sel_fun where
  "f_hash h strict a =
     arity_at_least a 1 ''hash'' (sbind (algorithm_arg h strict a 1) (\<lambda>algo. sbind (text_arg h strict a 0) (\<lambda>t.
       case digest_hex_by_name algo t of
         Some d \<Rightarrow> ret (JStr d) | None \<Rightarrow> invalid (''unsupported hash algorithm '' @ quoted algo))))"

definition f_hmac :: sel_fun where
  "f_hmac h strict a =
     arity_at_least a 2 ''hmac'' (sbind (algorithm_arg h strict a 2) (\<lambda>algo.
       sbind (text_arg h strict a 0) (\<lambda>key. sbind (text_arg h strict a 1) (\<lambda>t.
         case hmac_hex algo key t of
           Some d \<Rightarrow> ret (JStr d) | None \<Rightarrow> invalid (''unsupported hmac algorithm '' @ quoted algo)))))"

definition f_uuid :: sel_fun where
  "f_uuid h strict a = draw (\<lambda>k. JStr (uuid_v4 (ho_bytes h k 16)))"

definition integer_arg :: "sel_host \<Rightarrow> bool \<Rightarrow> sel_arg list \<Rightarrow> nat \<Rightarrow> nat \<Rightarrow> string \<Rightarrow> int \<Rightarrow> int comp" where
  "integer_arg h strict a w i what d =
     (if i < length a then sbind (number_arg h strict a i what) (\<lambda>x. ret (dbl_to_int w x)) else ret d)"

definition f_random_int :: sel_fun where
  "f_random_int h strict a =
     sbind (integer_arg h strict a 64 0 ''low'' 0) (\<lambda>low. sbind (integer_arg h strict a 64 1 ''high'' 1000000) (\<lambda>high.
       draw (\<lambda>k. JInt (ho_integer h k low (max low high)))))"

definition f_random_pin :: sel_fun where
  "f_random_pin h strict a =
     sbind (integer_arg h strict a 32 0 ''digits'' 6) (\<lambda>n.
       draw (\<lambda>k. JStr (random_pin (ho_digits h k (nat (max 1 (min n 32)))))))"

section \<open>Collections\<close>

text \<open>
  \<open>std::stable_sort\<close>: every element goes behind the ones it is not less than.  For a comparison that is a strict
  weak order this is the result any stable sort has; for another one the result of the library is unspecified.
\<close>

fun insert_stable :: "('a \<Rightarrow> 'a \<Rightarrow> bool) \<Rightarrow> 'a \<Rightarrow> 'a list \<Rightarrow> 'a list" where
  "insert_stable lt x [] = [x]"
| "insert_stable lt x (y # ys) = (if lt x y then x # y # ys else y # insert_stable lt x ys)"

definition stable_sort :: "('a \<Rightarrow> 'a \<Rightarrow> bool) \<Rightarrow> 'a list \<Rightarrow> 'a list" where
  "stable_sort lt xs = foldl (\<lambda>acc x. insert_stable lt x acc) [] xs"

definition value_less :: "json \<Rightarrow> json \<Rightarrow> bool" where
  "value_less x y = (case compare x y of Some c \<Rightarrow> c < 0 | None \<Rightarrow> False)"

definition f_sort :: sel_fun where
  "f_sort h strict a =
     sbind (array_arg strict a 0) (\<lambda>xs.
       if 1 < length a then
         sbind (in_sequence (map (predicate_at strict a) (positions xs))) (\<lambda>ks.
           ret (JArr (map snd (stable_sort (\<lambda>x y. value_less (fst x) (fst y)) (zip ks xs)))))
       else ret (JArr (stable_sort value_less xs)))"

definition array_fun :: "(sel_host \<Rightarrow> json list \<Rightarrow> json) \<Rightarrow> sel_fun" where
  "array_fun f h strict a = sbind (array_arg strict a 0) (\<lambda>xs. ret (f h xs))"

definition f_reverse :: sel_fun where
  "f_reverse = array_fun (\<lambda>h xs. JArr (rev xs))"

definition unique_values :: "(json \<Rightarrow> string) \<Rightarrow> json list \<Rightarrow> json list" where
  "unique_values dump xs = foldl (\<lambda>out x. if list_ex (\<lambda>y. equals dump y x) out then out else out @ [x]) [] xs"

definition f_unique :: sel_fun where
  "f_unique = array_fun (\<lambda>h xs. JArr (unique_values (ho_dump h) xs))"

definition slice_list :: "json list \<Rightarrow> int \<Rightarrow> int \<Rightarrow> json list" where
  "slice_list xs lo hi =
     (let n = int (length xs);
          lo1 = (if lo < 0 then max 0 (n + lo) else lo); hi1 = (if hi < 0 then max 0 (n + hi) else hi);
          lo2 = min (max lo1 0) n; hi2 = min (max hi1 lo2) n
      in take (nat (hi2 - lo2)) (drop (nat lo2) xs))"

definition f_slice :: sel_fun where
  "f_slice h strict a =
     sbind (array_arg strict a 0) (\<lambda>xs.
     sbind (integer_arg h strict a 64 1 ''from'' 0) (\<lambda>lo.
     sbind (integer_arg h strict a 64 2 ''to'' (int (length xs))) (\<lambda>hi.
       ret (JArr (slice_list xs lo hi)))))"

definition f_first :: sel_fun where
  "f_first = array_fun (\<lambda>h xs. if xs = [] then JNull else hd xs)"

definition f_last :: sel_fun where
  "f_last = array_fun (\<lambda>h xs. if xs = [] then JNull else last xs)"

definition f_push :: sel_fun where
  "f_push h strict a =
     sbind (array_arg strict a 0) (\<lambda>xs. sbind (all_args strict (tl a)) (\<lambda>vs. ret (JArr (xs @ vs))))"

text \<open>\<open>merge_patch\<close> of the document library (RFC 7396).\<close>

fun merge_patch :: "json \<Rightarrow> json \<Rightarrow> json"
  and merge_members :: "obj \<Rightarrow> obj \<Rightarrow> obj" where
  "merge_patch t (JObj p) = JObj (merge_members (jentries t) p)"
| "merge_patch t v = v"
| "merge_members ob [] = ob"
| "merge_members ob ((k, v) # p) =
     merge_members
       (if v = JNull then obj_erase k ob
        else obj_set k (merge_patch (case map_of ob k of Some x \<Rightarrow> x | None \<Rightarrow> JNull) v) ob) p"

definition f_merge :: sel_fun where
  "f_merge h strict a =
     sbind (all_args strict a) (\<lambda>vs. ret (foldl merge_patch (JObj []) (filter is_object vs)))"

definition f_count :: sel_fun where
  "f_count h strict a =
     sbind (array_arg strict a 0) (\<lambda>xs.
       if length a < 2 then ret (JInt (int (length xs)))
       else sbind (in_sequence (map (predicate_true strict a) (positions xs))) (\<lambda>bs.
              ret (JInt (int (length (filter id bs))))))"

text \<open>Goes through the elements until the predicate gives \<open>stop\<close>.\<close>

fun until :: "bool \<Rightarrow> bool comp list \<Rightarrow> bool comp" where
  "until stop [] = ret False"
| "until stop (m # ms) = sbind m (\<lambda>b. if b = stop then ret True else until stop ms)"

definition quantifier :: "bool \<Rightarrow> bool \<Rightarrow> sel_fun" where
  "quantifier stop found h strict a =
     sbind (array_arg strict a 0) (\<lambda>xs. sbind (until stop (map (predicate_true strict a) (positions xs))) (\<lambda>b.
       ret (JBool (if b then found else \<not> found))))"

definition f_any :: sel_fun where
  "f_any = quantifier True True"

definition f_all :: sel_fun where
  "f_all = quantifier False False"

definition f_none :: sel_fun where
  "f_none = quantifier True False"

definition f_filter :: sel_fun where
  "f_filter h strict a =
     sbind (array_arg strict a 0) (\<lambda>xs.
       if length a < 2 then ret (JArr xs)
       else sbind (in_sequence (map (predicate_true strict a) (positions xs))) (\<lambda>bs.
              ret (JArr (map fst (filter snd (zip xs bs))))))"

definition f_map :: sel_fun where
  "f_map h strict a =
     sbind (array_arg strict a 0) (\<lambda>xs.
       if length a < 2 then ret (JArr xs)
       else sbind (in_sequence (map (predicate_at strict a) (positions xs))) (\<lambda>vs. ret (JArr vs)))"

definition regex_result :: "string + bool \<Rightarrow> json comp" where
  "regex_result r = (case r of Inl what \<Rightarrow> invalid (''invalid regex: '' @ what) | Inr b \<Rightarrow> ret (JBool b))"

definition f_matches :: sel_fun where
  "f_matches h strict a =
     arity_at_least a 2 ''matches'' (sbind (text_arg h strict a 0) (\<lambda>t. sbind (text_arg h strict a 1) (\<lambda>p.
       regex_result (ho_match h t p))))"

definition f_equals :: sel_fun where
  "f_equals h strict a =
     arity_at_least a 2 ''equals'' (sbind (eval_arg strict a 0) (\<lambda>x. sbind (eval_arg strict a 1) (\<lambda>y.
       ret (JBool (equals (ho_dump h) x y)))))"

section \<open>The table\<close>

definition sel_table :: "(string \<times> sel_fun) list" where
  "sel_table =
     [(''len'', f_len), (''size'', f_len), (''length'', f_len), (''upper'', f_upper), (''lower'', f_lower),
      (''trim'', f_trim), (''starts_with'', f_starts_with), (''startsWith'', f_starts_with),
      (''ends_with'', f_ends_with), (''endsWith'', f_ends_with), (''contains'', f_contains),
      (''index_of'', f_index_of), (''indexOf'', f_index_of), (''substring'', f_substring), (''substr'', f_substring),
      (''replace'', f_replace), (''split'', f_split), (''join'', f_join), (''concat'', f_concat), (''keys'', f_keys),
      (''values'', f_values), (''has'', f_has), (''get'', f_get), (''type'', f_type), (''is_number'', f_is_number),
      (''isNumber'', f_is_number), (''is_decimal'', f_is_decimal), (''is_integer'', f_is_integer),
      (''isInteger'', f_is_integer), (''is_string'', f_is_string), (''is_bool'', f_is_bool), (''is_null'', f_is_null),
      (''is_empty'', f_is_empty), (''is_array'', f_is_array), (''is_object'', f_is_object),
      (''to_string'', f_to_string), (''toString'', f_to_string), (''to_number'', f_to_number),
      (''toNumber'', f_to_number), (''to_int'', f_to_int), (''to_bool'', f_to_bool), (''to_json'', f_to_json),
      (''fromJson'', f_from_json), (''from_json'', f_from_json), (''abs'', f_abs), (''floor'', f_floor),
      (''ceil'', f_ceil), (''round'', f_round), (''min'', f_min), (''max'', f_max), (''sum'', f_sum), (''avg'', f_avg),
      (''pow'', f_pow), (''sqrt'', f_sqrt), (''mod'', f_mod), (''coalesce'', f_coalesce), (''default'', f_default),
      (''if'', f_if), (''now'', f_now), (''timestamp'', f_timestamp), (''format_date'', f_format_date),
      (''date_add'', f_date_add), (''base64_encode'', f_base64_encode), (''base64_decode'', f_base64_decode),
      (''url_encode'', f_url_encode), (''hex_encode'', f_hex_encode), (''sha256'', f_sha256), (''md5'', f_md5),
      (''hash'', f_hash), (''hmac'', f_hmac), (''uuid'', f_uuid), (''random_int'', f_random_int),
      (''random_pin'', f_random_pin), (''sort'', f_sort), (''reverse'', f_reverse), (''unique'', f_unique),
      (''slice'', f_slice), (''first'', f_first), (''last'', f_last), (''push'', f_push), (''append'', f_push),
      (''merge'', f_merge), (''count'', f_count), (''any'', f_any), (''all'', f_all), (''none'', f_none),
      (''filter'', f_filter), (''map'', f_map), (''matches'', f_matches), (''equals'', f_equals),
      (''regexp'', f_matches)]"

definition unknown_message :: "string \<Rightarrow> string" where
  "unknown_message name =
     ''unknown function '' @ quoted (name @ ''()'') @ '' '' @ [CHR 0xE2, CHR 0x80, CHR 0x94]
       @ '' not part of the SEL standard library''"

text \<open>\<open>obj.field()\<close> reads the field when no function has the name.\<close>

definition call_function :: "string \<Rightarrow> sel_host \<Rightarrow> bool \<Rightarrow> sel_arg list \<Rightarrow> bool \<Rightarrow> json comp" where
  "call_function name h strict a method =
     (case map_of sel_table name of
        Some f \<Rightarrow> f h strict a
      | None \<Rightarrow>
          if method \<and> a \<noteq> [] then
            sbind (ar_eval (hd a) strict) (\<lambda>r.
              case jget name r of Some v \<Rightarrow> ret v | None \<Rightarrow> invalid (unknown_message name))
          else invalid (unknown_message name))"

section \<open>Sorting\<close>

text \<open>What \<open>std::stable_sort\<close> asks of its comparison: a strict weak order of the elements.\<close>

locale weak_order =
  fixes carrier :: "'a \<Rightarrow> bool" and lt :: "'a \<Rightarrow> 'a \<Rightarrow> bool"
  assumes asym: "carrier x \<Longrightarrow> carrier y \<Longrightarrow> lt x y \<Longrightarrow> \<not> lt y x"
    and not_less_trans: "carrier x \<Longrightarrow> carrier y \<Longrightarrow> carrier z \<Longrightarrow> \<not> lt y x \<Longrightarrow> \<not> lt z y \<Longrightarrow> \<not> lt z x"
begin

abbreviation in_order :: "'a list \<Rightarrow> bool" where
  "in_order xs \<equiv> sorted_wrt (\<lambda>x y. \<not> lt y x) xs"

lemma insert_set: "set (insert_stable lt x ys) = insert x (set ys)"
  by (induction ys) auto

lemma insert_mset: "mset (insert_stable lt x ys) = add_mset x (mset ys)"
  by (induction ys) auto

lemma insert_in_order:
  "carrier x \<Longrightarrow> \<forall>y \<in> set ys. carrier y \<Longrightarrow> in_order ys \<Longrightarrow> in_order (insert_stable lt x ys)"
proof (induction ys)
  case (Cons y ys)
  show ?case
  proof (cases "lt x y")
    case True
    have "\<not> lt z x" if "z \<in> set ys" for z
      using Cons.prems that asym [OF _ _ True] by (intro not_less_trans [of x y z]) auto
    with True Cons.prems asym [OF _ _ True] show ?thesis by auto
  qed (use Cons in \<open>auto simp: insert_set\<close>)
qed simp

text \<open>Elements none of which is less than another keep their order.\<close>

lemma insert_keeps_order:
  assumes "\<And>y z. Q y \<Longrightarrow> Q z \<Longrightarrow> \<not> lt y z"
  shows "carrier x \<Longrightarrow> \<forall>y \<in> set ys. carrier y \<Longrightarrow> in_order ys \<Longrightarrow>
         filter Q (insert_stable lt x ys) = filter Q ys @ filter Q [x]"
proof (induction ys)
  case (Cons y ys)
  show ?case
  proof (cases "lt x y")
    case True
    have "\<not> Q z" if "z \<in> set (y # ys)" and "Q x" for z
    proof
      assume z: "Q z"
      have yz: "\<not> lt z y" using that(1) Cons.prems asym [of y y] by auto
      have "carrier z" using that(1) Cons.prems by auto
      then have "\<not> lt x y"
        using Cons.prems yz assms [OF \<open>Q x\<close> z] by (intro not_less_trans [of y z x]) simp_all
      with True show False by simp
    qed
    then have "filter Q (y # ys) = []" if "Q x" using that by (auto simp: filter_empty_conv)
    with True show ?thesis by auto
  qed (use Cons in simp)
qed simp

lemma sorts:
  assumes "\<forall>x \<in> set xs. carrier x"
  shows "mset (stable_sort lt xs) = mset xs \<and> in_order (stable_sort lt xs) \<and>
         ((\<forall>y z. Q y \<longrightarrow> Q z \<longrightarrow> \<not> lt y z) \<longrightarrow> filter Q (stable_sort lt xs) = filter Q xs)"
  using assms
proof (induction xs rule: rev_induct)
  case (snoc x xs)
  have step: "stable_sort lt (xs @ [x]) = insert_stable lt x (stable_sort lt xs)" by (simp add: stable_sort_def)
  from snoc have IH: "mset (stable_sort lt xs) = mset xs" "in_order (stable_sort lt xs)" by simp_all
  from IH(1) have "set (stable_sort lt xs) = set xs" by (rule mset_eq_setD)
  with snoc.prems have c: "carrier x" "\<forall>y \<in> set (stable_sort lt xs). carrier y" by simp_all
  show ?case
    using snoc insert_in_order [OF c IH(2)] insert_keeps_order [OF _ c IH(2), of Q]
    by (simp add: step insert_mset)
qed (simp add: stable_sort_def)

end

definition orderable :: "json \<Rightarrow> bool" where
  "orderable v \<longleftrightarrow> (case to_number v of Some x \<Rightarrow> x \<noteq> DNan | None \<Rightarrow> False)"

lemma dbl_lt_asym: "dbl_lt x y \<Longrightarrow> \<not> dbl_lt y x"
  by (cases x; cases y) auto

lemma dbl_lt_not_less_trans: "x \<noteq> DNan \<Longrightarrow> y \<noteq> DNan \<Longrightarrow> z \<noteq> DNan \<Longrightarrow> \<not> dbl_lt y x \<Longrightarrow> \<not> dbl_lt z y \<Longrightarrow> \<not> dbl_lt z x"
  by (cases x; cases y; cases z) auto

lemma value_less_number: "to_number x = Some a \<Longrightarrow> to_number y = Some b \<Longrightarrow> value_less x y = dbl_lt a b"
  by (simp add: value_less_def compare_def)

interpretation number_order: weak_order orderable value_less
proof
  fix x y z
  show "orderable x \<Longrightarrow> orderable y \<Longrightarrow> value_less x y \<Longrightarrow> \<not> value_less y x"
    by (auto simp: orderable_def value_less_number dest: dbl_lt_asym split: option.splits)
  show "orderable x \<Longrightarrow> orderable y \<Longrightarrow> orderable z \<Longrightarrow> \<not> value_less y x \<Longrightarrow> \<not> value_less z y \<Longrightarrow> \<not> value_less z x"
    by (auto simp: orderable_def value_less_number dest: dbl_lt_not_less_trans split: option.splits)
qed

text \<open>
  C37: \<open>sort\<close> of an array of numbers (or texts and truth values that are read as numbers, but no NaN): the result has
  the elements of the array, ascending, and elements of the same numeric value in the order they had.
\<close>

theorem sort_is_stable_and_sorts:
  assumes "fst (eval_arg strict [x] 0 s) = Val (JArr xs)" and "\<forall>v \<in> set xs. orderable v"
  shows "\<exists>ys. fst (f_sort h strict [x] s) = Val (JArr ys) \<and> mset ys = mset xs \<and>
           sorted_wrt (\<lambda>v w. \<not> dbl_lt (the (to_number w)) (the (to_number v))) ys \<and>
           (\<forall>n. filter (\<lambda>v. to_number v = Some n) ys = filter (\<lambda>v. to_number v = Some n) xs)"
proof -
  define ys where "ys = stable_sort value_less xs"
  obtain t where "eval_arg strict [x] 0 s = (Val (JArr xs), t)" using assms(1) by (metis prod.collapse)
  then have "fst (f_sort h strict [x] s) = Val (JArr ys)"
    by (simp add: f_sort_def array_arg_def sbind_def ret_def array_value_def ys_def)
  moreover note sorts = number_order.sorts [OF assms(2)]
  have ys: "mset ys = mset xs" using sorts [of "\<lambda>_. False"] by (simp add: ys_def)
  moreover have "sorted_wrt (\<lambda>v w. \<not> dbl_lt (the (to_number w)) (the (to_number v))) ys"
  proof (rule sorted_wrt_mono_rel)
    show "sorted_wrt (\<lambda>v w. \<not> value_less w v) ys" using sorts [of "\<lambda>_. False"] by (simp add: ys_def)
    fix v w assume "v \<in> set ys" "w \<in> set ys" and le: "\<not> value_less w v"
    with mset_eq_setD [OF ys] assms(2) have "orderable v" "orderable w" by auto
    with le show "\<not> dbl_lt (the (to_number w)) (the (to_number v))"
      by (auto simp: orderable_def value_less_number split: option.splits)
  qed
  moreover have "filter (\<lambda>v. to_number v = Some n) ys = filter (\<lambda>v. to_number v = Some n) xs" for n
    using sorts [of "\<lambda>v. to_number v = Some n"] by (auto simp: ys_def value_less_number dest: dbl_lt_asym)
  ultimately show ?thesis by blast
qed

definition constant_arg :: "json \<Rightarrow> sel_arg" where
  "constant_arg v = \<lparr>ar_eval = (\<lambda>strict. ret v), ar_predicate = (\<lambda>strict. ret v)\<rparr>"

theorem sort_is_stable_and_sorts_witness:
  "\<forall>h :: sel_host. \<exists>ys. fst (f_sort h True [constant_arg (JArr [JBool True, JFloat (DFin 1), JBool False])]
       \<lparr>ss_locals = [], ss_draws = 0\<rparr>) = Val (JArr ys) \<and> mset ys = mset [JBool True, JFloat (DFin 1), JBool False] \<and>
     filter (\<lambda>v. to_number v = Some (DFin 1)) ys = [JBool True, JFloat (DFin 1)]"
proof
  fix h :: sel_host
  show "\<exists>ys. fst (f_sort h True [constant_arg (JArr [JBool True, JFloat (DFin 1), JBool False])]
       \<lparr>ss_locals = [], ss_draws = 0\<rparr>) = Val (JArr ys) \<and> mset ys = mset [JBool True, JFloat (DFin 1), JBool False] \<and>
     filter (\<lambda>v. to_number v = Some (DFin 1)) ys = [JBool True, JFloat (DFin 1)]"
    using sort_is_stable_and_sorts [where h = h and strict = True and xs = "[JBool True, JFloat (DFin 1), JBool False]"
        and x = "constant_arg (JArr [JBool True, JFloat (DFin 1), JBool False])" and s = "\<lparr>ss_locals = [], ss_draws = 0\<rparr>"]
    by (fastforce simp: constant_arg_def eval_arg_def ret_def orderable_def)
qed

end
