(* ===== verification/Sapo_SelEval.thy ===== *)
theory Sapo_SelEval
  imports Sapo_SelLib
begin

text \<open>
  The evaluator of the expression language (\<open>Evaluator::eval\<close> of
  \<open>src/src/runtime/expressions/Sel.cpp\<close>).  \<open>eval_node\<close> is one activation of it with the evaluator of the
  operands as a parameter, \<open>eval_sel\<close> ties the knot with fuel, the depth of the activations; \<open>evaluation_ends\<close>
  shows that the length of the source text always is enough, though texts are compiled during the evaluation.
\<close>

section \<open>Reading documents\<close>

fun dotted_path :: "sel \<Rightarrow> string option" where
  "dotted_path (Variable name _) = Some name"
| "dotted_path (Member e name _) = map_option (\<lambda>base. base @ ''.'' @ name) (dotted_path e)"
| "dotted_path _ = None"

definition unresolved_message :: "string \<Rightarrow> bool \<Rightarrow> string" where
  "unresolved_message name dollar =
     ''unresolved reference '' @ quoted (if dollar then CHR ''$'' # name else name) @ '' '' @ [CHR 0xE2, CHR 0x80, CHR 0x94]
       @ '' no context variable, loop local, env.*, secret.* or config.* binding''"

text \<open>A field of an array is the array of the elements' fields, when one of them has it.\<close>

definition project_field :: "string \<Rightarrow> json list \<Rightarrow> json" where
  "project_field name xs =
     (if list_ex (jcontains name) xs then JArr (map (\<lambda>x. jvalue name JNull x) xs) else JNull)"

definition field_value :: "string \<Rightarrow> json \<Rightarrow> json" where
  "field_value name v =
     (case v of
        JObj ob \<Rightarrow> (case map_of ob name of Some x \<Rightarrow> x | None \<Rightarrow> JNull)
      | JArr xs \<Rightarrow> project_field name xs
      | _ \<Rightarrow> JNull)"

definition has_length :: "json \<Rightarrow> bool" where
  "has_length v \<longleftrightarrow> is_string v \<or> is_array v \<or> is_object v \<or> is_null v"

definition member_value :: "string \<Rightarrow> json \<Rightarrow> json" where
  "member_value name v =
     (if (name = ''length'' \<or> name = ''size'') \<and> has_length v then JInt (length_value v) else field_value name v)"

text \<open>A negative index counts from the end.\<close>

definition from_end :: "int \<Rightarrow> nat \<Rightarrow> nat option" where
  "from_end i n =
     (let k = (if i < 0 then i + int n else i) in if k < 0 \<or> int n \<le> k then None else Some (nat k))"

definition index_value :: "int \<Rightarrow> json \<Rightarrow> json" where
  "index_value i v =
     (case v of
        JArr xs \<Rightarrow> (case from_end i (length xs) of Some k \<Rightarrow> xs ! k | None \<Rightarrow> JNull)
      | JObj ob \<Rightarrow> (case map_of ob (int_str i) of Some x \<Rightarrow> x | None \<Rightarrow> JNull)
      | JStr t \<Rightarrow> (case from_end i (length t) of Some k \<Rightarrow> JStr [t ! k] | None \<Rightarrow> JNull)
      | _ \<Rightarrow> JNull)"

definition key_value :: "string \<Rightarrow> json \<Rightarrow> json" where
  "key_value k v =
     (case v of
        JObj ob \<Rightarrow> (case map_of ob k of Some x \<Rightarrow> x | None \<Rightarrow> JNull)
      | JArr xs \<Rightarrow> (case sto_int 32 k of Some (i, _) \<Rightarrow> index_value i v | None \<Rightarrow> JNull)
      | _ \<Rightarrow> JNull)"

section \<open>Operators\<close>

definition eval_unary :: "sel_host \<Rightarrow> string \<Rightarrow> json \<Rightarrow> json comp" where
  "eval_unary h op v =
     (if op = ''!'' then ret (JBool (\<not> truthy v))
      else if op = ''-'' then sbind (require_number h v (''unary '' @ quoted ''-'')) (\<lambda>x. ret (JFloat (dbl_neg x)))
      else if op = ''+'' then sbind (require_number h v (''unary '' @ quoted ''+'')) (\<lambda>x. ret (JFloat x))
      else sthrow (sel_fail (''unsupported unary operator '' @ quoted op) 0 []))"

definition add_values :: "(json \<Rightarrow> string) \<Rightarrow> json \<Rightarrow> json \<Rightarrow> json" where
  "add_values dump l r =
     (case (to_number l, to_number r) of
        (Some x, Some y) \<Rightarrow>
          if \<not> is_string l \<and> \<not> is_string r then JFloat (tidy (dbl_add x y)) else JStr (str_value dump l @ str_value dump r)
      | _ \<Rightarrow>
          (case (l, r) of
             (JArr xs, JArr ys) \<Rightarrow> JArr (xs @ ys)
           | (JObj _, JObj _) \<Rightarrow> merge_patch l r
           | _ \<Rightarrow> JStr (str_value dump l @ str_value dump r)))"

definition order_values :: "string \<Rightarrow> json \<Rightarrow> json \<Rightarrow> json comp" where
  "order_values op l r =
     (case compare l r of
        None \<Rightarrow> invalid (''cannot order '' @ type_name l @ '' against '' @ type_name r)
      | Some c \<Rightarrow>
          if op = ''<'' then ret (JBool (c < 0)) else if op = ''<='' then ret (JBool (c \<le> 0))
          else if op = ''>'' then ret (JBool (c > 0)) else if op = ''>='' then ret (JBool (c \<ge> 0))
          else sthrow (sel_fail (''unsupported operator '' @ quoted op) 0 []))"

text \<open>The strict operators on the values of their operands; \<open>&&\<close> and \<open>||\<close> are in \<open>eval_node\<close>.\<close>

definition eval_binary :: "sel_host \<Rightarrow> string \<Rightarrow> json \<Rightarrow> json \<Rightarrow> json comp" where
  "eval_binary h op l r =
     (if op = ''=='' then ret (JBool (equals (ho_dump h) l r))
      else if op = ''!='' then ret (JBool (\<not> equals (ho_dump h) l r))
      else if op = ''in'' then ret (JBool (contains_value (ho_dump h) r l))
      else if op = ''contains'' then ret (JBool (contains_value (ho_dump h) l r))
      else if op = ''=~'' then
        (case r of JStr p \<Rightarrow> regex_result (ho_search h (str_value (ho_dump h) l) p)
         | _ \<Rightarrow> invalid ''right-hand regex must be a string'')
      else if op = ''+'' then ret (add_values (ho_dump h) l r)
      else case (to_number l, to_number r) of
        (Some x, Some y) \<Rightarrow>
          if op = ''-'' then ret (JFloat (tidy (dbl_sub x y)))
          else if op = ''*'' then ret (JFloat (tidy (dbl_mul x y)))
          else if op = ''/'' then
            (if dbl_zero y then invalid ''division by zero'' else ret (JFloat (tidy (dbl_div x y))))
          else if op = ''%'' then
            (if dbl_zero y then invalid ''modulo by zero'' else ret (JFloat (tidy (dbl_fmod x y))))
          else order_values op l r
      | _ \<Rightarrow> invalid (''cannot apply '' @ quoted op @ '' to '' @ type_name l @ '' and '' @ type_name r))"

section \<open>Nodes\<close>

type_synonym sel_eval = "bool \<Rightarrow> sel \<Rightarrow> json comp"

text \<open>A text literal as a predicate is compiled; when that or its evaluation fails it stands for itself.\<close>

definition eval_predicate :: "sel_eval \<Rightarrow> bool \<Rightarrow> sel \<Rightarrow> json comp" where
  "eval_predicate ev strict e =
     (case e of
        Literal (JStr t) \<Rightarrow>
          (case compile t of
             Inl _ \<Rightarrow> ret (JStr t)
           | Inr p \<Rightarrow> (\<lambda>s. case ev strict p s of (Thr _, s') \<Rightarrow> (Val (JStr t), s') | r \<Rightarrow> r))
      | _ \<Rightarrow> ev strict e)"

definition as_arg :: "sel_eval \<Rightarrow> sel \<Rightarrow> sel_arg" where
  "as_arg ev e = \<lparr>ar_eval = (\<lambda>strict. ev strict e), ar_predicate = (\<lambda>strict. eval_predicate ev strict e)\<rparr>"

definition eval_variable :: "sel_host \<Rightarrow> bool \<Rightarrow> string \<Rightarrow> bool \<Rightarrow> json comp" where
  "eval_variable h strict name dollar =
     (\<lambda>s. case map_of (ss_locals s) name of
            Some v \<Rightarrow> (Val v, s)
          | None \<Rightarrow>
              (case ho_resolve h name of
                 Some v \<Rightarrow> (Val v, s)
               | None \<Rightarrow>
                   if strict then (Thr (sapo_error NotFound (unresolved_message name dollar) JNull []), s)
                   else (Val JNull, s)))"

definition resolve_dotted :: "sel_host \<Rightarrow> sel \<Rightarrow> json option" where
  "resolve_dotted h e = (case dotted_path e of Some p \<Rightarrow> ho_resolve h p | None \<Rightarrow> None)"

fun eval_node :: "sel_host \<Rightarrow> sel_eval \<Rightarrow> bool \<Rightarrow> sel \<Rightarrow> json comp" where
  "eval_node h ev strict (Literal v) = ret v"
| "eval_node h ev strict (Variable name dollar) = eval_variable h strict name dollar"
| "eval_node h ev strict (Member e name opt) =
     (case resolve_dotted h (Member e name opt) of
        Some v \<Rightarrow> ret v
      | None \<Rightarrow> sbind (ev strict e) (\<lambda>v. ret (member_value name v)))"
| "eval_node h ev strict (StaticIndex e i) =
     sbind (ev strict e) (\<lambda>v. ret (if v = JNull then JNull else index_value i v))"
| "eval_node h ev strict (ComputedIndex e ix) =
     sbind (ev strict e) (\<lambda>v.
       if v = JNull then ret JNull
       else sbind (ev strict ix) (\<lambda>i.
              case i of
                JStr k \<Rightarrow> ret (key_value k v)
              | _ \<Rightarrow> sbind (require_number h i ''array index'') (\<lambda>x. ret (index_value (dbl_to_int 32 x) v))))"
| "eval_node h ev strict (Call name args) = call_function name h strict (map (as_arg ev) args) False"
| "eval_node h ev strict (MethodCall e name args opt) =
     call_function name h strict (map (as_arg ev) (e # args)) True"
| "eval_node h ev strict (Unary op e) = sbind (ev strict e) (\<lambda>v. eval_unary h op v)"
| "eval_node h ev strict (Binary op a b) =
     (if op = ''&&'' then
        sbind (ev strict a) (\<lambda>x.
          if \<not> truthy x then ret (JBool False) else sbind (ev strict b) (\<lambda>y. ret (JBool (truthy y))))
      else if op = ''||'' then
        sbind (ev strict a) (\<lambda>x.
          if truthy x then ret (JBool True) else sbind (ev strict b) (\<lambda>y. ret (JBool (truthy y))))
      else sbind (ev strict a) (\<lambda>x. sbind (ev strict b) (\<lambda>y. eval_binary h op x y)))"
| "eval_node h ev strict (Ternary c a b) = sbind (ev strict c) (\<lambda>v. if truthy v then ev strict a else ev strict b)"
| "eval_node h ev strict (Coalesce a b) =
     sbind (on_copy (ev False a)) (\<lambda>v. if v = JNull then ev strict b else ret v)"
| "eval_node h ev strict (ArrayLiteral es) = sbind (in_sequence (map (ev strict) es)) (\<lambda>vs. ret (JArr vs))"
| "eval_node h ev strict (ObjectLiteral es) =
     sbind (in_sequence (map (\<lambda>p. ev strict (snd p)) es)) (\<lambda>vs. ret (jobj (zip (map fst es) vs)))"

fun eval_sel :: "sel_host \<Rightarrow> nat \<Rightarrow> bool \<Rightarrow> sel \<Rightarrow> json comp" where
  "eval_sel h 0 strict e = (\<lambda>s. (Deep, s))"
| "eval_sel h (Suc n) strict e = eval_node h (eval_sel h n) strict e"

definition fresh_state :: "nat \<Rightarrow> sel_state" where
  "fresh_state draws = \<lparr>ss_locals = [], ss_draws = draws\<rparr>"

text \<open>\<open>evaluate\<close> of a compiled text.\<close>

definition run_text :: "sel_host \<Rightarrow> bool \<Rightarrow> string \<Rightarrow> sel \<Rightarrow> json comp" where
  "run_text h strict src e = eval_sel h (length src) strict e"

section \<open>Evaluation ends\<close>

text \<open>A computation that returns, and leaves the local variables as they were, or without the two iterator variables
  (when it went through an iteration).\<close>

definition same_locals :: "sel_state \<Rightarrow> sel_state \<Rightarrow> bool" where
  "same_locals s t \<longleftrightarrow> ss_locals t = ss_locals s \<or> ss_locals t = erase_iterators (ss_locals s)"

definition safe :: "'a comp \<Rightarrow> bool" where
  "safe m \<longleftrightarrow> (\<forall>s r t. m s = (r, t) \<longrightarrow> r \<noteq> Deep \<and> same_locals s t)"

lemma filter_obj_set: "\<not> Q k \<Longrightarrow> filter (\<lambda>p. Q (fst p)) (obj_set k v ob) = filter (\<lambda>p. Q (fst p)) ob"
  by (induction ob) auto

lemma erase_iterators_filter: "erase_iterators ob = filter (\<lambda>p. fst p \<notin> {''item'', ''index''}) ob"
  by (simp add: erase_iterators_def obj_erase_def conj_commute)

lemma erase_iterators_set [simp]:
  "k \<in> {''item'', ''index''} \<Longrightarrow> erase_iterators (obj_set k v ob) = erase_iterators ob"
  unfolding erase_iterators_filter using filter_obj_set [of "\<lambda>k. k \<notin> {''item'', ''index''}" k v ob] by simp

lemma erase_iterators_idem [simp]: "erase_iterators (erase_iterators ob) = erase_iterators ob"
  by (simp add: erase_iterators_filter)

lemma obj_erase_Nil [simp]: "obj_erase k [] = []"
  by (simp add: obj_erase_def)

lemma same_locals_refl [simp]: "same_locals s s"
  by (simp add: same_locals_def)

lemma same_locals_trans: "same_locals s t \<Longrightarrow> same_locals t u \<Longrightarrow> same_locals s u"
  by (auto simp: same_locals_def)

definition safe_args :: "sel_arg list \<Rightarrow> bool" where
  "safe_args a \<longleftrightarrow> (\<forall>x \<in> set a. \<forall>strict. safe (ar_eval x strict) \<and> safe (ar_predicate x strict))"

named_theorems safe_intros "computations that do not run out of fuel"

lemma safeI: "(\<And>s r t. m s = (r, t) \<Longrightarrow> r \<noteq> Deep \<and> same_locals s t) \<Longrightarrow> safe m"
  by (simp add: safe_def)

lemma safeD: "safe m \<Longrightarrow> m s = (r, t) \<Longrightarrow> r \<noteq> Deep \<and> same_locals s t"
  by (simp add: safe_def)

lemma safe_ret [safe_intros]: "safe (ret x)"
  by (simp add: safe_def ret_def)

lemma safe_sthrow [safe_intros]: "safe (sthrow e)"
  by (simp add: safe_def sthrow_def)

lemma safe_invalid [safe_intros]: "safe (invalid m)"
  by (simp add: invalid_def safe_sthrow)

lemma safe_crash [safe_intros]: "safe (\<lambda>s. (Crash, s))"
  by (simp add: safe_def)

lemma safe_draw [safe_intros]: "safe (draw f)"
  by (auto simp: safe_def draw_def same_locals_def)

lemma safe_sbind [safe_intros]:
  assumes "safe m" and "\<And>x. safe (f x)"
  shows "safe (sbind m f)"
proof (rule safeI)
  fix s r t assume run: "sbind m f s = (r, t)"
  obtain q u where m: "m s = (q, u)" by (cases "m s")
  from safeD [OF assms(1) m] have q: "q \<noteq> Deep" "same_locals s u" by simp_all
  show "r \<noteq> Deep \<and> same_locals s t"
  proof (cases q)
    case (Val x)
    with run m have "f x u = (r, t)" by (simp add: sbind_def)
    from safeD [OF assms(2) this] q show ?thesis by (auto intro: same_locals_trans)
  qed (use run m q in \<open>auto simp: sbind_def\<close>)
qed

lemma safe_on_copy [safe_intros]: "safe m \<Longrightarrow> safe (on_copy m)"
  unfolding safe_def on_copy_def by (auto simp: same_locals_def split: prod.splits)

lemma safe_in_scope [safe_intros]:
  assumes "safe m"
  shows "safe (in_scope x i m)"
proof (rule safeI)
  fix s r t assume run: "in_scope x i m s = (r, t)"
  define s1 where "s1 = s\<lparr>ss_locals := obj_set ''index'' (JInt (int i)) (obj_set ''item'' x (ss_locals s))\<rparr>"
  obtain u where m: "m s1 = (r, u)" and t: "t = u\<lparr>ss_locals := erase_iterators (ss_locals u)\<rparr>"
    using run by (auto simp: in_scope_def s1_def split: prod.splits)
  from safeD [OF assms m] show "r \<noteq> Deep \<and> same_locals s t"
    by (auto simp: t s1_def same_locals_def)
qed

lemma safe_in_sequence: "(\<And>m. m \<in> set ms \<Longrightarrow> safe m) \<Longrightarrow> safe (in_sequence ms)"
  by (induction ms) (auto intro!: safe_intros)

lemma safe_until: "(\<And>m. m \<in> set ms \<Longrightarrow> safe m) \<Longrightarrow> safe (until stop ms)"
  by (induction ms) (auto intro!: safe_intros)

lemma safe_fold_numbers: "(\<And>m. m \<in> set ms \<Longrightarrow> safe m) \<Longrightarrow> safe (fold_numbers f best ms)"
  by (induction ms arbitrary: best) (auto intro!: safe_intros)

lemma safe_first_present: "(\<And>m. m \<in> set ms \<Longrightarrow> safe m) \<Longrightarrow> safe (first_present ms)"
  by (induction ms) (auto intro!: safe_intros)

lemma safe_in_sequence_map [safe_intros]: "(\<And>x. x \<in> set xs \<Longrightarrow> safe (g x)) \<Longrightarrow> safe (in_sequence (map g xs))"
  by (rule safe_in_sequence) auto

lemma safe_until_map [safe_intros]: "(\<And>x. x \<in> set xs \<Longrightarrow> safe (g x)) \<Longrightarrow> safe (until stop (map g xs))"
  by (rule safe_until) auto

lemma safe_fold_numbers_map [safe_intros]:
  "(\<And>x. x \<in> set xs \<Longrightarrow> safe (g x)) \<Longrightarrow> safe (fold_numbers f best (map g xs))"
  by (rule safe_fold_numbers) auto

lemma safe_first_present_map [safe_intros]:
  "(\<And>x. x \<in> set xs \<Longrightarrow> safe (g x)) \<Longrightarrow> safe (first_present (map g xs))"
  by (rule safe_first_present) auto

lemma safe_if [safe_intros]: "(c \<Longrightarrow> safe x) \<Longrightarrow> (\<not> c \<Longrightarrow> safe y) \<Longrightarrow> safe (if c then x else y)"
  by simp

lemma safe_option [safe_intros]:
  "safe x \<Longrightarrow> (\<And>v. o' = Some v \<Longrightarrow> safe (f v)) \<Longrightarrow> safe (case o' of None \<Rightarrow> x | Some v \<Rightarrow> f v)"
  by (simp split: option.split)

lemma safe_sum [safe_intros]:
  "(\<And>x. safe (f x)) \<Longrightarrow> (\<And>y. safe (g y)) \<Longrightarrow> safe (case r of Inl x \<Rightarrow> f x | Inr y \<Rightarrow> g y)"
  by (simp split: sum.split)

lemma safe_json [safe_intros]:
  "safe n \<Longrightarrow> (\<And>x. safe (b x)) \<Longrightarrow> (\<And>x. safe (i x)) \<Longrightarrow> (\<And>x. safe (f x)) \<Longrightarrow> (\<And>x. safe (s x)) \<Longrightarrow>
   (\<And>x. safe (a x)) \<Longrightarrow> (\<And>x. safe (ob x)) \<Longrightarrow> safe (case_json n b i f s a ob v)"
  by (simp split: json.split)

lemma safe_outcome [safe_intros]:
  "safe x \<Longrightarrow> (\<And>v. safe (f v)) \<Longrightarrow> safe (case o' of Throws \<Rightarrow> x | Returns v \<Rightarrow> f v)"
  by (simp split: outcome.split)

lemma safe_let [safe_intros]: "(\<And>x. safe (f x)) \<Longrightarrow> safe (let x = v in f x)"
  by simp

lemma safe_eval_arg [safe_intros]: "safe_args a \<Longrightarrow> safe (eval_arg strict a i)"
  by (auto simp: eval_arg_def safe_args_def intro!: safe_intros)

lemma safe_eval_predicate_arg [safe_intros]: "safe_args a \<Longrightarrow> safe (eval_predicate_arg strict a i)"
  by (auto simp: eval_predicate_arg_def safe_args_def intro!: safe_intros)

lemma safe_arity [safe_intros]: "safe m \<Longrightarrow> safe (arity_at_least a n name m)"
  by (simp add: arity_at_least_def safe_intros)

lemma safe_require_number [safe_intros]: "safe (require_number h v what)"
  by (simp add: require_number_def safe_intros)

lemma safe_regex [safe_intros]: "safe (regex_result r)"
  by (simp add: regex_result_def safe_intros)

lemma safe_cannot_parse [safe_intros]: "safe (cannot_parse h name v)"
  by (simp add: cannot_parse_def safe_intros)

lemma safe_derived_args [safe_intros]:
  assumes "safe_args a"
  shows "safe (array_arg strict a i)" "safe (number_arg h strict a i what)" "safe (text_arg h strict a i)"
    "safe (predicate_at strict a ip)"
  unfolding array_arg_def number_arg_def text_arg_def predicate_at_def
  by (intro safe_intros assms)+

lemma safe_more_args [safe_intros]:
  assumes "safe_args a"
  shows "safe (predicate_true strict a ip)" "safe (separator_arg h strict a)" "safe (algorithm_arg h strict a i)"
    "safe (integer_arg h strict a w i what d)"
  unfolding predicate_true_def separator_arg_def algorithm_arg_def integer_arg_def
  by (intro safe_intros assms)+

lemma safe_all_args [safe_intros]: "safe_args a \<Longrightarrow> safe (all_args strict a)"
  unfolding all_args_def by (rule safe_in_sequence_map) (simp add: safe_args_def)

lemma safe_args_tl [safe_intros]: "safe_args a \<Longrightarrow> safe_args (tl a)"
  by (cases a) (simp_all add: safe_args_def)

lemma safe_hd: "safe_args a \<Longrightarrow> a \<noteq> [] \<Longrightarrow> safe (ar_eval (hd a) strict)"
  by (simp add: safe_args_def)

text \<open>Every function of the table.\<close>

lemmas generic_functions =
  text_fun_def text_fun2_def value_fun_def conversion_def number_fun_def array_fun_def quantifier_def extremum_def

lemmas text_functions =
  f_len_def f_upper_def f_lower_def f_trim_def f_starts_with_def f_ends_with_def f_contains_def f_index_of_def
  f_substring_def f_replace_def f_split_def f_join_def f_concat_def f_keys_def f_values_def f_has_def f_get_def

lemmas conversion_functions =
  f_type_def f_is_number_def f_is_decimal_def f_is_integer_def f_is_string_def f_is_bool_def f_is_null_def
  f_is_empty_def f_is_array_def f_is_object_def f_to_string_def f_to_number_def f_to_int_def f_to_bool_def
  f_to_json_def f_from_json_def

lemmas arithmetic_functions =
  f_abs_def f_floor_def f_ceil_def f_round_def f_min_def f_max_def f_sum_def f_avg_def f_pow_def f_sqrt_def f_mod_def
  f_coalesce_def f_default_def f_if_def

lemmas time_functions =
  f_now_def f_timestamp_def f_format_date_def f_date_add_def f_base64_encode_def f_base64_decode_def
  f_url_encode_def f_hex_encode_def f_sha256_def f_md5_def f_hash_def f_hmac_def f_uuid_def f_random_int_def
  f_random_pin_def

lemmas collection_functions =
  f_sort_def f_reverse_def f_unique_def f_slice_def f_first_def f_last_def f_push_def f_merge_def f_count_def
  f_any_def f_all_def f_none_def f_filter_def f_map_def f_matches_def f_equals_def

lemma safe_text_functions [safe_intros]:
  assumes "safe_args a"
  shows "safe (f_len h strict a)" "safe (f_upper h strict a)" "safe (f_lower h strict a)" "safe (f_trim h strict a)"
    "safe (f_starts_with h strict a)" "safe (f_ends_with h strict a)" "safe (f_contains h strict a)"
    "safe (f_index_of h strict a)" "safe (f_substring h strict a)" "safe (f_replace h strict a)"
    "safe (f_split h strict a)" "safe (f_join h strict a)" "safe (f_concat h strict a)" "safe (f_keys h strict a)"
    "safe (f_values h strict a)" "safe (f_has h strict a)" "safe (f_get h strict a)"
  unfolding text_functions generic_functions by (intro safe_intros assms)+

lemma safe_conversion_functions [safe_intros]:
  assumes "safe_args a"
  shows "safe (f_type h strict a)" "safe (f_is_number h strict a)" "safe (f_is_decimal h strict a)"
    "safe (f_is_integer h strict a)" "safe (f_is_string h strict a)" "safe (f_is_bool h strict a)"
    "safe (f_is_null h strict a)" "safe (f_is_empty h strict a)" "safe (f_is_array h strict a)"
    "safe (f_is_object h strict a)" "safe (f_to_string h strict a)" "safe (f_to_number h strict a)"
    "safe (f_to_int h strict a)" "safe (f_to_bool h strict a)" "safe (f_to_json h strict a)"
    "safe (f_from_json h strict a)"
  unfolding conversion_functions generic_functions by (intro safe_intros assms)+

lemma safe_arg_eval [safe_intros]: "safe_args a \<Longrightarrow> x \<in> set a \<Longrightarrow> safe (ar_eval x strict)"
  by (simp add: safe_args_def)

lemma safe_arithmetic_functions [safe_intros]:
  assumes "safe_args a"
  shows "safe (f_abs h strict a)" "safe (f_floor h strict a)" "safe (f_ceil h strict a)" "safe (f_round h strict a)"
    "safe (f_min h strict a)" "safe (f_max h strict a)" "safe (f_sum h strict a)" "safe (f_avg h strict a)"
    "safe (f_pow h strict a)" "safe (f_sqrt h strict a)" "safe (f_mod h strict a)" "safe (f_coalesce h strict a)"
    "safe (f_default h strict a)" "safe (f_if h strict a)"
  unfolding arithmetic_functions generic_functions Let_def
  by ((rule assms | assumption | rule safe_intros)+)

lemma safe_time_functions [safe_intros]:
  assumes "safe_args a"
  shows "safe (f_now h strict a)" "safe (f_timestamp h strict a)" "safe (f_format_date h strict a)"
    "safe (f_date_add h strict a)" "safe (f_base64_encode h strict a)" "safe (f_base64_decode h strict a)"
    "safe (f_url_encode h strict a)" "safe (f_hex_encode h strict a)" "safe (f_sha256 h strict a)"
    "safe (f_md5 h strict a)" "safe (f_hash h strict a)" "safe (f_hmac h strict a)" "safe (f_uuid h strict a)"
    "safe (f_random_int h strict a)" "safe (f_random_pin h strict a)"
  unfolding time_functions generic_functions Let_def
  by ((rule assms | assumption | rule safe_intros)+)

lemma safe_collection_functions [safe_intros]:
  assumes "safe_args a"
  shows "safe (f_sort h strict a)" "safe (f_reverse h strict a)" "safe (f_unique h strict a)" "safe (f_slice h strict a)"
    "safe (f_first h strict a)" "safe (f_last h strict a)" "safe (f_push h strict a)" "safe (f_merge h strict a)"
    "safe (f_count h strict a)" "safe (f_any h strict a)" "safe (f_all h strict a)" "safe (f_none h strict a)"
    "safe (f_filter h strict a)" "safe (f_map h strict a)" "safe (f_matches h strict a)" "safe (f_equals h strict a)"
  unfolding collection_functions generic_functions Let_def
  by ((rule assms | assumption | rule safe_intros)+)

lemma safe_table: "safe_args a \<Longrightarrow> map_of sel_table name = Some f \<Longrightarrow> safe (f h strict a)"
proof -
  assume a: "safe_args a" and "map_of sel_table name = Some f"
  then have "f \<in> snd ` set sel_table" by (auto dest: map_of_SomeD intro: rev_image_eqI)
  with a show ?thesis
    by (auto simp: sel_table_def intro: safe_text_functions safe_conversion_functions safe_arithmetic_functions
        safe_time_functions safe_collection_functions)
qed

lemma safe_call_function [safe_intros]: "safe_args a \<Longrightarrow> safe (call_function name h strict a method)"
  unfolding call_function_def
  by (auto split: option.split intro!: safe_intros safe_hd intro: safe_table)

lemma safe_order_values [safe_intros]: "safe (order_values op l r)"
  unfolding order_values_def by (intro safe_intros)+

lemma safe_eval_unary [safe_intros]: "safe (eval_unary h op v)"
  unfolding eval_unary_def by (intro safe_intros)+

lemma safe_eval_binary [safe_intros]: "safe (eval_binary h op l r)"
  unfolding eval_binary_def
  by (cases "to_number l"; cases "to_number r"; simp only: prod.case option.case; intro safe_intros)

lemma safe_eval_variable [safe_intros]: "safe (eval_variable h strict name dollar)"
  by (auto simp: safe_def eval_variable_def split: option.split)

text \<open>An evaluator that is safe on all trees that need at most \<open>n\<close>.\<close>

definition safe_below :: "nat \<Rightarrow> sel_eval \<Rightarrow> bool" where
  "safe_below n ev \<longleftrightarrow> (\<forall>strict e. need e \<le> n \<longrightarrow> safe (ev strict e))"

lemma safe_belowD: "safe_below n ev \<Longrightarrow> need e \<le> n \<Longrightarrow> safe (ev strict e)"
  by (simp add: safe_below_def)

lemma safe_eval_predicate:
  assumes "safe_below n ev" and "need e \<le> n"
  shows "safe (eval_predicate ev strict e)"
proof (cases "\<exists>t. e = Literal (JStr t)")
  case True
  then obtain t where t: "e = Literal (JStr t)" by blast
  have "safe (\<lambda>s. case ev strict p s of (Thr _, s') \<Rightarrow> (Val (JStr t), s') | r \<Rightarrow> r)" if "compile t = Inr p" for p
  proof -
    have "need p \<le> n" using compile_need [OF that] assms(2) by (simp add: t)
    then have "safe (ev strict p)" by (rule safe_belowD [OF assms(1)])
    then show ?thesis unfolding safe_def by (fastforce split: prod.splits ev.splits)
  qed
  then show ?thesis by (auto simp: t eval_predicate_def split: sum.split intro: safe_ret)
next
  case False
  then have "eval_predicate ev strict e = ev strict e"
    by (auto simp: eval_predicate_def split: sel.split json.split)
  then show ?thesis using assms by (simp add: safe_belowD)
qed

lemma needs_member: "e \<in> set es \<Longrightarrow> need e \<le> needs es"
  by (rule member_le_sum_list) simp_all

lemma safe_as_args:
  "safe_below n ev \<Longrightarrow> needs es \<le> n \<Longrightarrow> safe_args (map (as_arg ev) es)"
  by (auto simp: safe_args_def as_arg_def intro!: safe_belowD safe_eval_predicate dest!: needs_member)

lemma safe_eval_node:
  assumes "safe_below n ev" and "need e \<le> Suc n"
  shows "safe (eval_node h ev strict e)"
proof -
  note ev = safe_belowD [OF assms(1)]
  show ?thesis
  proof (cases e)
    case (Call name args)
    with assms have "safe_args (map (as_arg ev) args)" by (intro safe_as_args) simp_all
    with Call show ?thesis by (simp add: safe_call_function)
  next
    case (MethodCall b name args opt)
    with assms have "safe_args (map (as_arg ev) (b # args))" by (intro safe_as_args) simp_all
    then have "safe (call_function name h strict (map (as_arg ev) (b # args)) True)" by (rule safe_call_function)
    with MethodCall show ?thesis by simp
  next
    case (ArrayLiteral es)
    with assms(2) show ?thesis
      by (auto intro!: safe_intros ev dest!: needs_member)
  next
    case (ObjectLiteral es)
    have "need (snd p) \<le> n" if "p \<in> set es" for p
    proof -
      have "need (snd p) \<in> set (map (\<lambda>p. need (snd p)) es)" using that by auto
      from member_le_sum_list [OF this] show ?thesis using assms(2) ObjectLiteral by simp
    qed
    then show ?thesis using ObjectLiteral by (auto intro!: safe_intros ev)
  qed (use assms(2) in \<open>auto split: option.split json.split intro!: safe_intros ev\<close>)
qed

theorem eval_sel_safe: "need e \<le> n \<Longrightarrow> safe (eval_sel h n strict e)"
proof (induction n arbitrary: strict e)
  case 0
  moreover have "0 < need e" by (cases e) (simp_all split: json.split)
  ultimately show ?case by simp
next
  case (Suc n)
  then have "safe_below n (eval_sel h n)" by (simp add: safe_below_def)
  with Suc.prems show ?case by (auto intro: safe_eval_node)
qed

section \<open>Properties\<close>

text \<open>
  C3: Compiling a text ends with a tree or a syntax error, and evaluating the tree ends: however the variables
  resolve, strictly or not, in whatever state, the evaluator never nests deeper than the text is long, also through
  the texts it compiles as predicates on the way.
\<close>

theorem compile_and_evaluate_end:
  "(case parse_program src of
      Parsed e rest \<Rightarrow> rest = [] \<and> (\<forall>h strict s. fst (run_text h strict src e s) \<noteq> Deep)
    | Refused _ \<Rightarrow> True | NoFuel \<Rightarrow> False)"
proof -
  have "fst (run_text h strict src e s) \<noteq> Deep" if "need e \<le> length src" for e h strict s
    using eval_sel_safe [OF that] safeD [of "run_text h strict src e" s] by (metis prod.collapse run_text_def)
  then show ?thesis using parse_program_fine [of src] by (auto split: pres.splits)
qed

text \<open>
  C25: Evaluation keeps the local variables: all but the iterator variables \<open>item\<close> and \<open>index\<close> have the value they
  had, on success and on every error; from a state without locals it ends in one without locals.
\<close>

theorem evaluation_keeps_locals:
  assumes "compile src = Inr e" and "run_text h strict src e s = (r, t)"
  shows "(\<forall>x. x \<notin> {''item'', ''index''} \<longrightarrow> map_of (ss_locals t) x = map_of (ss_locals s) x) \<and>
         (ss_locals s = [] \<longrightarrow> ss_locals t = [])"
proof -
  have "safe (run_text h strict src e)"
    unfolding run_text_def by (rule eval_sel_safe) (rule compile_need [OF assms(1)])
  then have "same_locals s t" using safeD assms(2) by blast
  then show ?thesis by (auto simp: same_locals_def erase_iterators_def)
qed

definition sample_host :: "(string \<times> json) list \<Rightarrow> sel_host" where
  "sample_host vars =
     \<lparr>ho_resolve = map_of vars, ho_dump = (\<lambda>v. []), ho_parse = (\<lambda>t. None), ho_search = (\<lambda>t p. Inr False),
      ho_match = (\<lambda>t p. Inr False), ho_clock = (\<lambda>k. 0), ho_bytes = (\<lambda>k n. replicate n 0),
      ho_digits = (\<lambda>k n. replicate n 0), ho_integer = (\<lambda>k lo hi. lo), ho_strftime = (\<lambda>f b. []),
      ho_pow = (\<lambda>x y. x), ho_sqrt = (\<lambda>x. x)\<rparr>"

lemma compile_count_text: "compile ''count(xs, item)'' =
    Inr (Call ''count'' [Variable ''xs'' False, Variable ''item'' False])"
  by code_simp

theorem evaluation_keeps_locals_witness:
  "\<exists>r t. run_text (sample_host [(''xs'', JArr [JInt 1])]) True ''count(xs, item)''
            (Call ''count'' [Variable ''xs'' False, Variable ''item'' False]) (fresh_state 0) = (r, t) \<and> ss_locals t = []"
proof -
  obtain r t where run: "run_text (sample_host [(''xs'', JArr [JInt 1])]) True ''count(xs, item)''
      (Call ''count'' [Variable ''xs'' False, Variable ''item'' False]) (fresh_state 0) = (r, t)"
    by (metis prod.collapse)
  from evaluation_keeps_locals [OF compile_count_text run] have "ss_locals t = []" by (simp add: fresh_state_def)
  with run show ?thesis by blast
qed

lemma compile_map_text: "compile ''map(os, item.id)'' =
    Inr (Call ''map'' [Variable ''os'' False, Member (Variable ''item'' False) ''id'' False])"
  by code_simp

lemma in_sequence_constant:
  "(\<And>m s. m \<in> set ms \<Longrightarrow> \<exists>t. m s = (Val v, t)) \<Longrightarrow> \<exists>t. in_sequence ms s = (Val (replicate (length ms) v), t)"
proof (induction ms arbitrary: s)
  case (Cons m ms)
  obtain t where t: "m s = (Val v, t)" using Cons.prems [of m s] by auto
  obtain u where "in_sequence ms t = (Val (replicate (length ms) v), u)" using Cons by (metis list.set_intros(2))
  with t show ?case by (simp add: sbind_def ret_def)
qed (simp add: ret_def)

lemma map_of_outer_field:
  assumes "ho_resolve h ''os'' = Some (JArr xs)" and "ho_resolve h ''item.id'' = Some v"
  shows "fst (eval_sel h (Suc (Suc n)) strict
           (Call ''map'' [Variable ''os'' False, Member (Variable ''item'' False) ''id'' False]) (fresh_state k)) =
         Val (JArr (replicate (length xs) v))"
proof -
  define ev where "ev = eval_sel h (Suc n)"
  define a where "a = map (as_arg ev) [Variable ''os'' False, Member (Variable ''item'' False) ''id'' False]"
  have field: "\<exists>t. predicate_at strict a ip s = (Val v, t)" for ip s
    using assms(2) by (simp add: predicate_at_def eval_predicate_arg_def a_def as_arg_def eval_predicate_def ev_def
        resolve_dotted_def in_scope_def ret_def)
  have os: "array_arg strict a 0 (fresh_state k) = (Val xs, fresh_state k)"
    using assms(1) by (simp add: array_arg_def eval_arg_def a_def as_arg_def ev_def eval_variable_def sbind_def ret_def
        array_value_def fresh_state_def)
  have all_fields: "\<exists>t. m s = (Val v, t)" if "m \<in> set (map (predicate_at strict a) ps)" for m s ps
    using that field by auto
  have len: "length (positions xs) = length xs" by (simp add: positions_def)
  have "\<exists>t. in_sequence (map (predicate_at strict a) (positions xs)) (fresh_state k) = (Val (replicate (length xs) v), t)"
    using in_sequence_constant [of "map (predicate_at strict a) (positions xs)" v "fresh_state k"] all_fields len
    by (simp only: length_map)
  then have "fst (f_map h strict a (fresh_state k)) = Val (JArr (replicate (length xs) v))"
    using os by (auto simp: f_map_def sbind_def ret_def a_def)
  moreover have "map_of sel_table ''map'' = Some f_map" by (simp add: sel_table_def)
  ultimately show ?thesis by (simp add: call_function_def a_def ev_def)
qed

text \<open>
  A field of the iterator variable is looked up by its dotted name in the context first: where an enclosing scope
  has an \<open>item\<close> (a loop of the blueprint), \<open>map(os, item.id)\<close> gives its field for every element.
\<close>

theorem iterator_field_reads_outer:
  assumes "ho_resolve h ''os'' = Some (JArr xs)" and "ho_resolve h ''item.id'' = Some v"
  shows "\<exists>e. compile ''map(os, item.id)'' = Inr e \<and>
           fst (run_text h strict ''map(os, item.id)'' e (fresh_state k)) = Val (JArr (replicate (length xs) v))"
proof -
  let ?e = "Call ''map'' [Variable ''os'' False, Member (Variable ''item'' False) ''id'' False]"
  have "length ''map(os, item.id)'' = Suc (Suc 14)" by simp
  with map_of_outer_field [OF assms] have "fst (run_text h strict ''map(os, item.id)'' ?e (fresh_state k)) =
      Val (JArr (replicate (length xs) v))"
    unfolding run_text_def by metis
  with compile_map_text show ?thesis by blast
qed

theorem iterator_field_reads_outer_witness:
  "\<exists>e. compile ''map(os, item.id)'' = Inr e \<and>
     fst (run_text (sample_host [(''os'', JArr [JNull, JNull]), (''item.id'', JInt 99)]) True ''map(os, item.id)'' e
       (fresh_state 0)) = Val (JArr [JInt 99, JInt 99])"
  using iterator_field_reads_outer [where h = "sample_host [(''os'', JArr [JNull, JNull]), (''item.id'', JInt 99)]"
      and xs = "[JNull, JNull]" and v = "JInt 99" and strict = True and k = 0]
  by (simp add: sample_host_def)

end
