(* ===== verification/Sapo_Expression.thy ===== *)
theory Sapo_Expression
  imports Sapo_SelEval Sapo_Context Sapo_Ast
begin

text \<open>
  Expressions as the engine uses them: string templates with interpolations (\<open>Template\<close> and
  \<open>ExpressionCache::getOrCompileTemplate\<close>), the compiled handle of a node's field (\<open>Expression\<close>, the end of
  \<open>src/src/runtime/expressions/Sel.cpp\<close>), the resolver of a scope (\<open>ContextResolver\<close>), the bindings outside the
  context (\<open>Bindings.hpp\<close>), and the evaluator's entry points (\<open>runtime/ExpressionEvaluator.cpp\<close>).  The scanner of
  templates takes the compiler of the slots and its state as parameters: with the caches it is the source's
  function, with the bare compiler the reference it is shown to agree with.
\<close>

section \<open>Templates\<close>

text \<open>A piece of a template: text, or the text of a slot with its program.\<close>

datatype segment = Plain string | Slot string sel

record tpl =
  tp_source :: string
  tp_segments :: "segment list"

definition is_single_interpolation :: "tpl \<Rightarrow> bool" where
  "is_single_interpolation t = (case tp_segments t of [Slot _ _] \<Rightarrow> True | _ \<Rightarrow> False)"

definition is_plain_template :: "tpl \<Rightarrow> bool" where
  "is_plain_template t = (case tp_segments t of [Plain lit] \<Rightarrow> lit = tp_source t | _ \<Rightarrow> False)"

text \<open>The text of a \<open>${\<dots>}\<close> slot up to its brace, braces nested and quotes respected.\<close>

fun slot_body :: "char option \<Rightarrow> nat \<Rightarrow> string \<Rightarrow> (string \<times> string) option" where
  "slot_body q d [] = None"
| "slot_body (Some q) d (c # cs) =
     (if c = CHR 0x5C then
        (case cs of [] \<Rightarrow> None | x # r \<Rightarrow> map_option (\<lambda>(b, rest). (c # x # b, rest)) (slot_body (Some q) d r))
      else map_option (\<lambda>(b, rest). (c # b, rest)) (slot_body (if c = q then None else Some q) d cs))"
| "slot_body None d (c # cs) =
     (if c = CHR 0x22 \<or> c = CHR 0x27 then map_option (\<lambda>(b, rest). (c # b, rest)) (slot_body (Some c) d cs)
      else if c = CHR ''}'' \<and> d = 1 then Some ([], cs)
      else map_option (\<lambda>(b, rest). (c # b, rest))
             (slot_body None (if c = CHR ''{'' then Suc d else if c = CHR ''}'' then d - 1 else d) cs))"

text \<open>The path of a \<open>$name.part[0]\<close> reference: the name, dotted parts, bracketed parts.\<close>

fun starts_part :: "string \<Rightarrow> bool" where
  "starts_part (d # c # r) = (d = CHR ''.'' \<and> is_ident_start c)"
| "starts_part _ = False"

function dotted_parts :: "string \<Rightarrow> string \<times> string" where
  "dotted_parts s =
     (if starts_part s
      then (let (p, rest) = dotted_parts (dropWhile is_ident_char (tl s))
            in (CHR ''.'' # takeWhile is_ident_char (tl s) @ p, rest))
      else ([], s))"
  by pat_completeness auto

termination dotted_parts
proof (relation "measure length")
  fix s :: string
  assume "starts_part s"
  then show "(dropWhile is_ident_char (tl s), s) \<in> measure length"
    using length_dropWhile_le [of is_ident_char "tl s"] by (cases s) auto
qed simp

declare dotted_parts.simps [simp del]

function bracket_parts :: "string \<Rightarrow> string \<times> string" where
  "bracket_parts s =
     (if s \<noteq> [] \<and> hd s = CHR ''['' \<and> CHR '']'' \<in> set s
      then (let (p, rest) = bracket_parts (tl (dropWhile (\<lambda>c. c \<noteq> CHR '']'') s))
            in (takeWhile (\<lambda>c. c \<noteq> CHR '']'') s @ CHR '']'' # p, rest))
      else ([], s))"
  by pat_completeness auto

termination bracket_parts
proof (relation "measure length")
  fix s :: string
  assume "s \<noteq> [] \<and> hd s = CHR ''['' \<and> CHR '']'' \<in> set s"
  then show "(tl (dropWhile (\<lambda>c. c \<noteq> CHR '']'') s), s) \<in> measure length"
    using length_dropWhile_le [of "\<lambda>c. c \<noteq> CHR '']''" "tl s"] by (cases s) auto
qed simp

declare bracket_parts.simps [simp del]

definition reference_path :: "string \<Rightarrow> string \<times> string" where
  "reference_path s =
     (let (parts, r1) = dotted_parts (dropWhile is_ident_char s); (idx, r2) = bracket_parts r1
      in (takeWhile is_ident_char s @ parts @ idx, r2))"

lemma slot_body_length: "slot_body q d s = Some (b, rest) \<Longrightarrow> length rest < length s"
  by (induction q d s arbitrary: b rest rule: slot_body.induct) (fastforce split: if_splits list.splits)+

lemma dotted_parts_length: "length (snd (dotted_parts s)) \<le> length s"
proof (induction s rule: dotted_parts.induct)
  case (1 s)
  show ?case
  proof (cases "starts_part s")
    case True
    with 1 have "length (snd (dotted_parts (dropWhile is_ident_char (tl s)))) \<le> length (tl s)"
      using length_dropWhile_le [of is_ident_char "tl s"] order_trans by blast
    with True show ?thesis by (subst dotted_parts.simps) (auto simp: Let_def split: prod.splits)
  qed (subst dotted_parts.simps, simp)
qed

lemma bracket_parts_length: "length (snd (bracket_parts s)) \<le> length s"
proof (induction s rule: bracket_parts.induct)
  case (1 s)
  show ?case
  proof (cases "s \<noteq> [] \<and> hd s = CHR ''['' \<and> CHR '']'' \<in> set s")
    case True
    with 1 have "length (snd (bracket_parts (tl (dropWhile (\<lambda>c. c \<noteq> CHR '']'') s)))) \<le> length (tl (dropWhile (\<lambda>c. c \<noteq> CHR '']'') s))"
      by blast
    also have "\<dots> \<le> length s" using length_dropWhile_le [of "\<lambda>c. c \<noteq> CHR '']''" s] by simp
    finally show ?thesis using True by (subst bracket_parts.simps) (auto simp: Let_def split: prod.splits)
  qed (subst bracket_parts.simps, auto)
qed

lemma reference_path_length: "reference_path s = (p, rest) \<Longrightarrow> length rest \<le> length s"
  using bracket_parts_length [of "snd (dotted_parts (dropWhile is_ident_char s))"]
    dotted_parts_length [of "dropWhile is_ident_char s"] length_dropWhile_le [of is_ident_char s]
  by (auto simp: reference_path_def split: prod.splits)

definition add_literal :: "string \<Rightarrow> segment list \<Rightarrow> segment list" where
  "add_literal lit segs = (if lit = [] then segs else Plain lit # segs)"

definition unterminated :: "string \<Rightarrow> sapo_error" where
  "unterminated src =
     sapo_error ExpressionErr (''unterminated '' @ [CHR 0x27] @ ''${'' @ [CHR 0x27] @ '' interpolation'')
       (jobj [(''expression'', JStr src)]) []"

text \<open>What stands at the head of the text: an escaped dollar sign, a slot, an open slot or a literal character.\<close>

datatype piece = Dollar string | Interp string string | Open_slot | Letter char string

fun next_piece :: "char \<Rightarrow> string \<Rightarrow> piece" where
  "next_piece x [] = Letter x []"
| "next_piece x (y # r) =
     (if (x = CHR 0x5C \<or> x = CHR ''$'') \<and> y = CHR ''$'' then Dollar r
      else if x = CHR ''$'' \<and> y = CHR ''{'' then
        (case slot_body None 1 r of None \<Rightarrow> Open_slot | Some (inner, rest) \<Rightarrow> Interp inner rest)
      else if x = CHR ''$'' \<and> is_ident_start y then (case reference_path (y # r) of (p, rest) \<Rightarrow> Interp p rest)
      else Letter x (y # r))"

lemma next_piece_length:
  "next_piece x r = Dollar r' \<Longrightarrow> length r' \<le> length r"
  "next_piece x r = Interp t r' \<Longrightarrow> length r' \<le> length r"
  "next_piece x r = Letter c r' \<Longrightarrow> length r' \<le> length r"
  by (cases r, auto split: if_splits option.splits prod.splits dest: slot_body_length reference_path_length)+

function scan_template ::
    "(string \<Rightarrow> 'c \<Rightarrow> sel res \<times> 'c) \<Rightarrow> string \<Rightarrow> string \<Rightarrow> string \<Rightarrow> 'c \<Rightarrow> segment list res \<times> 'c" where
  "scan_template get src lit [] c = (Inr (add_literal lit []), c)"
| "scan_template get src lit (x # r) c =
     (case next_piece x r of
        Dollar r' \<Rightarrow> scan_template get src (lit @ ''$'') r' c
      | Open_slot \<Rightarrow> (Inl (unterminated src), c)
      | Interp t r' \<Rightarrow>
          (case get t c of
             (Inl e, c') \<Rightarrow> (Inl e, c')
           | (Inr p, c') \<Rightarrow>
               (case scan_template get src [] r' c' of
                  (Inl e, c'') \<Rightarrow> (Inl e, c'')
                | (Inr segs, c'') \<Rightarrow> (Inr (add_literal lit (Slot t p # segs)), c'')))
      | Letter y r' \<Rightarrow> scan_template get src (lit @ [y]) r' c)"
  by pat_completeness auto

termination scan_template
  by (relation "measure (\<lambda>(get, src, lit, s, c). length s)") (auto dest: next_piece_length simp: less_Suc_eq_le)

definition build_template :: "(string \<Rightarrow> 'c \<Rightarrow> sel res \<times> 'c) \<Rightarrow> string \<Rightarrow> 'c \<Rightarrow> tpl res \<times> 'c" where
  "build_template get src c =
     (case scan_template get src [] src c of
        (Inl e, c') \<Rightarrow> (Inl e, c')
      | (Inr segs, c') \<Rightarrow> (Inr \<lparr>tp_source = src, tp_segments = (if segs = [] then [Plain []] else segs)\<rparr>, c'))"

text \<open>The two caches of \<open>ExpressionCache\<close>: programs and templates.\<close>

definition get_or_compile_template :: "string \<Rightarrow> sel cache \<times> tpl cache \<Rightarrow> tpl res \<times> sel cache \<times> tpl cache" where
  "get_or_compile_template src cs =
     (case map_of (snd cs) src of
        Some t \<Rightarrow> (Inr t, cs)
      | None \<Rightarrow>
          (case build_template get_or_compile src (fst cs) of
             (Inl e, ps) \<Rightarrow> (Inl e, ps, snd cs)
           | (Inr t, ps) \<Rightarrow>
               (Inr t, ps, obj_set src t (if cache_soft_limit \<le> length (snd cs) then [] else snd cs))))"

definition compile_template :: "string \<Rightarrow> tpl res" where
  "compile_template src = fst (build_template (\<lambda>t u. (compile t, u)) src ())"

section \<open>Rendering\<close>

definition run_program :: "sel_host \<Rightarrow> bool \<Rightarrow> sel \<Rightarrow> json comp" where
  "run_program h strict e = eval_sel h (need e) strict e"

fun segment_text :: "sel_host \<Rightarrow> bool \<Rightarrow> segment \<Rightarrow> string comp" where
  "segment_text h strict (Plain t) = ret t"
| "segment_text h strict (Slot t e) =
     sbind (run_program h strict e) (\<lambda>v. ret (case v of JStr s \<Rightarrow> s | JNull \<Rightarrow> [] | _ \<Rightarrow> str_value (ho_dump h) v))"

definition render :: "sel_host \<Rightarrow> bool \<Rightarrow> tpl \<Rightarrow> json comp" where
  "render h strict t =
     (case tp_segments t of
        [Slot _ e] \<Rightarrow> run_program h strict e
      | segs \<Rightarrow> sbind (in_sequence (map (segment_text h strict) segs)) (\<lambda>ts. ret (JStr (concat ts))))"

section \<open>Handles\<close>

record handle =
  xp_source :: string
  xp_program :: "sel option"
  xp_template :: "tpl option"

definition empty_handle :: handle where
  "empty_handle = \<lparr>xp_source = [], xp_program = None, xp_template = None\<rparr>"

definition template_handle :: "string \<Rightarrow> handle res" where
  "template_handle src =
     (if src = [] then Inr empty_handle
      else case compile_template src of
             Inl e \<Rightarrow> Inl e
           | Inr t \<Rightarrow> Inr \<lparr>xp_source = src,
                           xp_program = (case tp_segments t of [Slot _ e] \<Rightarrow> Some e | _ \<Rightarrow> None), xp_template = Some t\<rparr>)"

definition program_handle :: "string \<Rightarrow> handle res" where
  "program_handle src =
     (if src = [] then Inr empty_handle
      else case compile src of
             Inl e \<Rightarrow> Inl e
           | Inr p \<Rightarrow> (case compile_template src of
                         Inl e \<Rightarrow> Inl e
                       | Inr t \<Rightarrow> Inr \<lparr>xp_source = src, xp_program = Some p, xp_template = Some t\<rparr>))"

definition literal_handle :: "sel_host \<Rightarrow> json \<Rightarrow> handle" where
  "literal_handle h v =
     \<lparr>xp_source = ho_dump h v, xp_program = Some (Literal v),
      xp_template = Some \<lparr>tp_source = ho_dump h v, tp_segments = [Plain (ho_dump h v)]\<rparr>\<rparr>"

text \<open>Every evaluation has a state of its own; the readings of clock and random source go on.\<close>

definition in_new_state :: "'a comp \<Rightarrow> 'a comp" where
  "in_new_state m = (\<lambda>s. case m (s\<lparr>ss_locals := []\<rparr>) of (r, s') \<Rightarrow> (r, s'\<lparr>ss_locals := ss_locals s\<rparr>))"

definition resolve_handle :: "sel_host \<Rightarrow> bool \<Rightarrow> handle \<Rightarrow> json comp" where
  "resolve_handle h strict x =
     (if xp_source x = [] then ret (JStr (xp_source x))
      else case xp_template x of
             Some t \<Rightarrow> (if is_plain_template t then ret (JStr (xp_source x)) else in_new_state (render h strict t))
           | None \<Rightarrow> (case xp_program x of Some e \<Rightarrow> in_new_state (run_program h strict e) | None \<Rightarrow> ret (JStr (xp_source x))))"

definition resolve_json_handle :: "sel_host \<Rightarrow> bool \<Rightarrow> json \<Rightarrow> handle \<Rightarrow> json comp" where
  "resolve_json_handle h strict fallback x = (if xp_source x = [] then ret fallback else resolve_handle h strict x)"

definition evaluate_handle :: "sel_host \<Rightarrow> bool \<Rightarrow> handle \<Rightarrow> json comp" where
  "evaluate_handle h strict x =
     (if xp_source x = [] then ret JNull
      else case xp_program x of
             Some e \<Rightarrow> in_new_state (run_program h strict e)
           | None \<Rightarrow> (case xp_template x of Some t \<Rightarrow> in_new_state (render h strict t) | None \<Rightarrow> ret (JStr (xp_source x))))"

definition evaluate_bool_handle :: "sel_host \<Rightarrow> bool \<Rightarrow> handle \<Rightarrow> bool comp" where
  "evaluate_bool_handle h strict x = sbind (evaluate_handle h strict x) (\<lambda>v. ret (truthy v))"

text \<open>A handle of a node's field, as the parser compiled it.\<close>

fun handle_of :: "sel_host \<Rightarrow> expression \<Rightarrow> handle res" where
  "handle_of h NoExpression = Inr empty_handle"
| "handle_of h (Template_of s) = template_handle s"
| "handle_of h (Program_of s) = program_handle s"
| "handle_of h (Literal_of v) = Inr (literal_handle h v)"

section \<open>Structured expressions\<close>

text \<open>\<open>normalizeSource\<close>: the text of a condition given as an object; \<open>None\<close> when a typed getter throws.\<close>

definition looks_compound :: "string \<Rightarrow> bool" where
  "looks_compound t = list_ex (\<lambda>c. c \<in> set ''=<>+-*/%?&|'') t"

fun joined_options :: "string option list \<Rightarrow> string option" where
  "joined_options [] = Some []"
| "joined_options [x] = x"
| "joined_options (x # xs) =
     (case (x, joined_options xs) of (Some s, Some t) \<Rightarrow> Some (s @ '', '' @ t) | _ \<Rightarrow> None)"

definition number_or_flag :: "json \<Rightarrow> bool" where
  "number_or_flag v = (case v of JBool _ \<Rightarrow> True | JInt _ \<Rightarrow> True | JFloat _ \<Rightarrow> True | _ \<Rightarrow> False)"

lemma size_member: "map_of ob k = Some w \<Longrightarrow> size w < size (JObj ob)"
  by (induction ob) (auto split: if_splits)

lemma jget_size: "jget k v = Some w \<Longrightarrow> size w < size v"
  by (cases v) (simp_all add: size_member del: json.size)

lemma jvalue_size: "jcontains k' v \<Longrightarrow> size (jvalue k JNull v) < size v"
  by (auto simp: jvalue_def jcontains_def jget_size dest: jget_size split: option.splits)

lemma jitems_size: "x \<in> set (jitems v) \<Longrightarrow> size x < size v"
  by (cases v) (auto dest: size_list_estimation' [where f = size] simp: less_Suc_eq_le)

definition endpoint_text :: "json \<Rightarrow> string option \<Rightarrow> string option" where
  "endpoint_text v normal =
     (case v of JStr t \<Rightarrow> Some (if looks_compound t then ''('' @ t @ '')'' else t) | _ \<Rightarrow> normal)"

definition comparison_text :: "json \<Rightarrow> string option \<Rightarrow> string option \<Rightarrow> string option" where
  "comparison_text v l r =
     (case (endpoint_text (jvalue ''left'' JNull v) l, jvalue ''operator'' (JStr ''=='') v,
            endpoint_text (jvalue ''right'' JNull v) r) of
        (Some l', JStr op, Some r') \<Rightarrow> Some (''('' @ l' @ '') '' @ op @ '' ('' @ r' @ '')'')
      | _ \<Rightarrow> None)"

definition call_text :: "json \<Rightarrow> string option list \<Rightarrow> string option" where
  "call_text v args =
     (case (jvalue ''function'' JNull v, joined_options args) of
        (JStr f, Some as) \<Rightarrow> Some (f @ ''('' @ as @ '')'')
      | _ \<Rightarrow> None)"

function normalize_source :: "(json \<Rightarrow> string) \<Rightarrow> json \<Rightarrow> string option" where
  "normalize_source dump v =
     (if v = JNull then Some ''null''
      else if number_or_flag v then Some (dump v)
      else if is_string v then Some (case v of JStr s \<Rightarrow> s | _ \<Rightarrow> [])
      else if jcontains ''operator'' v \<and> (jcontains ''left'' v \<or> jcontains ''right'' v) then
        comparison_text v (normalize_source dump (jvalue ''left'' JNull v)) (normalize_source dump (jvalue ''right'' JNull v))
      else if jcontains ''function'' v then
        call_text v (map (normalize_source dump) (jitems (jvalue ''args'' JNull v)))
      else Some (dump v))"
  by pat_completeness auto

termination normalize_source
  by (relation "measure (\<lambda>(dump, v). size v)") (auto dest: jitems_size jvalue_size intro: less_trans [OF jitems_size jvalue_size])

declare normalize_source.simps [simp del]

definition handle_from_json :: "sel_host \<Rightarrow> json \<Rightarrow> handle ev" where
  "handle_from_json h v =
     (case v of
        JStr s \<Rightarrow> (case template_handle s of Inl e \<Rightarrow> Thr e | Inr x \<Rightarrow> Val x)
      | JNull \<Rightarrow> Val empty_handle
      | _ \<Rightarrow>
        (if number_or_flag v then Val (literal_handle h v)
         else case normalize_source (ho_dump h) v of
                None \<Rightarrow> Crash
              | Some s \<Rightarrow> (case template_handle s of Inl e \<Rightarrow> Thr e | Inr x \<Rightarrow> Val x)))"

section \<open>Scopes\<close>

text \<open>A provider of bindings answers a namespace and a key; \<open>EnvironmentBindingProvider\<close> with the process
  environment as a parameter, and \<open>CompositeBindingProvider\<close>.\<close>

type_synonym lookup = "string \<Rightarrow> string \<Rightarrow> json option"

definition env_lookup :: "(string \<Rightarrow> string option) \<Rightarrow> lookup" where
  "env_lookup getenv ns key = (if ns = ''env'' then map_option JStr (getenv key) else None)"

fun composite_lookup :: "lookup list \<Rightarrow> lookup" where
  "composite_lookup [] ns key = None"
| "composite_lookup (p # ps) ns key = (case p ns key of Some v \<Rightarrow> Some v | None \<Rightarrow> composite_lookup ps ns key)"

record scope =
  sc_context :: "ctx option"
  sc_bindings :: "lookup option"
  sc_locals :: json
  sc_strict :: bool
  sc_node :: string

definition with_locals :: "json \<Rightarrow> scope \<Rightarrow> scope" where
  "with_locals extra sc = sc\<lparr>sc_locals := (if is_object extra then extra else JObj [])\<rparr>"

definition for_node :: "string \<Rightarrow> scope \<Rightarrow> scope" where
  "for_node node sc = sc\<lparr>sc_node := node\<rparr>"

definition relaxed :: "scope \<Rightarrow> scope" where
  "relaxed sc = sc\<lparr>sc_strict := False\<rparr>"

definition name_head :: "string \<Rightarrow> string" where
  "name_head name = takeWhile (\<lambda>c. c \<noteq> CHR ''.'') name"

definition name_rest :: "string \<Rightarrow> string" where
  "name_rest name = tl (dropWhile (\<lambda>c. c \<noteq> CHR ''.'') name)"

definition namespaced :: "string \<Rightarrow> bool" where
  "namespaced name \<longleftrightarrow> CHR ''.'' \<in> set name \<and> name_rest name \<noteq> [] \<and>
     name_head name \<in> set [''env'', ''secret'', ''config'', ''provider'']"

definition local_value :: "json \<Rightarrow> string \<Rightarrow> json option" where
  "local_value locals name =
     (case jget name locals of
        Some v \<Rightarrow> Some v
      | None \<Rightarrow>
          (if CHR ''.'' \<in> set name
           then (case jget (name_head name) locals of Some base \<Rightarrow> get_path base (name_rest name) | None \<Rightarrow> None)
           else None))"

definition context_resolver :: "scope \<Rightarrow> string \<Rightarrow> json option" where
  "context_resolver sc name =
     (case local_value (sc_locals sc) name of
        Some v \<Rightarrow> Some v
      | None \<Rightarrow>
          (case Option.bind (sc_context sc) (get_by_path name) of
             Some v \<Rightarrow> Some v
           | None \<Rightarrow>
               (case sc_bindings sc of
                  Some b \<Rightarrow> (if namespaced name then b (name_head name) (name_rest name) else None)
                | None \<Rightarrow> None)))"

section \<open>The evaluator's entry points\<close>

definition in_host :: "sel_host \<Rightarrow> scope \<Rightarrow> sel_host" where
  "in_host h sc = h\<lparr>ho_resolve := context_resolver sc\<rparr>"

text \<open>An error gets the node of the scope, in its message too.\<close>

definition tagged_error :: "string \<Rightarrow> sapo_error \<Rightarrow> sapo_error" where
  "tagged_error node e =
     sapo_error (se_code e) (if node = [] then se_message e else ''['' @ node @ ''] '' @ se_message e) (se_data e) node"

definition tagged :: "scope \<Rightarrow> 'a comp \<Rightarrow> 'a comp" where
  "tagged sc m = (\<lambda>s. case m s of (Thr e, s') \<Rightarrow> (Thr (tagged_error (sc_node sc) e), s') | rs \<Rightarrow> rs)"

definition with_handle :: "handle res \<Rightarrow> (handle \<Rightarrow> 'a comp) \<Rightarrow> 'a comp" where
  "with_handle x f = (case x of Inl e \<Rightarrow> sthrow e | Inr y \<Rightarrow> f y)"

definition resolve_text :: "sel_host \<Rightarrow> scope \<Rightarrow> string \<Rightarrow> json comp" where
  "resolve_text h sc t =
     (if t = [] then ret (JStr t)
      else tagged sc (with_handle (template_handle t) (resolve_handle (in_host h sc) (sc_strict sc))))"

definition evaluate_text :: "sel_host \<Rightarrow> scope \<Rightarrow> string \<Rightarrow> json comp" where
  "evaluate_text h sc t =
     (if t = [] then ret JNull
      else tagged sc (with_handle (program_handle t) (evaluate_handle (in_host h sc) (sc_strict sc))))"

definition evaluate_expression :: "sel_host \<Rightarrow> scope \<Rightarrow> handle \<Rightarrow> json comp" where
  "evaluate_expression h sc x =
     (if xp_source x = [] then ret JNull else tagged sc (evaluate_handle (in_host h sc) (sc_strict sc) x))"

definition resolve_expression :: "sel_host \<Rightarrow> scope \<Rightarrow> handle \<Rightarrow> json comp" where
  "resolve_expression h sc x =
     (if xp_source x = [] then ret JNull else tagged sc (resolve_handle (in_host h sc) (sc_strict sc) x))"

definition evaluate_bool_text :: "sel_host \<Rightarrow> scope \<Rightarrow> string \<Rightarrow> bool comp" where
  "evaluate_bool_text h sc t = sbind (evaluate_text h sc t) (\<lambda>v. ret (truthy v))"

definition evaluate_bool_expression :: "sel_host \<Rightarrow> scope \<Rightarrow> handle \<Rightarrow> bool comp" where
  "evaluate_bool_expression h sc x = sbind (evaluate_expression h sc x) (\<lambda>v. ret (truthy v))"

text \<open>The overloads for a bare context: the default bindings, and the given or the process-wide strictness.\<close>

definition bare_scope :: "lookup \<Rightarrow> bool \<Rightarrow> ctx \<Rightarrow> scope" where
  "bare_scope bindings strict c =
     \<lparr>sc_context = Some c, sc_bindings = Some bindings, sc_locals = JObj [], sc_strict = strict, sc_node = []\<rparr>"

fun resolve_texts :: "sel_host \<Rightarrow> scope \<Rightarrow> (string \<times> string) list \<Rightarrow> json comp" where
  "resolve_texts h sc ts =
     sbind (in_sequence (map (\<lambda>p. resolve_text h sc (snd p)) ts)) (\<lambda>vs. ret (jobj (zip (map fst ts) vs)))"

fun resolve_handles :: "sel_host \<Rightarrow> scope \<Rightarrow> (string \<times> handle) list \<Rightarrow> json comp" where
  "resolve_handles h sc xs =
     sbind (in_sequence (map (\<lambda>p. if xp_source (snd p) = [] then ret (JStr []) else resolve_expression h sc (snd p)) xs))
       (\<lambda>vs. ret (jobj (zip (map fst xs) vs)))"

fun resolve_object :: "sel_host \<Rightarrow> scope \<Rightarrow> json \<Rightarrow> json comp" where
  "resolve_object h sc (JObj ob) =
     sbind (in_sequence (map (\<lambda>p. if is_object (snd p) then resolve_object h sc (snd p)
                              else case snd p of JStr t \<Rightarrow> resolve_text h sc t | v \<Rightarrow> ret v) ob))
       (\<lambda>vs. ret (jobj (zip (map fst ob) vs)))"
| "resolve_object h sc v = ret v"

section \<open>Lemmas\<close>

lemma safe_run_program [safe_intros]: "safe (run_program h strict e)"
  by (simp add: run_program_def eval_sel_safe)

lemma safe_segment_text [safe_intros]: "safe (segment_text h strict seg)"
  by (cases seg) (auto intro!: safe_intros)

lemma safe_render [safe_intros]: "safe (render h strict t)"
  unfolding render_def by (auto intro!: safe_intros split: list.splits segment.splits)

lemma safe_in_new_state [safe_intros]: "safe m \<Longrightarrow> safe (in_new_state m)"
  by (rule safeI) (auto simp: in_new_state_def same_locals_def split: prod.splits dest: safeD)

lemma safe_resolve_handle [safe_intros]: "safe (resolve_handle h strict x)"
  unfolding resolve_handle_def by (auto intro!: safe_intros split: option.splits)

lemma safe_evaluate_handle [safe_intros]: "safe (evaluate_handle h strict x)"
  unfolding evaluate_handle_def by (auto intro!: safe_intros split: option.splits)

lemma safe_tagged [safe_intros]: "safe m \<Longrightarrow> safe (tagged sc m)"
  by (rule safeI) (auto simp: tagged_def split: prod.splits ev.splits dest: safeD)

lemma safe_with_handle [safe_intros]: "(\<And>y. safe (f y)) \<Longrightarrow> safe (with_handle x f)"
  by (auto simp: with_handle_def intro!: safe_intros split: sum.splits)

lemma safe_entry_points [safe_intros]:
  "safe (resolve_text h sc t)" "safe (evaluate_text h sc t)" "safe (evaluate_expression h sc x)"
  "safe (resolve_expression h sc x)" "safe (evaluate_bool_text h sc t)" "safe (evaluate_bool_expression h sc x)"
  unfolding resolve_text_def evaluate_text_def evaluate_expression_def resolve_expression_def
    evaluate_bool_text_def evaluate_bool_expression_def
  by (auto intro!: safe_intros)

text \<open>A text with its dollar signs escaped.\<close>

fun escape_dollars :: "string \<Rightarrow> string" where
  "escape_dollars [] = []"
| "escape_dollars (c # cs) = (if c = CHR ''$'' then [CHR 0x5C, CHR ''$''] else [c]) @ escape_dollars cs"

lemma escape_head: "escape_dollars s = y # r \<Longrightarrow> y \<noteq> CHR ''$''"
  by (cases s) (auto split: if_splits)

lemma scan_escaped: "scan_template get src lit (escape_dollars s) c = (Inr (add_literal (lit @ s) []), c)"
proof (induction s arbitrary: lit)
  case (Cons x s)
  show ?case
  proof (cases "x = CHR ''$''")
    case False
    then have "next_piece x (escape_dollars s) = Letter x (escape_dollars s)"
      using escape_head [of s] by (cases "escape_dollars s") auto
    with False Cons show ?thesis by simp
  qed (use Cons in simp)
qed simp

lemma compile_escaped:
  "compile_template (escape_dollars s) = Inr \<lparr>tp_source = escape_dollars s, tp_segments = [Plain s]\<rparr>"
  by (simp add: compile_template_def build_template_def scan_escaped add_literal_def)

lemma escape_dollars_eq_Nil [simp]: "escape_dollars s = [] \<longleftrightarrow> s = []"
  by (cases s) auto

text \<open>A scan that keeps an invariant of the compiler's state, under which the compiler answers as \<open>compile\<close>, gives
  what the scan with the bare compiler gives.\<close>

lemma scan_simulation:
  assumes get: "\<And>t c. sound c \<Longrightarrow> fst (get t c) = compile t \<and> sound (snd (get t c))"
  shows "sound c \<Longrightarrow> fst (scan_template get src lit s c) = fst (scan_template (\<lambda>t u. (compile t, u)) src lit s ()) \<and>
           sound (snd (scan_template get src lit s c))"
proof (induction "length s" arbitrary: lit s c rule: less_induct)
  case less
  show ?case
  proof (cases s)
    case (Cons x r)
    show ?thesis
    proof (cases "next_piece x r")
      case (Interp t r')
      then have shorter: "length r' < length s" using Cons by (auto dest: next_piece_length)
      obtain y c' where g: "get t c = (y, c')" by (cases "get t c")
      with get [OF less.prems, of t] have y: "y = compile t" "sound c'" by auto
      show ?thesis using less.hyps [OF shorter y(2), of "[]"] Cons Interp g y(1) less.prems y(2)
        by (cases y) (auto split: prod.splits sum.splits)
    next
      case (Dollar r')
      then have "length r' < length s" using Cons by (auto dest: next_piece_length)
      from less.hyps [OF this less.prems] show ?thesis by (simp add: Cons Dollar)
    next
      case (Letter c' r')
      then have "length r' < length s" using Cons by (auto dest: next_piece_length)
      from less.hyps [OF this less.prems] show ?thesis by (simp add: Cons Letter)
    qed (simp add: Cons less.prems)
  qed (simp add: less.prems)
qed

definition caches_sound :: "sel cache \<times> tpl cache \<Rightarrow> bool" where
  "caches_sound cs \<longleftrightarrow> cache_sound compile (fst cs) \<and> cache_sound compile_template (snd cs)"

lemma build_sound:
  assumes "cache_sound compile ps"
  shows "fst (build_template get_or_compile src ps) = compile_template src"
    and "cache_sound compile (snd (build_template get_or_compile src ps))"
proof -
  have "fst (scan_template get_or_compile src [] src ps) = fst (scan_template (\<lambda>t u. (compile t, u)) src [] src ()) \<and>
      cache_sound compile (snd (scan_template get_or_compile src [] src ps))"
    by (rule scan_simulation [where sound = "cache_sound compile"])
      (simp_all add: get_or_compile_def cache_get_sound assms)
  then show "fst (build_template get_or_compile src ps) = compile_template src"
    and "cache_sound compile (snd (build_template get_or_compile src ps))"
    by (auto simp: compile_template_def build_template_def split: prod.splits sum.splits)
qed

lemma template_cache_sound:
  assumes "caches_sound cs"
  shows "fst (get_or_compile_template src cs) = compile_template src"
    and "caches_sound (snd (get_or_compile_template src cs))"
proof -
  obtain ps ts where cs: "cs = (ps, ts)" by (cases cs)
  have sound: "cache_sound compile ps" "cache_sound compile_template ts" using assms by (simp_all add: cs caches_sound_def)
  have step: "cache_get compile_template src ts =
      (case map_of ts src of Some t \<Rightarrow> (Inr t, ts) | None \<Rightarrow> (case compile_template src of Inl e \<Rightarrow> (Inl e, ts)
         | Inr t \<Rightarrow> (Inr t, obj_set src t (if cache_soft_limit \<le> length ts then [] else ts))))"
    by (simp add: cache_get_def)
  obtain r ps' where b: "build_template get_or_compile src ps = (r, ps')" by (cases "build_template get_or_compile src ps")
  with build_sound [OF sound(1), of src] have r: "r = compile_template src" "cache_sound compile ps'" by auto
  have *: "fst (get_or_compile_template src cs) = fst (cache_get compile_template src ts) \<and>
        snd (snd (get_or_compile_template src cs)) = snd (cache_get compile_template src ts) \<and>
        cache_sound compile (fst (snd (get_or_compile_template src cs)))"
    using b r sound(1) by (auto simp: step cs get_or_compile_template_def split: option.splits sum.splits)
  show "fst (get_or_compile_template src cs) = compile_template src" using * cache_get_sound(1) [OF sound(2)] by simp
  show "caches_sound (snd (get_or_compile_template src cs))" using * cache_get_sound(2) [OF sound(2)] by (simp add: caches_sound_def)
qed

lemma template_history_sound:
  "caches_sound cs \<Longrightarrow> caches_sound (foldl (\<lambda>cs t. snd (get_or_compile_template t cs)) cs texts)"
  by (induction texts arbitrary: cs) (simp_all add: template_cache_sound)

text \<open>A literal handle evaluates to its value but resolves to the value's text.\<close>

lemma literal_handle_values:
  assumes "ho_dump h v \<noteq> []"
  shows "evaluate_handle h strict (literal_handle h v) s = (Val v, s)"
    and "resolve_handle h strict (literal_handle h v) s = (Val (JStr (ho_dump h v)), s)"
  using assms
  by (auto simp: evaluate_handle_def resolve_handle_def literal_handle_def in_new_state_def run_program_def
      is_plain_template_def ret_def split: json.splits)

section \<open>Properties\<close>

text \<open>
  Text put into a template with its dollar signs escaped comes out as it was: the template compiles, and it resolves
  to the text itself whatever the variables are, strictly or not.
\<close>

theorem escaped_text_resolves_to_itself:
  "\<exists>x. template_handle (escape_dollars t) = Inr x \<and> fst (resolve_handle h strict x s) = Val (JStr t)"
proof (cases "t = []")
  case False
  then have "fst (resolve_handle h strict \<lparr>xp_source = escape_dollars t, xp_program = None,
      xp_template = Some \<lparr>tp_source = escape_dollars t, tp_segments = [Plain t]\<rparr>\<rparr> s) = Val (JStr t)"
    by (auto simp: resolve_handle_def is_plain_template_def in_new_state_def render_def sbind_def ret_def)
  with False show ?thesis by (simp add: template_handle_def compile_escaped)
qed (simp add: template_handle_def resolve_handle_def empty_handle_def ret_def)

text \<open>
  Whatever templates were asked for before, the template cache answers what scanning the text and compiling its
  slots gives, errors included, though the slots are compiled through the cache of programs; neither cache outgrows
  its limit.
\<close>

theorem template_cache_answers_as_compile:
  "fst (get_or_compile_template src (foldl (\<lambda>cs t. snd (get_or_compile_template t cs)) ([], []) texts)) = compile_template src \<and>
   length (fst (foldl (\<lambda>cs t. snd (get_or_compile_template t cs)) ([], []) texts)) \<le> cache_soft_limit \<and>
   length (snd (foldl (\<lambda>cs t. snd (get_or_compile_template t cs)) ([], []) texts)) \<le> cache_soft_limit"
proof -
  have "caches_sound (foldl (\<lambda>cs t. snd (get_or_compile_template t cs)) ([], []) texts)"
    by (rule template_history_sound) (simp add: caches_sound_def cache_sound_def)
  then show ?thesis by (simp add: template_cache_sound(1)) (simp add: caches_sound_def cache_sound_def)
qed

end
