(* ===== verification/Sapo_Effects.thy ===== *)
theory Sapo_Effects
  imports Sapo_Expression
begin

text \<open>
  Computations of the tasks and providers: they thread a state and end with a value, a \<open>SapoError\<close> or another
  exception (the outcomes \<open>'a ev\<close> of the expression language, for any state).  \<open>keeps\<close> and \<open>relates\<close> say what a
  computation does to its state on every way out; their rules follow the constructors, so that a task's proof is its
  own structure.
\<close>

named_theorems keeps_intros "state relations of the computations"

type_synonym ('a, 's) act = "'s \<Rightarrow> 'a ev \<times> 's"

definition yields :: "'a \<Rightarrow> ('a, 's) act" where
  "yields x = (\<lambda>s. (Val x, s))"

definition raises :: "sapo_error \<Rightarrow> ('a, 's) act" where
  "raises e = (\<lambda>s. (Thr e, s))"

definition crashes :: "('a, 's) act" where
  "crashes = (\<lambda>s. (Crash, s))"

definition andthen :: "('a, 's) act \<Rightarrow> ('a \<Rightarrow> ('b, 's) act) \<Rightarrow> ('b, 's) act" where
  "andthen m f = (\<lambda>s. case m s of (Val x, s') \<Rightarrow> f x s' | (Thr e, s') \<Rightarrow> (Thr e, s') | (Crash, s') \<Rightarrow> (Crash, s')
                      | (Deep, s') \<Rightarrow> (Deep, s'))"

definition observe :: "('s \<Rightarrow> 'a) \<Rightarrow> ('a, 's) act" where
  "observe f = (\<lambda>s. (Val (f s), s))"

definition change :: "('s \<Rightarrow> 's) \<Rightarrow> (unit, 's) act" where
  "change f = (\<lambda>s. (Val (), f s))"

text \<open>A typed getter that throws when the value has another type.\<close>

definition demand :: "'a option \<Rightarrow> ('a, 's) act" where
  "demand x = (case x of Some v \<Rightarrow> yields v | None \<Rightarrow> crashes)"

fun in_turn :: "('a, 's) act list \<Rightarrow> ('a list, 's) act" where
  "in_turn [] = yields []"
| "in_turn (m # ms) = andthen m (\<lambda>x. andthen (in_turn ms) (\<lambda>xs. yields (x # xs)))"

fun each :: "('a \<Rightarrow> (unit, 's) act) \<Rightarrow> 'a list \<Rightarrow> (unit, 's) act" where
  "each f [] = yields ()"
| "each f (x # xs) = andthen (f x) (\<lambda>_. each f xs)"

fun sieve :: "('a \<Rightarrow> (bool, 's) act) \<Rightarrow> 'a list \<Rightarrow> ('a list, 's) act" where
  "sieve f [] = yields []"
| "sieve f (x # xs) = andthen (f x) (\<lambda>b. andthen (sieve f xs) (\<lambda>ys. yields (if b then x # ys else ys)))"

fun accumulate :: "('b \<Rightarrow> 'a \<Rightarrow> ('b, 's) act) \<Rightarrow> 'b \<Rightarrow> 'a list \<Rightarrow> ('b, 's) act" where
  "accumulate f acc [] = yields acc"
| "accumulate f acc (x # xs) = andthen (f acc x) (\<lambda>acc'. accumulate f acc' xs)"

lemma andthen_cong [fundef_cong]:
  "m = m' \<Longrightarrow> (\<And>x s s'. m s = (Val x, s') \<Longrightarrow> f x s' = f' x s') \<Longrightarrow> andthen m f = andthen m' f'"
  by (rule ext) (auto simp: andthen_def split: prod.splits ev.splits)

lemma run_simps [simp]:
  "yields x s = (Val x, s)" "raises e s = (Thr e, s)" "crashes s = (Crash, s)" "observe f s = (Val (f s), s)"
  "change f' s = (Val (), f' s)" "demand (Some x) = yields x" "demand None = crashes"
  by (simp_all add: yields_def raises_def crashes_def observe_def change_def demand_def)

lemma andthen_Val: "andthen m f s = (Val y, u) \<longleftrightarrow> (\<exists>x t. m s = (Val x, t) \<and> f x t = (Val y, u))"
  by (auto simp: andthen_def split: prod.splits ev.splits)

lemma andthen_steps [simp]:
  "m s = (Val x, t) \<Longrightarrow> andthen m f s = f x t"
  "m s = (Thr e, t) \<Longrightarrow> andthen m f s = (Thr e, t)"
  "m s = (Crash, t) \<Longrightarrow> andthen m f s = (Crash, t)"
  by (simp_all add: andthen_def)

lemma andthen_simps [simp]:
  "andthen (yields x) f = f x" "andthen (raises e) f = raises e" "andthen crashes f = crashes"
  by (auto simp: fun_eq_iff andthen_def)

section \<open>What a computation does to its state\<close>

text \<open>Every end state stands in the relation to the start state, and the evaluation never nests too deep.\<close>

definition relates :: "('s \<Rightarrow> 's \<Rightarrow> bool) \<Rightarrow> ('a, 's) act \<Rightarrow> bool" where
  "relates R m \<longleftrightarrow> (\<forall>s r t. m s = (r, t) \<longrightarrow> R s t \<and> r \<noteq> Deep)"

definition preorder :: "('s \<Rightarrow> 's \<Rightarrow> bool) \<Rightarrow> bool" where
  "preorder R \<longleftrightarrow> (\<forall>s. R s s) \<and> (\<forall>s t u. R s t \<longrightarrow> R t u \<longrightarrow> R s u)"

lemma relatesI: "(\<And>s r t. m s = (r, t) \<Longrightarrow> R s t \<and> r \<noteq> Deep) \<Longrightarrow> relates R m"
  by (simp add: relates_def)

lemma relatesD: "relates R m \<Longrightarrow> m s = (r, t) \<Longrightarrow> R s t \<and> r \<noteq> Deep"
  by (simp add: relates_def)

lemma relates_basic [keeps_intros]:
  "preorder R \<Longrightarrow> relates R (yields x)" "preorder R \<Longrightarrow> relates R (raises e)" "preorder R \<Longrightarrow> relates R crashes"
  "preorder R \<Longrightarrow> relates R (observe f)" "preorder R \<Longrightarrow> relates R (demand y)"
  by (auto simp: relates_def preorder_def demand_def split: option.splits)

lemma relates_change: "(\<And>s. R s (f s)) \<Longrightarrow> relates R (change f)"
  by (auto simp: relates_def)

lemma relates_andthen [keeps_intros]:
  assumes "preorder R" and "relates R m" and "\<And>x. relates R (f x)"
  shows "relates R (andthen m f)"
proof (rule relatesI)
  fix s r u
  assume run: "andthen m f s = (r, u)"
  obtain x t where m: "m s = (x, t)" by (cases "m s")
  with relatesD [OF assms(2)] have t: "R s t" "x \<noteq> Deep" by auto
  show "R s u \<and> r \<noteq> Deep"
  proof (cases x)
    case (Val y)
    with run m have "f y t = (r, u)" by simp
    with relatesD [OF assms(3)] t(1) assms(1) show ?thesis unfolding preorder_def by blast
  qed (use run m t in auto)
qed

lemma relates_in_turn [keeps_intros]: "preorder R \<Longrightarrow> (\<And>m. m \<in> set ms \<Longrightarrow> relates R m) \<Longrightarrow> relates R (in_turn ms)"
  by (induction ms) (auto intro!: keeps_intros)

lemma relates_each [keeps_intros]: "preorder R \<Longrightarrow> (\<And>x. x \<in> set xs \<Longrightarrow> relates R (f x)) \<Longrightarrow> relates R (each f xs)"
  by (induction xs) (auto intro!: keeps_intros)

lemma relates_sieve [keeps_intros]: "preorder R \<Longrightarrow> (\<And>x. x \<in> set xs \<Longrightarrow> relates R (f x)) \<Longrightarrow> relates R (sieve f xs)"
  by (induction xs) (auto intro!: keeps_intros)

lemma relates_accumulate [keeps_intros]:
  "preorder R \<Longrightarrow> (\<And>b x. x \<in> set xs \<Longrightarrow> relates R (f b x)) \<Longrightarrow> relates R (accumulate f b xs)"
  by (induction xs arbitrary: b) (auto intro!: keeps_intros)

lemma relates_cases [keeps_intros]:
  "(c \<Longrightarrow> relates R x) \<Longrightarrow> (\<not> c \<Longrightarrow> relates R y) \<Longrightarrow> relates R (if c then x else y)"
  "(\<And>v. relates R (g v)) \<Longrightarrow> relates R n \<Longrightarrow> relates R (case opt of None \<Rightarrow> n | Some v \<Rightarrow> g v)"
  "(\<And>e. relates R (l e)) \<Longrightarrow> (\<And>v. relates R (g v)) \<Longrightarrow> relates R (case res of Inl e \<Rightarrow> l e | Inr v \<Rightarrow> g v)"
  "(\<And>v w. relates R (k v w)) \<Longrightarrow> relates R (case p of (v, w) \<Rightarrow> k v w)"
  by (auto split: option.splits sum.splits prod.splits)

lemma relates_let [keeps_intros]: "(\<And>x. relates R (f x)) \<Longrightarrow> relates R (let x = v in f x)"
  by simp

lemma relates_json [keeps_intros]:
  "relates R n \<Longrightarrow> (\<And>x. relates R (b x)) \<Longrightarrow> (\<And>x. relates R (i x)) \<Longrightarrow> (\<And>x. relates R (d x)) \<Longrightarrow> (\<And>x. relates R (t x)) \<Longrightarrow>
   (\<And>x. relates R (a x)) \<Longrightarrow> (\<And>x. relates R (ob x)) \<Longrightarrow>
   relates R (case v of JNull \<Rightarrow> n | JBool x \<Rightarrow> b x | JInt x \<Rightarrow> i x | JFloat x \<Rightarrow> d x | JStr x \<Rightarrow> t x | JArr x \<Rightarrow> a x | JObj x \<Rightarrow> ob x)"
  by (cases v) auto

lemma preorder_eq [keeps_intros]: "preorder (\<lambda>s t. f s = f t)"
  by (simp add: preorder_def)

section \<open>Loops over rows\<close>

lemma in_turn_pure:
  "(\<And>x s. x \<in> set xs \<Longrightarrow> f x s = (Val (g x), s)) \<Longrightarrow> in_turn (map f xs) s = (Val (map g xs), s)"
  by (induction xs) (auto simp: andthen_def)

lemma in_turn_length: "in_turn ms s = (Val xs, t) \<Longrightarrow> length xs = length ms"
  by (induction ms arbitrary: s xs) (auto simp: andthen_Val)

lemma sieve_subset: "sieve f xs s = (Val ys, t) \<Longrightarrow> set ys \<subseteq> set xs \<and> length ys \<le> length xs"
  by (induction xs arbitrary: s ys) (fastforce simp: andthen_Val split: if_splits)+

lemma sieve_pure:
  "(\<And>x s. x \<in> set xs \<Longrightarrow> f x s = (Val (P x), s)) \<Longrightarrow> sieve f xs s = (Val (filter P xs), s)"
  by (induction xs) (auto simp: andthen_def)

end
