(* ===== verification/Sapo_Http.thy ===== *)
theory Sapo_Http
  imports Sapo_Effects Sapo_Encoding
begin

text \<open>
  The HTTP layer (\<open>src/src/http/IHttpTransport.cpp\<close>, \<open>.hpp\<close>): requests and responses, the transport that refuses, the
  scripted transport of the tests, and the cassette that records exchanges and replays them.  A transport is a
  computation over its own state.  The live transport (\<open>CprTransport\<close>) is the network and stays a parameter, as do
  the printer and the parser of documents.
\<close>

section \<open>Typed getters\<close>

text \<open>\<open>value(key, default)\<close>, which throws on a value of another type and on anything but an object: \<open>None\<close>.\<close>

definition value_at :: "string \<Rightarrow> json \<Rightarrow> json \<Rightarrow> json option" where
  "value_at k d j = (case j of JObj ob \<Rightarrow> (case map_of ob k of None \<Rightarrow> Some d | Some v \<Rightarrow> Some v) | _ \<Rightarrow> None)"

fun text_of :: "json \<Rightarrow> string option" where
  "text_of (JStr s) = Some s" | "text_of _ = None"

fun flag_of :: "json \<Rightarrow> bool option" where
  "flag_of (JBool b) = Some b" | "flag_of _ = None"

fun int32_of :: "json \<Rightarrow> int option" where
  "int32_of (JInt i) = Some (as_int32 i)"
| "int32_of (JFloat x) = Some (as_int32 (dbl_trunc x))"
| "int32_of (JBool b) = Some (if b then 1 else 0)"
| "int32_of _ = None"

fun double_of :: "json \<Rightarrow> dbl option" where
  "double_of (JInt i) = Some (round_dbl (of_int i))"
| "double_of (JFloat x) = Some x"
| "double_of (JBool b) = Some (DFin (if b then 1 else 0))"
| "double_of _ = None"

definition text_at :: "string \<Rightarrow> string \<Rightarrow> json \<Rightarrow> string option" where
  "text_at k d j = Option.bind (value_at k (JStr d) j) text_of"

definition flag_at :: "string \<Rightarrow> bool \<Rightarrow> json \<Rightarrow> bool option" where
  "flag_at k d j = Option.bind (value_at k (JBool d) j) flag_of"

definition int_at :: "string \<Rightarrow> int \<Rightarrow> json \<Rightarrow> int option" where
  "int_at k d j = Option.bind (value_at k (JInt d) j) int32_of"

definition double_at :: "string \<Rightarrow> dbl \<Rightarrow> json \<Rightarrow> dbl option" where
  "double_at k d j = Option.bind (value_at k (JFloat d) j) double_of"

lemmas getter_defs = text_at_def flag_at_def int_at_def double_at_def

lemma value_at_jobj: "value_at k d (jobj kvs) = Some (case map_of (rev kvs) k of None \<Rightarrow> d | Some v \<Rightarrow> v)"
  using jget_jobj [of k kvs] by (auto simp: value_at_def jobj_def split: option.splits)

text \<open>\<open>type_name()\<close> of a document.\<close>

fun json_kind :: "json \<Rightarrow> string" where
  "json_kind JNull = ''null''" | "json_kind (JBool _) = ''boolean''" | "json_kind (JStr _) = ''string''"
| "json_kind (JArr _) = ''array''" | "json_kind (JObj _) = ''object''" | "json_kind _ = ''number''"

text \<open>A text as it is, any other document printed.\<close>

definition as_text :: "(json \<Rightarrow> string) \<Rightarrow> json \<Rightarrow> string" where
  "as_text dump v = (case v of JStr s \<Rightarrow> s | _ \<Rightarrow> dump v)"

section \<open>Requests and responses\<close>

record request =
  hq_method :: string
  hq_url :: string
  hq_headers :: json
  hq_query :: json
  hq_body :: "json option"
  hq_timeout_ms :: int
  hq_follow_redirects :: bool
  hq_auth_user :: "string option"
  hq_auth_password :: "string option"
  hq_bearer_token :: "string option"

definition default_request :: request where
  "default_request = \<lparr>hq_method = ''GET'', hq_url = [], hq_headers = JObj [], hq_query = JObj [], hq_body = None,
     hq_timeout_ms = 10000, hq_follow_redirects = True, hq_auth_user = None, hq_auth_password = None,
     hq_bearer_token = None\<rparr>"

record response =
  hs_status :: int
  hs_body :: string
  hs_headers :: json
  hs_elapsed_ms :: dbl
  hs_transport_error :: string

definition default_response :: response where
  "default_response = \<lparr>hs_status = 0, hs_body = [], hs_headers = JObj [], hs_elapsed_ms = DFin 0, hs_transport_error = []\<rparr>"

definition response_ok :: "response \<Rightarrow> bool" where
  "response_ok r \<longleftrightarrow> hs_transport_error r = [] \<and> 200 \<le> hs_status r \<and> hs_status r < 300"

definition response_successful :: "response \<Rightarrow> bool" where
  "response_successful r \<longleftrightarrow> hs_transport_error r = [] \<and> 0 < hs_status r"

definition json_body :: "(string \<Rightarrow> json option) \<Rightarrow> response \<Rightarrow> json" where
  "json_body parse r = (if hs_body r = [] then JNull else case parse (hs_body r) of None \<Rightarrow> JNull | Some v \<Rightarrow> v)"

definition query_pair :: "(json \<Rightarrow> string) \<Rightarrow> string \<times> json \<Rightarrow> string" where
  "query_pair dump p = percent_encode (fst p) @ ''='' @ percent_encode (as_text dump (snd p))"

fun joined :: "string \<Rightarrow> string list \<Rightarrow> string" where
  "joined sep [] = []"
| "joined sep [x] = x"
| "joined sep (x # xs) = x @ sep @ joined sep xs"

definition append_query :: "(json \<Rightarrow> string) \<Rightarrow> string \<Rightarrow> json \<Rightarrow> string" where
  "append_query dump url query =
     (case query of
        JObj (e # es) \<Rightarrow> url @ (if CHR ''?'' \<in> set url then ''&'' else ''?'') @ joined ''&'' (map (query_pair dump) (e # es))
      | _ \<Rightarrow> url)"

definition describe_request :: "(json \<Rightarrow> string) \<Rightarrow> request \<Rightarrow> string" where
  "describe_request dump q = hq_method q @ '' '' @ append_query dump (hq_url q) (hq_query q)"

type_synonym 'w transport = "request \<Rightarrow> (response, 'w) act"

definition null_transport :: "(json \<Rightarrow> string) \<Rightarrow> 'w transport" where
  "null_transport dump q =
     raises (sapo_error NotImplemented
       (''no HTTP transport is compiled in '' @ [CHR 0xE2, CHR 0x80, CHR 0x94] @ '' rebuild with -DSAPO_ENABLE_CPR=ON ''
        @ ''or inject a transport into TaskServices (last requested: '' @ describe_request dump q @ '')'') JNull [])"

section \<open>The scripted transport\<close>

definition upper_text :: "string \<Rightarrow> string" where
  "upper_text s = map to_upper s"

definition route_key :: "string \<Rightarrow> string \<Rightarrow> string" where
  "route_key meth url = upper_text meth @ '' '' @ url"

definition normalize_route_key :: "string \<Rightarrow> string" where
  "normalize_route_key k =
     (if CHR '' '' \<in> set k
      then upper_text (takeWhile (\<lambda>c. c \<noteq> CHR '' '') k) @ '' '' @ tl (dropWhile (\<lambda>c. c \<noteq> CHR '' '') k)
      else k)"

definition strip_query :: "string \<Rightarrow> string" where
  "strip_query url = takeWhile (\<lambda>c. c \<noteq> CHR ''?'') url"

text \<open>A route: a response, or one that fails the given number of times first.\<close>

datatype route = Canned response | Flaky int int response

definition quote_name :: "string \<Rightarrow> string" where
  "quote_name s = CHR 0x22 # s @ [CHR 0x22]"

definition unavailable :: response where
  "unavailable = default_response\<lparr>hs_status := 503,
     hs_body := ''{'' @ quote_name ''error'' @ '':'' @ quote_name ''upstream unavailable'' @ ''}''\<rparr>"

fun serve :: "route \<Rightarrow> response \<times> route" where
  "serve (Canned r) = (r, Canned r)"
| "serve (Flaky n failures success) = (if n + 1 \<le> failures then unavailable else success, Flaky (n + 1) failures success)"

record mock =
  mk_routes :: "(string \<times> route) list"
  mk_calls :: "request list"

definition mock_on :: "string \<Rightarrow> route \<Rightarrow> mock \<Rightarrow> mock" where
  "mock_on method_url r s = s\<lparr>mk_routes := obj_set (normalize_route_key method_url) r (mk_routes s)\<rparr>"

definition json_response :: "(json \<Rightarrow> string) \<Rightarrow> json \<Rightarrow> int \<Rightarrow> response" where
  "json_response dump payload status =
     default_response\<lparr>hs_status := status, hs_body := dump payload,
       hs_headers := jobj [(''content-type'', JStr ''application/json'')]\<rparr>"

definition mock_json_response :: "(json \<Rightarrow> string) \<Rightarrow> string \<Rightarrow> json \<Rightarrow> int \<Rightarrow> mock \<Rightarrow> mock" where
  "mock_json_response dump method_url payload status = mock_on method_url (Canned (json_response dump payload status))"

definition fail_then_succeed :: "string \<Rightarrow> int \<Rightarrow> response \<Rightarrow> mock \<Rightarrow> mock" where
  "fail_then_succeed method_url failures success = mock_on method_url (Flaky 0 failures success)"

definition find_route :: "(json \<Rightarrow> string) \<Rightarrow> request \<Rightarrow> (string \<times> route) list \<Rightarrow> (string \<times> route) option" where
  "find_route dump q routes =
     (let full = route_key (hq_method q) (append_query dump (hq_url q) (hq_query q));
          base = route_key (hq_method q) (strip_query (hq_url q));
          bare = strip_query (hq_url q)
      in case map_of routes full of
           Some r \<Rightarrow> Some (full, r)
         | None \<Rightarrow> (case map_of routes base of
                      Some r \<Rightarrow> Some (base, r)
                    | None \<Rightarrow> map_option (Pair bare) (map_of routes bare)))"

definition mock_send :: "(json \<Rightarrow> string) \<Rightarrow> mock transport" where
  "mock_send dump q s =
     (let s1 = s\<lparr>mk_calls := mk_calls s @ [q]\<rparr>
      in case find_route dump q (mk_routes s) of
           None \<Rightarrow>
             (Val (json_response dump
                (jobj [(''error'', JStr (''MockTransport: no canned route for '' @ describe_request dump q))]) 404), s1)
         | Some (k, r) \<Rightarrow>
             (let (resp, r') = serve r
              in (Val (if hs_status resp = 0 \<and> hs_transport_error resp = [] then resp\<lparr>hs_status := 200\<rparr> else resp),
                  s1\<lparr>mk_routes := obj_set k r' (mk_routes s)\<rparr>)))"

section \<open>Cassettes\<close>

definition request_to_json :: "request \<Rightarrow> json" where
  "request_to_json q =
     jobj [(''method'', JStr (hq_method q)), (''url'', JStr (hq_url q)), (''headers'', hq_headers q),
           (''query'', hq_query q), (''body'', case hq_body q of Some b \<Rightarrow> b | None \<Rightarrow> JNull),
           (''timeout_ms'', JInt (hq_timeout_ms q))]"

definition request_from_json :: "json \<Rightarrow> request option" where
  "request_from_json j =
     (case (text_at ''method'' ''GET'' j, text_at ''url'' [] j, value_at ''headers'' (JObj []) j,
            value_at ''query'' (JObj []) j, int_at ''timeout_ms'' 10000 j) of
        (Some m, Some u, Some hs, Some qy, Some t) \<Rightarrow>
          Some (default_request\<lparr>hq_method := m, hq_url := u, hq_headers := hs, hq_query := qy,
            hq_body := (case jget ''body'' j of Some b \<Rightarrow> (if b = JNull then None else Some b) | None \<Rightarrow> None),
            hq_timeout_ms := t\<rparr>)
      | _ \<Rightarrow> None)"

definition response_to_json :: "response \<Rightarrow> json" where
  "response_to_json r =
     jobj [(''status_code'', JInt (hs_status r)), (''body'', JStr (hs_body r)), (''headers'', hs_headers r),
           (''elapsed_ms'', JFloat (hs_elapsed_ms r)), (''transport_error'', JStr (hs_transport_error r))]"

definition response_from_json :: "json \<Rightarrow> response option" where
  "response_from_json j =
     (case (int_at ''status_code'' 0 j, text_at ''body'' [] j, value_at ''headers'' (JObj []) j,
            double_at ''elapsed_ms'' (DFin 0) j, text_at ''transport_error'' [] j) of
        (Some c, Some b, Some hs, Some t, Some e) \<Rightarrow>
          Some \<lparr>hs_status = c, hs_body = b, hs_headers = hs, hs_elapsed_ms = t, hs_transport_error = e\<rparr>
      | _ \<Rightarrow> None)"

record cassette =
  cs_path :: string
  cs_tape :: "json list"
  cs_cursor :: nat
  cs_file :: json

definition blank_cassette :: "string \<Rightarrow> cassette" where
  "blank_cassette path = \<lparr>cs_path = path, cs_tape = [], cs_cursor = 0, cs_file = JNull\<rparr>"

text \<open>Opening a cassette to replay it: the file may be missing (\<open>None\<close>) or no document.\<close>

definition open_cassette :: "(string \<Rightarrow> json option) \<Rightarrow> string \<Rightarrow> string option \<Rightarrow> cassette res" where
  "open_cassette parse path file =
     (case file of
        None \<Rightarrow> Inl (sapo_error NotFound (''no cassette to replay from: '' @ path) JNull [])
      | Some t \<Rightarrow>
          (case parse t of
             None \<Rightarrow> Inl (sapo_error Parse (''cassette is not valid JSON: '' @ path) JNull [])
           | Some doc \<Rightarrow> Inr ((blank_cassette path)\<lparr>cs_tape := jitems doc, cs_file := doc\<rparr>)))"

definition tape_entry :: "request \<Rightarrow> response \<Rightarrow> json" where
  "tape_entry q r = jobj [(''request'', request_to_json q), (''response'', response_to_json r)]"

text \<open>Recording: the inner transport answers (none gives the empty response), the tape is written anew.\<close>

definition record_send :: "'w transport option \<Rightarrow> (cassette \<times> 'w) transport" where
  "record_send inner q s =
     (case (case inner of Some send \<Rightarrow> send q (snd s) | None \<Rightarrow> (Val default_response, snd s)) of
        (Val r, w) \<Rightarrow>
          (let tape = cs_tape (fst s) @ [tape_entry q r]
           in (Val r, (fst s)\<lparr>cs_tape := tape, cs_file := JArr tape\<rparr>, w))
      | (Thr e, w) \<Rightarrow> (Thr e, fst s, w)
      | (Crash, w) \<Rightarrow> (Crash, fst s, w)
      | (Deep, w) \<Rightarrow> (Deep, fst s, w))"

definition request_key :: "(json \<Rightarrow> string) \<Rightarrow> request \<Rightarrow> string" where
  "request_key dump q = route_key (hq_method q) (append_query dump (hq_url q) (hq_query q))"

text \<open>The first entry for the request, with its distance from the cursor; \<open>None\<close> when reading an entry throws.\<close>

fun find_entry :: "(json \<Rightarrow> string) \<Rightarrow> string \<Rightarrow> json list \<Rightarrow> (nat \<times> json) option option" where
  "find_entry dump key [] = Some None"
| "find_entry dump key (e # es) =
     (case Option.bind (value_at ''request'' (JObj []) e) request_from_json of
        None \<Rightarrow> None
      | Some q \<Rightarrow>
          (if request_key dump q = key then Some (Some (0, e))
           else map_option (map_option (\<lambda>(i, e'). (Suc i, e'))) (find_entry dump key es)))"

definition entry_response :: "json \<Rightarrow> response option" where
  "entry_response e = Option.bind (value_at ''response'' (JObj []) e) response_from_json"

definition replay_send :: "(json \<Rightarrow> string) \<Rightarrow> cassette transport" where
  "replay_send dump q c =
     (let left = drop (cs_cursor c) (cs_tape c)
      in case find_entry dump (request_key dump q) left of
           None \<Rightarrow> (Crash, c)
         | Some (Some (i, e)) \<Rightarrow> demand (entry_response e) (c\<lparr>cs_cursor := cs_cursor c + i + 1\<rparr>)
         | Some None \<Rightarrow>
             (case left of
                e # _ \<Rightarrow> demand (entry_response e) (c\<lparr>cs_cursor := cs_cursor c + 1\<rparr>)
              | [] \<Rightarrow> raises (sapo_error NotFound
                       (''cassette '' @ cs_path c @ '' has no recorded response for '' @ describe_request dump q) JNull []) c))"

section \<open>Lemmas\<close>

lemma request_json_round_trip:
  assumes "- 2147483648 \<le> hq_timeout_ms q" and "hq_timeout_ms q < 2147483648"
  shows "request_from_json (request_to_json q) =
    Some (default_request\<lparr>hq_method := hq_method q, hq_url := hq_url q, hq_headers := hq_headers q, hq_query := hq_query q,
      hq_body := (if hq_body q = Some JNull then None else hq_body q), hq_timeout_ms := hq_timeout_ms q\<rparr>)"
proof -
  have "text_at ''method'' d (request_to_json q) = Some (hq_method q)" "text_at ''url'' d (request_to_json q) = Some (hq_url q)"
    "value_at ''headers'' v (request_to_json q) = Some (hq_headers q)" "value_at ''query'' v (request_to_json q) = Some (hq_query q)"
    "jget ''body'' (request_to_json q) = Some (case hq_body q of Some b \<Rightarrow> b | None \<Rightarrow> JNull)" for d v
    by (simp_all add: request_to_json_def getter_defs value_at_jobj jget_jobj)
  moreover have "int_at ''timeout_ms'' n (request_to_json q) = Some (hq_timeout_ms q)" for n
    using assms by (simp add: request_to_json_def getter_defs value_at_jobj)
  ultimately show ?thesis by (auto simp: request_from_json_def split: option.splits)
qed

lemma request_key_of_json:
  assumes "- 2147483648 \<le> hq_timeout_ms q" and "hq_timeout_ms q < 2147483648"
  shows "\<exists>q'. request_from_json (request_to_json q) = Some q' \<and> request_key dump q' = request_key dump q"
  unfolding request_json_round_trip [OF assms] option.inject
  by (rule exI, rule conjI, rule refl) (simp add: request_key_def)

lemma response_json_round_trip:
  assumes "- 2147483648 \<le> hs_status r" and "hs_status r < 2147483648"
  shows "response_from_json (response_to_json r) = Some r"
proof -
  have "text_at ''body'' d (response_to_json r) = Some (hs_body r)"
    "text_at ''transport_error'' d (response_to_json r) = Some (hs_transport_error r)"
    "value_at ''headers'' v (response_to_json r) = Some (hs_headers r)"
    "double_at ''elapsed_ms'' x (response_to_json r) = Some (hs_elapsed_ms r)" for d v x
    by (simp_all add: response_to_json_def getter_defs value_at_jobj)
  moreover have "int_at ''status_code'' n (response_to_json r) = Some (hs_status r)" for n
    using assms by (simp add: response_to_json_def getter_defs value_at_jobj)
  ultimately show ?thesis by (simp add: response_from_json_def)
qed

lemma entry_members:
  "value_at ''request'' d (tape_entry q r) = Some (request_to_json q)"
  "value_at ''response'' d (tape_entry q r) = Some (response_to_json r)"
  by (simp_all add: tape_entry_def value_at_jobj)

text \<open>Recording the requests one by one leaves the tape of the exchanges.\<close>

lemma record_tape:
  "in_turn (map (record_send inner) qs) (c, w) = (Val rs, (c', w')) \<Longrightarrow>
   length rs = length qs \<and> cs_tape c' = cs_tape c @ map2 tape_entry qs rs \<and> cs_path c' = cs_path c \<and>
   (qs \<noteq> [] \<longrightarrow> cs_file c' = JArr (cs_tape c'))"
proof (induction qs arbitrary: c w rs)
  case (Cons q qs)
  from Cons.prems obtain r s1 rest where
    step: "record_send inner q (c, w) = (Val r, s1)" and
    more: "in_turn (map (record_send inner) qs) s1 = (Val rest, (c', w'))" and rs: "rs = r # rest"
    by (auto simp: andthen_Val)
  from step obtain v where s1: "s1 = (c\<lparr>cs_tape := cs_tape c @ [tape_entry q r], cs_file := JArr (cs_tape c @ [tape_entry q r])\<rparr>, v)"
    by (auto simp: record_send_def Let_def split: prod.splits ev.splits option.splits)
  let ?c = "c\<lparr>cs_tape := cs_tape c @ [tape_entry q r], cs_file := JArr (cs_tape c @ [tape_entry q r])\<rparr>"
  have more': "in_turn (map (record_send inner) qs) (?c, v) = (Val rest, (c', w'))" using more s1 by simp
  from Cons.IH [OF more'] have ih: "length rest = length qs" "cs_tape c' = (cs_tape c @ [tape_entry q r]) @ map2 tape_entry qs rest"
    "cs_path c' = cs_path c" "qs \<noteq> [] \<longrightarrow> cs_file c' = JArr (cs_tape c')" by simp_all
  have "qs = [] \<Longrightarrow> cs_file c' = JArr (cs_tape c')" using more' by auto
  with ih rs show ?case by auto
qed simp

definition recordable :: "request \<Rightarrow> bool" where
  "recordable q \<longleftrightarrow> - 2147483648 \<le> hq_timeout_ms q \<and> hq_timeout_ms q < 2147483648"

definition storable :: "response \<Rightarrow> bool" where
  "storable r \<longleftrightarrow> - 2147483648 \<le> hs_status r \<and> hs_status r < 2147483648"

lemma replay_tape:
  assumes "list_all recordable qs" and "list_all storable rs" and "length rs = length qs"
  shows "drop (cs_cursor c) (cs_tape c) = map2 tape_entry qs rs \<Longrightarrow>
    \<exists>c'. in_turn (map (replay_send dump) qs) c = (Val rs, c')"
  using assms(3,1,2)
proof (induction rs qs arbitrary: c rule: list_induct2)
  case (Cons r rs q qs)
  obtain q' where q': "request_from_json (request_to_json q) = Some q'" "request_key dump q' = request_key dump q"
    using request_key_of_json Cons.prems unfolding recordable_def by fastforce
  let ?c = "c\<lparr>cs_cursor := Suc (cs_cursor c)\<rparr>"
  have "entry_response (tape_entry q r) = Some r"
    using Cons.prems by (simp add: entry_response_def entry_members response_json_round_trip storable_def)
  then have step: "replay_send dump q c = (Val r, ?c)"
    using q' by (simp add: replay_send_def Cons.prems(1) entry_members)
  have "drop (cs_cursor ?c) (cs_tape ?c) = tl (drop (cs_cursor c) (cs_tape c))" by (simp add: drop_Suc tl_drop)
  then have "drop (cs_cursor ?c) (cs_tape ?c) = map2 tape_entry qs rs" by (simp add: Cons.prems(1))
  from Cons.IH [OF this] Cons.prems obtain c' where "in_turn (map (replay_send dump) qs) ?c = (Val rs, c')" by auto
  with step show ?case by auto
qed simp

text \<open>A failed send leaves the cassette alone, and the mock remembers every request it was sent.\<close>

lemma mock_remembers: "mk_calls (snd (mock_send dump q s)) = mk_calls s @ [q]"
  by (auto simp: mock_send_def Let_def split: option.splits prod.splits)

lemma mock_never_throws: "\<exists>r. fst (mock_send dump q s) = Val r"
  by (auto simp: mock_send_def Let_def split: option.splits prod.splits)

section \<open>Properties\<close>

text \<open>
  C29: A cassette replays the run it recorded: when every request of a run got its response through the recorder, opening
  the written file and sending the same requests in the same order gives the same responses, though the live transport
  is not asked any more.
\<close>

theorem cassette_replays_the_run:
  assumes "in_turn (map (record_send inner) qs) (blank_cassette path, w) = (Val rs, (c, w'))" and "qs \<noteq> []"
    and "list_all recordable qs" and "list_all storable rs" and "parse (print (cs_file c)) = Some (cs_file c)"
  shows "\<exists>opened c'. open_cassette parse path (Some (print (cs_file c))) = Inr opened \<and>
           in_turn (map (replay_send dump) qs) opened = (Val rs, c')"
proof -
  from record_tape [OF assms(1)] assms(2) have tape: "length rs = length qs" "cs_file c = JArr (map2 tape_entry qs rs)"
    by (auto simp: blank_cassette_def)
  let ?o = "(blank_cassette path)\<lparr>cs_tape := map2 tape_entry qs rs, cs_file := cs_file c\<rparr>"
  have "open_cassette parse path (Some (print (cs_file c))) = Inr ?o"
    using assms(5) tape(2) by (simp add: open_cassette_def)
  moreover have "drop (cs_cursor ?o) (cs_tape ?o) = map2 tape_entry qs rs" by (simp add: blank_cassette_def)
  ultimately show ?thesis using replay_tape [OF assms(3,4) tape(1)] by blast
qed

definition sample_exchange :: "request list \<times> response list" where
  "sample_exchange = ([default_request, default_request\<lparr>hq_method := ''POST''\<rparr>],
     [default_response\<lparr>hs_status := 200\<rparr>, default_response\<lparr>hs_status := 503\<rparr>])"

definition scripted :: "(response list) transport" where
  "scripted q s = (case s of r # rs \<Rightarrow> (Val r, rs) | [] \<Rightarrow> (Crash, []))"

theorem cassette_replays_the_run_witness:
  "\<exists>opened c'. open_cassette (\<lambda>t. Some (JArr (map2 tape_entry (fst sample_exchange) (snd sample_exchange)))) ''tape''
       (Some ''printed'') = Inr opened \<and>
     in_turn (map (replay_send (\<lambda>v. [])) (fst sample_exchange)) opened = (Val (snd sample_exchange), c')"
proof -
  let ?d = "JArr (map2 tape_entry (fst sample_exchange) (snd sample_exchange))"
  let ?c = "(blank_cassette ''tape'')\<lparr>cs_tape := map2 tape_entry (fst sample_exchange) (snd sample_exchange), cs_file := ?d\<rparr>"
  have "in_turn (map (record_send (Some scripted)) (fst sample_exchange)) (blank_cassette ''tape'', snd sample_exchange)
        = (Val (snd sample_exchange), (?c, []))"
    by (simp add: sample_exchange_def andthen_def record_send_def scripted_def blank_cassette_def Let_def)
  from cassette_replays_the_run [OF this, where parse = "\<lambda>t. Some ?d" and print = "\<lambda>v. ''printed''" and dump = "\<lambda>v. []"]
  show ?thesis
    by (simp add: sample_exchange_def recordable_def storable_def default_request_def default_response_def)
qed

end
