(* ===== verification/Sapo_Capability.thy ===== *)
theory Sapo_Capability
  imports Sapo_Http
begin

text \<open>
  The capability registry (\<open>src/src/capabilities/CapabilityRegistry.cpp\<close>, \<open>.hpp\<close>): the providers in the order of their
  registration, how a name finds its provider, the dispatch, the startup audit and the schema subset that checks and
  completes the inputs.  What a provider does when it is called is a computation over the state of its host.
\<close>

record descriptor =
  cd_name :: string
  cd_provider :: string
  cd_description :: string
  cd_category :: string
  cd_input_schema :: json
  cd_output_schema :: json
  cd_deferred :: bool
  cd_example :: string

record cap_call =
  cc_name :: string
  cc_inputs :: json
  cc_node :: string

record cap_result =
  cr_value :: json
  cr_ok :: bool
  cr_error_code :: string
  cr_error_message :: string

definition cap_success :: "json \<Rightarrow> cap_result" where
  "cap_success v = \<lparr>cr_value = v, cr_ok = True, cr_error_code = [], cr_error_message = []\<rparr>"

definition cap_failure :: "string \<Rightarrow> string \<Rightarrow> cap_result" where
  "cap_failure code message = \<lparr>cr_value = JNull, cr_ok = False, cr_error_code = code, cr_error_message = message\<rparr>"

record 'w cap_provider =
  pv_id :: string
  pv_namespaces :: "string list"
  pv_capabilities :: "descriptor list"
  pv_supports :: "string \<Rightarrow> bool"
  pv_execute :: "cap_call \<Rightarrow> (cap_result, 'w) act"

text \<open>The default \<open>supports\<close>: a namespace itself, or a name in it.\<close>

definition supports_by_prefix :: "string list \<Rightarrow> string \<Rightarrow> bool" where
  "supports_by_prefix namespaces name \<longleftrightarrow>
     (\<exists>p \<in> set namespaces. name = p \<or> length p + 1 < length name \<and> starts_with p name \<and> name ! length p = CHR ''.'')"

definition root_namespace :: "string \<Rightarrow> string" where
  "root_namespace name = takeWhile (\<lambda>c. c \<noteq> CHR ''.'') name"

fun remove_first :: "('a \<Rightarrow> bool) \<Rightarrow> 'a list \<Rightarrow> 'a list" where
  "remove_first P [] = []"
| "remove_first P (x # xs) = (if P x then xs else x # remove_first P xs)"

definition add_provider :: "'w cap_provider \<Rightarrow> 'w cap_provider list \<Rightarrow> 'w cap_provider list" where
  "add_provider p ps = remove_first (\<lambda>q. pv_id q = pv_id p) ps @ [p]"

definition advertises :: "string \<Rightarrow> 'w cap_provider \<Rightarrow> bool" where
  "advertises name p \<longleftrightarrow> name \<in> set (map cd_name (pv_capabilities p))"

definition provider_for :: "string \<Rightarrow> 'w cap_provider list \<Rightarrow> 'w cap_provider option" where
  "provider_for name ps =
     (case find (advertises name) ps of
        Some p \<Rightarrow> Some p
      | None \<Rightarrow> find (\<lambda>p. pv_capabilities p = [] \<and> pv_supports p name) ps)"

definition descriptors :: "'w cap_provider list \<Rightarrow> descriptor list" where
  "descriptors ps = concat (map pv_capabilities ps)"

text \<open>The first descriptor of the name that is not deferred, else the last deferred one.\<close>

definition describe :: "string \<Rightarrow> 'w cap_provider list \<Rightarrow> descriptor option" where
  "describe name ps =
     (let named = filter (\<lambda>d. cd_name d = name) (descriptors ps)
      in case find (\<lambda>d. \<not> cd_deferred d) named of
           Some d \<Rightarrow> Some d
         | None \<Rightarrow> (if named = [] then None else Some (last named)))"

definition knows :: "string \<Rightarrow> 'w cap_provider list \<Rightarrow> bool" where
  "knows name ps \<longleftrightarrow> provider_for name ps \<noteq> None"

definition has_capability :: "string \<Rightarrow> 'w cap_provider list \<Rightarrow> bool" where
  "has_capability name ps =
     (case describe name ps of Some d \<Rightarrow> \<not> cd_deferred d | None \<Rightarrow> provider_for name ps \<noteq> None)"

text \<open>All descriptors by name, one of each name (the source's unstable sort leaves open which one).\<close>

fun unique_names :: "descriptor list \<Rightarrow> descriptor list" where
  "unique_names (d # e # ds) = (if cd_name d = cd_name e then unique_names (d # ds) else d # unique_names (e # ds))"
| "unique_names ds = ds"

definition all_capabilities :: "'w cap_provider list \<Rightarrow> descriptor list" where
  "all_capabilities ps = unique_names (sort_key cd_name (descriptors ps))"

definition provider_ids :: "'w cap_provider list \<Rightarrow> string list" where
  "provider_ids ps = map pv_id ps"

definition no_provider_error :: "cap_call \<Rightarrow> sapo_error" where
  "no_provider_error c =
     sapo_error NotFound
       (''no capability provider is registered for '' @ quoted (cc_name c) @ ''. Sapo does not fall '' @
        ''back to a shell; register the provider or use http.* '' @ [CHR 0xE2, CHR 0x80, CHR 0x94] @ '' see docs/CAPABILITIES.md'')
       (jobj [(''capability'', JStr (cc_name c)), (''namespace'', JStr (root_namespace (cc_name c)))]) (cc_node c)"

definition deferred_error :: "cap_call \<Rightarrow> descriptor \<Rightarrow> sapo_error" where
  "deferred_error c d =
     sapo_error NotImplemented
       (''capability '' @ quoted (cc_name c) @ '' is declared but intentionally deferred'' @
        (if cd_description d = [] then [] else '' ('' @ cd_description d @ '')''))
       (jobj [(''capability'', JStr (cc_name c))]) (cc_node c)"

definition dispatch :: "'w cap_provider list \<Rightarrow> cap_call \<Rightarrow> (cap_result, 'w) act" where
  "dispatch ps c =
     (case provider_for (cc_name c) ps of
        None \<Rightarrow> raises (no_provider_error c)
      | Some p \<Rightarrow>
          (case describe (cc_name c) ps of
             Some d \<Rightarrow> (if cd_deferred d then raises (deferred_error c d) else pv_execute p c)
           | None \<Rightarrow> pv_execute p c))"

section \<open>The audit\<close>

text \<open>The problems of one descriptor, given the providers that advertised names before.\<close>

definition descriptor_problems :: "string \<Rightarrow> (string \<Rightarrow> bool) \<Rightarrow> (string \<times> string) list \<Rightarrow> descriptor \<Rightarrow> string list" where
  "descriptor_problems pid supports seen d =
     (case map_of seen (cd_name d) of
        Some first \<Rightarrow> [''capability '' @ quoted (cd_name d) @ '' is registered twice ('' @ quoted first @ '' and '' @ quoted pid @ '')'']
      | None \<Rightarrow> []) @
     (if \<not> cd_deferred d \<and> cd_input_schema d = JNull then [''capability '' @ quoted (cd_name d) @ '' has no input schema''] else []) @
     (if cd_description d = [] then [''capability '' @ quoted (cd_name d) @ '' has no description''] else []) @
     (if supports (cd_name d) then []
      else [''provider '' @ quoted pid @ '' advertises '' @ quoted (cd_name d) @ '' but does not support its namespace''])"

fun audit_descriptors :: "string \<Rightarrow> (string \<Rightarrow> bool) \<Rightarrow> (string \<times> string) list \<Rightarrow> descriptor list
    \<Rightarrow> string list \<times> (string \<times> string) list" where
  "audit_descriptors pid supports seen [] = ([], seen)"
| "audit_descriptors pid supports seen (d # ds) =
     (let (more, seen') = audit_descriptors pid supports
                            (if map_of seen (cd_name d) = None then (cd_name d, pid) # seen else seen) ds
      in (descriptor_problems pid supports seen d @ more, seen'))"

fun audit_providers :: "(string \<times> string) list \<Rightarrow> 'w cap_provider list \<Rightarrow> string list" where
  "audit_providers seen [] = []"
| "audit_providers seen (p # ps) =
     (let (ds, seen') = audit_descriptors (pv_id p) (pv_supports p) seen (pv_capabilities p)
      in (if pv_id p = [] then [''provider with empty id registered''] else []) @ ds @
         concat (map (\<lambda>x. if x = [] \<or> CHR ''.'' \<in> set x
                          then [''provider '' @ quoted (pv_id p) @ '' declares namespace '' @ quoted x @
                                ''; namespaces must be a single bare segment'']
                          else []) (pv_namespaces p)) @
         audit_providers seen' ps)"

definition audit :: "'w cap_provider list \<Rightarrow> string list" where
  "audit ps = audit_providers [] ps"

section \<open>Schemas\<close>

definition type_matches :: "string \<Rightarrow> json \<Rightarrow> bool" where
  "type_matches t v =
     (if t = ''object'' then is_object v
      else if t = ''array'' then is_array v
      else if t = ''string'' then is_string v
      else if t = ''number'' then is_number v
      else if t = ''integer'' then (case v of JInt _ \<Rightarrow> True | JFloat x \<Rightarrow> dbl_eq x (dbl_floor x) | _ \<Rightarrow> False)
      else if t = ''boolean'' then (case v of JBool _ \<Rightarrow> True | _ \<Rightarrow> False)
      else if t = ''null'' then v = JNull
      else True)"

definition types_match :: "json \<Rightarrow> json \<Rightarrow> bool" where
  "types_match types v =
     (case types of
        JStr t \<Rightarrow> type_matches t v
      | JArr ts \<Rightarrow> list_ex (\<lambda>t. case t of JStr n \<Rightarrow> type_matches n v | _ \<Rightarrow> False) ts
      | _ \<Rightarrow> False)"

definition sub_path :: "string \<Rightarrow> string \<Rightarrow> string" where
  "sub_path path k = (if path = [] then k else path @ ''.'' @ k)"

type_synonym issue = "string \<times> string"

definition type_issues :: "(json \<Rightarrow> string) \<Rightarrow> json \<Rightarrow> json \<Rightarrow> string \<Rightarrow> issue list" where
  "type_issues dump schema v path =
     (case jget ''type'' schema of
        Some types \<Rightarrow>
          (if v \<noteq> JNull \<and> \<not> types_match types v
           then [(path, ''expected type '' @ dump types @ '', got '' @ json_kind v)] else [])
      | None \<Rightarrow> [])"

definition enum_issues :: "(json \<Rightarrow> string) \<Rightarrow> json \<Rightarrow> json \<Rightarrow> string \<Rightarrow> issue list" where
  "enum_issues dump schema v path =
     (case jget ''enum'' schema of
        Some (JArr allowed) \<Rightarrow>
          (if v \<noteq> JNull \<and> \<not> list_ex (\<lambda>a. json_eq a v) allowed
           then [(path, ''value '' @ dump v @ '' is not one of '' @ dump (JArr allowed))] else [])
      | _ \<Rightarrow> [])"

definition required_issues :: "json \<Rightarrow> json \<Rightarrow> string \<Rightarrow> issue list" where
  "required_issues schema v path =
     (case (jget ''required'' schema, v) of
        (Some (JArr names), JObj ob) \<Rightarrow>
          concat (map (\<lambda>n. case n of
                         JStr k \<Rightarrow> (if map_of ob k = None then [(sub_path path k, ''required property is missing'')] else [])
                       | _ \<Rightarrow> []) names)
      | _ \<Rightarrow> [])"

definition length_issues :: "json \<Rightarrow> json \<Rightarrow> string \<Rightarrow> issue list" where
  "length_issues schema v path =
     (case (jget ''minLength'' schema, v) of
        (Some (JInt n), JStr s) \<Rightarrow> (if int (length s) < n mod 2 ^ 64 then [(path, ''string is shorter than minLength'')] else [])
      | _ \<Rightarrow> [])"

definition fill_defaults :: "obj \<Rightarrow> obj \<Rightarrow> obj" where
  "fill_defaults properties ob =
     foldl (\<lambda>ob (k, s). case jget ''default'' s of
              Some d \<Rightarrow> (if map_of ob k = None then obj_set k d ob else ob) | None \<Rightarrow> ob) ob properties"

definition closed_schema :: "json \<Rightarrow> bool" where
  "closed_schema schema \<longleftrightarrow> jget ''additionalProperties'' schema = Some (JBool False)"

definition defaulted :: "json \<Rightarrow> json \<Rightarrow> json" where
  "defaulted schema v = (case jget ''default'' schema of Some d \<Rightarrow> (if v = JNull then d else v) | None \<Rightarrow> v)"

lemma property_size: "Some (JObj ps) = jget k schema \<Longrightarrow> map_of ps n = Some s \<Longrightarrow> size s < size schema"
  using jget_size [of k schema "JObj ps"] size_member [of ps n s] by (simp del: json.size)

lemma items_size: "Some x = jget k schema \<Longrightarrow> size x < size schema"
  by (rule jget_size) (rule sym)

text \<open>\<open>check\<close>: the value with its defaults filled in, and the issues.  The recursion goes into the schema.\<close>

function check_schema :: "(json \<Rightarrow> string) \<Rightarrow> json \<Rightarrow> json \<Rightarrow> string \<Rightarrow> json \<times> issue list" where
  "check_schema dump schema v path =
     (if \<not> is_object schema then (v, [])
      else let v1 = defaulted schema v; ti = type_issues dump schema v1 path
      in if ti \<noteq> [] then (v1, ti)
      else let
        (v2, pis) =
          (case (jget ''properties'' schema, v1) of
             (Some (JObj properties), JObj ob) \<Rightarrow>
               (let rs = map (\<lambda>(k, x).
                      case map_of properties k of
                        Some s \<Rightarrow> (let (x', is) = check_schema dump s x (sub_path path k) in ((k, x'), is))
                      | None \<Rightarrow> ((k, x), if closed_schema schema then [(sub_path path k, ''unknown property'')] else []))
                      (fill_defaults properties ob)
                in (JObj (map fst rs), concat (map snd rs)))
           | _ \<Rightarrow> (v1, []));
        (v3, iis) =
          (case (jget ''items'' schema, v2) of
             (Some items, JArr xs) \<Rightarrow>
               (let rs = map (\<lambda>(i, x). check_schema dump items x (path @ ''['' @ int_str (int i) @ '']'')) (enumerate 0 xs)
                in (JArr (map fst rs), concat (map snd rs)))
           | _ \<Rightarrow> (v2, []))
      in (v3, enum_issues dump schema v1 path @ pis @ required_issues schema v2 path @ length_issues schema v2 path @ iis))"
  by pat_completeness auto

termination check_schema
  by (relation "measure (\<lambda>(dump, schema, v, path). size schema)") (auto dest: property_size items_size simp del: json.size)

declare check_schema.simps [simp del]

definition describe_issue :: "issue \<Rightarrow> string" where
  "describe_issue i = (if fst i = [] then ''<root>'' else fst i) @ '': '' @ snd i"

definition validate_or_throw :: "(json \<Rightarrow> string) \<Rightarrow> json \<Rightarrow> json \<Rightarrow> string \<Rightarrow> json res" where
  "validate_or_throw dump schema v capability =
     (let (v', issues) = check_schema dump schema v []
      in if issues = [] then Inr v'
         else Inl (sapo_error Validation
                (''invalid inputs for capability '' @ quoted capability @ '' '' @ [CHR 0xE2, CHR 0x80, CHR 0x94] @ '' '' @
                 joined ''; '' (map describe_issue issues))
                (jobj [(''capability'', JStr capability), (''issues'', JInt (int (length issues)))]) []))"

section \<open>Lemmas\<close>

lemma find_Some: "find P xs = Some x \<Longrightarrow> x \<in> set xs \<and> P x"
  by (induction xs) (auto split: if_splits)

lemma remove_first_ids: "set (map pv_id (remove_first P ps)) \<subseteq> set (map pv_id ps)"
  by (induction ps) auto

lemma remove_first_distinct:
  "distinct (map pv_id ps) \<Longrightarrow> distinct (map pv_id (remove_first (\<lambda>q. pv_id q = i) ps)) \<and>
     i \<notin> set (map pv_id (remove_first (\<lambda>q. pv_id q = i) ps))"
proof (induction ps)
  case (Cons p ps)
  then show ?case using remove_first_ids [of "\<lambda>q. pv_id q = i" ps] by auto
qed simp

lemma add_provider_distinct: "distinct (map pv_id ps) \<Longrightarrow> distinct (map pv_id (add_provider p ps))"
  using remove_first_distinct [of ps "pv_id p"] by (auto simp: add_provider_def)

lemma provider_for_sound:
  "provider_for name ps = Some p \<Longrightarrow>
     p \<in> set ps \<and> (advertises name p \<or> pv_capabilities p = [] \<and> pv_supports p name)"
  by (auto simp: provider_for_def split: option.splits dest!: find_Some)

lemma descriptor_advertised: "d \<in> set (descriptors ps) \<Longrightarrow> cd_name d = name \<Longrightarrow> \<exists>p \<in> set ps. advertises name p"
  by (auto simp: descriptors_def advertises_def)

lemma describe_Some: "describe name ps = Some d \<Longrightarrow> d \<in> set (descriptors ps) \<and> cd_name d = name"
  unfolding describe_def Let_def
  by (auto split: option.splits if_splits dest!: find_Some dest: last_in_set)

lemma known_when_described: "describe name ps = Some d \<Longrightarrow> knows name ps"
proof -
  assume "describe name ps = Some d"
  then obtain p where "p \<in> set ps" "advertises name p" using describe_Some descriptor_advertised by metis
  then show ?thesis by (auto simp: knows_def provider_for_def find_None_iff split: option.splits)
qed

text \<open>A value keeps its keys through the check of its properties, and a scalar or an array has no keys.\<close>

lemma fill_defaults_keeps: "map_of ob k \<noteq> None \<Longrightarrow> map_of (fill_defaults properties ob) k \<noteq> None"
  unfolding fill_defaults_def by (induction properties arbitrary: ob) (auto split: option.splits)

lemma fill_defaults_fills:
  "(k, s) \<in> set properties \<Longrightarrow> jget ''default'' s \<noteq> None \<Longrightarrow> map_of (fill_defaults properties ob) k \<noteq> None"
proof (induction properties arbitrary: ob)
  case (Cons p properties)
  show ?case
  proof (cases "p = (k, s)")
    case True
    let ?ob = "case jget ''default'' s of Some d \<Rightarrow> (if map_of ob k = None then obj_set k d ob else ob) | None \<Rightarrow> ob"
    have "map_of ?ob k \<noteq> None" using Cons.prems(2) by (auto split: option.splits)
    from fill_defaults_keeps [OF this, of properties] True show ?thesis by (simp add: fill_defaults_def)
  next
    case False
    with Cons.prems Cons.IH show ?thesis by (auto simp: fill_defaults_def split: prod.splits)
  qed
qed simp

lemma map_of_same_keys: "map fst xs = map fst ys \<Longrightarrow> (map_of xs k = None) = (map_of ys k = None)"
  by (simp add: map_of_eq_None_iff) (metis list.set_map)

definition checked_members :: "(json \<Rightarrow> string) \<Rightarrow> json \<Rightarrow> obj \<Rightarrow> obj \<Rightarrow> string \<Rightarrow> obj \<times> issue list" where
  "checked_members dump schema properties ob path =
     (let rs = map (\<lambda>(k, x).
        case map_of properties k of
          Some s \<Rightarrow> (let (x', is) = check_schema dump s x (sub_path path k) in ((k, x'), is))
        | None \<Rightarrow> ((k, x), if closed_schema schema then [(sub_path path k, ''unknown property'')] else []))
        (fill_defaults properties ob)
      in (map fst rs, concat (map snd rs)))"

lemma checked_members_keys: "map fst (fst (checked_members dump schema properties ob path)) = map fst (fill_defaults properties ob)"
  by (auto simp: checked_members_def Let_def split: option.splits prod.splits)

lemma check_schema_object:
  assumes "is_object schema" and "check_schema dump schema v path = (v', [])" and "defaulted schema v = JObj ob"
  shows "type_issues dump schema (JObj ob) path = [] \<and> required_issues schema v' path = [] \<and>
    (\<exists>ob'. v' = JObj ob' \<and>
      (case jget ''properties'' schema of
         Some (JObj properties) \<Rightarrow> map fst ob' = map fst (fill_defaults properties ob)
       | _ \<Rightarrow> ob' = ob))"
proof -
  have "(case jget ''properties'' schema of
      Some (JObj properties) \<Rightarrow> v' = JObj (fst (checked_members dump schema properties ob path))
    | _ \<Rightarrow> v' = JObj ob) \<and> type_issues dump schema (JObj ob) path = [] \<and> required_issues schema v' path = []"
    using assms(1,2)
    by (subst (asm) check_schema.simps)
      (auto simp: assms(3) Let_def checked_members_def split: if_splits option.splits json.splits prod.splits)
  then show ?thesis using checked_members_keys by (auto split: option.splits json.splits)
qed

section \<open>Properties\<close>

text \<open>
  A call is dispatched only where it may be: the registry answers with a provider's computation only for a name
  that the provider advertises, or takes in its namespace without a list of its own, and that no descriptor defers; a
  name nobody answers for is not found.
\<close>

theorem dispatch_calls_a_provider_or_refuses:
  "(\<exists>p \<in> set ps. dispatch ps c = pv_execute p c \<and>
       (advertises (cc_name c) p \<or> pv_capabilities p = [] \<and> pv_supports p (cc_name c)) \<and> has_capability (cc_name c) ps) \<or>
   (\<exists>d. describe (cc_name c) ps = Some d \<and> cd_deferred d \<and> dispatch ps c = raises (deferred_error c d)) \<or>
   \<not> knows (cc_name c) ps \<and> \<not> has_capability (cc_name c) ps \<and> dispatch ps c = raises (no_provider_error c)"
proof (cases "provider_for (cc_name c) ps")
  case None
  then have "describe (cc_name c) ps = None"
    using known_when_described [of "cc_name c" ps] by (cases "describe (cc_name c) ps") (auto simp: knows_def)
  with None show ?thesis by (simp add: knows_def has_capability_def dispatch_def)
next
  case (Some p)
  with provider_for_sound [OF Some] show ?thesis
    by (cases "describe (cc_name c) ps") (auto simp: dispatch_def has_capability_def)
qed

text \<open>A provider that only announces a capability takes the calls of a later provider that implements it.\<close>

theorem deferred_provider_is_executed:
  assumes "cd_name d = cc_name c" and "cd_deferred d" and "pv_capabilities p = [d]"
    and "cd_name e = cc_name c" and "\<not> cd_deferred e" and "pv_capabilities q = [e]"
  shows "dispatch [p, q] c = pv_execute p c"
  using assms by (simp add: dispatch_def provider_for_def advertises_def describe_def descriptors_def)

text \<open>
  Inputs that pass validation are complete: an object that passed has every required property and every property
  with a default, and keeps the keys it had.
\<close>

theorem validated_inputs_are_complete:
  assumes "validate_or_throw dump schema (JObj ob) capability = Inr v"
  shows "(\<forall>k. map_of ob k \<noteq> None \<longrightarrow> jcontains k v) \<and>
    (\<forall>names k. jget ''required'' schema = Some (JArr names) \<longrightarrow> JStr k \<in> set names \<longrightarrow> jcontains k v) \<and>
    (\<forall>properties k s. jget ''properties'' schema = Some (JObj properties) \<longrightarrow> (k, s) \<in> set properties \<longrightarrow>
       jget ''default'' s \<noteq> None \<longrightarrow> jcontains k v)"
proof (cases "is_object schema")
  case True
  have check: "check_schema dump schema (JObj ob) [] = (v, [])"
    using assms by (auto simp: validate_or_throw_def Let_def split: prod.splits if_splits)
  have "defaulted schema (JObj ob) = JObj ob" by (auto simp: defaulted_def split: option.splits)
  from check_schema_object [OF True check this] obtain ob' where v: "v = JObj ob'" and
    req: "required_issues schema v [] = []" and
    keys: "case jget ''properties'' schema of Some (JObj properties) \<Rightarrow> map fst ob' = map fst (fill_defaults properties ob) | _ \<Rightarrow> ob' = ob"
    by blast
  have old: "map_of ob k \<noteq> None \<Longrightarrow> map_of ob' k \<noteq> None" for k
  proof -
    assume k: "map_of ob k \<noteq> None"
    show ?thesis
    proof (cases "\<exists>properties. jget ''properties'' schema = Some (JObj properties)")
      case True
      then obtain properties where "map fst ob' = map fst (fill_defaults properties ob)" using keys by auto
      from map_of_same_keys [OF this] fill_defaults_keeps [OF k] show ?thesis by simp
    next
      case False
      with keys k show ?thesis by (auto split: option.splits json.splits)
    qed
  qed
  have "jget ''required'' schema = Some (JArr names) \<Longrightarrow> JStr k \<in> set names \<Longrightarrow> map_of ob' k \<noteq> None" for names k
    using req by (auto simp: required_issues_def v split: if_splits) 
  moreover have "jget ''properties'' schema = Some (JObj properties) \<Longrightarrow> (k, s) \<in> set properties \<Longrightarrow>
      jget ''default'' s \<noteq> None \<Longrightarrow> map_of ob' k \<noteq> None" for properties k s
    using keys fill_defaults_fills [of k s properties ob] map_of_same_keys [of ob' "fill_defaults properties ob" k] by simp
  ultimately show ?thesis using old by (simp add: v jcontains_def)
next
  case False
  then have "v = JObj ob" using assms by (simp add: validate_or_throw_def check_schema.simps)
  with False show ?thesis by (cases schema) (auto simp: jcontains_def)
qed

definition sample_schema :: json where
  "sample_schema = JObj [(''properties'', JObj [(''n'', JObj [(''default'', JInt 3)])]), (''required'', JArr [JStr ''m''])]"

theorem validated_inputs_are_complete_witness:
  "validate_or_throw (\<lambda>v. []) sample_schema (JObj [(''m'', JNull)]) ''c'' = Inr (JObj [(''m'', JNull), (''n'', JInt 3)]) \<and>
   jcontains ''n'' (JObj [(''m'', JNull), (''n'', JInt 3)])"
proof -
  have *: "validate_or_throw (\<lambda>v. []) sample_schema (JObj [(''m'', JNull)]) ''c'' = Inr (JObj [(''m'', JNull), (''n'', JInt 3)])"
    by code_simp
  from validated_inputs_are_complete [OF this]
  have "jcontains ''n'' (JObj [(''m'', JNull), (''n'', JInt 3)])" by (auto simp: sample_schema_def)
  with * show ?thesis by simp
qed

end
