(* ===== verification/Sapo_Data.thy ===== *)
theory Sapo_Data
  imports Sapo_Capability
begin

text \<open>
  Data sources (\<open>src/src/data/DataSourceProvider.cpp\<close>, \<open>.hpp\<close>): the row filters, the registry that dispatches a query
  and pages its rows, and the built-in providers.  A provider is a computation over the state of an activation, its
  context, the readings of clock and random source, and the outside world.
\<close>

section \<open>The state of an activation\<close>

record 'w tstate =
  ts_ctx :: ctx
  ts_draws :: nat
  ts_world :: 'w

text \<open>A computation of the expression language, and one of the outside world, in that state.\<close>

definition sel :: "'a comp \<Rightarrow> ('a, 'w tstate) act" where
  "sel m = (\<lambda>s. case m (fresh_state (ts_draws s)) of (r, t) \<Rightarrow> (r, s\<lparr>ts_draws := ss_draws t\<rparr>))"

definition outside :: "('a, 'w) act \<Rightarrow> ('a, 'w tstate) act" where
  "outside m = (\<lambda>s. case m (ts_world s) of (r, w) \<Rightarrow> (r, s\<lparr>ts_world := w\<rparr>))"

text \<open>Steps that leave the context alone.\<close>

definition same_ctx :: "'w tstate \<Rightarrow> 'w tstate \<Rightarrow> bool" where
  "same_ctx s t \<longleftrightarrow> ts_ctx s = ts_ctx t"

lemma preorder_same_ctx [keeps_intros]: "preorder same_ctx"
  by (simp add: preorder_def same_ctx_def)

lemma relates_Pair [keeps_intros]: "preorder R \<Longrightarrow> r \<noteq> Deep \<Longrightarrow> relates R (Pair r)"
  by (auto simp: relates_def preorder_def)

lemma relates_sel [keeps_intros]: "safe m \<Longrightarrow> relates same_ctx (sel m)"
  by (rule relatesI) (auto simp: sel_def same_ctx_def split: prod.splits dest: safeD)

section \<open>Filters\<close>

text \<open>Missing values, truth and equality as the filters read them.\<close>

fun filter_true :: "json \<Rightarrow> bool" where
  "filter_true (JBool b) = b"
| "filter_true JNull = False"
| "filter_true (JInt i) = (i \<noteq> 0)"
| "filter_true (JFloat x) = (\<not> dbl_eq x (DFin 0))"
| "filter_true (JStr s) = (s \<notin> set [[], ''false'', ''0'', ''null''])"
| "filter_true _ = True"

definition as_double :: "json \<Rightarrow> dbl" where
  "as_double v = (case double_of v of Some x \<Rightarrow> x | None \<Rightarrow> DNan)"

definition filter_equals :: "(json \<Rightarrow> string) \<Rightarrow> json \<Rightarrow> json \<Rightarrow> bool" where
  "filter_equals dump l r =
     (if is_number l \<and> is_number r then dbl_eq (as_double l) (as_double r)
      else case (l, r) of
        (JStr t, v) \<Rightarrow> (if is_number v then t = dump v else json_eq l r)
      | (v, JStr t) \<Rightarrow> (if is_number v then dump v = t else json_eq l r)
      | _ \<Rightarrow> json_eq l r)"

definition field_of :: "json \<Rightarrow> string \<Rightarrow> json option" where
  "field_of row path =
     (if path = [] \<or> \<not> is_object row then None
      else case jget path row of
        Some v \<Rightarrow> Some v
      | None \<Rightarrow> (if CHR ''.'' \<in> set path \<or> CHR ''['' \<in> set path then get_path row path else None))"

text \<open>The operators of a field that is missing, in the order of their names.\<close>

fun missing_matches :: "obj \<Rightarrow> bool" where
  "missing_matches [] = True"
| "missing_matches ((k, v) # ops) =
     (if k = ''$exists'' then \<not> filter_true v
      else if k = ''$nin'' \<or> k = ''$ne'' then missing_matches ops
      else False)"

text \<open>Tests one after the other, up to the first that fails or throws.\<close>

fun all_hold :: "bool res list \<Rightarrow> bool res" where
  "all_hold [] = Inr True"
| "all_hold (t # ts) = (case t of Inr True \<Rightarrow> all_hold ts | _ \<Rightarrow> t)"

definition operand_test :: "obj \<Rightarrow> string \<Rightarrow> (json \<Rightarrow> bool) \<Rightarrow> bool res" where
  "operand_test ops name test = Inr (case map_of ops name of Some x \<Rightarrow> test x | None \<Rightarrow> True)"

definition relational :: "(json \<Rightarrow> string) \<Rightarrow> (string \<Rightarrow> string \<Rightarrow> bool) \<Rightarrow> (dbl \<Rightarrow> dbl \<Rightarrow> bool) \<Rightarrow> json \<Rightarrow> json \<Rightarrow> bool" where
  "relational dump test test_num v x =
     (if is_number v \<and> is_number x then test_num (as_double v) (as_double x) else test (as_text dump v) (as_text dump x))"

definition dbl_le :: "dbl \<Rightarrow> dbl \<Rightarrow> bool" where
  "dbl_le x y \<longleftrightarrow> dbl_lt x y \<or> dbl_eq x y"

definition member_of :: "(json \<Rightarrow> string) \<Rightarrow> json \<Rightarrow> json \<Rightarrow> bool" where
  "member_of dump v x = (case x of JArr cs \<Rightarrow> list_ex (filter_equals dump v) cs | _ \<Rightarrow> False)"

definition not_member_of :: "(json \<Rightarrow> string) \<Rightarrow> json \<Rightarrow> json \<Rightarrow> bool" where
  "not_member_of dump v x = (case x of JArr cs \<Rightarrow> \<not> list_ex (filter_equals dump v) cs | _ \<Rightarrow> False)"

definition regex_test :: "sel_host \<Rightarrow> obj \<Rightarrow> json \<Rightarrow> bool res" where
  "regex_test h ops v =
     (case map_of ops ''$regex'' of
        None \<Rightarrow> Inr True
      | Some (JStr p) \<Rightarrow>
          (case v of
             JStr t \<Rightarrow> (case ho_search h t p of
                          Inr b \<Rightarrow> Inr b
                        | Inl _ \<Rightarrow> Inl (sapo_error Validation (''invalid $regex pattern '' @ quoted p) JNull []))
           | _ \<Rightarrow> Inr False)
      | Some _ \<Rightarrow> Inr False)"

definition unsupported_operator :: "string \<Rightarrow> sapo_error" where
  "unsupported_operator k =
     sapo_error Validation (''unsupported filter operator '' @ quoted k @ '' (expected $eq/$ne/$gt/$gte/$lt/'' @
       ''$lte/$in/$nin/$regex/$exists)'') JNull []"

definition is_operator :: "string \<Rightarrow> bool" where
  "is_operator k \<longleftrightarrow> k \<noteq> [] \<and> hd k = CHR ''$''"

definition operator_names_test :: "obj \<Rightarrow> bool res" where
  "operator_names_test ops =
     (case find (\<lambda>p. \<not> is_operator (fst p)) ops of Some (k, _) \<Rightarrow> Inl (unsupported_operator k) | None \<Rightarrow> Inr True)"

definition apply_operators :: "sel_host \<Rightarrow> json option \<Rightarrow> obj \<Rightarrow> bool res" where
  "apply_operators h field ops =
     (case field of
        None \<Rightarrow> Inr (missing_matches ops)
      | Some v \<Rightarrow>
          all_hold
            [operand_test ops ''$exists'' filter_true,
             operand_test ops ''$eq'' (filter_equals (ho_dump h) v),
             operand_test ops ''$ne'' (\<lambda>x. \<not> filter_equals (ho_dump h) v x),
             operand_test ops ''$lt'' (relational (ho_dump h) (<) dbl_lt v),
             operand_test ops ''$lte'' (relational (ho_dump h) (\<le>) dbl_le v),
             operand_test ops ''$gt'' (relational (ho_dump h) (>) (\<lambda>a b. dbl_lt b a) v),
             operand_test ops ''$gte'' (relational (ho_dump h) (\<ge>) (\<lambda>a b. dbl_le b a) v),
             operand_test ops ''$in'' (member_of (ho_dump h) v),
             operand_test ops ''$nin'' (not_member_of (ho_dump h) v),
             regex_test h ops v,
             operator_names_test ops])"

definition entry_matches :: "sel_host \<Rightarrow> json \<Rightarrow> string \<times> json \<Rightarrow> bool res" where
  "entry_matches h row e =
     (let field = field_of row (fst e); ops = jentries (snd e)
      in if list_ex (\<lambda>p. is_operator (fst p)) ops then apply_operators h field ops
         else Inr (case field of None \<Rightarrow> False | Some v \<Rightarrow> filter_equals (ho_dump h) v (snd e)))"

fun matches_filter :: "sel_host \<Rightarrow> json \<Rightarrow> json \<Rightarrow> bool res" where
  "matches_filter h row JNull = Inr True"
| "matches_filter h row (JBool b) = Inr b"
| "matches_filter h row (JArr fs) = all_hold (map (matches_filter h row) fs)"
| "matches_filter h row (JObj es) = all_hold (map (entry_matches h row) es)"
| "matches_filter h row f =
     Inl (sapo_error Validation (''a query '' @ quoted ''filter'' @ '' must be an object, an array of objects or null (got '' @
            json_kind f @ '')'') JNull [])"

section \<open>Queries\<close>

record data_config =
  dc_name :: string
  dc_scope :: string
  dc_provider :: string
  dc_config :: json
  dc_origin :: string

record data_query =
  dq_filter :: json
  dq_limit :: "int option"
  dq_offset :: "int option"
  dq_statement :: string
  dq_parameters :: json

record data_page =
  dp_rows :: json
  dp_pre_filtered :: bool
  dp_pre_paged :: bool
  dp_total_matches :: nat
  dp_truncated :: bool
  dp_meta :: json

definition new_page :: data_page where
  "new_page = \<lparr>dp_rows = JArr [], dp_pre_filtered = False, dp_pre_paged = False, dp_total_matches = 0,
     dp_truncated = False, dp_meta = JObj []\<rparr>"

type_synonym 'w matcher = "json \<Rightarrow> (bool, 'w tstate) act"

definition make_row_matcher :: "sel_host \<Rightarrow> json \<Rightarrow> 'w matcher" where
  "make_row_matcher h f row = (case matches_filter h row f of Inl e \<Rightarrow> raises e | Inr b \<Rightarrow> yields b)"

record 'w data_provider =
  dv_id :: string
  dv_description :: string
  dv_deferred :: bool
  dv_validate :: "data_config \<Rightarrow> string list"
  dv_query :: "data_config \<Rightarrow> data_query \<Rightarrow> 'w matcher option \<Rightarrow> (data_page, 'w tstate) act"

definition source_text :: "data_config \<Rightarrow> string" where
  "source_text c = ''data source '' @ quoted (dc_name c)"

definition base_validate :: "data_config \<Rightarrow> string list" where
  "base_validate c =
     (if dc_name c = [] then [source_text c @ '' has no name''] else []) @
     (if dc_scope c \<noteq> ''internal'' \<and> dc_scope c \<noteq> ''external''
      then [source_text c @ '' has invalid scope '' @ quoted (dc_scope c)] else []) @
     (if is_object (dc_config c) then [] else [source_text c @ '' config must be an object''])"

definition base_query :: "string \<Rightarrow> data_config \<Rightarrow> (data_page, 's) act" where
  "base_query pid c =
     raises (sapo_error NotImplemented
       (''data source provider '' @ quoted pid @ '' does not implement query() for '' @ quoted (dc_name c)) JNull [])"

section \<open>The registry\<close>

definition add_data_provider :: "'w data_provider \<Rightarrow> 'w data_provider list \<Rightarrow> 'w data_provider list" where
  "add_data_provider p ps = remove_first (\<lambda>q. dv_id q = dv_id p) ps @ [p]"

definition find_provider :: "string \<Rightarrow> 'w data_provider list \<Rightarrow> 'w data_provider option" where
  "find_provider i ps = find (\<lambda>p. dv_id p = i) ps"

definition has_provider :: "string \<Rightarrow> 'w data_provider list \<Rightarrow> bool" where
  "has_provider i ps \<longleftrightarrow> find_provider i ps \<noteq> None"

definition data_provider_ids :: "'w data_provider list \<Rightarrow> string list" where
  "data_provider_ids ps = sort (map dv_id ps)"

definition deferred_providers :: "'w data_provider list \<Rightarrow> string list" where
  "deferred_providers ps = sort (map dv_id (filter dv_deferred ps))"

definition source_data :: "data_config \<Rightarrow> json" where
  "source_data c = jobj [(''data_source'', JStr (dc_name c)), (''provider'', JStr (dc_provider c))]"

definition unknown_provider_error :: "data_config \<Rightarrow> 'w data_provider list \<Rightarrow> sapo_error" where
  "unknown_provider_error c ps =
     sapo_error NotFound
       (''no data source provider is registered for '' @ quoted (dc_provider c) @ '' (data source '' @ quoted (dc_name c) @
        ''). Available: '' @ (let l = joined '', '' (data_provider_ids ps) in if l = [] then ''none'' else l) @
        (if dc_origin c = [] then [] else '' [declared in '' @ dc_origin c @ '']''))
       (source_data c) []"

definition deferred_provider_error :: "data_config \<Rightarrow> sapo_error" where
  "deferred_provider_error c =
     sapo_error NotImplemented
       (''data source provider '' @ quoted (dc_provider c) @ '' is registered but not implemented '' @
        ''in this build (deferred; see docs/LIMITATIONS.md)'') (source_data c) []"

text \<open>Offset and limit on the matching rows: the rows kept, and whether any was dropped.\<close>

definition page_start :: "int option \<Rightarrow> nat \<Rightarrow> nat" where
  "page_start offset n = (case offset of Some k \<Rightarrow> (if 0 < k then min (nat k) n else 0) | None \<Rightarrow> 0)"

definition page_rows :: "data_query \<Rightarrow> json list \<Rightarrow> json list \<times> bool" where
  "page_rows q rows =
     (let start = page_start (dq_offset q) (length rows); rest = drop start rows
      in case dq_limit q of
           Some l \<Rightarrow> (if 0 \<le> l \<and> nat l < length rest then (take (nat l) rest, True) else (rest, 0 < start))
         | None \<Rightarrow> (rest, 0 < start))"

definition matching_rows :: "'w matcher option \<Rightarrow> json list \<Rightarrow> (json list, 'w tstate) act" where
  "matching_rows m rows = (case m of Some f \<Rightarrow> sieve f rows | None \<Rightarrow> yields rows)"

definition data_run ::
    "'w data_provider list \<Rightarrow> data_config \<Rightarrow> data_query \<Rightarrow> 'w matcher option \<Rightarrow> (data_page, 'w tstate) act" where
  "data_run ps c q m =
     (case find_provider (dc_provider c) ps of
        None \<Rightarrow> raises (unknown_provider_error c ps)
      | Some p \<Rightarrow>
          (if dv_deferred p then raises (deferred_provider_error c)
           else andthen (dv_query p c q m) (\<lambda>page.
             case dp_rows page of
               JArr rows \<Rightarrow>
                 andthen (if dp_pre_filtered page then yields rows else matching_rows m rows) (\<lambda>matched.
                   (let (kept, cut) = page_rows q matched
                    in yields \<lparr>dp_rows = JArr kept, dp_pre_filtered = True, dp_pre_paged = True,
                         dp_total_matches = (if dp_total_matches page \<noteq> 0 then dp_total_matches page else length matched),
                         dp_truncated = cut, dp_meta = dp_meta page\<rparr>))
             | _ \<Rightarrow> raises (sapo_error DataSourceErr
                       (''data source provider '' @ quoted (dc_provider c) @ '' returned non-array rows for '' @ quoted (dc_name c))
                       JNull []))))"

definition validate_source :: "'w data_provider list \<Rightarrow> data_config \<Rightarrow> string list" where
  "validate_source ps c =
     (if dc_provider c = [] then [source_text c @ '' declares no provider'']
      else case find_provider (dc_provider c) ps of
        None \<Rightarrow> [source_text c @ '' uses unknown provider '' @ quoted (dc_provider c)]
      | Some p \<Rightarrow>
          (if dv_deferred p
           then [source_text c @ '' uses provider '' @ quoted (dc_provider c) @ '' which is deferred in this build''] else []) @
          dv_validate p c)"

definition validate_sources :: "'w data_provider list \<Rightarrow> data_config list \<Rightarrow> string list" where
  "validate_sources ps cs = concat (map (validate_source ps) cs)"

section \<open>The built-in providers\<close>

text \<open>The rows of an object: the first of the usual members that holds an array.\<close>

definition row_member :: "json \<Rightarrow> json option" where
  "row_member v =
     (case find (\<lambda>k. case jget k v of Some (JArr _) \<Rightarrow> True | _ \<Rightarrow> False) [''items'', ''rows'', ''data'', ''results''] of
        Some k \<Rightarrow> jget k v | None \<Rightarrow> None)"

definition provider_scope :: "bool \<Rightarrow> ctx \<Rightarrow> scope" where
  "provider_scope strict c =
     \<lparr>sc_context = Some c, sc_bindings = None, sc_locals = JObj [], sc_strict = strict, sc_node = []\<rparr>"

definition in_scope_of :: "bool \<Rightarrow> (scope \<Rightarrow> 'a comp) \<Rightarrow> ('a, 'w tstate) act" where
  "in_scope_of strict f = (\<lambda>s. sel (f (provider_scope strict (ts_ctx s))) s)"

definition data_error :: "string \<Rightarrow> sapo_error" where
  "data_error message = sapo_error DataSourceErr message JNull []"

definition context_validate :: "data_config \<Rightarrow> string list" where
  "context_validate c =
     base_validate c @
     (if jcontains ''source'' (dc_config c) then []
      else [source_text c @ '' (provider=context) needs config.source, e.g. '' @ quote_name ''$rows''])"

definition context_rows :: "data_config \<Rightarrow> json \<Rightarrow> (json list, 's) act" where
  "context_rows c v =
     (case v of
        JArr xs \<Rightarrow> yields xs
      | JObj ob \<Rightarrow> (case row_member v of Some (JArr xs) \<Rightarrow> yields (if xs = [] then [v] else xs) | _ \<Rightarrow> yields [v])
      | JNull \<Rightarrow> yields []
      | _ \<Rightarrow> raises (data_error (source_text c @ '' resolved to a non-collection value'')))"

text \<open>The rows a provider found, filtered when there is a matcher.\<close>

definition filtered_page :: "'w matcher option \<Rightarrow> json \<Rightarrow> json list \<Rightarrow> (data_page, 'w tstate) act" where
  "filtered_page m meta rows =
     andthen (matching_rows m rows) (\<lambda>kept.
       yields (new_page\<lparr>dp_rows := JArr kept, dp_pre_filtered := (m \<noteq> None), dp_meta := meta\<rparr>))"

definition context_query :: "sel_host \<Rightarrow> data_config \<Rightarrow> data_query \<Rightarrow> 'w matcher option \<Rightarrow> (data_page, 'w tstate) act" where
  "context_query h c q m =
     andthen (demand (text_at ''source'' [] (dc_config c))) (\<lambda>t.
     andthen (in_scope_of False (\<lambda>sc. resolve_text h sc (if t = [] then ho_dump h (dc_config c) else t))) (\<lambda>v.
     andthen (context_rows c v) (filtered_page m (JObj []))))"

definition mock_validate :: "data_config \<Rightarrow> string list" where
  "mock_validate c =
     base_validate c @
     (if jcontains ''rows'' (dc_config c) \<or> jcontains ''file'' (dc_config c) then []
      else [source_text c @ '' (provider=mock) needs config.rows or config.file'']) @
     (if jcontains ''rows'' (dc_config c) \<and> \<not> is_array (jvalue ''rows'' JNull (dc_config c))
      then [source_text c @ '' config.rows must be an array''] else [])"

definition unwrapped_rows :: "json \<Rightarrow> json" where
  "unwrapped_rows v = (if jcontains ''rows'' v then jvalue ''rows'' JNull v else v)"

text \<open>The rows of the configuration, or of the file when the rows are null; the file's text is a parameter.\<close>

definition mock_rows :: "sel_host \<Rightarrow> (string \<Rightarrow> string) \<Rightarrow> json \<Rightarrow> (json, 's) act" where
  "mock_rows h read_file cfg =
     andthen (demand (value_at ''rows'' (JArr []) cfg)) (\<lambda>v.
       (let rows = unwrapped_rows v
        in if rows = JNull \<and> jcontains ''file'' cfg then
             andthen (demand (text_of (jvalue ''file'' JNull cfg))) (\<lambda>path.
               case ho_parse h (read_file path) of
                 Some doc \<Rightarrow> yields (unwrapped_rows doc)
               | None \<Rightarrow> raises (data_error ''mock data source file could not be read: parse error''))
           else yields rows))"

definition mock_query ::
    "sel_host \<Rightarrow> (string \<Rightarrow> string) \<Rightarrow> data_config \<Rightarrow> data_query \<Rightarrow> 'w matcher option \<Rightarrow> (data_page, 'w tstate) act" where
  "mock_query h read_file c q m =
     andthen (mock_rows h read_file (dc_config c)) (\<lambda>rows.
       case rows of
         JArr xs \<Rightarrow> filtered_page m (JObj []) xs
       | _ \<Rightarrow> raises (data_error (''mock data source '' @ quoted (dc_name c) @ '' has no row array'')))"

definition http_validate :: "'w transport option \<Rightarrow> data_config \<Rightarrow> string list" where
  "http_validate transport c =
     base_validate c @
     (if jcontains ''url'' (dc_config c) then [] else [source_text c @ '' (provider=http) needs config.url'']) @
     (if transport = None then [''http data source provider has no transport installed''] else [])"

definition unquoted :: "string \<Rightarrow> string" where
  "unquoted t = (if t \<noteq> [] \<and> hd t = CHR 0x22 \<and> last t = CHR 0x22 then take (length t - 2) (tl t) else t)"

fun stringified :: "(json \<Rightarrow> string) \<Rightarrow> json \<Rightarrow> json" where
  "stringified dump (JObj ob) = JObj (map (\<lambda>(k, v). (k, JStr (as_text dump v))) ob)"
| "stringified dump (JArr xs) = JArr (map (\<lambda>v. JStr (as_text dump v)) xs)"
| "stringified dump JNull = JNull"
| "stringified dump v = JStr (as_text dump v)"

definition page_query :: "data_query \<Rightarrow> json" where
  "page_query q =
     jobj ((case dq_limit q of Some l \<Rightarrow> [(''limit'', JStr (int_str l))] | None \<Rightarrow> []) @
           (case dq_offset q of Some k \<Rightarrow> [(''offset'', JStr (int_str k))] | None \<Rightarrow> []))"

text \<open>A part of the configuration resolved, when it is there.\<close>

definition configured :: "string \<Rightarrow> json \<Rightarrow> (json \<Rightarrow> ('a, 's) act) \<Rightarrow> 'a \<Rightarrow> ('a, 's) act" where
  "configured k cfg f d = (case jget k cfg of Some v \<Rightarrow> f v | None \<Rightarrow> yields d)"

definition http_data_request :: "sel_host \<Rightarrow> data_config \<Rightarrow> data_query \<Rightarrow> (request, 'w tstate) act" where
  "http_data_request h c q =
     (let cfg = dc_config c; resolved = (\<lambda>v. in_scope_of True (\<lambda>sc. resolve_object h sc v))
      in andthen (demand (text_at ''method'' ''GET'' cfg)) (\<lambda>meth.
         andthen (demand (text_at ''url'' [] cfg)) (\<lambda>url.
         andthen (in_scope_of True (\<lambda>sc. resolve_text h sc url)) (\<lambda>u.
         andthen (configured ''headers'' cfg resolved (JObj [])) (\<lambda>headers.
         andthen (configured ''query'' cfg resolved (page_query q)) (\<lambda>query.
         andthen (configured ''body'' cfg
                    (\<lambda>v. andthen (demand (text_of v)) (\<lambda>t. andthen (in_scope_of True (\<lambda>sc. resolve_text h sc t)) (\<lambda>b. yields (Some b))))
                    None) (\<lambda>body.
         andthen (demand (int_at ''timeout_ms'' 10000 cfg)) (\<lambda>timeout.
           yields (default_request\<lparr>hq_method := meth, hq_url := unquoted (ho_dump h u),
             hq_headers := stringified (ho_dump h) headers, hq_query := stringified (ho_dump h) query,
             hq_body := body, hq_timeout_ms := timeout\<rparr>)))))))))"

definition document_rows :: "string \<Rightarrow> json \<Rightarrow> json list" where
  "document_rows rows_path doc =
     (let d1 = (if rows_path = [] then doc else case get_path doc rows_path of Some v \<Rightarrow> v | None \<Rightarrow> doc);
          d2 = (case row_member d1 of Some v \<Rightarrow> v | None \<Rightarrow> d1)
      in case d2 of JArr xs \<Rightarrow> xs | _ \<Rightarrow> [d2])"

definition http_rows :: "sel_host \<Rightarrow> data_config \<Rightarrow> request \<Rightarrow> response \<Rightarrow> (json list, 's) act" where
  "http_rows h c rq r =
     (if hs_transport_error r \<noteq> [] then
        raises (sapo_error Http (source_text c @ '' transport failure: '' @ hs_transport_error r) (jobj [(''url'', JStr (hq_url rq))]) [])
      else if \<not> response_ok r then
        raises (sapo_error HttpStatus (source_text c @ '' returned HTTP '' @ int_str (hs_status r))
          (jobj [(''status'', JInt (hs_status r)), (''url'', JStr (hq_url rq))]) [])
      else if json_body (ho_parse h) r = JNull then raises (data_error (source_text c @ '' returned a body that is not JSON''))
      else andthen (demand (text_at ''rows_path'' [] (dc_config c))) (\<lambda>path. yields (document_rows path (json_body (ho_parse h) r))))"

definition http_query ::
    "sel_host \<Rightarrow> 'w transport option \<Rightarrow> data_config \<Rightarrow> data_query \<Rightarrow> 'w matcher option \<Rightarrow> (data_page, 'w tstate) act" where
  "http_query h transport c q m =
     andthen (http_data_request h c q) (\<lambda>rq.
     andthen (case transport of Some send \<Rightarrow> outside (send rq) | None \<Rightarrow> crashes) (\<lambda>r.
     andthen (http_rows h c rq r) (\<lambda>rows.
       filtered_page m (jobj [(''status'', JInt (hs_status r)), (''url'', JStr (hq_url rq))]) rows)))"

definition deferred_query :: "string \<Rightarrow> string \<Rightarrow> data_config \<Rightarrow> (data_page, 's) act" where
  "deferred_query pid reason c =
     raises (sapo_error NotImplemented (''data source provider '' @ quoted pid @ '' is not available: '' @ reason)
       (jobj [(''data_source'', JStr (dc_name c)), (''provider'', JStr pid)]) [])"

definition deferred_provider :: "string \<Rightarrow> string \<Rightarrow> 'w data_provider" where
  "deferred_provider pid reason =
     \<lparr>dv_id = pid, dv_description = reason, dv_deferred = True, dv_validate = base_validate,
      dv_query = (\<lambda>c q m. deferred_query pid reason c)\<rparr>"

definition built_ins :: "sel_host \<Rightarrow> (string \<Rightarrow> string) \<Rightarrow> 'w transport option \<Rightarrow> 'w data_provider list" where
  "built_ins h read_file transport =
     foldl (\<lambda>ps p. add_data_provider p ps) []
       [\<lparr>dv_id = ''context'', dv_description = ''Reads a collection already present in the session context.'',
         dv_deferred = False, dv_validate = context_validate, dv_query = context_query h\<rparr>,
        \<lparr>dv_id = ''mock'', dv_description = ''Static rows supplied in config.rows (tests, examples, demos).'',
         dv_deferred = False, dv_validate = mock_validate, dv_query = mock_query h read_file\<rparr>,
        \<lparr>dv_id = ''http'', dv_description = ''Fetches a JSON array over HTTP (transport injected; mock/replay in tests).'',
         dv_deferred = False, dv_validate = http_validate transport, dv_query = http_query h transport\<rparr>,
        deferred_provider ''redis'' ''no Redis client is linked in this build; implement IDataSourceProvider to enable it'',
        deferred_provider ''postgresql''
          ''no PostgreSQL client is linked in this build; implement IDataSourceProvider to enable it'']"

section \<open>Queries only read\<close>

text \<open>What the registry relies on: no provider writes to the context, given a matcher that does not.\<close>

definition quiet_matcher :: "'w matcher option \<Rightarrow> bool" where
  "quiet_matcher m \<longleftrightarrow> (\<forall>f row. m = Some f \<longrightarrow> relates same_ctx (f row))"

locale reading_sources =
  fixes sources :: "'w data_provider list"
  assumes source_reads: "p \<in> set sources \<Longrightarrow> quiet_matcher m \<Longrightarrow> relates same_ctx (dv_query p c q m)"
begin

lemma matching_reads: "quiet_matcher m \<Longrightarrow> relates same_ctx (matching_rows m rows)"
  by (cases m) (auto simp: matching_rows_def quiet_matcher_def intro!: keeps_intros)

lemma run_reads: "quiet_matcher m \<Longrightarrow> relates same_ctx (data_run sources c q m)"
  unfolding data_run_def find_provider_def
  by (auto intro!: keeps_intros source_reads matching_reads dest!: find_Some split: option.splits json.splits)

end

lemma relates_in_scope_of [keeps_intros]: "(\<And>sc. safe (f sc)) \<Longrightarrow> relates same_ctx (in_scope_of strict f)"
  by (rule relatesI) (auto simp: in_scope_of_def dest: relatesD [OF relates_sel])

lemma relates_outside [keeps_intros]: "(\<And>w. fst (m w) \<noteq> Deep) \<Longrightarrow> relates same_ctx (outside m)"
  by (rule relatesI) (metis (mono_tags, lifting) case_prod_beta outside_def prod.inject same_ctx_def tstate.ext_inject
      tstate.surjective tstate.update_convs(3) fst_conv)

lemma safe_resolve_object [safe_intros]: "safe (resolve_object h sc v)"
  by (induction h sc v rule: resolve_object.induct) (auto intro!: safe_intros split: json.splits)

lemma relates_filtered_page: "quiet_matcher m \<Longrightarrow> relates same_ctx (filtered_page m meta rows)"
  unfolding filtered_page_def matching_rows_def quiet_matcher_def
  by (auto intro!: keeps_intros split: option.splits)

lemma relates_row_sources [keeps_intros]:
  "relates same_ctx (context_rows c v)" "relates same_ctx (mock_rows h read_file cfg)" "relates same_ctx (http_rows h c rq r)"
  unfolding context_rows_def mock_rows_def http_rows_def
  by (auto simp: Let_def intro!: keeps_intros split: json.splits option.splits)

lemma relates_http_data_request [keeps_intros]: "relates same_ctx (http_data_request h c q)"
  unfolding http_data_request_def Let_def configured_def
  by (auto intro!: keeps_intros safe_intros split: option.splits)

definition answers :: "'w transport option \<Rightarrow> bool" where
  "answers transport \<longleftrightarrow> (\<forall>send q w. transport = Some send \<longrightarrow> fst (send q w) \<noteq> Deep)"

lemma relates_transport [keeps_intros]:
  "answers transport \<Longrightarrow> relates same_ctx (case transport of Some send \<Rightarrow> outside (send rq) | None \<Rightarrow> crashes)"
  by (cases transport) (auto simp: answers_def intro!: keeps_intros)

lemma relates_queries:
  assumes "quiet_matcher m"
  shows "relates same_ctx (context_query h c q m)" and "relates same_ctx (mock_query h read_file c q m)"
    and "answers transport \<Longrightarrow> relates same_ctx (http_query h transport c q m)"
    and "relates same_ctx (deferred_query pid reason c)"
  unfolding context_query_def mock_query_def http_query_def deferred_query_def
  using relates_filtered_page [OF assms]
  by (auto intro!: keeps_intros safe_intros split: json.splits option.splits)

lemma built_ins_list: "built_ins h read_file transport =
   [\<lparr>dv_id = ''context'', dv_description = ''Reads a collection already present in the session context.'',
      dv_deferred = False, dv_validate = context_validate, dv_query = context_query h\<rparr>,
    \<lparr>dv_id = ''mock'', dv_description = ''Static rows supplied in config.rows (tests, examples, demos).'',
      dv_deferred = False, dv_validate = mock_validate, dv_query = mock_query h read_file\<rparr>,
    \<lparr>dv_id = ''http'', dv_description = ''Fetches a JSON array over HTTP (transport injected; mock/replay in tests).'',
      dv_deferred = False, dv_validate = http_validate transport, dv_query = http_query h transport\<rparr>,
    deferred_provider ''redis'' ''no Redis client is linked in this build; implement IDataSourceProvider to enable it'',
    deferred_provider ''postgresql''
      ''no PostgreSQL client is linked in this build; implement IDataSourceProvider to enable it'']"
  by (simp add: built_ins_def add_data_provider_def deferred_provider_def)

text \<open>The scripted transport stands for the network here: it answers every request.\<close>

definition mock_transport :: "sel_host \<Rightarrow> mock transport option" where
  "mock_transport h = Some (mock_send (ho_dump h))"

lemma mock_transport_answers: "answers (mock_transport h)"
  using mock_never_throws [of "ho_dump h"] by (auto simp: answers_def mock_transport_def) (metis ev.distinct(5))

lemma built_in_reads:
  assumes "answers transport" and "p \<in> set (built_ins h read_file transport)" and "quiet_matcher m"
  shows "relates same_ctx (dv_query p c q m)"
  using assms(2) relates_queries [OF assms(3)] assms(1) by (auto simp: built_ins_list deferred_provider_def)

interpretation built_in: reading_sources "built_ins h read_file (mock_transport h)" for h read_file
  by unfold_locales (rule built_in_reads [OF mock_transport_answers])

lemma quiet_row_matcher: "quiet_matcher (Some (make_row_matcher h f))"
  by (auto simp: quiet_matcher_def make_row_matcher_def intro!: keeps_intros split: sum.splits)

section \<open>Lemmas\<close>

lemma sieve_none: "matching_rows None rows s = (Val rows, s)"
  by (simp add: matching_rows_def)

lemma page_rows_length: "length (fst (page_rows q rows)) \<le> length rows"
  by (auto simp: page_rows_def Let_def split: option.splits)

declare all_hold.simps(2) [simp del]

lemma all_hold_Inl [simp]: "all_hold (Inl e # ts) = Inl e"
  by (simp add: all_hold.simps(2))

lemma all_hold_Inr [simp]: "all_hold (Inr b # ts) = (if b then all_hold ts else Inr False)"
  by (cases b) (simp_all add: all_hold.simps(2))

lemma single_operator:
  assumes "field_of row f = Some v"
  shows "matches_filter h row (JObj [(f, JObj [(''$eq'', x)])]) = Inr (filter_equals (ho_dump h) v x)"
    and "matches_filter h row (JObj [(f, JObj [(''$ne'', x)])]) = Inr (\<not> filter_equals (ho_dump h) v x)"
    and "matches_filter h row (JObj [(f, JObj [(''$lt'', x)])]) = Inr (relational (ho_dump h) (<) dbl_lt v x)"
    and "matches_filter h row (JObj [(f, JObj [(''$gte'', x)])]) = Inr (relational (ho_dump h) (\<ge>) (\<lambda>a b. dbl_le b a) v x)"
    and "matches_filter h row (JObj [(f, JObj [(''$in'', x)])]) = Inr (member_of (ho_dump h) v x)"
    and "matches_filter h row (JObj [(f, JObj [(''$nin'', x)])]) = Inr (not_member_of (ho_dump h) v x)"
  by (simp_all add: assms entry_matches_def Let_def apply_operators_def regex_test_def operator_names_test_def
      operand_test_def is_operator_def)

lemma dbl_le_not_lt: "x \<noteq> DNan \<Longrightarrow> y \<noteq> DNan \<Longrightarrow> dbl_le y x \<longleftrightarrow> \<not> dbl_lt x y"
  by (cases x; cases y) (auto simp: dbl_le_def)

lemma round_dbl_number: "round_dbl r \<noteq> DNan"
  by (simp add: round_dbl_def Let_def)

lemma as_double_number: "is_number v \<Longrightarrow> v \<noteq> JFloat DNan \<Longrightarrow> as_double v \<noteq> DNan"
  by (cases v) (auto simp: as_double_def round_dbl_number)

lemma take_drop_same: "take l (drop k xs) = xs \<longleftrightarrow> xs = [] \<or> k = 0 \<and> length xs \<le> l"
proof
  assume "take l (drop k xs) = xs"
  then have "min l (length xs - k) = length xs" by (metis length_drop length_take min.commute)
  then show "xs = [] \<or> k = 0 \<and> length xs \<le> l" by (cases "length xs") (auto simp: min_def split: if_splits)
qed auto

text \<open>The rows of a file alone are never read: without a \<open>rows\<close> member the default is the empty array, not null.\<close>

theorem mock_file_is_not_read: "mock_rows h read_file (JObj [(''file'', v)]) = yields (JArr [])"
  by (rule ext) (simp add: mock_rows_def value_at_def unwrapped_rows_def jcontains_def)

text \<open>An object whose \<open>items\<close> are empty is read as one row, the object itself.\<close>

theorem empty_items_yield_the_wrapper: "context_rows c (JObj [(''items'', JArr [])]) = yields [JObj [(''items'', JArr [])]]"
  by (rule ext) (simp add: context_rows_def row_member_def)

text \<open>An operator name the filters do not know is passed over, so that the row matches.\<close>

theorem unknown_operator_matches:
  "field_of row f = Some v \<Longrightarrow> matches_filter h row (JObj [(f, JObj [(''$like'', x)])]) = Inr True"
  by (simp add: entry_matches_def apply_operators_def operand_test_def regex_test_def operator_names_test_def is_operator_def Let_def)

section \<open>Properties\<close>

text \<open>
  A query only reads: whatever the configuration, the filter and the built-in provider, and however the query ends,
  the session's context is as it was, and the query ends.
\<close>

theorem query_keeps_the_context:
  assumes "data_run (built_ins h read_file (mock_transport h)) c q (Some (make_row_matcher h f)) s = (r, t)"
  shows "ts_ctx t = ts_ctx s \<and> r \<noteq> Deep"
  using relatesD [OF built_in.run_reads [OF quiet_row_matcher] assms] by (simp add: same_ctx_def)

theorem query_keeps_the_context_witness:
  "\<exists>r t. data_run (built_ins (sample_host []) (\<lambda>p. []) (mock_transport (sample_host [])))
       \<lparr>dc_name = ''rows'', dc_scope = ''internal'', dc_provider = ''mock'',
        dc_config = JObj [(''rows'', JArr [JObj [(''n'', JInt 1)]])], dc_origin = []\<rparr>
       \<lparr>dq_filter = JNull, dq_limit = None, dq_offset = None, dq_statement = [], dq_parameters = JNull\<rparr>
       (Some (make_row_matcher (sample_host []) (JObj [(''n'', JInt 2)])))
       \<lparr>ts_ctx = empty_ctx, ts_draws = 0, ts_world = \<lparr>mk_routes = [], mk_calls = []\<rparr>\<rparr> = (r, t) \<and> ts_ctx t = empty_ctx \<and> r \<noteq> Deep"
proof -
  obtain r t where run: "data_run (built_ins (sample_host []) (\<lambda>p. []) (mock_transport (sample_host [])))
       \<lparr>dc_name = ''rows'', dc_scope = ''internal'', dc_provider = ''mock'',
        dc_config = JObj [(''rows'', JArr [JObj [(''n'', JInt 1)]])], dc_origin = []\<rparr>
       \<lparr>dq_filter = JNull, dq_limit = None, dq_offset = None, dq_statement = [], dq_parameters = JNull\<rparr>
       (Some (make_row_matcher (sample_host []) (JObj [(''n'', JInt 2)])))
       \<lparr>ts_ctx = empty_ctx, ts_draws = 0, ts_world = \<lparr>mk_routes = [], mk_calls = []\<rparr>\<rparr> = (r, t)"
    by (metis prod.collapse)
  from query_keeps_the_context [OF run] run show ?thesis by auto
qed

text \<open>
  C30: A query over given rows answers the page asked for: the rows that match, in their order, from the offset on and at
  most as many as the limit, with the number of all that match, and marked as truncated when rows were dropped.
\<close>

theorem query_pages_the_matching_rows:
  assumes "dc_provider c = ''mock''" and "dc_config c = JObj [(''rows'', JArr rows)]"
    and "\<And>row. row \<in> set rows \<Longrightarrow> matches_filter h row f = Inr (P row)"
    and "dq_offset q = Some (int k)" and "dq_limit q = Some (int l)"
  shows "\<exists>page. data_run (built_ins h read_file transport) c q (Some (make_row_matcher h f)) s = (Val page, s) \<and>
    dp_rows page = JArr (take l (drop k (filter P rows))) \<and> dp_total_matches page = length (filter P rows) \<and>
    (dp_truncated page \<longleftrightarrow> take l (drop k (filter P rows)) \<noteq> filter P rows)"
proof -
  have pure: "sieve (make_row_matcher h f) rows u = (Val (filter P rows), u)" for u
    by (rule sieve_pure) (simp add: make_row_matcher_def assms(3))
  let ?m = "filter P rows" let ?n = "length (filter P rows)"
  have start: "page_start (dq_offset q) ?n = min k ?n" by (simp add: assms(4) page_start_def)
  have kept: "fst (page_rows q ?m) = take l (drop k ?m)"
    by (auto simp: page_rows_def Let_def start assms(5) min_def)
  have cut: "snd (page_rows q ?m) \<longleftrightarrow> take l (drop k ?m) \<noteq> ?m"
    unfolding take_drop_same by (auto simp: page_rows_def Let_def start assms(5) min_def split: if_splits)
  have rows: "mock_rows h read_file (dc_config c) = yields (JArr rows)"
    by (rule ext) (simp add: mock_rows_def assms(2) value_at_def unwrapped_rows_def jcontains_def)
  obtain kept' cut' where p: "page_rows q ?m = (kept', cut')" by (cases "page_rows q ?m")
  have "data_run (built_ins h read_file transport) c q (Some (make_row_matcher h f)) s =
    (Val \<lparr>dp_rows = JArr kept', dp_pre_filtered = True, dp_pre_paged = True, dp_total_matches = ?n, dp_truncated = cut',
       dp_meta = JObj []\<rparr>, s)"
    by (simp add: data_run_def find_provider_def built_ins_list assms(1) mock_query_def rows filtered_page_def
        matching_rows_def andthen_def pure new_page_def p)
  with kept cut p show ?thesis by simp
qed

text \<open>
  The operators of a filter that are opposites are opposites on every row that has the field: a value is unequal
  exactly when it is not equal, outside a list exactly when it is not in it, and, unless a side is no number as a double,
  at least the bound exactly when it is not below it.
\<close>

theorem filter_operators_are_complementary:
  assumes "field_of row f = Some v"
  shows "(matches_filter h row (JObj [(f, JObj [(''$ne'', x)])]) = Inr True) =
           (matches_filter h row (JObj [(f, JObj [(''$eq'', x)])]) = Inr False) \<and>
         (matches_filter h row (JObj [(f, JObj [(''$nin'', JArr xs)])]) = Inr True) =
           (matches_filter h row (JObj [(f, JObj [(''$in'', JArr xs)])]) = Inr False) \<and>
         (v \<noteq> JFloat DNan \<and> x \<noteq> JFloat DNan \<longrightarrow>
           (matches_filter h row (JObj [(f, JObj [(''$gte'', x)])]) = Inr True) =
           (matches_filter h row (JObj [(f, JObj [(''$lt'', x)])]) = Inr False))"
proof -
  have opposite: "relational (ho_dump h) (\<ge>) (\<lambda>a b. dbl_le b a) v x \<longleftrightarrow> \<not> relational (ho_dump h) (<) dbl_lt v x"
    if "v \<noteq> JFloat DNan" "x \<noteq> JFloat DNan"
    using that dbl_le_not_lt [of "as_double v" "as_double x"] as_double_number [of v] as_double_number [of x]
    by (auto simp: relational_def)
  show ?thesis
    unfolding single_operator [OF assms] using opposite by (simp add: member_of_def not_member_of_def)
qed

definition sample_row :: json where
  "sample_row = JObj [(''n'', JStr ''b'')]"

theorem filter_operators_are_complementary_witness:
  "matches_filter (sample_host []) sample_row (JObj [(''n'', JObj [(''$gte'', JStr ''a'')])]) = Inr True \<and>
   matches_filter (sample_host []) sample_row (JObj [(''n'', JObj [(''$lt'', JStr ''a'')])]) = Inr False"
proof -
  have "matches_filter (sample_host []) sample_row (JObj [(''n'', JObj [(''$gte'', JStr ''a'')])]) = Inr True" by code_simp
  moreover have "field_of sample_row ''n'' = Some (JStr ''b'')" by (simp add: sample_row_def field_of_def)
  ultimately show ?thesis
    using filter_operators_are_complementary [of sample_row "''n''" "JStr ''b''" "sample_host []" "JStr ''a''" "[]"]
    by (simp del: matches_filter.simps)
qed

theorem query_pages_the_matching_rows_witness:
  "\<exists>page. data_run (built_ins (sample_host []) (\<lambda>p. []) (None :: unit transport option))
       \<lparr>dc_name = ''rows'', dc_scope = ''internal'', dc_provider = ''mock'',
        dc_config = JObj [(''rows'', JArr [JInt 1, JInt 2])], dc_origin = []\<rparr>
       \<lparr>dq_filter = JNull, dq_limit = Some 5, dq_offset = Some 1, dq_statement = [], dq_parameters = JNull\<rparr>
       (Some (make_row_matcher (sample_host []) JNull)) \<lparr>ts_ctx = empty_ctx, ts_draws = 0, ts_world = ()\<rparr> =
     (Val page, \<lparr>ts_ctx = empty_ctx, ts_draws = 0, ts_world = ()\<rparr>) \<and> dp_rows page = JArr [JInt 2] \<and> dp_truncated page"
proof -
  let ?c = "\<lparr>dc_name = ''rows'', dc_scope = ''internal'', dc_provider = ''mock'',
        dc_config = JObj [(''rows'', JArr [JInt 1, JInt 2])], dc_origin = []\<rparr>"
  let ?q = "\<lparr>dq_filter = JNull, dq_limit = Some 5, dq_offset = Some 1, dq_statement = [], dq_parameters = JNull\<rparr>"
  have h: "dc_provider ?c = ''mock''" "dc_config ?c = JObj [(''rows'', JArr [JInt 1, JInt 2])]"
    "dq_offset ?q = Some (int 1)" "dq_limit ?q = Some (int 5)" by simp_all
  have P: "row \<in> set [JInt 1, JInt 2] \<Longrightarrow> matches_filter (sample_host []) row JNull = Inr ((\<lambda>_. True) row)" for row by simp
  from query_pages_the_matching_rows [OF h(1,2) P h(3,4), where read_file = "\<lambda>p. []"
      and transport = "None :: unit transport option" and s = "\<lparr>ts_ctx = empty_ctx, ts_draws = 0, ts_world = ()\<rparr>"]
  show ?thesis by auto
qed

end
