(* ===== verification/Sapo_TaskBase.thy ===== *)
theory Sapo_TaskBase
  imports Sapo_Data Sapo_RunState Sapo_EventBus Sapo_Registry Sapo_Scheduler
begin

text \<open>
  What the tasks share (\<open>src/src/tasks/Task.cpp\<close>, \<open>.hpp\<close>, \<open>runtime/TaskServices.hpp\<close>): the services, the scope of an
  activation, the evaluation helpers of \<open>ExecutionContext\<close>, the resolution of templates in documents and the
  extraction of fields from a response.  A task is a computation over the state of its activation; the logger and the
  metrics, which no task reads, are left out.
\<close>

section \<open>Services\<close>

record 'w services =
  sv_host :: sel_host
  sv_bindings :: "lookup option"
  sv_transport :: "'w transport option"
  sv_capabilities :: "'w tstate cap_provider list option"
  sv_sources :: "'w data_provider list"
  sv_publish :: "event \<Rightarrow> (unit, 'w) act"
  sv_add_job :: "(job \<Rightarrow> (string, 'w) act) option"
  sv_run_child :: "child_request \<Rightarrow> (child_result, 'w) act"
  sv_clock :: "'w \<Rightarrow> int"
  sv_delay :: "int \<Rightarrow> 'w \<Rightarrow> 'w"
  sv_inline_wait_limit_ms :: int
  sv_default_timeout_ms :: "int option"

type_synonym 'w task = "'w services \<Rightarrow> exec \<Rightarrow> (signal, 'w tstate) act"

section \<open>The scope of an activation\<close>

definition as_locals :: "json \<Rightarrow> json" where
  "as_locals j = (if is_object j then j else JObj [])"

definition task_scope :: "'w services \<Rightarrow> exec \<Rightarrow> ctx \<Rightarrow> scope" where
  "task_scope sv x c =
     \<lparr>sc_context = Some c, sc_bindings = sv_bindings sv, sc_locals = as_locals (ex_locals x), sc_strict = True,
      sc_node = nd_id (ex_node x)\<rparr>"

text \<open>A computation of the expression language in the activation's scope, adapted first.\<close>

definition scoped :: "'w services \<Rightarrow> exec \<Rightarrow> (scope \<Rightarrow> scope) \<Rightarrow> (sel_host \<Rightarrow> scope \<Rightarrow> 'a comp) \<Rightarrow> ('a, 'w tstate) act" where
  "scoped sv x g f = (\<lambda>s. sel (f (sv_host sv) (g (task_scope sv x (ts_ctx s)))) s)"

definition set_local :: "string \<Rightarrow> json \<Rightarrow> scope \<Rightarrow> scope" where
  "set_local k v sc = sc\<lparr>sc_locals := jset k v (sc_locals sc)\<rparr>"

definition add_locals :: "obj \<Rightarrow> scope \<Rightarrow> scope" where
  "add_locals ob sc = foldl (\<lambda>sc (k, v). set_local k v sc) sc ob"

definition with_strict :: "bool \<Rightarrow> scope \<Rightarrow> scope" where
  "with_strict strict sc = sc\<lparr>sc_strict := strict\<rparr>"

text \<open>A node's field in a scope: evaluated, as a condition, resolved.\<close>

definition eval_field :: "expression \<Rightarrow> sel_host \<Rightarrow> scope \<Rightarrow> json comp" where
  "eval_field e h sc = with_handle (handle_of h e) (evaluate_expression h sc)"

definition eval_bool_field :: "expression \<Rightarrow> sel_host \<Rightarrow> scope \<Rightarrow> bool comp" where
  "eval_bool_field e h sc = with_handle (handle_of h e) (evaluate_bool_expression h sc)"

definition resolve_field :: "expression \<Rightarrow> sel_host \<Rightarrow> scope \<Rightarrow> json comp" where
  "resolve_field e h sc = with_handle (handle_of h e) (resolve_expression h sc)"

definition t_eval :: "'w services \<Rightarrow> exec \<Rightarrow> expression \<Rightarrow> (json, 'w tstate) act" where
  "t_eval sv x e = scoped sv x id (eval_field e)"

definition t_eval_or :: "'w services \<Rightarrow> exec \<Rightarrow> expression \<Rightarrow> json \<Rightarrow> (json, 'w tstate) act" where
  "t_eval_or sv x e fallback = (if expression_empty e then yields fallback else t_eval sv x e)"

definition t_eval_bool :: "'w services \<Rightarrow> exec \<Rightarrow> expression \<Rightarrow> (bool, 'w tstate) act" where
  "t_eval_bool sv x e = scoped sv x id (eval_bool_field e)"

definition t_eval_bool_or :: "'w services \<Rightarrow> exec \<Rightarrow> expression option \<Rightarrow> bool \<Rightarrow> (bool, 'w tstate) act" where
  "t_eval_bool_or sv x e fallback =
     (case e of None \<Rightarrow> yields fallback | Some e' \<Rightarrow> (if expression_empty e' then yields fallback else t_eval_bool sv x e'))"

definition t_resolve_field :: "'w services \<Rightarrow> exec \<Rightarrow> expression \<Rightarrow> (json, 'w tstate) act" where
  "t_resolve_field sv x e = scoped sv x id (resolve_field e)"

definition t_write :: "string \<Rightarrow> json \<Rightarrow> (unit, 'w tstate) act" where
  "t_write k v = (if k = [] then yields () else change (\<lambda>s. s\<lparr>ts_ctx := set_by_path k v (ts_ctx s)\<rparr>))"

definition t_read :: "string \<Rightarrow> (json, 'w tstate) act" where
  "t_read p = observe (\<lambda>s. case get_by_path p (ts_ctx s) of Some v \<Rightarrow> v | None \<Rightarrow> JNull)"

definition t_has :: "string \<Rightarrow> (bool, 'w tstate) act" where
  "t_has p = observe (\<lambda>s. has_variable p (ts_ctx s))"

definition node_error :: "error_code \<Rightarrow> string \<Rightarrow> exec \<Rightarrow> sapo_error" where
  "node_error code message x = sapo_error code message (JObj []) (nd_id (ex_node x))"

section \<open>Templates in documents\<close>

text \<open>\<open>resolveObjectTemplate\<close>: texts are templates, containers are walked, and an object with the one text member
  \<open>expression\<close> is compiled as a template and evaluated.\<close>

definition single_expression :: "obj \<Rightarrow> string option" where
  "single_expression ob =
     (if length ob = 1 then (case map_of ob ''expression'' of Some (JStr t) \<Rightarrow> Some t | _ \<Rightarrow> None) else None)"

fun resolve_template :: "sel_host \<Rightarrow> scope \<Rightarrow> json \<Rightarrow> json comp" where
  "resolve_template h sc (JStr t) = resolve_text h sc t"
| "resolve_template h sc (JArr xs) = sbind (in_sequence (map (resolve_template h sc) xs)) (\<lambda>vs. ret (JArr vs))"
| "resolve_template h sc (JObj ob) =
     (case single_expression ob of
        Some t \<Rightarrow> with_handle (template_handle t) (evaluate_expression h sc)
      | None \<Rightarrow> sbind (in_sequence (map (\<lambda>p. resolve_template h sc (snd p)) ob)) (\<lambda>vs. ret (jobj (zip (map fst ob) vs))))"
| "resolve_template h sc v = ret v"

definition t_resolve :: "'w services \<Rightarrow> exec \<Rightarrow> json \<Rightarrow> (json, 'w tstate) act" where
  "t_resolve sv x v = scoped sv x (with_strict True) (\<lambda>h sc. resolve_template h sc v)"

definition t_resolve_lenient :: "'w services \<Rightarrow> exec \<Rightarrow> json \<Rightarrow> (json, 'w tstate) act" where
  "t_resolve_lenient sv x v = scoped sv x (with_strict False) (\<lambda>h sc. resolve_template h sc v)"

section \<open>Fields of a response\<close>

definition field_path :: "string \<Rightarrow> string" where
  "field_path reference =
     dropWhile (\<lambda>c. c = CHR ''.'') (case reference of c # r \<Rightarrow> (if c = CHR ''$'' then r else reference) | [] \<Rightarrow> [])"

definition plain_path :: "string \<Rightarrow> bool" where
  "plain_path p \<longleftrightarrow> p \<noteq> [] \<and> \<not> list_ex (\<lambda>c. c \<in> set '' +-*/<>[]()'') p"

text \<open>\<open>std::stoul\<close> of a text without blanks and signs.\<close>

definition index_text :: "string \<Rightarrow> nat option" where
  "index_text p =
     (let ds = takeWhile is_digit p; n = digits_val ds in if ds = [] \<or> 2 ^ 64 \<le> n then None else Some n)"

definition direct_field :: "json \<Rightarrow> string \<Rightarrow> string \<Rightarrow> ctx \<Rightarrow> json option" where
  "direct_field source path reference c =
     (case source of
        JObj ob \<Rightarrow> get_path source path
      | JArr xs \<Rightarrow> (case index_text path of Some i \<Rightarrow> (if i < length xs then Some (xs ! i) else None) | None \<Rightarrow> None)
      | JNull \<Rightarrow> get_by_path reference c
      | _ \<Rightarrow> None)"

definition response_locals :: "json \<Rightarrow> scope \<Rightarrow> scope" where
  "response_locals source sc =
     with_strict False
       (set_local ''body'' (if is_object source then jvalue ''body'' JNull source else JNull)
         (set_local ''response'' source (add_locals (jentries source) sc)))"

definition extract_field :: "'w services \<Rightarrow> exec \<Rightarrow> json \<Rightarrow> string \<Rightarrow> (json, 'w tstate) act" where
  "extract_field sv x source reference =
     (if reference = [] then yields source
      else (\<lambda>s. case (if plain_path (field_path reference)
                      then direct_field source (field_path reference) reference (ts_ctx s) else None) of
                  Some v \<Rightarrow> (Val v, s)
                | None \<Rightarrow>
                    scoped sv x (response_locals source)
                      (\<lambda>h sc. with_handle (template_handle reference) (evaluate_expression h sc)) s))"

section \<open>The task registry\<close>

definition task_add :: "task_type \<Rightarrow> 'a \<Rightarrow> (task_type \<times> 'a) list \<Rightarrow> (task_type \<times> 'a) list" where
  "task_add ty t reg = (if ty \<in> fst ` set reg then map (\<lambda>(k, u). if k = ty then (k, t) else (k, u)) reg else reg @ [(ty, t)])"

definition task_find :: "task_type \<Rightarrow> (task_type \<times> 'a) list \<Rightarrow> 'a option" where
  "task_find ty reg = map_of reg ty"

definition handled_types :: "(task_type \<times> 'a) list \<Rightarrow> string list" where
  "handled_types reg = sort (map (\<lambda>p. task_type_string (fst p)) reg)"

section \<open>Lemmas\<close>

lemma safe_fields [safe_intros]:
  "safe (eval_field e h sc)" "safe (eval_bool_field e h sc)" "safe (resolve_field e h sc)"
  unfolding eval_field_def eval_bool_field_def resolve_field_def by (auto intro!: safe_intros)

lemma safe_resolve_template [safe_intros]: "safe (resolve_template h sc v)"
proof (induction h sc v rule: resolve_template.induct)
  case (3 h sc ob)
  then show ?case by (cases "single_expression ob") (auto intro!: safe_intros)
qed (auto intro!: safe_intros)

lemma relates_scoped [keeps_intros]: "(\<And>h sc. safe (f h sc)) \<Longrightarrow> relates same_ctx (scoped sv x g f)"
  by (rule relatesI) (auto simp: scoped_def dest: relatesD [OF relates_sel])

lemma relates_evaluation [keeps_intros]:
  "relates same_ctx (t_eval sv x e)" "relates same_ctx (t_eval_or sv x e d)" "relates same_ctx (t_eval_bool sv x e)"
  "relates same_ctx (t_eval_bool_or sv x oe b)" "relates same_ctx (t_resolve_field sv x e)"
  "relates same_ctx (t_resolve sv x v)" "relates same_ctx (t_resolve_lenient sv x v)" "relates same_ctx (t_read p)"
  "relates same_ctx (t_has p)"
  unfolding t_eval_def t_eval_or_def t_eval_bool_def t_eval_bool_or_def t_resolve_field_def t_resolve_def
    t_resolve_lenient_def t_read_def t_has_def
  by (auto intro!: keeps_intros safe_intros split: option.splits)

lemma relates_extract_field [keeps_intros]: "relates same_ctx (extract_field sv x source reference)"
proof -
  have "relates same_ctx (scoped sv x (response_locals source)
      (\<lambda>h sc. with_handle (template_handle reference) (evaluate_expression h sc)))"
    by (auto intro!: keeps_intros safe_intros)
  then show ?thesis
    unfolding extract_field_def relates_def
    by (auto simp: same_ctx_def split: option.splits if_splits)
qed

text \<open>A template without a slot evaluates to its own text, also where the code's comments promise an expression.\<close>

theorem bare_expression_is_not_evaluated:
  "fst (resolve_template h sc (JObj [(''expression'', JStr ''amount >= 100'')]) s) = Val (JStr ''amount >= 100'')"
proof -
  have "compile_template ''amount >= 100'' =
      Inr \<lparr>tp_source = ''amount >= 100'', tp_segments = [Plain ''amount >= 100'']\<rparr>"
    using compile_escaped [of "''amount >= 100''"] by simp
  then show ?thesis
    by (simp add: single_expression_def template_handle_def with_handle_def evaluate_expression_def tagged_def evaluate_handle_def in_new_state_def
        render_def sbind_def ret_def)
qed

section \<open>A small activation, for the examples\<close>

definition sample_services :: "'w transport option \<Rightarrow> 'w services" where
  "sample_services transport =
     \<lparr>sv_host = sample_host [], sv_bindings = None, sv_transport = transport, sv_capabilities = None, sv_sources = [],
      sv_publish = (\<lambda>e. yields ()), sv_add_job = None,
      sv_run_child = (\<lambda>r. crashes), sv_clock = (\<lambda>w. 0), sv_delay = (\<lambda>ms w. w), sv_inline_wait_limit_ms = 0,
      sv_default_timeout_ms = None\<rparr>"

definition sample_node :: "node_body \<Rightarrow> node" where
  "sample_node b =
     \<lparr>nd_id = ''n'', nd_next = None, nd_on_error = None, nd_retry = None, nd_label = None, nd_enabled = True, nd_body = b\<rparr>"

definition sample_exec :: "node_body \<Rightarrow> exec" where
  "sample_exec b = make_execution new_run_state (sample_node b)"

definition sample_state :: "'w \<Rightarrow> 'w tstate" where
  "sample_state w = \<lparr>ts_ctx = empty_ctx, ts_draws = 0, ts_world = w\<rparr>"

text \<open>A text without a slot resolves to itself.\<close>

lemma escape_plain: "CHR ''$'' \<notin> set t \<Longrightarrow> escape_dollars t = t"
  by (induction t) auto

lemma resolve_plain:
  assumes "CHR ''$'' \<notin> set t"
  shows "resolve_text h sc t = ret (JStr t)"
proof (cases "t = []")
  case False
  have "template_handle t = Inr \<lparr>xp_source = t, xp_program = None,
      xp_template = Some \<lparr>tp_source = t, tp_segments = [Plain t]\<rparr>\<rparr>"
    using compile_escaped [of t] False by (simp add: escape_plain [OF assms] template_handle_def)
  with False show ?thesis
    by (auto simp: fun_eq_iff resolve_text_def resolve_handle_def is_plain_template_def in_new_state_def render_def sbind_def ret_def
        with_handle_def tagged_def)
qed (simp add: resolve_text_def)

lemma scoped_ret [simp]: "scoped sv x g (\<lambda>h sc. ret v) = yields v"
  by (simp add: fun_eq_iff scoped_def sel_def ret_def yields_def fresh_state_def)

end
