(* ===== verification/Sapo_CoreTasks.thy ===== *)
theory Sapo_CoreTasks
  imports Sapo_TaskBase Sapo_Iso
begin

text \<open>
  The leaf tasks (\<open>src/src/tasks/CoreTasks.cpp\<close>): noop, transform, script, event, terminate, break and continue, wait,
  schedule and query, each the whole \<open>execute\<close> of its class.  The operations of \<open>transform\<close> are one definition each,
  composed by \<open>transform_apply\<close> in the order the source tests them.
\<close>

section \<open>Noop\<close>

definition noop_task :: "noop_node \<Rightarrow> 'w task" where
  "noop_task n sv x =
     (case no_assign n of
        JObj ob \<Rightarrow> andthen (each (\<lambda>(k, v). andthen (t_resolve sv x v) (t_write k)) ob) (\<lambda>_. yields Continue)
      | JNull \<Rightarrow> yields Continue
      | _ \<Rightarrow> raises (node_error Validation (''a noop'' @ [CHR 0x27] @ ''s '' @ quoted ''assign'' @ '' must be an object'') x))"

section \<open>Transform\<close>

text \<open>The locals of a row: the extra ones, the row's own members, and the fixed names over them.\<close>

definition row_scope :: "json \<Rightarrow> int \<Rightarrow> obj \<Rightarrow> scope \<Rightarrow> scope" where
  "row_scope row i extra sc =
     set_local ''$index'' (JInt i) (set_local ''index'' (JInt i) (set_local ''$item'' row (set_local ''item'' row
       (add_locals (jentries row) (add_locals extra sc)))))"

definition named_locals :: "transform_node \<Rightarrow> json \<Rightarrow> int \<Rightarrow> obj \<Rightarrow> obj" where
  "named_locals n row i extra =
     (let item = (if tf_item_variable n = [] then ''item'' else tf_item_variable n);
          index = (if tf_index_variable n = [] then ''index'' else tf_index_variable n)
      in obj_set (CHR ''$'' # index) (JInt i) (obj_set index (JInt i) (obj_set (CHR ''$'' # item) row (obj_set item row extra))))"

definition scope_for :: "transform_node \<Rightarrow> json \<times> nat \<Rightarrow> obj \<Rightarrow> scope \<Rightarrow> scope" where
  "scope_for n ri extra = row_scope (fst ri) (int (snd ri)) (named_locals n (fst ri) (int (snd ri)) extra)"

text \<open>The rows of the input; a non-empty object of objects is the list of its values with their keys.\<close>

definition as_rows :: "exec \<Rightarrow> json \<Rightarrow> (json list, 's) act" where
  "as_rows x v =
     (case v of
        JArr xs \<Rightarrow> yields xs
      | JObj ob \<Rightarrow>
          (if ob \<noteq> [] \<and> list_all (\<lambda>p. is_object (snd p)) ob then yields (map (\<lambda>(k, r). jset ''key'' (JStr k) r) ob) else yields [v])
      | JNull \<Rightarrow> raises (node_error Validation ''transform input resolved to null; there is nothing to iterate'' x)
      | _ \<Rightarrow> yields [v])"

definition numbered :: "json list \<Rightarrow> (json \<times> nat) list" where
  "numbered rows = zip rows [0..<length rows]"

definition has_entries :: "json \<Rightarrow> bool" where
  "has_entries v \<longleftrightarrow> jentries v \<noteq> []"

definition apply_assign :: "'w services \<Rightarrow> exec \<Rightarrow> transform_node \<Rightarrow> json \<Rightarrow> (json, 'w tstate) act" where
  "apply_assign sv x n input =
     (if input = JNull \<and> has_entries (tf_mapping n) then t_resolve sv x (tf_mapping n) else yields input)"

definition apply_set :: "'w services \<Rightarrow> exec \<Rightarrow> transform_node \<Rightarrow> json \<Rightarrow> (json, 'w tstate) act" where
  "apply_set sv x n input =
     andthen (apply_assign sv x n input) (\<lambda>v.
     andthen (t_read (tf_output n)) (\<lambda>old.
       case v of
         JObj ob \<Rightarrow> yields (foldl (\<lambda>j (k, w). jset k w j) (if is_object old then old else JObj []) ob)
       | JNull \<Rightarrow> t_resolve sv x (tf_mapping n)
       | _ \<Rightarrow> raises (node_error Validation
                (''transform '' @ quoted ''set'' @ '' merges objects; the resolved input is '' @ json_kind v) x)))"

definition predicate_holds :: "'w services \<Rightarrow> exec \<Rightarrow> transform_node \<Rightarrow> json \<times> nat \<Rightarrow> (bool, 'w tstate) act" where
  "predicate_holds sv x n ri =
     (if expression_empty (tf_predicate n) then yields True
      else scoped sv x (scope_for n ri []) (eval_bool_field (tf_predicate n)))"

definition apply_filter :: "'w services \<Rightarrow> exec \<Rightarrow> transform_node \<Rightarrow> json list \<Rightarrow> (json, 'w tstate) act" where
  "apply_filter sv x n rows =
     andthen (sieve (predicate_holds sv x n) (numbered rows)) (\<lambda>kept. yields (JArr (map fst kept)))"

definition project_row :: "'w services \<Rightarrow> exec \<Rightarrow> transform_node \<Rightarrow> json \<times> nat \<Rightarrow> (json, 'w tstate) act" where
  "project_row sv x n ri =
     (if has_entries (tf_mapping n) then
        andthen (in_turn (map (\<lambda>p. scoped sv x (scope_for n ri [])
                                     (\<lambda>h sc. resolve_text h sc (as_text (ho_dump h) (snd p)))) (jentries (tf_mapping n))))
          (\<lambda>vs. yields (jobj (zip (map fst (jentries (tf_mapping n))) vs)))
      else if \<not> expression_empty (tf_predicate n) then scoped sv x (scope_for n ri []) (eval_field (tf_predicate n))
      else yields (fst ri))"

definition apply_map :: "'w services \<Rightarrow> exec \<Rightarrow> transform_node \<Rightarrow> json list \<Rightarrow> (json, 'w tstate) act" where
  "apply_map sv x n rows =
     andthen (in_turn (map (project_row sv x n) (numbered rows))) (\<lambda>out.
       yields (if tf_operation n = ''project'' \<and> \<not> tf_output_as_array n \<and> length out = 1 then hd out else JArr out))"

definition merge_rows :: "exec \<Rightarrow> json \<Rightarrow> json \<Rightarrow> (json, 's) act" where
  "merge_rows x acc row =
     (case row of
        JObj ob \<Rightarrow> yields (foldl (\<lambda>j (k, v). jset k v j) acc ob)
      | _ \<Rightarrow> raises (node_error Validation
               (''transform '' @ quoted ''merge'' @ '' needs object rows; got '' @ json_kind row) x))"

definition apply_merge :: "exec \<Rightarrow> transform_node \<Rightarrow> json list \<Rightarrow> (json, 's) act" where
  "apply_merge x n rows =
     (if tf_output_as_array n then yields (JArr (concat (map (\<lambda>r. case r of JArr xs \<Rightarrow> xs | _ \<Rightarrow> [r]) rows)))
      else accumulate (merge_rows x) (JObj []) rows)"

definition add_to_group :: "string \<Rightarrow> json \<Rightarrow> (string \<times> json list) list \<Rightarrow> (string \<times> json list) list" where
  "add_to_group k row gs = obj_set k ((case map_of gs k of Some rs \<Rightarrow> rs | None \<Rightarrow> []) @ [row]) gs"

definition apply_group :: "'w services \<Rightarrow> exec \<Rightarrow> transform_node \<Rightarrow> json list \<Rightarrow> (json, 'w tstate) act" where
  "apply_group sv x n rows =
     (case jentries (tf_mapping n) of
        [] \<Rightarrow> raises (node_error Validation
                (''transform '' @ quoted ''group'' @ '' needs a mapping with the grouping key expression'') x)
      | e # _ \<Rightarrow>
          andthen (accumulate (\<lambda>gs ri.
                     andthen (scoped sv x (scope_for n ri []) (\<lambda>h sc. resolve_text h sc (as_text (ho_dump h) (snd e)))) (\<lambda>key.
                       yields (add_to_group (as_text (ho_dump (sv_host sv)) key) (fst ri) gs)))
                   [] (numbered rows))
            (\<lambda>gs. yields (JObj (map (\<lambda>(k, rs). (k, JArr rs)) gs))))"

definition sort_field :: "transform_node \<Rightarrow> string" where
  "sort_field n =
     (case jget ''by'' (tf_mapping n) of
        Some (JStr f) \<Rightarrow> f
      | _ \<Rightarrow> [])"

definition sort_key_field :: "transform_node \<Rightarrow> string" where
  "sort_key_field n =
     (if sort_field n = [] \<and> expression_empty (tf_predicate n) then (case tf_mapping n of JStr f \<Rightarrow> f | _ \<Rightarrow> [])
      else sort_field n)"

definition sort_descending :: "transform_node \<Rightarrow> bool" where
  "sort_descending n = (case jget ''order'' (tf_mapping n) of Some (JStr t) \<Rightarrow> t \<in> set [''desc'', ''descending''] | _ \<Rightarrow> False)"

definition row_less :: "(json \<Rightarrow> string) \<Rightarrow> json \<Rightarrow> json \<Rightarrow> bool" where
  "row_less dump a b =
     (if is_number a \<and> is_number b then dbl_lt (as_double a) (as_double b)
      else case (a, b) of (JStr s, JStr t) \<Rightarrow> s < t | _ \<Rightarrow> dump a < dump b)"

definition row_key :: "'w services \<Rightarrow> exec \<Rightarrow> transform_node \<Rightarrow> json \<times> nat \<Rightarrow> (json, 'w tstate) act" where
  "row_key sv x n ri =
     (if sort_key_field n \<noteq> [] then yields (case get_path (fst ri) (sort_key_field n) of Some v \<Rightarrow> v | None \<Rightarrow> JNull)
      else if \<not> expression_empty (tf_predicate n) then scoped sv x (scope_for n ri []) (eval_field (tf_predicate n))
      else yields (fst ri))"

definition keyed_less :: "(json \<Rightarrow> string) \<Rightarrow> bool \<Rightarrow> json \<times> json \<Rightarrow> json \<times> json \<Rightarrow> bool" where
  "keyed_less dump descending l r =
     (if row_less dump (fst l) (fst r) then \<not> descending else if row_less dump (fst r) (fst l) then descending else False)"

definition apply_sort :: "'w services \<Rightarrow> exec \<Rightarrow> transform_node \<Rightarrow> json list \<Rightarrow> (json, 'w tstate) act" where
  "apply_sort sv x n rows =
     andthen (in_turn (map (row_key sv x n) (numbered rows))) (\<lambda>keys.
       yields (JArr (map snd (stable_sort (keyed_less (ho_dump (sv_host sv)) (sort_descending n)) (zip keys rows)))))"

fun flat_values :: "json \<Rightarrow> json list" where
  "flat_values (JArr xs) = concat (map flat_values xs)"
| "flat_values v = [v]"

definition reduce_step :: "'w services \<Rightarrow> exec \<Rightarrow> transform_node \<Rightarrow> json \<Rightarrow> json \<times> nat \<Rightarrow> (json, 'w tstate) act" where
  "reduce_step sv x n acc ri =
     (if expression_empty (tf_predicate n) then
        yields (if is_number (fst ri) \<and> is_number acc then JFloat (dbl_add (as_double acc) (as_double (fst ri))) else acc)
      else scoped sv x (scope_for n ri (obj_set ''accumulator'' acc [(''acc'', acc)])) (eval_field (tf_predicate n)))"

definition apply_reduce :: "'w services \<Rightarrow> exec \<Rightarrow> transform_node \<Rightarrow> json list \<Rightarrow> (json, 'w tstate) act" where
  "apply_reduce sv x n rows =
     accumulate (reduce_step sv x n) (case jget ''initial'' (tf_mapping n) of Some v \<Rightarrow> v | None \<Rightarrow> JInt 0) (numbered rows)"

definition apply_rows :: "'w services \<Rightarrow> exec \<Rightarrow> transform_node \<Rightarrow> json list \<Rightarrow> (json, 'w tstate) act" where
  "apply_rows sv x n rows =
     (let op = tf_operation n
      in if op = ''filter'' then apply_filter sv x n rows
         else if op = ''map'' \<or> op = ''project'' then apply_map sv x n rows
         else if op = ''merge'' then apply_merge x n rows
         else if op = ''group'' then apply_group sv x n rows
         else if op = ''sort'' then apply_sort sv x n rows
         else if op = ''flatten'' then yields (JArr (concat (map flat_values rows)))
         else if op = ''reduce'' then apply_reduce sv x n rows
         else raises (node_error Validation (''transform operation '' @ quoted op @ '' is not implemented'') x))"

definition transform_apply :: "'w services \<Rightarrow> exec \<Rightarrow> transform_node \<Rightarrow> json \<Rightarrow> (json, 'w tstate) act" where
  "transform_apply sv x n input =
     (if tf_operation n = ''assign'' \<or> tf_operation n = ''copy'' then apply_assign sv x n input
      else if tf_operation n = ''set'' then apply_set sv x n input
      else andthen (as_rows x input) (apply_rows sv x n))"

definition transform_task :: "transform_node \<Rightarrow> 'w task" where
  "transform_task n sv x =
     andthen (t_eval_or sv x (tf_input n) JNull) (\<lambda>input.
     andthen (transform_apply sv x n input) (\<lambda>v.
     andthen (t_write (tf_output n) v) (\<lambda>_. yields Continue)))"

section \<open>Script, event, terminate\<close>

text \<open>The bindings of a script: each sees the ones before it.\<close>

fun bind_locals :: "(string \<times> string) list \<Rightarrow> sel_host \<Rightarrow> scope \<Rightarrow> scope comp" where
  "bind_locals [] h sc = ret sc"
| "bind_locals ((k, t) # bs) h sc = sbind (evaluate_text h sc t) (\<lambda>v. bind_locals bs h (set_local k v sc))"

definition script_value :: "script_node \<Rightarrow> sel_host \<Rightarrow> scope \<Rightarrow> json comp" where
  "script_value n h sc = sbind (bind_locals (sn_bindings n) h sc) (eval_field (sn_code n) h)"

definition script_task :: "script_node \<Rightarrow> 'w task" where
  "script_task n sv x =
     andthen (scoped sv x id (script_value n)) (\<lambda>v.
     andthen (case sn_output n of Some k \<Rightarrow> t_write k v | None \<Rightarrow> yields ()) (\<lambda>_.
       yields (case jget ''__sapo_jump_to'' v of Some (JStr t) \<Rightarrow> JumpTo t | _ \<Rightarrow> Continue)))"

definition emitted_event :: "event_node \<Rightarrow> exec \<Rightarrow> json \<Rightarrow> int \<Rightarrow> event" where
  "emitted_event n x payload now =
     \<lparr>evt_name = ev_name n, evt_payload = payload, evt_session_id = ex_session_id x, evt_execution_id = ex_execution_id x,
      evt_correlation_id = [], evt_source_node = nd_id (ex_node x), evt_timestamp_ms = now\<rparr>"

definition event_task :: "event_node \<Rightarrow> 'w task" where
  "event_task n sv x =
     andthen (t_resolve sv x (ev_payload n)) (\<lambda>payload.
     andthen (observe (\<lambda>s. sv_clock sv (ts_world s))) (\<lambda>now.
     andthen (if ev_publish_now n then outside (sv_publish sv (emitted_event n x payload now)) else yields ()) (\<lambda>_.
       yields Continue)))"

definition terminate_task :: "terminate_node \<Rightarrow> 'w task" where
  "terminate_task n sv x =
     andthen (case te_message n of
                None \<Rightarrow> yields None
              | Some e \<Rightarrow> andthen (t_resolve_field sv x e) (\<lambda>v. yields (Some (as_text (ho_dump (sv_host sv)) v)))) (\<lambda>message.
     andthen (if is_object (te_output n) then t_resolve sv x (te_output n) else yields (te_output n)) (\<lambda>payload.
       yields (Terminate \<lparr>tm_status = te_status n, tm_payload = payload, tm_error_code = te_error_code n, tm_message = message\<rparr>)))"

definition loop_control_task :: "loop_control_node \<Rightarrow> 'w task" where
  "loop_control_task n sv x =
     andthen (t_eval_bool_or sv x (lc_when n) True) (\<lambda>b.
       yields (if \<not> b then Continue else if lc_action n = ''break'' then LoopBreak (lc_loop n) else LoopContinue (lc_loop n)))"

section \<open>Wait\<close>

text \<open>The deadline of a duration: a span, a relative delay or an instant; a number that does not fit throws.\<close>

definition deadline_for :: "exec \<Rightarrow> wait_node \<Rightarrow> int \<Rightarrow> (int option, 's) act" where
  "deadline_for x n now =
     (case wt_duration n of
        None \<Rightarrow> yields None
      | Some t \<Rightarrow>
          (case parse_duration t of
             Throws \<Rightarrow> crashes
           | Returns (Some d) \<Rightarrow> yields (Some (now + d))
           | Returns None \<Rightarrow>
               (case parse_relative_delay t of
                  Throws \<Rightarrow> crashes
                | Returns (Some d) \<Rightarrow> yields (Some (now + d))
                | Returns None \<Rightarrow>
                    (case parse_iso8601 t of
                       Some i \<Rightarrow> yields (Some i)
                     | None \<Rightarrow> raises (node_error Validation (''unparseable wait duration '' @ quoted t) x)))))"

definition timer_request :: "exec \<Rightarrow> suspend_request" where
  "timer_request x =
     default_suspend\<lparr>sr_session := ex_session_id x, sr_node := nd_id (ex_node x), sr_reason := ''timer''\<rparr>"

definition expression_source :: "(json \<Rightarrow> string) \<Rightarrow> expression \<Rightarrow> string" where
  "expression_source dump e =
     (case e of NoExpression \<Rightarrow> [] | Template_of s \<Rightarrow> s | Program_of s \<Rightarrow> s | Literal_of v \<Rightarrow> dump v)"

definition poll_wait :: "wait_node \<Rightarrow> int \<Rightarrow> 'w task" where
  "poll_wait n now sv x =
     andthen (t_eval_bool sv x (wt_until n)) (\<lambda>satisfied.
       yields (if satisfied then Continue
               else Suspend ((timer_request x)\<lparr>sr_resume_node := nd_id (ex_node x),
                      sr_resume_at := Some (now + (case wt_poll_interval_ms n of Some p \<Rightarrow> p | None \<Rightarrow> 1000)),
                      sr_data := jobj [(''await_condition'', JStr (expression_source (ho_dump (sv_host sv)) (wt_until n)))]\<rparr>)))"

definition timed_wait :: "wait_node \<Rightarrow> int \<Rightarrow> 'w task" where
  "timed_wait n now sv x =
     andthen (deadline_for x n now) (\<lambda>deadline.
       (let at_ms = (case deadline of Some d \<Rightarrow> d | None \<Rightarrow> now);
            suspend = Suspend ((timer_request x)\<lparr>sr_resume_at := Some at_ms,
                        sr_data := jobj [(''duration'', JStr (case wt_duration n of Some t \<Rightarrow> t | None \<Rightarrow> []))]\<rparr>)
        in if \<not> wt_durable n \<and> 0 < at_ms - now \<and> at_ms - now \<le> sv_inline_wait_limit_ms sv
           then andthen (change (\<lambda>s. s\<lparr>ts_world := sv_delay sv (at_ms - now) (ts_world s)\<rparr>)) (\<lambda>_. yields Continue)
           else yields suspend))"

definition wait_task :: "wait_node \<Rightarrow> 'w task" where
  "wait_task n sv x =
     andthen (observe (\<lambda>s. sv_clock sv (ts_world s))) (\<lambda>now.
       if wt_duration n = None \<and> \<not> expression_empty (wt_until n) then poll_wait n now sv x else timed_wait n now sv x)"

section \<open>Schedule\<close>

definition or_else :: "'a option \<Rightarrow> 'a \<Rightarrow> 'a" where
  "or_else o' d = (case o' of Some v \<Rightarrow> v | None \<Rightarrow> d)"

definition scheduled_job :: "schedule_node \<Rightarrow> exec \<Rightarrow> json \<Rightarrow> job" where
  "scheduled_job n x input =
     \<lparr>jb_id = or_else (sd_job_id n) (''schedule.'' @ nd_id (ex_node x)), jb_schedule = sd_cron n,
      jb_timezone = or_else (sd_timezone n) ''UTC'', jb_workflow = or_else (sd_workflow n) (ex_workflow_id x),
      jb_node_id = nd_id (ex_node x), jb_entry_node = sd_body n, jb_input = input, jb_enabled = sd_enabled n,
      jb_catch_up = False, jb_max_catch_up = 5, jb_next_fire_ms = 0, jb_last_fire_ms = 0, jb_fire_count = 0\<rparr>"

definition schedule_task :: "schedule_node \<Rightarrow> 'w task" where
  "schedule_task n sv x =
     (case sv_add_job sv of
        None \<Rightarrow> raises (node_error Internal ''no scheduler is installed'' x)
      | Some add \<Rightarrow>
          andthen (t_resolve sv x (sd_input n)) (\<lambda>input.
          andthen (outside (add (scheduled_job n x input))) (\<lambda>_. yields Continue)))"

section \<open>Query\<close>

text \<open>The declaration of the source, or the context collection of its name; the lookup throws when the declarations are
  no object.\<close>

definition source_config :: "query_node \<Rightarrow> exec \<Rightarrow> data_config option" where
  "source_config n x =
     (let origin = (if ex_workflow_id x = [] then ''blueprint'' else ''workflow '' @ quoted (ex_workflow_id x))
      in if \<not> is_object (ex_data_sources x) then None
         else case jget (qn_source n) (ex_data_sources x) of
           Some (JObj b) \<Rightarrow>
             (case (text_at ''name'' (qn_source n) (JObj b), text_at ''provider'' [] (JObj b),
                    text_at ''scope'' ''internal'' (JObj b)) of
                (Some nm, Some p, Some sc) \<Rightarrow>
                  Some \<lparr>dc_name = nm, dc_scope = sc, dc_provider = p, dc_config = jvalue ''config'' (JObj []) (JObj b), dc_origin = origin\<rparr>
              | _ \<Rightarrow> None)
         | _ \<Rightarrow>
             Some \<lparr>dc_name = qn_source n, dc_scope = ''internal'', dc_provider = ''context'',
                    dc_config = jobj [(''source'', JStr (CHR ''$'' # qn_source n))], dc_origin = origin\<rparr>)"

definition row_predicate :: "'w services \<Rightarrow> exec \<Rightarrow> handle \<Rightarrow> 'w matcher" where
  "row_predicate sv x p row =
     scoped sv x (\<lambda>sc. set_local ''item'' row (add_locals (jentries row) sc)) (\<lambda>h sc. evaluate_bool_expression h sc p)"

text \<open>The matcher of the filter: a program over the row, or an object matcher.\<close>

definition query_matcher :: "'w services \<Rightarrow> exec \<Rightarrow> query_node \<Rightarrow> ('w matcher option, 's) act" where
  "query_matcher sv x n =
     (case qn_filter n of
        JNull \<Rightarrow> yields None
      | JStr t \<Rightarrow> (case program_handle t of Inl e \<Rightarrow> raises e | Inr p \<Rightarrow> yields (Some (row_predicate sv x p)))
      | f \<Rightarrow> yields (Some (make_row_matcher (sv_host sv) f)))"

definition write_rows :: "query_node \<Rightarrow> data_page \<Rightarrow> (unit, 'w tstate) act" where
  "write_rows n page =
     andthen (if is_array (dp_rows page) \<and> dp_total_matches page \<noteq> jsize (dp_rows page)
              then t_write (qn_output n @ ''_total'') (JInt (int (dp_total_matches page))) else yields ()) (\<lambda>_.
     andthen (if dp_truncated page then t_write (qn_output n @ ''_truncated'') (JBool True) else yields ()) (\<lambda>_.
       t_write (qn_output n) (dp_rows page)))"

definition query_task :: "query_node \<Rightarrow> 'w task" where
  "query_task n sv x =
     andthen (demand (source_config n x)) (\<lambda>c.
     andthen (t_resolve sv x (qn_parameters n)) (\<lambda>parameters.
     andthen (query_matcher sv x n) (\<lambda>m.
     andthen (data_run (sv_sources sv) c
                \<lparr>dq_filter = (if is_string (qn_filter n) then JNull else qn_filter n), dq_limit = qn_limit n,
                 dq_offset = qn_offset n, dq_statement = qn_statement n, dq_parameters = parameters\<rparr> m) (\<lambda>page.
     andthen (write_rows n page) (\<lambda>_. yields Continue)))))"

section \<open>What the tasks write\<close>

lemma relates_rows [keeps_intros]:
  "relates same_ctx (as_rows x v)" "relates same_ctx (merge_rows x acc row)" "relates same_ctx (apply_merge x n rows)"
  unfolding as_rows_def merge_rows_def apply_merge_def by (auto intro!: keeps_intros split: json.splits)

lemma relates_apply [keeps_intros]:
  "relates same_ctx (apply_assign sv x n v)" "relates same_ctx (apply_set sv x n v)"
  "relates same_ctx (predicate_holds sv x n ri)" "relates same_ctx (apply_filter sv x n rows)"
  "relates same_ctx (project_row sv x n ri)" "relates same_ctx (apply_map sv x n rows)"
  unfolding apply_assign_def apply_set_def predicate_holds_def apply_filter_def project_row_def apply_map_def
  by (auto intro!: keeps_intros safe_intros split: json.splits)

lemma relates_apply2 [keeps_intros]:
  "relates same_ctx (apply_group sv x n rows)" "relates same_ctx (row_key sv x n ri)" "relates same_ctx (apply_sort sv x n rows)"
  "relates same_ctx (reduce_step sv x n acc ri)" "relates same_ctx (apply_reduce sv x n rows)"
  unfolding apply_group_def row_key_def apply_sort_def reduce_step_def apply_reduce_def
  by (auto intro!: keeps_intros safe_intros split: list.splits)

lemma relates_transform_apply [keeps_intros]: "relates same_ctx (transform_apply sv x n v)"
  unfolding transform_apply_def apply_rows_def Let_def by (auto intro!: keeps_intros)

lemma safe_bind_locals [safe_intros]: "safe (bind_locals bs h sc)"
  by (induction bs arbitrary: sc) (auto intro!: safe_intros)

lemma safe_script_value [safe_intros]: "safe (script_value n h sc)"
  unfolding script_value_def by (auto intro!: safe_intros)

lemma yields_eq: "yields y s = (r, t) \<longleftrightarrow> r = Val y \<and> t = s"
  by (auto simp: yields_def)

text \<open>A task that computes a value and writes it to one key.\<close>

definition writes_to :: "string \<Rightarrow> ('a, 'w tstate) act \<Rightarrow> bool" where
  "writes_to k m \<longleftrightarrow> (\<forall>s r t. m s = (r, t) \<longrightarrow> r \<noteq> Deep \<and>
     (ts_ctx t = ts_ctx s \<and> (k = [] \<or> (\<forall>v. r \<noteq> Val v)) \<or>
      (\<exists>v. ts_ctx t = set_by_path k v (ts_ctx s)) \<and> k \<noteq> [] \<and> (\<exists>v. r = Val v)))"

lemma compute_and_write:
  assumes "relates same_ctx m"
  shows "writes_to k (andthen m (\<lambda>v. andthen (t_write k v) (\<lambda>_. yields (f v))))"
  unfolding writes_to_def
proof (intro allI impI)
  fix s r t
  assume run: "andthen m (\<lambda>v. andthen (t_write k v) (\<lambda>_. yields (f v))) s = (r, t)"
  obtain q u where m: "m s = (q, u)" by (cases "m s")
  with relatesD [OF assms] have u: "ts_ctx u = ts_ctx s" "q \<noteq> Deep" by (auto simp: same_ctx_def)
  show "r \<noteq> Deep \<and> (ts_ctx t = ts_ctx s \<and> (k = [] \<or> (\<forall>v. r \<noteq> Val v)) \<or>
      (\<exists>v. ts_ctx t = set_by_path k v (ts_ctx s)) \<and> k \<noteq> [] \<and> (\<exists>v. r = Val v))"
    using run m u by (cases q; cases "k = []") (auto simp: t_write_def)
qed

lemma relates_transform_value:
  "relates same_ctx (andthen (t_eval_or sv x (tf_input n) JNull) (transform_apply sv x n))"
  by (auto intro!: keeps_intros)

lemma andthen_assoc: "andthen (andthen m f) g = andthen m (\<lambda>x. andthen (f x) g)"
  by (auto simp: fun_eq_iff andthen_def split: prod.splits ev.splits)

lemma relates_deadline [keeps_intros]: "relates same_ctx (deadline_for x n now)"
  unfolding deadline_for_def by (auto intro!: keeps_intros split: option.splits outcome.splits)

section \<open>Groups and leaves\<close>

lemma mset_concat_groups:
  "sum_mset (mset (map (\<lambda>p. mset (snd p)) (obj_set k v gs))) + (case map_of gs k of Some rs \<Rightarrow> mset rs | None \<Rightarrow> {#}) =
   sum_mset (mset (map (\<lambda>p. mset (snd p)) gs)) + mset v" if "sorted_keys gs" for gs :: "(string \<times> json list) list"
  using that
proof (induction gs)
  case (Cons p gs)
  obtain k' w where p: "p = (k', w)" by (cases p)
  have gs: "sorted_keys gs" using Cons.prems by (auto simp: sorted_keys_def)
  have "k \<le> k' \<Longrightarrow> map_of gs k = None" using Cons.prems
    by (fastforce simp: p sorted_keys_def map_of_eq_None_iff)
  with Cons.IH [OF gs] show ?case by (auto simp: p ac_simps)
qed simp

definition group_rows :: "(string \<times> json list) list \<Rightarrow> json multiset" where
  "group_rows gs = sum_mset (mset (map (\<lambda>p. mset (snd p)) gs))"

lemma group_rows_add: "sorted_keys gs \<Longrightarrow> group_rows (add_to_group k row gs) = add_mset row (group_rows gs)"
  using mset_concat_groups [of gs k "(case map_of gs k of Some rs \<Rightarrow> rs | None \<Rightarrow> []) @ [row]"]
  by (cases "map_of gs k") (auto simp: group_rows_def add_to_group_def)

lemma sorted_add_to_group: "sorted_keys gs \<Longrightarrow> sorted_keys (add_to_group k row gs)"
  by (simp add: add_to_group_def sorted_keys_obj_set)

lemma accumulate_groups:
  "accumulate (\<lambda>gs ri. andthen (m ri) (\<lambda>key. yields (add_to_group (f key) (fst ri) gs))) gs rows s = (Val gs', t) \<Longrightarrow>
   sorted_keys gs \<Longrightarrow> group_rows gs' = mset (map fst rows) + group_rows gs \<and> sorted_keys gs'"
proof (induction rows arbitrary: gs s)
  case (Cons ri rows)
  from Cons.prems(1) obtain key u where
    "accumulate (\<lambda>gs ri. andthen (m ri) (\<lambda>key. yields (add_to_group (f key) (fst ri) gs))) (add_to_group (f key) (fst ri) gs) rows u
       = (Val gs', t)" by (auto simp: andthen_Val yields_eq simp del: run_simps(1))
  from Cons.IH [OF this sorted_add_to_group [OF Cons.prems(2)]] group_rows_add [OF Cons.prems(2)] show ?case by simp
qed simp

lemma numbered_rows: "map fst (numbered rows) = rows"
  by (simp add: numbered_def)

lemma flat_values_flat: "v \<in> set (flat_values j) \<Longrightarrow> \<not> is_array v"
  by (induction j rule: flat_values.induct) auto

section \<open>Properties\<close>

text \<open>
  A transform writes its output and nothing else: when it succeeds, the context is the old one with one value written
  under the output path, and when anything fails, the context is as it was.
\<close>

theorem transform_writes_only_its_output:
  "writes_to (tf_output n) (transform_task n sv x)"
proof -
  have "transform_task n sv x = andthen (andthen (t_eval_or sv x (tf_input n) JNull) (transform_apply sv x n))
      (\<lambda>v. andthen (t_write (tf_output n) v) (\<lambda>_. yields Continue))"
    by (simp add: transform_task_def andthen_assoc)
  then show ?thesis using compute_and_write [OF relates_transform_value] by simp
qed

text \<open>
  Grouping loses no row and invents none: the rows of all groups together are the rows of the input, each as often as
  it was there, whatever the key expression does.
\<close>

theorem group_partitions_the_rows:
  assumes "tf_operation n = ''group''" and "apply_rows sv x n rows s = (Val v, t)"
  shows "\<exists>gs. v = JObj (map (\<lambda>(k, rs). (k, JArr rs)) gs) \<and> group_rows gs = mset rows \<and> sorted_keys gs"
proof -
  have "apply_group sv x n rows s = (Val v, t)" using assms by (simp add: apply_rows_def)
  then obtain e es where "jentries (tf_mapping n) = e # es"
    by (cases "jentries (tf_mapping n)") (auto simp: apply_group_def)
  with \<open>apply_group sv x n rows s = (Val v, t)\<close> obtain gs u where
    "accumulate (\<lambda>gs ri. andthen (scoped sv x (scope_for n ri []) (\<lambda>h sc. resolve_text h sc (as_text (ho_dump h) (snd e))))
        (\<lambda>key. yields (add_to_group (as_text (ho_dump (sv_host sv)) key) (fst ri) gs))) [] (numbered rows) s = (Val gs, u)"
    and v: "v = JObj (map (\<lambda>(k, rs). (k, JArr rs)) gs)"
    by (auto simp: apply_group_def andthen_Val yields_eq simp del: run_simps(1))
  from accumulate_groups [OF this(1)] v show ?thesis
    by (auto simp: numbered_rows group_rows_def sorted_keys_def)
qed

definition sample_group :: transform_node where
  "sample_group =
     \<lparr>tf_operation = ''group'', tf_input = NoExpression, tf_mapping = jobj [(''by'', JStr ''x'')],
      tf_predicate = NoExpression, tf_output = ''out'', tf_item_variable = [], tf_index_variable = [],
      tf_output_as_array = False\<rparr>"

lemma sample_group_rows:
  "apply_rows (sample_services None) (sample_exec (Transform sample_group)) sample_group [JInt 1, JInt 2] s =
     (Val (JObj [(''x'', JArr [JInt 1, JInt 2])]), s)"
  by (simp add: apply_rows_def apply_group_def sample_group_def jobj_def numbered_def as_text_def resolve_plain add_to_group_def)

theorem group_partitions_the_rows_witness:
  "\<exists>gs. JObj [(''x'', JArr [JInt 1, JInt 2])] = JObj (map (\<lambda>(k, rs). (k, JArr rs)) gs) \<and>
     group_rows gs = {#JInt 1, JInt 2#} \<and> sorted_keys gs"
  using group_partitions_the_rows [OF _ sample_group_rows [of "sample_state ()"]] by (simp add: sample_group_def)

end
