(* ===== verification/Sapo_ActionTasks.thy ===== *)
theory Sapo_ActionTasks
  imports Sapo_CoreTasks
begin

text \<open>
  The action and subflow tasks (\<open>src/src/tasks/ActionTasks.cpp\<close>): the dynamic menu (its paging, its rendering and the
  reading of a choice), the action's capability call, event wait, prompt and routing, and the call of a child workflow.
\<close>

section \<open>Options\<close>

text \<open>An option as text: null is empty, other documents are printed.\<close>

definition option_text :: "(json \<Rightarrow> string) \<Rightarrow> json \<Rightarrow> string" where
  "option_text dump v = (case v of JStr s \<Rightarrow> s | JNull \<Rightarrow> [] | _ \<Rightarrow> dump v)"

definition option_property :: "json \<Rightarrow> string \<Rightarrow> json" where
  "option_property item path =
     (case jget path item of
        Some v \<Rightarrow> v
      | None \<Rightarrow> (if is_object item then (case get_path item path of Some v \<Rightarrow> v | None \<Rightarrow> item) else item))"

definition option_fields :: "json \<Rightarrow> string list" where
  "option_fields v =
     (case v of JArr xs \<Rightarrow> List.map_filter text_of xs | JStr s \<Rightarrow> [s] | _ \<Rightarrow> [])"

definition field_char :: "char \<Rightarrow> bool" where
  "field_char c \<longleftrightarrow> is_alnum c \<or> c = CHR ''_'' \<or> c = CHR ''.''"

definition format_field :: "(json \<Rightarrow> string) \<Rightarrow> json \<Rightarrow> string \<Rightarrow> string" where
  "format_field dump item field = option_text dump (if field = ''value'' then item else option_property item field)"

function format_text :: "(json \<Rightarrow> string) \<Rightarrow> json \<Rightarrow> string \<Rightarrow> string" where
  "format_text dump item [] = []"
| "format_text dump item (c # r) =
     (if c = CHR ''$'' \<and> takeWhile field_char r \<noteq> []
      then format_field dump item (takeWhile field_char r) @ format_text dump item (dropWhile field_char r)
      else c # format_text dump item r)"
  by pat_completeness auto

termination format_text
  by (relation "measure (\<lambda>(dump, item, s). length s)") (auto simp: length_dropWhile_le less_Suc_eq_le)

definition format_option :: "(json \<Rightarrow> string) \<Rightarrow> string \<Rightarrow> json \<Rightarrow> string" where
  "format_option dump format item = (if format = [] then option_text dump item else format_text dump item format)"

section \<open>The dynamic menu\<close>

record menu_options =
  mo_page_size :: nat
  mo_page_variable :: string
  mo_next :: string
  mo_previous :: string
  mo_back :: string

definition menu_options_of :: "exec \<Rightarrow> json \<Rightarrow> (menu_options, 's) act" where
  "menu_options_of x options =
     andthen (demand (int_at ''page_size'' 5 options)) (\<lambda>size.
     andthen (demand (text_at ''page_variable'' (nd_id (ex_node x) @ ''.page'') options)) (\<lambda>page_variable.
     andthen (demand (text_at ''next_value'' ''n'' options)) (\<lambda>next_value.
     andthen (demand (text_at ''previous_value'' ''p'' options)) (\<lambda>previous_value.
     andthen (demand (text_at ''back_value'' ''0'' options)) (\<lambda>back_value.
       yields \<lparr>mo_page_size = nat (max 1 size), mo_page_variable = page_variable, mo_next = next_value,
         mo_previous = previous_value, mo_back = back_value\<rparr>)))))"

text \<open>How the value of an option is made: by a format, as a field, or the item itself (its number, for an object).\<close>

record value_rule =
  vr_format :: string
  vr_field :: string

definition value_format_of :: "json \<Rightarrow> (string, 's) act" where
  "value_format_of options =
     andthen (demand (text_at ''value_format'' [] options)) (\<lambda>snake. demand (text_at ''valueFormat'' snake options))"

definition option_value :: "(json \<Rightarrow> string) \<Rightarrow> value_rule \<Rightarrow> json \<Rightarrow> nat \<Rightarrow> json" where
  "option_value dump vr item number =
     (if vr_format vr \<noteq> [] then JStr (format_option dump (vr_format vr) item)
      else if vr_field vr = [] then (if is_object item then JInt (int number) else item)
      else option_property item (vr_field vr))"

definition page_count :: "nat \<Rightarrow> nat \<Rightarrow> nat" where
  "page_count per_page n = max 1 ((n + per_page - 1) div per_page)"

definition page_options :: "menu_options \<Rightarrow> json list \<Rightarrow> nat \<Rightarrow> json list" where
  "page_options mo rows page = take (mo_page_size mo) (drop (page * mo_page_size mo) rows)"

datatype menu = Selected | Rendered json

definition target_variable :: "action_node \<Rightarrow> prompt_config \<Rightarrow> string" where
  "target_variable n pc = or_else (ac_input_variable n) (or_else (pc_output pc) ''input'')"

definition invalid_selection :: "exec \<Rightarrow> string \<Rightarrow> sapo_error" where
  "invalid_selection x input =
     sapo_error Validation (''invalid dynamic menu selection '' @ quoted input) (jobj [(''input'', JStr input)]) (nd_id (ex_node x))"

text \<open>A choice by its number on the page; a number that does not fit an \<open>int\<close> throws.\<close>

definition choose_option ::
    "(json \<Rightarrow> string) \<Rightarrow> exec \<Rightarrow> action_node \<Rightarrow> prompt_config \<Rightarrow> menu_options \<Rightarrow> json list \<Rightarrow> nat \<Rightarrow> string \<Rightarrow> (menu, 'w tstate) act" where
  "choose_option dump x n pc mo rows page input =
     andthen (if list_all is_digit input then demand (map_option fst (sto_int 32 input)) else yields (- 1)) (\<lambda>number.
       if number < 1 \<or> int (length (page_options mo rows page)) < number then raises (invalid_selection x input)
       else andthen (value_format_of (pc_options pc)) (\<lambda>format.
            andthen (demand (text_at ''value'' [] (pc_options pc))) (\<lambda>field.
            andthen (t_write (target_variable n pc)
                       (option_value dump \<lparr>vr_format = format, vr_field = field\<rparr>
                          (page_options mo rows page ! nat (number - 1)) (nat number)))
              (\<lambda>_. yields Selected))))"

text \<open>What an input does: it turns the page, goes back, or chooses; an empty one does nothing.\<close>

definition read_input ::
    "(json \<Rightarrow> string) \<Rightarrow> exec \<Rightarrow> action_node \<Rightarrow> prompt_config \<Rightarrow> menu_options \<Rightarrow> json list \<Rightarrow> nat \<Rightarrow> string
      \<Rightarrow> (nat option, 'w tstate) act" where
  "read_input dump x n pc mo rows page input =
     (if input = [] then yields (Some page)
      else if input = mo_next mo \<and> page + 1 < page_count (mo_page_size mo) (length rows) then
        andthen (t_write (mo_page_variable mo) (JInt (int page + 1))) (\<lambda>_. yields (Some (page + 1)))
      else if input = mo_previous mo \<and> 0 < page then
        andthen (t_write (mo_page_variable mo) (JInt (int page - 1))) (\<lambda>_. yields (Some (page - 1)))
      else if input = mo_back mo then
        andthen (t_write (target_variable n pc) (JStr (mo_back mo))) (\<lambda>_. yields None)
      else andthen (choose_option dump x n pc mo rows page input) (\<lambda>_. yields None))"

definition label_text :: "(json \<Rightarrow> string) \<Rightarrow> string \<Rightarrow> string list \<Rightarrow> json \<Rightarrow> string" where
  "label_text dump format labels item =
     (if format \<noteq> [] then format_option dump format item
      else if labels \<noteq> [] \<and> is_object item
      then joined '' '' (map (\<lambda>f. option_text dump (option_property item f)) labels)
      else option_text dump item)"

definition label_rule_of :: "json \<Rightarrow> (string \<times> string list, 's) act" where
  "label_rule_of options =
     andthen (demand (text_at ''label_format'' [] options)) (\<lambda>snake.
     andthen (demand (text_at ''labelFormat'' snake options)) (\<lambda>format.
       yields (format, option_fields (case jget ''label'' options of
                                        Some v \<Rightarrow> v
                                      | None \<Rightarrow> (case jget ''labels'' options of Some v \<Rightarrow> v | None \<Rightarrow> JStr [])))))"

definition newline :: string where
  "newline = [CHR 0x0A]"

text \<open>The page as it is shown: the message with its numbered lines, and the options with their values.\<close>

definition numbered_options :: "json list \<Rightarrow> (json \<times> nat) list" where
  "numbered_options items = zip items [1..<Suc (length items)]"

definition menu_lines :: "(json \<Rightarrow> string) \<Rightarrow> string \<times> string list \<Rightarrow> json list \<Rightarrow> string" where
  "menu_lines dump lr items =
     concat (map (\<lambda>(item, i). int_str (int i) @ ''. '' @ label_text dump (fst lr) (snd lr) item @ newline) (numbered_options items))"

definition shown_options :: "(json \<Rightarrow> string) \<Rightarrow> value_rule \<Rightarrow> string \<times> string list \<Rightarrow> json list \<Rightarrow> json" where
  "shown_options dump vr lr items =
     JArr (map (\<lambda>(item, i). jobj [(''label'', JStr (label_text dump (fst lr) (snd lr) item)), (''value'', option_value dump vr item i)])
            (numbered_options items))"

definition menu_footer :: "menu_options \<Rightarrow> nat \<Rightarrow> nat \<Rightarrow> string" where
  "menu_footer mo page pages =
     (if 0 < page then mo_previous mo @ ''. Previous'' @ newline else []) @
     (if page + 1 < pages then mo_next mo @ ''. Next'' @ newline else []) @ mo_back mo @ ''. Back''"

definition shown_prompt ::
    "(json \<Rightarrow> string) \<Rightarrow> prompt_config \<Rightarrow> menu_options \<Rightarrow> json list \<Rightarrow> nat \<Rightarrow> string \<times> string list \<Rightarrow> value_rule \<Rightarrow> json \<Rightarrow> json" where
  "shown_prompt dump pc mo rows page lr vr message =
     (let items = page_options mo rows page; pages = page_count (mo_page_size mo) (length rows)
      in jobj
           [(''message'', JStr (as_text dump message @ newline @ menu_lines dump lr items @ menu_footer mo page pages)),
            (''interaction_type'', JStr (pc_interaction_type pc)), (''options'', shown_options dump vr lr items),
            (''page'', JInt (int page + 1)), (''page_count'', JInt (int pages)),
            (''input_validation'', JStr ''dynamic_menu'')])"

definition show_page ::
    "'w services \<Rightarrow> exec \<Rightarrow> prompt_config \<Rightarrow> menu_options \<Rightarrow> json list \<Rightarrow> nat \<Rightarrow> (menu, 'w tstate) act" where
  "show_page sv x pc mo rows page =
     andthen (label_rule_of (pc_options pc)) (\<lambda>lr.
     andthen (value_format_of (pc_options pc)) (\<lambda>format.
     andthen (t_resolve_field sv x (pc_message pc)) (\<lambda>message.
     andthen (if format = [] \<and> page_options mo rows page \<noteq> [] then demand (text_at ''value'' [] (pc_options pc)) else yields []) (\<lambda>field.
       yields (Rendered (shown_prompt (ho_dump (sv_host sv)) pc mo rows page lr \<lparr>vr_format = format, vr_field = field\<rparr> message))))))"

definition clamp_page :: "int \<Rightarrow> nat \<Rightarrow> nat" where
  "clamp_page page pages = nat (min (max page 0) (int pages - 1))"

definition render_menu ::
    "'w services \<Rightarrow> exec \<Rightarrow> action_node \<Rightarrow> prompt_config \<Rightarrow> json \<Rightarrow> int \<Rightarrow> string \<Rightarrow> (menu, 'w tstate) act" where
  "render_menu sv x n pc source page input =
     (case source of
        JArr rows \<Rightarrow>
          andthen (menu_options_of x (pc_options pc)) (\<lambda>mo.
          andthen (read_input (ho_dump (sv_host sv)) x n pc mo rows
                     (clamp_page page (page_count (mo_page_size mo) (length rows))) input) (\<lambda>shown.
            case shown of None \<Rightarrow> yields Selected | Some p \<Rightarrow> show_page sv x pc mo rows p))
      | _ \<Rightarrow>
          andthen (demand (text_at ''source'' [] (pc_options pc))) (\<lambda>src.
            raises (sapo_error Validation ''dynamic menu source must resolve to an array'' (jobj [(''source'', JStr src)])
                      (nd_id (ex_node x)))))"

section \<open>The action\<close>

definition cap_failed :: "exec \<Rightarrow> string \<Rightarrow> cap_result \<Rightarrow> sapo_error" where
  "cap_failed x name r =
     sapo_error CapabilityErr (''capability '' @ quoted name @ '' failed: '' @ cr_error_message r)
       (jobj [(''capability'', JStr name)]) (nd_id (ex_node x))"

text \<open>Iterating over a value by its keys throws for a value without keys, unless it is empty.\<close>

definition keyed_entries :: "json \<Rightarrow> obj option" where
  "keyed_entries v = (case v of JObj ob \<Rightarrow> Some ob | JNull \<Rightarrow> Some [] | JArr [] \<Rightarrow> Some [] | _ \<Rightarrow> None)"

definition write_outputs :: "'w services \<Rightarrow> exec \<Rightarrow> json \<Rightarrow> obj \<Rightarrow> (unit, 'w tstate) act" where
  "write_outputs sv x source outputs =
     each (\<lambda>(k, v). andthen (extract_field sv x source (as_text (ho_dump (sv_host sv)) v)) (t_write k)) outputs"

definition action_capability :: "'w services \<Rightarrow> exec \<Rightarrow> action_node \<Rightarrow> (unit, 'w tstate) act" where
  "action_capability sv x n =
     (if ac_capability n = [] then yields ()
      else case sv_capabilities sv of
        None \<Rightarrow> raises (node_error Internal ''no capability registry is installed'' x)
      | Some ps \<Rightarrow>
          andthen (t_resolve sv x (ac_inputs n)) (\<lambda>inputs.
          andthen (dispatch ps \<lparr>cc_name = ac_capability n, cc_inputs = inputs, cc_node = nd_id (ex_node x)\<rparr>) (\<lambda>r.
            if \<not> cr_ok r then raises (cap_failed x (ac_capability n) r)
            else if has_entries (ac_outputs n) then
              andthen (t_resolve sv x (ac_outputs n)) (\<lambda>outputs.
              andthen (demand (keyed_entries outputs)) (write_outputs sv x (cr_value r)))
            else t_write (nd_id (ex_node x)) (cr_value r))))"

definition undeclared_source :: "'w services \<Rightarrow> exec \<Rightarrow> data_source_decl \<Rightarrow> bool" where
  "undeclared_source sv x d \<longleftrightarrow>
     \<not> jcontains (ds_name d) (ex_data_sources x) \<and> \<not> has_provider (ds_provider d) (sv_sources sv)"

definition check_sources :: "'w services \<Rightarrow> exec \<Rightarrow> action_node \<Rightarrow> (unit, 'w tstate) act" where
  "check_sources sv x n =
     (case find (undeclared_source sv x) (ac_data_sources n) of
        None \<Rightarrow> yields ()
      | Some d \<Rightarrow> raises (sapo_error NotFound
          (''data source '' @ quoted (ds_name d) @ '' declares provider '' @ quoted (ds_provider d) @ '' which is not registered'')
          (jobj [(''data_source'', JStr (ds_name d))]) (nd_id (ex_node x))))"

definition event_request :: "exec \<Rightarrow> system_event \<Rightarrow> suspend_request" where
  "event_request x e =
     default_suspend\<lparr>sr_session := ex_session_id x, sr_node := nd_id (ex_node x), sr_reason := ''event'',
       sr_event_name := Some (sy_event_name e), sr_resume_node := or_else (sy_handler e) [],
       sr_data := jobj [(''event'', JStr (sy_event_name e))]\<rparr>"

definition awaits_event :: "'w services \<Rightarrow> exec \<Rightarrow> action_node \<Rightarrow> (system_event option, 'w tstate) act" where
  "awaits_event sv x n =
     (case ac_on_event n of
        None \<Rightarrow> yields None
      | Some e \<Rightarrow> andthen (t_eval_bool_or sv x (sy_trigger_condition e) True) (\<lambda>b. yields (if b then Some e else None)))"

definition was_resumed :: "exec \<Rightarrow> bool" where
  "was_resumed x \<longleftrightarrow> jcontains ''input'' (ex_locals x)"

definition input_request :: "'w services \<Rightarrow> exec \<Rightarrow> action_node \<Rightarrow> prompt_config \<Rightarrow> json \<Rightarrow> suspend_request" where
  "input_request sv x n pc prompt =
     default_suspend\<lparr>sr_session := ex_session_id x, sr_node := nd_id (ex_node x), sr_reason := ''input'',
       sr_input_variable := target_variable n pc,
       sr_timeout := (case pc_timeout_ms pc of Some t \<Rightarrow> Some t | None \<Rightarrow> sv_default_timeout_ms sv), sr_prompt := prompt\<rparr>"

text \<open>The menu of a prompt: the signal it ends the task with, or none.\<close>

definition menu_step :: "'w services \<Rightarrow> exec \<Rightarrow> action_node \<Rightarrow> prompt_config \<Rightarrow> (signal option, 'w tstate) act" where
  "menu_step sv x n pc =
     (let input = (if was_resumed x then jvalue ''input'' JNull (ex_locals x) else JNull)
      in andthen (demand (text_at ''source'' [] (pc_options pc))) (\<lambda>src.
         andthen (t_resolve sv x (JStr src)) (\<lambda>source.
         andthen (demand (text_at ''page_variable'' (nd_id (ex_node x) @ ''.page'') (pc_options pc))) (\<lambda>page_variable.
         andthen (t_has page_variable) (\<lambda>known.
         andthen (t_read page_variable) (\<lambda>stored.
         andthen (render_menu sv x n pc source (case stored of JInt i \<Rightarrow> (if known then as_int32 i else 0) | _ \<Rightarrow> 0)
                    (option_text (ho_dump (sv_host sv)) input)) (\<lambda>m.
           case m of
             Rendered prompt \<Rightarrow> yields (Some (Suspend (input_request sv x n pc prompt)))
           | Selected \<Rightarrow>
               andthen (demand (text_at ''back_value'' ''0'' (pc_options pc))) (\<lambda>back.
                 if input = JStr back then
                   andthen (demand (text_at ''back_next'' [] (pc_options pc))) (\<lambda>t.
                     yields (if t = [] then None else Some (JumpTo t)))
                 else yields None))))))))"

definition plain_prompt :: "'w services \<Rightarrow> exec \<Rightarrow> action_node \<Rightarrow> prompt_config \<Rightarrow> (signal option, 'w tstate) act" where
  "plain_prompt sv x n pc =
     andthen (t_resolve_field sv x (pc_message pc)) (\<lambda>message.
       (let base = [(''message'', JStr (as_text (ho_dump (sv_host sv)) message)), (''interaction_type'', JStr (pc_interaction_type pc))];
            rule = (case pc_input_validation pc of
                      Some e \<Rightarrow> [(''input_validation'', JStr (expression_source (ho_dump (sv_host sv)) e))] | None \<Rightarrow> [])
        in yields (Some (Suspend (input_request sv x n pc (jobj (base @ rule)))))))"

definition prompt_step :: "'w services \<Rightarrow> exec \<Rightarrow> action_node \<Rightarrow> (signal option, 'w tstate) act" where
  "prompt_step sv x n =
     (case ac_prompt_config n of
        None \<Rightarrow> yields None
      | Some pc \<Rightarrow>
          (if \<not> ac_await_input n then yields None
           else if \<not> jempty (pc_options pc) then menu_step sv x n pc
           else if \<not> was_resumed x then plain_prompt sv x n pc
           else yields None))"

definition rejected_input :: "'w services \<Rightarrow> exec \<Rightarrow> action_node \<Rightarrow> expression \<Rightarrow> json \<Rightarrow> sapo_error" where
  "rejected_input sv x n rule input =
     sapo_error Validation
       (''input for node '' @ quoted (nd_id (ex_node x)) @ '' did not satisfy the prompt rule '' @
        quoted (expression_source (ho_dump (sv_host sv)) rule) @
        (case ac_input_variable n of
           Some v \<Rightarrow> (if v = [] then [] else '' (expected a value for '' @ quoted v @ '')'') | None \<Rightarrow> []))
       (jobj [(''input'', input)]) (nd_id (ex_node x))"

definition validate_input :: "'w services \<Rightarrow> exec \<Rightarrow> action_node \<Rightarrow> (unit, 'w tstate) act" where
  "validate_input sv x n =
     (case Option.bind (ac_prompt_config n) (\<lambda>pc. if jempty (pc_options pc) then pc_input_validation pc else None) of
        None \<Rightarrow> yields ()
      | Some rule \<Rightarrow>
          (if \<not> was_resumed x \<or> expression_empty rule then yields ()
           else let input = jvalue ''input'' JNull (ex_locals x) in
             andthen (scoped sv x (\<lambda>sc. set_local ''value'' input (set_local ''$input'' input (set_local ''input'' input sc)))
                        (eval_bool_field rule)) (\<lambda>b.
               if b then yields () else raises (rejected_input sv x n rule input))))"

fun next_task :: "'w services \<Rightarrow> exec \<Rightarrow> task_reference list \<Rightarrow> (signal, 'w tstate) act" where
  "next_task sv x [] = yields Continue"
| "next_task sv x (r # rs) =
     andthen (t_eval_bool_or sv x (tr_execute_condition r) True) (\<lambda>b.
       if b then yields (JumpTo (tr_task_id r)) else next_task sv x rs)"

definition action_task :: "action_node \<Rightarrow> 'w task" where
  "action_task n sv x =
     andthen (action_capability sv x n) (\<lambda>_.
     andthen (check_sources sv x n) (\<lambda>_.
     andthen (awaits_event sv x n) (\<lambda>e.
       case e of
         Some ev \<Rightarrow> yields (Suspend (event_request x ev))
       | None \<Rightarrow>
           andthen (prompt_step sv x n) (\<lambda>early.
             case early of
               Some sg \<Rightarrow> yields sg
             | None \<Rightarrow> andthen (validate_input sv x n) (\<lambda>_. next_task sv x (ac_next_tasks n))))))"

section \<open>The subflow\<close>

definition child_request_of :: "subflow_node \<Rightarrow> exec \<Rightarrow> json \<Rightarrow> child_request" where
  "child_request_of n x input =
     \<lparr>cq_workflow_id = sf_workflow n, cq_input = input, cq_parent_session = ex_session_id x,
      cq_correlation_id = ex_session_id x, cq_depth = ex_depth x + 1, cq_wait = sf_wait_for_completion n,
      cq_node_id = nd_id (ex_node x), cq_output_key = or_else (sf_output n) [], cq_return_map = sf_return_map n\<rparr>"

definition write_child_output :: "'w services \<Rightarrow> subflow_node \<Rightarrow> json \<Rightarrow> (unit, 'w tstate) act" where
  "write_child_output sv n output =
     (if \<not> is_object output then yields ()
      else andthen (t_write (or_else (sf_output n) []) output) (\<lambda>_.
           each (\<lambda>(k, v). t_write k (jvalue (as_text (ho_dump (sv_host sv)) v) JNull output)) (jentries (sf_return_map n))))"

definition subflow_task :: "subflow_node \<Rightarrow> 'w task" where
  "subflow_task n sv x =
     andthen (t_resolve sv x (sf_inputs n)) (\<lambda>input.
     andthen (outside (sv_run_child sv (child_request_of n x input))) (\<lambda>r.
     andthen (write_child_output sv n (cr_output r)) (\<lambda>_.
     andthen (t_write (nd_id (ex_node x) @ ''_session'') (JStr (cr_session_id r))) (\<lambda>_.
     andthen (t_write (nd_id (ex_node x) @ ''_status'') (JStr (cr_status r))) (\<lambda>_.
       if cr_status r = ''failed'' then
         raises (sapo_error CapabilityErr (''subflow '' @ quoted (sf_workflow n) @ '' failed: '' @ cr_error r)
           (jobj [(''workflow'', JStr (sf_workflow n)), (''child_session'', JStr (cr_session_id r))]) (nd_id (ex_node x)))
       else yields Continue)))))"

section \<open>Lemmas\<close>

lemma menu_options_of_pure: "menu_options_of x options s = (Val mo, t) \<Longrightarrow> t = s \<and> menu_options_of x options u = (Val mo, u)"
  by (auto simp: menu_options_of_def demand_def andthen_def split: option.splits)

lemma int_at_bounded: "int_at k d j = Some i \<Longrightarrow> - 2147483648 \<le> i \<and> i < 2147483648"
proof -
  have *: "- 2147483648 \<le> as_int32 v" "as_int32 v < 2147483648" for v
    using pos_mod_bound [of 4294967296 "v + 2147483648"] pos_mod_sign [of 4294967296 "v + 2147483648"]
    by (simp_all add: as_int32_def)
  assume "int_at k d j = Some i"
  then obtain v where "int32_of v = Some i" by (auto simp: int_at_def bind_eq_Some_conv)
  then show ?thesis using * by (cases v) (auto split: if_splits)
qed

lemma page_size_bounded: "menu_options_of x options s = (Val mo, t) \<Longrightarrow> int (mo_page_size mo) < 2147483648"
  using int_at_bounded [of "''page_size''" 5 options]
  by (auto simp: menu_options_of_def demand_def andthen_def split: option.splits)

lemma page_options_bounded: "length (page_options mo rows page) \<le> mo_page_size mo"
  by (simp add: page_options_def)

lemma shown_option:
  assumes "i < length items"
  shows "length (jitems (shown_options dump vr lr items)) = length items"
    and "jvalue ''value'' JNull (jitems (shown_options dump vr lr items) ! i) = option_value dump vr (items ! i) (Suc i)"
  using assms by (simp_all add: shown_options_def numbered_options_def jvalue_def jget_jobj del: upt_Suc)

lemma option_value_rule:
  "(format = [] \<Longrightarrow> f = g) \<Longrightarrow>
   option_value dump \<lparr>vr_format = format, vr_field = f\<rparr> = option_value dump \<lparr>vr_format = format, vr_field = g\<rparr>"
  by (rule ext, rule ext) (auto simp: option_value_def)

text \<open>What a shown page tells: its options are those of the page, under the format and, where it counts, the field.\<close>

lemma show_page_options:
  fixes s :: "'w tstate"
  assumes "show_page sv x pc mo rows page s = (Val (Rendered prompt), t)"
  shows "\<exists>format field lr. value_format_of (pc_options pc) u = (Val format, u) \<and>
    jget ''options'' prompt =
      Some (shown_options (ho_dump (sv_host sv)) \<lparr>vr_format = format, vr_field = field\<rparr> lr (page_options mo rows page)) \<and>
    (format = [] \<longrightarrow> page_options mo rows page \<noteq> [] \<longrightarrow> text_at ''value'' [] (pc_options pc) = Some field)"
proof -
  have pure: "value_format_of (pc_options pc) v = (Val f, w) \<Longrightarrow> value_format_of (pc_options pc) u = (Val f, u)" for v w f
    by (auto simp: value_format_of_def demand_def andthen_def split: option.splits)
  from assms obtain lr format field message v w w2 w3 where
    f: "value_format_of (pc_options pc) (v :: 'w tstate) = (Val format, w)" and
    field: "(if format = [] \<and> page_options mo rows page \<noteq> [] then demand (text_at ''value'' [] (pc_options pc)) else yields []) w2
      = (Val field, w3)" and
    p: "yields (Rendered (shown_prompt (ho_dump (sv_host sv)) pc mo rows page lr \<lparr>vr_format = format, vr_field = field\<rparr> message)) w3
      = (Val (Rendered prompt), t)"
    unfolding show_page_def andthen_Val by (elim exE conjE) (rule that, assumption+)
  from p have prompt: "prompt = shown_prompt (ho_dump (sv_host sv)) pc mo rows page lr \<lparr>vr_format = format, vr_field = field\<rparr> message"
    by (simp only: run_simps(1) prod.inject ev.inject menu.inject)
  have "format = [] \<Longrightarrow> page_options mo rows page \<noteq> [] \<Longrightarrow> text_at ''value'' [] (pc_options pc) = Some field"
    using field by (auto simp: demand_def split: option.splits)
  moreover have "jget ''options'' prompt =
      Some (shown_options (ho_dump (sv_host sv)) \<lparr>vr_format = format, vr_field = field\<rparr> lr (page_options mo rows page))"
    by (simp add: prompt shown_prompt_def Let_def jget_jobj)
  ultimately show ?thesis using pure [OF f] by (intro exI [of _ format] exI [of _ field] exI [of _ lr]) simp
qed

lemma choose_option_step:
  assumes "list_all is_digit input" and "sto_int 32 input = Some (int i + 1, k)" and "i < length (page_options mo rows page)"
    and "value_format_of (pc_options pc) s = (Val format, s)" and "text_at ''value'' [] (pc_options pc) = Some field"
    and "target_variable n pc \<noteq> []"
  shows "choose_option dump x n pc mo rows page input s =
    (Val Selected, s\<lparr>ts_ctx := set_by_path (target_variable n pc)
       (option_value dump \<lparr>vr_format = format, vr_field = field\<rparr> (page_options mo rows page ! i) (Suc i)) (ts_ctx s)\<rparr>)"
proof -
  have "nat (int i + 1) = Suc i" by linarith
  then show ?thesis using assms by (simp add: choose_option_def t_write_def)
qed

section \<open>Properties\<close>

text \<open>
  C31: The menu keeps its word: on the page that was shown, choosing the number of an option stores exactly the value the
  prompt listed for it, in the prompt's variable, and nothing else, as long as the number is none of the three texts that
  turn the page or go back.
\<close>

theorem menu_choice_stores_the_shown_value:
  assumes "render_menu sv x n pc (JArr rows) page [] s = (Val (Rendered prompt), s1)"
    and "menu_options_of x (pc_options pc) s = (Val mo, s)"
    and "jget ''options'' prompt = Some (JArr shown)" and "i < length shown"
    and "int_str (int i + 1) \<notin> {mo_next mo, mo_previous mo, mo_back mo}"
    and "text_at ''value'' [] (pc_options pc) \<noteq> None" and "target_variable n pc \<noteq> []"
  shows "render_menu sv x n pc (JArr rows) page (int_str (int i + 1)) s2 =
    (Val Selected, s2\<lparr>ts_ctx := set_by_path (target_variable n pc) (jvalue ''value'' JNull (shown ! i)) (ts_ctx s2)\<rparr>)"
proof -
  let ?p = "clamp_page page (page_count (mo_page_size mo) (length rows))"
  let ?items = "page_options mo rows ?p" and ?dump = "ho_dump (sv_host sv)" and ?in = "int_str (int i + 1)"
  have "show_page sv x pc mo rows ?p s = (Val (Rendered prompt), s1)"
    using assms(1,2) by (simp add: render_menu_def read_input_def)
  from show_page_options [OF this, of s2] obtain format field lr where
    format: "value_format_of (pc_options pc) s2 = (Val format, s2)" and
    opts: "jget ''options'' prompt = Some (shown_options ?dump \<lparr>vr_format = format, vr_field = field\<rparr> lr ?items)" and
    field: "format = [] \<longrightarrow> ?items \<noteq> [] \<longrightarrow> text_at ''value'' [] (pc_options pc) = Some field"
    by (elim exE conjE) (rule that, assumption+)
  from assms(3) opts have shown: "shown_options ?dump \<lparr>vr_format = format, vr_field = field\<rparr> lr ?items = JArr shown" by simp
  then have len: "length shown = length ?items" by (auto simp: shown_options_def numbered_options_def simp del: upt_Suc)
  with assms(4) have i: "i < length ?items" by simp
  from shown_option(2) [OF i, of ?dump "\<lparr>vr_format = format, vr_field = field\<rparr>" lr] shown
  have val: "jvalue ''value'' JNull (shown ! i) = option_value ?dump \<lparr>vr_format = format, vr_field = field\<rparr> (?items ! i) (Suc i)" by simp
  obtain field' where field': "text_at ''value'' [] (pc_options pc) = Some field'" using assms(6) by blast
  have same: "option_value ?dump \<lparr>vr_format = format, vr_field = field'\<rparr> = option_value ?dump \<lparr>vr_format = format, vr_field = field\<rparr>"
    by (rule option_value_rule) (use field field' i in force)
  have "int i + 1 < 2147483648"
    using i page_options_bounded [of mo rows ?p] page_size_bounded [OF assms(2)] by linarith
  then have num: "sto_int 32 ?in = Some (int i + 1, length ?in)" by (intro sto_int_int_str) simp_all
  have digits: "list_all is_digit ?in" "?in \<noteq> []" using nat_digits_digits by (auto simp: int_str_def list_all_iff)
  have "choose_option ?dump x n pc mo rows ?p ?in s2 =
    (Val Selected, s2\<lparr>ts_ctx := set_by_path (target_variable n pc) (jvalue ''value'' JNull (shown ! i)) (ts_ctx s2)\<rparr>)"
    unfolding choose_option_step [OF digits(1) num i format field' assms(7)] same val ..
  then have "read_input ?dump x n pc mo rows ?p ?in s2 =
    (Val None, s2\<lparr>ts_ctx := set_by_path (target_variable n pc) (jvalue ''value'' JNull (shown ! i)) (ts_ctx s2)\<rparr>)"
    using assms(5) digits(2) by (simp add: read_input_def andthen_def)
  then show ?thesis
    using menu_options_of_pure [OF assms(2), of s2] by (simp add: render_menu_def andthen_def)
qed

definition sample_config :: prompt_config where
  "sample_config =
     \<lparr>pc_message = NoExpression, pc_interaction_type = ''menu'', pc_input_validation = None, pc_timeout_ms = None,
      pc_output = None, pc_options = JObj [(''value'', JStr ''id'')]\<rparr>"

definition sample_action :: action_node where
  "sample_action =
     \<lparr>ac_capability = [], ac_prompt_config = Some sample_config, ac_on_event = None, ac_data_sources = [],
      ac_inputs = JNull, ac_outputs = JNull, ac_input_variable = None, ac_next_tasks = [], ac_await_input = True\<rparr>"

definition sample_menu :: menu_options where
  "sample_menu =
     \<lparr>mo_page_size = 5, mo_page_variable = ''n.page'', mo_next = ''n'', mo_previous = ''p'', mo_back = ''0''\<rparr>"

lemma resolve_no_expression: "t_resolve_field sv x NoExpression = yields JNull"
proof -
  have "resolve_field NoExpression = (\<lambda>h sc. ret JNull)"
    by (simp add: fun_eq_iff resolve_field_def with_handle_def resolve_expression_def empty_handle_def)
  then show ?thesis by (simp add: t_resolve_field_def)
qed

lemma sample_menu_options:
  "menu_options_of (sample_exec (Action sample_action)) (pc_options sample_config) s = (Val sample_menu, s)"
  by (simp add: menu_options_of_def sample_config_def sample_menu_def getter_defs value_at_def as_int32_def
      sample_exec_def make_execution_def sample_node_def)

lemma sample_menu_shown:
  "render_menu (sample_services (None :: unit transport option)) (sample_exec (Action sample_action)) sample_action
     sample_config (JArr [JInt 5]) 0 [] s =
   (Val (Rendered (shown_prompt (\<lambda>v. []) sample_config sample_menu [JInt 5] 0 ([], [[]])
      \<lparr>vr_format = [], vr_field = ''id''\<rparr> JNull)), s)"
proof -
  have rules: "label_rule_of (pc_options sample_config) s = (Val ([], [[]]), s)"
    "value_format_of (pc_options sample_config) s = (Val [], s)"
    "text_at ''value'' [] (pc_options sample_config) = Some ''id''" for s :: "unit tstate"
    by (simp_all add: label_rule_of_def value_format_of_def sample_config_def getter_defs value_at_def
        option_fields_def)
  have page: "page_options sample_menu [JInt 5] 0 = [JInt 5]" "clamp_page 0 (page_count (mo_page_size sample_menu) (Suc 0)) = 0"
    by (simp_all add: page_options_def sample_menu_def clamp_page_def page_count_def)
  have "pc_message sample_config = NoExpression" by (simp add: sample_config_def)
  then show ?thesis
    by (simp add: render_menu_def sample_menu_options read_input_def page show_page_def rules resolve_no_expression
        sample_services_def sample_host_def)
qed

theorem menu_choice_stores_the_shown_value_witness:
  "render_menu (sample_services (None :: unit transport option)) (sample_exec (Action sample_action)) sample_action
     sample_config (JArr [JInt 5]) 0 (int_str 1) (sample_state ()) =
   (Val Selected, sample_state ()\<lparr>ts_ctx := set_by_path ''input'' (JInt 5) empty_ctx\<rparr>)"
proof -
  have shown: "jget ''options'' (shown_prompt (\<lambda>v. []) sample_config sample_menu [JInt 5] 0 ([], [[]])
      \<lparr>vr_format = [], vr_field = ''id''\<rparr> JNull) = Some (JArr [jobj [(''label'', JStr []), (''value'', JInt 5)]])"
    by (simp add: shown_prompt_def Let_def jget_jobj shown_options_def numbered_options_def page_options_def sample_menu_def
        label_text_def option_text_def option_value_def option_property_def)
  have one: "int_str (int 0 + 1) \<notin> {mo_next sample_menu, mo_previous sample_menu, mo_back sample_menu}"
    by code_simp
  have target: "target_variable sample_action sample_config = ''input''"
    by (simp add: target_variable_def sample_action_def sample_config_def or_else_def)
  have "text_at ''value'' [] (pc_options sample_config) \<noteq> None"
    by (simp add: sample_config_def getter_defs value_at_def)
  moreover have "target_variable sample_action sample_config \<noteq> []" by (simp add: target)
  ultimately show ?thesis
    using menu_choice_stores_the_shown_value [OF sample_menu_shown sample_menu_options shown _ one, of "sample_state ()"]
    by (simp add: target jvalue_def jget_jobj sample_state_def)
qed

end
