(* ===== verification/Sapo_CommandTasks.thy ===== *)
theory Sapo_CommandTasks
  imports Sapo_ActionTasks Sapo_Interpreter
begin

text \<open>
  The command task (\<open>src/src/tasks/HttpTasks.cpp\<close>), the tasks of the control-flow nodes
  (\<open>src/src/tasks/ControlFlowTasks.cpp\<close>) and the registry of the built-in tasks (\<open>TaskRegistry::defaults\<close> in
  \<open>tasks/Task.cpp\<close>), which is what the interpreter dispatches to.
\<close>

section \<open>The request of a command\<close>

text \<open>The entries of a resolved \<open>headers\<close> or \<open>query\<close>: nulls are dropped; a value without keys throws unless nothing
  is left of it.\<close>

definition set_entries :: "json \<Rightarrow> obj option" where
  "set_entries v =
     (case v of
        JObj ob \<Rightarrow> Some (filter (\<lambda>p. snd p \<noteq> JNull) ob)
      | JNull \<Rightarrow> Some []
      | JArr xs \<Rightarrow> (if list_all is_null xs then Some [] else None)
      | _ \<Rightarrow> None)"

definition put_entries :: "(json \<Rightarrow> string) \<Rightarrow> obj \<Rightarrow> json \<Rightarrow> json" where
  "put_entries dump es j = foldl (\<lambda>j (k, v). jset k (JStr (as_text dump v)) j) j es"

definition resolved_entries :: "'w services \<Rightarrow> exec \<Rightarrow> json \<Rightarrow> (json, 'w tstate) act" where
  "resolved_entries sv x template =
     (if \<not> is_object template then yields (JObj [])
      else andthen (t_resolve sv x template) (\<lambda>v.
           andthen (demand (set_entries v)) (\<lambda>es. yields (put_entries (ho_dump (sv_host sv)) es (JObj [])))))"

definition resolved_text :: "'w services \<Rightarrow> exec \<Rightarrow> expression \<Rightarrow> (string, 'w tstate) act" where
  "resolved_text sv x e = andthen (t_resolve_field sv x e) (\<lambda>v. yields (as_text (ho_dump (sv_host sv)) v))"

definition with_body :: "'w services \<Rightarrow> exec \<Rightarrow> http_request_config \<Rightarrow> request \<Rightarrow> (request, 'w tstate) act" where
  "with_body sv x c q =
     (if hr_body c = JNull then yields q
      else andthen (t_resolve sv x (hr_body c)) (\<lambda>body. yields (q\<lparr>hq_body := Some body,
             hq_headers := (if hr_content_type c = None \<and> \<not> is_string body
                            then jset ''Content-Type'' (JStr ''application/json'') (hq_headers q) else hq_headers q)\<rparr>)))"

definition with_content_type :: "http_request_config \<Rightarrow> request \<Rightarrow> request" where
  "with_content_type c q =
     (case hr_content_type c of
        None \<Rightarrow> q
      | Some t \<Rightarrow> q\<lparr>hq_headers := jset ''Content-Type'' (JStr t) (hq_headers q)\<rparr>)"

definition with_auth :: "'w services \<Rightarrow> exec \<Rightarrow> http_request_config \<Rightarrow> request \<Rightarrow> (request, 'w tstate) act" where
  "with_auth sv x c q =
     (case hr_auth c of
        None \<Rightarrow> yields q
      | Some a \<Rightarrow>
          (if ha_type a = ''basic'' then
             andthen (resolved_text sv x (ha_username a)) (\<lambda>user.
             andthen (resolved_text sv x (ha_password a)) (\<lambda>password.
               yields (q\<lparr>hq_auth_user := Some user, hq_auth_password := Some password\<rparr>)))
           else if ha_type a = ''bearer'' then
             andthen (resolved_text sv x (ha_token a)) (\<lambda>token. yields (q\<lparr>hq_bearer_token := Some token\<rparr>))
           else yields q))"

definition http_prefix :: "string \<Rightarrow> bool" where
  "http_prefix s \<longleftrightarrow> take 4 s = ''http''"

definition build_request :: "'w services \<Rightarrow> exec \<Rightarrow> command_node \<Rightarrow> http_request_config \<Rightarrow> (request, 'w tstate) act" where
  "build_request sv x n c =
     andthen (resolved_text sv x (hr_url c)) (\<lambda>url.
     andthen (resolved_entries sv x (hr_headers c)) (\<lambda>headers.
     andthen (resolved_entries sv x (hr_query c)) (\<lambda>query.
     andthen (with_body sv x c (default_request\<lparr>hq_method := upper_text (drop 5 (cm_command n)), hq_url := url,
                hq_timeout_ms := or_else (hr_timeout c) 10000, hq_follow_redirects := hr_follow_redirects c,
                hq_headers := headers, hq_query := query\<rparr>)) (\<lambda>q.
     andthen (with_auth sv x c (with_content_type c q)) (\<lambda>q'.
       if url \<noteq> [] \<and> \<not> http_prefix url
       then raises (sapo_error Validation (''http_request.url must be an absolute http(s) URL, got '' @ quoted url)
              (jobj [(''url'', JStr url)]) (nd_id (ex_node x)))
       else yields q')))))"

section \<open>The exchange\<close>

definition response_document :: "sel_host \<Rightarrow> response \<Rightarrow> json" where
  "response_document h r =
     (if hs_body r = [] then JNull else case ho_parse h (hs_body r) of None \<Rightarrow> JStr (hs_body r) | Some v \<Rightarrow> v)"

definition envelope :: "sel_host \<Rightarrow> request \<Rightarrow> response \<Rightarrow> json" where
  "envelope h q r =
     jobj [(''status'', JInt (hs_status r)), (''ok'', JBool (response_ok r)), (''url'', JStr (hq_url q)),
           (''method'', JStr (hq_method q)), (''elapsed_ms'', JFloat (hs_elapsed_ms r)),
           (''body'', response_document h r), (''headers'', if hs_headers r = JNull then JObj [] else hs_headers r)]"

definition transport_failed :: "(json \<Rightarrow> string) \<Rightarrow> exec \<Rightarrow> request \<Rightarrow> response \<Rightarrow> sapo_error" where
  "transport_failed dump x q r =
     sapo_error Http
       (''HTTP '' @ hq_method q @ '' '' @ describe_request dump q @ '' failed: '' @ hs_transport_error r)
       (jobj [(''url'', JStr (hq_url q)), (''transport_error'', JStr (hs_transport_error r))]) (nd_id (ex_node x))"

definition bad_status :: "sel_host \<Rightarrow> exec \<Rightarrow> request \<Rightarrow> response \<Rightarrow> sapo_error" where
  "bad_status h x q r =
     sapo_error HttpStatus
       (''HTTP '' @ hq_method q @ '' '' @ hq_url q @ '' returned '' @ int_str (hs_status r))
       (jobj [(''status'', JInt (hs_status r)), (''body'', response_document h r), (''url'', JStr (hq_url q))])
       (nd_id (ex_node x))"

definition exchange_result :: "sel_host \<Rightarrow> exec \<Rightarrow> request \<Rightarrow> response \<Rightarrow> json res" where
  "exchange_result h x q r =
     (if hs_transport_error r \<noteq> [] then Inl (transport_failed (ho_dump h) x q r)
      else if \<not> response_ok r then Inl (bad_status h x q r)
      else Inr (envelope h q r))"

definition of_result :: "'a res \<Rightarrow> ('a, 's) act" where
  "of_result r = (case r of Inl e \<Rightarrow> raises e | Inr v \<Rightarrow> yields v)"

definition perform_http :: "'w services \<Rightarrow> exec \<Rightarrow> command_node \<Rightarrow> (json, 'w tstate) act" where
  "perform_http sv x n =
     (case cm_http_request n of
        None \<Rightarrow> raises (node_error Validation ''command node has no http_request block'' x)
      | Some c \<Rightarrow>
          andthen (build_request sv x n c) (\<lambda>q.
            case sv_transport sv of
              None \<Rightarrow> raises (node_error Internal ''no HTTP transport is installed'' x)
            | Some send \<Rightarrow> andthen (outside (send q)) (\<lambda>r. of_result (exchange_result (sv_host sv) x q r))))"

section \<open>The command\<close>

definition is_http_command :: "command_node \<Rightarrow> bool" where
  "is_http_command n \<longleftrightarrow> take 5 (cm_command n) = ''http.''"

definition command_failed :: "exec \<Rightarrow> string \<Rightarrow> cap_result \<Rightarrow> sapo_error" where
  "command_failed x name r =
     sapo_error CapabilityErr (''capability '' @ quoted name @ '' failed: '' @ cr_error_message r)
       (jobj [(''capability'', JStr name), (''error_code'', JStr (cr_error_code r))]) (nd_id (ex_node x))"

definition command_capability :: "'w services \<Rightarrow> exec \<Rightarrow> command_node \<Rightarrow> (json, 'w tstate) act" where
  "command_capability sv x n =
     (case sv_capabilities sv of
        None \<Rightarrow> raises (node_error Internal ''no capability registry is installed'' x)
      | Some ps \<Rightarrow>
          andthen (t_resolve sv x (cm_inputs n)) (\<lambda>inputs.
          andthen (dispatch ps \<lparr>cc_name = cm_command n, cc_inputs = inputs, cc_node = nd_id (ex_node x)\<rparr>) (\<lambda>r.
            if cr_ok r then yields (cr_value r) else raises (command_failed x (cm_command n) r))))"

text \<open>The output binding: one key, a list of paths, a map; with none of them, the node's identifier.\<close>

definition bind_outputs :: "'w services \<Rightarrow> exec \<Rightarrow> command_node \<Rightarrow> json \<Rightarrow> (unit, 'w tstate) act" where
  "bind_outputs sv x n e =
     andthen (t_write (cm_output n) e) (\<lambda>_.
     andthen (each (\<lambda>p. andthen (extract_field sv x e p) (t_write p)) (or_else (cm_output_paths n) [])) (\<lambda>_.
     andthen (if is_object (cm_outputs n) then write_outputs sv x e (jentries (cm_outputs n)) else yields ()) (\<lambda>_.
       if cm_output n = [] \<and> cm_output_paths n = None \<and> jempty (cm_outputs n)
       then t_write (nd_id (ex_node x)) e else yields ())))"

definition command_task :: "command_node \<Rightarrow> 'w task" where
  "command_task n sv x =
     andthen (if is_http_command n then perform_http sv x n else command_capability sv x n) (\<lambda>e.
     andthen (bind_outputs sv x n e) (\<lambda>_. yields Continue))"

section \<open>Conditions and choices\<close>

definition branch_of :: "'w services \<Rightarrow> exec \<Rightarrow> condition_node \<Rightarrow> (condition_branch, 'w tstate) act" where
  "branch_of sv x n =
     andthen (t_eval_bool sv x (cn_expression n)) (\<lambda>b.
       yields (if b then \<lparr>cb_taken = True, cb_body = cn_then_body n, cb_target = cn_on_true n\<rparr>
               else \<lparr>cb_taken = False, cb_body = cn_else_body n, cb_target = or_else (cn_on_false n) []\<rparr>))"

definition condition_task :: "condition_node \<Rightarrow> 'w task" where
  "condition_task n sv x =
     andthen (branch_of sv x n) (\<lambda>b.
       yields (if cb_body b \<noteq> [] then Continue else if cb_target b \<noteq> [] then JumpTo (cb_target b) else Continue))"

text \<open>The key of a selector: a text itself, truth values and integers by name, a float without its fraction when it is a
  64-bit integer; the conversion of other floats is undefined in C++ and taken as unequal.\<close>

definition selector_key :: "(json \<Rightarrow> string) \<Rightarrow> json \<Rightarrow> string" where
  "selector_key dump v =
     (case v of
        JStr s \<Rightarrow> s
      | JBool b \<Rightarrow> (if b then ''true'' else ''false'')
      | JInt i \<Rightarrow> int_str (as_int64 i)
      | JFloat (DFin r) \<Rightarrow>
          (if of_int \<lfloor>r\<rfloor> = r \<and> - (2 ^ 63) \<le> r \<and> r < 2 ^ 63 then int_str \<lfloor>r\<rfloor> else dump v)
      | JNull \<Rightarrow> ''null''
      | _ \<Rightarrow> dump v)"

definition chosen_target :: "choice_node \<Rightarrow> string \<Rightarrow> string" where
  "chosen_target n key =
     (case map_of (ch_cases n) key of Some t \<Rightarrow> t | None \<Rightarrow> or_else (ch_default_target n) [])"

definition listed_names :: "string list \<Rightarrow> string" where
  "listed_names names = foldl (\<lambda>l n. if l = [] then n else l @ '', '' @ n) [] names"

definition no_case :: "(json \<Rightarrow> string) \<Rightarrow> exec \<Rightarrow> choice_node \<Rightarrow> json \<Rightarrow> sapo_error" where
  "no_case dump x n v =
     (let names = map fst (ch_cases n) in
      sapo_error Routing
        (''choice node '' @ quoted (nd_id (ex_node x)) @ '' has no case for value '' @ quoted (selector_key dump v) @
         '' and no '' @ quoted ''default'' @ '' target (known cases: '' @
         (if listed_names names = [] then ''none'' else listed_names names) @ '')'')
        (jobj [(''value'', v), (''cases'', JArr (map JStr names))]) (nd_id (ex_node x)))"

definition choice_task :: "choice_node \<Rightarrow> 'w task" where
  "choice_task n sv x =
     andthen (t_eval sv x (ch_expression n)) (\<lambda>v.
       (let t = chosen_target n (selector_key (ho_dump (sv_host sv)) v)
        in if t \<noteq> [] then yields (JumpTo t)
           else andthen (t_eval sv x (ch_expression n)) (\<lambda>v'. raises (no_case (ho_dump (sv_host sv)) x n v'))))"

section \<open>Loops, try, parallel\<close>

definition iteration_items :: "'w services \<Rightarrow> exec \<Rightarrow> loop_node \<Rightarrow> (json, 'w tstate) act" where
  "iteration_items sv x n =
     (if \<not> expression_empty (lp_count n) then
        andthen (t_eval sv x (lp_count n)) (\<lambda>v. of_result (count_value (nd_id (ex_node x)) v))
      else if \<not> expression_empty (lp_collection n) then
        andthen (t_eval sv x (lp_collection n)) (\<lambda>v. yields (collection_value v))
      else yields JNull)"

definition loop_task :: "loop_node \<Rightarrow> 'w task" where
  "loop_task n sv x =
     andthen (iteration_items sv x n) (\<lambda>v.
       if \<not> is_array v \<and> v \<noteq> JNull then
         raises (sapo_error Validation ''loop source is not a collection'' (jobj [(''type'', JStr (json_type_name v))])
           (nd_id (ex_node x)))
       else if lp_body n = [] then
         raises (node_error Validation (''loop node has an empty '' @ quoted ''body'') x)
       else yields Continue)"

definition parallel_task :: "parallel_node \<Rightarrow> 'w task" where
  "parallel_task n sv x =
     raises (sapo_error Internal
       (''parallel node '' @ quoted (nd_id (ex_node x)) @ '' must be executed by the interpreter (it drives the worker pool)'')
       (jobj [(''branches'', JInt (int (length (pn_branches n))))]) (nd_id (ex_node x)))"

definition try_task :: "try_node \<Rightarrow> 'w task" where
  "try_task n sv x = yields Continue"

section \<open>The built-in tasks\<close>

text \<open>The node as the task reads it; another body means a task under the wrong type.\<close>

definition wrong_task :: "exec \<Rightarrow> sapo_error" where
  "wrong_task x = node_error Internal (''interpreter dispatched a '' @ task_type_string (node_type (ex_node x)) @
     '' node to the wrong task'') x"

fun body_task :: "node_body \<Rightarrow> 'w task" where
  "body_task (Noop n) = noop_task n" | "body_task (Transform n) = transform_task n" | "body_task (Query n) = query_task n"
| "body_task (Command n) = command_task n" | "body_task (EventEmit n) = event_task n" | "body_task (Loop n) = loop_task n"
| "body_task (LoopControl n) = loop_control_task n" | "body_task (Choice n) = choice_task n"
| "body_task (Condition n) = condition_task n" | "body_task (Wait n) = wait_task n"
| "body_task (Schedule n) = schedule_task n" | "body_task (Subflow n) = subflow_task n"
| "body_task (Script n) = script_task n" | "body_task (Parallel n) = parallel_task n"
| "body_task (TerminateN n) = terminate_task n" | "body_task (Action n) = action_task n" | "body_task (Try n) = try_task n"

definition typed_task :: "task_type \<Rightarrow> 'w task" where
  "typed_task ty sv x =
     (if ty \<noteq> TTry \<and> node_type (ex_node x) \<noteq> ty then raises (wrong_task x)
      else if ty = TTry then yields Continue else body_task (nd_body (ex_node x)) sv x)"

definition built_in_types :: "task_type list" where
  "built_in_types =
     [TNoop, TTransform, TScript, TEvent, TTerminate, TLoopControl, TWait, TSchedule, TQuery, TCommand, TAction, TSubflow,
      TCondition, TChoice, TLoop, TTry, TParallel]"

definition default_tasks :: "(task_type \<times> 'w task) list" where
  "default_tasks = foldl (\<lambda>reg ty. task_add ty (typed_task ty) reg) [] built_in_types"

text \<open>A task as the interpreter runs it: its state is the context, the readings and the world; \<open>what\<close> is the text of an
  exception that is no engine error.\<close>

definition run_task :: "string \<Rightarrow> 'w services \<Rightarrow> 'w task \<Rightarrow> exec \<Rightarrow> 'w \<times> nat \<Rightarrow> task_result \<times> ctx \<times> 'w \<times> nat" where
  "run_task what sv task x wd =
     (case task sv x \<lparr>ts_ctx = ex_ctx x, ts_draws = snd wd, ts_world = fst wd\<rparr> of
        (r, t) \<Rightarrow> (case r of Val sg \<Rightarrow> Signals sg | Thr e \<Rightarrow> Fails e | _ \<Rightarrow> Crashes what,
                   ts_ctx t, ts_world t, ts_draws t))"

definition with_built_ins :: "string \<Rightarrow> 'w services \<Rightarrow> ('w \<times> nat) env \<Rightarrow> ('w \<times> nat) env" where
  "with_built_ins what sv env = env\<lparr>en_task := (\<lambda>ty. map_option (run_task what sv) (task_find ty default_tasks))\<rparr>"

section \<open>Lemmas\<close>

lemma map_of_replaced:
  "map_of (map (\<lambda>(k, u). if k = ty' then (k, t) else (k, u)) reg) ty =
   (if ty = ty' then map_option (\<lambda>_. t) (map_of reg ty) else map_of reg ty)"
  by (induction reg) auto

lemma task_find_add: "task_find ty (task_add ty' t reg) = (if ty = ty' then Some t else task_find ty reg)"
proof (cases "map_of reg ty'")
  case None
  then have "ty' \<notin> fst ` set reg" by (simp add: map_of_eq_None_iff)
  with None show ?thesis by (auto simp: task_find_def task_add_def map_add_def split: option.splits)
next
  case (Some u)
  then have "ty' \<in> fst ` set reg" by (metis map_of_eq_None_iff option.distinct(1))
  with Some show ?thesis by (simp add: task_find_def task_add_def map_of_replaced)
qed

lemma built_in: "task_find ty default_tasks = Some (typed_task ty)"
  by (cases ty) (simp_all add: default_tasks_def built_in_types_def task_find_add)

text \<open>Evaluations leave the context and the outside world alone.\<close>

definition calm :: "'w tstate \<Rightarrow> 'w tstate \<Rightarrow> bool" where
  "calm s t \<longleftrightarrow> ts_ctx s = ts_ctx t \<and> ts_world s = ts_world t"

lemma preorder_calm [keeps_intros]: "preorder calm"
  by (simp add: preorder_def calm_def)

lemma relates_calm_sel: "safe m \<Longrightarrow> relates calm (sel m)"
  by (rule relatesI) (auto simp: sel_def calm_def split: prod.splits dest: safeD)

lemma relates_calm_scoped: "(\<And>h sc. safe (f h sc)) \<Longrightarrow> relates calm (scoped sv x g f)"
  by (rule relatesI) (auto simp: scoped_def dest: relatesD [OF relates_calm_sel])

lemma relates_calm_evaluation [keeps_intros]:
  "relates calm (t_eval sv x e)" "relates calm (t_eval_bool sv x e)" "relates calm (t_resolve_field sv x e)"
  "relates calm (t_resolve sv x v)"
  unfolding t_eval_def t_eval_bool_def t_resolve_field_def t_resolve_def
  by (auto intro!: relates_calm_scoped safe_intros)

lemma relates_calm_extract [keeps_intros]: "relates calm (extract_field sv x source reference)"
proof -
  have "relates calm (scoped sv x (response_locals source)
      (\<lambda>h sc. with_handle (template_handle reference) (evaluate_expression h sc)))"
    by (auto intro!: relates_calm_scoped safe_intros)
  then show ?thesis
    unfolding extract_field_def relates_def by (auto simp: calm_def split: option.splits if_splits)
qed

lemma relates_calm_request [keeps_intros]:
  "relates calm (resolved_text sv x e)" "relates calm (resolved_entries sv x j)" "relates calm (with_body sv x c q)"
  "relates calm (with_auth sv x c q)" "relates calm (build_request sv x n c)"
proof -
  show 1: "relates calm (resolved_text sv x e)" for e
    unfolding resolved_text_def by (auto intro!: keeps_intros)
  show 2: "relates calm (resolved_entries sv x j)" for j
    unfolding resolved_entries_def by (auto intro!: keeps_intros)
  show 3: "relates calm (with_body sv x c q)" for q
    unfolding with_body_def by (auto intro!: keeps_intros)
  show 4: "relates calm (with_auth sv x c q)" for q
    unfolding with_auth_def by (auto intro!: keeps_intros 1 split: option.splits)
  show "relates calm (build_request sv x n c)"
    unfolding build_request_def by (auto intro!: keeps_intros 1 2 3 4)
qed

lemma relates_mono: "relates R m \<Longrightarrow> (\<And>s t. R s t \<Longrightarrow> S s t) \<Longrightarrow> relates S m"
  by (auto simp: relates_def)

section \<open>How often a command asks the network\<close>

text \<open>\<open>asks\<close> counts the requests in the world the transport works on: a computation sends at most \<open>k\<close>.\<close>

definition sends_at_most :: "nat \<Rightarrow> ('w \<Rightarrow> nat) \<Rightarrow> ('a, 'w tstate) act \<Rightarrow> bool" where
  "sends_at_most k asks m \<longleftrightarrow> (\<forall>s r t. m s = (r, t) \<longrightarrow> asks (ts_world t) \<le> asks (ts_world s) + k)"

definition meters :: "('w \<Rightarrow> nat) \<Rightarrow> 'w services \<Rightarrow> bool" where
  "meters asks sv \<longleftrightarrow> (\<forall>send q w. sv_transport sv = Some send \<longrightarrow> asks (snd (send q w)) \<le> asks w + 1)"

definition same_world :: "'w tstate \<Rightarrow> 'w tstate \<Rightarrow> bool" where
  "same_world s t \<longleftrightarrow> ts_world s = ts_world t"

lemma preorder_same_world [keeps_intros]: "preorder same_world"
  by (simp add: preorder_def same_world_def)

lemma calm_same_world: "relates calm m \<Longrightarrow> relates same_world m"
  by (erule relates_mono) (simp add: calm_def same_world_def)

lemma relates_world_write [keeps_intros]: "relates same_world (t_write k v)"
  unfolding t_write_def
  by (auto intro!: keeps_intros relates_change simp: same_world_def)

lemma relates_world_bind [keeps_intros]: "relates same_world (bind_outputs sv x n e)"
  unfolding bind_outputs_def write_outputs_def
  by (auto intro!: keeps_intros calm_same_world [OF relates_calm_extract])

lemma sends_after: "relates same_world m \<Longrightarrow> (\<And>y. sends_at_most k asks (f y)) \<Longrightarrow> sends_at_most k asks (andthen m f)"
  unfolding sends_at_most_def relates_def same_world_def andthen_def
  by (fastforce split: prod.splits ev.splits)

lemma sends_before: "sends_at_most k asks m \<Longrightarrow> (\<And>y. relates same_world (f y)) \<Longrightarrow> sends_at_most k asks (andthen m f)"
  unfolding sends_at_most_def relates_def same_world_def andthen_def
  by (fastforce split: prod.splits ev.splits)

lemma sends_nothing: "relates same_world m \<Longrightarrow> sends_at_most k asks m"
  unfolding sends_at_most_def relates_def same_world_def by (metis le_add1)

lemma relates_of_result [keeps_intros]: "preorder R \<Longrightarrow> relates R (of_result r)"
  unfolding of_result_def by (auto intro!: keeps_intros split: sum.splits)

lemma perform_http_sends:
  assumes "meters asks sv"
  shows "sends_at_most 1 asks (perform_http sv x n)"
proof (cases "cm_http_request n")
  case None
  then show ?thesis by (auto simp: perform_http_def intro!: sends_nothing keeps_intros)
next
  case (Some c)
  have one: "sends_at_most 1 asks (outside (send q))" if "sv_transport sv = Some send" for send q
    using assms that by (auto simp: meters_def sends_at_most_def outside_def split: prod.splits) (metis snd_conv)
  have "sends_at_most 1 asks (case sv_transport sv of
      None \<Rightarrow> raises (node_error Internal ''no HTTP transport is installed'' x)
    | Some send \<Rightarrow> andthen (outside (send q)) (\<lambda>r. of_result (exchange_result (sv_host sv) x q r)))" for q
  proof (cases "sv_transport sv")
    case None
    then show ?thesis by (auto intro!: sends_nothing keeps_intros)
  next
    case (Some send)
    show ?thesis unfolding Some option.simps by (rule sends_before [OF one [OF Some]]) (intro keeps_intros)
  qed
  then show ?thesis
    unfolding perform_http_def Some option.simps
    by (rule sends_after [OF calm_same_world [OF relates_calm_request(5)]])
qed

lemma command_sends:
  assumes "meters asks sv" and "is_http_command n"
  shows "sends_at_most 1 asks (command_task n sv x)"
  using perform_http_sends [OF assms(1), of x n] assms(2)
  by (auto simp: command_task_def intro!: sends_before keeps_intros)

lemma run_task_sends:
  assumes "sends_at_most 1 asks (task sv x)" and "run_task what sv task x wd = (r, c, wd')"
  shows "asks (fst wd') \<le> asks (fst wd) + 1"
  using assms by (fastforce simp: run_task_def sends_at_most_def split: prod.splits)

lemma attempts_send:
  assumes "\<And>x. ex_node x = n \<Longrightarrow> sends_at_most 1 asks (task sv x)"
    and "attempts env (run_task what sv task) n p left s wd = (r, s', wd')"
  shows "asks (fst wd') \<le> asks (fst wd) + Suc left"
  using assms(2)
proof (induction left arbitrary: s wd)
  case 0
  obtain r0 c w0 where t: "run_task what sv task (make_execution s n) wd = (r0, c, w0)" by (metis prod_cases3)
  from run_task_sends [OF assms(1) t] 0 t show ?case
    by (auto simp: attempts.simps make_execution_def split: task_result.splits)
next
  case (Suc left)
  obtain r0 c w0 where t: "run_task what sv task (make_execution s n) wd = (r0, c, w0)" by (metis prod_cases3)
  have one: "asks (fst w0) \<le> asks (fst wd) + 1"
    using run_task_sends [OF assms(1) t] by (simp add: make_execution_def)
  from Suc.prems t show ?case
    using one Suc.IH [of "s\<lparr>rs_ctx := c\<rparr>" w0]
    by (auto simp: attempts.simps [of env "run_task what sv task" n p "Suc left"] split: task_result.splits if_splits)
qed

section \<open>Properties\<close>

text \<open>
  C27: A failed exchange writes nothing: when the response of an HTTP command is no success, the command fails, the context
  is as it was, and without an explicit list the retry policy takes the failure as one to retry exactly when the transport
  failed or the status is 429 or at least 500.
\<close>

theorem failed_exchange_writes_nothing:
  assumes "is_http_command n" and "cm_http_request n = Some c" and "sv_transport sv = Some send"
    and "build_request sv x n c s = (Val q, s1)" and "send q (ts_world s) = (Val r, w)" and "\<not> response_ok r"
  shows "\<exists>e t. command_task n sv x s = (Thr e, t) \<and> ts_ctx t = ts_ctx s \<and> ts_world t = w \<and>
    (rp_retry_on p = [] \<longrightarrow>
     retryable env p e = (hs_transport_error r \<noteq> [] \<or> hs_status r = 429 \<or> 500 \<le> hs_status r))"
proof -
  from relatesD [OF relates_calm_request(5) assms(4)] have s1: "ts_ctx s1 = ts_ctx s" "ts_world s1 = ts_world s"
    by (auto simp: calm_def)
  obtain e where e: "exchange_result (sv_host sv) x q r = Inl e"
    using assms(6) by (fastforce simp: exchange_result_def)
  have "outside (send q) s1 = (Val r, s1\<lparr>ts_world := w\<rparr>)" using assms(5) s1 by (simp add: outside_def)
  then have "perform_http sv x n s = (Thr e, s1\<lparr>ts_world := w\<rparr>)"
    using assms(2,3,4) by (simp add: perform_http_def of_result_def e)
  then have "command_task n sv x s = (Thr e, s1\<lparr>ts_world := w\<rparr>)"
    using assms(1) by (simp add: command_task_def)
  moreover have "rp_retry_on p = [] \<longrightarrow>
     retryable env p e = (hs_transport_error r \<noteq> [] \<or> hs_status r = 429 \<or> 500 \<le> hs_status r)"
    using e assms(6)
    by (auto simp: exchange_result_def retryable_def transport_failed_def bad_status_def sapo_error_def jvalue_int_def
        jget_jobj response_ok_def split: if_splits)
  ultimately show ?thesis using s1 by auto
qed

text \<open>
  C28: An HTTP command asks the network at most as often as its retry policy allows: one activation of the node, under the
  built-in tasks, sends at most \<open>max_attempts\<close> requests (one without a policy), whatever the responses are.
\<close>

theorem requests_within_attempts:
  assumes "meters asks sv"
    and "nd_body nd = Command n" and "is_http_command n"
    and "activate_node (with_built_ins what sv env) nd s wd = (r, s', wd')"
  shows "asks (fst wd') \<le> asks (fst wd) + attempts_allowed nd"
proof -
  have ty: "node_type nd = TCommand" using assms(2) by (simp add: node_type_def)
  let ?p = "case nd_retry nd of Some p \<Rightarrow> p | None \<Rightarrow> default_retry"
  have sends: "sends_at_most 1 asks (typed_task TCommand sv x)" if "ex_node x = nd" for x
  proof -
    have "typed_task TCommand sv x = command_task n sv x" using that ty assms(2) by (simp add: typed_task_def)
    then show ?thesis using command_sends [OF assms(1,3), of x] by simp
  qed
  have att: "attempts (with_built_ins what sv env) (run_task what sv (typed_task TCommand)) nd ?p
      (nat (max 1 (rp_max_attempts ?p) - 1)) s wd = (r, s', wd')"
    using assms(4) by (simp add: activate_node_def with_built_ins_def ty built_in Let_def)
  have "attempts_allowed nd = Suc (nat (max 1 (rp_max_attempts ?p) - 1))" by (simp add: attempts_allowed_def)
  then show ?thesis using attempts_send [of nd asks "typed_task TCommand" sv, OF sends att] by simp
qed

text \<open>
  A choice goes where its cases say: when the selector has a value, the task jumps to the case of that value, else to
  the default, and only when neither names a node it fails with a routing error; the context stays as it was.
\<close>

theorem choice_follows_its_cases:
  assumes "t_eval sv x (ch_expression n) s = (Val v, s1)" and "choice_task n sv x s = (r, t)"
  shows "ts_ctx t = ts_ctx s \<and>
    (case r of
       Val sg \<Rightarrow> \<exists>target. sg = JumpTo target \<and> target \<noteq> [] \<and>
         (map_of (ch_cases n) (selector_key (ho_dump (sv_host sv)) v) = Some target \<or>
          map_of (ch_cases n) (selector_key (ho_dump (sv_host sv)) v) = None \<and> ch_default_target n = Some target)
     | Thr e \<Rightarrow> chosen_target n (selector_key (ho_dump (sv_host sv)) v) = [] \<and>
         (se_code e = Routing \<or> fst (t_eval sv x (ch_expression n) s1) = Thr e)
     | Crash \<Rightarrow> chosen_target n (selector_key (ho_dump (sv_host sv)) v) = [] | Deep \<Rightarrow> False)"
proof -
  obtain r2 s2 where again: "t_eval sv x (ch_expression n) s1 = (r2, s2)" by (cases "t_eval sv x (ch_expression n) s1")
  from relatesD [OF relates_calm_evaluation(1) assms(1)] relatesD [OF relates_calm_evaluation(1) again]
  have same: "ts_ctx s1 = ts_ctx s" "ts_ctx s2 = ts_ctx s" "r2 \<noteq> Deep" by (auto simp: calm_def)
  show ?thesis
  proof (cases "chosen_target n (selector_key (ho_dump (sv_host sv)) v) = []")
    case True
    with assms again same show ?thesis
      by (cases r2) (auto simp: choice_task_def no_case_def sapo_error_def Let_def)
  next
    case False
    with assms same show ?thesis
      by (auto simp: choice_task_def chosen_target_def or_else_def yields_def split: option.splits)
  qed
qed

text \<open>A transport that counts its requests and always answers 503.\<close>

definition counting_transport :: "nat transport" where
  "counting_transport q k = (Val (default_response\<lparr>hs_status := 503\<rparr>), Suc k)"

definition sample_http :: http_request_config where
  "sample_http =
     \<lparr>hr_url = NoExpression, hr_auth = None, hr_headers = JNull, hr_query = JNull, hr_body = JNull, hr_timeout = None,
      hr_follow_redirects = True, hr_content_type = None\<rparr>"

definition sample_command :: command_node where
  "sample_command =
     \<lparr>cm_command = ''http.get'', cm_output_paths = None, cm_output = [], cm_outputs = JNull,
      cm_http_request = Some sample_http, cm_inputs = JNull\<rparr>"

lemma sample_request:
  "build_request (sample_services t) x sample_command sample_http s =
     (Val (default_request\<lparr>hq_method := ''GET'', hq_url := [], hq_timeout_ms := 10000, hq_follow_redirects := True,
        hq_headers := JObj [], hq_query := JObj []\<rparr>), s)"
proof -
  have "upper_text (drop 5 (cm_command sample_command)) = ''GET''" by code_simp
  then show ?thesis
    by (simp add: build_request_def resolved_text_def resolved_entries_def with_body_def with_auth_def with_content_type_def
        sample_http_def resolve_no_expression as_text_def sample_services_def sample_host_def or_else_def)
qed

theorem failed_exchange_writes_nothing_witness:
  "\<exists>e t. command_task sample_command (sample_services (Some counting_transport)) (sample_exec (Command sample_command))
       (sample_state 0) = (Thr e, t) \<and> ts_ctx t = empty_ctx \<and> ts_world t = 1 \<and> retryable failing_env default_retry e"
  using failed_exchange_writes_nothing [of sample_command sample_http "sample_services (Some counting_transport)"
      counting_transport "sample_exec (Command sample_command)" "sample_state 0" _ _ "default_response\<lparr>hs_status := 503\<rparr>" 1
      default_retry failing_env, OF _ _ _ sample_request]
  by (simp add: is_http_command_def sample_command_def sample_services_def counting_transport_def sample_state_def
      response_ok_def default_response_def default_retry_def)

definition sample_http_node :: node where
  "sample_http_node = (sample_node (Command sample_command))\<lparr>nd_retry := Some (default_retry\<lparr>rp_max_attempts := 3\<rparr>)\<rparr>"

definition sample_env :: "(nat \<times> nat) env" where
  "sample_env =
     \<lparr>en_task = (\<lambda>t. None), en_eval = (\<lambda>e x. Inr JNull), en_eval_bool = (\<lambda>e x. Inr True),
      en_dump = (\<lambda>j. []), en_max_node_visits = 100, en_max_branch_visits = 100\<rparr>"

theorem requests_within_attempts_witness:
  "fst (snd (snd (activate_node (with_built_ins [] (sample_services (Some counting_transport)) sample_env) sample_http_node
     new_run_state (0, 0)))) \<le> 3"
proof -
  let ?sv = "sample_services (Some counting_transport)"
  obtain r s1 wd where a: "activate_node (with_built_ins [] ?sv sample_env) sample_http_node new_run_state (0, 0) = (r, s1, wd)"
    by (metis prod_cases3)
  have m: "meters id ?sv" by (simp add: meters_def sample_services_def counting_transport_def)
  have b: "nd_body sample_http_node = Command sample_command" by (simp add: sample_http_node_def sample_node_def)
  have "is_http_command sample_command" by (simp add: is_http_command_def sample_command_def)
  from requests_within_attempts [OF m b this a] show ?thesis
    using a by (simp add: attempts_allowed_def sample_http_node_def)
qed

definition sample_choice :: choice_node where
  "sample_choice = \<lparr>ch_expression = NoExpression, ch_cases = [(''null'', ''b'')], ch_default_target = None\<rparr>"

lemma eval_no_expression: "t_eval sv x NoExpression = yields JNull"
proof -
  have "eval_field NoExpression = (\<lambda>h sc. ret JNull)"
    by (simp add: fun_eq_iff eval_field_def with_handle_def evaluate_expression_def empty_handle_def)
  then show ?thesis by (simp add: t_eval_def)
qed

theorem choice_follows_its_cases_witness:
  "fst (choice_task sample_choice (sample_services (None :: unit transport option)) (sample_exec (Choice sample_choice))
     (sample_state ())) = Val (JumpTo ''b'')"
proof -
  let ?sv = "sample_services (None :: unit transport option)" and ?x = "sample_exec (Choice sample_choice)"
  have v: "t_eval ?sv ?x (ch_expression sample_choice) s = (Val JNull, s)" for s
    by (simp add: sample_choice_def eval_no_expression)
  have run: "choice_task sample_choice ?sv ?x (sample_state ()) = (Val (JumpTo ''b''), sample_state ())"
    by (simp add: choice_task_def v) (simp add: sample_choice_def chosen_target_def selector_key_def)
  from choice_follows_its_cases [OF v run] run show ?thesis by simp
qed

end
