(* ===== verification/Sapo_Redis.thy ===== *)
theory Sapo_Redis
  imports Sapo_Effects Sapo_Encoding
begin

text \<open>
  The Redis client seam (\<open>src/src/redis/IRedisClient.cpp\<close>, \<open>.hpp\<close>): replies, connection options with their URL, the
  interface of a client and the client that refuses.  A client is a computation over its own state.
\<close>

section \<open>Replies\<close>

datatype rvalue = RNil | RStatus string | RError string | RInt int | RBulk string | RArr "rvalue list"

fun is_error_reply :: "rvalue \<Rightarrow> bool" where
  "is_error_reply (RError _) = True"
| "is_error_reply _ = False"

fun is_string_reply :: "rvalue \<Rightarrow> bool" where
  "is_string_reply (RBulk _) = True"
| "is_string_reply (RStatus _) = True"
| "is_string_reply _ = False"

text \<open>\<open>std::stoll\<close> of a text that must be read to its end.\<close>

definition whole_int :: "string \<Rightarrow> int option" where
  "whole_int t = (case sto_int 64 t of Some (n, k) \<Rightarrow> (if k = length t then Some n else None) | None \<Rightarrow> None)"

fun reply_int :: "int \<Rightarrow> rvalue \<Rightarrow> int" where
  "reply_int d (RInt n) = n"
| "reply_int d (RBulk t) = (case whole_int t of Some n \<Rightarrow> n | None \<Rightarrow> d)"
| "reply_int d (RStatus t) = (case whole_int t of Some n \<Rightarrow> n | None \<Rightarrow> d)"
| "reply_int d _ = d"

fun reply_text :: "rvalue \<Rightarrow> string option" where
  "reply_text (RBulk t) = Some t"
| "reply_text (RStatus t) = Some t"
| "reply_text (RError t) = Some t"
| "reply_text _ = None"

fun reply_items :: "rvalue \<Rightarrow> rvalue list" where
  "reply_items (RArr vs) = vs"
| "reply_items _ = []"

fun is_ok_status :: "rvalue \<Rightarrow> bool" where
  "is_ok_status (RStatus t) = (t = ''OK'' \<or> t = ''ok'')"
| "is_ok_status _ = False"

definition store_error :: "string \<Rightarrow> sapo_error" where
  "store_error message = sapo_error Store message JNull []"

fun throw_if_error :: "string \<Rightarrow> rvalue \<Rightarrow> (unit, 's) act" where
  "throw_if_error context (RError t) = raises (store_error (context @ '': redis replied '' @ quoted t))"
| "throw_if_error context _ = yields ()"

definition ellipsis :: string where
  "ellipsis = [CHR 0xE2, CHR 0x80, CHR 0xA6]"

definition clip_text :: "nat \<Rightarrow> string \<Rightarrow> string" where
  "clip_text n t =
     (if length t \<le> n then t else take n t @ ellipsis @ ''('' @ int_str (int (length t)) @ '' bytes)'')"

fun comma_joined :: "string list \<Rightarrow> string" where
  "comma_joined [] = []"
| "comma_joined [x] = x"
| "comma_joined (x # xs) = x @ '', '' @ comma_joined xs"

fun describe_reply :: "nat \<Rightarrow> rvalue \<Rightarrow> string" where
  "describe_reply n RNil = ''<nil>''"
| "describe_reply n (RStatus t) = CHR ''+'' # clip_text n t"
| "describe_reply n (RError t) = CHR ''-'' # clip_text n t"
| "describe_reply n (RInt i) = CHR '':'' # int_str i"
| "describe_reply n (RBulk t) = CHR ''$'' # clip_text n t"
| "describe_reply n (RArr vs) =
     CHR ''*'' # int_str (int (length vs)) @ ''['' @ comma_joined (take 8 (map (describe_reply 40) vs)) @
     (if 8 < length vs then '', '' @ ellipsis else []) @ '']''"

section \<open>Connection options\<close>

record redis_options =
  rq_host :: string
  rq_port :: int
  rq_username :: string
  rq_password :: string
  rq_database :: int
  rq_client_name :: string
  rq_connect_timeout_ms :: int
  rq_socket_timeout_ms :: int
  rq_pool_size :: nat
  rq_max_command_bytes :: nat

definition default_redis_options :: redis_options where
  "default_redis_options =
     \<lparr>rq_host = ''127.0.0.1'', rq_port = 6379, rq_username = [], rq_password = [], rq_database = 0,
      rq_client_name = ''sapo-engine'', rq_connect_timeout_ms = 2000, rq_socket_timeout_ms = 2000, rq_pool_size = 8,
      rq_max_command_bytes = 16 * 1024 * 1024\<rparr>"

fun decode_userinfo :: "string \<Rightarrow> string" where
  "decode_userinfo (c # x # y # r) =
     (if c = CHR ''%'' then
        (case (nibble x, nibble y) of
           (Some hi, Some lo) \<Rightarrow> char_of (16 * hi + lo) # decode_userinfo r
         | _ \<Rightarrow> c # decode_userinfo (x # y # r))
      else c # decode_userinfo (x # y # r))"
| "decode_userinfo s = s"

text \<open>A text split at the first or the last place of a character.\<close>

definition split_at_first :: "char \<Rightarrow> string \<Rightarrow> (string \<times> string) option" where
  "split_at_first c s =
     (if c \<in> set s then Some (takeWhile (\<lambda>x. x \<noteq> c) s, tl (dropWhile (\<lambda>x. x \<noteq> c) s)) else None)"

definition split_at_last :: "char \<Rightarrow> string \<Rightarrow> (string \<times> string) option" where
  "split_at_last c s = map_option (\<lambda>(a, b). (rev b, rev a)) (split_at_first c (rev s))"

definition with_userinfo :: "string \<Rightarrow> redis_options \<Rightarrow> redis_options" where
  "with_userinfo info q =
     (case split_at_first (CHR '':'') info of
        None \<Rightarrow> q\<lparr>rq_password := decode_userinfo info\<rparr>
      | Some (user, password) \<Rightarrow>
          q\<lparr>rq_username := decode_userinfo user, rq_password := decode_userinfo password\<rparr>)"

definition with_database :: "string \<Rightarrow> string \<Rightarrow> redis_options \<Rightarrow> string + redis_options" where
  "with_database url db q =
     (if db = [] then Inr q
      else case sto_int 32 db of
        None \<Rightarrow> Inl (''invalid database index '' @ quoted (CHR ''/'' # db) @ '' in '' @ quoted url)
      | Some (n, _) \<Rightarrow>
          (if n < 0 then Inl (''database index cannot be negative in '' @ quoted url) else Inr (q\<lparr>rq_database := n\<rparr>)))"

definition with_bracketed_host :: "string \<Rightarrow> redis_options \<Rightarrow> string + redis_options" where
  "with_bracketed_host hostport q =
     (case split_at_first (CHR '']'') hostport of
        None \<Rightarrow> Inl (''unterminated '' @ quoted ''['' @ '' in host '' @ quoted hostport)
      | Some (h, after) \<Rightarrow>
          (case after of
             [] \<Rightarrow> Inr (q\<lparr>rq_host := tl h\<rparr>)
           | c # port \<Rightarrow>
               (if c \<noteq> CHR '':'' then
                  Inl (''expected '' @ quoted '':'' @ '' after '' @ quoted '']'' @ '' in '' @ quoted hostport)
                else case sto_int 32 port of
                  None \<Rightarrow> Inl (''invalid port in '' @ quoted hostport)
                | Some (n, _) \<Rightarrow> Inr (q\<lparr>rq_host := tl h, rq_port := n\<rparr>))))"

definition with_plain_host :: "string \<Rightarrow> string \<Rightarrow> redis_options \<Rightarrow> string + redis_options" where
  "with_plain_host url hostport q =
     (case split_at_last (CHR '':'') hostport of
        None \<Rightarrow> Inr (q\<lparr>rq_host := hostport\<rparr>)
      | Some (h, port) \<Rightarrow>
          (if port = [] then Inr (q\<lparr>rq_host := h\<rparr>)
           else case sto_int 32 port of
             None \<Rightarrow> Inl (''invalid port '' @ quoted port @ '' in '' @ quoted url)
           | Some (n, _) \<Rightarrow> Inr (q\<lparr>rq_host := h, rq_port := n\<rparr>)))"

definition checked_options :: "string \<Rightarrow> redis_options \<Rightarrow> string + redis_options" where
  "checked_options url q =
     (if rq_host q = [] then Inl (''no host in '' @ quoted url)
      else if rq_port q \<le> 0 \<or> 65535 < rq_port q then Inl (''port out of range in '' @ quoted url)
      else Inr q)"

definition step_url :: "'a + 'b \<Rightarrow> ('b \<Rightarrow> 'a + 'c) \<Rightarrow> 'a + 'c" where
  "step_url r f = (case r of Inl e \<Rightarrow> Inl e | Inr v \<Rightarrow> f v)"

text \<open>What follows the scheme: user information up to the last at-sign, host and port up to the first slash, database.\<close>

definition options_of :: "string \<Rightarrow> string \<Rightarrow> string + redis_options" where
  "options_of url remainder =
     (let (authority, q) = (case split_at_last (CHR ''@'') remainder of
            None \<Rightarrow> (remainder, default_redis_options)
          | Some (info, a) \<Rightarrow> (a, with_userinfo info default_redis_options));
          (hostport, db) = (case split_at_first (CHR ''/'') authority of
            None \<Rightarrow> (authority, []) | Some parts \<Rightarrow> parts)
      in step_url (with_database url db q) (\<lambda>q1.
         step_url (case hostport of
                     c # _ \<Rightarrow> (if c = CHR ''['' then with_bracketed_host hostport q1 else with_plain_host url hostport q1)
                   | [] \<Rightarrow> with_plain_host url hostport q1) (checked_options url)))"

definition options_from_url :: "string \<Rightarrow> string + redis_options" where
  "options_from_url url =
     (if take 8 url = ''redis://'' then options_of url (drop 8 url)
      else if take 9 url = ''rediss://'' then
        Inl (''rediss:// (TLS) is not supported by the built-in socket client; '' @
             ''terminate TLS with a proxy or inject an IRedisClient that supports it'')
      else Inl (''expected a redis:// URL, got '' @ quoted url))"

definition describe_options :: "redis_options \<Rightarrow> string" where
  "describe_options q =
     rq_host q @ '':'' @ int_str (rq_port q) @ ''/'' @ int_str (rq_database q) @
     (if rq_username q = [] then [] else '' user='' @ rq_username q) @ (if rq_password q = [] then [] else '' auth=yes'')"

section \<open>Clients\<close>

record 'w redis_client =
  rc_command :: "string list \<Rightarrow> (rvalue, 'w) act"
  rc_pipeline :: "string list list \<Rightarrow> (rvalue list, 'w) act"

definition refuse_without_client :: "string \<Rightarrow> ('a, 'w) act" where
  "refuse_without_client verb =
     raises (sapo_error NotImplemented
       (''no Redis client is available (tried '' @ quoted verb @ ''): build with -DSAPO_ENABLE_REDIS=ON, '' @
        ''or inject an IRedisClient (e.g. a hiredis/redis-plus-plus adapter) into RedisStateStore'') JNull [])"

definition verb_of :: "string list \<Rightarrow> string" where
  "verb_of args = (case args of [] \<Rightarrow> ''<empty>'' | v # _ \<Rightarrow> v)"

definition null_client :: "'w redis_client" where
  "null_client =
     \<lparr>rc_command = (\<lambda>args. refuse_without_client (verb_of args)),
      rc_pipeline = (\<lambda>cs. case cs of [] \<Rightarrow> yields [] | c # _ \<Rightarrow> refuse_without_client (verb_of c))\<rparr>"

end
