(* ===== verification/Sapo_Resp.thy ===== *)
theory Sapo_Resp
  imports Sapo_Redis
begin

text \<open>
  The wire protocol of the socket client (\<open>src/src/redis/SocketRedisClient.cpp\<close>): the encoding of commands, the reader
  of replies over the bytes that arrive, one retry on a fresh connection, and the pool's book-keeping.  A connection
  is its unread bytes and what the socket will deliver; opening sockets is the operating system's.
\<close>

section \<open>What arrives\<close>

datatype feed = Bytes string | Hangup | Stalled | Failing string

record wire =
  wi_pending :: string
  wi_feed :: "feed list"
  wi_broken :: bool

definition fail_broken :: "string \<Rightarrow> ('a, wire) act" where
  "fail_broken message = (\<lambda>s. (Thr (store_error message), s\<lparr>wi_broken := True\<rparr>))"

definition timed_out :: "redis_options \<Rightarrow> string \<Rightarrow> int \<Rightarrow> sapo_error" where
  "timed_out q what ms =
     sapo_error Timeout (what @ '' timed out after '' @ int_str ms @ ''ms against '' @ describe_options q) JNull []"

definition fill_buffer :: "redis_options \<Rightarrow> (bool, wire) act" where
  "fill_buffer q s =
     (case wi_feed s of
        Bytes b # fs \<Rightarrow>
          (if b = [] then (Val False, s\<lparr>wi_broken := True\<rparr>)
           else (Val True, s\<lparr>wi_pending := wi_pending s @ b, wi_feed := fs\<rparr>))
      | Stalled # fs \<Rightarrow>
          (Thr (timed_out q (''redis read from '' @ describe_options q) (rq_socket_timeout_ms q)), s\<lparr>wi_broken := True\<rparr>)
      | Failing what # fs \<Rightarrow> fail_broken (''redis read from '' @ describe_options q @ '' failed: '' @ what) s
      | _ \<Rightarrow> (Val False, s\<lparr>wi_broken := True\<rparr>))"

definition crlf :: string where
  "crlf = [CHR 0x0D, CHR 0x0A]"

fun split_line :: "string \<Rightarrow> (string \<times> string) option" where
  "split_line (a # b # r) =
     (if a = CHR 0x0D \<and> b = CHR 0x0A then Some ([], r) else map_option (\<lambda>(l, r'). (a # l, r')) (split_line (b # r)))"
| "split_line _ = None"

lemma fill_shrinks: "fill_buffer q s = (Val True, t) \<Longrightarrow> length (wi_feed t) < length (wi_feed s)"
  by (auto simp: fill_buffer_def fail_broken_def split: list.splits feed.splits if_splits)

text \<open>A line is waited for; \<open>None\<close> when the peer closes before its end.\<close>

function read_line :: "redis_options \<Rightarrow> (string option, wire) act" where
  "read_line q s =
     (case split_line (wi_pending s) of
        Some (l, r) \<Rightarrow>
          (if rq_max_command_bytes q < length l
           then fail_broken (''redis reply line exceeds '' @ int_str (int (rq_max_command_bytes q)) @ '' bytes'') s
           else (Val (Some l), s\<lparr>wi_pending := r\<rparr>))
      | None \<Rightarrow>
          (case fill_buffer q s of
             (Val True, t) \<Rightarrow> read_line q t
           | (Val False, t) \<Rightarrow> (Val None, t)
           | (Thr e, t) \<Rightarrow> (Thr e, t) | (Crash, t) \<Rightarrow> (Crash, t) | (Deep, t) \<Rightarrow> (Deep, t)))"
  by pat_completeness auto

termination read_line
  by (relation "measure (\<lambda>(q, s). length (wi_feed s))") (auto dest!: fill_shrinks [OF sym])

function read_exact :: "redis_options \<Rightarrow> nat \<Rightarrow> (string option, wire) act" where
  "read_exact q n s =
     (if n \<le> length (wi_pending s) then (Val (Some (take n (wi_pending s))), s\<lparr>wi_pending := drop n (wi_pending s)\<rparr>)
      else case fill_buffer q s of
             (Val True, t) \<Rightarrow> read_exact q n t
           | (Val False, t) \<Rightarrow> (Val None, t)
           | (Thr e, t) \<Rightarrow> (Thr e, t) | (Crash, t) \<Rightarrow> (Crash, t) | (Deep, t) \<Rightarrow> (Deep, t))"
  by pat_completeness auto

termination read_exact
  by (relation "measure (\<lambda>(q, n, s). length (wi_feed s))") (auto dest!: fill_shrinks [OF sym])

declare read_line.simps [simp del] read_exact.simps [simp del]

section \<open>Replies\<close>

definition max_reply_depth :: nat where
  "max_reply_depth = 32"

definition max_array_elements :: int where
  "max_array_elements = 4 * 1024 * 1024"

definition read_integer :: "string \<Rightarrow> (rvalue, wire) act" where
  "read_integer payload =
     (case sto_int 64 payload of
        Some (n, _) \<Rightarrow> yields (RInt n)
      | None \<Rightarrow> fail_broken (''redis sent a malformed integer reply '' @ quoted (CHR '':'' # payload)))"

definition read_bulk :: "redis_options \<Rightarrow> string \<Rightarrow> (rvalue, wire) act" where
  "read_bulk q payload =
     (case sto_int 64 payload of
        None \<Rightarrow> fail_broken (''redis sent a malformed bulk length '' @ quoted (CHR ''$'' # payload))
      | Some (n, _) \<Rightarrow>
          (if n = - 1 then yields RNil
           else if n < - 1 then fail_broken (''redis sent a negative bulk length '' @ quoted (CHR ''$'' # payload))
           else if int (rq_max_command_bytes q) < n then
             fail_broken (''redis reply of '' @ int_str n @ '' bytes exceeds the '' @ int_str (int (rq_max_command_bytes q)) @
               ''-byte guard (runaway value?)'')
           else andthen (read_exact q (nat n + 2)) (\<lambda>d.
             case d of
               None \<Rightarrow> fail_broken (''redis at '' @ describe_options q @ '' closed the connection inside a bulk reply'')
             | Some t \<Rightarrow> yields (RBulk (take (nat n) t)))))"

fun read_reply_at :: "redis_options \<Rightarrow> nat \<Rightarrow> (rvalue, wire) act" where
  "read_reply_at q 0 =
     fail_broken (''redis reply nested deeper than '' @ int_str (int max_reply_depth) @ '' levels'')"
| "read_reply_at q (Suc k) =
     andthen (read_line q) (\<lambda>l.
       case l of
         None \<Rightarrow> fail_broken (''redis at '' @ describe_options q @ '' closed the connection mid-reply'')
       | Some [] \<Rightarrow> fail_broken (''redis at '' @ describe_options q @ '' sent an empty RESP line'')
       | Some (c # payload) \<Rightarrow>
           (if c = CHR ''+'' then yields (RStatus payload)
            else if c = CHR ''-'' then yields (RError payload)
            else if c = CHR '':'' then read_integer payload
            else if c = CHR ''$'' then read_bulk q payload
            else if c = CHR ''*'' then
              (case sto_int 64 payload of
                 None \<Rightarrow> fail_broken (''redis sent a malformed array length '' @ quoted (CHR ''*'' # payload))
               | Some (n, _) \<Rightarrow>
                   (if n = - 1 then yields RNil
                    else if n < - 1 \<or> max_array_elements < n then
                      fail_broken (''redis sent an implausible array length '' @ quoted (CHR ''*'' # payload))
                    else andthen (in_turn (replicate (nat n) (read_reply_at q k))) (\<lambda>vs. yields (RArr vs))))
            else fail_broken (''redis sent an unsupported RESP type byte '' @ quoted [c] @ '' (RESP3? inline reply?)'')))"

definition read_reply :: "redis_options \<Rightarrow> (rvalue, wire) act" where
  "read_reply q = read_reply_at q (Suc max_reply_depth)"

section \<open>Commands\<close>

definition framed :: "string \<Rightarrow> string" where
  "framed t = CHR ''$'' # int_str (int (length t)) @ crlf @ t @ crlf"

definition encode_command :: "string list \<Rightarrow> string" where
  "encode_command args = CHR ''*'' # int_str (int (length args)) @ crlf @ concat (map framed args)"

text \<open>The protocol's own encoding of a reply, as a server sends it.\<close>

fun encode_reply :: "rvalue \<Rightarrow> string" where
  "encode_reply RNil = CHR ''$'' # int_str (- 1) @ crlf"
| "encode_reply (RStatus t) = CHR ''+'' # t @ crlf"
| "encode_reply (RError t) = CHR ''-'' # t @ crlf"
| "encode_reply (RInt n) = CHR '':'' # int_str n @ crlf"
| "encode_reply (RBulk t) = framed t"
| "encode_reply (RArr vs) = CHR ''*'' # int_str (int (length vs)) @ crlf @ concat (map encode_reply vs)"

text \<open>The replies the client reads: lines without a line end, numbers of 64 bits, sizes and nesting under the guards.\<close>

fun readable :: "redis_options \<Rightarrow> nat \<Rightarrow> rvalue \<Rightarrow> bool" where
  "readable q k RNil = (0 < k \<and> 3 \<le> rq_max_command_bytes q)"
| "readable q k (RStatus t) = (0 < k \<and> split_line t = None \<and> length t < rq_max_command_bytes q)"
| "readable q k (RError t) = (0 < k \<and> split_line t = None \<and> length t < rq_max_command_bytes q)"
| "readable q k (RInt n) = (0 < k \<and> - (2 ^ 63) \<le> n \<and> n < 2 ^ 63 \<and> 20 < rq_max_command_bytes q)"
| "readable q k (RBulk t) = (0 < k \<and> length t \<le> rq_max_command_bytes q \<and> int (length t) < 2 ^ 63 \<and> 20 < rq_max_command_bytes q)"
| "readable q k (RArr vs) =
     (0 < k \<and> int (length vs) \<le> max_array_elements \<and> 20 < rq_max_command_bytes q \<and> list_all (readable q (k - 1)) vs)"

text \<open>A command is the protocol's array of bulk strings.\<close>

lemma encode_command_reply: "encode_command args = encode_reply (RArr (map RBulk args))"
  by (simp add: encode_command_def comp_def)

section \<open>The reader over any arrival of the bytes\<close>

fun arrives :: "feed list \<Rightarrow> string" where
  "arrives (Bytes b # fs) = (if b = [] then [] else b @ arrives fs)"
| "arrives _ = []"

definition stream :: "wire \<Rightarrow> string" where
  "stream s = wi_pending s @ arrives (wi_feed s)"

lemma split_line_append: "split_line p = Some (l, r) \<Longrightarrow> split_line (p @ x) = Some (l, r @ x)"
  by (induction p arbitrary: l r rule: split_line.induct) (auto split: if_splits)

lemma split_line_crlf: "split_line t = None \<Longrightarrow> split_line (t @ crlf @ r) = Some (t, r)"
  by (induction t rule: split_line.induct) (auto simp: crlf_def split: if_splits)

lemma fill_stream:
  assumes "arrives (wi_feed s) \<noteq> []"
  shows "\<exists>t. fill_buffer q s = (Val True, t) \<and> stream t = stream s \<and> wi_broken t = wi_broken s"
  using assms by (auto simp: fill_buffer_def stream_def split: list.splits feed.splits elim!: arrives.elims)

lemma read_line_stream:
  "split_line (stream s) = Some (l, r) \<Longrightarrow> length l \<le> rq_max_command_bytes q \<Longrightarrow>
   \<exists>t. read_line q s = (Val (Some l), t) \<and> stream t = r \<and> wi_broken t = wi_broken s"
proof (induction q s rule: read_line.induct)
  case (1 q s)
  show ?case
  proof (cases "split_line (wi_pending s)")
    case None
    then have "arrives (wi_feed s) \<noteq> []" using 1(2) by (auto simp: stream_def)
    from fill_stream [OF this] obtain t where
      t: "fill_buffer q s = (Val True, t)" "stream t = stream s" "wi_broken t = wi_broken s" by blast
    have "\<exists>u. read_line q t = (Val (Some l), u) \<and> stream u = r \<and> wi_broken u = wi_broken t"
      by (rule 1(1) [OF None t(1) [symmetric]]) (use 1(2,3) t(2) in auto)
    with None t show ?thesis by (simp add: read_line.simps [of q s])
  next
    case (Some lr)
    obtain l' r' where lr: "lr = (l', r')" by (cases lr)
    with Some split_line_append [of "wi_pending s" l' r' "arrives (wi_feed s)"] 1(2)
    have "l' = l" "r = r' @ arrives (wi_feed s)" by (auto simp: stream_def)
    with Some lr 1(3) show ?thesis by (simp add: read_line.simps [of q s] stream_def)
  qed
qed

lemma read_exact_stream:
  "stream s = a @ r \<Longrightarrow> length a = n \<Longrightarrow>
   \<exists>t. read_exact q n s = (Val (Some a), t) \<and> stream t = r \<and> wi_broken t = wi_broken s"
proof (induction q n s rule: read_exact.induct)
  case (1 q n s)
  show ?case
  proof (cases "n \<le> length (wi_pending s)")
    case True
    then have "take n (stream s) = take n (wi_pending s)" "drop n (stream s) = drop n (wi_pending s) @ arrives (wi_feed s)"
      by (simp_all add: stream_def)
    with True 1(2,3) show ?thesis by (simp add: read_exact.simps [of q n s] stream_def)
  next
    case False
    then have "arrives (wi_feed s) \<noteq> []" using 1(2,3) by (auto simp: stream_def)
    from fill_stream [OF this] obtain t where
      t: "fill_buffer q s = (Val True, t)" "stream t = stream s" "wi_broken t = wi_broken s" by blast
    have "\<exists>u. read_exact q n t = (Val (Some a), u) \<and> stream u = r \<and> wi_broken u = wi_broken t"
      by (rule 1(1) [OF False t(1) [symmetric]]) (use 1(2,3) t(2) in auto)
    with False t show ?thesis by (simp add: read_exact.simps [of q n s])
  qed
qed

lemma split_line_plain: "CHR 0x0D \<notin> set t \<Longrightarrow> split_line t = None"
  by (induction t rule: split_line.induct) auto

lemma split_line_Cons: "c \<noteq> CHR 0x0D \<Longrightarrow> split_line t = None \<Longrightarrow> split_line (c # t) = None"
  by (cases t) auto

lemma nat_digits_length: "n < 10 ^ k \<Longrightarrow> 0 < k \<Longrightarrow> length (nat_digits n) \<le> k"
proof (induction n arbitrary: k rule: nat_digits.induct)
  case (1 n)
  show ?case
  proof (cases "n < 10")
    case False
    obtain j where k: "k = Suc j" using 1(3) by (cases k) auto
    have j: "0 < j" using False 1(2) k by (cases j) auto
    have "n div 10 < 10 ^ j" using 1(2) k by (simp add: div_less_iff_less_mult mult.commute)
    from 1(1) [OF False this j] False k show ?thesis by (simp add: nat_digits.simps [of n])
  qed (use 1 in \<open>simp add: nat_digits.simps [of n]\<close>)
qed

lemma int_str_length: "- (2 ^ 63) \<le> n \<Longrightarrow> n < 2 ^ 63 \<Longrightarrow> length (int_str n) \<le> 20"
proof -
  assume n: "- (2 ^ 63) \<le> n" "n < 2 ^ 63"
  have "nat \<bar>n\<bar> < 10 ^ 19" using n by (auto simp: nat_less_iff)
  from nat_digits_length [OF this] show ?thesis by (auto simp: int_str_def)
qed

lemma split_line_int_str: "split_line (int_str n) = None"
proof (rule split_line_plain)
  show "CHR 0x0D \<notin> set (int_str n)"
    using nat_digits_digits [of "CHR 0x0D"] by (auto simp: int_str_def is_digit_def byte_def)
qed

lemma in_turn_stream:
  assumes "\<And>v s r. v \<in> set vs \<Longrightarrow> stream s = enc v @ r \<Longrightarrow> \<exists>t. m s = (Val v, t) \<and> stream t = r \<and> wi_broken t = wi_broken s"
  shows "stream s = concat (map enc vs) @ r \<Longrightarrow>
    \<exists>t. in_turn (replicate (length vs) m) s = (Val vs, t) \<and> stream t = r \<and> wi_broken t = wi_broken s"
  using assms
proof (induction vs arbitrary: s)
  case (Cons v vs)
  from Cons.prems(2) [of v s "concat (map enc vs) @ r"] Cons.prems(1) obtain t where
    t: "m s = (Val v, t)" "stream t = concat (map enc vs) @ r" "wi_broken t = wi_broken s" by auto
  from Cons.IH [OF t(2)] Cons.prems(2) obtain u where
    "in_turn (replicate (length vs) m) t = (Val vs, u)" "stream u = r" "wi_broken u = wi_broken t" by auto
  with t show ?case by simp
qed simp

text \<open>The type line of a reply.\<close>

lemma read_head:
  assumes "stream s = c # body @ crlf @ r" and "c \<noteq> CHR 0x0D" and "split_line body = None"
    and "length body < rq_max_command_bytes q"
  shows "\<exists>t. read_line q s = (Val (Some (c # body)), t) \<and> stream t = r \<and> wi_broken t = wi_broken s"
proof (rule read_line_stream)
  show "split_line (stream s) = Some (c # body, r)"
    using split_line_crlf [OF split_line_Cons [OF assms(2,3)], of r] assms(1) by simp
qed (use assms(4) in simp)

lemma read_number_head:
  assumes "stream s = c # int_str n @ crlf @ r" and "c \<noteq> CHR 0x0D" and "- (2 ^ 63) \<le> n" "n < 2 ^ 63"
    and "20 < rq_max_command_bytes q"
  shows "\<exists>t. read_line q s = (Val (Some (c # int_str n)), t) \<and> stream t = r \<and> wi_broken t = wi_broken s"
  by (rule read_head [OF assms(1,2) split_line_int_str]) (use int_str_length [OF assms(3,4)] assms(5) in simp)

lemma sto_int_64: "- (2 ^ 63) \<le> n \<Longrightarrow> n < 2 ^ 63 \<Longrightarrow> sto_int 64 (int_str n) = Some (n, length (int_str n))"
  by (rule sto_int_int_str) simp_all

lemma read_bulk_stream:
  assumes "stream s = t @ crlf @ r" and "length t \<le> rq_max_command_bytes q" and "int (length t) < 2 ^ 63"
  shows "\<exists>u. read_bulk q (int_str (int (length t))) s = (Val (RBulk t), u) \<and> stream u = r \<and> wi_broken u = wi_broken s"
proof -
  have "stream s = (t @ crlf) @ r" "length (t @ crlf) = length t + 2" using assms(1) by (simp_all add: crlf_def)
  from read_exact_stream [OF this] obtain u where
    "read_exact q (length t + 2) s = (Val (Some (t @ crlf)), u)" "stream u = r" "wi_broken u = wi_broken s" by blast
  moreover have "sto_int 64 (int_str (int (length t))) = Some (int (length t), length (int_str (int (length t))))"
    by (rule sto_int_64) (use assms(3) in simp_all)
  ultimately show ?thesis using assms(2) by (simp add: read_bulk_def)
qed

lemma read_reply_stream:
  "readable q k v \<Longrightarrow> stream s = encode_reply v @ r \<Longrightarrow>
   \<exists>t. read_reply_at q k s = (Val v, t) \<and> stream t = r \<and> wi_broken t = wi_broken s"
proof (induction v arbitrary: k s r)
  case RNil
  then obtain j where k: "k = Suc j" by (cases k) auto
  have one: "int_str (- 1) = ''-1''" by code_simp
  from RNil have "stream s = CHR ''$'' # ''-1'' @ crlf @ r" by (simp add: one)
  then have "\<exists>t. read_line q s = (Val (Some (CHR ''$'' # ''-1'')), t) \<and> stream t = r \<and> wi_broken t = wi_broken s"
    by (rule read_head) (use RNil(1) in auto)
  then obtain t where
    "read_line q s = (Val (Some (CHR ''$'' # int_str (- 1))), t)" "stream t = r" "wi_broken t = wi_broken s"
    unfolding one by auto
  with k sto_int_64 [of "- 1"] show ?case by (simp add: read_bulk_def)
next
  case (RStatus x)
  then obtain j where k: "k = Suc j" by (cases k) auto
  from RStatus read_head [of s "CHR ''+''" x r q] obtain t where
    "read_line q s = (Val (Some (CHR ''+'' # x)), t)" "stream t = r" "wi_broken t = wi_broken s" by auto
  with k show ?case by simp
next
  case (RError x)
  then obtain j where k: "k = Suc j" by (cases k) auto
  from RError read_head [of s "CHR ''-''" x r q] obtain t where
    "read_line q s = (Val (Some (CHR ''-'' # x)), t)" "stream t = r" "wi_broken t = wi_broken s" by auto
  with k show ?case by simp
next
  case (RInt n)
  then obtain j where k: "k = Suc j" by (cases k) auto
  from RInt read_number_head [of s "CHR '':''" n r q] obtain t where
    "read_line q s = (Val (Some (CHR '':'' # int_str n)), t)" "stream t = r" "wi_broken t = wi_broken s" by auto
  with k RInt(1) sto_int_64 [of n] show ?case by (simp add: read_integer_def)
next
  case (RBulk x)
  then obtain j where k: "k = Suc j" by (cases k) auto
  from RBulk read_number_head [of s "CHR ''$''" "int (length x)" "x @ crlf @ r" q] obtain t where
    t: "read_line q s = (Val (Some (CHR ''$'' # int_str (int (length x)))), t)" "stream t = x @ crlf @ r"
      "wi_broken t = wi_broken s" by (auto simp: framed_def)
  from read_bulk_stream [OF t(2)] RBulk(1) t(3) obtain u where
    "read_bulk q (int_str (int (length x))) t = (Val (RBulk x), u)" "stream u = r" "wi_broken u = wi_broken s" by auto
  with k t(1) show ?case by simp
next
  case (RArr vs)
  then obtain j where k: "k = Suc j" by (cases k) auto
  have len: "int (length vs) \<le> max_array_elements" using RArr.prems(1) by simp
  then have small: "int (length vs) < 2 ^ 63" by (simp add: max_array_elements_def)
  from RArr.prems small read_number_head [of s "CHR ''*''" "int (length vs)" "concat (map encode_reply vs) @ r" q] obtain t where
    t: "read_line q s = (Val (Some (CHR ''*'' # int_str (int (length vs)))), t)" "stream t = concat (map encode_reply vs) @ r"
      "wi_broken t = wi_broken s" by auto
  have "\<exists>u. read_reply_at q j s' = (Val v, u) \<and> stream u = r' \<and> wi_broken u = wi_broken s'"
    if "v \<in> set vs" "stream s' = encode_reply v @ r'" for v s' r'
    by (rule RArr.IH [OF that(1) _ that(2)]) (use RArr.prems(1) k that(1) in \<open>simp add: list_all_iff\<close>)
  from in_turn_stream [OF this t(2)] obtain u where
    "in_turn (replicate (length vs) (read_reply_at q j)) t = (Val vs, u)" "stream u = r" "wi_broken u = wi_broken t" by blast
  with k t(1,3) len sto_int_64 [OF _ small] show ?case by simp
qed

section \<open>Two attempts\<close>

text \<open>One attempt on a leased connection: the lease goes back, marked broken when the body failed.\<close>

definition leased_attempt ::
    "('c, 'w) act \<Rightarrow> ('c \<Rightarrow> bool \<Rightarrow> (unit, 'w) act) \<Rightarrow> ('c \<Rightarrow> ('a, 'w) act) \<Rightarrow> ('a ev, 'w) act" where
  "leased_attempt lease give body =
     andthen lease (\<lambda>c s. case body c s of
       (r, t) \<Rightarrow> andthen (give c (case r of Val _ \<Rightarrow> False | _ \<Rightarrow> True)) (\<lambda>_. yields r) t)"

definition retried :: "'a ev \<Rightarrow> bool" where
  "retried r \<longleftrightarrow> (case r of Val _ \<Rightarrow> False | Thr e \<Rightarrow> se_code e = Store | _ \<Rightarrow> True)"

definition with_retry ::
    "('c, 'w) act \<Rightarrow> ('c \<Rightarrow> bool \<Rightarrow> (unit, 'w) act) \<Rightarrow> ('c \<Rightarrow> ('a, 'w) act) \<Rightarrow> ('a, 'w) act" where
  "with_retry lease give body =
     andthen (leased_attempt lease give body) (\<lambda>r.
       if retried r then andthen (leased_attempt lease give body) (\<lambda>r' s. (r', s)) else (\<lambda>s. (r, s)))"

definition no_arguments :: sapo_error where
  "no_arguments = store_error ''cannot send an empty redis command''"

definition socket_command ::
    "('c, 'w) act \<Rightarrow> ('c \<Rightarrow> bool \<Rightarrow> (unit, 'w) act) \<Rightarrow> ('c \<Rightarrow> string \<Rightarrow> (unit, 'w) act) \<Rightarrow> ('c \<Rightarrow> (rvalue, 'w) act)
      \<Rightarrow> string list \<Rightarrow> (rvalue, 'w) act" where
  "socket_command lease give send receive args =
     (if args = [] then raises no_arguments
      else with_retry lease give (\<lambda>c. andthen (send c (encode_command args)) (\<lambda>_. receive c)))"

definition socket_pipeline ::
    "('c, 'w) act \<Rightarrow> ('c \<Rightarrow> bool \<Rightarrow> (unit, 'w) act) \<Rightarrow> ('c \<Rightarrow> string \<Rightarrow> (unit, 'w) act) \<Rightarrow> ('c \<Rightarrow> (rvalue, 'w) act)
      \<Rightarrow> string list list \<Rightarrow> (rvalue list, 'w) act" where
  "socket_pipeline lease give send receive cs =
     (if cs = [] then yields []
      else if [] \<in> set cs then raises no_arguments
      else with_retry lease give (\<lambda>c. andthen (send c (concat (map encode_command cs)))
             (\<lambda>_. in_turn (map (\<lambda>_. receive c) cs))))"

text \<open>The greeting of a fresh connection: what is sent, with its name in messages, and whether a refusal is tolerated.\<close>

definition handshake :: "redis_options \<Rightarrow> (string list \<times> string \<times> bool) list" where
  "handshake q =
     (if rq_password q = [] then []
      else [(''AUTH'' # (if rq_username q = [] then [] else [rq_username q]) @ [rq_password q], ''AUTH'', False)]) @
     (if rq_database q = 0 then [] else [([''SELECT'', int_str (rq_database q)], ''SELECT'', False)]) @
     (if rq_client_name q = [] then [] else [([''CLIENT'', ''SETNAME'', rq_client_name q], ''CLIENT SETNAME'', True)])"

definition expect_status ::
    "(string \<Rightarrow> (unit, 'w) act) \<Rightarrow> (rvalue, 'w) act \<Rightarrow> string list \<times> string \<times> bool \<Rightarrow> (unit, 'w) act" where
  "expect_status send receive step =
     (case step of (args, what, tolerate) \<Rightarrow>
        andthen (send (encode_command args)) (\<lambda>_.
        andthen receive (\<lambda>r.
          if is_error_reply r \<and> tolerate then yields () else throw_if_error (''redis '' @ what @ '' failed'') r)))"

definition greet :: "redis_options \<Rightarrow> (string \<Rightarrow> (unit, 'w) act) \<Rightarrow> (rvalue, 'w) act \<Rightarrow> (unit, 'w) act" where
  "greet q send receive = each (expect_status send receive) (handshake q)"

section \<open>The pool\<close>

text \<open>\<open>po_live\<close> is the counter of the source; \<open>po_leased\<close> are the connections handed out, which it does not keep.\<close>

record pool =
  po_idle :: "nat list"
  po_live :: nat
  po_shutdown :: bool
  po_leased :: "nat list"
  po_next :: nat

definition new_pool :: pool where
  "new_pool = \<lparr>po_idle = [], po_live = 0, po_shutdown = False, po_leased = [], po_next = 0\<rparr>"

datatype acquired = Idle nat | Opened nat | Wait | Refused

definition acquire :: "redis_options \<Rightarrow> pool \<Rightarrow> acquired \<times> pool" where
  "acquire q p =
     (if po_shutdown p then (Refused, p)
      else case po_idle p of
        c # cs \<Rightarrow> (Idle c, p\<lparr>po_idle := cs, po_leased := c # po_leased p\<rparr>)
      | [] \<Rightarrow>
          (if po_live p < max 1 (rq_pool_size q)
           then (Opened (po_next p),
                 p\<lparr>po_live := po_live p + 1, po_leased := po_next p # po_leased p, po_next := po_next p + 1\<rparr>)
           else (Wait, p)))"

text \<open>Opening failed: the reserved slot is given back.\<close>

definition open_failed :: "nat \<Rightarrow> pool \<Rightarrow> pool" where
  "open_failed c p = p\<lparr>po_live := po_live p - 1, po_leased := remove1 c (po_leased p)\<rparr>"

definition release :: "nat \<Rightarrow> bool \<Rightarrow> pool \<Rightarrow> pool" where
  "release c broken p =
     p\<lparr>po_live := po_live p - 1, po_idle := (if \<not> broken \<and> \<not> po_shutdown p then po_idle p @ [c] else po_idle p),
       po_leased := remove1 c (po_leased p)\<rparr>"

inductive pool_step :: "redis_options \<Rightarrow> pool \<Rightarrow> pool \<Rightarrow> bool" for q where
  acquires: "acquire q p = (r, p') \<Longrightarrow> pool_step q p p'"
| fails: "c \<in> set (po_leased p) \<Longrightarrow> pool_step q p (open_failed c p)"
| releases: "c \<in> set (po_leased p) \<Longrightarrow> pool_step q p (release c broken p)"

lemma live_bounded: "pool_step q p p' \<Longrightarrow> po_live p \<le> max 1 (rq_pool_size q) \<Longrightarrow> po_live p' \<le> max 1 (rq_pool_size q)"
  by (induction rule: pool_step.induct) (auto simp: acquire_def release_def open_failed_def split: if_splits list.splits)

text \<open>Opening, giving back and taking the idle connection again leaves one more connection leased and the counter
  where it was: the counter forgets a connection that was idle once.\<close>

lemma one_more_lease:
  assumes "po_idle p = []" and "po_live p = 0" and "\<not> po_shutdown p"
  shows "\<exists>p'. (pool_step q)\<^sup>*\<^sup>* p p' \<and> po_idle p' = [] \<and> po_live p' = 0 \<and> \<not> po_shutdown p' \<and>
    length (po_leased p') = Suc (length (po_leased p))"
proof -
  let ?c = "po_next p"
  let ?p1 = "p\<lparr>po_live := 1, po_leased := ?c # po_leased p, po_next := ?c + 1\<rparr>"
  let ?p2 = "release ?c False ?p1"
  let ?p3 = "?p2\<lparr>po_idle := [], po_leased := ?c # po_leased ?p2\<rparr>"
  have 1: "pool_step q p ?p1"
    by (rule pool_step.acquires [of q p "Opened ?c"]) (use assms in \<open>simp add: acquire_def\<close>)
  have 2: "pool_step q ?p1 ?p2" by (rule pool_step.releases) simp
  have 3: "pool_step q ?p2 ?p3"
    by (rule pool_step.acquires [of q ?p2 "Idle ?c"]) (use assms in \<open>simp add: acquire_def release_def\<close>)
  have "(pool_step q)\<^sup>*\<^sup>* p ?p1" using 1 by (rule r_into_rtranclp)
  then have "(pool_step q)\<^sup>*\<^sup>* p ?p2" using 2 by (rule rtranclp.rtrancl_into_rtrancl)
  then have steps: "(pool_step q)\<^sup>*\<^sup>* p ?p3" using 3 by (rule rtranclp.rtrancl_into_rtrancl)
  show ?thesis
  proof (rule exI [where x = ?p3], rule conjI [OF steps], intro conjI)
    show "po_idle ?p3 = []" "po_live ?p3 = 0" "\<not> po_shutdown ?p3" "length (po_leased ?p3) = Suc (length (po_leased p))"
      using assms by (simp_all add: release_def)
  qed
qed

section \<open>Properties\<close>

text \<open>
  C23: Replies survive the wire: however the bytes of a reply are cut into pieces on their way, the reader gives back the
  reply that was encoded, takes exactly its bytes, and leaves the connection usable.
\<close>

theorem replies_survive_the_wire:
  assumes "readable q (Suc max_reply_depth) v" and "stream s = encode_reply v @ rest"
  shows "\<exists>t. read_reply q s = (Val v, t) \<and> stream t = rest \<and> wi_broken t = wi_broken s"
  unfolding read_reply_def by (rule read_reply_stream [OF assms])

theorem replies_survive_the_wire_witness:
  "\<exists>t. read_reply default_redis_options
      \<lparr>wi_pending = [], wi_feed = [Bytes ''*2'', Bytes crlf, Bytes ''$3'', Bytes crlf, Bytes ''a:b'', Bytes crlf, Bytes '':7'',
         Bytes crlf, Bytes ''+OK''], wi_broken = False\<rparr> = (Val (RArr [RBulk ''a:b'', RInt 7]), t) \<and> stream t = ''+OK'' \<and> \<not> wi_broken t"
proof -
  have ok: "readable default_redis_options (Suc max_reply_depth) (RArr [RBulk ''a:b'', RInt 7])"
    by (simp add: default_redis_options_def max_reply_depth_def max_array_elements_def)
  have "encode_reply (RArr [RBulk ''a:b'', RInt 7]) =
      ''*2'' @ crlf @ ''$3'' @ crlf @ ''a:b'' @ crlf @ '':7'' @ crlf" by code_simp
  then have bytes: "stream \<lparr>wi_pending = [], wi_feed = [Bytes ''*2'', Bytes crlf, Bytes ''$3'', Bytes crlf, Bytes ''a:b'', Bytes crlf,
      Bytes '':7'', Bytes crlf, Bytes ''+OK''], wi_broken = False\<rparr> = encode_reply (RArr [RBulk ''a:b'', RInt 7]) @ ''+OK''"
    by (simp add: stream_def crlf_def)
  show ?thesis using replies_survive_the_wire [OF ok bytes] by simp
qed

text \<open>
  C33: The pool's limit does not hold: with any pool size, also one, the threads can come to hold any number of connections
  at once, because a connection that comes back is taken off the counter though it stays open.
\<close>

theorem pool_outgrows_its_size: "\<exists>p. (pool_step q)\<^sup>*\<^sup>* new_pool p \<and> length (po_leased p) = n"
proof -
  have "\<exists>p. (pool_step q)\<^sup>*\<^sup>* new_pool p \<and> po_idle p = [] \<and> po_live p = 0 \<and> \<not> po_shutdown p \<and> length (po_leased p) = n"
  proof (induction n)
    case (Suc n)
    then obtain p where p: "(pool_step q)\<^sup>*\<^sup>* new_pool p" "po_idle p = []" "po_live p = 0" "\<not> po_shutdown p"
      "length (po_leased p) = n" by blast
    from one_more_lease [OF p(2-4), of q] obtain p' where
      p': "(pool_step q)\<^sup>*\<^sup>* p p'" "po_idle p' = []" "po_live p' = 0" "\<not> po_shutdown p'"
      "length (po_leased p') = Suc n" unfolding p(5) by blast
    from rtranclp_trans [OF p(1) p'(1)] p'(2-5) show ?case by blast
  qed (auto simp: new_pool_def)
  then show ?thesis by blast
qed

text \<open>
  A command is tried at most twice: the second attempt follows only a failure that is no engine error other than a
  store error, so a timeout is reported after one attempt.
\<close>

theorem timeout_is_not_retried:
  assumes "lease s = (Val c, s1)" and "body c s1 = (Thr e, s2)" and "give c True s2 = (Val (), s3)" and "se_code e \<noteq> Store"
  shows "with_retry lease give body s = (Thr e, s3)"
  using assms by (simp add: with_retry_def leased_attempt_def andthen_def retried_def)

end
