(* ===== verification/Sapo_MockRedis.thy ===== *)
theory Sapo_MockRedis
  imports Sapo_Redis Sapo_Http
begin

text \<open>
  The in-memory Redis (\<open>src/src/redis/MockRedisClient.cpp\<close>, \<open>.hpp\<close>): its keyspace with lazy expiry, one definition
  per verb, the mirrors of the two Lua scripts of the state store, the dispatch and the test hooks.  The order of the
  hash table is never observable (\<open>SCAN\<close> sorts), so the keyspace is an association list; the C++ sums of clock and
  expiry are taken without overflow, which is undefined there.
\<close>

section \<open>Reading numbers and patterns\<close>

definition parse_int :: "int \<Rightarrow> string \<Rightarrow> int" where
  "parse_int d t = (case whole_int t of Some n \<Rightarrow> n | None \<Rightarrow> d)"

definition parse_double :: "string \<Rightarrow> dbl" where
  "parse_double t = (case stod t of Number x n \<Rightarrow> (if n = length t then x else DFin 0) | _ \<Rightarrow> DFin 0)"

text \<open>
  \<open>globMatch\<close>: the loop between two stars compares straight on; at the next star it forgets the previous one, and when
  it is stuck it retries one character further behind the last star.
\<close>

datatype glob_run = Ended string | Starred string string | Stuck

fun straight :: "string \<Rightarrow> string \<Rightarrow> glob_run" where
  "straight q [] = Ended q"
| "straight [] (c # t) = Stuck"
| "straight (p # q) (c # t) =
     (if p = CHR ''?'' \<or> p = c then straight q t else if p = CHR ''*'' then Starred q (c # t) else Stuck)"

lemma straight_shorter: "straight q t = Starred r n \<Longrightarrow> length r < length q"
  by (induction q t rule: straight.induct) (auto split: if_splits)

function glob_star :: "string \<Rightarrow> string \<Rightarrow> bool" where
  "glob_star q m =
     (case straight q m of
        Ended r \<Rightarrow> list_all (\<lambda>c. c = CHR ''*'') r
      | Starred r n \<Rightarrow> glob_star r n
      | Stuck \<Rightarrow> (case m of [] \<Rightarrow> False | _ # n \<Rightarrow> glob_star q n))"
  by pat_completeness auto
termination by (relation "measure length <*lex*> measure length") (auto dest: straight_shorter)

declare glob_star.simps [simp del]

definition glob_match :: "string \<Rightarrow> string \<Rightarrow> bool" where
  "glob_match pattern t =
     (case straight pattern t of
        Ended r \<Rightarrow> list_all (\<lambda>c. c = CHR ''*'') r
      | Starred r n \<Rightarrow> glob_star r n
      | Stuck \<Rightarrow> False)"

text \<open>\<open>resolveRange\<close>: first and one past the last position.\<close>

definition resolve_range :: "int \<Rightarrow> int \<Rightarrow> nat \<Rightarrow> nat \<times> nat" where
  "resolve_range start stop n =
     (let first = max 0 (if start < 0 then start + int n else start);
          last = min (int n - 1) (if stop < 0 then stop + int n else stop)
      in (if last < first \<or> int n \<le> first then 0 else nat first, if last < first then 0 else nat last + 1))"

section \<open>The keyspace\<close>

datatype entry_kind = KString | KHash | KZSet

record mentry =
  me_kind :: entry_kind
  me_text :: string
  me_hash :: "(string \<times> string) list"
  me_zset :: "(string \<times> dbl) list"
  me_expires :: int

definition blank_entry :: mentry where
  "blank_entry = \<lparr>me_kind = KString, me_text = [], me_hash = [], me_zset = [], me_expires = 0\<rparr>"

record keyspace =
  ks_data :: "(string \<times> mentry) list"
  ks_now :: int

definition expired :: "int \<Rightarrow> mentry \<Rightarrow> bool" where
  "expired now e \<longleftrightarrow> me_expires e \<noteq> 0 \<and> me_expires e \<le> now"

definition drop_key :: "string \<Rightarrow> keyspace \<Rightarrow> keyspace" where
  "drop_key k ks = ks\<lparr>ks_data := AList.delete k (ks_data ks)\<rparr>"

definition put_key :: "string \<Rightarrow> mentry \<Rightarrow> keyspace \<Rightarrow> keyspace" where
  "put_key k e ks = ks\<lparr>ks_data := AList.update k e (ks_data ks)\<rparr>"

definition find_live :: "string \<Rightarrow> keyspace \<Rightarrow> mentry option \<times> keyspace" where
  "find_live k ks =
     (case map_of (ks_data ks) k of
        None \<Rightarrow> (None, ks)
      | Some e \<Rightarrow> (if expired (ks_now ks) e then (None, drop_key k ks) else (Some e, ks)))"

text \<open>\<open>m_data[key]\<close> with the kind set.\<close>

definition entry_for :: "string \<Rightarrow> entry_kind \<Rightarrow> keyspace \<Rightarrow> mentry" where
  "entry_for k kind ks = (case map_of (ks_data ks) k of Some e \<Rightarrow> e | None \<Rightarrow> blank_entry)\<lparr>me_kind := kind\<rparr>"

definition hash_set :: "string \<Rightarrow> string \<Rightarrow> mentry \<Rightarrow> mentry" where
  "hash_set f v e = e\<lparr>me_hash := AList.update f v (me_hash e)\<rparr>"

definition hash_get :: "mentry \<Rightarrow> string \<Rightarrow> string option" where
  "hash_get e f = map_of (me_hash e) f"

definition zadd :: "string \<Rightarrow> dbl \<Rightarrow> string \<Rightarrow> keyspace \<Rightarrow> keyspace" where
  "zadd k score member ks0 =
     (case find_live k ks0 of (found, ks) \<Rightarrow>
        let e = (case found of
                   Some e \<Rightarrow> (if me_kind e = KZSet then e else (entry_for k KZSet ks)\<lparr>me_zset := []\<rparr>)
                 | None \<Rightarrow> (entry_for k KZSet ks)\<lparr>me_zset := []\<rparr>)
        in put_key k (e\<lparr>me_zset := AList.update member score (me_zset e)\<rparr>) ks)"

definition put_or_drop :: "string \<Rightarrow> mentry \<Rightarrow> keyspace \<Rightarrow> keyspace" where
  "put_or_drop k e ks = (if me_zset e = [] \<and> me_expires e = 0 then drop_key k ks else put_key k e ks)"

definition zrem :: "string \<Rightarrow> string \<Rightarrow> keyspace \<Rightarrow> keyspace" where
  "zrem k member ks0 =
     (case find_live k ks0 of
        (Some e, ks) \<Rightarrow>
          (if me_kind e = KZSet then put_or_drop k (e\<lparr>me_zset := AList.delete member (me_zset e)\<rparr>) ks else ks)
      | (None, ks) \<Rightarrow> ks)"

section \<open>The verbs\<close>

type_synonym verb = "string list \<Rightarrow> keyspace \<Rightarrow> rvalue \<times> keyspace"

definition arg_at :: "string list \<Rightarrow> nat \<Rightarrow> string" where
  "arg_at args i = (if i < length args then args ! i else [])"

definition wrong_type :: rvalue where
  "wrong_type = RError ''WRONGTYPE Operation against a key holding the wrong kind of value''"

definition syntax_error :: rvalue where
  "syntax_error = RError ''ERR syntax error''"

fun count_live :: "string list \<Rightarrow> keyspace \<Rightarrow> int \<times> keyspace" where
  "count_live [] ks = (0, ks)"
| "count_live (k # r) ks =
     (case find_live k ks of (found, ks1) \<Rightarrow>
        case count_live r ks1 of (n, ks2) \<Rightarrow> ((if found = None then n else n + 1), ks2))"

definition v_exists :: verb where
  "v_exists args ks = (case count_live (drop 1 args) ks of (n, ks1) \<Rightarrow> (RInt n, ks1))"

fun delete_keys :: "string list \<Rightarrow> keyspace \<Rightarrow> int \<times> keyspace" where
  "delete_keys [] ks = (0, ks)"
| "delete_keys (k # r) ks =
     (case find_live k ks of
        (None, ks1) \<Rightarrow> delete_keys r ks1
      | (Some _, ks1) \<Rightarrow> (case delete_keys r (drop_key k ks1) of (n, ks2) \<Rightarrow> (n + 1, ks2)))"

definition v_del :: verb where
  "v_del args ks = (case delete_keys (drop 1 args) ks of (n, ks1) \<Rightarrow> (RInt n, ks1))"

definition v_ttl :: "bool \<Rightarrow> verb" where
  "v_ttl seconds args ks0 =
     (case find_live (arg_at args 1) ks0 of
        (None, ks) \<Rightarrow> (RInt (- 2), ks)
      | (Some e, ks) \<Rightarrow>
          (if me_expires e = 0 then (RInt (- 1), ks)
           else let remaining = me_expires e - ks_now ks
                in (RInt (if seconds then (remaining + 999) div 1000 else remaining), ks)))"

definition v_expire :: "bool \<Rightarrow> verb" where
  "v_expire seconds args ks0 =
     (case find_live (arg_at args 1) ks0 of
        (None, ks) \<Rightarrow> (RInt 0, ks)
      | (Some e, ks) \<Rightarrow>
          (let amount = parse_int (- 1) (arg_at args 2)
           in if amount < 0 then (RInt 1, drop_key (arg_at args 1) ks)
              else (RInt 1, put_key (arg_at args 1)
                      (e\<lparr>me_expires := ks_now ks + (if seconds then amount * 1000 else amount)\<rparr>) ks)))"

definition v_get :: verb where
  "v_get args ks0 =
     (case find_live (arg_at args 1) ks0 of
        (None, ks) \<Rightarrow> (RNil, ks)
      | (Some e, ks) \<Rightarrow> ((if me_kind e = KString then RBulk (me_text e) else wrong_type), ks))"

record set_flags =
  sf_absent :: bool
  sf_present :: bool
  sf_expiry :: int

function read_flags :: "string list \<Rightarrow> set_flags \<Rightarrow> set_flags option" where
  "read_flags [] fl = Some fl"
| "read_flags (flag # r) fl =
     (if upper_text flag = ''NX'' then read_flags r (fl\<lparr>sf_absent := True\<rparr>)
      else if upper_text flag = ''XX'' then read_flags r (fl\<lparr>sf_present := True\<rparr>)
      else if upper_text flag = ''EX'' then read_flags (drop 1 r) (fl\<lparr>sf_expiry := parse_int 0 (arg_at r 0) * 1000\<rparr>)
      else if upper_text flag = ''PX'' then read_flags (drop 1 r) (fl\<lparr>sf_expiry := parse_int 0 (arg_at r 0)\<rparr>)
      else None)"
  by pat_completeness auto
termination by (relation "measure (\<lambda>(fs, fl). length fs)") auto

definition v_set :: verb where
  "v_set args ks0 =
     (if length args < 3 then (syntax_error, ks0)
      else case find_live (arg_at args 1) ks0 of (found, ks) \<Rightarrow>
        (case read_flags (drop 3 args) \<lparr>sf_absent = False, sf_present = False, sf_expiry = 0\<rparr> of
           None \<Rightarrow> (syntax_error, ks)
         | Some fl \<Rightarrow>
             (if sf_absent fl \<and> found \<noteq> None then (RNil, ks)
              else if sf_present fl \<and> found = None then (RNil, ks)
              else (RStatus ''OK'',
                    put_key (arg_at args 1)
                      ((entry_for (arg_at args 1) KString ks)
                         \<lparr>me_text := arg_at args 2, me_hash := [], me_zset := [], me_expires := sf_expiry fl\<rparr>) ks))))"

definition bulk_or_nil :: "string option \<Rightarrow> rvalue" where
  "bulk_or_nil x = (case x of Some t \<Rightarrow> RBulk t | None \<Rightarrow> RNil)"

definition v_hget :: verb where
  "v_hget args ks0 =
     (case find_live (arg_at args 1) ks0 of
        (None, ks) \<Rightarrow> (RNil, ks)
      | (Some e, ks) \<Rightarrow> ((if me_kind e = KHash then bulk_or_nil (hash_get e (arg_at args 2)) else wrong_type), ks))"

definition v_hmget :: verb where
  "v_hmget args ks0 =
     (case find_live (arg_at args 1) ks0 of
        (None, ks) \<Rightarrow> (RArr (map (\<lambda>f. RNil) (drop 2 args)), ks)
      | (Some e, ks) \<Rightarrow>
          ((if me_kind e = KHash then RArr (map (\<lambda>f. bulk_or_nil (hash_get e f)) (drop 2 args)) else wrong_type), ks))"

fun pairwise :: "'a list \<Rightarrow> ('a \<times> 'a) list" where
  "pairwise (a # b # r) = (a, b) # pairwise r"
| "pairwise _ = []"

definition bad_pairs :: "string list \<Rightarrow> bool" where
  "bad_pairs args \<longleftrightarrow> length args < 4 \<or> odd (length args - 2)"

fun hash_pairs :: "(string \<times> string) list \<Rightarrow> mentry \<Rightarrow> int \<times> mentry" where
  "hash_pairs [] e = (0, e)"
| "hash_pairs ((f, v) # r) e =
     (case hash_pairs r (hash_set f v e) of (n, e') \<Rightarrow> ((if hash_get e f = None then n + 1 else n), e'))"

definition v_hset :: verb where
  "v_hset args ks0 =
     (if bad_pairs args then (syntax_error, ks0)
      else case find_live (arg_at args 1) ks0 of (found, ks) \<Rightarrow>
        (if (case found of Some e \<Rightarrow> me_kind e \<noteq> KHash | None \<Rightarrow> False) then (wrong_type, ks)
         else case hash_pairs (pairwise (drop 2 args)) (entry_for (arg_at args 1) KHash ks) of
           (n, e) \<Rightarrow> (RInt n, put_key (arg_at args 1) e ks)))"

definition v_hgetall :: verb where
  "v_hgetall args ks0 =
     (case find_live (arg_at args 1) ks0 of
        (None, ks) \<Rightarrow> (RArr [], ks)
      | (Some e, ks) \<Rightarrow>
          ((if me_kind e = KHash then RArr (concat (map (\<lambda>(f, v). [RBulk f, RBulk v]) (me_hash e))) else wrong_type), ks))"

fun hash_drop :: "string list \<Rightarrow> mentry \<Rightarrow> int \<times> mentry" where
  "hash_drop [] e = (0, e)"
| "hash_drop (f # r) e =
     (let kept = filter (\<lambda>p. fst p \<noteq> f) (me_hash e)
      in case hash_drop r (e\<lparr>me_hash := kept\<rparr>) of
           (n, e') \<Rightarrow> (int (length (me_hash e)) - int (length kept) + n, e'))"

definition v_hdel :: verb where
  "v_hdel args ks0 =
     (case find_live (arg_at args 1) ks0 of
        (None, ks) \<Rightarrow> (RInt 0, ks)
      | (Some e, ks) \<Rightarrow>
          (if me_kind e \<noteq> KHash then (RInt 0, ks)
           else case hash_drop (drop 2 args) e of
             (n, e') \<Rightarrow> (RInt n, if me_hash e' = [] then drop_key (arg_at args 1) ks else put_key (arg_at args 1) e' ks)))"

fun zset_pairs :: "(string \<times> string) list \<Rightarrow> mentry \<Rightarrow> int \<times> mentry" where
  "zset_pairs [] e = (0, e)"
| "zset_pairs ((score, member) # r) e =
     (case zset_pairs r (e\<lparr>me_zset := AList.update member (parse_double score) (me_zset e)\<rparr>) of
        (n, e') \<Rightarrow> ((if map_of (me_zset e) member = None then n + 1 else n), e'))"

definition v_zadd :: verb where
  "v_zadd args ks0 =
     (if bad_pairs args then (syntax_error, ks0)
      else case find_live (arg_at args 1) ks0 of (found, ks) \<Rightarrow>
        (if (case found of Some e \<Rightarrow> me_kind e \<noteq> KZSet | None \<Rightarrow> False) then (wrong_type, ks)
         else case zset_pairs (pairwise (drop 2 args)) (entry_for (arg_at args 1) KZSet ks) of
           (n, e) \<Rightarrow> (RInt n, put_key (arg_at args 1) e ks)))"

fun zset_drop :: "string list \<Rightarrow> mentry \<Rightarrow> int \<times> mentry" where
  "zset_drop [] e = (0, e)"
| "zset_drop (m # r) e =
     (case zset_drop r (e\<lparr>me_zset := AList.delete m (me_zset e)\<rparr>) of
        (n, e') \<Rightarrow> ((if map_of (me_zset e) m = None then n else n + 1), e'))"

definition v_zrem :: verb where
  "v_zrem args ks0 =
     (case find_live (arg_at args 1) ks0 of
        (None, ks) \<Rightarrow> (RInt 0, ks)
      | (Some e, ks) \<Rightarrow>
          (if me_kind e \<noteq> KZSet then (RInt 0, ks)
           else case zset_drop (drop 2 args) e of (n, e') \<Rightarrow> (RInt n, put_or_drop (arg_at args 1) e' ks)))"

definition v_zcard :: verb where
  "v_zcard args ks0 =
     (case find_live (arg_at args 1) ks0 of
        (None, ks) \<Rightarrow> (RInt 0, ks)
      | (Some e, ks) \<Rightarrow> ((if me_kind e = KZSet then RInt (int (length (me_zset e))) else wrong_type), ks))"

definition v_zscore :: verb where
  "v_zscore args ks0 =
     (case find_live (arg_at args 1) ks0 of
        (None, ks) \<Rightarrow> (RNil, ks)
      | (Some e, ks) \<Rightarrow>
          (if me_kind e \<noteq> KZSet then (RNil, ks)
           else case map_of (me_zset e) (arg_at args 2) of
             None \<Rightarrow> (RNil, ks)
           | Some x \<Rightarrow> (RBulk (int_str (dbl_to_int 64 x)), ks)))"

text \<open>A sorted set in the order of Redis: by score, then by member.\<close>

definition scored_less :: "string \<times> dbl \<Rightarrow> string \<times> dbl \<Rightarrow> bool" where
  "scored_less p q \<longleftrightarrow> dbl_lt (snd p) (snd q) \<or> (\<not> dbl_lt (snd q) (snd p) \<and> fst p < fst q)"

definition ordered_members :: "mentry \<Rightarrow> string list" where
  "ordered_members e = map fst (stable_sort scored_less (me_zset e))"

definition v_zrange :: "bool \<Rightarrow> verb" where
  "v_zrange backwards args ks0 =
     (case find_live (arg_at args 1) ks0 of
        (None, ks) \<Rightarrow> (RArr [], ks)
      | (Some e, ks) \<Rightarrow>
          (if me_kind e \<noteq> KZSet then (wrong_type, ks)
           else let members = (if backwards then rev (ordered_members e) else ordered_members e)
                in case resolve_range (parse_int 0 (arg_at args 2)) (parse_int 0 (arg_at args 3)) (length members) of
                     (first, after) \<Rightarrow> (RArr (map RBulk (drop first (take after members))), ks)))"

definition v_scan :: verb where
  "v_scan args ks =
     (let pattern = (if 3 < length args \<and> args ! 2 = ''MATCH'' then args ! 3 else ''*'');
          alive = filter (\<lambda>(k, e). \<not> expired (ks_now ks) e) (ks_data ks)
      in (RArr [RBulk ''0'', RArr (map RBulk (sort (filter (glob_match pattern) (map fst alive))))],
          ks\<lparr>ks_data := alive\<rparr>))"

section \<open>The scripts of the state store\<close>

text \<open>A handler a test registers is its own function of keys and arguments.\<close>

datatype script = SaveScript | ReleaseScript | Custom "string list \<Rightarrow> string list \<Rightarrow> rvalue"

text \<open>\<open>keys[i]\<close>: outside the vector it is undefined behaviour, here a crash.\<close>

definition key_at :: "string list \<Rightarrow> int \<Rightarrow> string option" where
  "key_at keys i = (if 0 \<le> i \<and> nat i < length keys then Some (keys ! nat i) else None)"

definition index_session :: "string list \<Rightarrow> string list \<Rightarrow> int \<Rightarrow> keyspace \<Rightarrow> keyspace option" where
  "index_session keys argv previous ks =
     (let wanted = parse_int 0 (argv ! 2); score = parse_double (argv ! 3); member = argv ! 5
      in case (if 0 \<le> previous \<and> previous \<noteq> wanted
               then map_option (\<lambda>k. zrem k member ks) (key_at keys (2 + previous)) else Some ks) of
           None \<Rightarrow> None
         | Some ks1 \<Rightarrow>
             map_option (\<lambda>k. zadd (keys ! 1) score member (zadd k score member ks1)) (key_at keys (2 + wanted)))"

definition current_version :: "mentry option \<Rightarrow> int" where
  "current_version found =
     (case found of None \<Rightarrow> 0
      | Some e \<Rightarrow> parse_int 0 (case hash_get e ''version'' of Some t \<Rightarrow> t | None \<Rightarrow> ''0''))"

definition previous_status :: "mentry option \<Rightarrow> int" where
  "previous_status found =
     (case found of None \<Rightarrow> - 1
      | Some e \<Rightarrow> (case hash_get e ''status'' of Some t \<Rightarrow> parse_int (- 1) t | None \<Rightarrow> - 1))"

definition saved_entry :: "string list \<Rightarrow> int \<Rightarrow> int \<Rightarrow> mentry \<Rightarrow> mentry" where
  "saved_entry argv next_version now e =
     (let ttl = parse_int 0 (argv ! 4)
      in (hash_set ''updated_ms'' (argv ! 3) (hash_set ''status'' (argv ! 2)
           (hash_set ''version'' (int_str next_version) (hash_set ''blob'' (argv ! 0)
             (e\<lparr>me_text := [], me_zset := []\<rparr>)))))
           \<lparr>me_expires := (if 0 < ttl then now + ttl * 1000 else 0)\<rparr>)"

definition run_save :: "string list \<Rightarrow> string list \<Rightarrow> (rvalue, keyspace) act" where
  "run_save keys argv ks0 =
     (if keys = [] \<or> length argv < 6 then (Val (RError ''ERR sapo save script: bad KEYS/ARGV count''), ks0)
      else case find_live (keys ! 0) ks0 of (found, ks) \<Rightarrow>
        (let current = current_version found; expected = parse_int (- 1) (argv ! 1); previous = previous_status found
         in if 0 \<le> expected \<and> current \<noteq> expected then
              (Val (RArr (if found = None then [RInt (- 1), RInt 0, RInt (- 1)] else [RInt 0, RInt current, RInt (- 1)])), ks)
            else
              (let ks1 = put_key (keys ! 0) (saved_entry argv (current + 1) (ks_now ks) (entry_for (keys ! 0) KHash ks)) ks;
                   answer = RArr [RInt 1, RInt (current + 1), RInt previous]
               in if length keys < 8 then (Val answer, ks1)
                  else case index_session keys argv previous ks1 of Some ks2 \<Rightarrow> (Val answer, ks2) | None \<Rightarrow> (Crash, ks1))))"

definition run_release :: "string list \<Rightarrow> string list \<Rightarrow> verb" where
  "run_release keys argv = (\<lambda>_ ks0.
     (if keys = [] \<or> argv = [] then (RError ''ERR sapo claim script: bad args'', ks0)
      else case find_live (keys ! 0) ks0 of
        (None, ks) \<Rightarrow> (RInt 0, ks)
      | (Some e, ks) \<Rightarrow>
          (if me_kind e \<noteq> KString \<or> me_text e \<noteq> argv ! 0 then (RInt 0, ks) else (RInt 1, drop_key (keys ! 0) ks))))"

definition plain_verb :: "rvalue \<times> keyspace \<Rightarrow> rvalue ev \<times> keyspace" where
  "plain_verb r = (case r of (x, ks) \<Rightarrow> (Val x, ks))"

definition run_script :: "script \<Rightarrow> string list \<Rightarrow> string list \<Rightarrow> (rvalue, keyspace) act" where
  "run_script sc keys argv ks =
     (case sc of
        SaveScript \<Rightarrow> run_save keys argv ks
      | ReleaseScript \<Rightarrow> plain_verb (run_release keys argv [] ks)
      | Custom f \<Rightarrow> (Val (f keys argv), ks))"

definition no_mirror :: rvalue where
  "no_mirror = RError (''ERR MockRedisClient has no mirror for this script; call onScript() or '' @
     ''installSapoScripts(). Real Lua execution is covered by the opt-in '' @ ''live-server tests (SAPO_REDIS_URL).'')"

definition v_eval :: "(string \<times> script) list \<Rightarrow> string list \<Rightarrow> (rvalue, keyspace) act" where
  "v_eval scripts args ks =
     (if length args < 3 then (Val (RError (''ERR wrong number of arguments for '' @ quoted ''eval'' @ '' command'')), ks)
      else let n = parse_int (- 1) (args ! 2)
           in if n < 0 \<or> length args < nat n + 3
              then (Val (RError (''ERR invalid number of keys for '' @ quoted ''eval'' @ '' command'')), ks)
              else case List.find (\<lambda>(marker, sc). find_sub marker (args ! 1) \<noteq> None) scripts of
                     None \<Rightarrow> (Val no_mirror, ks)
                   | Some (marker, sc) \<Rightarrow> run_script sc (take (nat n) (drop 3 args)) (drop (nat n + 3) args) ks)"

section \<open>The client\<close>

definition plain_verbs :: "(string \<times> verb) list" where
  "plain_verbs =
     [(''PING'', \<lambda>args ks. (RStatus (if arg_at args 1 = [] then ''PONG'' else arg_at args 1), ks)),
      (''AUTH'', \<lambda>args ks. (RStatus ''OK'', ks)), (''SELECT'', \<lambda>args ks. (RStatus ''OK'', ks)),
      (''CLIENT'', \<lambda>args ks. (RStatus ''OK'', ks)),
      (''FLUSHDB'', \<lambda>args ks. (RStatus ''OK'', ks\<lparr>ks_data := []\<rparr>)),
      (''FLUSHALL'', \<lambda>args ks. (RStatus ''OK'', ks\<lparr>ks_data := []\<rparr>)),
      (''DBSIZE'', \<lambda>args ks. (RInt (int (length (ks_data ks))), ks)),
      (''EXISTS'', v_exists), (''DEL'', v_del), (''UNLINK'', v_del), (''TTL'', v_ttl True), (''PTTL'', v_ttl False),
      (''EXPIRE'', v_expire True), (''PEXPIRE'', v_expire False), (''GET'', v_get), (''SET'', v_set),
      (''HGET'', v_hget), (''HMGET'', v_hmget), (''HSET'', v_hset), (''HGETALL'', v_hgetall), (''HDEL'', v_hdel),
      (''ZADD'', v_zadd), (''ZREM'', v_zrem), (''ZCARD'', v_zcard), (''ZCOUNT'', v_zcard), (''ZSCORE'', v_zscore),
      (''ZRANGE'', v_zrange False), (''ZREVRANGE'', v_zrange True), (''SCAN'', v_scan)]"

definition dispatch_verb :: "(string \<times> script) list \<Rightarrow> string list \<Rightarrow> (rvalue, keyspace) act" where
  "dispatch_verb scripts args ks =
     (case args of
        [] \<Rightarrow> (Val (RError ''ERR empty command''), ks)
      | v # _ \<Rightarrow>
          (let name = upper_text v
           in if name = ''EVAL'' \<or> name = ''EVALSHA'' then v_eval scripts args ks
              else case map_of plain_verbs name of
                Some f \<Rightarrow> plain_verb (f args ks)
              | None \<Rightarrow> (Val (RError (''ERR unknown command '' @ quoted name @ '' (MockRedisClient)'')), ks)))"

record mock_redis =
  mr_keys :: keyspace
  mr_scripts :: "(string \<times> script) list"
  mr_recorded :: "string list list"
  mr_down :: bool
  mr_failures :: nat
  mr_message :: string

definition mock_command :: "string list \<Rightarrow> (rvalue, mock_redis) act" where
  "mock_command args m0 =
     (let m = m0\<lparr>mr_recorded := mr_recorded m0 @ [args]\<rparr>
      in if mr_down m then (Thr (store_error ''mock redis is down (simulated transport failure)''), m)
         else if 0 < mr_failures m then (Val (RError (mr_message m)), m\<lparr>mr_failures := mr_failures m - 1\<rparr>)
         else case dispatch_verb (mr_scripts m) args (mr_keys m) of (r, ks) \<Rightarrow> (r, m\<lparr>mr_keys := ks\<rparr>))"

definition mock_pipeline :: "string list list \<Rightarrow> (rvalue list, mock_redis) act" where
  "mock_pipeline commands = in_turn (map mock_command commands)"

definition mock_client :: "mock_redis redis_client" where
  "mock_client = \<lparr>rc_command = mock_command, rc_pipeline = mock_pipeline\<rparr>"

definition mock_healthy :: "mock_redis \<Rightarrow> bool" where
  "mock_healthy m \<longleftrightarrow> \<not> mr_down m"

definition save_marker :: string where
  "save_marker = ''-- sapo:session.save v1''"

definition release_marker :: string where
  "release_marker = ''-- sapo:claim.release v1''"

definition on_script :: "string \<Rightarrow> script \<Rightarrow> mock_redis \<Rightarrow> mock_redis" where
  "on_script marker sc m = m\<lparr>mr_scripts := AList.update marker sc (mr_scripts m)\<rparr>"

definition install_sapo_scripts :: "mock_redis \<Rightarrow> mock_redis" where
  "install_sapo_scripts m =
     on_script release_marker ReleaseScript (on_script save_marker SaveScript (m\<lparr>mr_scripts := []\<rparr>))"

definition empty_keyspace :: keyspace where
  "empty_keyspace = \<lparr>ks_data = [], ks_now = 0\<rparr>"

definition new_mock :: mock_redis where
  "new_mock = install_sapo_scripts
     \<lparr>mr_keys = empty_keyspace, mr_scripts = [], mr_recorded = [], mr_down = False, mr_failures = 0, mr_message = []\<rparr>"

section \<open>Test hooks and inspection\<close>

definition set_down :: "bool \<Rightarrow> mock_redis \<Rightarrow> mock_redis" where
  "set_down b m = m\<lparr>mr_down := b\<rparr>"

definition fail_next_commands :: "nat \<Rightarrow> string \<Rightarrow> mock_redis \<Rightarrow> mock_redis" where
  "fail_next_commands n message m = m\<lparr>mr_failures := n, mr_message := message\<rparr>"

definition advance_time :: "int \<Rightarrow> mock_redis \<Rightarrow> mock_redis" where
  "advance_time ms m = m\<lparr>mr_keys := (mr_keys m)\<lparr>ks_now := ks_now (mr_keys m) + ms\<rparr>\<rparr>"

definition mock_clear :: "mock_redis \<Rightarrow> mock_redis" where
  "mock_clear m = m\<lparr>mr_keys := empty_keyspace, mr_recorded := [], mr_down := False, mr_failures := 0\<rparr>"

definition peek :: "string \<Rightarrow> mock_redis \<Rightarrow> mentry option \<times> mock_redis" where
  "peek k m = (case find_live k (mr_keys m) of (found, ks) \<Rightarrow> (found, m\<lparr>mr_keys := ks\<rparr>))"

definition key_count :: "mock_redis \<Rightarrow> int \<times> mock_redis" where
  "key_count m = (case count_live (map fst (ks_data (mr_keys m))) (mr_keys m) of (n, ks) \<Rightarrow> (n, m\<lparr>mr_keys := ks\<rparr>))"

definition has_key :: "string \<Rightarrow> mock_redis \<Rightarrow> bool \<times> mock_redis" where
  "has_key k m = (case peek k m of (found, m') \<Rightarrow> (found \<noteq> None, m'))"

definition hash_field :: "string \<Rightarrow> string \<Rightarrow> mock_redis \<Rightarrow> string option \<times> mock_redis" where
  "hash_field k f m =
     (case peek k m of
        (Some e, m') \<Rightarrow> ((if me_kind e = KHash then hash_get e f else None), m')
      | (None, m') \<Rightarrow> (None, m'))"

definition string_key :: "string \<Rightarrow> mock_redis \<Rightarrow> string option \<times> mock_redis" where
  "string_key k m =
     (case peek k m of
        (Some e, m') \<Rightarrow> ((if me_kind e = KString then Some (me_text e) else None), m')
      | (None, m') \<Rightarrow> (None, m'))"

definition sorted_members :: "string \<Rightarrow> mock_redis \<Rightarrow> string list \<times> mock_redis" where
  "sorted_members k m =
     (case peek k m of
        (Some e, m') \<Rightarrow> ((if me_kind e = KZSet then ordered_members e else []), m')
      | (None, m') \<Rightarrow> ([], m'))"

definition ttl_of_key :: "string \<Rightarrow> mock_redis \<Rightarrow> int option \<times> mock_redis" where
  "ttl_of_key k m =
     (case peek k m of
        (Some e, m') \<Rightarrow>
          (Some (if me_expires e = 0 then - 1 else (me_expires e - ks_now (mr_keys m') + 999) div 1000), m')
      | (None, m') \<Rightarrow> (None, m'))"

definition count_calls :: "string \<Rightarrow> mock_redis \<Rightarrow> nat" where
  "count_calls v m = length (filter (\<lambda>args. args \<noteq> [] \<and> hd args = v) (mr_recorded m))"

section \<open>What stays of an entry\<close>

text \<open>The entry a key stands for at the clock of the keyspace; expired entries stand for nothing.\<close>

definition live :: "string \<Rightarrow> keyspace \<Rightarrow> mentry option" where
  "live k ks =
     (case map_of (ks_data ks) k of
        None \<Rightarrow> None | Some e \<Rightarrow> (if expired (ks_now ks) e then None else Some e))"

named_theorems live_simps "what the primitive steps of the keyspace leave alive"

lemma find_live_fst [live_simps]: "fst (find_live k ks) = live k ks"
  by (auto simp: find_live_def live_def split: option.splits)

lemma find_live_now [live_simps]: "ks_now (snd (find_live k ks)) = ks_now ks"
  by (auto simp: find_live_def drop_key_def split: option.splits)

lemma live_drop [live_simps]: "live k' (drop_key k ks) = (if k' = k then None else live k' ks)"
  by (auto simp: live_def drop_key_def delete_conv split: option.splits)

lemma live_put [live_simps]:
  "live k' (put_key k e ks) = (if k' = k then (if expired (ks_now ks) e then None else Some e) else live k' ks)"
  by (auto simp: live_def put_key_def update_conv split: option.splits)

lemma live_find_live [live_simps]: "live k' (snd (find_live k ks)) = live k' ks"
  by (auto simp: find_live_def drop_key_def live_def delete_conv split: option.splits)

lemma step_now [live_simps]: "ks_now (drop_key k ks) = ks_now ks" "ks_now (put_key k e ks) = ks_now ks"
  by (simp_all add: drop_key_def put_key_def)

lemma find_live_eq: "find_live k ks = (live k ks, snd (find_live k ks))"
  by (rule prod_eqI) (simp_all add: live_simps)

lemma find_live_absent: "live k ks = None \<Longrightarrow> map_of (ks_data (snd (find_live k ks))) k = None"
  by (auto simp: find_live_def live_def drop_key_def delete_conv split: option.splits if_splits)

lemma find_live_present: "live k ks = Some e \<Longrightarrow> find_live k ks = (Some e, ks) \<and> map_of (ks_data ks) k = Some e"
  by (auto simp: find_live_def live_def split: option.splits if_splits)

lemma zadd_other [live_simps]: "k' \<noteq> k \<Longrightarrow> live k' (zadd k score m ks) = live k' ks"
  by (subst zadd_def) (simp add: split_beta Let_def live_simps)

lemma zadd_now [live_simps]: "ks_now (zadd k score m ks) = ks_now ks"
  by (subst zadd_def) (simp add: split_beta Let_def live_simps)

lemma zrem_eq:
  "zrem k m ks =
     (case live k ks of
        Some e \<Rightarrow> (if me_kind e = KZSet then put_or_drop k (e\<lparr>me_zset := AList.delete m (me_zset e)\<rparr>) (snd (find_live k ks))
                   else snd (find_live k ks))
      | None \<Rightarrow> snd (find_live k ks))"
  unfolding zrem_def by (subst find_live_eq) (simp split: option.split)

lemma zrem_other [live_simps]: "k' \<noteq> k \<Longrightarrow> live k' (zrem k m ks) = live k' ks"
  by (simp add: zrem_eq put_or_drop_def live_simps split: option.split)

lemma zrem_now [live_simps]: "ks_now (zrem k m ks) = ks_now ks"
  by (simp add: zrem_eq put_or_drop_def live_simps split: option.split)

section \<open>Patterns\<close>

text \<open>What a pattern of \<open>*\<close> and \<open>?\<close> means, without the loop.\<close>

fun glob :: "string \<Rightarrow> string \<Rightarrow> bool" where
  "glob [] t = (t = [])"
| "glob (p # q) t =
     (if p = CHR ''*'' then (\<exists>k \<le> length t. glob q (drop k t))
      else case t of [] \<Rightarrow> False | c # t' \<Rightarrow> (p = CHR ''?'' \<or> p = c) \<and> glob q t')"

lemma glob_stars: "glob q [] \<longleftrightarrow> list_all (\<lambda>c. c = CHR ''*'') q"
  by (induction q) auto

definition anywhere :: "string \<Rightarrow> string \<Rightarrow> bool" where
  "anywhere q t \<longleftrightarrow> (\<exists>k \<le> length t. glob q (drop k t))"

lemma anywhere_Cons: "anywhere q (c # t) \<longleftrightarrow> glob q (c # t) \<or> anywhere q t"
proof
  assume "anywhere q (c # t)"
  then obtain k where "k \<le> Suc (length t)" "glob q (drop k (c # t))" by (auto simp: anywhere_def)
  then show "glob q (c # t) \<or> anywhere q t" by (cases k) (auto simp: anywhere_def)
qed (auto simp: anywhere_def intro: exI [where x = 0] exI [where x = "Suc _"])

lemma glob_shift:
  assumes "p \<noteq> CHR ''*''" and "glob (p # q) (drop k (c # t))" and "0 < k"
  shows "k \<le> length t \<and> glob q (drop k t)"
proof -
  from \<open>0 < k\<close> obtain j where k: "k = Suc j" by (cases k) auto
  from assms obtain d t' where dt: "drop j t = d # t'" "glob q t'" by (auto simp: k split: list.splits)
  then have "drop (Suc j) t = t'" by (simp add: drop_Suc drop_tl)
  moreover from dt(1) have "j < length t" by (metis drop_all linorder_not_less list.distinct(1))
  ultimately show ?thesis using dt(2) by (simp add: k)
qed

text \<open>A straight run consumes as much of the pattern as of the text, and where it ends decides every later start.\<close>

lemma straight_run:
  "CHR ''*'' \<notin> set m \<Longrightarrow>
   (case straight q m of
      Ended r \<Rightarrow> (glob q m \<longleftrightarrow> list_all (\<lambda>c. c = CHR ''*'') r) \<and>
                 (\<forall>k. 0 < k \<longrightarrow> k \<le> length m \<longrightarrow> glob q (drop k m) \<longrightarrow> list_all (\<lambda>c. c = CHR ''*'') r)
    | Starred r n \<Rightarrow> CHR ''*'' \<notin> set n \<and> (glob q m \<longleftrightarrow> anywhere r n) \<and>
                     (\<forall>k \<le> length m. glob q (drop k m) \<longrightarrow> anywhere r n)
    | Stuck \<Rightarrow> \<not> glob q m)"
proof (induction q m rule: straight.induct)
  case (3 p q c t)
  then have c: "c \<noteq> CHR ''*''" "CHR ''*'' \<notin> set t" by auto
  show ?case
  proof (cases "p = CHR ''?'' \<or> p = c")
    case True
    with c have p: "p \<noteq> CHR ''*''" by auto
    have step: "glob (p # q) (c # t) = glob q t" using True p by auto
    note IH = "3.IH"(1) [OF True c(2)]
    have later: "k \<le> length t \<and> glob q (drop k t)" if "glob (p # q) (drop k (c # t))" "0 < k" for k
      using glob_shift [OF p that] .
    show ?thesis
    proof (cases "straight q t")
      case (Ended r)
      with IH True step later show ?thesis by (auto simp del: glob.simps)
    next
      case (Starred r n)
      have "anywhere r n" if "glob (p # q) (drop k (c # t))" for k
        using IH Starred step later [OF that] that by (cases k) (auto simp del: glob.simps)
      with IH True step Starred show ?thesis by (auto simp del: glob.simps)
    qed (use IH True step in simp)
  next
    case False
    have "anywhere q (c # t)" if "k \<le> length (c # t)" "glob (CHR ''*'' # q) (drop k (c # t))" for k
    proof -
      from that obtain j where "j \<le> length (drop k (c # t))" "glob q (drop j (drop k (c # t)))" by auto
      with that(1) show ?thesis unfolding anywhere_def by (intro exI [where x = "j + k"]) (auto simp: drop_drop)
    qed
    with False "3.prems" show ?thesis by (auto simp: anywhere_def)
  qed
qed (simp_all add: glob_stars)

lemma glob_star_anywhere: "CHR ''*'' \<notin> set m \<Longrightarrow> glob_star q m \<longleftrightarrow> anywhere q m"
proof (induction q m rule: glob_star.induct)
  case (1 q m)
  note run = straight_run [OF 1(3), of q]
  show ?case
  proof (cases "straight q m")
    case (Ended r)
    with run have at_once: "glob q (drop 0 m) \<longleftrightarrow> list_all (\<lambda>c. c = CHR ''*'') r"
      and later: "\<And>k. 0 < k \<Longrightarrow> k \<le> length m \<Longrightarrow> glob q (drop k m) \<Longrightarrow> list_all (\<lambda>c. c = CHR ''*'') r"
      by simp_all
    have "anywhere q m \<longleftrightarrow> list_all (\<lambda>c. c = CHR ''*'') r"
      unfolding anywhere_def using at_once later by (metis gr0I le0)
    with Ended show ?thesis by (simp add: glob_star.simps [of q m])
  next
    case (Starred r n)
    with run have "anywhere q m \<longleftrightarrow> anywhere r n"
      unfolding anywhere_def by (auto intro: exI [where x = 0])
    with Starred run "1.IH"(1) [OF Starred] show ?thesis by (simp add: glob_star.simps [of q m])
  next
    case Stuck
    show ?thesis
    proof (cases m)
      case (Cons c n)
      with "1.IH"(2) [OF Stuck Cons] Stuck run 1(3) show ?thesis
        by (simp add: glob_star.simps [of q "c # n"] anywhere_Cons)
    qed (use Stuck in simp)
  qed
qed

text \<open>
  C24: The matcher of \<open>SCAN\<close> - the loop that keeps only the last star - decides exactly what the pattern means, for
  every pattern and every text without a star of its own.
\<close>

theorem glob_match_is_the_pattern:
  assumes "CHR ''*'' \<notin> set t"
  shows "glob_match pattern t \<longleftrightarrow> glob pattern t"
  using straight_run [OF assms, of pattern] glob_star_anywhere
  by (auto simp: glob_match_def split: glob_run.splits)

lemma glob_match_is_the_pattern_witness:
  "glob_match ''s?po:*:1*'' ''sapo:idx:12'' \<longleftrightarrow> glob ''s?po:*:1*'' ''sapo:idx:12''"
  by (rule glob_match_is_the_pattern) simp

text \<open>A star of the text takes the star of the pattern for itself: the matcher then misses what follows.\<close>

lemma glob_match_literal_star: "\<not> glob_match ''*'' ''*a'' \<and> glob ''*'' ''*a''"
  by (auto simp: glob_match_def intro: exI [where x = 2])

end
