(* ===== verification/Sapo_RedisStore.thy ===== *)
theory Sapo_RedisStore
  imports Sapo_StateStore Sapo_MockRedis
begin

text \<open>
  The state store on Redis (\<open>src/src/redis/RedisStateStore.cpp\<close>, \<open>.hpp\<close>): the key layout, the compare-and-swap
  write, the index of the sessions, the claims that make a resume idempotent, and the maintenance.  The client is any
  \<open>redis_client\<close>; the text of a document is the document library's (\<open>rs_dump\<close>, \<open>rs_pretty\<close>, \<open>rs_parse\<close> and what its
  exception says).  Over the in-memory client the store is shown to keep the contract \<open>cas_store\<close>.
\<close>

section \<open>Options and keys\<close>

record store_options =
  ro_key_prefix :: string
  ro_index_prefix :: string
  ro_claim_prefix :: string
  ro_ttl_seconds :: int
  ro_atomic_index :: bool
  ro_max_list :: nat
  ro_compact_json :: bool

definition default_store_options :: store_options where
  "default_store_options =
     \<lparr>ro_key_prefix = ''sapo:session:'', ro_index_prefix = ''sapo:idx:'', ro_claim_prefix = ''sapo:claim:'',
      ro_ttl_seconds = 900, ro_atomic_index = True, ro_max_list = 1000, ro_compact_json = True\<rparr>"

definition describe_store_options :: "store_options \<Rightarrow> string" where
  "describe_store_options q =
     ro_key_prefix q @ ''* ttl='' @ int_str (ro_ttl_seconds q) @ ''s atomic_index='' @
     (if ro_atomic_index q then ''yes'' else ''no'') @ '' max_list='' @ int_str (int (ro_max_list q))"

record 'w redis_store =
  rs_client :: "'w redis_client"
  rs_options :: store_options
  rs_dump :: "json \<Rightarrow> string"
  rs_pretty :: "json \<Rightarrow> string"
  rs_parse :: "string \<Rightarrow> json option"
  rs_parse_what :: "string \<Rightarrow> string"

definition fails :: "string \<Rightarrow> ('a, 's) act" where
  "fails message = raises (store_error message)"

text \<open>The constructor: its complaint about the options, if it has one.\<close>

definition store_complaint :: "store_options \<Rightarrow> string option" where
  "store_complaint q =
     (if ro_key_prefix q = [] then Some ''RedisStateStoreOptions::key_prefix must not be empty''
      else if ro_index_prefix q = [] then Some ''RedisStateStoreOptions::index_prefix must not be empty''
      else if ro_claim_prefix q = [] then Some ''RedisStateStoreOptions::claim_prefix must not be empty''
      else if ro_ttl_seconds q < 0 then Some ''RedisStateStoreOptions::ttl_seconds must be >= 0 (0 disables expiry)''
      else None)"

definition session_key :: "store_options \<Rightarrow> string \<Rightarrow> (string, 's) act" where
  "session_key q sid =
     (if sid = [] then fails ''cannot build a redis key for an empty session id'' else yields (ro_key_prefix q @ sid))"

definition index_key :: "store_options \<Rightarrow> session_status option \<Rightarrow> string" where
  "index_key q st = ro_index_prefix q @ (case st of None \<Rightarrow> ''all'' | Some x \<Rightarrow> status_string x)"

definition status_index_keys :: "store_options \<Rightarrow> string list" where
  "status_index_keys q = map (\<lambda>n. ro_index_prefix q @ n) status_names"

definition remove_from_every_index :: "store_options \<Rightarrow> string \<Rightarrow> string list list" where
  "remove_from_every_index q sid =
     [''ZREM'', index_key q None, sid] # map (\<lambda>k. [''ZREM'', k, sid]) (status_index_keys q)"

definition claim_key :: "store_options \<Rightarrow> string \<Rightarrow> (string, 's) act" where
  "claim_key q sid =
     (if sid = [] then fails ''cannot build a claim key for an empty session id'' else yields (ro_claim_prefix q @ sid))"

definition serialize :: "'w redis_store \<Rightarrow> checkpoint \<Rightarrow> string" where
  "serialize st c =
     (if ro_compact_json (rs_options st) then rs_dump st (checkpoint_to_json c) else rs_pretty st (checkpoint_to_json c))"

definition status_from_index :: "int \<Rightarrow> session_status option" where
  "status_from_index i =
     (if i < 0 \<or> int (length status_names) \<le> i then None else status_from_string (status_names ! nat i))"

section \<open>The scripts\<close>

definition text_lines :: "string list \<Rightarrow> string" where
  "text_lines ls = concat (map (\<lambda>l. l @ [CHR 0x0A]) ls)"

text \<open>The server runs the text; the first line is the marker by which the in-memory client finds its mirror.  The body
  stands for the rest of the literal and is not interpreted.\<close>

definition save_script :: string where
  "save_script = text_lines
     [''-- sapo:session.save v1'',
      ''-- KEYS[1]     session hash'',
      ''-- KEYS[2]     idx:all              (present only when atomic_index is true)'',
      ''-- KEYS[3..8]  idx:<status>         (enum order; present only when atomic_index)'',
      ''-- ARGV[1] blob JSON   ARGV[2] expected version (-1 = unconditional)'',
      ''-- ARGV[3] new status index          ARGV[4] updated_ms (index score)'',
      ''-- ARGV[5] ttl seconds (0 = none)    ARGV[6] session id (index member)'',
      ''-- returns {code, version, old_status}; code 1=written 0=conflict -1=gone'',
      ''local raw = redis.call('' @ quoted ''HGET'' @ '', KEYS[1], '' @ quoted ''version'' @ '')'',
      ''local exists = raw ~= false'',
      ''local current = 0'',
      ''if exists then current = tonumber(raw) end'',
      ''local expected = tonumber(ARGV[2])'',
      ''if expected >= 0 and current ~= expected then'',
      ''  if exists then return {0, current, -1} end'',
      ''  return {-1, 0, -1}'',
      ''end'',
      ''local old_status = redis.call('' @ quoted ''HGET'' @ '', KEYS[1], '' @ quoted ''status'' @ '')'',
      ''local previous = -1'',
      ''if old_status ~= false then previous = tonumber(old_status) end'',
      ''local next_version = current + 1'',
      ''redis.call('' @ quoted ''HSET'' @ '', KEYS[1], '' @ quoted ''blob'' @ '', ARGV[1], '' @ quoted ''version'' @
        '', next_version, '' @ quoted ''status'' @ '', ARGV[3], '' @ quoted ''updated_ms'' @ '', ARGV[4])'',
      ''local ttl = tonumber(ARGV[5])'',
      ''if ttl > 0 then redis.call('' @ quoted ''EXPIRE'' @ '', KEYS[1], ttl) end'',
      ''if #KEYS >= 8 then'',
      ''  local wanted = tonumber(ARGV[3])'',
      ''  if previous >= 0 and previous ~= wanted then redis.call('' @ quoted ''ZREM'' @ '', KEYS[3 + previous], ARGV[6]) end'',
      ''  redis.call('' @ quoted ''ZADD'' @ '', KEYS[3 + wanted], ARGV[4], ARGV[6])'',
      ''  redis.call('' @ quoted ''ZADD'' @ '', KEYS[2], ARGV[4], ARGV[6])'',
      ''end'',
      ''return {1, next_version, previous}'']"

definition release_script :: string where
  "release_script = text_lines
     [''-- sapo:claim.release v1'',
      ''-- KEYS[1] claim key, ARGV[1] token. Deletes only if the token still owns it,'',
      ''-- so a late release cannot drop a claim another caller took after expiry.'',
      ''if redis.call('' @ quoted ''GET'' @ '', KEYS[1]) == ARGV[1] then return redis.call('' @ quoted ''DEL'' @ '', KEYS[1]) end'',
      ''return 0'']"

section \<open>Writing\<close>

definition session_text :: "string \<Rightarrow> string" where
  "session_text sid = ''session '' @ quoted sid"

definition update_index ::
  "'w redis_store \<Rightarrow> string \<Rightarrow> session_status option \<Rightarrow> session_status \<Rightarrow> int \<Rightarrow> (unit, 'w) act" where
  "update_index st sid previous next updated =
     (let q = rs_options st; score = int_str updated
      in andthen (rc_pipeline (rs_client st)
           ((case previous of
               Some p \<Rightarrow> (if p \<noteq> next then [[''ZREM'', index_key q (Some p), sid]] else [])
             | None \<Rightarrow> []) @
            [[''ZADD'', index_key q (Some next), score, sid], [''ZADD'', index_key q None, score, sid]]))
         (each (throw_if_error ''redis index update failed'')))"

definition write_keys :: "store_options \<Rightarrow> string \<Rightarrow> string list" where
  "write_keys q key = key # (if ro_atomic_index q then index_key q None # status_index_keys q else [])"

definition write_command :: "'w redis_store \<Rightarrow> checkpoint \<Rightarrow> int \<Rightarrow> string \<Rightarrow> string list" where
  "write_command st c expected key =
     (let keys = write_keys (rs_options st) key
      in [''EVAL'', save_script, int_str (int (length keys))] @ keys @
         [serialize st c, int_str expected, int_str (int (status_index (ck_status c))), int_str (ck_updated_ms c),
          int_str (ro_ttl_seconds (rs_options st)), ck_session_id c])"

definition write_answer :: "'w redis_store \<Rightarrow> checkpoint \<Rightarrow> rvalue \<Rightarrow> (save_outcome, 'w) act" where
  "write_answer st c reply =
     (let failed = ''redis write of '' @ session_text (ck_session_id c)
      in case reply_items reply of
           [a, b, p] \<Rightarrow>
             (let code = reply_int 0 a; version = reply_int 0 b; previous = reply_int (- 1) p
              in if code = 1 then
                   andthen (if ro_atomic_index (rs_options st) then yields ()
                            else update_index st (ck_session_id c) (status_from_index previous) (ck_status c) (ck_updated_ms c))
                     (\<lambda>_. yields \<lparr>so_result = SaveOk, so_version = version\<rparr>)
                 else if code = 0 then yields \<lparr>so_result = VersionConflict, so_version = version\<rparr>
                 else if code = - 1 then yields \<lparr>so_result = Gone, so_version = 0\<rparr>
                 else fails (failed @ '' returned an unknown code '' @ int_str code))
         | _ \<Rightarrow> fails (failed @ '' returned '' @ describe_reply 120 reply @
                  '', expected a 3-element array (is the save script intact on the server?)''))"

definition redis_write :: "'w redis_store \<Rightarrow> checkpoint \<Rightarrow> int \<Rightarrow> (save_outcome, 'w) act" where
  "redis_write st c expected =
     andthen (session_key (rs_options st) (ck_session_id c)) (\<lambda>key.
     andthen (rc_command (rs_client st) (write_command st c expected key)) (\<lambda>reply.
     andthen (throw_if_error (''redis write of '' @ session_text (ck_session_id c) @ '' failed'') reply) (\<lambda>_.
       write_answer st c reply)))"

definition redis_save :: "'w redis_store \<Rightarrow> checkpoint \<Rightarrow> (unit, 'w) act" where
  "redis_save st c =
     andthen (redis_write st c (- 1)) (\<lambda>outcome.
       if so_ok outcome then yields ()
       else fails (''unconditional redis write of '' @ session_text (ck_session_id c) @ '' was refused''))"

definition redis_save_if :: "'w redis_store \<Rightarrow> checkpoint \<Rightarrow> int \<Rightarrow> (save_outcome, 'w) act" where
  "redis_save_if st c expected =
     (if expected < 0 then fails ''saveIf() needs an expected version >= 0; use save() for an unconditional write''
      else redis_write st c expected)"

section \<open>Reading\<close>

definition loaded :: "'w redis_store \<Rightarrow> string \<Rightarrow> rvalue \<Rightarrow> (checkpoint option, 'w) act" where
  "loaded st sid reply =
     (let failed = ''redis load of '' @ session_text sid
      in case reply_items reply of
           [blob, version] \<Rightarrow>
             (if blob = RNil then yields None
              else case reply_text blob of
                None \<Rightarrow> fails (failed @ '' returned '' @ describe_reply 120 blob)
              | Some t \<Rightarrow>
                  (case rs_parse st t of
                     None \<Rightarrow> fails (session_text sid @ '' holds a corrupt checkpoint: '' @ rs_parse_what st t)
                   | Some d \<Rightarrow>
                       andthen (demand (checkpoint_from_json d)) (\<lambda>c.
                         yields (Some (c\<lparr>ck_version := reply_int (ck_version c) version\<rparr>)))))
         | _ \<Rightarrow> fails (failed @ '' returned '' @ describe_reply 120 reply))"

definition redis_load :: "'w redis_store \<Rightarrow> string \<Rightarrow> (checkpoint option, 'w) act" where
  "redis_load st sid =
     andthen (session_key (rs_options st) sid) (\<lambda>key.
     andthen (rc_command (rs_client st) [''HMGET'', key, ''blob'', ''version'']) (\<lambda>reply.
     andthen (throw_if_error (''redis load of '' @ session_text sid @ '' failed'') reply) (\<lambda>_.
       loaded st sid reply)))"

definition redis_remove :: "'w redis_store \<Rightarrow> string \<Rightarrow> (bool, 'w) act" where
  "redis_remove st sid =
     (let q = rs_options st; failed = ''redis remove of '' @ session_text sid
      in andthen (session_key q sid) (\<lambda>key.
         andthen (rc_command (rs_client st) [''HGET'', key, ''status'']) (\<lambda>status_reply.
         andthen (throw_if_error (failed @ '' failed'') status_reply) (\<lambda>_.
           let previous = (case reply_text status_reply of Some t \<Rightarrow> status_from_string t | None \<Rightarrow> None);
               batch = [''DEL'', key] # (case previous of
                         Some p \<Rightarrow> [[''ZREM'', index_key q None, sid], [''ZREM'', index_key q (Some p), sid]]
                       | None \<Rightarrow> remove_from_every_index q sid)
           in andthen (rc_pipeline (rs_client st) batch) (\<lambda>replies.
                case replies of
                  [] \<Rightarrow> fails (failed @ '' got no reply'')
                | r # _ \<Rightarrow> andthen (throw_if_error (failed @ '' failed'') r) (\<lambda>_. yields (0 < reply_int 0 r)))))))"

definition redis_count :: "'w redis_store \<Rightarrow> session_status option \<Rightarrow> (int, 'w) act" where
  "redis_count st status =
     andthen (rc_command (rs_client st) [''ZCARD'', index_key (rs_options st) status]) (\<lambda>reply.
     andthen (throw_if_error ''redis count failed'' reply) (\<lambda>_. yields (max 0 (reply_int 0 reply))))"

text \<open>One reply of \<open>list\<close>: the session it holds, or the indexes to clear of it.\<close>

definition listed :: "'w redis_store \<Rightarrow> string \<Rightarrow> rvalue \<Rightarrow> checkpoint list \<times> string list list" where
  "listed st sid reply =
     (case reply_items reply of
        [blob, version] \<Rightarrow>
          (if blob = RNil then ([], remove_from_every_index (rs_options st) sid)
           else case reply_text blob of
             None \<Rightarrow> ([], [])
           | Some t \<Rightarrow>
               (case rs_parse st t of
                  None \<Rightarrow> ([], [])
                | Some d \<Rightarrow>
                    (case checkpoint_from_json d of
                       None \<Rightarrow> ([], [])
                     | Some c \<Rightarrow> ([c\<lparr>ck_version := reply_int (ck_version c) version\<rparr>], []))))
      | _ \<Rightarrow> ([], remove_from_every_index (rs_options st) sid))"

text \<open>A call whose exceptions are caught and forgotten.\<close>

definition attempt_quietly :: "('a, 's) act \<Rightarrow> (unit, 's) act" where
  "attempt_quietly m = (\<lambda>s. (Val (), snd (m s)))"

definition redis_list :: "'w redis_store \<Rightarrow> (checkpoint list, 'w) act" where
  "redis_list st =
     (let q = rs_options st; client = rs_client st
      in if ro_max_list q = 0 then yields []
         else andthen (rc_command client [''ZREVRANGE'', index_key q None, ''0'', int_str (int (ro_max_list q) - 1)]) (\<lambda>reply.
           andthen (throw_if_error ''redis list failed'' reply) (\<lambda>_.
           let ids = List.map_filter reply_text (reply_items reply)
           in if ids = [] then yields []
              else andthen (in_turn (map (session_key q) ids)) (\<lambda>keys.
                andthen (rc_pipeline client (map (\<lambda>k. [''HMGET'', k, ''blob'', ''version'']) keys)) (\<lambda>replies.
                let parts = map (\<lambda>(i, r). listed st i r) (zip ids replies);
                    prune = concat (map snd parts)
                in andthen (if prune = [] then yields () else attempt_quietly (rc_pipeline client prune)) (\<lambda>_.
                   yields (sort_key ck_session_id (concat (map fst parts)))))))))"

section \<open>Claims\<close>

definition try_claim :: "'w redis_store \<Rightarrow> string \<Rightarrow> string \<Rightarrow> int \<Rightarrow> (bool, 'w) act" where
  "try_claim st sid token ttl =
     (if token = [] then fails ''tryClaim() needs a non-empty token (use the execution id)''
      else if ttl \<le> 0 then fails ''tryClaim() needs a positive ttl_ms so a crashed holder cannot wedge the session''
      else andthen (claim_key (rs_options st) sid) (\<lambda>key.
        andthen (rc_command (rs_client st) [''SET'', key, token, ''NX'', ''PX'', int_str ttl]) (\<lambda>reply.
        andthen (throw_if_error (''redis claim of '' @ session_text sid @ '' failed'') reply) (\<lambda>_.
          yields (is_ok_status reply)))))"

definition release_claim :: "'w redis_store \<Rightarrow> string \<Rightarrow> string \<Rightarrow> (bool, 'w) act" where
  "release_claim st sid token =
     andthen (claim_key (rs_options st) sid) (\<lambda>key.
     andthen (rc_command (rs_client st) [''EVAL'', release_script, ''1'', key, token]) (\<lambda>reply.
     andthen (throw_if_error (''redis release of claim '' @ quoted sid @ '' failed'') reply) (\<lambda>_.
       yields (0 < reply_int 0 reply))))"

section \<open>Maintenance\<close>

definition prune_page :: int where
  "prune_page = 500"

text \<open>The sessions of a page whose hash is gone, given the replies to the probes.\<close>

definition stale_ids :: "string list \<Rightarrow> rvalue list \<Rightarrow> string list" where
  "stale_ids ids replies = map fst (filter (\<lambda>(i, r). reply_int 0 r = 0) (zip ids replies))"

definition probe_page :: "'w redis_store \<Rightarrow> string list \<Rightarrow> (string list, 'w) act" where
  "probe_page st ids =
     andthen (in_turn (map (session_key (rs_options st)) ids)) (\<lambda>keys.
       if keys = [] then yields []
       else andthen (rc_pipeline (rs_client st) (map (\<lambda>k. [''EXISTS'', k]) keys)) (\<lambda>replies.
         yields (stale_ids ids replies)))"

text \<open>The passes; the code stops after 100000 of them.\<close>

fun prune_passes :: "'w redis_store \<Rightarrow> nat \<Rightarrow> int \<Rightarrow> nat \<Rightarrow> (nat, 'w) act" where
  "prune_passes st 0 offset removed = yields removed"
| "prune_passes st (Suc guard) offset removed =
     (let q = rs_options st; client = rs_client st
      in andthen (rc_command client [''ZRANGE'', index_key q None, int_str offset, int_str (offset + prune_page - 1)]) (\<lambda>page.
         andthen (throw_if_error ''redis pruneExpired failed'' page) (\<lambda>_.
         let members = reply_items page; ids = List.map_filter reply_text members
         in if members = [] then yields removed
            else andthen (probe_page st ids) (\<lambda>stale.
              let gone = removed + length stale;
                  prune = concat (map (remove_from_every_index q) stale)
              in if prune \<noteq> [] then
                   andthen (rc_pipeline client prune) (\<lambda>replies.
                   andthen (each (throw_if_error ''redis pruneExpired failed'') replies) (\<lambda>_.
                     prune_passes st guard offset gone))
                 else if int (length members) < prune_page then yields gone
                 else prune_passes st guard (offset + int (length ids)) gone))))"

definition prune_expired :: "'w redis_store \<Rightarrow> (nat, 'w) act" where
  "prune_expired st = prune_passes st 100000 0 0"

section \<open>The store over the in-memory client\<close>

definition sapo_store :: "(json \<Rightarrow> string) \<Rightarrow> (string \<Rightarrow> json option) \<Rightarrow> mock_redis redis_store" where
  "sapo_store dump parse =
     \<lparr>rs_client = mock_client, rs_options = default_store_options, rs_dump = dump, rs_pretty = dump, rs_parse = parse,
      rs_parse_what = (\<lambda>t. ''parse error'')\<rparr>"

definition key_of :: "string \<Rightarrow> string" where
  "key_of sid = ''sapo:session:'' @ sid"

definition index_keys :: "string list" where
  "index_keys = index_key default_store_options None # status_index_keys default_store_options"

lemma sapo_store_simps [simp]:
  "rs_client (sapo_store dump parse) = mock_client" "rs_options (sapo_store dump parse) = default_store_options"
  "rs_dump (sapo_store dump parse) = dump" "rs_parse (sapo_store dump parse) = parse"
  by (simp_all add: sapo_store_def)

lemma default_options_simps [simp]:
  "ro_key_prefix default_store_options = ''sapo:session:''" "ro_atomic_index default_store_options"
  "ro_ttl_seconds default_store_options = 900" "ro_compact_json default_store_options"
  "ro_claim_prefix default_store_options = ''sapo:claim:''"
  by (simp_all add: default_store_options_def)

lemma key_not_indexed: "key_of sid \<notin> set index_keys"
  by (simp add: key_of_def index_keys_def index_key_def status_index_keys_def status_names_def default_store_options_def)

lemma length_index_keys: "length index_keys = 7"
  by (simp add: index_keys_def status_index_keys_def status_names_def)

lemma whole_int_str [simp]: "- (2 ^ 63) \<le> n \<Longrightarrow> n < 2 ^ 63 \<Longrightarrow> whole_int (int_str n) = Some n"
  by (simp add: whole_int_def sto_int_int_str)

lemma parse_int_str [simp]: "- (2 ^ 63) \<le> n \<Longrightarrow> n < 2 ^ 63 \<Longrightarrow> parse_int d (int_str n) = n"
  by (simp add: parse_int_def)

text \<open>A session's entry: a hash with a readable document, its version and its status.\<close>

definition session_entry :: "(string \<Rightarrow> json option) \<Rightarrow> mentry \<Rightarrow> bool" where
  "session_entry parse e \<longleftrightarrow> me_kind e = KHash \<and>
     (\<exists>t c. hash_get e ''blob'' = Some t \<and> parse t = Some (checkpoint_to_json c)) \<and>
     (\<exists>v. hash_get e ''version'' = Some (int_str v) \<and> 0 \<le> v \<and> v < 2 ^ 63) \<and>
     (\<exists>k. hash_get e ''status'' = Some (int_str k) \<and> 0 \<le> k \<and> k < 6)"

definition ready :: "(string \<Rightarrow> json option) \<Rightarrow> mock_redis \<Rightarrow> bool" where
  "ready parse m \<longleftrightarrow> \<not> mr_down m \<and> mr_failures m = 0 \<and> mr_scripts m = mr_scripts new_mock \<and> 0 \<le> ks_now (mr_keys m) \<and>
     (\<forall>sid e. sid \<noteq> [] \<longrightarrow> live (key_of sid) (mr_keys m) = Some e \<longrightarrow> session_entry parse e)"

lemma new_mock_scripts: "mr_scripts new_mock = [(save_marker, SaveScript), (release_marker, ReleaseScript)]"
  by (simp add: new_mock_def install_sapo_scripts_def on_script_def save_marker_def release_marker_def)

lemma new_mock_ready: "ready parse new_mock"
  by (simp add: ready_def new_mock_def install_sapo_scripts_def on_script_def empty_keyspace_def live_def)

definition saw :: "string list \<Rightarrow> keyspace \<Rightarrow> mock_redis \<Rightarrow> mock_redis" where
  "saw args ks m = m\<lparr>mr_recorded := mr_recorded m @ [args], mr_keys := ks\<rparr>"

lemma mock_command_ready:
  "ready parse m \<Longrightarrow> mock_command args m =
     (case dispatch_verb (mr_scripts new_mock) args (mr_keys m) of (r, ks) \<Rightarrow> (r, saw args ks m))"
  by (simp add: mock_command_def Let_def ready_def saw_def split: prod.split)

lemma ready_saw:
  assumes "ready parse m" and "ks_now ks = ks_now (mr_keys m)"
    and "\<And>sid. sid \<noteq> [] \<Longrightarrow>
      live (key_of sid) ks = live (key_of sid) (mr_keys m) \<or>
      (\<exists>e. live (key_of sid) ks = Some e \<and> session_entry parse e) \<or> live (key_of sid) ks = None"
  shows "ready parse (saw args ks m)"
proof -
  have "session_entry parse e" if "sid \<noteq> []" "live (key_of sid) ks = Some e" for sid e
    using assms(1) assms(3) [OF that(1)] that by (auto simp: ready_def)
  with assms(1,2) show ?thesis by (auto simp: ready_def saw_def)
qed

section \<open>Commands of the store\<close>

lemma verb_hmget: "dispatch_verb scripts (''HMGET'' # args) ks = plain_verb (v_hmget (''HMGET'' # args) ks)"
  by (simp add: dispatch_verb_def Let_def plain_verbs_def upper_text_def to_upper_def is_lower_def byte_def)

lemma verb_eval: "dispatch_verb scripts (''EVAL'' # args) ks = v_eval scripts (''EVAL'' # args) ks"
  by (simp add: dispatch_verb_def Let_def upper_text_def to_upper_def is_lower_def byte_def)

lemma verb_set: "dispatch_verb scripts (''SET'' # args) ks = plain_verb (v_set (''SET'' # args) ks)"
  by (simp add: dispatch_verb_def Let_def plain_verbs_def upper_text_def to_upper_def is_lower_def byte_def)

lemma find_sub_prefix: "find_sub n (n @ r) = Some 0"
  by (simp add: find_sub.simps [of n "n @ r"] starts_with_iff)

lemma eval_save:
  assumes "length keys < 2 ^ 62"
  shows "v_eval (mr_scripts new_mock) ([''EVAL'', save_script, int_str (int (length keys))] @ keys @ argv) ks = run_save keys argv ks"
proof -
  have "find_sub save_marker save_script = Some 0"
    unfolding save_script_def save_marker_def text_lines_def list.map concat.simps append_assoc by (rule find_sub_prefix)
  moreover have "drop (length keys + 3) (a # b # c # keys @ argv) = argv" for a b c :: string
    by (simp add: numeral_3_eq_3)
  ultimately show ?thesis using assms by (simp add: v_eval_def new_mock_scripts run_script_def Let_def)
qed

lemma eval_release:
  "v_eval (mr_scripts new_mock) [''EVAL'', release_script, ''1'', key, token] ks = plain_verb (run_release [key] [token] [] ks)"
proof -
  have "find_sub release_marker release_script = Some 0"
    unfolding release_script_def release_marker_def text_lines_def list.map concat.simps append_assoc by (rule find_sub_prefix)
  moreover have "find_sub save_marker release_script = None" by code_simp
  moreover have "parse_int (- 1) ''1'' = 1" by code_simp
  ultimately show ?thesis by (simp add: v_eval_def new_mock_scripts run_script_def Let_def)
qed

section \<open>The save script\<close>

definition session_argv :: "string \<Rightarrow> int \<Rightarrow> checkpoint \<Rightarrow> string list" where
  "session_argv blob expected c =
     [blob, int_str expected, int_str (int (status_index (ck_status c))), int_str (ck_updated_ms c), int_str 900, ck_session_id c]"

lemma status_index_less: "status_index s < 6"
  by (cases s) simp_all

definition version_at :: "string \<Rightarrow> keyspace \<Rightarrow> int" where
  "version_at sid ks = current_version (live (key_of sid) ks)"

lemma session_entry_reads:
  assumes "session_entry parse e"
  shows "0 \<le> current_version (Some e) \<and> current_version (Some e) < 2 ^ 63 \<and> 0 \<le> previous_status (Some e) \<and>
    previous_status (Some e) < 6 \<and> hash_get e ''version'' = Some (int_str (current_version (Some e)))"
  using assms by (auto simp: session_entry_def current_version_def previous_status_def)

lemma index_session_some:
  assumes "previous < 6"
  obtains ks' where "index_session (key # index_keys) (session_argv blob expected c) previous ks = Some ks'"
    and "ks_now ks' = ks_now ks" and "\<And>k. k \<notin> set index_keys \<Longrightarrow> live k ks' = live k ks"
proof -
  let ?keys = "key # index_keys" and ?argv = "session_argv blob expected c"
  define score where "score = parse_double (?argv ! 3)"
  have at: "\<exists>k \<in> set index_keys. key_at ?keys (2 + i) = Some k" if "0 \<le> i" "i < 6" for i :: int
  proof -
    from that have "nat (2 + i) < length ?keys" "nat (2 + i) = Suc (nat (1 + i))" by (simp_all add: length_index_keys)
    then have "key_at ?keys (2 + i) = Some (index_keys ! nat (1 + i))" "nat (1 + i) < length index_keys"
      using that by (simp_all add: key_at_def)
    then show ?thesis by (metis nth_mem)
  qed
  have w: "parse_int 0 (?argv ! 2) = int (status_index (ck_status c))"
    using status_index_less [of "ck_status c"] by (simp add: session_argv_def)
  obtain kw where kw: "key_at ?keys (2 + int (status_index (ck_status c))) = Some kw" "kw \<in> set index_keys"
    using at [of "int (status_index (ck_status c))"] status_index_less [of "ck_status c"] by auto
  define removes where "removes \<longleftrightarrow> 0 \<le> previous \<and> previous \<noteq> int (status_index (ck_status c))"
  obtain kp where kp: "removes \<longrightarrow> key_at ?keys (2 + previous) = Some kp" "kp \<in> set index_keys"
    using at [of previous] assms kw(2) by (cases removes) (auto simp: removes_def)
  define ks1 where "ks1 = (if removes then zrem kp (ck_session_id c) ks else ks)"
  define ks' where "ks' = zadd (index_keys ! 0) score (ck_session_id c) (zadd kw score (ck_session_id c) ks1)"
  have "?argv ! 5 = ck_session_id c" "?keys ! 1 = index_keys ! 0" by (simp_all add: session_argv_def)
  then have run: "index_session ?keys ?argv previous ks = Some ks'"
    using w kw(1) kp(1) by (simp add: index_session_def Let_def ks'_def ks1_def score_def removes_def)
  have now: "ks_now ks' = ks_now ks" by (simp add: ks'_def ks1_def live_simps)
  have other: "live k ks' = live k ks" if "k \<notin> set index_keys" for k
  proof -
    have "index_keys ! 0 \<in> set index_keys" by (simp add: length_index_keys)
    with that kw(2) kp(2) have "k \<noteq> index_keys ! 0" "k \<noteq> kw" "k \<noteq> kp" by auto
    then show ?thesis by (simp add: ks'_def ks1_def live_simps)
  qed
  from run now other show ?thesis by (rule that)
qed

lemma hash_get_set: "hash_get (hash_set f v e) g = (if g = f then Some v else hash_get e g)"
  by (simp add: hash_get_def hash_set_def update_conv)

lemma saved_entry_reads:
  assumes "0 \<le> now"
  shows "hash_get (saved_entry (session_argv blob expected c) n now e) ''blob'' = Some blob"
    and "hash_get (saved_entry (session_argv blob expected c) n now e) ''version'' = Some (int_str n)"
    and "hash_get (saved_entry (session_argv blob expected c) n now e) ''status'' =
           Some (int_str (int (status_index (ck_status c))))"
    and "\<not> expired now (saved_entry (session_argv blob expected c) n now e)"
    and "me_kind (saved_entry (session_argv blob expected c) n now e) = me_kind e"
proof -
  have [simp]: "hash_get (x\<lparr>me_expires := y\<rparr>) = hash_get x" for x y by (simp add: hash_get_def fun_eq_iff)
  have [simp]: "me_kind (hash_set f v x) = me_kind x" for f v x by (simp add: hash_set_def)
  show "hash_get (saved_entry (session_argv blob expected c) n now e) ''blob'' = Some blob"
    and "hash_get (saved_entry (session_argv blob expected c) n now e) ''version'' = Some (int_str n)"
    and "hash_get (saved_entry (session_argv blob expected c) n now e) ''status'' =
           Some (int_str (int (status_index (ck_status c))))"
    and "\<not> expired now (saved_entry (session_argv blob expected c) n now e)"
    and "me_kind (saved_entry (session_argv blob expected c) n now e) = me_kind e"
    using assms by (simp_all add: saved_entry_def session_argv_def Let_def hash_get_set expired_def)
qed

definition refusal :: "mentry option \<Rightarrow> rvalue" where
  "refusal found =
     RArr (if found = None then [RInt (- 1), RInt 0, RInt (- 1)] else [RInt 0, RInt (current_version found), RInt (- 1)])"

lemma run_save_eq:
  assumes "length argv = 6" and "8 \<le> length keys"
  shows "run_save keys argv ks0 =
    (let found = live (keys ! 0) ks0; ks = snd (find_live (keys ! 0) ks0); current = current_version found;
         expected = parse_int (- 1) (argv ! 1); previous = previous_status found
     in if 0 \<le> expected \<and> current \<noteq> expected then (Val (refusal found), ks)
        else let ks1 = put_key (keys ! 0) (saved_entry argv (current + 1) (ks_now ks) (entry_for (keys ! 0) KHash ks)) ks
             in case index_session keys argv previous ks1 of
                  Some ks2 \<Rightarrow> (Val (RArr [RInt 1, RInt (current + 1), RInt previous]), ks2) | None \<Rightarrow> (Crash, ks1))"
proof -
  from assms have "keys \<noteq> []" "\<not> length argv < 6" "\<not> length keys < 8" by auto
  then show ?thesis unfolding run_save_def by (subst find_live_eq) (simp add: Let_def refusal_def)
qed

lemma length_session_argv: "length (session_argv blob expected c) = 6" "session_argv blob expected c ! Suc 0 = int_str expected"
  by (simp_all add: session_argv_def)

lemma run_save_refuses:
  assumes "0 \<le> expected" and "expected < 2 ^ 63" and "version_at sid ks \<noteq> expected"
  shows "run_save (key_of sid # index_keys) (session_argv blob expected c) ks =
    (Val (refusal (live (key_of sid) ks)), snd (find_live (key_of sid) ks))"
  using assms
  by (subst run_save_eq) (simp_all add: length_session_argv length_index_keys version_at_def Let_def)

lemma run_save_writes:
  assumes "0 \<le> ks_now ks" and "\<And>e. live (key_of sid) ks = Some e \<Longrightarrow> session_entry parse e"
    and "- (2 ^ 63) \<le> expected" and "expected < 2 ^ 63" and "expected < 0 \<or> version_at sid ks = expected"
  obtains ks' e p where
    "run_save (key_of sid # index_keys) (session_argv blob expected c) ks =
       (Val (RArr [RInt 1, RInt (version_at sid ks + 1), RInt p]), ks')"
    and "ks_now ks' = ks_now ks" and "live (key_of sid) ks' = Some e" and "me_kind e = KHash"
    and "hash_get e ''blob'' = Some blob" and "hash_get e ''version'' = Some (int_str (version_at sid ks + 1))"
    and "hash_get e ''status'' = Some (int_str (int (status_index (ck_status c))))"
    and "\<And>k. k \<noteq> key_of sid \<Longrightarrow> k \<notin> set index_keys \<Longrightarrow> live k ks' = live k ks"
proof -
  let ?key = "key_of sid" and ?keys = "key_of sid # index_keys" and ?argv = "session_argv blob expected c"
  define found where "found = live ?key ks"
  define base where "base = snd (find_live ?key ks)"
  define e where "e = saved_entry ?argv (version_at sid ks + 1) (ks_now ks) (entry_for ?key KHash base)"
  define ks1 where "ks1 = put_key ?key e base"
  have now: "ks_now base = ks_now ks" by (simp add: base_def live_simps)
  have prev: "previous_status found < 6"
    using assms(2) session_entry_reads by (cases found) (auto simp: found_def previous_status_def)
  obtain ks2 where ks2: "index_session ?keys ?argv (previous_status found) ks1 = Some ks2" "ks_now ks2 = ks_now ks1"
      "\<And>k. k \<notin> set index_keys \<Longrightarrow> live k ks2 = live k ks1"
    using index_session_some [OF prev] by blast
  have go: "\<not> (0 \<le> expected \<and> version_at sid ks \<noteq> expected)" using assms(5) by auto
  have len: "length ?argv = 6" "8 \<le> length ?keys" by (simp_all add: length_session_argv length_index_keys)
  have at: "live ?key ks = found" "snd (find_live ?key ks) = base" "current_version found = version_at sid ks"
    "?keys ! 0 = ?key" "parse_int (- 1) (?argv ! 1) = expected"
    using assms(3,4) by (simp_all add: found_def base_def version_at_def length_session_argv)
  have run: "run_save ?keys ?argv ks = (Val (RArr [RInt 1, RInt (version_at sid ks + 1), RInt (previous_status found)]), ks2)"
    unfolding run_save_eq [OF len] Let_def at if_not_P [OF go] using ks2(1) by (simp add: ks1_def e_def now)
  have clock: "ks_now ks2 = ks_now ks" by (simp add: ks2(2) ks1_def live_simps now)
  have alive: "live ?key ks2 = Some e"
    unfolding ks2(3) [OF key_not_indexed] ks1_def live_put now using saved_entry_reads(4) [OF assms(1)] by (simp add: e_def)
  have kind: "me_kind e = KHash" by (simp add: e_def saved_entry_reads(5) [OF assms(1)] entry_for_def)
  have other: "live k ks2 = live k ks" if "k \<noteq> ?key" "k \<notin> set index_keys" for k
    using that by (simp add: ks2(3) ks1_def base_def live_simps)
  show ?thesis
    by (rule that [OF run clock alive kind, OF _ _ _ other])
      (simp_all add: e_def saved_entry_reads(1-3) [OF assms(1)])
qed

section \<open>What the store holds\<close>

definition document_of :: "(string \<Rightarrow> json option) \<Rightarrow> mentry \<Rightarrow> checkpoint option" where
  "document_of parse e =
     (case hash_get e ''blob'' of
        None \<Rightarrow> None
      | Some t \<Rightarrow> (case parse t of None \<Rightarrow> None | Some d \<Rightarrow> checkpoint_from_json d))"

definition held :: "(string \<Rightarrow> json option) \<Rightarrow> string \<Rightarrow> keyspace \<Rightarrow> checkpoint option" where
  "held parse sid ks =
     (case live (key_of sid) ks of
        None \<Rightarrow> None
      | Some e \<Rightarrow> map_option (\<lambda>c. c\<lparr>ck_version := current_version (Some e)\<rparr>) (document_of parse e))"

definition load_command :: "string \<Rightarrow> string list" where
  "load_command sid = [''HMGET'', key_of sid, ''blob'', ''version'']"

lemma session_key_default: "sid \<noteq> [] \<Longrightarrow> session_key default_store_options sid = yields (key_of sid)"
  by (simp add: session_key_def key_of_def)

lemma hmget_session:
  "v_hmget (load_command sid) ks =
     (case live (key_of sid) ks of
        None \<Rightarrow> (RArr [RNil, RNil], snd (find_live (key_of sid) ks))
      | Some e \<Rightarrow>
          ((if me_kind e = KHash then RArr [bulk_or_nil (hash_get e ''blob''), bulk_or_nil (hash_get e ''version'')]
            else wrong_type), snd (find_live (key_of sid) ks)))"
proof -
  have "arg_at (load_command sid) 1 = key_of sid" "drop 2 (load_command sid) = [''blob'', ''version'']"
    by (simp_all add: load_command_def arg_at_def)
  then show ?thesis unfolding v_hmget_def by (subst find_live_eq) (simp split: option.split)
qed

lemma load_ready:
  assumes "ready parse m" and "sid \<noteq> []"
  shows "redis_load (sapo_store dump parse) sid m =
    (Val (held parse sid (mr_keys m)), saw (load_command sid) (snd (find_live (key_of sid) (mr_keys m))) m)"
proof -
  let ?ks = "mr_keys m"
  have run: "mock_command (load_command sid) m =
      (case v_hmget (load_command sid) ?ks of (r, ks) \<Rightarrow> (Val r, saw (load_command sid) ks m))"
    using verb_hmget [of _ "tl (load_command sid)"]
    by (simp add: mock_command_ready [OF assms(1)] load_command_def plain_verb_def split: prod.split)
  have start: "redis_load (sapo_store dump parse) sid = andthen (mock_command (load_command sid)) (\<lambda>reply.
      andthen (throw_if_error (''redis load of '' @ session_text sid @ '' failed'') reply) (\<lambda>_.
        loaded (sapo_store dump parse) sid reply))"
    by (simp add: redis_load_def session_key_default [OF assms(2)] mock_client_def load_command_def)
  show ?thesis
  proof (cases "live (key_of sid) ?ks")
    case None
    then show ?thesis by (simp add: start run hmget_session andthen_def loaded_def held_def Let_def)
  next
    case (Some e)
    with assms have e: "session_entry parse e" by (auto simp: ready_def)
    then obtain t c where t: "hash_get e ''blob'' = Some t" "parse t = Some (checkpoint_to_json c)" "me_kind e = KHash"
      by (auto simp: session_entry_def)
    have v: "hash_get e ''version'' = Some (int_str (current_version (Some e)))"
        "- (2 ^ 63) \<le> current_version (Some e)" "current_version (Some e) < 2 ^ 63"
      using session_entry_reads [OF e] by auto
    from whole_int_str [OF v(2,3)] have r: "reply_int d (RBulk (int_str (current_version (Some e)))) = current_version (Some e)" for d
      by simp
    show ?thesis using Some t v(1)
      by (simp add: start run hmget_session andthen_def loaded_def held_def document_of_def bulk_or_nil_def
          checkpoint_from_to_json r del: reply_int.simps)
  qed
qed

text \<open>What the Redis store takes: an identifier, and a document its library reads back.\<close>

definition storable :: "(json \<Rightarrow> string) \<Rightarrow> (string \<Rightarrow> json option) \<Rightarrow> checkpoint \<Rightarrow> bool" where
  "storable dump parse c \<longleftrightarrow> ck_session_id c \<noteq> [] \<and> parse (dump (checkpoint_to_json c)) = Some (checkpoint_to_json c)"

definition countable_version :: "int \<Rightarrow> bool" where
  "countable_version v \<longleftrightarrow> 0 \<le> v \<and> v < 2 ^ 63 - 1"

definition save_command :: "(json \<Rightarrow> string) \<Rightarrow> checkpoint \<Rightarrow> int \<Rightarrow> string list" where
  "save_command dump c expected =
     [''EVAL'', save_script, int_str 8] @ (key_of (ck_session_id c) # index_keys) @
     session_argv (dump (checkpoint_to_json c)) expected c"

lemma write_start:
  assumes "ready parse m" and "ck_session_id c \<noteq> []"
  shows "redis_write (sapo_store dump parse) c expected m =
    andthen (\<lambda>m. case run_save (key_of (ck_session_id c) # index_keys) (session_argv (dump (checkpoint_to_json c)) expected c) (mr_keys m)
                 of (r, ks) \<Rightarrow> (r, saw (save_command dump c expected) ks m))
      (\<lambda>reply. andthen (throw_if_error (''redis write of '' @ session_text (ck_session_id c) @ '' failed'') reply)
        (\<lambda>_. write_answer (sapo_store dump parse) c reply)) m"
proof -
  let ?keys = "key_of (ck_session_id c) # index_keys"
  have len: "int (length ?keys) = 8" "length ?keys < 2 ^ 62" by (simp_all add: length_index_keys)
  have keys: "write_keys default_store_options (key_of (ck_session_id c)) = ?keys" by (simp add: write_keys_def index_keys_def)
  have cmd: "write_command (sapo_store dump parse) c expected (key_of (ck_session_id c)) = save_command dump c expected"
    unfolding write_command_def sapo_store_simps keys Let_def len(1)
    by (simp add: save_command_def session_argv_def serialize_def)
  have "mock_command (save_command dump c expected) m =
      (case run_save ?keys (session_argv (dump (checkpoint_to_json c)) expected c) (mr_keys m)
       of (r, ks) \<Rightarrow> (r, saw (save_command dump c expected) ks m))"
    unfolding mock_command_ready [OF assms(1)] save_command_def
    using eval_save [OF len(2), of "session_argv (dump (checkpoint_to_json c)) expected c" "mr_keys m", unfolded len(1)]
      verb_eval [of "mr_scripts new_mock" "[save_script, int_str 8] @ ?keys @ session_argv (dump (checkpoint_to_json c)) expected c" "mr_keys m"]
    by simp
  then show ?thesis
    by (simp add: redis_write_def session_key_default [OF assms(2)] mock_client_def cmd andthen_def del: append.simps)
qed

lemma write_refuses:
  assumes "ready parse m" and "storable dump parse c" and "0 \<le> expected" and "expected < 2 ^ 63"
    and "version_at (ck_session_id c) (mr_keys m) \<noteq> expected"
  shows "redis_write (sapo_store dump parse) c expected m =
    (Val (if live (key_of (ck_session_id c)) (mr_keys m) = None then \<lparr>so_result = Gone, so_version = 0\<rparr>
          else \<lparr>so_result = VersionConflict, so_version = version_at (ck_session_id c) (mr_keys m)\<rparr>),
     saw (save_command dump c expected) (snd (find_live (key_of (ck_session_id c)) (mr_keys m))) m)"
proof -
  have "ck_session_id c \<noteq> []" using assms(2) by (simp add: storable_def)
  note start = write_start [OF assms(1) this]
  show ?thesis unfolding start andthen_def run_save_refuses [OF assms(3-5)]
    by (simp add: refusal_def write_answer_def Let_def version_at_def)
qed

lemma write_accepts:
  assumes "ready parse m" and "storable dump parse c" and "- (2 ^ 63) \<le> expected" and "expected < 2 ^ 63"
    and "countable_version (version_at (ck_session_id c) (mr_keys m))"
    and "expected < 0 \<or> version_at (ck_session_id c) (mr_keys m) = expected"
  obtains m' where "redis_write (sapo_store dump parse) c expected m =
      (Val \<lparr>so_result = SaveOk, so_version = version_at (ck_session_id c) (mr_keys m) + 1\<rparr>, m')"
    and "ready parse m'"
    and "held parse (ck_session_id c) (mr_keys m') =
           Some (c\<lparr>ck_version := version_at (ck_session_id c) (mr_keys m) + 1\<rparr>)"
    and "\<And>i. i \<noteq> ck_session_id c \<Longrightarrow> held parse i (mr_keys m') = held parse i (mr_keys m)"
proof -
  let ?sid = "ck_session_id c" and ?ks = "mr_keys m"
  let ?v = "version_at ?sid ?ks"
  have sid: "?sid \<noteq> []" and doc: "parse (dump (checkpoint_to_json c)) = Some (checkpoint_to_json c)"
    using assms(2) by (simp_all add: storable_def)
  have now: "0 \<le> ks_now ?ks" and entries: "\<And>e. live (key_of ?sid) ?ks = Some e \<Longrightarrow> session_entry parse e"
    using assms(1) sid by (auto simp: ready_def)
  have v: "0 \<le> ?v + 1" "?v + 1 < 2 ^ 63" "- (2 ^ 63) \<le> ?v + 1" using assms(5) by (simp_all add: countable_version_def)
  obtain ks' e p where run: "run_save (key_of ?sid # index_keys) (session_argv (dump (checkpoint_to_json c)) expected c) ?ks =
       (Val (RArr [RInt 1, RInt (?v + 1), RInt p]), ks')"
    and clock: "ks_now ks' = ks_now ?ks" and e: "live (key_of ?sid) ks' = Some e" "me_kind e = KHash"
    and reads: "hash_get e ''blob'' = Some (dump (checkpoint_to_json c))" "hash_get e ''version'' = Some (int_str (?v + 1))"
      "hash_get e ''status'' = Some (int_str (int (status_index (ck_status c))))"
    and other: "\<And>k. k \<noteq> key_of ?sid \<Longrightarrow> k \<notin> set index_keys \<Longrightarrow> live k ks' = live k ?ks"
    by (rule run_save_writes [OF now entries assms(3,4,6), where blob = "dump (checkpoint_to_json c)" and c = c])
      (assumption | rule that)+
  let ?m = "saw (save_command dump c expected) ks' m"
  have good: "session_entry parse e"
    using e reads doc v status_index_less [of "ck_status c"]
    by (auto simp: session_entry_def intro: exI [where x = "?v + 1"] exI [where x = "int (status_index (ck_status c))"])
  have apart: "live (key_of i) ks' = live (key_of i) ?ks" if "i \<noteq> ?sid" for i
    using other [of "key_of i"] key_not_indexed [of i] that by (simp add: key_of_def)
  have "redis_write (sapo_store dump parse) c expected m = (Val \<lparr>so_result = SaveOk, so_version = ?v + 1\<rparr>, ?m)"
    unfolding write_start [OF assms(1) sid] andthen_def run by (simp add: write_answer_def Let_def)
  moreover have "ready parse ?m"
    by (rule ready_saw [OF assms(1) clock]) (use apart e good in metis)
  moreover have "held parse ?sid (mr_keys ?m) = Some (c\<lparr>ck_version := ?v + 1\<rparr>)"
    using e reads doc parse_int_str [OF v(3,2)]
    by (simp add: saw_def held_def document_of_def current_version_def checkpoint_from_to_json)
  moreover have "held parse i (mr_keys ?m) = held parse i ?ks" if "i \<noteq> ?sid" for i
    using apart [OF that] by (simp add: saw_def held_def)
  ultimately show ?thesis by (rule that)
qed

section \<open>The contract\<close>

definition rload :: "(json \<Rightarrow> string) \<Rightarrow> (string \<Rightarrow> json option) \<Rightarrow> string \<Rightarrow> mock_redis \<Rightarrow> checkpoint option" where
  "rload dump parse sid m = (case fst (redis_load (sapo_store dump parse) sid m) of Val r \<Rightarrow> r | _ \<Rightarrow> None)"

definition rsave :: "(json \<Rightarrow> string) \<Rightarrow> (string \<Rightarrow> json option) \<Rightarrow> checkpoint \<Rightarrow> mock_redis \<Rightarrow> mock_redis" where
  "rsave dump parse c m = snd (redis_save (sapo_store dump parse) c m)"

definition rsave_if ::
  "(json \<Rightarrow> string) \<Rightarrow> (string \<Rightarrow> json option) \<Rightarrow> checkpoint \<Rightarrow> int \<Rightarrow> mock_redis \<Rightarrow> mock_redis \<times> save_outcome" where
  "rsave_if dump parse c e m =
     (case redis_save_if (sapo_store dump parse) c e m of
        (Val r, m') \<Rightarrow> (m', r) | (_, m') \<Rightarrow> (m', \<lparr>so_result = Gone, so_version = 0\<rparr>))"

lemma rload_held: "ready parse m \<Longrightarrow> rload dump parse sid m = (if sid = [] then None else held parse sid (mr_keys m))"
  by (simp add: rload_def load_ready) (simp add: redis_load_def session_key_def fails_def)

lemma version_held:
  assumes "ready parse m" and "sid \<noteq> []"
  shows "(case rload dump parse sid m of Some c \<Rightarrow> ck_version c | None \<Rightarrow> 0) = version_at sid (mr_keys m)"
    and "rload dump parse sid m = None \<longleftrightarrow> live (key_of sid) (mr_keys m) = None"
proof -
  have "\<exists>c. document_of parse e = Some c" if "live (key_of sid) (mr_keys m) = Some e" for e
  proof -
    from assms that have "session_entry parse e" by (auto simp: ready_def)
    then show ?thesis by (auto simp: session_entry_def document_of_def checkpoint_from_to_json)
  qed
  then show "(case rload dump parse sid m of Some c \<Rightarrow> ck_version c | None \<Rightarrow> 0) = version_at sid (mr_keys m)"
    and "rload dump parse sid m = None \<longleftrightarrow> live (key_of sid) (mr_keys m) = None"
    using assms(2)
    by (auto simp: rload_held [OF assms(1)] held_def version_at_def current_version_def split: option.splits)
qed

lemma rsave_accepts:
  assumes "ready parse m" and "storable dump parse c"
    and "(case rload dump parse (ck_session_id c) m of Some o' \<Rightarrow> ck_version o' | None \<Rightarrow> 0) = v" and "countable_version v"
  shows "ready parse (rsave dump parse c m)"
    and "rload dump parse (ck_session_id c) (rsave dump parse c m) = Some (c\<lparr>ck_version := v + 1\<rparr>)"
    and "i \<noteq> ck_session_id c \<Longrightarrow> rload dump parse i (rsave dump parse c m) = rload dump parse i m"
proof -
  have sid: "ck_session_id c \<noteq> []" using assms(2) by (simp add: storable_def)
  have v: "version_at (ck_session_id c) (mr_keys m) = v" using version_held(1) [OF assms(1) sid] assms(3) by simp
  obtain m' where m': "redis_write (sapo_store dump parse) c (- 1) m = (Val \<lparr>so_result = SaveOk, so_version = v + 1\<rparr>, m')"
    "ready parse m'" "held parse (ck_session_id c) (mr_keys m') = Some (c\<lparr>ck_version := v + 1\<rparr>)"
    "\<And>i. i \<noteq> ck_session_id c \<Longrightarrow> held parse i (mr_keys m') = held parse i (mr_keys m)"
    by (rule write_accepts [OF assms(1,2), of "- 1", unfolded v]) (use assms(4) in \<open>simp_all\<close>)
  then have "rsave dump parse c m = m'" by (simp add: rsave_def redis_save_def so_ok_def)
  with m' sid show "ready parse (rsave dump parse c m)"
    and "rload dump parse (ck_session_id c) (rsave dump parse c m) = Some (c\<lparr>ck_version := v + 1\<rparr>)"
    and "i \<noteq> ck_session_id c \<Longrightarrow> rload dump parse i (rsave dump parse c m) = rload dump parse i m"
    by (simp_all add: rload_held assms(1))
qed

lemma rsave_if_accepts:
  assumes "ready parse m" and "storable dump parse c"
    and "(case rload dump parse (ck_session_id c) m of Some o' \<Rightarrow> ck_version o' | None \<Rightarrow> 0) = e" and "countable_version e"
  obtains m' where "rsave_if dump parse c e m = (m', \<lparr>so_result = SaveOk, so_version = e + 1\<rparr>)" and "ready parse m'"
    and "rload dump parse (ck_session_id c) m' = Some (c\<lparr>ck_version := e + 1\<rparr>)"
    and "\<And>i. i \<noteq> ck_session_id c \<Longrightarrow> rload dump parse i m' = rload dump parse i m"
proof -
  have sid: "ck_session_id c \<noteq> []" using assms(2) by (simp add: storable_def)
  have v: "version_at (ck_session_id c) (mr_keys m) = e" using version_held(1) [OF assms(1) sid] assms(3) by simp
  have e: "0 \<le> e" "e < 2 ^ 63" "- (2 ^ 63) \<le> e" using assms(4) by (simp_all add: countable_version_def)
  obtain m' where m': "redis_write (sapo_store dump parse) c e m = (Val \<lparr>so_result = SaveOk, so_version = e + 1\<rparr>, m')"
    "ready parse m'" "held parse (ck_session_id c) (mr_keys m') = Some (c\<lparr>ck_version := e + 1\<rparr>)"
    "\<And>i. i \<noteq> ck_session_id c \<Longrightarrow> held parse i (mr_keys m') = held parse i (mr_keys m)"
    by (rule write_accepts [OF assms(1,2) e(3,2), unfolded v]) (use assms(4) in simp_all)
  show ?thesis
    by (rule that [of m']) (use m' e sid in \<open>simp_all add: rsave_if_def redis_save_if_def rload_held assms(1)\<close>)
qed

lemma rsave_if_refuses:
  assumes "ready parse m" and "storable dump parse c"
    and "(case rload dump parse (ck_session_id c) m of Some o' \<Rightarrow> ck_version o' | None \<Rightarrow> 0) \<noteq> e" and "countable_version e"
  shows "ready parse (fst (rsave_if dump parse c e m))"
    and "rload dump parse i (fst (rsave_if dump parse c e m)) = rload dump parse i m"
    and "\<not> so_ok (snd (rsave_if dump parse c e m))"
    and "so_version (snd (rsave_if dump parse c e m)) =
           (case rload dump parse (ck_session_id c) m of Some o' \<Rightarrow> ck_version o' | None \<Rightarrow> 0)"
proof -
  let ?k = "key_of (ck_session_id c)" and ?v = "version_at (ck_session_id c) (mr_keys m)"
  have sid: "ck_session_id c \<noteq> []" using assms(2) by (simp add: storable_def)
  note v = version_held(1) [OF assms(1) sid, of dump]
  have e: "0 \<le> e" "e < 2 ^ 63" using assms(4) by (simp_all add: countable_version_def)
  let ?m = "saw (save_command dump c e) (snd (find_live ?k (mr_keys m))) m"
  have run: "rsave_if dump parse c e m =
      (?m, if live ?k (mr_keys m) = None then \<lparr>so_result = Gone, so_version = 0\<rparr>
           else \<lparr>so_result = VersionConflict, so_version = ?v\<rparr>)"
    using write_refuses [OF assms(1,2) e, of] assms(3) e unfolding v by (simp add: rsave_if_def redis_save_if_def)
  have same: "live k (mr_keys ?m) = live k (mr_keys m)" for k by (simp add: saw_def live_simps)
  have "ready parse ?m" by (rule ready_saw [OF assms(1)]) (simp_all add: live_simps)
  then show "ready parse (fst (rsave_if dump parse c e m))"
    and "rload dump parse i (fst (rsave_if dump parse c e m)) = rload dump parse i m"
    by (simp_all add: run rload_held assms(1) held_def same)
  show "\<not> so_ok (snd (rsave_if dump parse c e m))" by (simp add: run so_ok_def)
  show "so_version (snd (rsave_if dump parse c e m)) =
      (case rload dump parse (ck_session_id c) m of Some o' \<Rightarrow> ck_version o' | None \<Rightarrow> 0)"
    unfolding v by (simp add: run version_at_def current_version_def)
qed

interpretation redis: cas_store "rload dump parse" "rsave dump parse" "rsave_if dump parse" "ready parse"
  "storable dump parse" countable_version
  for dump parse
proof
  fix s c v
  assume a: "ready parse s" "storable dump parse c"
    "(case rload dump parse (ck_session_id c) s of Some o' \<Rightarrow> ck_version o' | None \<Rightarrow> 0) = v" "countable_version v"
  show "ready parse (rsave dump parse c s)" by (rule rsave_accepts(1) [OF a])
  show "rload dump parse (ck_session_id c) (rsave dump parse c s) = Some (c\<lparr>ck_version := v + 1\<rparr>)"
    by (rule rsave_accepts(2) [OF a])
  show "rload dump parse i (rsave dump parse c s) = rload dump parse i s" if "i \<noteq> ck_session_id c" for i
    by (rule rsave_accepts(3) [OF a that])
next
  fix s c e
  assume a: "ready parse s" "storable dump parse c" "countable_version e"
  let ?fits = "(case rload dump parse (ck_session_id c) s of Some o' \<Rightarrow> ck_version o' | None \<Rightarrow> 0) = e"
  show "ready parse (fst (rsave_if dump parse c e s))"
    by (cases ?fits) (metis rsave_if_accepts [OF a(1,2) _ a(3)] fst_conv, rule rsave_if_refuses(1) [OF a(1,2) _ a(3)])
  show "rload dump parse i (fst (rsave_if dump parse c e s)) = rload dump parse i s" if "i \<noteq> ck_session_id c" for i
    using that by (cases ?fits)
      (metis rsave_if_accepts [OF a(1,2) _ a(3)] fst_conv, rule rsave_if_refuses(2) [OF a(1,2) _ a(3)])
  show "rload dump parse (ck_session_id c) (fst (rsave_if dump parse c e s)) = Some (c\<lparr>ck_version := e + 1\<rparr>) \<and>
      snd (rsave_if dump parse c e s) = \<lparr>so_result = SaveOk, so_version = e + 1\<rparr>" if ?fits
    by (rule rsave_if_accepts [OF a(1,2) that a(3)]) simp
  show "rload dump parse i (fst (rsave_if dump parse c e s)) = rload dump parse i s \<and>
      \<not> so_ok (snd (rsave_if dump parse c e s)) \<and>
      so_version (snd (rsave_if dump parse c e s)) =
        (case rload dump parse (ck_session_id c) s of Some o' \<Rightarrow> ck_version o' | None \<Rightarrow> 0)" if "\<not> ?fits" for i
    by (intro conjI rsave_if_refuses(2-4) [OF a(1,2) that a(3)])
qed

section \<open>Claims over the in-memory client\<close>

definition claim_of :: "string \<Rightarrow> string" where
  "claim_of sid = ''sapo:claim:'' @ sid"

lemma claim_key_default: "sid \<noteq> [] \<Longrightarrow> claim_key default_store_options sid = yields (claim_of sid)"
  by (simp add: claim_key_def claim_of_def)

lemma claim_is_no_session: "claim_of sid \<noteq> key_of sid'"
  by (simp add: claim_of_def key_of_def)

definition set_command :: "string \<Rightarrow> string \<Rightarrow> int \<Rightarrow> string list" where
  "set_command sid token ttl = [''SET'', claim_of sid, token, ''NX'', ''PX'', int_str ttl]"

definition claim_entry :: "string \<Rightarrow> string \<Rightarrow> int \<Rightarrow> keyspace \<Rightarrow> mentry" where
  "claim_entry sid token ttl ks =
     (entry_for (claim_of sid) KString ks)\<lparr>me_text := token, me_hash := [], me_zset := [], me_expires := ttl\<rparr>"

lemma claim_entry_simps [simp]:
  "me_kind (claim_entry sid token ttl ks) = KString" "me_text (claim_entry sid token ttl ks) = token"
  "me_expires (claim_entry sid token ttl ks) = ttl"
  by (simp_all add: claim_entry_def entry_for_def)

lemma claim_flags:
  assumes "0 < ttl" and "ttl < 2 ^ 63"
  shows "read_flags [''NX'', ''PX'', int_str ttl] \<lparr>sf_absent = False, sf_present = False, sf_expiry = 0\<rparr> =
    Some \<lparr>sf_absent = True, sf_present = False, sf_expiry = ttl\<rparr>"
proof -
  have "upper_text ''NX'' = ''NX''" "upper_text ''PX'' = ''PX''" by code_simp+
  with assms show ?thesis by (simp add: arg_at_def)
qed

lemma set_claim:
  assumes "0 < ttl" and "ttl < 2 ^ 63"
  shows "v_set (set_command sid token ttl) ks0 =
    (let ks = snd (find_live (claim_of sid) ks0)
     in if live (claim_of sid) ks0 = None
        then (RStatus ''OK'', put_key (claim_of sid) (claim_entry sid token ttl ks) ks) else (RNil, ks))"
proof -
  have "arg_at (set_command sid token ttl) 1 = claim_of sid" "arg_at (set_command sid token ttl) 2 = token"
    "drop 3 (set_command sid token ttl) = [''NX'', ''PX'', int_str ttl]" "\<not> length (set_command sid token ttl) < 3"
    by (simp_all add: set_command_def arg_at_def)
  then show ?thesis unfolding v_set_def
    by (subst find_live_eq) (simp add: claim_flags [OF assms] claim_entry_def Let_def del: read_flags.simps)
qed

lemma try_claim_ready:
  assumes "ready parse m" and "sid \<noteq> []" and "token \<noteq> []" and "0 < ttl" and "ttl < 2 ^ 63"
  shows "try_claim (sapo_store dump parse) sid token ttl m =
    (let ks = snd (find_live (claim_of sid) (mr_keys m))
     in if live (claim_of sid) (mr_keys m) = None
        then (Val True, saw (set_command sid token ttl) (put_key (claim_of sid) (claim_entry sid token ttl ks) ks) m)
        else (Val False, saw (set_command sid token ttl) ks m))"
proof -
  have "mock_command (set_command sid token ttl) m =
      (case v_set (set_command sid token ttl) (mr_keys m) of (r, ks) \<Rightarrow> (Val r, saw (set_command sid token ttl) ks m))"
    using verb_set [of _ "tl (set_command sid token ttl)"]
    by (simp add: mock_command_ready [OF assms(1)] set_command_def plain_verb_def split: prod.split)
  moreover have "try_claim (sapo_store dump parse) sid token ttl = andthen (mock_command (set_command sid token ttl)) (\<lambda>reply.
      andthen (throw_if_error (''redis claim of '' @ session_text sid @ '' failed'') reply) (\<lambda>_. yields (is_ok_status reply)))"
    using assms(3,4) by (simp add: try_claim_def claim_key_default [OF assms(2)] mock_client_def set_command_def)
  ultimately show ?thesis
    by (simp add: set_claim [OF assms(4,5)] andthen_def Let_def)
qed

lemma release_claim_ready:
  assumes "ready parse m" and "sid \<noteq> []"
  shows "release_claim (sapo_store dump parse) sid token m =
    (let ks = snd (find_live (claim_of sid) (mr_keys m)); args = [''EVAL'', release_script, ''1'', claim_of sid, token]
     in case live (claim_of sid) (mr_keys m) of
          Some e \<Rightarrow> if me_kind e = KString \<and> me_text e = token then (Val True, saw args (drop_key (claim_of sid) ks) m)
                    else (Val False, saw args ks m)
        | None \<Rightarrow> (Val False, saw args ks m))"
proof -
  let ?args = "[''EVAL'', release_script, ''1'', claim_of sid, token]"
  define ans where "ans = (let ks = snd (find_live (claim_of sid) (mr_keys m)) in
      case live (claim_of sid) (mr_keys m) of
        Some e \<Rightarrow> if me_kind e = KString \<and> me_text e = token then (1, drop_key (claim_of sid) ks) else (0, ks)
      | None \<Rightarrow> (0 :: int, ks))"
  obtain n ks where e: "ans = (n, ks)" by fastforce
  have r: "run_release [claim_of sid] [token] [] (mr_keys m) = (RInt n, ks)"
    using e unfolding ans_def run_release_def
    by (subst find_live_eq) (auto simp: Let_def split: option.splits if_splits)
  have "mock_command ?args m = (Val (RInt n), saw ?args ks m)"
    unfolding mock_command_ready [OF assms(1)] verb_eval eval_release r by (simp add: plain_verb_def)
  then have "release_claim (sapo_store dump parse) sid token m = (Val (0 < n), saw ?args ks m)"
    by (simp add: release_claim_def claim_key_default [OF assms(2)] mock_client_def andthen_def)
  with e show ?thesis unfolding ans_def by (auto simp: Let_def split: option.splits if_splits)
qed

lemma live_advance:
  assumes "0 \<le> dt" and "live k (ks\<lparr>ks_now := ks_now ks + dt\<rparr>) = Some e"
  shows "live k ks = Some e"
  using assms by (auto simp: live_def expired_def split: option.splits if_splits)

lemma ready_advance:
  assumes "ready parse m" and "0 \<le> dt"
  shows "ready parse (advance_time dt m)"
proof -
  have "session_entry parse e" if "sid \<noteq> []" "live (key_of sid) (mr_keys (advance_time dt m)) = Some e" for sid e
    using assms(1) that(1) live_advance [OF assms(2), of "key_of sid" "mr_keys m" e] that(2)
    by (simp add: ready_def advance_time_def)
  with assms show ?thesis by (simp add: ready_def advance_time_def)
qed

lemma ready_claim:
  assumes "ready parse m" and "ks_now ks = ks_now (mr_keys m)"
    and "\<And>k. k \<noteq> claim_of sid \<Longrightarrow> live k ks = live k (mr_keys m)"
  shows "ready parse (saw args ks m)"
proof -
  have same: "live (key_of i) ks = live (key_of i) (mr_keys m)" for i
    by (rule assms(3)) (rule claim_is_no_session [symmetric])
  show ?thesis by (rule ready_saw [OF assms(1,2)]) (rule disjI1, rule same)
qed

section \<open>Properties\<close>

text \<open>The conditional saves of one session in the order the server runs them.\<close>

fun redis_race ::
  "(json \<Rightarrow> string) \<Rightarrow> (string \<Rightarrow> json option) \<Rightarrow> checkpoint list \<Rightarrow> int \<Rightarrow> mock_redis \<Rightarrow> mock_redis \<times> save_outcome list" where
  "redis_race dump parse [] e m = (m, [])"
| "redis_race dump parse (c # cs) e m =
     (case rsave_if dump parse c e m of (m', r) \<Rightarrow> (case redis_race dump parse cs e m' of (m'', rs) \<Rightarrow> (m'', r # rs)))"

lemma redis_race_race: "redis_race dump parse cs e m = redis.race dump parse cs e m"
  by (induction cs arbitrary: m) (simp_all add: redis.race.simps split_beta)

text \<open>
  C11: Optimistic concurrency across engine nodes: of any number of writers that send \<open>saveIf\<close> for one session from the
  version Redis holds, exactly one succeeds, the first the server runs, and \<open>load\<close> then answers with its checkpoint
  and the next version.
\<close>

theorem redis_store_one_winner:
  assumes "ready parse m" and "list_all (\<lambda>c. ck_session_id c = i \<and> storable dump parse c) cs" and "cs \<noteq> []"
    and "countable_version e" and "(case rload dump parse i m of Some c \<Rightarrow> ck_version c | None \<Rightarrow> 0) = e"
  shows "length (filter so_ok (snd (redis_race dump parse cs e m))) = 1 \<and>
         rload dump parse i (fst (redis_race dump parse cs e m)) = Some ((hd cs)\<lparr>ck_version := e + 1\<rparr>)"
  using redis.race_one_winner [of cs i dump parse m e] assms
  by (simp add: redis_race_race list_all_iff redis.version_of_def)

definition sample_parse :: "string \<Rightarrow> json option" where
  "sample_parse t = (if t = ''ask'' then Some (checkpoint_to_json sample_checkpoint) else None)"

theorem redis_store_one_winner_witness:
  "length (filter so_ok (snd (redis_race (\<lambda>d. ''ask'') sample_parse [sample_checkpoint, sample_checkpoint] 0 new_mock))) = 1"
proof -
  have "live k (mr_keys new_mock) = None" for k
    by (simp add: new_mock_def install_sapo_scripts_def on_script_def empty_keyspace_def live_def)
  then have absent: "rload (\<lambda>d. ''ask'') sample_parse ''s1'' new_mock = None"
    by (simp add: rload_held new_mock_ready held_def)
  have "storable (\<lambda>d. ''ask'') sample_parse sample_checkpoint" "ck_session_id sample_checkpoint = ''s1''"
    by (simp_all add: storable_def sample_parse_def sample_checkpoint_def)
  then show ?thesis
    using redis_store_one_winner [OF new_mock_ready, of "''s1''" "\<lambda>d. ''ask''" sample_parse "[sample_checkpoint, sample_checkpoint]" 0]
      absent by (simp add: countable_version_def)
qed

lemma claim_taken:
  assumes "ready parse m" and "sid \<noteq> []" and "token \<noteq> []" and "0 < ttl" and "ttl < 2 ^ 63"
    and "try_claim (sapo_store dump parse) sid token ttl m = (Val True, m1)"
  shows "ready parse m1" and "ks_now (mr_keys m1) = ks_now (mr_keys m)"
    and "\<exists>e. map_of (ks_data (mr_keys m1)) (claim_of sid) = Some e \<and> me_kind e = KString \<and> me_text e = token \<and> me_expires e = ttl"
proof -
  let ?ks = "snd (find_live (claim_of sid) (mr_keys m))"
  have m1: "m1 = saw (set_command sid token ttl) (put_key (claim_of sid) (claim_entry sid token ttl ?ks) ?ks) m"
    using assms(6) unfolding try_claim_ready [OF assms(1-5)] by (simp add: Let_def split: if_splits)
  show "ready parse m1" unfolding m1 by (rule ready_claim [where sid = sid, OF assms(1)]) (simp_all add: live_simps)
  show "ks_now (mr_keys m1) = ks_now (mr_keys m)" by (simp add: m1 saw_def live_simps)
  show "\<exists>e. map_of (ks_data (mr_keys m1)) (claim_of sid) = Some e \<and> me_kind e = KString \<and> me_text e = token \<and> me_expires e = ttl"
    by (simp add: m1 saw_def put_key_def update_conv)
qed

definition claim_held :: "(string \<Rightarrow> json option) \<Rightarrow> string \<Rightarrow> string \<Rightarrow> int \<Rightarrow> mock_redis \<Rightarrow> bool" where
  "claim_held parse sid token ttl m \<longleftrightarrow>
     ready parse m \<and> ks_now (mr_keys m) < ttl \<and>
     (\<exists>e. live (claim_of sid) (mr_keys m) = Some e \<and> me_kind e = KString \<and> me_text e = token \<and> me_expires e = ttl)"

lemma claim_held_keeps:
  assumes "claim_held parse sid token ttl m"
  shows "claim_held parse sid token ttl (saw args (snd (find_live (claim_of sid) (mr_keys m))) m)"
proof -
  have "ready parse (saw args (snd (find_live (claim_of sid) (mr_keys m))) m)"
    by (rule ready_claim [where sid = sid]) (use assms in \<open>simp_all add: claim_held_def live_simps\<close>)
  with assms show ?thesis by (simp add: claim_held_def saw_def live_simps)
qed

lemma claim_held_advance:
  assumes "claim_held parse sid token ttl m" and "0 \<le> dt" and "ks_now (mr_keys m) + dt < ttl"
  shows "claim_held parse sid token ttl (advance_time dt m)"
  using assms ready_advance [of parse m dt]
  by (auto simp: claim_held_def advance_time_def live_def expired_def split: option.splits if_splits)

text \<open>What the nodes of a cluster do about one session while one of them holds its claim.\<close>

datatype claim_op = TryClaim string int | ReleaseClaim string | PassTime int

fun claim_step ::
  "(json \<Rightarrow> string) \<Rightarrow> (string \<Rightarrow> json option) \<Rightarrow> string \<Rightarrow> claim_op \<Rightarrow> mock_redis \<Rightarrow> bool ev \<times> mock_redis" where
  "claim_step dump parse sid (TryClaim t ttl) m = try_claim (sapo_store dump parse) sid t ttl m"
| "claim_step dump parse sid (ReleaseClaim t) m = release_claim (sapo_store dump parse) sid t m"
| "claim_step dump parse sid (PassTime dt) m = (Val False, advance_time dt m)"

fun claim_run ::
  "(json \<Rightarrow> string) \<Rightarrow> (string \<Rightarrow> json option) \<Rightarrow> string \<Rightarrow> claim_op list \<Rightarrow> mock_redis \<Rightarrow> bool ev list \<times> mock_redis" where
  "claim_run dump parse sid [] m = ([], m)"
| "claim_run dump parse sid (x # xs) m =
     (let (r, m1) = claim_step dump parse sid x m; (rs, m2) = claim_run dump parse sid xs m1 in (r # rs, m2))"

text \<open>Steps of others than the holder: any claim, and a release that does not show the holder's token.\<close>

fun by_others :: "string \<Rightarrow> claim_op \<Rightarrow> bool" where
  "by_others token (TryClaim t ttl) \<longleftrightarrow> t \<noteq> [] \<and> 0 < ttl \<and> ttl < 2 ^ 63"
| "by_others token (ReleaseClaim t) \<longleftrightarrow> t \<noteq> token"
| "by_others token (PassTime dt) \<longleftrightarrow> 0 \<le> dt"

fun time_of :: "claim_op \<Rightarrow> int" where
  "time_of (PassTime dt) = dt"
| "time_of _ = 0"

lemma claim_step_held:
  assumes "claim_held parse sid token ttl m" and "sid \<noteq> []" and "by_others token x" and "ks_now (mr_keys m) + time_of x < ttl"
  shows "\<exists>m1. claim_step dump parse sid x m = (Val False, m1) \<and> claim_held parse sid token ttl m1 \<and>
           ks_now (mr_keys m1) = ks_now (mr_keys m) + time_of x"
proof (cases x)
  case (TryClaim t u)
  with assms have r: "ready parse m" "t \<noteq> []" "0 < u" "u < 2 ^ 63" by (simp_all add: claim_held_def)
  obtain e where "live (claim_of sid) (mr_keys m) = Some e" using assms(1) by (auto simp: claim_held_def)
  with TryClaim claim_held_keeps [OF assms(1)] show ?thesis
    by (simp add: try_claim_ready [OF r(1) assms(2) r(2-4)] Let_def) (simp add: saw_def live_simps)
next
  case (ReleaseClaim t)
  obtain e where "live (claim_of sid) (mr_keys m) = Some e" "me_text e = token" and r: "ready parse m"
    using assms(1) by (auto simp: claim_held_def)
  with ReleaseClaim assms(3) claim_held_keeps [OF assms(1)] show ?thesis
    by (auto simp add: release_claim_ready [OF r assms(2)] Let_def) (simp add: saw_def live_simps)
next
  case (PassTime dt)
  with assms claim_held_advance [OF assms(1), of dt] show ?thesis by (simp add: advance_time_def)
qed

lemma claim_run_held:
  assumes "claim_held parse sid token ttl m" and "sid \<noteq> []" and "list_all (by_others token) xs"
    and "ks_now (mr_keys m) + sum_list (map time_of xs) < ttl" and "claim_run dump parse sid xs m = (rs, m2)"
  shows "list_all (\<lambda>r. r = Val False) rs \<and> claim_held parse sid token ttl m2"
  using assms
proof (induction xs arbitrary: m rs)
  case (Cons x xs)
  have t: "0 \<le> time_of y" if "by_others token y" for y using that by (cases y) simp_all
  have "0 \<le> sum_list (map time_of xs)"
    by (rule sum_list_nonneg) (use Cons.prems(3) t in \<open>auto simp: list_all_iff\<close>)
  with Cons.prems(4) have now: "ks_now (mr_keys m) + time_of x < ttl" by simp
  obtain m1 where m1: "claim_step dump parse sid x m = (Val False, m1)" "claim_held parse sid token ttl m1"
      "ks_now (mr_keys m1) = ks_now (mr_keys m) + time_of x"
    using claim_step_held [OF Cons.prems(1,2) _ now] Cons.prems(3) by auto
  obtain rs' where "claim_run dump parse sid xs m1 = (rs', m2)" "rs = Val False # rs'"
    using Cons.prems(5) m1(1) by (auto split: prod.splits)
  with Cons.IH [OF m1(2) Cons.prems(2)] Cons.prems(3,4) m1(3) show ?case by simp
qed simp

lemma claim_taken_held:
  assumes "ready parse m" and "sid \<noteq> []" and "token \<noteq> []" and "0 < ttl" and "ttl < 2 ^ 63"
    and "try_claim (sapo_store dump parse) sid token ttl m = (Val True, m1)" and "ks_now (mr_keys m) < ttl"
  shows "claim_held parse sid token ttl m1"
  using claim_taken [OF assms(1-6)] assms(7) by (auto simp: claim_held_def live_def expired_def)

lemma claim_held_released:
  assumes "claim_held parse sid token ttl m" and "sid \<noteq> []"
  shows "\<exists>m1. release_claim (sapo_store dump parse) sid token m = (Val True, m1) \<and> ready parse m1 \<and>
           live (claim_of sid) (mr_keys m1) = None"
proof -
  let ?ks = "drop_key (claim_of sid) (snd (find_live (claim_of sid) (mr_keys m)))"
  obtain e where e: "live (claim_of sid) (mr_keys m) = Some e" "me_kind e = KString" "me_text e = token" and r: "ready parse m"
    using assms(1) by (auto simp: claim_held_def)
  have "ready parse (saw args ?ks m)" for args
    by (rule ready_claim [where sid = sid, OF r]) (simp_all add: live_simps)
  moreover have "live (claim_of sid) (mr_keys (saw args ?ks m)) = None" for args by (simp add: saw_def live_simps)
  ultimately show ?thesis by (simp add: release_claim_ready [OF r assms(2)] Let_def e)
qed

text \<open>
  C12: A claim on a session is exclusive: once one caller has it, then whatever claims are tried on the session and
  whatever releases with another token follow, every one of them answers false and the claim stays; the holder's own
  token then still releases it, and after that the next claim succeeds.  This lasts as long as the clock of the
  in-memory client, which counts from zero, has not reached the claim's duration.
\<close>

theorem claims_are_exclusive:
  assumes "ready parse m" and "sid \<noteq> []" and "token \<noteq> []" and "0 < ttl" and "ttl < 2 ^ 63"
    and "try_claim (sapo_store dump parse) sid token ttl m = (Val True, m1)"
    and "list_all (by_others token) xs" and "ks_now (mr_keys m) + sum_list (map time_of xs) < ttl"
    and "claim_run dump parse sid xs m1 = (rs, m2)" and "other \<noteq> []" and "0 < ttl'" and "ttl' < 2 ^ 63"
  shows "list_all (\<lambda>r. r = Val False) rs \<and>
         (\<exists>m3. release_claim (sapo_store dump parse) sid token m2 = (Val True, m3) \<and>
               fst (try_claim (sapo_store dump parse) sid other ttl' m3) = Val True)"
proof -
  have t: "0 \<le> time_of y" if "by_others token y" for y using that by (cases y) simp_all
  have "0 \<le> sum_list (map time_of xs)"
    by (rule sum_list_nonneg) (use assms(7) t in \<open>auto simp: list_all_iff\<close>)
  with assms(8) have now: "ks_now (mr_keys m) < ttl" by simp
  have "ks_now (mr_keys m1) = ks_now (mr_keys m)" by (rule claim_taken(2) [OF assms(1-6)])
  with claim_run_held [OF claim_taken_held [OF assms(1-6) now] assms(2,7) _ assms(9)] assms(8)
  have run: "list_all (\<lambda>r. r = Val False) rs" "claim_held parse sid token ttl m2" by simp_all
  obtain m3 where m3: "release_claim (sapo_store dump parse) sid token m2 = (Val True, m3)" "ready parse m3"
      "live (claim_of sid) (mr_keys m3) = None"
    using claim_held_released [OF run(2) assms(2)] by blast
  then have "fst (try_claim (sapo_store dump parse) sid other ttl' m3) = Val True"
    by (simp add: try_claim_ready [OF m3(2) assms(2,10-12)] Let_def)
  with run m3 show ?thesis by blast
qed

theorem claims_are_exclusive_witness:
  "\<exists>m1 rs m2. claim_run (\<lambda>d. ''ask'') sample_parse ''s1''
       [TryClaim ''node-b'' 5000, ReleaseClaim ''node-b'', PassTime 4999, TryClaim ''node-c'' 10] m1 = (rs, m2) \<and>
     list_all (\<lambda>r. r = Val False) rs \<and> fst (release_claim (sapo_store (\<lambda>d. ''ask'') sample_parse) ''s1'' ''node-a'' m2) = Val True"
proof -
  let ?st = "sapo_store (\<lambda>d. ''ask'') sample_parse"
  let ?xs = "[TryClaim ''node-b'' 5000, ReleaseClaim ''node-b'', PassTime 4999, TryClaim ''node-c'' 10]"
  have "live k (mr_keys new_mock) = None" for k
    by (simp add: new_mock_def install_sapo_scripts_def on_script_def empty_keyspace_def live_def)
  then obtain m1 where m1: "try_claim ?st ''s1'' ''node-a'' 5000 new_mock = (Val True, m1)"
    by (simp add: try_claim_ready [OF new_mock_ready] Let_def)
  have now: "ks_now (mr_keys new_mock) + sum_list (map time_of ?xs) < 5000"
    by (simp add: new_mock_def install_sapo_scripts_def on_script_def empty_keyspace_def)
  obtain rs m2 where r: "claim_run (\<lambda>d. ''ask'') sample_parse ''s1'' ?xs m1 = (rs, m2)"
    by (rule prod.exhaust)
  from claims_are_exclusive [OF new_mock_ready _ _ _ _ m1 _ now r, of "''node-b''" 5000]
  have "list_all (\<lambda>r. r = Val False) rs \<and> fst (release_claim ?st ''s1'' ''node-a'' m2) = Val True" by auto
  with r show ?thesis by blast
qed

text \<open>
  The in-memory client takes the milliseconds of \<open>SET ... PX\<close> as an instant of its clock: once the clock has passed
  the claim's duration, a claim expires the moment it is taken, and a second caller takes it too.
\<close>

theorem late_claims_are_shared:
  assumes "ready parse m" and "sid \<noteq> []" and "a \<noteq> []" and "b \<noteq> []" and "0 < ttl" and "ttl < 2 ^ 63" and "ttl \<le> ks_now (mr_keys m)"
    and "try_claim (sapo_store dump parse) sid a ttl m = (Val True, m1)"
  shows "fst (try_claim (sapo_store dump parse) sid b ttl m1) = Val True"
proof -
  note taken = claim_taken [OF assms(1-3,5,6,8)]
  have "live (claim_of sid) (mr_keys m1) = None"
    using taken(2,3) assms(5,7) by (auto simp: live_def expired_def)
  then show ?thesis by (simp add: try_claim_ready [OF taken(1) assms(2,4,5,6)] Let_def)
qed

theorem late_claims_are_shared_witness:
  "\<exists>m1. fst (try_claim (sapo_store (\<lambda>d. ''ask'') sample_parse) ''s1'' ''node-b'' 5000 m1) = Val True"
proof -
  let ?st = "sapo_store (\<lambda>d. ''ask'') sample_parse" and ?m = "advance_time 5000 new_mock"
  have r: "ready sample_parse ?m" by (rule ready_advance [OF new_mock_ready]) simp
  have "live k (mr_keys ?m) = None" for k
    by (simp add: new_mock_def install_sapo_scripts_def on_script_def empty_keyspace_def live_def advance_time_def)
  then obtain m1 where m1: "try_claim ?st ''s1'' ''node-a'' 5000 ?m = (Val True, m1)"
    by (simp add: try_claim_ready [OF r] Let_def)
  have "5000 \<le> ks_now (mr_keys ?m)"
    by (simp add: new_mock_def install_sapo_scripts_def on_script_def empty_keyspace_def advance_time_def)
  from late_claims_are_shared [OF r _ _ _ _ _ this m1, of "''node-b''"]
  show ?thesis by (intro exI [where x = m1]) simp
qed

end
