(* ===== verification/Sapo_Validator.thy ===== *)
theory Sapo_Validator
  imports Sapo_Ast Sapo_Core
begin

text \<open>
  The blueprint validator (\<open>src/src/parser/BlueprintValidator.cpp\<close>, \<open>.hpp\<close>): the targets of a node, reachability, the
  issues of a blueprint in the order they are collected, and the refusal.  The two work lists of the source are one
  search \<open>explore\<close> over a graph in an association list; the recursive colouring takes as fuel one more than the number
  of indexed nodes, which is shown to be enough.
\<close>

section \<open>Targets\<close>

definition named :: "string option \<Rightarrow> string list" where
  "named t = (case t of Some x \<Rightarrow> (if x = [] then [] else [x]) | None \<Rightarrow> [])"

definition named_all :: "string list \<Rightarrow> string list" where
  "named_all ts = filter (\<lambda>x. x \<noteq> []) ts"

fun body_targets :: "node_body \<Rightarrow> string list" where
  "body_targets (Condition n) = named_all [cn_on_true n] @ named (cn_on_false n) @ named_all (cn_then_body n) @ named_all (cn_else_body n)"
| "body_targets (Choice n) = named_all (map snd (ch_cases n)) @ named (ch_default_target n)"
| "body_targets (Loop n) = named_all (lp_body n)"
| "body_targets (Try n) = named_all (ty_body n) @ named_all (ty_catch_body n) @ named_all (ty_finally_body n) @ named_all (map snd (ty_catch_when n))"
| "body_targets (Parallel n) = concat (map (\<lambda>b. named_all (br_node_ids b)) (pn_branches n))"
| "body_targets (Schedule n) = named_all [sd_body n]"
| "body_targets (Action n) = named_all (map tr_task_id (ac_next_tasks n)) @
     (case ac_on_event n of Some e \<Rightarrow> named (sy_handler e) | None \<Rightarrow> [])"
| "body_targets _ = []"

definition outgoing_targets :: "node \<Rightarrow> string list" where
  "outgoing_targets n = body_targets (nd_body n) @ named (nd_next n) @ named (nd_on_error n)"

section \<open>Work lists\<close>

type_synonym graph = "(string \<times> string list) list"

definition succs :: "graph \<Rightarrow> string \<Rightarrow> string list" where
  "succs g x = (case map_of g x of Some ts \<Rightarrow> ts | None \<Rightarrow> [])"

lemma succs_known: "y \<in> set (succs g x) \<Longrightarrow> y \<in> set (concat (map snd g))"
proof (cases "map_of g x")
  case (Some ts)
  then have "(x, ts) \<in> set g" by (rule map_of_SomeD)
  then show "y \<in> set (succs g x) \<Longrightarrow> y \<in> set (concat (map snd g))"
    using Some by (force simp: succs_def)
qed (simp add: succs_def)

text \<open>The vector used as a stack has its back at the head; targets pushed in order are popped in reverse.\<close>

function explore :: "(string \<Rightarrow> bool) \<Rightarrow> graph \<Rightarrow> string list \<Rightarrow> string list \<Rightarrow> string list" where
  "explore admit g seen [] = seen"
| "explore admit g seen (x # r) =
     (if \<not> admit x \<or> x \<in> set seen then explore admit g seen r
      else explore admit g (seen @ [x]) (rev (succs g x) @ r))"
  by pat_completeness auto
termination
proof (relation "measures [\<lambda>(admit, g, seen, st). card ((set st \<union> set (concat (map snd g))) - set seen),
    \<lambda>(admit, g, seen, st). length st]", goal_cases)
  case (2 admit g seen x r)
  let ?U = "set (concat (map snd g))"
  have "card ((set r \<union> ?U) - set seen) \<le> card ((set (x # r) \<union> ?U) - set seen)"
    by (rule card_mono) auto
  then show ?case by (simp add: le_less)
next
  case (3 admit g seen x r)
  let ?U = "set (concat (map snd g))"
  have "set (rev (succs g x) @ r) \<union> ?U \<subseteq> set (x # r) \<union> ?U" using succs_known [of _ g x] by auto
  then have "(set (rev (succs g x) @ r) \<union> ?U) - set (seen @ [x]) \<subset> (set (x # r) \<union> ?U) - set seen"
    using 3 by auto
  then have "card ((set (rev (succs g x) @ r) \<union> ?U) - set (seen @ [x])) < card ((set (x # r) \<union> ?U) - set seen)"
    by (intro psubset_card_mono) auto
  then show ?case by simp
qed simp

definition target_graph :: "workflow \<Rightarrow> graph" where
  "target_graph w = map (\<lambda>(i, n). (i, outgoing_targets n)) (wf_index w)"

definition reachable_from :: "workflow \<Rightarrow> string \<Rightarrow> string list" where
  "reachable_from w entry = explore (\<lambda>i. i \<noteq> [] \<and> find_node w i \<noteq> None) (target_graph w) [] [entry]"

text \<open>Inside a loop: a nested loop leads to its body, another node to its successor.\<close>

definition inside_targets :: "node \<Rightarrow> string list" where
  "inside_targets n = (case nd_body n of Loop l \<Rightarrow> lp_body l | _ \<Rightarrow> (case nd_next n of Some t \<Rightarrow> [t] | None \<Rightarrow> []))"

definition inside_graph :: "workflow \<Rightarrow> graph" where
  "inside_graph w = map (\<lambda>(i, n). (i, inside_targets n)) (wf_index w)"

definition loop_members :: "workflow \<Rightarrow> string list" where
  "loop_members w = concat (map (\<lambda>n. case nd_body n of
      Loop l \<Rightarrow> explore (\<lambda>i. True) (inside_graph w) [] (rev (lp_body l)) | _ \<Rightarrow> []) (wf_nodes w))"

section \<open>Issues\<close>

datatype issue_level = IWarning | IError

record issue =
  is_level :: issue_level
  is_node :: string
  is_message :: string

definition error_at :: "string \<Rightarrow> string \<Rightarrow> issue" where
  "error_at i m = \<lparr>is_level = IError, is_node = i, is_message = m\<rparr>"

definition warning_at :: "string \<Rightarrow> string \<Rightarrow> issue" where
  "warning_at i m = \<lparr>is_level = IWarning, is_node = i, is_message = m\<rparr>"

definition em_dash :: string where
  "em_dash = [CHR 0x20, CHR 0xE2, CHR 0x80, CHR 0x94, CHR 0x20]"

definition arrow :: string where
  "arrow = [CHR 0x20, CHR 0xE2, CHR 0x86, CHR 0x92, CHR 0x20]"

definition describe_issue :: "issue \<Rightarrow> string" where
  "describe_issue i =
     (if is_level i = IError then ''ERROR'' else ''WARNING'') @
     (if is_node i = [] then em_dash else '' ['' @ is_node i @ ''] '') @ is_message i"

definition issues_of :: "(node \<Rightarrow> issue list) \<Rightarrow> workflow \<Rightarrow> issue list" where
  "issues_of f w = concat (map f (wf_nodes w))"

definition node_ids :: "workflow \<Rightarrow> string list" where
  "node_ids w = filter (\<lambda>i. i \<noteq> []) (map nd_id (wf_nodes w))"

fun id_issues :: "string list \<Rightarrow> node list \<Rightarrow> issue list" where
  "id_issues seen [] = []"
| "id_issues seen (n # ns) =
     (if nd_id n = [] then error_at [] ''a node has an empty id'' # id_issues seen ns
      else if nd_id n \<in> set seen then error_at (nd_id n) ''duplicate node id'' # id_issues seen ns
      else id_issues (nd_id n # seen) ns)"

definition own_workflow :: "node \<Rightarrow> bool" where
  "own_workflow n = (case nd_body n of Schedule s \<Rightarrow> sd_workflow s \<noteq> None | _ \<Rightarrow> False)"

definition target_issues :: "workflow \<Rightarrow> node \<Rightarrow> issue list" where
  "target_issues w n =
     map (\<lambda>t. error_at (nd_id n) (''references unknown node id '' @ quoted t))
       (filter (\<lambda>t. t \<notin> set (node_ids w) \<and> \<not> own_workflow n) (outgoing_targets n)) @
     (if nd_next n = Some (nd_id n) then [error_at (nd_id n) (quoted ''next'' @ '' points at itself'')] else []) @
     (if nd_on_error n = Some (nd_id n) then [error_at (nd_id n) (quoted ''on_error'' @ '' points at itself'')] else [])"

definition control_issues :: "workflow \<Rightarrow> node \<Rightarrow> issue list" where
  "control_issues w n =
     (case nd_body n of
        LoopControl c \<Rightarrow>
          (case lc_loop c of
             Some l \<Rightarrow> (if l \<in> set (node_ids w) then []
                        else [error_at (nd_id n) (quoted ''loop'' @ '' targets unknown loop id '' @ quoted l)])
           | None \<Rightarrow>
               (if nd_id n \<in> set (loop_members w) then []
                else [error_at (nd_id n)
                        (lc_action c @ '' node is not inside a loop body (give it a '' @ quoted ''loop'' @
                         '' id or move it into the loop'' @ [CHR 0x27] @ ''s '' @ quoted ''body'' @ '')'')]))
      | _ \<Rightarrow> [])"

definition parallel_issues :: "node \<Rightarrow> issue list" where
  "parallel_issues n =
     (case nd_body n of
        Parallel p \<Rightarrow> map (\<lambda>b. error_at (nd_id n) ''parallel branch includes the node itself'')
                       (filter (\<lambda>b. nd_id n \<in> set (br_node_ids b)) (pn_branches p))
      | _ \<Rightarrow> [])"

definition subflow_issues :: "workflow \<Rightarrow> node \<Rightarrow> issue list" where
  "subflow_issues w n =
     (case nd_body n of
        Subflow s \<Rightarrow>
          (if md_name (wf_metadata w) \<noteq> [] \<and> sf_workflow s = md_name (wf_metadata w)
           then [error_at (nd_id n) (''subflow starts its own workflow ('' @ quoted (sf_workflow s) @ ''), which recurses forever'')]
           else [])
      | _ \<Rightarrow> [])"

definition reach_issues :: "workflow \<Rightarrow> string list \<Rightarrow> string \<Rightarrow> node \<Rightarrow> issue list" where
  "reach_issues w reached entry n =
     (if \<not> nd_enabled n \<or> nd_id n \<in> set reached \<or> node_type n = TSchedule then []
      else [warning_at (nd_id n) (''node is unreachable from the entry node '' @ quoted entry)])"

section \<open>Cycles\<close>

record dfs =
  df_colour :: "(string \<times> nat) list"
  df_reported :: "string list"
  df_issues :: "issue list"

definition colour_of :: "dfs \<Rightarrow> string \<Rightarrow> nat" where
  "colour_of d i = (case map_of (df_colour d) i of Some c \<Rightarrow> c | None \<Rightarrow> 0)"

definition paint :: "string \<Rightarrow> nat \<Rightarrow> dfs \<Rightarrow> dfs" where
  "paint i c d = d\<lparr>df_colour := AList.update i c (df_colour d)\<rparr>"

fun joined_by :: "string \<Rightarrow> string list \<Rightarrow> string" where
  "joined_by sep [] = []"
| "joined_by sep [x] = x"
| "joined_by sep (x # xs) = x @ sep @ joined_by sep xs"

text \<open>A target on the path closes a cycle; the first twenty different ones are reported.\<close>

definition report_cycle :: "string list \<Rightarrow> string \<Rightarrow> dfs \<Rightarrow> dfs" where
  "report_cycle path t d =
     (let cycle = joined_by arrow (dropWhile (\<lambda>x. x \<noteq> t) path)
      in if t \<notin> set path \<or> cycle \<in> set (df_reported d) then d
         else d\<lparr>df_reported := df_reported d @ [cycle],
                df_issues := df_issues d @
                  (if length (df_reported d) < 20 then [warning_at t (''control-flow cycle: '' @ cycle)] else [])\<rparr>)"

fun visit :: "nat \<Rightarrow> workflow \<Rightarrow> string list \<Rightarrow> string \<Rightarrow> dfs \<Rightarrow> dfs" where
  "visit 0 w path i d = d"
| "visit (Suc f) w path i d =
     (case find_node w i of
        None \<Rightarrow> d
      | Some n \<Rightarrow>
          paint i 2
            (foldl (\<lambda>d t. if colour_of d t = 1 then report_cycle (path @ [i]) t d
                          else if colour_of d t = 0 then visit f w (path @ [i]) t d else d)
               (paint i 1 d) (outgoing_targets n)))"

definition cycle_issues :: "workflow \<Rightarrow> issue list" where
  "cycle_issues w =
     df_issues (foldl (\<lambda>d n. if colour_of d (nd_id n) = 0 then visit (Suc (length (wf_index w))) w [] (nd_id n) d else d)
       \<lparr>df_colour = [], df_reported = [], df_issues = []\<rparr> (wf_nodes w))"

section \<open>All issues\<close>

definition terminal_issues :: "workflow \<Rightarrow> issue list" where
  "terminal_issues w =
     (if \<exists>n \<in> set (wf_nodes w). node_type n = TTerminate then []
      else [warning_at [] (''workflow has no '' @ quoted ''terminate'' @ '' node; it finishes when control falls off the graph'')]) @
     issues_of (\<lambda>n. if node_type n = TTerminate \<and> nd_next n \<noteq> None
                    then [warning_at (nd_id n) (quoted ''next'' @ '' on a terminate node is ignored'')] else []) w"

definition runaway_issues :: "node \<Rightarrow> issue list" where
  "runaway_issues n =
     (case nd_body n of
        Loop l \<Rightarrow>
          (if \<not> expression_empty (lp_condition l) \<and> expression_empty (lp_collection l) \<and> expression_empty (lp_count l) \<and>
              1000 \<le> lp_max_iterations l
           then [warning_at (nd_id n) (''condition-driven loop relies on the default max_iterations ('' @
                   int_str (lp_max_iterations l) @ ''); set it explicitly if that is not intended'')]
           else [])
      | _ \<Rightarrow> [])"

definition collect_issues :: "workflow \<Rightarrow> issue list" where
  "collect_issues w =
     (case wf_nodes w of
        [] \<Rightarrow> [error_at [] ''blueprint contains no nodes'']
      | first # _ \<Rightarrow>
          id_issues [] (wf_nodes w) @ issues_of (target_issues w) w @ issues_of (control_issues w) w @
          issues_of parallel_issues w @ issues_of (subflow_issues w) w @
          issues_of (reach_issues w (reachable_from w (nd_id first)) (nd_id first)) w @
          cycle_issues w @ terminal_issues w @ issues_of runaway_issues w)"

definition validate_blueprint :: "workflow \<Rightarrow> string list \<Rightarrow> string list \<times> sapo_error option" where
  "validate_blueprint w warnings =
     (let issues = collect_issues w;
          failed = filter (\<lambda>i. is_level i = IError) issues
      in (warnings @ map describe_issue issues,
          case failed of
            [] \<Rightarrow> None
          | i # _ \<Rightarrow> Some (sapo_error Parse (''blueprint failed validation: '' @ drop 6 (describe_issue i))
                             (jobj [(''issues'', JInt (int (length issues)))]) [])))"

section \<open>The search finds what is reachable\<close>

definition leads :: "(string \<Rightarrow> bool) \<Rightarrow> graph \<Rightarrow> (string \<times> string) set" where
  "leads admit g = {(a, b). b \<in> set (succs g a) \<and> admit b}"

lemma explore_closed:
  "(\<forall>v \<in> set seen. \<forall>t \<in> set (succs g v). admit t \<longrightarrow> t \<in> set seen \<union> set st) \<Longrightarrow>
   set seen \<subseteq> set (explore admit g seen st) \<and> (\<forall>s \<in> set st. admit s \<longrightarrow> s \<in> set (explore admit g seen st)) \<and>
   (\<forall>v \<in> set (explore admit g seen st). \<forall>t \<in> set (succs g v). admit t \<longrightarrow> t \<in> set (explore admit g seen st))"
proof (induction admit g seen st rule: explore.induct)
  case (2 admit g seen x r)
  show ?case
  proof (cases "\<not> admit x \<or> x \<in> set seen")
    case True
    with "2.prems" have "\<forall>v \<in> set seen. \<forall>t \<in> set (succs g v). admit t \<longrightarrow> t \<in> set seen \<union> set r" by auto
    from "2.IH"(1) [OF True this] True show ?thesis by auto
  next
    case False
    with "2.prems" have "\<forall>v \<in> set (seen @ [x]). \<forall>t \<in> set (succs g v). admit t \<longrightarrow> t \<in> set (seen @ [x]) \<union> set (rev (succs g x) @ r)"
      by auto
    from "2.IH"(2) [OF False this] False show ?thesis by auto
  qed
qed simp

lemma explore_sound:
  "x \<in> set (explore admit g seen st) \<Longrightarrow> x \<in> set seen \<or> (\<exists>s \<in> set st. admit s \<and> (s, x) \<in> (leads admit g)\<^sup>*)"
proof (induction admit g seen st rule: explore.induct)
  case (2 admit g seen y r)
  show ?case
  proof (cases "\<not> admit y \<or> y \<in> set seen")
    case True
    with 2 show ?thesis by auto
  next
    case False
    have further: "(y, x) \<in> (leads admit g)\<^sup>*" if "s \<in> set (succs g y)" "admit s" "(s, x) \<in> (leads admit g)\<^sup>*" for s
      using that by (intro converse_rtrancl_into_rtrancl [of y s]) (auto simp: leads_def)
    from "2.prems" False have "x \<in> set (explore admit g (seen @ [y]) (rev (succs g y) @ r))" by simp
    from "2.IH"(2) [OF False this] False further show ?thesis by auto
  qed
qed simp

lemma explore_reaches:
  "set (explore admit g [] st) = {x. \<exists>s \<in> set st. admit s \<and> (s, x) \<in> (leads admit g)\<^sup>*}" (is "?S = ?T")
proof
  show "?S \<subseteq> ?T" using explore_sound [of _ admit g "[]" st] by auto
  have closed: "\<forall>s \<in> set st. admit s \<longrightarrow> s \<in> ?S" "\<forall>v \<in> ?S. \<forall>t \<in> set (succs g v). admit t \<longrightarrow> t \<in> ?S"
    using explore_closed [of "[]" g admit st] by auto
  have "x \<in> ?S" if "(s, x) \<in> (leads admit g)\<^sup>*" "s \<in> ?S" for s x
    using that by (induction) (use closed(2) in \<open>auto simp: leads_def\<close>)
  with closed(1) show "?T \<subseteq> ?S" by blast
qed

lemma target_graph_succs:
  "succs (target_graph w) i = (case find_node w i of Some n \<Rightarrow> outgoing_targets n | None \<Rightarrow> [])"
proof -
  have "map_of (map (\<lambda>(i, n). (i, f n)) xs) i = map_option f (map_of xs i)" for f :: "node \<Rightarrow> string list" and xs
    by (induction xs) auto
  then show ?thesis by (auto simp: succs_def target_graph_def find_node_def split: option.splits)
qed

text \<open>The identifiers a node declares as its continuations, one rule for every member of the blueprint's schema that
  names nodes.  (\<open>back_next\<close> of an action's prompt names one too, but no part of the validator looks at it: see
  \<open>actionInput\<close> of \<open>ActionTasks.cpp\<close>.)\<close>

inductive declares :: "node \<Rightarrow> string \<Rightarrow> bool" where
  successor: "nd_next n = Some t \<Longrightarrow> declares n t"
| on_error: "nd_on_error n = Some t \<Longrightarrow> declares n t"
| on_true: "nd_body n = Condition c \<Longrightarrow> declares n (cn_on_true c)"
| on_false: "nd_body n = Condition c \<Longrightarrow> cn_on_false c = Some t \<Longrightarrow> declares n t"
| then_body: "nd_body n = Condition c \<Longrightarrow> t \<in> set (cn_then_body c) \<Longrightarrow> declares n t"
| else_body: "nd_body n = Condition c \<Longrightarrow> t \<in> set (cn_else_body c) \<Longrightarrow> declares n t"
| choice_case: "nd_body n = Choice h \<Longrightarrow> (e, t) \<in> set (ch_cases h) \<Longrightarrow> declares n t"
| choice_default: "nd_body n = Choice h \<Longrightarrow> ch_default_target h = Some t \<Longrightarrow> declares n t"
| loop_body: "nd_body n = Loop l \<Longrightarrow> t \<in> set (lp_body l) \<Longrightarrow> declares n t"
| try_body: "nd_body n = Try y \<Longrightarrow> t \<in> set (ty_body y) \<Longrightarrow> declares n t"
| try_catch: "nd_body n = Try y \<Longrightarrow> t \<in> set (ty_catch_body y) \<Longrightarrow> declares n t"
| try_finally: "nd_body n = Try y \<Longrightarrow> t \<in> set (ty_finally_body y) \<Longrightarrow> declares n t"
| try_catch_when: "nd_body n = Try y \<Longrightarrow> (code, t) \<in> set (ty_catch_when y) \<Longrightarrow> declares n t"
| branch: "nd_body n = Parallel p \<Longrightarrow> b \<in> set (pn_branches p) \<Longrightarrow> t \<in> set (br_node_ids b) \<Longrightarrow> declares n t"
| schedule_body: "nd_body n = Schedule d \<Longrightarrow> declares n (sd_body d)"
| action_next: "nd_body n = Action a \<Longrightarrow> r \<in> set (ac_next_tasks a) \<Longrightarrow> declares n (tr_task_id r)"
| on_event: "nd_body n = Action a \<Longrightarrow> ac_on_event a = Some y \<Longrightarrow> sy_handler y = Some t \<Longrightarrow> declares n t"

inductive_simps declares_iff: "declares n t"

lemma named_mem [simp]: "t \<in> set (named x) \<longleftrightarrow> x = Some t \<and> t \<noteq> []"
  by (auto simp: named_def split: option.splits)

lemma named_all_mem [simp]: "t \<in> set (named_all ts) \<longleftrightarrow> t \<in> set ts \<and> t \<noteq> []"
  by (auto simp: named_all_def)

lemma body_targets_declared: "t \<in> set (body_targets b) \<Longrightarrow> nd_body n = b \<Longrightarrow> declares n t \<and> t \<noteq> []"
  by (cases b) (auto intro: declares.intros declares.on_event [OF _ sym] split: option.splits)

lemma declared_targets: "declares n t \<Longrightarrow> t \<noteq> [] \<Longrightarrow> t \<in> set (outgoing_targets n)"
  by (induction rule: declares.induct) (force simp: outgoing_targets_def)+

lemma outgoing_declared: "t \<in> set (outgoing_targets n) \<longleftrightarrow> declares n t \<and> t \<noteq> []"
  using declared_targets body_targets_declared [of t "nd_body n" n]
  by (auto simp: outgoing_targets_def intro: declares.intros(1,2))

text \<open>The blueprint links one of its nodes to another.\<close>

definition links :: "workflow \<Rightarrow> (string \<times> string) set" where
  "links w = {(a, b). \<exists>n m. find_node w a = Some n \<and> declares n b \<and> b \<noteq> [] \<and> find_node w b = Some m}"

section \<open>The colouring ends\<close>

definition whites :: "workflow \<Rightarrow> dfs \<Rightarrow> string set" where
  "whites w d = {i \<in> fst ` set (wf_index w). colour_of d i = 0}"

lemma finite_whites [simp]: "finite (whites w d)"
  by (simp add: whites_def)

lemma colour_paint: "colour_of (paint i c d) j = (if j = i then c else colour_of d j)"
  by (simp add: colour_of_def paint_def update_conv)

lemma whites_paint: "c \<noteq> 0 \<Longrightarrow> whites w (paint i c d) = whites w d - {i}"
  by (auto simp: whites_def colour_paint)

lemma whites_report: "whites w (report_cycle path t d) = whites w d"
  by (simp add: whites_def colour_of_def report_cycle_def Let_def)

lemma whites_foldl: "(\<And>d t. whites w (step d t) \<subseteq> whites w d) \<Longrightarrow> whites w (foldl step d ts) \<subseteq> whites w d"
  by (induction ts arbitrary: d) (auto, blast)

lemma whites_visit: "whites w (visit f w path i d) \<subseteq> whites w d"
proof (induction f arbitrary: path i d)
  case (Suc f)
  let ?step = "\<lambda>d t. if colour_of d t = 1 then report_cycle (path @ [i]) t d
                     else if colour_of d t = 0 then visit f w (path @ [i]) t d else d"
  have "whites w (?step d t) \<subseteq> whites w d" for d t using Suc.IH by (simp add: whites_report)
  then have "whites w (foldl ?step (paint i 1 d) ts) \<subseteq> whites w (paint i 1 d)" for ts by (rule whites_foldl)
  then show ?case by (auto simp: whites_paint split: option.split)
qed simp

lemma visit_enough:
  "card (whites w d) < f \<Longrightarrow> colour_of d i = 0 \<Longrightarrow> visit (Suc f) w path i d = visit f w path i d"
proof (induction f arbitrary: path i d)
  case (Suc f)
  let ?step = "\<lambda>f d t. if colour_of d t = 1 then report_cycle (path @ [i]) t d
                     else if colour_of d t = 0 then visit f w (path @ [i]) t d else d"
  have keeps: "whites w (?step f d t) \<subseteq> whites w d" for f d t using whites_visit by (simp add: whites_report)
  have same: "foldl (?step (Suc f)) d ts = foldl (?step f) d ts" if "card (whites w d) < f" for d ts
    using that
  proof (induction ts arbitrary: d)
    case (Cons t ts)
    have "card (whites w (?step f d t)) < f"
      using card_mono [OF finite_whites keeps [where f = f and d = d and t = t]] Cons.prems by simp
    moreover have "?step (Suc f) d t = ?step f d t" using Suc.IH [OF Cons.prems] by simp
    ultimately show ?case using Cons.IH by simp
  qed simp
  show ?case
  proof (cases "find_node w i")
    case (Some n)
    then have "i \<in> whites w d"
      using Suc.prems(2) by (auto simp: whites_def find_node_def dest!: map_of_SomeD intro: image_eqI [rotated])
    then have "card (whites w (paint i 1 d)) < card (whites w d)"
      using card_Diff1_less [OF finite_whites, of i w d] by (simp add: whites_paint del: card_Diff_singleton)
    with Suc.prems(1) have "card (whites w (paint i 1 d)) < f" by simp
    from same [OF this] Some show ?thesis by simp
  qed simp
qed simp

lemma visit_more:
  assumes "length (wf_index w) \<le> f" and "colour_of d i = 0"
  shows "visit (Suc f) w path i d = visit (Suc (length (wf_index w))) w path i d"
proof -
  have "card (whites w d) \<le> length (wf_index w)"
    using card_mono [of "fst ` set (wf_index w)" "whites w d"] card_length [of "map fst (wf_index w)"]
    by (auto simp: whites_def)
  with assms show ?thesis
  proof (induction rule: dec_induct)
    case (step f)
    from visit_enough [of w d "Suc f" i path] step show ?case by simp
  qed simp
qed

section \<open>Properties\<close>

text \<open>
  C22: Reachability is exact: the search that backs the warnings finds precisely the nodes that declared links lead to
  from the entry - successors, error handlers, the members of bodies, branches, cases and handlers -, whatever the
  cycles of the blueprint.  The jump back a prompt can name (\<open>back_next\<close>) is no such link.
\<close>

theorem reachability_is_exact:
  "set (reachable_from w entry) = {x. entry \<noteq> [] \<and> find_node w entry \<noteq> None \<and> (entry, x) \<in> (links w)\<^sup>*}"
proof -
  let ?A = "\<lambda>i. i \<noteq> [] \<and> find_node w i \<noteq> None"
  have step: "(a, b) \<in> leads ?A (target_graph w) \<longleftrightarrow> (a, b) \<in> links w" for a b
    by (cases "find_node w a") (auto simp: leads_def links_def target_graph_succs outgoing_declared)
  then have "leads ?A (target_graph w) = links w" by auto
  then show ?thesis unfolding reachable_from_def explore_reaches by auto
qed

text \<open>
  The search for cycles ends: however deep its recursion may go, more depth than the blueprint has nodes changes
  nothing, so the fuel of the model is never used up.
\<close>

theorem cycle_search_ends:
  assumes "length (wf_index w) \<le> f" and "colour_of d i = 0"
  shows "visit (Suc f) w path i d = visit (Suc (length (wf_index w))) w path i d"
  using assms by (rule visit_more)

lemma id_issues_none:
  "filter (\<lambda>i. is_level i = IError) (id_issues seen ns) = [] \<Longrightarrow>
   distinct (map nd_id ns) \<and> [] \<notin> set (map nd_id ns) \<and> set seen \<inter> set (map nd_id ns) = {}"
  by (induction seen ns rule: id_issues.induct) (auto simp: error_at_def split: if_splits)

lemma collect_parts:
  assumes "filter (\<lambda>i. is_level i = IError) (collect_issues w) = []"
  shows "wf_nodes w \<noteq> []"
    and "filter (\<lambda>i. is_level i = IError) (id_issues [] (wf_nodes w)) = []"
    and "n \<in> set (wf_nodes w) \<Longrightarrow> filter (\<lambda>i. is_level i = IError) (target_issues w n) = []"
    and "n \<in> set (wf_nodes w) \<Longrightarrow> filter (\<lambda>i. is_level i = IError) (control_issues w n) = []"
    and "n \<in> set (wf_nodes w) \<Longrightarrow> filter (\<lambda>i. is_level i = IError) (parallel_issues n) = []"
    and "n \<in> set (wf_nodes w) \<Longrightarrow> filter (\<lambda>i. is_level i = IError) (subflow_issues w n) = []"
  using assms by (auto simp: collect_issues_def issues_of_def filter_empty_conv error_at_def split: list.splits)

lemma validated_no_errors: "snd (validate_blueprint w ws) = None \<longleftrightarrow> filter (\<lambda>i. is_level i = IError) (collect_issues w) = []"
  by (simp add: validate_blueprint_def Let_def split: list.split)

text \<open>A blueprint whose jumps stay inside it, as the validator leaves it.\<close>

definition closed_blueprint :: "workflow \<Rightarrow> bool" where
  "closed_blueprint w \<longleftrightarrow>
     distinct (map nd_id (wf_nodes w)) \<and>
     (\<forall>n \<in> set (wf_nodes w). nd_id n \<noteq> [] \<and> nd_next n \<noteq> Some (nd_id n) \<and> nd_on_error n \<noteq> Some (nd_id n) \<and>
        (own_workflow n \<or> set (outgoing_targets n) \<subseteq> set (map nd_id (wf_nodes w))))"

lemma no_errors_closed:
  assumes "snd (validate_blueprint w warnings) = None"
  shows "closed_blueprint w"
proof -
  note none = assms [unfolded validated_no_errors]
  from id_issues_none [OF collect_parts(2) [OF none]]
  have ids: "distinct (map nd_id (wf_nodes w))" "[] \<notin> set (map nd_id (wf_nodes w))" by auto
  then have names: "set (node_ids w) = set (map nd_id (wf_nodes w))"
    by (auto simp: node_ids_def filter_id_conv) (metis image_eqI)
  have named: "nd_id n \<noteq> []" if "n \<in> set (wf_nodes w)" for n
    using ids(2) that by (metis image_eqI list.set_map)
  have "nd_id n \<noteq> [] \<and> nd_next n \<noteq> Some (nd_id n) \<and> nd_on_error n \<noteq> Some (nd_id n) \<and>
      (own_workflow n \<or> set (outgoing_targets n) \<subseteq> set (map nd_id (wf_nodes w)))" if "n \<in> set (wf_nodes w)" for n
    using collect_parts(3) [OF none that] named [OF that]
    by (auto simp: target_issues_def names filter_empty_conv error_at_def split: if_splits)
  with ids(1) show ?thesis by (simp add: closed_blueprint_def)
qed

text \<open>
  C14: A blueprint that passes validation is closed: its identifiers are distinct and not empty, no node follows or
  handles itself, and every identifier a node declares as a continuation - bodies, branches, cases, handlers,
  successors - is that of a node of the blueprint, unless the node is a schedule that starts another workflow: of
  those no target is checked.  The jump back a prompt can name (\<open>back_next\<close>) is not looked at either.
\<close>

theorem validated_blueprints_are_closed:
  assumes "snd (validate_blueprint w warnings) = None"
  shows "closed_blueprint w \<and>
         (\<forall>n \<in> set (wf_nodes w). \<forall>t. declares n t \<and> t \<noteq> [] \<and> \<not> own_workflow n \<longrightarrow> t \<in> set (map nd_id (wf_nodes w)))"
  using no_errors_closed [OF assms] by (auto simp: closed_blueprint_def dest: declared_targets)

definition plain_node :: "string \<Rightarrow> string option \<Rightarrow> node_body \<Rightarrow> node" where
  "plain_node i next b =
     \<lparr>nd_id = i, nd_next = next, nd_on_error = None, nd_retry = None, nd_label = None, nd_enabled = True, nd_body = b\<rparr>"

definition sample_nodes :: "node list" where
  "sample_nodes =
     [plain_node ''ask'' (Some ''end'') (Noop \<lparr>no_meta = JNull, no_assign = JNull\<rparr>),
      plain_node ''end'' None (TerminateN \<lparr>te_status = ''success'', te_error_code = None, te_message = None, te_output = JNull\<rparr>)]"

definition sample_blueprint :: workflow where
  "sample_blueprint =
     \<lparr>wf_nodes = sample_nodes, wf_entry_id = ''ask'',
      wf_metadata = \<lparr>md_name = ''pay'', md_version = ''1.0'', md_description = [], md_trigger_event = None,
        md_trigger_input = JNull, md_defaults = JNull, md_raw = JNull\<rparr>,
      wf_warnings = [], wf_index = map (\<lambda>n. (nd_id n, n)) sample_nodes\<rparr>"

theorem validated_blueprints_are_closed_witness: "closed_blueprint sample_blueprint"
proof -
  have "snd (validate_blueprint sample_blueprint []) = None" by code_simp
  from validated_blueprints_are_closed [OF this] show ?thesis by blast
qed

theorem cycle_search_ends_witness:
  "visit 9 sample_blueprint [] ''ask'' \<lparr>df_colour = [], df_reported = [], df_issues = []\<rparr> =
   visit 3 sample_blueprint [] ''ask'' \<lparr>df_colour = [], df_reported = [], df_issues = []\<rparr>"
  using cycle_search_ends [of sample_blueprint 8 "\<lparr>df_colour = [], df_reported = [], df_issues = []\<rparr>" "''ask''" "[]"]
  by (simp add: sample_blueprint_def sample_nodes_def colour_of_def eval_nat_numeral del: visit.simps)

text \<open>
  Validation refuses exactly the blueprints with an issue of level error, and
  appends a line for every issue, warnings included, to the warnings it was given.
\<close>

theorem validation_reports_every_issue:
  "fst (validate_blueprint w warnings) = warnings @ map describe_issue (collect_issues w) \<and>
   (snd (validate_blueprint w warnings) = None \<longleftrightarrow> list_all (\<lambda>i. is_level i = IWarning) (collect_issues w))"
proof -
  have "is_level i \<noteq> IError \<longleftrightarrow> is_level i = IWarning" for i by (cases "is_level i") auto
  then show ?thesis
    unfolding validated_no_errors by (auto simp: validate_blueprint_def Let_def filter_empty_conv list_all_iff)
qed

end
