(* ===== verification/Sapo_Fields.thy ===== *)
theory Sapo_Fields
  imports Sapo_Validator Sapo_Effects Sapo_Http Sapo_Data Sapo_Cron Sapo_Iso
begin

text \<open>
  How the blueprint parser reads objects (\<open>Fields\<close> in \<open>src/src/parser/WorkflowParser.cpp\<close>): lookups under several
  names that record which key was read, conversions, and expressions, which are compiled as they are read.  The state is
  the keys read of the current object, the warnings and the hoisted nodes.
\<close>

section \<open>State and options\<close>

record pstate =
  ps_used :: "string list"
  ps_warnings :: "string list"
  ps_hoisted :: "node list"

type_synonym 'a parse = "('a, pstate) act"

text \<open>\<open>pq_has\<close> is the capability registry's answer, \<open>None\<close> without a registry; \<open>pq_dump\<close> the document library's text.\<close>

record parse_options =
  pq_has :: "(string \<Rightarrow> bool) option"
  pq_validate :: bool
  pq_strict :: bool
  pq_max_nodes :: nat
  pq_dump :: "json \<Rightarrow> string"

definition reject :: "string \<Rightarrow> 'a parse" where
  "reject message = raises (sapo_error Parse message JNull [])"

definition refuse_if :: "bool \<Rightarrow> string \<Rightarrow> unit parse" where
  "refuse_if b message = (if b then reject message else yields ())"

definition strip_sigil :: "string \<Rightarrow> string" where
  "strip_sigil s = (case s of c # r \<Rightarrow> (if c = CHR ''$'' then r else s) | [] \<Rightarrow> [])"

definition warn :: "string \<Rightarrow> unit parse" where
  "warn message = change (\<lambda>s. s\<lparr>ps_warnings := ps_warnings s @ [message]\<rparr>)"

definition hoist :: "node \<Rightarrow> unit parse" where
  "hoist n = change (\<lambda>s. s\<lparr>ps_hoisted := ps_hoisted s @ [n]\<rparr>)"

text \<open>A fresh set of read keys for one object; the keys read are returned with the value.\<close>

definition in_fields :: "'a parse \<Rightarrow> ('a \<times> string list) parse" where
  "in_fields m s =
     (case andthen m (\<lambda>x. observe (\<lambda>t. (x, ps_used t))) (s\<lparr>ps_used := []\<rparr>) of
        (r, t) \<Rightarrow> (r, t\<lparr>ps_used := ps_used s\<rparr>))"

section \<open>Reading\<close>

fun first_of :: "json \<Rightarrow> string list \<Rightarrow> (string \<times> json) option" where
  "first_of j [] = None"
| "first_of j (k # ks) = (case jget k j of Some v \<Rightarrow> Some (k, v) | None \<Rightarrow> first_of j ks)"

definition mark :: "string \<Rightarrow> unit parse" where
  "mark k = change (\<lambda>s. s\<lparr>ps_used := List.insert k (ps_used s)\<rparr>)"

definition look :: "json \<Rightarrow> string list \<Rightarrow> json option parse" where
  "look j ks =
     (case first_of j ks of
        None \<Rightarrow> yields None
      | Some (k, v) \<Rightarrow> andthen (mark k) (\<lambda>_. yields (Some v)))"

definition reads :: "(json option \<Rightarrow> 'a) \<Rightarrow> json \<Rightarrow> string list \<Rightarrow> 'a parse" where
  "reads f j ks = andthen (look j ks) (\<lambda>v. yields (f v))"

definition opt_text :: "(json \<Rightarrow> string) \<Rightarrow> json option \<Rightarrow> string option" where
  "opt_text dump v = (case v of None \<Rightarrow> None | Some JNull \<Rightarrow> None | Some (JStr s) \<Rightarrow> Some s | Some w \<Rightarrow> Some (dump w))"

definition optional_string :: "parse_options \<Rightarrow> json \<Rightarrow> string list \<Rightarrow> string option parse" where
  "optional_string q = reads (opt_text (pq_dump q))"

definition string_or :: "parse_options \<Rightarrow> string \<Rightarrow> json \<Rightarrow> string list \<Rightarrow> string parse" where
  "string_or q d = reads (\<lambda>v. case opt_text (pq_dump q) v of Some t \<Rightarrow> t | None \<Rightarrow> d)"

definition slashes :: string where
  "slashes = [CHR 0x27] @ '' / '' @ [CHR 0x27]"

definition require_string :: "parse_options \<Rightarrow> json \<Rightarrow> string list \<Rightarrow> string \<Rightarrow> string parse" where
  "require_string q j ks label =
     andthen (optional_string q j ks) (\<lambda>t.
       case t of
         Some s \<Rightarrow> yields s
       | None \<Rightarrow> reject (quoted label @ '' is missing the required field '' @ quoted (joined_by slashes ks)))"

fun number_text :: "nat \<Rightarrow> json \<Rightarrow> int option" where
  "number_text w (JInt i) = Some (if w = 32 then as_int32 i else as_int64 i)"
| "number_text w (JFloat x) = Some (dbl_to_int w x)"
| "number_text w _ = None"

definition int_or :: "nat \<Rightarrow> int \<Rightarrow> json \<Rightarrow> string list \<Rightarrow> int parse" where
  "int_or w d = reads (\<lambda>v. case v of Some x \<Rightarrow> (case number_text w x of Some i \<Rightarrow> i | None \<Rightarrow> d) | None \<Rightarrow> d)"

definition number_or :: "rat \<Rightarrow> json \<Rightarrow> string list \<Rightarrow> rat parse" where
  "number_or d = reads (\<lambda>v. case v of Some x \<Rightarrow> (case double_of x of Some y \<Rightarrow> dbl_rat y | None \<Rightarrow> d) | None \<Rightarrow> d)"

definition flag_text :: "bool \<Rightarrow> json option \<Rightarrow> bool" where
  "flag_text d v =
     (case v of
        Some (JBool b) \<Rightarrow> b
      | Some (JStr t) \<Rightarrow> lower t \<in> set [''true'', ''yes'', ''1'']
      | Some (JInt i) \<Rightarrow> i \<noteq> 0
      | Some (JFloat x) \<Rightarrow> \<not> dbl_eq x (DFin 0)
      | _ \<Rightarrow> d)"

definition bool_or :: "bool \<Rightarrow> json \<Rightarrow> string list \<Rightarrow> bool parse" where
  "bool_or d = reads (flag_text d)"

definition template_or :: "json \<Rightarrow> json \<Rightarrow> string list \<Rightarrow> json parse" where
  "template_or d = reads (\<lambda>v. case v of Some x \<Rightarrow> x | None \<Rightarrow> d)"

definition item_text :: "(json \<Rightarrow> string) \<Rightarrow> json \<Rightarrow> string" where
  "item_text dump v = (case v of JStr s \<Rightarrow> s | _ \<Rightarrow> dump v)"

definition string_list :: "parse_options \<Rightarrow> json \<Rightarrow> string list \<Rightarrow> string list parse" where
  "string_list q = reads (\<lambda>v. case v of
     Some (JArr xs) \<Rightarrow> map (item_text (pq_dump q)) xs | Some (JStr s) \<Rightarrow> [s] | _ \<Rightarrow> [])"

definition string_map :: "parse_options \<Rightarrow> json \<Rightarrow> string list \<Rightarrow> (string \<times> string) list parse" where
  "string_map q = reads (\<lambda>v. case v of Some (JObj ob) \<Rightarrow> map (\<lambda>(k, x). (k, item_text (pq_dump q) x)) ob | _ \<Rightarrow> [])"

definition demand_outcome :: "'a outcome \<Rightarrow> 'a parse" where
  "demand_outcome r = (case r of Returns x \<Rightarrow> yields x | Throws \<Rightarrow> crashes)"

definition duration_text :: "string \<Rightarrow> int option parse" where
  "duration_text t =
     andthen (demand_outcome (parse_duration t)) (\<lambda>d.
       if d \<noteq> None then yields d
       else andthen (demand_outcome (parse_relative_delay t)) (\<lambda>r.
         if r \<noteq> None then yields r else yields (map_option fst (sto_int 64 t))))"

definition duration_ms :: "json \<Rightarrow> string list \<Rightarrow> int option parse" where
  "duration_ms j ks =
     andthen (look j ks) (\<lambda>v.
       case v of
         Some (JStr t) \<Rightarrow> duration_text t
       | Some x \<Rightarrow> yields (number_text 64 x)
       | None \<Rightarrow> yields None)"

section \<open>Expressions\<close>

definition compiled :: "handle res \<Rightarrow> expression \<Rightarrow> expression parse" where
  "compiled h x = (case h of Inl e \<Rightarrow> raises e | Inr _ \<Rightarrow> yields x)"

definition template_expression :: "string \<Rightarrow> expression parse" where
  "template_expression t = compiled (template_handle t) (Template_of t)"

definition program_expression :: "string \<Rightarrow> expression parse" where
  "program_expression t = compiled (program_handle t) (Program_of t)"

definition to_expression :: "parse_options \<Rightarrow> json \<Rightarrow> expression parse" where
  "to_expression q v =
     (case v of
        JStr t \<Rightarrow> template_expression t
      | JNull \<Rightarrow> yields NoExpression
      | _ \<Rightarrow>
        (if number_or_flag v then yields (Literal_of v)
         else andthen (demand (normalize_source (pq_dump q) v)) template_expression))"

definition to_predicate :: "parse_options \<Rightarrow> json \<Rightarrow> expression parse" where
  "to_predicate q v = (case v of JStr t \<Rightarrow> program_expression t | _ \<Rightarrow> to_expression q v)"

definition read_with :: "(json \<Rightarrow> expression parse) \<Rightarrow> json \<Rightarrow> string list \<Rightarrow> expression parse" where
  "read_with f j ks = andthen (look j ks) (\<lambda>v. case v of Some x \<Rightarrow> f x | None \<Rightarrow> yields NoExpression)"

definition optional_with :: "(json \<Rightarrow> expression parse) \<Rightarrow> json \<Rightarrow> string list \<Rightarrow> expression option parse" where
  "optional_with f j ks =
     andthen (look j ks) (\<lambda>v.
       case v of
         Some x \<Rightarrow> (if x = JNull then yields None else andthen (f x) (\<lambda>e. yields (Some e)))
       | None \<Rightarrow> yields None)"

definition soft_predicate :: "parse_options \<Rightarrow> json \<Rightarrow> string list \<Rightarrow> expression parse" where
  "soft_predicate q j ks =
     andthen (look j ks) (\<lambda>v.
       case v of
         Some (JStr t) \<Rightarrow> (case program_handle t of Inr _ \<Rightarrow> yields (Program_of t) | Inl _ \<Rightarrow> template_expression t)
       | Some x \<Rightarrow> to_expression q x
       | None \<Rightarrow> yields NoExpression)"

text \<open>The keys of an object that nothing read, but for the given ones.\<close>

definition unread_keys :: "json \<Rightarrow> string list \<Rightarrow> string list" where
  "unread_keys j used = filter (\<lambda>k. k \<notin> set used) (map fst (jentries j))"

definition warn_unread :: "string \<Rightarrow> json \<Rightarrow> string list \<Rightarrow> unit parse" where
  "warn_unread prefix j used = each (\<lambda>k. warn (prefix @ quoted k)) (unread_keys j used)"

end
