(* ===== verification/Sapo_Builders.thy ===== *)
theory Sapo_Builders
  imports Sapo_Fields
begin

text \<open>
  The builders of the blueprint parser (\<open>src/src/parser/WorkflowParser.cpp\<close>), one per node type, with their checks in the
  order of the source.  Those with inline bodies take the parser of the child nodes as an argument.
\<close>

section \<open>Plain nodes\<close>

definition parse_retry :: "parse_options \<Rightarrow> json \<Rightarrow> retry_policy parse" where
  "parse_retry q v =
     (case v of
        JInt i \<Rightarrow> yields (default_retry\<lparr>rp_max_attempts := max 1 (as_int32 i)\<rparr>)
      | JObj _ \<Rightarrow>
          andthen (in_fields (
            andthen (int_or 32 3 v [''max_attempts'', ''attempts'', ''retries'']) (\<lambda>n.
            andthen (int_or 64 250 v [''backoff_ms'', ''backoff'', ''delay_ms'']) (\<lambda>b.
            andthen (number_or 2 v [''multiplier'', ''backoff_multiplier'']) (\<lambda>m.
            andthen (number_or (1 / 5) v [''jitter'']) (\<lambda>i.
            andthen (int_or 64 15000 v [''max_backoff_ms'']) (\<lambda>mb.
            andthen (string_list q v [''retry_on'', ''retry_if'', ''retry_on_status'']) (\<lambda>on.
              yields \<lparr>rp_max_attempts = max 1 n, rp_backoff_ms = b, rp_multiplier = m, rp_jitter = i,
                      rp_max_backoff_ms = mb, rp_retry_on = on\<rparr>)))))))) (\<lambda>(p, used). yields p)
      | _ \<Rightarrow> yields default_retry)"

definition normalize_status :: "string \<Rightarrow> string" where
  "normalize_status raw =
     (let s = lower raw
      in if s \<in> set [''failure'', ''error'', ''fail''] then ''failed''
         else if s \<in> set [''ok'', ''succeeded'', ''complete'', ''completed''] then ''success''
         else if s = ''canceled'' then ''cancelled''
         else if s \<notin> set [''success'', ''failed'', ''cancelled''] then ''failed''
         else s)"

definition build_noop :: "json \<Rightarrow> node_body parse" where
  "build_noop j =
     andthen (template_or (JObj []) j [''meta'']) (\<lambda>m.
     andthen (template_or (JObj []) j [''assign'', ''set'', ''variables'']) (\<lambda>a.
       yields (Noop \<lparr>no_meta = m, no_assign = a\<rparr>)))"

definition build_terminate :: "parse_options \<Rightarrow> json \<Rightarrow> node_body parse" where
  "build_terminate q j =
     andthen (string_or q ''success'' j [''status'', ''result'']) (\<lambda>status.
     andthen (optional_string q j [''error_code'', ''errorCode'', ''code'']) (\<lambda>code.
     andthen (optional_with (to_expression q) j [''message'', ''text'', ''output_message'']) (\<lambda>message.
     andthen (template_or (JObj []) j [''output'', ''outputs'', ''result_data'', ''data'']) (\<lambda>output.
       yields (TerminateN \<lparr>te_status = normalize_status status, te_error_code = code, te_message = message,
                           te_output = output\<rparr>)))))"

definition build_script :: "parse_options \<Rightarrow> json \<Rightarrow> string \<Rightarrow> node_body parse" where
  "build_script q j i =
     andthen (string_or q ''sel'' j [''language'', ''engine'', ''runtime'']) (\<lambda>language.
     andthen (refuse_if (lower language \<notin> set [''sel'', ''expr''])
       (''script node '' @ quoted i @ '' declares unsupported language '' @ quoted (lower language) @
        ''; grammar v1 supports '' @ quoted ''sel'' @ '' and '' @ quoted ''expr'' @
        '' (a Lua sandbox is a documented deferral, see docs/LIMITATIONS.md)'')) (\<lambda>_.
     andthen (look j [''code'', ''expr'', ''source'']) (\<lambda>v.
     andthen (case v of Some x \<Rightarrow> to_predicate q x | None \<Rightarrow> read_with (to_predicate q) j [''script'']) (\<lambda>code.
     andthen (refuse_if (expression_empty code) (''script node '' @ quoted i @ '' needs '' @ quoted ''code'')) (\<lambda>_.
     andthen (optional_string q j [''output'', ''output_key'', ''save_to'']) (\<lambda>output.
     andthen (string_map q j [''bindings'', ''locals'']) (\<lambda>bindings.
       yields (Script \<lparr>sn_language = lower language, sn_code = code, sn_output = output, sn_bindings = bindings\<rparr>))))))))"

definition transform_operations :: "string list" where
  "transform_operations =
     [''assign'', ''filter'', ''map'', ''project'', ''merge'', ''group'', ''sort'', ''flatten'', ''reduce'', ''set'', ''copy'']"

definition transform_checks :: "transform_node \<Rightarrow> string \<Rightarrow> unit parse" where
  "transform_checks n i =
     (let op = tf_operation n
      in andthen (refuse_if (op \<notin> set transform_operations)
           (''transform node '' @ quoted i @ '' uses unknown operation '' @ quoted op @ ''; expected one of '' @
            joined_by ''/'' transform_operations)) (\<lambda>_.
         andthen (refuse_if (op \<in> set [''filter'', ''map'', ''reduce''] \<and> expression_empty (tf_input n))
           (''transform node '' @ quoted i @ '' with operation '' @ quoted op @ '' requires an '' @ quoted ''input'')) (\<lambda>_.
         refuse_if (op = ''project'' \<and> (\<not> is_object (tf_mapping n) \<or> jempty (tf_mapping n)))
           (''transform node '' @ quoted i @ '' with operation '' @ quoted ''project'' @ '' needs a '' @ quoted ''mapping'' @
            '' object''))))"

definition build_transform :: "parse_options \<Rightarrow> json \<Rightarrow> string \<Rightarrow> node_body parse" where
  "build_transform q j i =
     andthen (string_or q ''assign'' j [''operation'', ''op'', ''mode'']) (\<lambda>operation.
     andthen (read_with (to_expression q) j [''input'', ''source'', ''from'']) (\<lambda>input.
     andthen (template_or (JObj []) j [''mapping'', ''map'', ''template'']) (\<lambda>mapping.
     andthen (read_with (to_predicate q) j [''predicate'', ''where'', ''filter'']) (\<lambda>predicate.
     andthen (string_or q [] j [''output'', ''output_key'', ''save_to'', ''to'']) (\<lambda>output.
     andthen (refuse_if (output = []) (''transform node '' @ quoted i @ '' requires an '' @ quoted ''output'' @ '' key'')) (\<lambda>_.
     andthen (string_or q ''item'' j [''item_variable'', ''as'', ''iterator'']) (\<lambda>item.
     andthen (string_or q ''index'' j [''index_variable'']) (\<lambda>index.
     andthen (bool_or False j [''as_array'', ''output_as_array'']) (\<lambda>as_array.
       let n = \<lparr>tf_operation = lower operation, tf_input = input, tf_mapping = mapping, tf_predicate = predicate,
                tf_output = output, tf_item_variable = strip_sigil item, tf_index_variable = strip_sigil index,
                tf_output_as_array = as_array\<rparr>
       in andthen (transform_checks n i) (\<lambda>_. yields (Transform n)))))))))))"

definition filter_shape :: "json \<Rightarrow> bool" where
  "filter_shape v \<longleftrightarrow> v = JNull \<or> is_object v \<or> is_string v \<or> is_array v"

definition at_least_zero :: "int \<Rightarrow> int option" where
  "at_least_zero n = (if 0 \<le> n then Some n else None)"

definition build_query :: "parse_options \<Rightarrow> json \<Rightarrow> string \<Rightarrow> node_body parse" where
  "build_query q j i =
     andthen (string_or q [] j [''source'', ''data_source_id'', ''source_id'', ''from'']) (\<lambda>source.
     andthen (refuse_if (source = []) (''query node '' @ quoted i @ '' requires a '' @ quoted ''source'' @ '' data-source id'')) (\<lambda>_.
     andthen (template_or JNull j [''filter'', ''where'', ''match'']) (\<lambda>flt.
     andthen (string_or q [] j [''query_statement'', ''statement'', ''sql'', ''query'']) (\<lambda>statement.
     andthen (template_or (JObj []) j [''query_parameters'', ''parameters'', ''params'']) (\<lambda>parameters.
     andthen (int_or 32 (- 1) j [''limit'']) (\<lambda>limit.
     andthen (int_or 32 (- 1) j [''offset'', ''skip'']) (\<lambda>offset.
     andthen (string_or q [] j [''output'', ''output_context_key'', ''save_to'']) (\<lambda>output.
     andthen (refuse_if (output = []) (''query node '' @ quoted i @ '' requires an '' @ quoted ''output'' @ '' key'')) (\<lambda>_.
     andthen (refuse_if (\<not> filter_shape flt)
       (''query node '' @ quoted i @ '' '' @ quoted ''filter'' @ '' must be an object, array or expression string'')) (\<lambda>_.
       yields (Query \<lparr>qn_source = source, qn_filter = flt, qn_limit = at_least_zero limit, qn_offset = at_least_zero offset,
                      qn_output = output, qn_statement = statement, qn_parameters = parameters,
                      qn_output_context_key = output\<rparr>)))))))))))"

section \<open>Commands\<close>

definition build_auth :: "parse_options \<Rightarrow> string \<Rightarrow> json \<Rightarrow> http_auth parse" where
  "build_auth q i j =
     andthen (in_fields (
       andthen (string_or q ''basic'' j [''type'', ''scheme'']) (\<lambda>ty.
       andthen (read_with (to_expression q) j [''username'', ''user'']) (\<lambda>user.
       andthen (read_with (to_expression q) j [''password'', ''pass'', ''secret'']) (\<lambda>password.
       andthen (read_with (to_expression q) j [''token'', ''api_key'', ''key'']) (\<lambda>token.
       andthen (refuse_if (lower ty \<notin> set [''basic'', ''bearer''])
         (''command node '' @ quoted i @ '': http auth type '' @ quoted (lower ty) @ '' is unsupported (basic | bearer)'')) (\<lambda>_.
         yields \<lparr>ha_type = lower ty, ha_username = user, ha_password = password, ha_token = token\<rparr>))))))) (\<lambda>(auth, used).
     andthen (warn_unread (''command '' @ quoted i @ '': unused auth field '') j used) (\<lambda>_. yields auth))"

definition timeout_of :: "int option \<Rightarrow> int option" where
  "timeout_of t = (case t of Some n \<Rightarrow> (if 0 \<le> n then Some (as_int32 n) else None) | None \<Rightarrow> None)"

definition build_http :: "parse_options \<Rightarrow> string \<Rightarrow> json \<Rightarrow> http_request_config parse" where
  "build_http q i j =
     andthen (in_fields (
       andthen (require_string q j [''url'', ''endpoint''] (i @ ''.http_request'')) (\<lambda>url_text.
       andthen (template_expression url_text) (\<lambda>url.
       andthen (look j [''auth'', ''authentication'']) (\<lambda>a.
       andthen (case a of Some (JObj ob) \<Rightarrow> andthen (build_auth q i (JObj ob)) (\<lambda>x. yields (Some x)) | _ \<Rightarrow> yields None) (\<lambda>auth.
       andthen (template_or (JObj []) j [''headers'']) (\<lambda>headers.
       andthen (template_or (JObj []) j [''query'', ''params'', ''query_parameters'']) (\<lambda>query.
       andthen (template_or JNull j [''body'', ''payload'', ''data'']) (\<lambda>body.
       andthen (duration_ms j [''timeout'', ''timeout_ms'']) (\<lambda>timeout.
       andthen (bool_or True j [''follow_redirects'']) (\<lambda>follow.
       andthen (optional_string q j [''content_type'']) (\<lambda>content.
         yields \<lparr>hr_url = url, hr_auth = auth, hr_headers = headers, hr_query = query, hr_body = body,
                 hr_timeout = timeout_of timeout, hr_follow_redirects = follow, hr_content_type = content\<rparr>)))))))))))) (\<lambda>(c, used).
     andthen (warn_unread (''command '' @ quoted i @ '': unused http_request field '') j (''url'' # used)) (\<lambda>_. yields c))"

definition blank_request :: http_request_config where
  "blank_request =
     \<lparr>hr_url = NoExpression, hr_auth = None, hr_headers = JObj [], hr_query = JObj [], hr_body = JNull, hr_timeout = None,
      hr_follow_redirects = True, hr_content_type = None\<rparr>"

definition http_methods :: "string list" where
  "http_methods = [''http.get'', ''http.post'', ''http.put'', ''http.patch'', ''http.delete'', ''http.head'']"

definition is_http :: "string \<Rightarrow> bool" where
  "is_http c = starts_with ''http.'' c"

definition registered :: "parse_options \<Rightarrow> string \<Rightarrow> bool" where
  "registered q c = (case pq_has q of Some has \<Rightarrow> has c | None \<Rightarrow> False)"

definition command_checks :: "parse_options \<Rightarrow> command_node \<Rightarrow> string \<Rightarrow> unit parse" where
  "command_checks q n i =
     (let c = cm_command n
      in if is_http c then
           andthen (refuse_if (c \<notin> set http_methods)
             (''command '' @ quoted c @ '' on node '' @ quoted i @
              '' is not a supported HTTP verb (http.get/post/put/patch/delete/head)'')) (\<lambda>_.
             refuse_if (case cm_http_request n of None \<Rightarrow> True | Some r \<Rightarrow> expression_empty (hr_url r))
               (''command '' @ quoted c @ '' on node '' @ quoted i @ '' requires an '' @ quoted ''http_request'' @
                '' block with a '' @ quoted ''url''))
         else
           refuse_if (\<not> registered q c)
             (''node '' @ quoted i @ '' calls unknown command '' @ quoted c @ ''. No capability provider is registered for it'' @
              (if pq_has q = None then '' (no capability registry was installed)'' else []) @ em_dash @
              ''Sapo never executes DSL commands through a shell. Register the plugin, or use an http.* command.''))"

fun text_entries :: "json list \<Rightarrow> string list option" where
  "text_entries [] = Some []"
| "text_entries (JStr s # r) = map_option (\<lambda>ss. s # ss) (text_entries r)"
| "text_entries (_ # r) = None"

definition with_output :: "string \<Rightarrow> json option \<Rightarrow> command_node \<Rightarrow> command_node parse" where
  "with_output i v n =
     (case v of
        Some (JStr s) \<Rightarrow> yields (n\<lparr>cm_output := s\<rparr>)
      | Some (JArr xs) \<Rightarrow>
          (case text_entries xs of
             Some ps \<Rightarrow> yields (n\<lparr>cm_output_paths := Some ps\<rparr>)
           | None \<Rightarrow> reject (''command node '' @ quoted i @ '': every '' @ quoted ''output'' @ '' entry must be a string path''))
      | Some (JObj ob) \<Rightarrow> yields (n\<lparr>cm_outputs := JObj ob\<rparr>)
      | _ \<Rightarrow> yields n)"

definition with_method :: "json option \<Rightarrow> command_node \<Rightarrow> command_node" where
  "with_method v n =
     (case v of
        Some (JStr m) \<Rightarrow>
          n\<lparr>cm_http_request := Some (case cm_http_request n of Some r \<Rightarrow> r | None \<Rightarrow> blank_request),
            cm_command := ''http.'' @ lower m\<rparr>
      | _ \<Rightarrow> n)"

definition build_command :: "parse_options \<Rightarrow> json \<Rightarrow> string \<Rightarrow> node_body parse" where
  "build_command q j i =
     andthen (require_string q j [''command'', ''action''] i) (\<lambda>command.
     andthen (look j [''http_request'', ''request'', ''http'']) (\<lambda>h.
     andthen (case h of Some (JObj ob) \<Rightarrow> andthen (build_http q i (JObj ob)) (\<lambda>c. yields (Some c)) | _ \<Rightarrow> yields None) (\<lambda>request.
     andthen (template_or (JObj []) j [''inputs'', ''input'', ''args'', ''config'']) (\<lambda>inputs.
     andthen (look j [''output'', ''outputs'', ''save_to'', ''as'']) (\<lambda>out.
     andthen (with_output i out \<lparr>cm_command = command, cm_output_paths = None, cm_output = [], cm_outputs = JObj [],
                                  cm_http_request = request, cm_inputs = inputs\<rparr>) (\<lambda>n.
     andthen (look j [''method'']) (\<lambda>method.
     andthen (command_checks q (with_method method n) i) (\<lambda>_.
       yields (Command (with_method method n))))))))))"

section \<open>Events, waiting, schedules, subflows\<close>

definition build_event :: "parse_options \<Rightarrow> json \<Rightarrow> string \<Rightarrow> node_body parse" where
  "build_event q j i =
     andthen (require_string q j [''name'', ''event'', ''event_name'', ''topic''] i) (\<lambda>name.
     andthen (template_or (JObj []) j [''payload'', ''data'', ''body'']) (\<lambda>payload.
     andthen (bool_or True j [''publish_now'', ''immediate'']) (\<lambda>now.
       yields (EventEmit \<lparr>ev_name = name, ev_payload = payload, ev_publish_now = now\<rparr>))))"

definition readable_duration :: "string \<Rightarrow> bool parse" where
  "readable_duration t =
     andthen (demand_outcome (parse_duration t)) (\<lambda>d.
       if d \<noteq> None \<or> parse_iso8601 t \<noteq> None then yields True
       else andthen (demand_outcome (parse_relative_delay t)) (\<lambda>r. yields (r \<noteq> None)))"

definition build_wait :: "parse_options \<Rightarrow> json \<Rightarrow> string \<Rightarrow> node_body parse" where
  "build_wait q j i =
     andthen (optional_string q j [''duration'', ''for'', ''delay'']) (\<lambda>duration.
     andthen (soft_predicate q j [''until'', ''condition'', ''until_condition'']) (\<lambda>until.
     andthen (refuse_if (duration = None \<and> expression_empty until)
       (''wait node '' @ quoted i @ '' needs either '' @ quoted ''duration'' @ '' or '' @ quoted ''until'')) (\<lambda>_.
     andthen (refuse_if (duration \<noteq> None \<and> \<not> expression_empty until)
       (''wait node '' @ quoted i @ '' cannot combine '' @ quoted ''duration'' @ '' and '' @ quoted ''until'')) (\<lambda>_.
     andthen (case duration of None \<Rightarrow> yields True | Some t \<Rightarrow> readable_duration t) (\<lambda>ok.
     andthen (refuse_if (\<not> ok)
       (''wait node '' @ quoted i @ '' has an unparseable duration '' @ quoted (case duration of Some t \<Rightarrow> t | None \<Rightarrow> []) @
        '' (expected 30s, 10m, 2h, 1d, ISO-8601 or '' @ quoted ''in 5 minutes'' @ '')'')) (\<lambda>_.
     andthen (int_or 64 (- 1) j [''poll_interval_ms'']) (\<lambda>poll.
     andthen (bool_or True j [''durable'']) (\<lambda>durable.
       yields (Wait \<lparr>wt_duration = duration, wt_until = until,
                     wt_poll_interval_ms = (if 0 < poll then Some poll else None), wt_durable = durable\<rparr>)))))))))"

definition build_schedule :: "parse_options \<Rightarrow> json \<Rightarrow> string \<Rightarrow> node_body parse" where
  "build_schedule q j i =
     andthen (string_or q [] j [''cron'', ''schedule'', ''when'', ''every'']) (\<lambda>cron.
     andthen (refuse_if (cron = []) (''schedule node '' @ quoted i @ '' requires '' @ quoted ''cron'' @ '' (or '' @ quoted ''every'' @ '')'')) (\<lambda>_.
     andthen (optional_string q j [''timezone'', ''tz'']) (\<lambda>timezone.
     andthen (optional_string q j [''workflow'', ''workflow_id'']) (\<lambda>workflow.
     andthen (optional_string q j [''job_id'', ''name'']) (\<lambda>job.
     andthen (template_or (JObj []) j [''input'', ''inputs'', ''payload'']) (\<lambda>input.
     andthen (bool_or True j [''enabled'']) (\<lambda>enabled.
     andthen (string_or q [] j [''body'', ''target'', ''task'', ''task_id'']) (\<lambda>body.
     andthen (demand_outcome (is_valid_cron_expression cron)) (\<lambda>ok.
     andthen (refuse_if (\<not> ok)
       (''schedule node '' @ quoted i @ '' has an invalid schedule '' @ quoted cron @
        '' (expected 5/6-field cron, @hourly/@daily/@weekly/@monthly/@yearly, or '' @ quoted ''in 5 minutes'' @ '')'')) (\<lambda>_.
     andthen (refuse_if (body = [] \<and> workflow = None)
       (''schedule node '' @ quoted i @ '' needs a '' @ quoted ''body'' @ '' target (node id) or a '' @ quoted ''workflow'' @
        '' id to start'')) (\<lambda>_.
       yields (Schedule \<lparr>sd_cron = cron, sd_timezone = timezone, sd_body = body, sd_workflow = workflow, sd_job_id = job,
                         sd_input = input, sd_enabled = enabled\<rparr>))))))))))))"

definition build_subflow :: "parse_options \<Rightarrow> json \<Rightarrow> string \<Rightarrow> node_body parse" where
  "build_subflow q j i =
     andthen (require_string q j [''workflow'', ''workflow_id'', ''call'', ''blueprint''] i) (\<lambda>workflow.
     andthen (bool_or True j [''wait_for_completion'', ''await'', ''wait'']) (\<lambda>wait.
     andthen (template_or (JObj []) j [''inputs'', ''input'', ''params'']) (\<lambda>inputs.
     andthen (optional_string q j [''output'', ''output_key'', ''save_to'', ''as'']) (\<lambda>output.
     andthen (template_or (JObj []) j [''return'', ''return_map'', ''returns'']) (\<lambda>returns.
     andthen (int_or 32 8 j [''max_depth'']) (\<lambda>depth.
     andthen (refuse_if (depth < 1) (''subflow node '' @ quoted i @ '' max_depth must be >= 1'')) (\<lambda>_.
       yields (Subflow \<lparr>sf_workflow = workflow, sf_wait_for_completion = wait, sf_inputs = inputs, sf_output = output,
                        sf_return_map = returns, sf_max_depth = depth\<rparr>))))))))"

definition build_choice :: "parse_options \<Rightarrow> json \<Rightarrow> string \<Rightarrow> node_body parse" where
  "build_choice q j i =
     andthen (read_with (to_expression q) j [''expression'', ''variable_key'', ''selector'', ''switch'']) (\<lambda>e.
     andthen (refuse_if (expression_empty e) (''choice node '' @ quoted i @ '' needs an '' @ quoted ''expression'')) (\<lambda>_.
     andthen (string_map q j [''cases'', ''branches'', ''options'']) (\<lambda>cases.
     andthen (optional_string q j [''default'', ''default_target'', ''fallback'']) (\<lambda>default.
     andthen (refuse_if (cases = []) (''choice node '' @ quoted i @ '' needs a non-empty '' @ quoted ''cases'' @ '' map'')) (\<lambda>_.
       yields (Choice \<lparr>ch_expression = e, ch_cases = cases, ch_default_target = default\<rparr>))))))"

definition build_loop_control :: "parse_options \<Rightarrow> json \<Rightarrow> string \<Rightarrow> string \<Rightarrow> node_body parse" where
  "build_loop_control q j ty i =
     andthen (if ty = ''break'' then yields ''break'' else if ty = ''continue'' then yields ''continue''
              else andthen (string_or q ''continue'' j [''action'']) (\<lambda>a. yields (lower a))) (\<lambda>action.
     andthen (refuse_if (action \<notin> set [''break'', ''continue''])
       (''loop_control node '' @ quoted i @ '' action must be '' @ quoted ''break'' @ '' or '' @ quoted ''continue'')) (\<lambda>_.
     andthen (optional_with (to_predicate q) j [''when'', ''if'']) (\<lambda>when.
     andthen (optional_string q j [''loop'', ''loop_id'']) (\<lambda>loop.
       yields (LoopControl \<lparr>lc_action = action, lc_when = when, lc_loop = loop\<rparr>)))))"

end
