(* ===== verification/Sapo_Parser.thy ===== *)
theory Sapo_Parser
  imports Sapo_Builders
begin

text \<open>
  The rest of the blueprint parser (\<open>src/src/parser/WorkflowParser.cpp\<close>, \<open>.hpp\<close>): inline bodies and their hoisting, the
  nodes that have them, actions, a whole node, a whole blueprint.  Bodies nest as deep as the document; \<open>parse_node\<close>
  takes that depth as fuel, and the size of the document is shown to be enough.
\<close>

section \<open>Bodies\<close>

type_synonym child_parser = "json \<Rightarrow> string \<Rightarrow> node parse"

fun expand_items :: "child_parser \<Rightarrow> string \<Rightarrow> string \<Rightarrow> nat \<Rightarrow> json list \<Rightarrow> string list parse" where
  "expand_items child parent slot n [] = yields []"
| "expand_items child parent slot n (JStr s # r) =
     andthen (expand_items child parent slot n r) (\<lambda>ids. yields (s # ids))"
| "expand_items child parent slot n (JObj ob # r) =
     andthen (child (JObj ob) (parent @ ''.'' @ slot @ ''_'' @ int_str (int n))) (\<lambda>c.
     andthen (hoist c) (\<lambda>_.
     andthen (expand_items child parent slot (n + 1) r) (\<lambda>ids. yields (nd_id c # ids))))"
| "expand_items child parent slot n (_ # r) =
     reject (''node '' @ quoted parent @ '': entries in '' @ quoted slot @ '' must be node objects or node ids'')"

definition expand :: "child_parser \<Rightarrow> json \<Rightarrow> string \<Rightarrow> string \<Rightarrow> string list parse" where
  "expand child v parent slot =
     (case v of JStr s \<Rightarrow> yields [s] | JArr xs \<Rightarrow> expand_items child parent slot 0 xs | _ \<Rightarrow> yields [])"

definition expand_optional :: "child_parser \<Rightarrow> json option \<Rightarrow> string \<Rightarrow> string \<Rightarrow> string list parse" where
  "expand_optional child v parent slot = (case v of Some x \<Rightarrow> expand child x parent slot | None \<Rightarrow> yields [])"

definition dots :: string where
  "dots = [CHR 0xE2, CHR 0x80, CHR 0xA6]"

text \<open>A branch of a condition: inline nodes, or a target.\<close>

definition arm :: "child_parser \<Rightarrow> json option \<Rightarrow> string \<Rightarrow> string \<Rightarrow> (string list \<times> string option) parse" where
  "arm child v parent slot =
     (case v of
        Some (JArr (x # xs)) \<Rightarrow> andthen (expand child (JArr (x # xs)) parent slot) (\<lambda>ids. yields (ids, None))
      | Some (JStr s) \<Rightarrow> yields ([], Some s)
      | _ \<Rightarrow> yields ([], None))"

definition build_condition :: "parse_options \<Rightarrow> child_parser \<Rightarrow> json \<Rightarrow> string \<Rightarrow> node_body parse" where
  "build_condition q child j i =
     andthen (read_with (to_predicate q) j [''expression'', ''condition'', ''when'']) (\<lambda>e1.
     andthen (if expression_empty e1 then read_with (to_predicate q) j [''if''] else yields e1) (\<lambda>e.
     andthen (refuse_if (expression_empty e)
       (''condition node '' @ quoted i @ '' needs an '' @ quoted ''expression'' @ '' (or an '' @ quoted ''if'' @ '' / '' @
        quoted ''condition'' @ '' string)'')) (\<lambda>_.
     andthen (look j [''then'', ''then_body'', ''then_nodes'', ''on_true'', ''onTrue'']) (\<lambda>t.
     andthen (arm child t i ''then'') (\<lambda>(then_body, on_true).
     andthen (look j [''else'', ''else_body'', ''else_nodes'', ''on_false'', ''onFalse'']) (\<lambda>f.
     andthen (arm child f i ''else'') (\<lambda>(else_body, on_false).
     andthen (refuse_if ((case on_true of Some t \<Rightarrow> t | None \<Rightarrow> []) = [] \<and> then_body = [])
       (''condition node '' @ quoted i @ '' needs '' @ quoted ''on_true'' @ '' (or a non-empty '' @ quoted ''then'' @ '' body)'')) (\<lambda>_.
       yields (Condition \<lparr>cn_expression = e, cn_on_true = (case on_true of Some t \<Rightarrow> t | None \<Rightarrow> []), cn_on_false = on_false,
                          cn_then_body = then_body, cn_else_body = else_body\<rparr>)))))))))"

section \<open>Parallel sections\<close>

definition branch_list :: "parse_options \<Rightarrow> child_parser \<Rightarrow> json \<Rightarrow> string \<Rightarrow> branch parse" where
  "branch_list q child v i =
     andthen (in_fields (
       andthen (optional_string q v [''id'', ''label'', ''name'']) (\<lambda>label.
       andthen (look v [''tasks'', ''body'']) (\<lambda>tasks.
       andthen (expand_optional child tasks i ''branch'') (\<lambda>ids.
         yields \<lparr>br_node_ids = ids, br_label = label\<rparr>))))) (\<lambda>(b, used).
     andthen (warn_unread (''parallel node '' @ quoted i @ '': unread child_tasks entry field '') v (''tasks'' # ''body'' # used))
       (\<lambda>_. yields b))"

definition branch_node :: "child_parser \<Rightarrow> json \<Rightarrow> string \<Rightarrow> nat \<Rightarrow> branch parse" where
  "branch_node child v i n =
     (let child_id = (case jget ''id'' v of Some (JStr s) \<Rightarrow> s | _ \<Rightarrow> i @ ''.branch_'' @ int_str (int n))
      in andthen (child v child_id) (\<lambda>c.
         andthen (hoist c) (\<lambda>_. yields \<lparr>br_node_ids = [child_id], br_label = Some child_id\<rparr>)))"

fun parse_branches :: "parse_options \<Rightarrow> child_parser \<Rightarrow> string \<Rightarrow> nat \<Rightarrow> json list \<Rightarrow> branch list parse" where
  "parse_branches q child i n [] = yields []"
| "parse_branches q child i n (v # r) =
     andthen (case v of
         JStr s \<Rightarrow> yields \<lparr>br_node_ids = [s], br_label = None\<rparr>
       | JObj _ \<Rightarrow> (if jcontains ''tasks'' v \<or> jcontains ''body'' v then branch_list q child v i else branch_node child v i n)
       | _ \<Rightarrow> reject (''parallel node '' @ quoted i @ '': child_tasks entries must be nodes, ids or {tasks:['' @ dots @ '']}''))
       (\<lambda>b. andthen (parse_branches q child i (n + 1) r) (\<lambda>bs. yields (if br_node_ids b = [] then bs else b # bs)))"

definition merge_policies :: "string list" where
  "merge_policies = [''last_writer_wins'', ''skip_conflicts'', ''fail_conflicts'']"

definition build_parallel :: "parse_options \<Rightarrow> child_parser \<Rightarrow> json \<Rightarrow> string \<Rightarrow> node_body parse" where
  "build_parallel q child j i =
     andthen (look j [''child_tasks'', ''children'']) (\<lambda>children.
     andthen (case children of
         None \<Rightarrow> yields []
       | Some (JArr xs) \<Rightarrow> parse_branches q child i 0 xs
       | Some _ \<Rightarrow> reject (''parallel node '' @ quoted i @ '': '' @ quoted ''child_tasks'' @ '' must be an array'')) (\<lambda>bs.
     andthen (string_list q j [''tasks'', ''task_refs'', ''branches'']) (\<lambda>refs.
     andthen (bool_or True j [''fail_fast'', ''failFast'']) (\<lambda>fail_fast.
     andthen (string_or q ''last_writer_wins'' j [''merge_policy'', ''join'']) (\<lambda>policy.
     andthen (int_or 32 0 j [''max_concurrency'', ''concurrency'']) (\<lambda>concurrency.
       let branches = bs @ map (\<lambda>t. \<lparr>br_node_ids = [t], br_label = None\<rparr>) refs
       in andthen (refuse_if (branches = [])
            (''parallel node '' @ quoted i @ '' needs '' @ quoted ''child_tasks'' @ '' (inline nodes) or '' @ quoted ''tasks'' @
             '' (node ids)'')) (\<lambda>_.
          andthen (refuse_if (concurrency < 0) (''parallel node '' @ quoted i @ '' max_concurrency cannot be negative'')) (\<lambda>_.
          andthen (refuse_if (policy \<notin> set merge_policies)
            (''parallel node '' @ quoted i @ '' has unknown merge_policy '' @ quoted policy @
             ''; expected last_writer_wins | skip_conflicts | fail_conflicts'')) (\<lambda>_.
            yields (Parallel \<lparr>pn_branches = branches, pn_fail_fast = fail_fast, pn_merge_policy = policy,
                              pn_max_concurrency = concurrency\<rparr>))))))))))"

section \<open>Loops and try blocks\<close>

definition build_loop :: "parse_options \<Rightarrow> child_parser \<Rightarrow> json \<Rightarrow> string \<Rightarrow> node_body parse" where
  "build_loop q child j i =
     andthen (read_with (to_expression q) j [''collection'', ''items'', ''over'', ''each'']) (\<lambda>collection.
     andthen (read_with (to_expression q) j [''count'', ''times'', ''repeat'']) (\<lambda>count.
     andthen (read_with (to_predicate q) j [''while'', ''condition'', ''until_done'']) (\<lambda>cond.
     andthen (string_or q ''item'' j [''iterator'', ''as'', ''item_variable'']) (\<lambda>iterator.
     andthen (string_or q ''index'' j [''index'', ''index_variable'', ''index_name'']) (\<lambda>index.
     andthen (look j [''body'', ''steps'', ''tasks'']) (\<lambda>b.
     andthen (expand_optional child b i ''body'') (\<lambda>body.
     andthen (int_or 32 1000 j [''max_iterations'', ''max'', ''iteration_limit'']) (\<lambda>limit.
     andthen (string_or q ''fail'' j [''on_item_error'', ''error_handling'']) (\<lambda>on_error.
     andthen (refuse_if (lower on_error \<notin> set [''fail'', ''continue'', ''retry''])
       (''loop node '' @ quoted i @ '' on_item_error must be fail|continue|retry'')) (\<lambda>_.
     andthen (refuse_if (expression_empty collection \<and> expression_empty count \<and> expression_empty cond)
       (''loop node '' @ quoted i @ '' needs '' @ quoted ''collection'' @ '', '' @ quoted ''count'' @ '' or '' @ quoted ''while'')) (\<lambda>_.
     andthen (refuse_if (body = []) (''loop node '' @ quoted i @ '' needs a non-empty '' @ quoted ''body'')) (\<lambda>_.
     andthen (refuse_if (limit < 1) (''loop node '' @ quoted i @ '' max_iterations must be >= 1'')) (\<lambda>_.
       yields (Loop \<lparr>lp_collection = collection, lp_count = count, lp_condition = cond, lp_iterator = strip_sigil iterator,
                     lp_index = strip_sigil index, lp_body = body, lp_max_iterations = limit,
                     lp_on_item_error = lower on_error\<rparr>))))))))))))))"

record catch_part =
  cp_body :: "string list"
  cp_variable :: string
  cp_when :: "(string \<times> string) list"

definition catch_object :: "parse_options \<Rightarrow> child_parser \<Rightarrow> json \<Rightarrow> string \<Rightarrow> catch_part parse" where
  "catch_object q child v i =
     andthen (in_fields (
       andthen (string_or q ''error'' v [''as'', ''error_variable'', ''var'']) (\<lambda>variable.
       andthen (look v [''body'', ''steps'']) (\<lambda>b.
       andthen (expand_optional child b i ''catch'') (\<lambda>body.
       andthen (optional_string q v [''target'', ''jump_to'']) (\<lambda>target.
       andthen (string_map q v [''when'', ''cases'']) (\<lambda>when.
         yields \<lparr>cp_body = body @ (case target of Some t \<Rightarrow> [t] | None \<Rightarrow> []), cp_variable = strip_sigil variable,
                 cp_when = when\<rparr>))))))) (\<lambda>(c, used).
     case unread_keys v used of
       [] \<Rightarrow> yields c
     | k # _ \<Rightarrow> reject (''try node '' @ quoted i @ '': unused catch field '' @ quoted k))"

definition build_catch :: "parse_options \<Rightarrow> child_parser \<Rightarrow> json option \<Rightarrow> string \<Rightarrow> catch_part parse" where
  "build_catch q child v i =
     (case v of
        None \<Rightarrow> yields \<lparr>cp_body = [], cp_variable = ''error'', cp_when = []\<rparr>
      | Some (JObj ob) \<Rightarrow> catch_object q child (JObj ob) i
      | Some x \<Rightarrow> andthen (expand child x i ''catch'') (\<lambda>ids. yields \<lparr>cp_body = ids, cp_variable = ''error'', cp_when = []\<rparr>))"

definition build_try :: "parse_options \<Rightarrow> child_parser \<Rightarrow> json \<Rightarrow> string \<Rightarrow> node_body parse" where
  "build_try q child j i =
     andthen (look j [''body'', ''do'', ''steps'']) (\<lambda>b.
     andthen (expand_optional child b i ''try'') (\<lambda>body.
     andthen (look j [''catch'', ''error_body'']) (\<lambda>c.
     andthen (build_catch q child c i) (\<lambda>cp.
     andthen (look j [''finally'', ''cleanup'']) (\<lambda>f.
     andthen (expand_optional child f i ''finally'') (\<lambda>finally_body.
     andthen (refuse_if (body = []) (''try node '' @ quoted i @ '' needs a non-empty '' @ quoted ''body'')) (\<lambda>_.
     andthen (refuse_if (cp_body cp = [] \<and> cp_when cp = [] \<and> finally_body = [])
       (''try node '' @ quoted i @ '' needs at least one of '' @ quoted ''catch'' @ '' or '' @ quoted ''finally'')) (\<lambda>_.
       yields (Try \<lparr>ty_body = body, ty_catch_body = cp_body cp, ty_finally_body = finally_body,
                    ty_error_variable = cp_variable cp, ty_catch_when = cp_when cp\<rparr>)))))))))"

section \<open>Actions\<close>

definition interactions :: "string list" where
  "interactions = [''display'', ''input'', ''menu'', ''pin'']"

definition prompt_options :: "json option \<Rightarrow> string \<Rightarrow> json parse" where
  "prompt_options v i =
     (case v of
        None \<Rightarrow> yields (JObj [])
      | Some (JObj ob) \<Rightarrow>
          yields (case jget ''options'' (JObj ob) of Some (JObj inner) \<Rightarrow> JObj inner | _ \<Rightarrow> JObj ob)
      | Some _ \<Rightarrow> reject (''action node '' @ quoted i @ '' prompt_config.options/features must be an object''))"

definition prompt_object :: "parse_options \<Rightarrow> json \<Rightarrow> string \<Rightarrow> prompt_config parse" where
  "prompt_object q v i =
     andthen (in_fields (
       andthen (read_with (to_expression q) v [''message'', ''text'']) (\<lambda>message.
       andthen (string_or q ''input'' v [''interaction_type'', ''type'', ''mode'']) (\<lambda>ty.
       andthen (optional_with (to_predicate q) v [''input_validation'', ''validation'']) (\<lambda>validation.
       andthen (duration_ms v [''timeout'', ''timeout_ms'']) (\<lambda>timeout.
       andthen (optional_string q v [''output'', ''save_to'', ''input_variable'']) (\<lambda>output.
       andthen (look v [''options'', ''dynamic_options'', ''features'']) (\<lambda>os.
       andthen (prompt_options os i) (\<lambda>options.
         yields \<lparr>pc_message = message, pc_interaction_type = lower ty, pc_input_validation = validation,
                 pc_timeout_ms = timeout_of timeout, pc_output = output, pc_options = options\<rparr>))))))))) (\<lambda>(p, used).
     andthen (warn_unread (''action node '' @ quoted i @ '': unused prompt_config field '') v used) (\<lambda>_. yields p))"

definition build_prompt :: "parse_options \<Rightarrow> json \<Rightarrow> string \<Rightarrow> prompt_config parse" where
  "build_prompt q v i =
     andthen (case v of
         JStr t \<Rightarrow> andthen (template_expression t) (\<lambda>m.
           yields \<lparr>pc_message = m, pc_interaction_type = ''input'', pc_input_validation = None, pc_timeout_ms = None,
                   pc_output = None, pc_options = JObj []\<rparr>)
       | JObj ob \<Rightarrow> prompt_object q (JObj ob) i
       | _ \<Rightarrow> reject (''action node '' @ quoted i @ '' prompt_config must be a string or an object'')) (\<lambda>p.
     andthen (refuse_if (pc_interaction_type p \<notin> set interactions)
       (''action node '' @ quoted i @ '' prompt_config.interaction_type must be display|input|menu|pin, got '' @
        quoted (pc_interaction_type p))) (\<lambda>_.
     andthen (refuse_if (expression_empty (pc_message p))
       (''action node '' @ quoted i @ '' prompt_config needs a '' @ quoted ''message'')) (\<lambda>_. yields p)))"

definition event_object :: "parse_options \<Rightarrow> json \<Rightarrow> string \<Rightarrow> system_event parse" where
  "event_object q v i =
     andthen (in_fields (
       andthen (require_string q v [''event_name'', ''event'', ''name''] (i @ ''.on_event'')) (\<lambda>name.
       andthen (optional_with (to_predicate q) v [''trigger_condition'', ''when'', ''condition'']) (\<lambda>trigger.
       andthen (optional_string q v [''handler'', ''target'', ''jump_to'']) (\<lambda>handler.
         yields \<lparr>sy_event_name = name, sy_trigger_condition = trigger, sy_handler = handler\<rparr>))))) (\<lambda>(e, used).
     andthen (warn_unread (''action node '' @ quoted i @ '': unused on_event field '') v used) (\<lambda>_. yields e))"

definition build_on_event :: "parse_options \<Rightarrow> json option \<Rightarrow> string \<Rightarrow> system_event option parse" where
  "build_on_event q v i =
     (case v of
        None \<Rightarrow> yields None
      | Some JNull \<Rightarrow> yields None
      | Some (JStr t) \<Rightarrow> yields (Some \<lparr>sy_event_name = t, sy_trigger_condition = None, sy_handler = None\<rparr>)
      | Some (JObj ob) \<Rightarrow> andthen (event_object q (JObj ob) i) (\<lambda>e. yields (Some e))
      | Some _ \<Rightarrow> reject (''action node '' @ quoted i @ '': '' @ quoted ''on_event'' @ '' must be an event name or an object with '' @
                         quoted ''event_name''))"

definition source_object :: "parse_options \<Rightarrow> json \<Rightarrow> string \<Rightarrow> data_source_decl parse" where
  "source_object q v i =
     andthen (in_fields (
       andthen (require_string q v [''name'', ''id''] (i @ ''.data_sources[]'')) (\<lambda>name.
       andthen (string_or q ''internal'' v [''scope'']) (\<lambda>sc.
       andthen (string_or q [] v [''provider'', ''type'']) (\<lambda>provider.
       andthen (template_or (JObj []) v [''config'', ''settings'']) (\<lambda>config.
       andthen (refuse_if (lower provider = [])
         (''action node '' @ quoted i @ '' declares data source '' @ quoted name @ '' without a '' @ quoted ''provider'')) (\<lambda>_.
       andthen (refuse_if (lower sc \<notin> set [''internal'', ''external''])
         (''data source '' @ quoted name @ '' scope must be '' @ quoted ''internal'' @ '' or '' @ quoted ''external'')) (\<lambda>_.
         yields \<lparr>ds_name = name, ds_scope = lower sc, ds_provider = lower provider, ds_config = config\<rparr>)))))))) (\<lambda>(d, used).
     andthen (warn_unread (''action node '' @ quoted i @ '': unused data_sources field '') v used) (\<lambda>_. yields d))"

definition build_sources :: "parse_options \<Rightarrow> json option \<Rightarrow> string \<Rightarrow> data_source_decl list parse" where
  "build_sources q v i =
     (case v of
        Some (JArr xs) \<Rightarrow>
          in_turn (map (\<lambda>x. if is_object x then source_object q x i
                            else reject (''action node '' @ quoted i @ '': data_sources entries must be objects'')) xs)
      | _ \<Rightarrow> yields [])"

definition action_outputs :: "json \<Rightarrow> json \<Rightarrow> string \<Rightarrow> json parse" where
  "action_outputs outputs j i =
     (if \<not> jempty outputs then yields outputs
      else andthen (look j [''output'']) (\<lambda>v.
        case v of
          None \<Rightarrow> yields outputs
        | Some (JObj ob) \<Rightarrow> yields (JObj ob)
        | Some (JStr k) \<Rightarrow> yields (jobj [(k, JStr ''$'')])
        | Some _ \<Rightarrow> reject (''action node '' @ quoted i @ '': '' @ quoted ''output'' @
                           '' must name a context key or map keys to result paths'')))"

definition task_ref :: "parse_options \<Rightarrow> string \<Rightarrow> json \<Rightarrow> task_reference parse" where
  "task_ref q i v =
     (case v of
        JStr t \<Rightarrow> yields \<lparr>tr_task_id = t, tr_execute_condition = None\<rparr>
      | JObj ob \<Rightarrow>
          andthen (in_fields (
            andthen (require_string q (JObj ob) [''task_id'', ''node'', ''target''] (i @ ''.next_tasks[]'')) (\<lambda>t.
            andthen (optional_with (to_predicate q) (JObj ob) [''execute_condition'', ''when'', ''condition'']) (\<lambda>c.
              yields \<lparr>tr_task_id = t, tr_execute_condition = c\<rparr>)))) (\<lambda>(r, used). yields r)
      | _ \<Rightarrow> reject (''action node '' @ quoted i @ '': next_tasks entries must be node ids or objects''))"

definition build_next_tasks :: "parse_options \<Rightarrow> json option \<Rightarrow> string \<Rightarrow> task_reference list parse" where
  "build_next_tasks q v i = (case v of Some (JArr xs) \<Rightarrow> in_turn (map (task_ref q i) xs) | _ \<Rightarrow> yields [])"

definition action_checks :: "parse_options \<Rightarrow> action_node \<Rightarrow> string \<Rightarrow> unit parse" where
  "action_checks q n i =
     andthen (refuse_if (ac_capability n \<noteq> [] \<and> \<not> registered q (ac_capability n))
       (''action node '' @ quoted i @ '' references unknown capability '' @ quoted (ac_capability n) @ ''. '' @
        (if pq_has q = None then ''No capability registry was installed'' else ''No provider is registered for it'') @ em_dash @
        ''see docs/CAPABILITIES.md / docs/PLUGIN_AUTHORING.md'')) (\<lambda>_.
     refuse_if (ac_capability n = [] \<and> ac_prompt_config n = None \<and> ac_on_event n = None \<and> ac_next_tasks n = [] \<and>
         ac_data_sources n = [])
       (''action node '' @ quoted i @ '' is inert: it declares no capability, prompt, event or next_tasks''))"

definition build_action :: "parse_options \<Rightarrow> json \<Rightarrow> string \<Rightarrow> node_body parse" where
  "build_action q j i =
     andthen (string_or q [] j [''capability'', ''command'']) (\<lambda>capability.
     andthen (bool_or True j [''await_input'', ''await'', ''suspend'']) (\<lambda>await.
     andthen (look j [''prompt_config'', ''prompt'']) (\<lambda>p.
     andthen (case p of Some v \<Rightarrow> andthen (build_prompt q v i) (\<lambda>x. yields (Some x)) | None \<Rightarrow> yields None) (\<lambda>prompt.
     andthen (optional_string q j [''input_variable'']) (\<lambda>variable.
     andthen (look j [''on_event'']) (\<lambda>e.
     andthen (build_on_event q e i) (\<lambda>on_event.
     andthen (look j [''data_sources'']) (\<lambda>d.
     andthen (build_sources q d i) (\<lambda>sources.
     andthen (template_or (JObj []) j [''inputs'', ''input'', ''args'', ''params'']) (\<lambda>inputs.
     andthen (template_or (JObj []) j [''outputs'', ''output_map'', ''returns'']) (\<lambda>outputs1.
     andthen (action_outputs outputs1 j i) (\<lambda>outputs.
     andthen (look j [''next_tasks'']) (\<lambda>t.
     andthen (build_next_tasks q t i) (\<lambda>next_tasks.
       let n = \<lparr>ac_capability = capability, ac_prompt_config = prompt, ac_on_event = on_event, ac_data_sources = sources,
                ac_inputs = inputs, ac_outputs = outputs,
                ac_input_variable = (case variable of Some x \<Rightarrow> Some x
                                     | None \<Rightarrow> (case prompt of Some c \<Rightarrow> pc_output c | None \<Rightarrow> None)),
                ac_next_tasks = next_tasks, ac_await_input = await\<rparr>
       in andthen (action_checks q n i) (\<lambda>_. yields (Action n))))))))))))))))"

section \<open>Nodes\<close>

definition build_body :: "parse_options \<Rightarrow> child_parser \<Rightarrow> json \<Rightarrow> string \<Rightarrow> string \<Rightarrow> node_body parse" where
  "build_body q child j ty i =
     (if ty = ''noop'' then build_noop j
      else if ty = ''terminate'' then build_terminate q j
      else if ty = ''script'' then build_script q j i
      else if ty = ''transform'' then build_transform q j i
      else if ty = ''query'' then build_query q j i
      else if ty = ''command'' then build_command q j i
      else if ty = ''event'' then build_event q j i
      else if ty = ''wait'' then build_wait q j i
      else if ty = ''schedule'' then build_schedule q j i
      else if ty = ''subflow'' then build_subflow q j i
      else if ty \<in> set [''condition'', ''if''] then build_condition q child j i
      else if ty \<in> set [''choice'', ''switch''] then build_choice q j i
      else if ty = ''parallel'' then build_parallel q child j i
      else if ty = ''action'' then build_action q j i
      else if ty = ''loop'' then build_loop q child j i
      else if ty \<in> set [''break'', ''continue'', ''loop_control''] then build_loop_control q j ty i
      else if ty = ''try'' then build_try q child j i
      else reject (''Unknown task type: '' @ quoted ty @ ''. Grammar v1 accepts: noop, transform, query, command, '' @
                   ''event, wait, schedule, subflow, script, condition, if, choice, parallel, action, loop, break, '' @
                   ''continue, loop_control, try, terminate''))"

definition named_only :: "string option \<Rightarrow> string option" where
  "named_only t = (case t of Some x \<Rightarrow> (if x = [] then None else Some x) | None \<Rightarrow> None)"

definition node_fields :: "parse_options \<Rightarrow> child_parser \<Rightarrow> json \<Rightarrow> string \<Rightarrow> string \<Rightarrow> node parse" where
  "node_fields q child j ty auto_id =
     andthen (string_or q auto_id j [''id'', ''node_id'']) (\<lambda>i0.
     let i = (if i0 = [] then auto_id else i0)
     in andthen (build_body q child j ty i) (\<lambda>body.
        andthen (optional_string q j [''next'', ''next_node'', ''next_step'']) (\<lambda>next.
        andthen (optional_string q j [''on_error'', ''onError'']) (\<lambda>on_error.
        andthen (optional_string q j [''label'', ''name'', ''title'']) (\<lambda>label.
        andthen (bool_or True j [''enabled'', ''active'']) (\<lambda>enabled.
        andthen (look j [''retry'']) (\<lambda>r.
        andthen (case r of Some v \<Rightarrow> andthen (parse_retry q v) (\<lambda>p. yields (Some p)) | None \<Rightarrow> yields None) (\<lambda>retry.
          yields \<lparr>nd_id = i, nd_next = named_only next, nd_on_error = named_only on_error, nd_retry = retry,
                  nd_label = label, nd_enabled = enabled, nd_body = body\<rparr>))))))))"

definition unread_fields :: "parse_options \<Rightarrow> json \<Rightarrow> string \<Rightarrow> string \<Rightarrow> string list \<Rightarrow> unit parse" where
  "unread_fields q j ty i used =
     each (\<lambda>k. let message = ''node '' @ quoted i @ '' ('' @ ty @ '') has an unread field '' @ quoted k
               in if pq_strict q then reject (message @ em_dash @ ''unknown field (strict_fields is on)'') else warn message)
       (unread_keys j (''type'' # ''id'' # used))"

definition node_step :: "child_parser \<Rightarrow> parse_options \<Rightarrow> json \<Rightarrow> string \<Rightarrow> node parse" where
  "node_step child q j auto_id =
     (case j of
        JObj _ \<Rightarrow>
          (case jget ''type'' j of
             None \<Rightarrow> reject (''task node missing '' @ quoted ''type'' @ '' identifier'')
           | Some (JStr t) \<Rightarrow>
               andthen (in_fields (node_fields q child j (lower t) auto_id)) (\<lambda>(n, used).
               andthen (unread_fields q j (lower t) (nd_id n) used) (\<lambda>_. yields n))
           | Some _ \<Rightarrow> reject (''task node '' @ quoted ''type'' @ '' must be a string''))
      | _ \<Rightarrow> reject (''every node must be a JSON object (got '' @ json_kind j @ '')''))"

primrec parse_node :: "nat \<Rightarrow> parse_options \<Rightarrow> child_parser" where
  "parse_node 0 q = (\<lambda>j auto_id s. (Deep, s))"
| "parse_node (Suc f) q = node_step (parse_node f q) q"

section \<open>Blueprints\<close>

definition doc_string :: "parse_options \<Rightarrow> json \<Rightarrow> string \<Rightarrow> string \<Rightarrow> string" where
  "doc_string q d k fallback =
     (case jget k d of
        Some (JStr s) \<Rightarrow> s
      | Some (JInt i) \<Rightarrow> pq_dump q (JInt i) | Some (JFloat x) \<Rightarrow> pq_dump q (JFloat x) | Some (JBool b) \<Rightarrow> pq_dump q (JBool b)
      | _ \<Rightarrow> fallback)"

definition blank_metadata :: workflow_metadata where
  "blank_metadata =
     \<lparr>md_name = ''sapo.workflow'', md_version = ''1.0'', md_description = [], md_trigger_event = None,
      md_trigger_input = JObj [], md_defaults = JObj [], md_raw = JObj []\<rparr>"

definition trigger_event :: "json \<Rightarrow> string option" where
  "trigger_event t =
     (case jget ''event'' t of
        Some (JStr s) \<Rightarrow> Some s
      | _ \<Rightarrow> (case jget ''name'' t of Some (JStr s) \<Rightarrow> Some s | _ \<Rightarrow> None))"

definition read_metadata :: "parse_options \<Rightarrow> json \<Rightarrow> workflow_metadata" where
  "read_metadata q d =
     (let trigger = (case jget ''trigger'' d of Some (JObj ob) \<Rightarrow> Some (JObj ob) | _ \<Rightarrow> None)
      in \<lparr>md_name = doc_string q d ''name'' ''sapo.workflow'', md_version = doc_string q d ''version'' ''1.0'',
          md_description = doc_string q d ''description'' [],
          md_trigger_event = (case trigger of Some t \<Rightarrow> trigger_event t | None \<Rightarrow> None),
          md_trigger_input = (case trigger of
             Some t \<Rightarrow> (case jget ''input'' t of Some v \<Rightarrow> v | None \<Rightarrow> JObj []) | None \<Rightarrow> JObj []),
          md_defaults = (case first_of d [''vars'', ''defaults''] of Some (k, v) \<Rightarrow> v | None \<Rightarrow> JObj []),
          md_raw = d\<rparr>)"

definition header_of :: "parse_options \<Rightarrow> json \<Rightarrow> (workflow_metadata \<times> json) parse" where
  "header_of q d =
     (case d of
        JArr xs \<Rightarrow> yields (blank_metadata, JArr xs)
      | JObj ob \<Rightarrow>
          (case first_of d [''nodes'', ''tasks'', ''steps''] of
             Some (k, v) \<Rightarrow> yields (read_metadata q d, v)
           | None \<Rightarrow> reject (''a workflow object must contain a '' @ quoted ''nodes'' @ '' array''))
      | _ \<Rightarrow> reject ''a Sapo blueprint must be a JSON array of nodes or a workflow object'')"

fun parse_nodes :: "nat \<Rightarrow> parse_options \<Rightarrow> nat \<Rightarrow> json list \<Rightarrow> node list parse" where
  "parse_nodes f q n [] = yields []"
| "parse_nodes f q n (v # r) =
     andthen (parse_node f q v (''node_'' @ int_str (int n))) (\<lambda>x.
     andthen (parse_nodes f q (n + 1) r) (\<lambda>xs. yields (x # xs)))"

text \<open>The index: a node without identifier gets one, a second node under one identifier is refused.\<close>

fun index_nodes :: "node list \<Rightarrow> (string \<times> node) list \<Rightarrow> (node list \<times> (string \<times> node) list) parse" where
  "index_nodes [] ix = yields ([], ix)"
| "index_nodes (n # ns) ix =
     (let n' = (if nd_id n = [] then n\<lparr>nd_id := ''node_'' @ int_str (int (length ix))\<rparr> else n)
      in if map_of ix (nd_id n') \<noteq> None then
           reject (''duplicate node id '' @ quoted (nd_id n') @ em_dash @ ''every node needs a unique identifier'')
         else andthen (index_nodes ns (ix @ [(nd_id n', n')])) (\<lambda>(ms, ix'). yields (n' # ms, ix')))"

text \<open>Sequential fall-through: a top-level node without successor continues at the next top-level node.\<close>

fun fall_through :: "nat \<Rightarrow> node list \<Rightarrow> node list" where
  "fall_through (Suc (Suc k)) (a # b # r) =
     (if nd_next a = None \<and> node_type a \<noteq> TTerminate then a\<lparr>nd_next := Some (nd_id b)\<rparr> else a)
     # fall_through (Suc k) (b # r)"
| "fall_through _ ns = ns"

definition single_warning :: "workflow_metadata \<Rightarrow> node list \<Rightarrow> string list" where
  "single_warning md ns =
     (case ns of
        [n] \<Rightarrow> (if nd_next n = None \<and> node_type n \<noteq> TTerminate
                then [''workflow '' @ quoted (md_name md) @ '' has a single non-terminal node; it will end after it runs'']
                else [])
      | _ \<Rightarrow> [])"

definition assembled :: "workflow_metadata \<Rightarrow> nat \<Rightarrow> node list \<Rightarrow> string list \<Rightarrow> workflow" where
  "assembled md level ns warnings =
     (let linked = fall_through level ns
      in \<lparr>wf_nodes = linked, wf_entry_id = nd_id (hd ns), wf_metadata = md,
          wf_warnings = warnings @ single_warning md linked, wf_index = map (\<lambda>n. (nd_id n, n)) linked\<rparr>)"

definition validated :: "parse_options \<Rightarrow> workflow \<Rightarrow> workflow parse" where
  "validated q w =
     (if pq_validate q
      then (case validate_blueprint w (wf_warnings w) of
              (lines, None) \<Rightarrow> yields (w\<lparr>wf_warnings := lines\<rparr>)
            | (lines, Some e) \<Rightarrow> raises e)
      else yields w)"

definition parse_workflow_json :: "nat \<Rightarrow> parse_options \<Rightarrow> json \<Rightarrow> workflow parse" where
  "parse_workflow_json f q d =
     andthen (header_of q d) (\<lambda>(md, nodes_json).
       case nodes_json of
         JArr xs \<Rightarrow>
           andthen (refuse_if (xs = []) ''blueprint contains no nodes'') (\<lambda>_.
           andthen (refuse_if (pq_max_nodes q < length xs)
             (''blueprint has '' @ int_str (int (length xs)) @ '' nodes; the limit is '' @ int_str (int (pq_max_nodes q)))) (\<lambda>_.
           andthen (parse_nodes f q 0 xs) (\<lambda>tops.
           andthen (observe ps_hoisted) (\<lambda>hoisted.
           andthen (index_nodes (tops @ hoisted) []) (\<lambda>(ns, ix).
           andthen (observe ps_warnings) (\<lambda>warnings.
             validated q (assembled md (length xs) ns warnings)))))))
       | _ \<Rightarrow> reject (quoted ''nodes'' @ '' must be an array''))"

definition start_state :: pstate where
  "start_state = \<lparr>ps_used = [], ps_warnings = [], ps_hoisted = []\<rparr>"

text \<open>\<open>parseWorkflow\<close>: from a text; the document library parses it or says what is wrong.\<close>

definition parse_workflow :: "(string \<Rightarrow> string + json) \<Rightarrow> parse_options \<Rightarrow> string \<Rightarrow> workflow ev" where
  "parse_workflow parse q t =
     (case parse t of
        Inl what \<Rightarrow> Thr (sapo_error Parse (''blueprint is not valid JSON: '' @ what) JNull [])
      | Inr d \<Rightarrow> fst (parse_workflow_json (Suc (size d)) q d start_state))"

definition parse_ast :: "(string \<Rightarrow> string + json) \<Rightarrow> parse_options \<Rightarrow> string \<Rightarrow> node list ev" where
  "parse_ast parse q t =
     (case parse_workflow parse (q\<lparr>pq_validate := False, pq_strict := False, pq_has := None, pq_max_nodes := 10000\<rparr>) t of
        Val w \<Rightarrow> Val (wf_nodes w) | Thr e \<Rightarrow> Thr e | Crash \<Rightarrow> Crash | Deep \<Rightarrow> Deep)"

definition parse_single_node :: "parse_options \<Rightarrow> json \<Rightarrow> node ev" where
  "parse_single_node q j =
     fst (parse_node (Suc (size j)) (q\<lparr>pq_validate := False, pq_strict := False, pq_has := None, pq_max_nodes := 10000\<rparr>)
            j ''node_0'' start_state)"

end
