(* ===== verification/Sapo_WellFormed.thy ===== *)
theory Sapo_WellFormed
  imports Sapo_Parser
begin

text \<open>
  What the blueprint parser guarantees: it ends on every document, every node it yields is well formed for its type
  (commands and capabilities are known, bodies and targets are there, limits are positive, schedules are valid), and the
  blueprint has an index of distinct identifiers.  \<open>sound_for\<close> says it of a reading step; its rules follow the
  builders, so a builder's proof is its own structure.
\<close>

section \<open>Well-formed nodes\<close>

fun good_body :: "parse_options \<Rightarrow> node_body \<Rightarrow> bool" where
  "good_body q (Command n) \<longleftrightarrow>
     (if is_http (cm_command n)
      then cm_command n \<in> set http_methods \<and> (\<exists>r. cm_http_request n = Some r \<and> \<not> expression_empty (hr_url r))
      else registered q (cm_command n))"
| "good_body q (Action n) \<longleftrightarrow> ac_capability n = [] \<or> registered q (ac_capability n)"
| "good_body q (Loop n) \<longleftrightarrow> lp_body n \<noteq> [] \<and> 1 \<le> lp_max_iterations n \<and>
     \<not> (expression_empty (lp_collection n) \<and> expression_empty (lp_count n) \<and> expression_empty (lp_condition n)) \<and>
     lp_on_item_error n \<in> set [''fail'', ''continue'', ''retry'']"
| "good_body q (LoopControl n) \<longleftrightarrow> lc_action n \<in> set [''break'', ''continue'']"
| "good_body q (Subflow n) \<longleftrightarrow> 1 \<le> sf_max_depth n"
| "good_body q (Wait n) \<longleftrightarrow> (wt_duration n = None) = (\<not> expression_empty (wt_until n))"
| "good_body q (Schedule n) \<longleftrightarrow> is_valid_cron_expression (sd_cron n) = Returns True \<and> (sd_body n \<noteq> [] \<or> sd_workflow n \<noteq> None)"
| "good_body q (Script n) \<longleftrightarrow> sn_language n \<in> set [''sel'', ''expr''] \<and> \<not> expression_empty (sn_code n)"
| "good_body q (Transform n) \<longleftrightarrow> tf_operation n \<in> set transform_operations \<and> tf_output n \<noteq> []"
| "good_body q (Query n) \<longleftrightarrow> qn_source n \<noteq> [] \<and> qn_output n \<noteq> [] \<and> filter_shape (qn_filter n)"
| "good_body q (Choice n) \<longleftrightarrow> ch_cases n \<noteq> [] \<and> \<not> expression_empty (ch_expression n)"
| "good_body q (Condition n) \<longleftrightarrow> \<not> expression_empty (cn_expression n) \<and> (cn_on_true n \<noteq> [] \<or> cn_then_body n \<noteq> [])"
| "good_body q (Parallel n) \<longleftrightarrow> pn_branches n \<noteq> [] \<and> (\<forall>b \<in> set (pn_branches n). br_node_ids b \<noteq> []) \<and>
     0 \<le> pn_max_concurrency n \<and> pn_merge_policy n \<in> set merge_policies"
| "good_body q (Try n) \<longleftrightarrow> ty_body n \<noteq> [] \<and> \<not> (ty_catch_body n = [] \<and> ty_catch_when n = [] \<and> ty_finally_body n = [])"
| "good_body q (TerminateN n) \<longleftrightarrow> te_status n \<in> set [''success'', ''failed'', ''cancelled'']"
| "good_body q _ \<longleftrightarrow> True"

definition good_node :: "parse_options \<Rightarrow> node \<Rightarrow> bool" where
  "good_node q n \<longleftrightarrow> good_body q (nd_body n)"

section \<open>Sound steps\<close>

definition hoisted_good :: "parse_options \<Rightarrow> pstate \<Rightarrow> bool" where
  "hoisted_good q s \<longleftrightarrow> (\<forall>n \<in> set (ps_hoisted s). good_node q n)"

text \<open>A step keeps the hoisted nodes well formed, never runs out of fuel, and its values are as told.\<close>

definition sound_for :: "parse_options \<Rightarrow> ('a \<Rightarrow> bool) \<Rightarrow> 'a parse \<Rightarrow> bool" where
  "sound_for q Q m \<longleftrightarrow>
     (\<forall>s r t. hoisted_good q s \<longrightarrow> m s = (r, t) \<longrightarrow> hoisted_good q t \<and> r \<noteq> Deep \<and> (\<forall>x. r = Val x \<longrightarrow> Q x))"

lemma sound_forI:
  "(\<And>s r t. hoisted_good q s \<Longrightarrow> m s = (r, t) \<Longrightarrow> hoisted_good q t \<and> r \<noteq> Deep \<and> (\<forall>x. r = Val x \<longrightarrow> Q x)) \<Longrightarrow> sound_for q Q m"
  by (simp add: sound_for_def)

lemma sound_forD:
  "sound_for q Q m \<Longrightarrow> hoisted_good q s \<Longrightarrow> m s = (r, t) \<Longrightarrow> hoisted_good q t \<and> r \<noteq> Deep \<and> (\<forall>x. r = Val x \<longrightarrow> Q x)"
  by (simp add: sound_for_def)

lemma sound_weaken: "sound_for q P m \<Longrightarrow> (\<And>x. P x \<Longrightarrow> Q x) \<Longrightarrow> sound_for q Q m"
  unfolding sound_for_def by blast

lemma sound_yields: "Q x \<Longrightarrow> sound_for q Q (yields x)"
  by (simp add: sound_for_def)

lemma sound_raises: "sound_for q Q (raises e)" "sound_for q Q (reject m)" "sound_for q Q crashes"
  by (simp_all add: sound_for_def reject_def)

lemma sound_change: "(\<And>s. ps_hoisted (f s) = ps_hoisted s) \<Longrightarrow> sound_for q (\<lambda>_. True) (change f)"
  by (simp add: sound_for_def hoisted_good_def)

lemma sound_observe: "sound_for q (\<lambda>_. True) (observe f)"
  by (simp add: sound_for_def)

lemma sound_andthen:
  assumes "sound_for q P m" and "\<And>x. P x \<Longrightarrow> sound_for q Q (f x)"
  shows "sound_for q Q (andthen m f)"
proof (rule sound_forI)
  fix s r u
  assume s: "hoisted_good q s" and run: "andthen m f s = (r, u)"
  obtain x t where m: "m s = (x, t)" by (cases "m s")
  note first = sound_forD [OF assms(1) s m]
  show "hoisted_good q u \<and> r \<noteq> Deep \<and> (\<forall>y. r = Val y \<longrightarrow> Q y)"
  proof (cases x)
    case (Val v)
    with run m have "f v t = (r, u)" by (simp add: andthen_def)
    with first Val assms(2) [of v] show ?thesis by (auto dest: sound_forD)
  qed (use first run m in \<open>auto simp: andthen_def\<close>)
qed

lemma sound_andthen_pair:
  assumes "sound_for q (\<lambda>(x, u). P x u) m" and "\<And>x u. P x u \<Longrightarrow> sound_for q Q (f x u)"
  shows "sound_for q Q (andthen m (\<lambda>(x, u). f x u))"
  by (rule sound_andthen [OF assms(1)]) (use assms(2) in auto)

lemma sound_refuse_if: "sound_for q (\<lambda>_. \<not> b) (refuse_if b m)"
  by (simp add: sound_for_def refuse_if_def reject_def)

lemma sound_mark: "sound_for q (\<lambda>_. True) (mark k)"
  unfolding mark_def by (rule sound_change) simp

lemma sound_warn: "sound_for q (\<lambda>_. True) (warn m)"
  unfolding warn_def by (rule sound_change) simp

lemma sound_hoist: "good_node q n \<Longrightarrow> sound_for q (\<lambda>_. True) (hoist n)"
  by (auto simp: sound_for_def hoist_def hoisted_good_def)

lemma sound_each: "(\<And>x. sound_for q (\<lambda>_. True) (f x)) \<Longrightarrow> sound_for q (\<lambda>_. True) (each f xs)"
  by (induction xs) (auto intro: sound_yields sound_andthen)

lemma sound_in_turn: "(\<And>m. m \<in> set ms \<Longrightarrow> sound_for q (\<lambda>_. True) m) \<Longrightarrow> sound_for q (\<lambda>_. True) (in_turn ms)"
proof (induction ms)
  case (Cons m ms)
  from Cons.prems [of m] have m: "sound_for q (\<lambda>_. True) m" by simp
  show ?case unfolding in_turn.simps
    by (rule sound_andthen [OF m], rule sound_andthen [OF Cons.IH]) (use Cons.prems in \<open>auto intro: sound_yields\<close>)
qed (simp add: sound_yields)

lemma sound_in_fields:
  assumes "sound_for q Q m"
  shows "sound_for q (\<lambda>(x, u). Q x) (in_fields m)"
proof (rule sound_forI)
  fix s r t
  assume s: "hoisted_good q s" and run: "in_fields m s = (r, t)"
  let ?m = "andthen m (\<lambda>x. observe (\<lambda>t. (x, ps_used t)))"
  have "sound_for q (\<lambda>(x, u). Q x) ?m"
    by (rule sound_andthen [OF assms]) (simp add: sound_for_def)
  moreover obtain r' t' where m: "?m (s\<lparr>ps_used := []\<rparr>) = (r', t')" by (cases "?m (s\<lparr>ps_used := []\<rparr>)")
  moreover have "hoisted_good q (s\<lparr>ps_used := []\<rparr>)" using s by (simp add: hoisted_good_def)
  ultimately have "hoisted_good q t' \<and> r' \<noteq> Deep \<and> (\<forall>x. r' = Val x \<longrightarrow> (\<lambda>(x, u). Q x) x)" by (blast dest: sound_forD)
  with run m show "hoisted_good q t \<and> r \<noteq> Deep \<and> (\<forall>x. r = Val x \<longrightarrow> (\<lambda>(x, u). Q x) x)"
    by (auto simp: in_fields_def hoisted_good_def)
qed

section \<open>Readers\<close>

lemma first_of_size: "first_of j ks = Some (k, v) \<Longrightarrow> size v < size j"
  by (induction ks) (auto dest: jget_size split: option.splits)

lemma sound_look: "sound_for q (\<lambda>v. \<forall>x. v = Some x \<longrightarrow> size x < size j) (look j ks)"
proof (cases "first_of j ks")
  case None
  then show ?thesis by (simp add: look_def sound_yields)
next
  case (Some p)
  obtain k v where p: "p = (k, v)" by (cases p)
  show ?thesis unfolding look_def Some p option.case prod.case
    by (rule sound_andthen [OF sound_mark]) (rule sound_yields, use first_of_size Some p in auto)
qed

lemma sound_reads: "sound_for q (\<lambda>_. True) (reads f j ks)"
  unfolding reads_def by (rule sound_andthen [OF sound_look]) (rule sound_yields, simp)

lemma sound_readers:
  "sound_for q (\<lambda>_. True) (optional_string o' j ks)" "sound_for q (\<lambda>_. True) (string_or o' d j ks)"
  "sound_for q (\<lambda>_. True) (int_or w i j ks)" "sound_for q (\<lambda>_. True) (number_or x j ks)"
  "sound_for q (\<lambda>_. True) (bool_or b j ks)" "sound_for q (\<lambda>_. True) (template_or v j ks)"
  "sound_for q (\<lambda>_. True) (string_list o' j ks)" "sound_for q (\<lambda>_. True) (string_map o' j ks)"
  unfolding optional_string_def string_or_def int_or_def number_or_def bool_or_def template_or_def string_list_def string_map_def
  by (rule sound_reads)+

lemma sound_require: "sound_for q (\<lambda>_. True) (require_string o' j ks label)"
  unfolding require_string_def
  by (rule sound_andthen [OF sound_readers(1)]) (auto intro: sound_yields sound_raises split: option.split)

lemma sound_demand: "sound_for q (\<lambda>v. x = Some v) (demand x)"
  by (cases x) (auto intro: sound_yields sound_raises)

lemma sound_demand_outcome: "sound_for q (\<lambda>v. r = Returns v) (demand_outcome r)"
  by (cases r) (auto simp: demand_outcome_def intro: sound_yields sound_raises)

lemma sound_duration: "sound_for q (\<lambda>_. True) (duration_ms j ks)"
  unfolding duration_ms_def duration_text_def
  by (rule sound_andthen [OF sound_look])
    (auto intro!: sound_yields sound_andthen [OF sound_demand_outcome] split: option.split json.split)

lemma sound_readable: "sound_for q (\<lambda>_. True) (readable_duration t)"
  unfolding readable_duration_def
  by (rule sound_andthen [OF sound_demand_outcome]) (auto intro!: sound_yields sound_andthen [OF sound_demand_outcome])

lemma sound_compiled: "sound_for q (\<lambda>_. True) (compiled h x)"
  by (auto simp: compiled_def intro: sound_yields sound_raises split: sum.split)

lemma sound_texts: "sound_for q (\<lambda>_. True) (template_expression t)" "sound_for q (\<lambda>_. True) (program_expression t)"
  unfolding template_expression_def program_expression_def by (rule sound_compiled)+

lemma sound_to_expression: "sound_for q (\<lambda>_. True) (to_expression o' v)"
  by (auto simp: to_expression_def intro!: sound_yields sound_texts sound_andthen [OF sound_demand] split: json.split)

lemma sound_to_predicate: "sound_for q (\<lambda>_. True) (to_predicate o' v)"
  by (auto simp: to_predicate_def intro!: sound_to_expression sound_texts split: json.split)

lemma sound_read_with: "(\<And>v. sound_for q (\<lambda>_. True) (f v)) \<Longrightarrow> sound_for q (\<lambda>_. True) (read_with f j ks)"
  unfolding read_with_def by (rule sound_andthen [OF sound_look]) (auto intro!: sound_yields split: option.split)

lemma sound_optional_with: "(\<And>v. sound_for q (\<lambda>_. True) (f v)) \<Longrightarrow> sound_for q (\<lambda>_. True) (optional_with f j ks)"
  unfolding optional_with_def
  by (rule sound_andthen [OF sound_look]) (auto intro!: sound_yields intro: sound_andthen split: option.split)

lemma sound_soft: "sound_for q (\<lambda>_. True) (soft_predicate o' j ks)"
  unfolding soft_predicate_def
  by (rule sound_andthen [OF sound_look])
    (auto intro!: sound_yields sound_texts sound_to_expression split: option.split json.split sum.split)

lemma sound_warn_unread: "sound_for q (\<lambda>_. True) (warn_unread p j used)"
  unfolding warn_unread_def by (rule sound_each) (rule sound_warn)

lemmas sound_rules =
  sound_andthen_pair sound_andthen sound_refuse_if sound_readers sound_require sound_duration sound_readable
  sound_read_with [OF sound_to_expression] sound_read_with [OF sound_to_predicate]
  sound_optional_with [OF sound_to_expression] sound_optional_with [OF sound_to_predicate] sound_soft
  sound_texts sound_warn_unread sound_look sound_demand_outcome sound_observe sound_raises

section \<open>Builders without bodies\<close>

lemma sound_retry: "sound_for q (\<lambda>_. True) (parse_retry o' v)"
  unfolding parse_retry_def
  by (auto intro!: sound_yields sound_andthen_pair [OF sound_in_fields] sound_andthen [OF sound_readers(3)]
      sound_andthen [OF sound_readers(4)] sound_andthen [OF sound_readers(7)] split: json.split)

lemma normalize_status_range: "normalize_status s \<in> set [''success'', ''failed'', ''cancelled'']"
  by (auto simp: normalize_status_def Let_def)

lemma sound_noop: "sound_for q (good_body q) (build_noop j)"
  unfolding build_noop_def by ((rule sound_rules)+, rule sound_yields, simp)

lemma sound_terminate: "sound_for q (good_body q) (build_terminate o' j)"
  unfolding build_terminate_def
  by ((rule sound_rules)+, rule sound_yields, simp add: normalize_status_range [simplified])

lemma sound_script: "sound_for q (good_body q) (build_script o' j i)"
proof -
  have code: "sound_for q (\<lambda>_. True)
      (case v of Some x \<Rightarrow> to_predicate o' x | None \<Rightarrow> read_with (to_predicate o') j [''script''])" for v
    by (cases v) (simp_all add: sound_to_predicate sound_rules)
  show ?thesis unfolding build_script_def
    by (rule sound_rules, rule sound_rules, rule sound_rules, rule sound_rules, rule sound_andthen, rule sound_look,
        rule sound_andthen, rule code, (rule sound_rules)+, rule sound_yields, simp)
qed

lemma sound_transform: "sound_for q (good_body q) (build_transform o' j i)"
proof -
  have checks: "sound_for q (\<lambda>_. tf_operation n \<in> set transform_operations) (transform_checks n i)" for n
    unfolding transform_checks_def Let_def
    by (rule sound_andthen, rule sound_refuse_if, rule sound_andthen, rule sound_refuse_if,
        rule sound_weaken, rule sound_refuse_if, simp)
  show ?thesis unfolding build_transform_def Let_def
    by ((rule sound_andthen, rule sound_rules)+, rule sound_andthen, rule checks, rule sound_yields, simp)
qed

lemma sound_query: "sound_for q (good_body q) (build_query o' j i)"
  unfolding build_query_def by ((rule sound_rules)+, rule sound_yields, simp)

lemma sound_event: "sound_for q (good_body q) (build_event o' j i)"
  unfolding build_event_def by ((rule sound_rules)+, rule sound_yields, simp)

lemma sound_wait: "sound_for q (good_body q) (build_wait o' j i)"
proof -
  have ok: "sound_for q (\<lambda>_. True) (case d of None \<Rightarrow> yields True | Some t \<Rightarrow> readable_duration t)" for d
    by (cases d) (simp_all add: sound_yields sound_readable)
  show ?thesis unfolding build_wait_def
    by ((rule sound_andthen, rule sound_rules)+, rule sound_andthen, rule ok, (rule sound_rules)+, rule sound_yields, auto)
qed

lemma sound_schedule: "sound_for q (good_body q) (build_schedule o' j i)"
  unfolding build_schedule_def by ((rule sound_rules)+, rule sound_yields, auto)

lemma sound_subflow: "sound_for q (good_body q) (build_subflow o' j i)"
  unfolding build_subflow_def by ((rule sound_rules)+, rule sound_yields, simp)

lemma sound_choice: "sound_for q (good_body q) (build_choice o' j i)"
  unfolding build_choice_def by ((rule sound_rules)+, rule sound_yields, simp)

lemma sound_loop_control: "sound_for q (good_body q) (build_loop_control o' j ty i)"
proof -
  have action: "sound_for q (\<lambda>_. True) (if ty = ''break'' then yields ''break'' else if ty = ''continue'' then yields ''continue''
      else andthen (string_or o' ''continue'' j [''action'']) (\<lambda>a. yields (lower a)))"
    by (auto intro!: sound_yields sound_andthen [OF sound_readers(2)])
  show ?thesis unfolding build_loop_control_def
    by (rule sound_andthen, rule action, (rule sound_rules)+, rule sound_yields, simp)
qed

section \<open>Commands and actions\<close>

lemma sound_auth: "sound_for q (\<lambda>_. True) (build_auth o' i j)"
  unfolding build_auth_def
  by (rule sound_andthen_pair, rule sound_in_fields, (rule sound_rules)+, rule sound_yields, rule TrueI,
      (rule sound_rules)+, rule sound_yields, rule TrueI)

lemma sound_optional_object:
  "(\<And>ob. sound_for q (\<lambda>_. True) (f (JObj ob))) \<Longrightarrow>
   sound_for q (\<lambda>_. True) (case v of Some (JObj ob) \<Rightarrow> andthen (f (JObj ob)) (\<lambda>x. yields (Some x)) | _ \<Rightarrow> yields None)"
  by (auto intro!: sound_yields intro: sound_andthen split: option.split json.split)

lemma sound_http: "sound_for q (\<lambda>_. True) (build_http o' i j)"
  unfolding build_http_def
  by (rule sound_andthen_pair, rule sound_in_fields, rule sound_andthen, rule sound_rules, rule sound_andthen, rule sound_rules,
      rule sound_andthen, rule sound_look, rule sound_andthen, rule sound_optional_object, rule sound_auth,
      (rule sound_rules)+, rule sound_yields, rule TrueI, (rule sound_rules)+, rule sound_yields, rule TrueI)

lemma sound_command_checks: "sound_for q (\<lambda>_. good_body q (Command n)) (command_checks q n i)"
proof (cases "is_http (cm_command n)")
  case True
  then show ?thesis unfolding command_checks_def Let_def
    by (simp only: if_True)
      (rule sound_andthen, rule sound_refuse_if, rule sound_weaken, rule sound_refuse_if, auto split: option.splits)
next
  case False
  then show ?thesis unfolding command_checks_def Let_def
    by (simp only: if_False) (rule sound_weaken, rule sound_refuse_if, simp)
qed

lemma sound_with_output: "sound_for q (\<lambda>_. True) (with_output i v n)"
  by (auto simp: with_output_def intro!: sound_yields sound_raises split: option.split json.split)

lemma sound_command: "sound_for q (good_body q) (build_command q j i)"
  unfolding build_command_def
  by (rule sound_andthen, rule sound_require, rule sound_andthen, rule sound_look, rule sound_andthen, rule sound_optional_object,
      rule sound_http, rule sound_andthen, rule sound_rules, rule sound_andthen, rule sound_look, rule sound_andthen,
      rule sound_with_output, rule sound_andthen, rule sound_look, rule sound_andthen, rule sound_command_checks,
      rule sound_yields, assumption)

lemma sound_prompt_options: "sound_for q (\<lambda>_. True) (prompt_options v i)"
  by (auto simp: prompt_options_def intro!: sound_yields sound_raises split: option.split json.split)

lemma sound_prompt_object: "sound_for q (\<lambda>_. True) (prompt_object o' v i)"
  unfolding prompt_object_def
  by (rule sound_andthen_pair, rule sound_in_fields, (rule sound_andthen, rule sound_rules)+, rule sound_andthen,
      rule sound_prompt_options, rule sound_yields, rule TrueI, (rule sound_rules)+, rule sound_yields, rule TrueI)

lemma sound_prompt: "sound_for q (\<lambda>_. True) (build_prompt o' v i)"
proof -
  have shape: "sound_for q (\<lambda>_. True) (case v of
         JStr t \<Rightarrow> andthen (template_expression t) (\<lambda>m.
           yields \<lparr>pc_message = m, pc_interaction_type = ''input'', pc_input_validation = None, pc_timeout_ms = None,
                   pc_output = None, pc_options = JObj []\<rparr>)
       | JObj ob \<Rightarrow> prompt_object o' (JObj ob) i
       | _ \<Rightarrow> reject (''action node '' @ quoted i @ '' prompt_config must be a string or an object''))"
    by (auto intro!: sound_raises sound_prompt_object sound_andthen [OF sound_texts(1)] sound_yields split: json.split)
  show ?thesis unfolding build_prompt_def
    by (rule sound_andthen, rule shape, (rule sound_rules)+, rule sound_yields, rule TrueI)
qed

lemma sound_event_object: "sound_for q (\<lambda>_. True) (event_object o' v i)"
  unfolding event_object_def
  by (rule sound_andthen_pair, rule sound_in_fields, (rule sound_rules)+, rule sound_yields, rule TrueI,
      (rule sound_rules)+, rule sound_yields, rule TrueI)

lemma sound_on_event: "sound_for q (\<lambda>_. True) (build_on_event o' v i)"
  by (auto simp: build_on_event_def intro!: sound_yields sound_raises sound_andthen [OF sound_event_object]
      split: option.split json.split)

lemma sound_source: "sound_for q (\<lambda>_. True) (source_object o' v i)"
  unfolding source_object_def
  by (rule sound_andthen_pair, rule sound_in_fields, (rule sound_rules)+, rule sound_yields, rule TrueI,
      (rule sound_rules)+, rule sound_yields, rule TrueI)

lemma sound_sources: "sound_for q (\<lambda>_. True) (build_sources o' v i)"
  by (auto simp: build_sources_def intro!: sound_yields sound_in_turn sound_source sound_raises split: option.split json.split)

lemma sound_outputs: "sound_for q (\<lambda>_. True) (action_outputs x j i)"
  by (auto simp: action_outputs_def intro!: sound_yields sound_raises sound_andthen [OF sound_look] split: option.split json.split)

lemma sound_task_ref: "sound_for q (\<lambda>_. True) (task_ref o' i v)"
proof -
  have "sound_for q (\<lambda>_. True) (andthen (in_fields (
            andthen (require_string o' j [''task_id'', ''node'', ''target''] (i @ ''.next_tasks[]'')) (\<lambda>t.
            andthen (optional_with (to_predicate o') j [''execute_condition'', ''when'', ''condition'']) (\<lambda>c.
              yields \<lparr>tr_task_id = t, tr_execute_condition = c\<rparr>)))) (\<lambda>(r, used). yields r))" for j
    by (rule sound_andthen_pair, rule sound_in_fields, (rule sound_rules)+, rule sound_yields, rule TrueI,
        rule sound_yields, rule TrueI)
  then show ?thesis by (auto simp: task_ref_def intro!: sound_yields sound_raises split: json.split)
qed

lemma sound_next_tasks: "sound_for q (\<lambda>_. True) (build_next_tasks o' v i)"
  by (auto simp: build_next_tasks_def intro!: sound_yields sound_in_turn sound_task_ref split: option.split json.split)

lemma sound_action_checks: "sound_for q (\<lambda>_. good_body q (Action n)) (action_checks q n i)"
  unfolding action_checks_def
  by (rule sound_andthen, rule sound_refuse_if, rule sound_weaken, rule sound_refuse_if, auto)

lemma sound_action: "sound_for q (good_body q) (build_action q j i)"
proof -
  have prompt: "sound_for q (\<lambda>_. True) (case p of Some v \<Rightarrow> andthen (build_prompt q v i) (\<lambda>x. yields (Some x)) | None \<Rightarrow> yields None)" for p
    by (auto intro!: sound_yields sound_andthen [OF sound_prompt] split: option.split)
  show ?thesis unfolding build_action_def Let_def
    by (rule sound_andthen, rule sound_rules, rule sound_andthen, rule sound_rules, rule sound_andthen, rule sound_look,
        rule sound_andthen, rule prompt, rule sound_andthen, rule sound_rules, rule sound_andthen, rule sound_look,
        rule sound_andthen, rule sound_on_event, rule sound_andthen, rule sound_look, rule sound_andthen, rule sound_sources,
        rule sound_andthen, rule sound_rules, rule sound_andthen, rule sound_rules, rule sound_andthen, rule sound_outputs,
        rule sound_andthen, rule sound_look, rule sound_andthen, rule sound_next_tasks, rule sound_andthen,
        rule sound_action_checks, rule sound_yields, assumption)
qed

section \<open>Builders with bodies\<close>

definition child_sound :: "parse_options \<Rightarrow> json \<Rightarrow> child_parser \<Rightarrow> bool" where
  "child_sound q j child \<longleftrightarrow> (\<forall>v i. size v < size j \<longrightarrow> sound_for q (good_node q) (child v i))"

lemma child_sound_less: "child_sound q j child \<Longrightarrow> size v < size j \<Longrightarrow> child_sound q v child"
  by (auto simp: child_sound_def)

lemma sound_expand_items:
  "(\<And>v i. v \<in> set vs \<Longrightarrow> sound_for q (good_node q) (child v i)) \<Longrightarrow> sound_for q (\<lambda>_. True) (expand_items child p slot n vs)"
proof (induction vs arbitrary: n)
  case (Cons v r)
  have rest: "sound_for q (\<lambda>_. True) (expand_items child p slot m r)" for m by (rule Cons.IH) (rule Cons.prems, simp)
  have first: "sound_for q (good_node q) (child v k)" for k by (rule Cons.prems) simp
  have inline: "sound_for q (\<lambda>_. True) (andthen (child v k) (\<lambda>c. andthen (hoist c) (\<lambda>_.
      andthen (expand_items child p slot (n + 1) r) (\<lambda>ids. yields (nd_id c # ids)))))" for k
    by (rule sound_andthen, rule first, rule sound_andthen, rule sound_hoist, assumption,
        rule sound_andthen, rule rest, rule sound_yields, rule TrueI)
  have plain: "sound_for q (\<lambda>_. True) (andthen (expand_items child p slot n r) (\<lambda>ids. yields (t # ids)))" for t
    by (rule sound_andthen, rule rest, rule sound_yields, rule TrueI)
  show ?case by (cases v) (use inline in \<open>simp_all only: expand_items.simps sound_raises plain\<close>)
qed (simp add: sound_yields)

lemma sound_expand: "child_sound q v child \<Longrightarrow> sound_for q (\<lambda>_. True) (expand child v p slot)"
  by (cases v) (auto simp: expand_def child_sound_def sound_yields intro!: sound_expand_items dest: jitems_size [where v = "JArr _", simplified])

lemma sound_expand_optional:
  "child_sound q j child \<Longrightarrow> \<forall>x. v = Some x \<longrightarrow> size x < size j \<Longrightarrow> sound_for q (\<lambda>_. True) (expand_optional child v p slot)"
  by (auto simp: expand_optional_def intro: sound_yields sound_expand child_sound_less split: option.split)

lemma sound_arm:
  "child_sound q j child \<Longrightarrow> \<forall>x. v = Some x \<longrightarrow> size x < size j \<Longrightarrow>
   sound_for q (\<lambda>(a, b). True) (arm child v p slot)"
  by (auto simp: arm_def intro!: sound_yields sound_andthen [OF sound_expand] intro: child_sound_less
      split: option.split json.split list.split)

lemma sound_condition: "child_sound q j child \<Longrightarrow> sound_for q (good_body q) (build_condition o' child j i)"
proof -
  assume c: "child_sound q j child"
  have again: "sound_for q (\<lambda>_. True) (if expression_empty e then read_with (to_predicate o') j [''if''] else yields e)" for e
    by (simp add: sound_rules sound_yields)
  show ?thesis unfolding build_condition_def
    by (rule sound_andthen, rule sound_rules, rule sound_andthen, rule again, rule sound_andthen, rule sound_refuse_if,
        rule sound_andthen, rule sound_look, rule sound_andthen_pair, rule sound_arm [OF c], assumption,
        rule sound_andthen, rule sound_look, rule sound_andthen_pair, rule sound_arm [OF c], assumption,
        rule sound_andthen, rule sound_refuse_if, rule sound_yields, auto)
qed

lemma sound_branches:
  "(\<And>v. v \<in> set vs \<Longrightarrow> size v < size j) \<Longrightarrow> child_sound q j child \<Longrightarrow>
   sound_for q (\<lambda>bs. \<forall>b \<in> set bs. br_node_ids b \<noteq> []) (parse_branches o' child i n vs)"
proof (induction vs arbitrary: n)
  case (Cons v r)
  have v: "size v < size j" using Cons.prems(1) by simp
  have rest: "sound_for q (\<lambda>bs. \<forall>b \<in> set bs. br_node_ids b \<noteq> []) (parse_branches o' child i (n + 1) r)"
    by (rule Cons.IH) (use Cons.prems in auto)
  have listed: "sound_for q (\<lambda>_. True) (branch_list o' child v i)"
    unfolding branch_list_def
    by (rule sound_andthen_pair, rule sound_in_fields, rule sound_andthen, rule sound_rules, rule sound_andthen, rule sound_look,
        rule sound_andthen, rule sound_expand_optional [OF child_sound_less [OF Cons.prems(2) v]], assumption,
        rule sound_yields, rule TrueI, (rule sound_rules)+, rule sound_yields, rule TrueI)
  have inline: "sound_for q (\<lambda>_. True) (branch_node child v i n)"
    unfolding branch_node_def Let_def
    by (rule sound_andthen, rule Cons.prems(2) [unfolded child_sound_def, rule_format, OF v], rule sound_andthen,
        rule sound_hoist, assumption, rule sound_yields, rule TrueI)
  have one: "sound_for q (\<lambda>_. True) (case v of
         JStr s \<Rightarrow> yields \<lparr>br_node_ids = [s], br_label = None\<rparr>
       | JObj _ \<Rightarrow> (if jcontains ''tasks'' v \<or> jcontains ''body'' v then branch_list o' child v i else branch_node child v i n)
       | _ \<Rightarrow> reject (''parallel node '' @ quoted i @ '': child_tasks entries must be nodes, ids or {tasks:['' @ dots @ '']}''))"
    using listed inline by (auto intro!: sound_yields sound_raises split: json.split)
  show ?case unfolding parse_branches.simps
    by (rule sound_andthen, rule one, rule sound_andthen, rule rest, rule sound_yields, auto)
qed (simp add: sound_yields)

lemma sound_parallel: "child_sound q j child \<Longrightarrow> sound_for q (good_body q) (build_parallel o' child j i)"
proof -
  assume c: "child_sound q j child"
  have bs: "sound_for q (\<lambda>bs. \<forall>b \<in> set bs. br_node_ids b \<noteq> []) (case v of
         None \<Rightarrow> yields []
       | Some (JArr xs) \<Rightarrow> parse_branches o' child i 0 xs
       | Some _ \<Rightarrow> reject (''parallel node '' @ quoted i @ '': '' @ quoted ''child_tasks'' @ '' must be an array''))"
    if small: "\<forall>x. v = Some x \<longrightarrow> size x < size j" for v
    using small c by (auto intro!: sound_yields sound_raises sound_branches dest: jitems_size [where v = "JArr _", simplified]
        split: option.split json.split)
  show ?thesis unfolding build_parallel_def Let_def
    by (rule sound_andthen, rule sound_look, rule sound_andthen, rule bs, assumption, (rule sound_rules)+, rule sound_yields, auto)
qed

lemma sound_loop: "child_sound q j child \<Longrightarrow> sound_for q (good_body q) (build_loop o' child j i)"
  unfolding build_loop_def
  by (rule sound_andthen, rule sound_rules, rule sound_andthen, rule sound_rules, rule sound_andthen, rule sound_rules,
      rule sound_andthen, rule sound_rules, rule sound_andthen, rule sound_rules, rule sound_andthen, rule sound_look,
      rule sound_andthen, rule sound_expand_optional, assumption, assumption, (rule sound_rules)+, rule sound_yields, auto)

lemma sound_catch: "child_sound q j child \<Longrightarrow> \<forall>x. v = Some x \<longrightarrow> size x < size j \<Longrightarrow> sound_for q (\<lambda>_. True) (build_catch o' child v i)"
proof -
  assume c: "child_sound q j child" and small: "\<forall>x. v = Some x \<longrightarrow> size x < size j"
  have obj: "sound_for q (\<lambda>_. True) (catch_object o' child x i)" if "child_sound q x child" for x
    unfolding catch_object_def
    by (rule sound_andthen_pair, rule sound_in_fields, rule sound_andthen, rule sound_rules, rule sound_andthen, rule sound_look,
        rule sound_andthen, rule sound_expand_optional [OF that], assumption, (rule sound_rules)+, rule sound_yields, rule TrueI)
      (auto intro: sound_yields sound_raises split: list.split)
  show ?thesis using c small unfolding build_catch_def
    by (auto intro!: sound_yields obj sound_andthen [OF sound_expand] intro: child_sound_less split: option.split json.split)
qed

lemma sound_try: "child_sound q j child \<Longrightarrow> sound_for q (good_body q) (build_try o' child j i)"
  unfolding build_try_def
  by (rule sound_andthen, rule sound_look, rule sound_andthen, rule sound_expand_optional, assumption, assumption,
      rule sound_andthen, rule sound_look, rule sound_andthen, rule sound_catch, assumption, assumption,
      rule sound_andthen, rule sound_look, rule sound_andthen, rule sound_expand_optional, assumption, assumption,
      (rule sound_rules)+, rule sound_yields, auto)

section \<open>Nodes and blueprints\<close>

lemma sound_body: "child_sound q j child \<Longrightarrow> sound_for q (good_body q) (build_body q child j ty i)"
  unfolding build_body_def
  by (auto intro!: sound_noop sound_terminate sound_script sound_transform sound_query sound_command sound_event sound_wait
      sound_schedule sound_subflow sound_condition sound_choice sound_parallel sound_action sound_loop sound_loop_control
      sound_try sound_raises)

lemma sound_fields: "child_sound q j child \<Longrightarrow> sound_for q (good_node q) (node_fields q child j ty a)"
proof -
  assume c: "child_sound q j child"
  have retry: "sound_for q (\<lambda>_. True) (case r of Some v \<Rightarrow> andthen (parse_retry q v) (\<lambda>p. yields (Some p)) | None \<Rightarrow> yields None)" for r
    by (auto intro!: sound_yields sound_andthen [OF sound_retry] split: option.split)
  show ?thesis unfolding node_fields_def Let_def
    by (rule sound_andthen, rule sound_rules, rule sound_andthen, rule sound_body [OF c], rule sound_andthen, rule sound_rules,
        rule sound_andthen, rule sound_rules, rule sound_andthen, rule sound_rules, rule sound_andthen, rule sound_rules,
        rule sound_andthen, rule sound_look, rule sound_andthen, rule retry, rule sound_yields, simp add: good_node_def)
qed

lemma sound_unread: "sound_for q (\<lambda>_. True) (unread_fields o' j ty i used)"
  unfolding unread_fields_def Let_def by (rule sound_each) (simp add: sound_raises sound_warn)

lemma sound_node: "size j < f \<Longrightarrow> sound_for q (good_node q) (parse_node f q j a)"
proof (induction f arbitrary: j a)
  case (Suc f)
  then have c: "child_sound q j (parse_node f q)" by (auto simp: child_sound_def)
  have "sound_for q (good_node q) (andthen (in_fields (node_fields q (parse_node f q) j t a)) (\<lambda>(n, used).
      andthen (unread_fields q j t (nd_id n) used) (\<lambda>_. yields n)))" for t
    by (rule sound_andthen_pair, rule sound_in_fields, rule sound_fields [OF c], rule sound_andthen, rule sound_unread,
        rule sound_yields, assumption)
  then show ?case by (auto simp: node_step_def intro: sound_raises split: json.split option.split)
qed simp

lemma sound_nodes:
  "\<forall>v \<in> set vs. size v < f \<Longrightarrow> sound_for q (\<lambda>ns. \<forall>n \<in> set ns. good_node q n) (parse_nodes f q k vs)"
proof (induction vs arbitrary: k)
  case (Cons v r)
  then have rest: "sound_for q (\<lambda>ns. \<forall>n \<in> set ns. good_node q n) (parse_nodes f q (k + 1) r)" by simp
  from Cons.prems have first: "sound_for q (good_node q) (parse_node f q v i)" for i by (simp add: sound_node)
  show ?case unfolding parse_nodes.simps
    by (rule sound_andthen, rule first, rule sound_andthen, rule rest, rule sound_yields, simp)
qed (simp add: sound_yields)

lemma sound_hoisted: "sound_for q (\<lambda>ns. \<forall>n \<in> set ns. good_node q n) (observe ps_hoisted)"
  by (simp add: sound_for_def hoisted_good_def)

definition indexed_from :: "parse_options \<Rightarrow> node list \<Rightarrow> (string \<times> node) list \<Rightarrow> node list \<Rightarrow> bool" where
  "indexed_from q ns ix ms \<longleftrightarrow>
     (\<forall>n \<in> set ms. good_node q n) \<and> length ms = length ns \<and> distinct (map fst ix @ map nd_id ms)"

lemma sound_index:
  "\<forall>n \<in> set ns. good_node q n \<Longrightarrow> distinct (map fst ix) \<Longrightarrow>
   sound_for q (\<lambda>(ms, ix'). indexed_from q ns ix ms) (index_nodes ns ix)"
proof (induction ns arbitrary: ix)
  case Nil
  then show ?case unfolding index_nodes.simps by (intro sound_yields) (simp add: indexed_from_def)
next
  case (Cons n ns)
  let ?n = "if nd_id n = [] then n\<lparr>nd_id := ''node_'' @ int_str (int (length ix))\<rparr> else n"
  have good: "good_node q ?n" using Cons.prems(1) by (simp add: good_node_def)
  show ?case
  proof (cases "map_of ix (nd_id ?n) = None")
    case True
    then have fresh: "nd_id ?n \<notin> fst ` set ix" by (simp only: map_of_eq_None_iff not_False_eq_True)
    have rest: "sound_for q (\<lambda>(ms, ix'). indexed_from q ns (ix @ [(nd_id ?n, ?n)]) ms) (index_nodes ns (ix @ [(nd_id ?n, ?n)]))"
      by (rule Cons.IH) (use Cons.prems fresh in \<open>auto simp del: if_split split del: if_split\<close>)
    have step: "indexed_from q (n # ns) ix (?n # ms)" if "indexed_from q ns (ix @ [(nd_id ?n, ?n)]) ms" for ms
      using that good unfolding indexed_from_def by (simp split del: if_split)
    show ?thesis unfolding index_nodes.simps Let_def
      by (subst if_not_P, simp add: True split del: if_split, rule sound_andthen_pair, rule rest, rule sound_yields,
          rule case_prodI, rule step)
  next
    case False
    then show ?thesis unfolding index_nodes.simps Let_def by (simp only: if_True not_False_eq_True sound_raises)
  qed
qed

lemma fall_through_keeps:
  "map nd_id (fall_through k ns) = map nd_id ns" "map nd_body (fall_through k ns) = map nd_body ns"
  by (induction k ns rule: fall_through.induct) auto

lemma fall_through_good: "\<forall>n \<in> set ns. good_node q n \<Longrightarrow> n \<in> set (fall_through k ns) \<Longrightarrow> good_node q n"
  by (induction k ns rule: fall_through.induct) (auto simp: good_node_def split: if_splits)

definition well_parsed :: "parse_options \<Rightarrow> workflow \<Rightarrow> bool" where
  "well_parsed q w \<longleftrightarrow>
     wf_nodes w \<noteq> [] \<and> wf_entry_id w = nd_id (hd (wf_nodes w)) \<and> (\<forall>n \<in> set (wf_nodes w). good_node q n) \<and>
     distinct (map nd_id (wf_nodes w)) \<and> wf_index w = map (\<lambda>n. (nd_id n, n)) (wf_nodes w) \<and>
     (pq_validate q \<longrightarrow> closed_blueprint w)"

lemma assembled_parts:
  "wf_nodes (assembled md level ns warnings) = fall_through level ns"
  "wf_entry_id (assembled md level ns warnings) = nd_id (hd ns)"
  "wf_index (assembled md level ns warnings) = map (\<lambda>n. (nd_id n, n)) (fall_through level ns)"
  by (simp_all add: assembled_def Let_def)

lemma sound_validated:
  assumes "indexed_from q ns [] ms" "ns \<noteq> []"
  shows "sound_for q (well_parsed q) (validated q (assembled md level ms warnings))"
proof -
  let ?w = "assembled md level ms warnings"
  have ms: "ms \<noteq> []" "distinct (map nd_id ms)" "\<forall>n \<in> set ms. good_node q n"
    using assms by (auto simp: indexed_from_def)
  have same: "map nd_id (fall_through level ms) = map nd_id ms" by (rule fall_through_keeps)
  then have ne: "fall_through level ms \<noteq> []" using ms(1) by (metis Nil_is_map_conv)
  have first: "nd_id (hd (fall_through level ms)) = nd_id (hd ms)"
    using same ne ms(1) by (metis hd_map)
  have good: "\<forall>n \<in> set (fall_through level ms). good_node q n" using fall_through_good [OF ms(3)] by blast
  have ok: "well_parsed q (?w\<lparr>wf_warnings := l\<rparr>)" if "pq_validate q \<longrightarrow> closed_blueprint ?w" for l
    using that ms(2) ne first good same by (simp add: well_parsed_def assembled_parts closed_blueprint_def)
  have plain: "well_parsed q ?w" if "\<not> pq_validate q"
    using that ms(2) ne first good same by (simp add: well_parsed_def assembled_parts)
  show ?thesis
  proof (cases "pq_validate q")
    case False
    then show ?thesis by (simp add: validated_def sound_yields plain)
  next
    case True
    obtain l r where v: "validate_blueprint ?w (wf_warnings ?w) = (l, r)" by (cases "validate_blueprint ?w (wf_warnings ?w)")
    have "closed_blueprint ?w" if "r = None"
      by (rule no_errors_closed [where warnings = "wf_warnings ?w"]) (simp add: v that)
    then have closed: "well_parsed q (?w\<lparr>wf_warnings := l\<rparr>)" if "r = None" using ok that by blast
    show ?thesis
    proof (cases r)
      case None
      show ?thesis unfolding validated_def v if_P [OF True] prod.case None option.case
        by (rule sound_yields, rule closed, rule None)
    qed (simp add: validated_def v True sound_raises)
  qed
qed

lemma sound_header: "sound_for q (\<lambda>(md, v). size v \<le> size d) (header_of q d)"
proof (cases d)
  case (JObj ob)
  have "sound_for q (\<lambda>(md, v). size v \<le> size d) (case x of Some (k, v) \<Rightarrow> yields (read_metadata q d, v)
      | None \<Rightarrow> reject (''a workflow object must contain a '' @ quoted ''nodes'' @ '' array''))"
    if "\<forall>k v. x = Some (k, v) \<longrightarrow> size v < size d" for x
    using that by (cases x) (auto simp: sound_raises intro!: sound_yields)
  with JObj show ?thesis unfolding header_of_def JObj json.case by (metis first_of_size)
qed (auto simp: header_of_def intro: sound_yields sound_raises)

lemma sound_blueprint:
  assumes "size d < f"
  shows "sound_for q (well_parsed q) (parse_workflow_json f q d)"
proof -
  have array: "sound_for q (well_parsed q)
      (andthen (refuse_if (xs = []) m) (\<lambda>_. andthen (refuse_if b (m' xs)) (\<lambda>_.
       andthen (parse_nodes f q 0 xs) (\<lambda>tops. andthen (observe ps_hoisted) (\<lambda>hoisted.
       andthen (index_nodes (tops @ hoisted) []) (\<lambda>(ns, ix). andthen (observe ps_warnings) (\<lambda>warnings.
         validated q (assembled md (length xs) ns warnings))))))))"
    if small: "size (JArr xs) \<le> size d" for xs md m b m'
  proof (cases "xs = []")
    case True
    then show ?thesis by (auto simp: refuse_if_def intro!: sound_andthen [where P = "\<lambda>_. False"] sound_raises)
  next
    case False
    have sizes: "\<forall>v \<in> set xs. size v < f"
    proof
      fix v
      assume "v \<in> set xs"
      then have "size v < size (JArr xs)" by (intro jitems_size) simp
      with small assms show "size v < f" by linarith
    qed
    have tops: "sound_for q (\<lambda>ns. (\<forall>n \<in> set ns. good_node q n) \<and> ns \<noteq> []) (parse_nodes f q 0 xs)"
    proof (rule sound_forI)
      fix s r t
      assume s: "hoisted_good q s" "parse_nodes f q 0 xs s = (r, t)"
      have "r = Val [] \<Longrightarrow> False"
        using s(2) False by (cases xs) (auto simp: andthen_def split: prod.splits ev.splits)
      with sound_forD [OF sound_nodes [OF sizes] s]
      show "hoisted_good q t \<and> r \<noteq> Deep \<and> (\<forall>ns. r = Val ns \<longrightarrow> (\<forall>n \<in> set ns. good_node q n) \<and> ns \<noteq> [])"
        by blast
    qed
    have rest: "sound_for q (well_parsed q) (andthen (observe ps_hoisted) (\<lambda>hoisted.
       andthen (index_nodes (tops @ hoisted) []) (\<lambda>(ns, ix). andthen (observe ps_warnings) (\<lambda>warnings.
         validated q (assembled md (length xs) ns warnings)))))"
      if "(\<forall>n \<in> set tops. good_node q n) \<and> tops \<noteq> []" for tops
    proof (rule sound_andthen [OF sound_hoisted])
      fix hoisted
      assume "\<forall>n \<in> set hoisted. good_node q n"
      with that have all: "\<forall>n \<in> set (tops @ hoisted). good_node q n" and ne: "tops @ hoisted \<noteq> []" by auto
      show "sound_for q (well_parsed q) (andthen (index_nodes (tops @ hoisted) []) (\<lambda>(ns, ix).
          andthen (observe ps_warnings) (\<lambda>warnings. validated q (assembled md (length xs) ns warnings))))"
        by (rule sound_andthen_pair, rule sound_index [OF all], simp, rule sound_andthen, rule sound_observe,
            rule sound_validated [OF _ ne], assumption)
    qed
    show ?thesis
      by (rule sound_andthen, rule sound_refuse_if, rule sound_andthen, rule sound_refuse_if, rule sound_andthen, rule tops,
          rule rest)
  qed
  show ?thesis unfolding parse_workflow_json_def
    by (rule sound_andthen_pair, rule sound_header) (auto intro!: array sound_raises split: json.split)
qed

lemma start_good: "hoisted_good q start_state"
  by (simp add: hoisted_good_def start_state_def)

lemma fresh_run: "sound_for q Q m \<Longrightarrow> fst (m start_state) \<noteq> Deep \<and> (\<forall>x. fst (m start_state) = Val x \<longrightarrow> Q x)"
  using sound_forD [OF _ start_good, of q Q m "fst (m start_state)" "snd (m start_state)"] by simp

lemma parsed_well: "parse_workflow parse q t = Val w \<Longrightarrow> well_parsed q w"
  using fresh_run [OF sound_blueprint [OF lessI]] unfolding parse_workflow_def
  by (auto split: sum.splits)

lemma parse_workflow_ends: "parse_workflow parse q t \<noteq> Deep"
  unfolding parse_workflow_def
  by (cases "parse t") (simp_all add: conjunct1 [OF fresh_run [OF sound_blueprint [OF lessI]]])

text \<open>
  C13: Parsing ends: on every document, text and single node, reading as deep as the document is large is enough, so a
  parse yields a blueprint (or node), a refusal or a library exception, whatever the options and the document library.
\<close>

theorem parser_ends:
  "parse_workflow parse q t \<noteq> Deep \<and> parse_ast parse q t \<noteq> Deep \<and> parse_single_node q j \<noteq> Deep"
proof -
  note flow = parse_workflow_ends
  have single: "parse_single_node q j \<noteq> Deep"
    unfolding parse_single_node_def by (rule conjunct1 [OF fresh_run [OF sound_node [OF lessI]]])
  have "parse_ast parse q t \<noteq> Deep"
    using flow unfolding parse_ast_def by (auto split: ev.split)
  with flow single show ?thesis by blast
qed

text \<open>
  C6: Parsing fails closed: every node of a parsed blueprint, nested and hoisted ones included, is well formed for its
  type - a command is one of the HTTP verbs with a URL or a registered capability, an action's capability is registered,
  loops, branches, conditions and try blocks have bodies, policies and operations are known, limits are positive,
  schedules have a valid cron expression.
\<close>

theorem parsed_nodes_are_well_formed:
  assumes "parse_workflow parse q t = Val w" and "n \<in> set (wf_nodes w)"
  shows "good_node q n"
  using parsed_well [OF assms(1)] assms(2) by (simp add: well_parsed_def)


definition order_options :: parse_options where
  "order_options =
     \<lparr>pq_has = Some (\<lambda>c. c = ''mail.send''), pq_validate = True, pq_strict = False, pq_max_nodes = 10, pq_dump = (\<lambda>_. ''?'')\<rparr>"

definition order_document :: json where
  "order_document = JArr [
     jobj [(''type'', JStr ''command''), (''id'', JStr ''tell''), (''command'', JStr ''mail.send'')],
     jobj [(''type'', JStr ''loop''), (''id'', JStr ''l''), (''count'', JInt 2),
           (''tasks'', JArr [jobj [(''type'', JStr ''noop'')]])],
     jobj [(''type'', JStr ''terminate''), (''id'', JStr ''e'')]]"

definition order_blueprint :: "workflow ev" where
  "order_blueprint = parse_workflow (\<lambda>_. Inr order_document) order_options []"

definition node_count :: "workflow ev \<Rightarrow> nat" where
  "node_count r = (case r of Val w \<Rightarrow> length (wf_nodes w) | _ \<Rightarrow> 0)"

lemma order_parses: "node_count order_blueprint = 4"
  by code_simp

lemma order_value:
  obtains w where "parse_workflow (\<lambda>_. Inr order_document) order_options [] = Val w" and "length (wf_nodes w) = 4"
  using order_parses unfolding node_count_def order_blueprint_def
  by (cases "parse_workflow (\<lambda>_. Inr order_document) order_options []") auto

theorem parsed_nodes_are_well_formed_witness:
  "\<exists>w. order_blueprint = Val w \<and> length (wf_nodes w) = 4 \<and> list_all (good_node order_options) (wf_nodes w)"
proof -
  obtain w where w: "parse_workflow (\<lambda>_. Inr order_document) order_options [] = Val w" "length (wf_nodes w) = 4"
    by (rule order_value)
  have "list_all (good_node order_options) (wf_nodes w)"
    unfolding list_all_iff by (intro ballI) (rule parsed_nodes_are_well_formed [OF w(1)])
  with w show ?thesis unfolding order_blueprint_def by blast
qed


end
