(* ===== verification/Sapo_Config.thy ===== *)
theory Sapo_Config
  imports Sapo_Expression Sapo_Cron Sapo_Core
begin

text \<open>
  The provider configuration (\<open>src/src/config/ProviderConfig.cpp\<close>, \<open>.hpp\<close>): dotted lookups, secrets with the process
  environment behind them, indirections, the list of values to redact, the checks at startup and the bindings for
  expressions.  The environment, the file system and the JSON text parser are parameters.  A store is its document,
  an object.
\<close>

section \<open>Lookups\<close>

text \<open>\<open>std::stoul\<close>: a sign is accepted and negates modulo the width.\<close>

definition sto_ulong :: "string \<Rightarrow> nat option" where
  "sto_ulong s =
     (let t = dropWhile is_space s;
          neg = (t \<noteq> [] \<and> hd t = CHR ''-'');
          u = (if t \<noteq> [] \<and> (hd t = CHR ''-'' \<or> hd t = CHR ''+'') then tl t else t);
          ds = takeWhile is_digit u; v = digits_val ds
      in if ds = [] \<or> 2 ^ 64 \<le> v then None
         else Some (if neg then (2 ^ 64 - v) mod 2 ^ 64 else v))"

fun walk_segments :: "string list \<Rightarrow> json \<Rightarrow> json option" where
  "walk_segments [] v = Some v"
| "walk_segments (x # r) v =
     (if x = [] then None
      else case v of
        JObj ob \<Rightarrow> (case map_of ob x of Some w \<Rightarrow> walk_segments r w | None \<Rightarrow> None)
      | JArr xs \<Rightarrow>
          (case sto_ulong x of
             Some i \<Rightarrow> (if i < length xs then walk_segments r (xs ! i) else None)
           | None \<Rightarrow> None)
      | _ \<Rightarrow> None)"

definition config_walk :: "json \<Rightarrow> string \<Rightarrow> json option" where
  "config_walk v path = (if path = [] then Some v else walk_segments (split_on CHR ''.'' path) v)"

definition upper_text :: "string \<Rightarrow> string" where
  "upper_text s = map to_upper s"

definition flat_text :: "string \<Rightarrow> string" where
  "flat_text s = map (\<lambda>c. if c = CHR ''.'' \<or> c = CHR ''-'' then CHR ''_'' else c) s"

definition section_of :: "string \<Rightarrow> json \<Rightarrow> obj option" where
  "section_of k d = (case jget k d of Some (JObj ob) \<Rightarrow> Some ob | _ \<Rightarrow> None)"

section \<open>The store\<close>

type_synonym environment = "string \<Rightarrow> string option"

definition open_config :: "json \<Rightarrow> json ev" where
  "open_config d = (if is_object d then Val d else Thr (sapo_error Parse ''a config document must be a JSON object'' JNull []))"

definition load_config :: "(string \<Rightarrow> string option) \<Rightarrow> (string \<Rightarrow> string + json) \<Rightarrow> string \<Rightarrow> json ev" where
  "load_config read parse path =
     (case read path of
        None \<Rightarrow> Thr (sapo_error Parse (''cannot open config file '' @ quoted path) JNull [])
      | Some t \<Rightarrow>
          (case parse t of
             Inl what \<Rightarrow> Thr (sapo_error Parse (''config file '' @ quoted path @ '' is not valid JSON: '' @ what) JNull [])
           | Inr d \<Rightarrow> open_config d))"

text \<open>A directory is the list of its components; the search goes up at most eight times.\<close>

definition path_text :: "string list \<Rightarrow> string" where
  "path_text p = concat (map (\<lambda>c. ''/'' @ c) p)"

definition config_file :: "string list \<Rightarrow> string list" where
  "config_file dir = dir @ [''sapo-config.json'']"

fun discover_from :: "nat \<Rightarrow> (string list \<Rightarrow> bool) \<Rightarrow> string list \<Rightarrow> string list option" where
  "discover_from 0 present dir = None"
| "discover_from (Suc n) present dir =
     (if present (config_file dir) then Some (config_file dir)
      else if \<not> present dir \<or> dir = [] then None
      else discover_from n present (butlast dir))"

definition discover_config ::
  "(string \<Rightarrow> string list option) \<Rightarrow> (string list \<Rightarrow> bool) \<Rightarrow> (string \<Rightarrow> json ev) \<Rightarrow> string \<Rightarrow> json option ev" where
  "discover_config absolute present load start =
     (case Option.bind (absolute (if start = [] then ''.'' else start)) (discover_from 8 present) of
        None \<Rightarrow> Val None
      | Some p \<Rightarrow> (case load (path_text p) of Val d \<Rightarrow> Val (Some d) | Thr e \<Rightarrow> Thr e | Crash \<Rightarrow> Crash | Deep \<Rightarrow> Deep))"

definition provider_entry :: "json \<Rightarrow> string \<Rightarrow> json option" where
  "provider_entry d i = Option.bind (section_of ''providers'' d) (\<lambda>ob. map_of ob i)"

definition has_provider :: "json \<Rightarrow> string \<Rightarrow> bool" where
  "has_provider d i \<longleftrightarrow> provider_entry d i \<noteq> None"

definition provider_config :: "json \<Rightarrow> string \<Rightarrow> json" where
  "provider_config d i =
     (case provider_entry d i of
        None \<Rightarrow> JNull
      | Some e \<Rightarrow> (case e of JObj ob \<Rightarrow> (case map_of ob ''config'' of Some c \<Rightarrow> c | None \<Rightarrow> e) | _ \<Rightarrow> e))"

text \<open>\<open>value\<close> with a text as its default: a member of another type is an exception of the document library.\<close>

definition text_value :: "string \<Rightarrow> string \<Rightarrow> obj \<Rightarrow> string ev" where
  "text_value k fallback ob =
     (case map_of ob k of None \<Rightarrow> Val fallback | Some (JStr s) \<Rightarrow> Val s | Some _ \<Rightarrow> Crash)"

definition provider_type :: "json \<Rightarrow> string \<Rightarrow> string ev" where
  "provider_type d i =
     (case provider_entry d i of
        Some (JObj ob) \<Rightarrow> (case text_value ''provider'' [] ob of Val p \<Rightarrow> text_value ''type'' p ob | r \<Rightarrow> r)
      | _ \<Rightarrow> Val [])"

definition provider_deferred :: "json \<Rightarrow> string \<Rightarrow> bool ev" where
  "provider_deferred d i =
     (case provider_entry d i of
        Some (JObj ob) \<Rightarrow>
          (case map_of ob ''deferred'' of None \<Rightarrow> Val False | Some (JBool b) \<Rightarrow> Val b | Some _ \<Rightarrow> Crash)
      | _ \<Rightarrow> Val False)"

definition provider_ids :: "json \<Rightarrow> string list" where
  "provider_ids d = (case section_of ''providers'' d of Some ob \<Rightarrow> sort (map fst ob) | None \<Rightarrow> [])"

definition inline_setting :: "json \<Rightarrow> string \<Rightarrow> json option" where
  "inline_setting d path = (if CHR ''.'' \<in> set path then None else jget path d)"

definition setting :: "json \<Rightarrow> string \<Rightarrow> json option" where
  "setting d path =
     (case Option.bind (jget ''config'' d) (\<lambda>c. config_walk c path) of
        Some v \<Rightarrow> Some v
      | None \<Rightarrow> inline_setting d path)"

definition stored_secret :: "json \<Rightarrow> string \<Rightarrow> json option" where
  "stored_secret d name =
     (case section_of ''secrets'' d of
        None \<Rightarrow> None
      | Some ob \<Rightarrow> (case map_of ob name of Some v \<Rightarrow> Some v | None \<Rightarrow> config_walk (JObj ob) name))"

definition secret :: "environment \<Rightarrow> json \<Rightarrow> string \<Rightarrow> json option" where
  "secret getenv d name =
     (case stored_secret d name of
        Some v \<Rightarrow> Some v
      | None \<Rightarrow> map_option JStr (getenv (flat_text (''SAPO_SECRET_'' @ upper_text name))))"

definition engine_section :: "json \<Rightarrow> json" where
  "engine_section d = (case section_of ''engine'' d of Some ob \<Rightarrow> JObj ob | None \<Rightarrow> JObj [])"

definition source_declarations :: "json \<Rightarrow> json list" where
  "source_declarations d = (case jget ''data_sources'' d of Some (JArr xs) \<Rightarrow> xs | _ \<Rightarrow> [])"

section \<open>Indirections\<close>

definition at_path :: "string \<Rightarrow> string" where
  "at_path path = (if path = [] then ''<root>'' else path)"

definition missing_secret :: "string \<Rightarrow> string \<Rightarrow> string" where
  "missing_secret name path =
     ''secret '' @ quoted name @ '' referenced at '' @ at_path path @
     '' is not defined (add it to `secrets` or set SAPO_SECRET_'' @ flat_text (upper_text name) @ '')''"

definition missing_variable :: "string \<Rightarrow> string \<Rightarrow> string" where
  "missing_variable name path =
     ''environment variable '' @ quoted name @ '' referenced at '' @ at_path path @ '' is not set''"

text \<open>An object of one member that is an indirection: the value it stands for and the problem met.\<close>

definition resolve_indirection :: "environment \<Rightarrow> json \<Rightarrow> obj \<Rightarrow> string \<Rightarrow> (json \<times> string list) option" where
  "resolve_indirection getenv d ob path =
     (case ob of
        [(k, JStr name)] \<Rightarrow>
          (if k = ''$secret'' then
             Some (case secret getenv d name of Some v \<Rightarrow> (v, []) | None \<Rightarrow> (JObj ob, [missing_secret name path]))
           else if k = ''$env'' then
             Some (case getenv name of Some v \<Rightarrow> (JStr v, []) | None \<Rightarrow> (JObj ob, [missing_variable name path]))
           else if k = ''$include'' then Some (JObj ob, [''$include is not supported ('' @ name @ '')''])
           else None)
      | _ \<Rightarrow> None)"

fun expand_value :: "environment \<Rightarrow> json \<Rightarrow> json \<Rightarrow> string \<Rightarrow> json \<times> string list"
  and expand_members :: "environment \<Rightarrow> json \<Rightarrow> obj \<Rightarrow> string \<Rightarrow> obj \<times> string list"
  and expand_elements :: "environment \<Rightarrow> json \<Rightarrow> nat \<Rightarrow> json list \<Rightarrow> string \<Rightarrow> json list \<times> string list" where
  "expand_value getenv d (JObj ob) path =
     (case resolve_indirection getenv d ob path of
        Some r \<Rightarrow> r
      | None \<Rightarrow> (case expand_members getenv d ob path of (ob', ps) \<Rightarrow> (JObj ob', ps)))"
| "expand_value getenv d (JArr xs) path = (case expand_elements getenv d 0 xs path of (ys, ps) \<Rightarrow> (JArr ys, ps))"
| "expand_value getenv d v path = (v, [])"
| "expand_members getenv d [] path = ([], [])"
| "expand_members getenv d ((k, v) # r) path =
     (case expand_value getenv d v (if path = [] then k else path @ ''.'' @ k) of (w, ps) \<Rightarrow>
        (case expand_members getenv d r path of (r', qs) \<Rightarrow> ((k, w) # r', ps @ qs)))"
| "expand_elements getenv d n [] path = ([], [])"
| "expand_elements getenv d n (v # r) path =
     (case expand_value getenv d v (path @ ''['' @ int_str (int n) @ '']'') of (w, ps) \<Rightarrow>
        (case expand_elements getenv d (Suc n) r path of (r', qs) \<Rightarrow> (w # r', ps @ qs)))"

section \<open>Redaction\<close>

definition secret_names :: "string list" where
  "secret_names = [''password'', ''secret'', ''token'', ''api_key'', ''apikey'']"

definition looks_secret :: "string \<Rightarrow> string \<Rightarrow> bool" where
  "looks_secret parent k \<longleftrightarrow> parent = ''secrets'' \<or> list_ex (\<lambda>n. find_sub n k \<noteq> None) secret_names"

fun collect_secrets :: "string \<Rightarrow> json \<Rightarrow> string list"
  and collect_members :: "string \<Rightarrow> obj \<Rightarrow> string list" where
  "collect_secrets parent (JObj ob) = collect_members parent ob"
| "collect_secrets parent v = []"
| "collect_members parent [] = []"
| "collect_members parent ((k, v) # r) =
     (case v of JStr s \<Rightarrow> (if looks_secret parent k \<and> s \<noteq> [] then [s] else []) | _ \<Rightarrow> collect_secrets k v) @
     collect_members parent r"

definition redact_list :: "json \<Rightarrow> string list" where
  "redact_list d =
     (let found = (\<lambda>k. case jget k d of Some v \<Rightarrow> collect_secrets k v | None \<Rightarrow> [])
      in remdups_adj (sort (found ''secrets'' @ found ''providers'')))"

section \<open>Checks at startup\<close>

definition known_sections :: "string list" where
  "known_sections = [''version'', ''engine'', ''secrets'', ''config'', ''providers'', ''data_sources'', ''workflows'', ''plugins'']"

definition section_problems :: "json \<Rightarrow> string list" where
  "section_problems d =
     map (\<lambda>k. ''unknown top-level config section '' @ quoted k) (filter (\<lambda>k. k \<notin> set known_sections) (map fst (jentries d)))"

definition provider_problems :: "environment \<Rightarrow> json \<Rightarrow> string \<Rightarrow> json \<Rightarrow> string list ev" where
  "provider_problems getenv d i v =
     (case v of
        JObj ob \<Rightarrow>
          (case text_value ''type'' [] ob of
             Val t \<Rightarrow> Val ((if t = [] then [''provider '' @ quoted i @ '' declares no `type`''] else []) @
                            snd (expand_value getenv d v (''providers.'' @ i)))
           | Thr e \<Rightarrow> Thr e | Crash \<Rightarrow> Crash | Deep \<Rightarrow> Deep)
      | _ \<Rightarrow> Val [''provider '' @ quoted i @ '' must be an object''])"

fun providers_problems :: "environment \<Rightarrow> json \<Rightarrow> obj \<Rightarrow> string list ev" where
  "providers_problems getenv d [] = Val []"
| "providers_problems getenv d ((i, v) # r) =
     (case provider_problems getenv d i v of
        Val ps \<Rightarrow> (case providers_problems getenv d r of Val qs \<Rightarrow> Val (ps @ qs) | x \<Rightarrow> x)
      | x \<Rightarrow> x)"

definition all_providers_problems :: "environment \<Rightarrow> json \<Rightarrow> string list ev" where
  "all_providers_problems getenv d =
     (case jget ''providers'' d of
        None \<Rightarrow> Val []
      | Some (JObj ob) \<Rightarrow> providers_problems getenv d ob
      | Some _ \<Rightarrow> Val [''`providers` must be an object keyed by provider id''])"

definition log_levels :: "string list" where
  "log_levels = [''trace'', ''debug'', ''info'', ''warn'', ''error'', ''off'']"

definition engine_problems :: "json \<Rightarrow> string list" where
  "engine_problems d =
     (case section_of ''engine'' d of
        None \<Rightarrow> []
      | Some ob \<Rightarrow>
          (case map_of ob ''workers'' of
             None \<Rightarrow> []
           | Some (JInt n) \<Rightarrow> (if as_int32 n \<le> 0 then [''`engine.workers` must be a positive integer''] else [])
           | Some _ \<Rightarrow> [''`engine.workers` must be a positive integer'']) @
          (case map_of ob ''log_level'' of
             None \<Rightarrow> []
           | Some v \<Rightarrow>
               (if (case v of JStr s \<Rightarrow> s | _ \<Rightarrow> []) \<in> set log_levels then []
                else [''`engine.log_level` must be trace|debug|info|warn|error|off''])))"

definition declares_source :: "json \<Rightarrow> bool" where
  "declares_source e \<longleftrightarrow> jcontains ''name'' e \<and> jcontains ''provider'' e"

definition source_problems :: "json \<Rightarrow> string list" where
  "source_problems d =
     (case jget ''data_sources'' d of
        None \<Rightarrow> []
      | Some (JArr xs) \<Rightarrow>
          map (\<lambda>e. ''every `data_sources` entry needs `name` and `provider`'') (filter (\<lambda>e. \<not> declares_source e) xs)
      | Some _ \<Rightarrow> [''`data_sources` must be an array''])"

definition config_problems :: "environment \<Rightarrow> json \<Rightarrow> string list ev" where
  "config_problems getenv d =
     (if \<not> is_object d then Val [''config root must be an object'']
      else case all_providers_problems getenv d of
        Val ps \<Rightarrow> Val (section_problems d @ ps @ engine_problems d @ source_problems d)
      | x \<Rightarrow> x)"

section \<open>Bindings\<close>

definition bound_value :: "json \<Rightarrow> string \<Rightarrow> string \<Rightarrow> bool \<Rightarrow> json option" where
  "bound_value d root_key path from_providers =
     (case (case jget root_key d of
              None \<Rightarrow> None
            | Some v \<Rightarrow>
                (case config_walk v path of
                   Some w \<Rightarrow> Some w
                 | None \<Rightarrow> (if root_key = ''config'' then inline_setting d path else None))) of
        Some w \<Rightarrow> Some w
      | None \<Rightarrow>
          (if from_providers \<and> root_key = ''secrets''
           then Option.bind (section_of ''providers'' d) (\<lambda>ob. config_walk (JObj ob) path) else None))"

definition config_lookup :: "environment \<Rightarrow> json \<Rightarrow> lookup" where
  "config_lookup getenv d ns key =
     (if ns = ''config'' then bound_value d ''config'' key False
      else if ns = ''secret'' then
        (case bound_value d ''secrets'' key False of
           Some v \<Rightarrow> Some v
         | None \<Rightarrow>
             (case getenv (''SAPO_SECRET_'' @ upper_text key) of
                Some v \<Rightarrow> Some (JStr v)
              | None \<Rightarrow> bound_value d ''secrets'' key True))
      else None)"

definition config_namespaces :: "string list" where
  "config_namespaces = [''config'', ''secret'']"

section \<open>What expansion leaves\<close>

definition directives :: "string list" where
  "directives = [''$secret'', ''$env'', ''$include'']"

definition directive :: "obj \<Rightarrow> bool" where
  "directive ob \<longleftrightarrow> (case ob of [(k, v)] \<Rightarrow> k \<in> set directives | _ \<Rightarrow> False)"

definition indirection :: "obj \<Rightarrow> bool" where
  "indirection ob \<longleftrightarrow> (case ob of [(k, v)] \<Rightarrow> k \<in> set directives \<and> is_string v | _ \<Rightarrow> False)"

text \<open>A document without indirections; one whose directives all name texts.\<close>

fun settled :: "json \<Rightarrow> bool" where
  "settled (JObj ob) \<longleftrightarrow> \<not> indirection ob \<and> (\<forall>p \<in> set ob. settled (snd p))"
| "settled (JArr xs) \<longleftrightarrow> (\<forall>x \<in> set xs. settled x)"
| "settled _ \<longleftrightarrow> True"

fun names_texts :: "json \<Rightarrow> bool" where
  "names_texts (JObj ob) \<longleftrightarrow> (directive ob \<longrightarrow> indirection ob) \<and> (\<forall>p \<in> set ob. names_texts (snd p))"
| "names_texts (JArr xs) \<longleftrightarrow> (\<forall>x \<in> set xs. names_texts x)"
| "names_texts _ \<longleftrightarrow> True"

lemma resolve_None: "resolve_indirection getenv d ob path = None \<longleftrightarrow> \<not> indirection ob"
  by (auto simp: resolve_indirection_def indirection_def directives_def split: list.splits prod.splits json.splits)

lemma walk_settled: "settled v \<Longrightarrow> walk_segments r v = Some w \<Longrightarrow> settled w"
proof (induction r v rule: walk_segments.induct)
  case (2 x r v)
  show ?case
  proof (cases v)
    case (JObj ob)
    with "2.prems" obtain u where "x \<noteq> []" "map_of ob x = Some u" "walk_segments r u = Some w"
      by (auto split: if_splits option.splits)
    moreover have "settled u" using "2.prems"(1) JObj \<open>map_of ob x = Some u\<close> by (auto dest!: map_of_SomeD)
    ultimately show ?thesis using "2.IH"(2) JObj by blast
  next
    case (JArr xs)
    with "2.prems" obtain i where "x \<noteq> []" "sto_ulong x = Some i" "i < length xs" "walk_segments r (xs ! i) = Some w"
      by (auto split: if_splits option.splits)
    moreover have "settled (xs ! i)" using "2.prems"(1) JArr \<open>i < length xs\<close> by simp
    ultimately show ?thesis using "2.IH"(1) JArr by blast
  qed (use "2.prems" in \<open>auto split: if_splits\<close>)
qed simp

definition settled_secrets :: "json \<Rightarrow> bool" where
  "settled_secrets d \<longleftrightarrow> (case section_of ''secrets'' d of Some ob \<Rightarrow> settled (JObj ob) | None \<Rightarrow> True)"

lemma secret_settled:
  assumes "settled_secrets d" and "secret getenv d n = Some v"
  shows "settled v"
proof (cases "stored_secret d n")
  case None
  with assms(2) show ?thesis by (auto simp: secret_def)
next
  case (Some u)
  then obtain ob where ob: "section_of ''secrets'' d = Some ob" by (auto simp: stored_secret_def split: option.splits)
  with assms(1) have ok: "settled (JObj ob)" by (simp add: settled_secrets_def)
  have u: "u = v" using assms(2) Some by (simp add: secret_def)
  show ?thesis
  proof (cases "map_of ob n")
    case None
    with Some ob u have "config_walk (JObj ob) n = Some v" by (simp add: stored_secret_def)
    with ok show ?thesis by (auto simp: config_walk_def simp del: settled.simps dest: walk_settled split: if_splits)
  next
    case (Some x)
    with \<open>stored_secret d n = Some u\<close> ob u have "map_of ob n = Some v" by (simp add: stored_secret_def)
    with ok show ?thesis by (auto dest!: map_of_SomeD)
  qed
qed

lemma resolve_settled:
  assumes "settled_secrets d" and "resolve_indirection getenv d ob path = Some (w, [])"
  shows "settled w"
  using assms(2) secret_settled [OF assms(1)]
  by (auto simp: resolve_indirection_def split: list.splits prod.splits json.splits if_splits option.splits)

lemma expand_members_keys: "map fst (fst (expand_members getenv d ob path)) = map fst ob"
  by (induction ob) (auto split: prod.splits)

lemma expand_keeps_shape:
  assumes "\<not> indirection ob" and "directive ob \<longrightarrow> indirection ob"
  shows "\<not> indirection (fst (expand_members getenv d ob path))"
proof -
  have keys: "map fst (fst (expand_members getenv d ob path)) = map fst ob" by (rule expand_members_keys)
  have "directive (fst (expand_members getenv d ob path)) = directive ob"
    using keys by (auto simp: directive_def split: list.splits prod.splits)
  with assms show ?thesis
    by (auto simp: directive_def indirection_def split: list.splits prod.splits)
qed

lemma expansion_settled:
  "settled_secrets d \<Longrightarrow> expand_value getenv d v path = (w, []) \<Longrightarrow> names_texts v \<Longrightarrow> settled w"
  "settled_secrets d \<Longrightarrow> expand_members getenv d ob path = (ob', []) \<Longrightarrow>
   \<forall>p \<in> set ob. names_texts (snd p) \<Longrightarrow> \<forall>p \<in> set ob'. settled (snd p)"
  "settled_secrets d \<Longrightarrow> expand_elements getenv d n xs path = (ys, []) \<Longrightarrow>
   \<forall>x \<in> set xs. names_texts x \<Longrightarrow> \<forall>y \<in> set ys. settled y"
proof (induction getenv d v path and getenv d ob path and getenv d n xs path arbitrary: w and ob' and ys
    rule: expand_value_expand_members_expand_elements.induct)
  case (1 getenv d ob path)
  show ?case
  proof (cases "resolve_indirection getenv d ob path")
    case None
    then have plain: "\<not> indirection ob" by (simp add: resolve_None)
    obtain ob' where ob': "expand_members getenv d ob path = (ob', [])" and w: "w = JObj ob'"
      using "1.prems"(2) None by (auto split: prod.splits)
    have "\<not> indirection ob'"
      using expand_keeps_shape [OF plain, of getenv d path] "1.prems"(3) ob' by simp
    moreover have "\<forall>p \<in> set ob'. settled (snd p)"
      by (rule "1.IH" [OF None "1.prems"(1) ob']) (use "1.prems"(3) in simp)
    ultimately show ?thesis using w by simp
  next
    case (Some r)
    with "1.prems"(2) show ?thesis by (auto intro: resolve_settled [OF "1.prems"(1)])
  qed
qed (auto split: prod.splits)

lemma settled_stays:
  "settled v \<Longrightarrow> expand_value getenv d v path = (v, [])"
  "\<forall>p \<in> set ob. settled (snd p) \<Longrightarrow> expand_members getenv d ob path = (ob, [])"
  "\<forall>x \<in> set xs. settled x \<Longrightarrow> expand_elements getenv d n xs path = (xs, [])"
  by (induction getenv d v path and getenv d ob path and getenv d n xs path
      rule: expand_value_expand_members_expand_elements.induct)
    (auto simp: resolve_None [THEN iffD2] split: prod.splits)

section \<open>What a document refers to\<close>

text \<open>The directives written anywhere in a document, with the names they give.\<close>

inductive refers :: "json \<Rightarrow> string \<Rightarrow> string \<Rightarrow> bool" where
  here: "k \<in> set directives \<Longrightarrow> refers (JObj [(k, JStr n)]) k n"
| member: "(m, v) \<in> set ob \<Longrightarrow> refers v k n \<Longrightarrow> refers (JObj ob) k n"
| element: "v \<in> set xs \<Longrightarrow> refers v k n \<Longrightarrow> refers (JArr xs) k n"

inductive_cases refers_text: "refers (JStr s) k n"

definition available :: "environment \<Rightarrow> json \<Rightarrow> string \<Rightarrow> string \<Rightarrow> bool" where
  "available getenv d k n \<longleftrightarrow>
     k = ''$secret'' \<and> (stored_secret d n \<noteq> None \<or> getenv (flat_text (''SAPO_SECRET_'' @ upper_text n)) \<noteq> None) \<or>
     k = ''$env'' \<and> getenv n \<noteq> None"

lemma expand_member_clean:
  "snd (expand_members getenv d ob path) = [] \<Longrightarrow> (m, v) \<in> set ob \<Longrightarrow> \<exists>p. snd (expand_value getenv d v p) = []"
proof (induction ob)
  case (Cons q r)
  obtain k u where q: "q = (k, u)" by fastforce
  let ?p = "if path = [] then k else path @ ''.'' @ k"
  have "snd (expand_value getenv d u ?p) = []" "snd (expand_members getenv d r path) = []"
    using Cons.prems(1) by (simp_all add: q split_beta)
  with Cons.IH Cons.prems(2) q show ?case by auto
qed simp

lemma expand_element_clean:
  "snd (expand_elements getenv d i xs path) = [] \<Longrightarrow> v \<in> set xs \<Longrightarrow> \<exists>p. snd (expand_value getenv d v p) = []"
proof (induction xs arbitrary: i)
  case (Cons x r)
  let ?p = "path @ ''['' @ int_str (int i) @ '']''"
  have "snd (expand_value getenv d x ?p) = []" "snd (expand_elements getenv d (Suc i) r path) = []"
    using Cons.prems(1) by (simp_all add: split_beta)
  with Cons.IH Cons.prems(2) show ?case by auto
qed simp

lemma indirection_single:
  assumes "indirection ob"
  shows "\<exists>k t. ob = [(k, JStr t)]"
proof (cases ob)
  case (Cons p r)
  then show ?thesis using assms by (cases r; cases p; cases "snd p") (simp_all add: indirection_def)
qed (use assms in \<open>simp add: indirection_def\<close>)

lemma resolved_available:
  assumes "resolve_indirection getenv d [(k, JStr n)] path = Some (w, [])" and "k \<in> set directives"
  shows "available getenv d k n"
  using assms by (auto simp: resolve_indirection_def available_def secret_def directives_def split: if_splits option.splits)

lemma clean_references:
  "refers v k n \<Longrightarrow> snd (expand_value getenv d v path) = [] \<Longrightarrow> available getenv d k n"
proof (induction arbitrary: path rule: refers.induct)
  case (here k n)
  then have "indirection [(k, JStr n)]" by (simp add: indirection_def)
  then obtain r where r: "resolve_indirection getenv d [(k, JStr n)] path = Some r"
    using resolve_None [of getenv d "[(k, JStr n)]" path] by auto
  with here(2) have "snd r = []" by simp
  with r resolved_available [of getenv d k n path "fst r"] here(1) show ?case by (cases r) simp
next
  case (member m v ob k n)
  show ?case
  proof (cases "resolve_indirection getenv d ob path")
    case None
    with member.prems have "snd (expand_members getenv d ob path) = []" by (auto split: prod.splits)
    from expand_member_clean [OF this member.hyps(1)] member.IH show ?thesis by blast
  next
    case (Some r)
    then have "indirection ob" using resolve_None [of getenv d ob path] by auto
    with member.hyps(1) obtain t where "v = JStr t" by (auto dest: indirection_single)
    with member.hyps(2) show ?thesis by (auto elim: refers_text)
  qed
next
  case (element v xs k n)
  then have "snd (expand_elements getenv d 0 xs path) = []" by (auto split: prod.splits)
  from expand_element_clean [OF this element.hyps(1)] element.IH show ?case by blast
qed

section \<open>Properties\<close>

text \<open>
  C17: Expansion settles a configuration: when every directive names a text and no problem is reported, the result holds no
  directive any more - given that the stored secrets hold none - and expanding it again, with any store and environment,
  changes nothing.
\<close>

theorem expansion_settles:
  assumes "settled_secrets d" and "names_texts v" and "expand_value getenv d v path = (w, [])"
  shows "settled w \<and> expand_value getenv' d' w path' = (w, [])"
  using expansion_settled(1) [OF assms(1,3,2)] settled_stays(1) by blast

definition mail_config :: json where
  "mail_config = jobj [(''secrets'', jobj [(''smtp'', JStr ''hunter2'')]),
     (''providers'', jobj [(''mail'', jobj [(''type'', JStr ''smtp''), (''password'', jobj [(''$secret'', JStr ''smtp'')])])])]"

theorem expansion_settles_witness:
  "settled (jobj [(''type'', JStr ''smtp''), (''password'', JStr ''hunter2'')])"
proof -
  let ?v = "jobj [(''type'', JStr ''smtp''), (''password'', jobj [(''$secret'', JStr ''smtp'')])]"
  let ?d = "jobj [(''secrets'', jobj [(''smtp'', JStr ''hunter2'')])]"
  have secrets: "settled_secrets ?d" by code_simp
  have texts: "names_texts ?v" by code_simp
  have run: "expand_value (\<lambda>_. None) ?d ?v [] = (jobj [(''type'', JStr ''smtp''), (''password'', JStr ''hunter2'')], [])"
    by code_simp
  from expansion_settles [OF secrets texts run] show ?thesis by blast
qed

lemma checked_providers:
  "providers_problems getenv d ob = Val [] \<Longrightarrow> (i, v) \<in> set ob \<Longrightarrow> provider_problems getenv d i v = Val []"
  by (induction ob) (auto split: ev.splits)

lemma checked_parts:
  assumes "config_problems getenv d = Val []"
  shows "all_providers_problems getenv d = Val []" and "set (map fst (jentries d)) \<subseteq> set known_sections"
    and "engine_problems d = []" and "source_problems d = []"
  using assms by (auto simp: config_problems_def section_problems_def filter_empty_conv split: if_splits ev.splits)

lemma checked_provider:
  assumes "all_providers_problems getenv d = Val []" and "provider_entry d i = Some v"
  shows "provider_problems getenv d i v = Val []"
proof -
  obtain ob where ob: "jget ''providers'' d = Some (JObj ob)" "map_of ob i = Some v"
    using assms(2) by (auto simp: provider_entry_def section_of_def bind_eq_Some_conv split: option.splits json.splits)
  with assms(1) have "providers_problems getenv d ob = Val []" by (simp add: all_providers_problems_def)
  with map_of_SomeD [OF ob(2)] show ?thesis by (rule checked_providers [rotated])
qed

lemma typed_provider:
  "provider_problems getenv d i v = Val [] \<Longrightarrow>
   (\<exists>ob t. v = JObj ob \<and> map_of ob ''type'' = Some (JStr t) \<and> t \<noteq> []) \<and> snd (expand_value getenv d v (''providers.'' @ i)) = []"
  by (auto simp: provider_problems_def text_value_def simp del: expand_value.simps split: json.splits option.splits ev.splits if_splits)


lemma split_on_none: "c \<notin> set s \<Longrightarrow> split_on c s = [s]"
  by (induction s) auto

lemma split_on_first: "c \<notin> set a \<Longrightarrow> split_on c (a @ c # r) = a # split_on c r"
  by (induction a) auto

lemma one_level_down:
  assumes "a \<noteq> []" and "k \<noteq> []" and "CHR ''.'' \<notin> set a" and "CHR ''.'' \<notin> set k"
  shows "secret getenv (jobj [(''secrets'', jobj [(a, jobj [(k, v)])])]) (a @ ''.'' @ k) = Some v"
  using assms
  by (simp add: secret_def stored_secret_def section_of_def jobj_def config_walk_def split_on_first split_on_none)

text \<open>
  Redaction reaches the first level of the secrets only: every text stored there is redacted, but a secret that is
  stored one object deeper, under names without a dot, is found by its dotted name and yet is not redacted by being
  there: when it is the only secret, its object is not itself called \<open>secrets\<close> and its own name contains none of the
  words that mark a secret, nothing is redacted.
\<close>

theorem redaction_is_shallow:
  "(section_of ''secrets'' d = Some ob \<and> (k, JStr s) \<in> set ob \<and> s \<noteq> [] \<longrightarrow> s \<in> set (redact_list d)) \<and>
   (a \<noteq> [] \<and> i \<noteq> [] \<and> CHR ''.'' \<notin> set a \<and> CHR ''.'' \<notin> set i \<and> \<not> looks_secret a i \<longrightarrow>
     secret getenv (jobj [(''secrets'', jobj [(a, jobj [(i, JStr t)])])]) (a @ ''.'' @ i) = Some (JStr t) \<and>
     redact_list (jobj [(''secrets'', jobj [(a, jobj [(i, JStr t)])])]) = [])"
proof -
  have first: "s \<in> set (collect_members ''secrets'' ob)" if "(k, JStr s) \<in> set ob" "s \<noteq> []" for ob
    using that by (induction ob) (auto simp: looks_secret_def)
  have "s \<in> set (redact_list d)" if "section_of ''secrets'' d = Some ob" "(k, JStr s) \<in> set ob" "s \<noteq> []"
  proof -
    have "jget ''secrets'' d = Some (JObj ob)" using that(1) by (auto simp: section_of_def split: option.splits json.splits)
    with first [OF that(2,3)] show ?thesis by (simp add: redact_list_def Let_def)
  qed
  moreover have "redact_list (jobj [(''secrets'', jobj [(a, jobj [(i, JStr t)])])]) = []" if "\<not> looks_secret a i"
    using that by (simp add: redact_list_def jobj_def)
  ultimately show ?thesis using one_level_down by blast
qed


theorem redaction_is_shallow_witness:
  "''hunter2'' \<in> set (redact_list mail_config) \<and>
   redact_list (jobj [(''secrets'', jobj [(''mail'', jobj [(''key'', JStr ''hunter2'')])])]) = []"
proof -
  have first: "section_of ''secrets'' mail_config = Some [(''smtp'', JStr ''hunter2'')]" by code_simp
  have second: "\<not> looks_secret ''mail'' ''key''" by code_simp
  show ?thesis
    using redaction_is_shallow [of mail_config "[(''smtp'', JStr ''hunter2'')]" "''smtp''" "''hunter2''" "''mail''" "''key''" "\<lambda>_. None" "''hunter2''"]
      first second by simp
qed

end
