(* ===== verification/Sapo_Observe.thy ===== *)
theory Sapo_Observe
  imports Sapo_Value Sapo_Time
begin

text \<open>
  Logging, metrics and traces (\<open>src/src/observability/Logger.cpp\<close>, \<open>Metrics.cpp\<close> and their headers): the level filter,
  the redaction of secrets, the sinks and the lines they write; counters, gauges and bounded samples with their
  percentiles and the two exports; the ring of completed spans.  The document printer \<open>dump\<close> and the clock are
  parameters; mutexes are left out, an operation is the section they protect.
\<close>

section \<open>Log records\<close>

datatype log_level = LTrace | LDebug | LInfo | LWarn | LError | LOff

fun level_rank :: "log_level \<Rightarrow> nat" where
  "level_rank LTrace = 0" | "level_rank LDebug = 1" | "level_rank LInfo = 2" | "level_rank LWarn = 3"
| "level_rank LError = 4" | "level_rank LOff = 5"

fun level_name :: "log_level \<Rightarrow> string" where
  "level_name LTrace = ''trace''" | "level_name LDebug = ''debug''" | "level_name LInfo = ''info''"
| "level_name LWarn = ''warn''" | "level_name LError = ''error''" | "level_name LOff = ''off''"

definition level_at_least :: "log_level \<Rightarrow> log_level \<Rightarrow> bool" where
  "level_at_least configured message \<longleftrightarrow> level_rank configured \<le> level_rank message \<and> configured \<noteq> LOff"

record log_record =
  lr_level :: log_level
  lr_component :: string
  lr_message :: string
  lr_execution :: string
  lr_node :: string
  lr_fields :: json
  lr_timestamp :: int

section \<open>Redaction\<close>

definition redact_mask :: string where
  "redact_mask = ''***REDACTED***''"

text \<open>The find-and-replace loop of \<open>redact\<close>: it goes on behind the mask it has written.  A secret is never empty.\<close>

function mask_out :: "string \<Rightarrow> string \<Rightarrow> string" where
  "mask_out x t =
     (if x \<noteq> [] \<and> starts_with x t then redact_mask @ mask_out x (drop (length x) t)
      else case t of [] \<Rightarrow> [] | c # r \<Rightarrow> c # mask_out x r)"
  by pat_completeness auto
termination
  by (relation "measure (\<lambda>(x, t). length t)") (auto simp: starts_with_iff)

declare mask_out.simps [simp del]

definition redact :: "string list \<Rightarrow> string \<Rightarrow> string" where
  "redact secrets t = foldl (\<lambda>out x. mask_out x out) t secrets"

definition redact_fields :: "string list \<Rightarrow> json \<Rightarrow> json" where
  "redact_fields secrets v =
     (case v of
        JObj ob \<Rightarrow> jobj (map (\<lambda>(k, w). (k, case w of JStr t \<Rightarrow> JStr (redact secrets t) | _ \<Rightarrow> w)) ob)
      | _ \<Rightarrow> JObj [])"

section \<open>Sinks\<close>

definition iso_instant :: "int \<Rightarrow> string" where
  "iso_instant ms =
     (let b = gmtime (trunc_div ms 1000); f = int_str (ms - trunc_div ms 1000 * 1000);
          two = (\<lambda>n. pad2 (nat n))
      in int_str (bd_year b) @ ''-'' @ two (bd_month b) @ ''-'' @ two (bd_day b) @ ''T'' @ two (bd_hour b) @ '':'' @
         two (bd_minute b) @ '':'' @ two (bd_second b) @ ''.'' @ replicate (3 - length f) CHR ''0'' @ f @ ''Z'')"

datatype sink = ConsoleSink string string | LineSink string | MemorySink "log_record list"

definition has_fields :: "log_record \<Rightarrow> bool" where
  "has_fields r \<longleftrightarrow> is_object (lr_fields r) \<and> \<not> jempty (lr_fields r)"

definition console_line :: "(json \<Rightarrow> string) \<Rightarrow> log_record \<Rightarrow> string" where
  "console_line dump r =
     ''[sapo]['' @ level_name (lr_level r) @ '']'' @
     (if lr_component r = [] then [] else ''['' @ lr_component r @ '']'') @ '' '' @ lr_message r @
     (if has_fields r then ''  '' @ dump (lr_fields r) else []) @ [CHR 0x0A]"

definition line_document :: "log_record \<Rightarrow> json" where
  "line_document r =
     jobj ([(''ts'', JStr (iso_instant (lr_timestamp r))), (''level'', JStr (level_name (lr_level r)))] @
           (if lr_component r = [] then [] else [(''component'', JStr (lr_component r))]) @
           [(''msg'', JStr (lr_message r))] @
           (if lr_execution r = [] then [] else [(''execution_id'', JStr (lr_execution r))]) @
           (if lr_node r = [] then [] else [(''node_id'', JStr (lr_node r))]) @
           (if has_fields r then [(''fields'', lr_fields r)] else []))"

fun sink_write :: "(json \<Rightarrow> string) \<Rightarrow> log_record \<Rightarrow> sink \<Rightarrow> sink" where
  "sink_write dump r (ConsoleSink out err) =
     (if level_rank LWarn \<le> level_rank (lr_level r) then ConsoleSink out (err @ console_line dump r)
      else ConsoleSink (out @ console_line dump r) err)"
| "sink_write dump r (LineSink t) = LineSink (t @ dump (line_document r) @ [CHR 0x0A])"
| "sink_write dump r (MemorySink rs) = MemorySink (rs @ [r])"

definition memory_contains :: "string \<Rightarrow> log_record list \<Rightarrow> bool" where
  "memory_contains needle rs \<longleftrightarrow> list_ex (\<lambda>r. find_sub needle (lr_message r) \<noteq> None) rs"

section \<open>The logger\<close>

record logger =
  lg_level :: log_level
  lg_sinks :: "sink list"
  lg_secrets :: "string list"
  lg_fallback :: sink

definition new_logger :: logger where
  "new_logger = \<lparr>lg_level = LInfo, lg_sinks = [], lg_secrets = [], lg_fallback = ConsoleSink [] []\<rparr>"

definition set_level :: "log_level \<Rightarrow> logger \<Rightarrow> logger" where
  "set_level l g = g\<lparr>lg_level := l\<rparr>"

definition add_sink :: "sink option \<Rightarrow> logger \<Rightarrow> logger" where
  "add_sink k g = (case k of None \<Rightarrow> g | Some x \<Rightarrow> g\<lparr>lg_sinks := lg_sinks g @ [x]\<rparr>)"

definition clear_sinks :: "logger \<Rightarrow> logger" where
  "clear_sinks g = g\<lparr>lg_sinks := []\<rparr>"

definition add_secret :: "string \<Rightarrow> logger \<Rightarrow> logger" where
  "add_secret x g = (if length x < 3 then g else g\<lparr>lg_secrets := lg_secrets g @ [x]\<rparr>)"

definition clear_secrets :: "logger \<Rightarrow> logger" where
  "clear_secrets g = g\<lparr>lg_secrets := []\<rparr>"

definition with_component :: "string \<Rightarrow> logger \<Rightarrow> logger" where
  "with_component c g = g"

definition log_line :: "int \<Rightarrow> logger \<Rightarrow> log_level \<Rightarrow> string \<Rightarrow> string \<Rightarrow> json \<Rightarrow> string \<Rightarrow> string \<Rightarrow> log_record" where
  "log_line now g l component message extra execution node =
     \<lparr>lr_level = l, lr_component = component, lr_message = redact (lg_secrets g) message, lr_execution = execution,
      lr_node = node, lr_fields = redact_fields (lg_secrets g) extra, lr_timestamp = now\<rparr>"

definition log_message ::
  "(json \<Rightarrow> string) \<Rightarrow> int \<Rightarrow> log_level \<Rightarrow> string \<Rightarrow> string \<Rightarrow> json \<Rightarrow> string \<Rightarrow> string \<Rightarrow> logger \<Rightarrow> logger" where
  "log_message dump now l component message extra execution node g =
     (if \<not> level_at_least (lg_level g) l then g
      else let r = log_line now g l component message extra execution node
           in if lg_sinks g = [] then g\<lparr>lg_fallback := sink_write dump r (lg_fallback g)\<rparr>
              else g\<lparr>lg_sinks := map (sink_write dump r) (lg_sinks g)\<rparr>)"

section \<open>Metrics\<close>

record metrics =
  mt_counters :: "(string \<times> dbl) list"
  mt_gauges :: "(string \<times> dbl) list"
  mt_samples :: "(string \<times> dbl list) list"

definition new_metrics :: metrics where
  "new_metrics = \<lparr>mt_counters = [], mt_gauges = [], mt_samples = []\<rparr>"

definition reading_of :: "(string \<times> dbl) list \<Rightarrow> string \<Rightarrow> dbl" where
  "reading_of xs k = (case map_of xs k of Some v \<Rightarrow> v | None \<Rightarrow> DFin 0)"

definition increment :: "string \<Rightarrow> dbl \<Rightarrow> metrics \<Rightarrow> metrics" where
  "increment k d m = m\<lparr>mt_counters := obj_set k (dbl_add (reading_of (mt_counters m) k) d) (mt_counters m)\<rparr>"

definition set_gauge :: "string \<Rightarrow> dbl \<Rightarrow> metrics \<Rightarrow> metrics" where
  "set_gauge k v m = m\<lparr>mt_gauges := obj_set k v (mt_gauges m)\<rparr>"

definition max_samples :: nat where
  "max_samples = 4096"

definition samples_of :: "string \<Rightarrow> metrics \<Rightarrow> dbl list" where
  "samples_of k m = (case map_of (mt_samples m) k of Some xs \<Rightarrow> xs | None \<Rightarrow> [])"

definition add_sample :: "dbl \<Rightarrow> dbl list \<Rightarrow> dbl list" where
  "add_sample v xs =
     (let ys = xs @ [v] in if max_samples < length ys then drop (length ys div 2) ys else ys)"

definition observe_value :: "string \<Rightarrow> dbl \<Rightarrow> metrics \<Rightarrow> metrics" where
  "observe_value k v m =
     increment (k @ ''.sum'') v (increment (k @ ''.count'') (DFin 1)
       (m\<lparr>mt_samples := obj_set k (add_sample v (samples_of k m)) (mt_samples m)\<rparr>))"

definition counter :: "metrics \<Rightarrow> string \<Rightarrow> dbl" where
  "counter m k = reading_of (mt_counters m) k"

definition gauge :: "metrics \<Rightarrow> string \<Rightarrow> dbl" where
  "gauge m k = reading_of (mt_gauges m) k"

text \<open>\<open>std::sort\<close> of doubles.\<close>

fun put_in_order :: "dbl \<Rightarrow> dbl list \<Rightarrow> dbl list" where
  "put_in_order x [] = [x]"
| "put_in_order x (y # ys) = (if dbl_lt y x then y # put_in_order x ys else x # y # ys)"

definition in_order :: "dbl list \<Rightarrow> dbl list" where
  "in_order xs = foldr put_in_order xs []"

definition percentile :: "dbl \<Rightarrow> dbl list \<Rightarrow> dbl" where
  "percentile p xs =
     (let i = nat (dbl_trunc (dbl_add (dbl_mul p (DFin (of_nat (length xs - 1)))) (DFin (1 / 2))))
      in xs ! min i (length xs - 1))"

record summary =
  su_count :: nat
  su_total :: dbl
  su_p50 :: dbl
  su_p99 :: dbl
  su_max :: dbl

definition summarize :: "dbl list \<Rightarrow> summary" where
  "summarize raw =
     (if raw = [] then \<lparr>su_count = 0, su_total = DFin 0, su_p50 = DFin 0, su_p99 = DFin 0, su_max = DFin 0\<rparr>
      else let xs = in_order raw
           in \<lparr>su_count = length xs, su_total = foldl dbl_add (DFin 0) xs, su_p50 = percentile (DFin (1 / 2)) xs,
               su_p99 = percentile (round_dbl (99 / 100)) xs, su_max = last xs\<rparr>)"

definition summary_json :: "summary \<Rightarrow> json" where
  "summary_json s =
     jobj [(''count'', JInt (int (su_count s))), (''total_ms'', JFloat (su_total s)), (''p50_ms'', JFloat (su_p50 s)),
           (''p99_ms'', JFloat (su_p99 s)), (''max_ms'', JFloat (su_max s))]"

definition summary_of :: "metrics \<Rightarrow> string \<Rightarrow> summary" where
  "summary_of m k = summarize (samples_of k m)"

definition numbers_json :: "(string \<times> dbl) list \<Rightarrow> json" where
  "numbers_json xs = jobj (map (\<lambda>(k, v). (k, JFloat v)) xs)"

definition metrics_json :: "metrics \<Rightarrow> json" where
  "metrics_json m =
     jobj [(''counters'', numbers_json (mt_counters m)), (''gauges'', numbers_json (mt_gauges m)),
           (''histograms'', jobj (map (\<lambda>(k, xs). (k, summary_json (summarize xs))) (mt_samples m)))]"

definition metric_name :: "string \<Rightarrow> string" where
  "metric_name s = map (\<lambda>c. if is_alnum c \<or> c = CHR ''_'' \<or> c = CHR '':'' then c else CHR ''_'') s"

definition number_lines :: "(json \<Rightarrow> string) \<Rightarrow> string \<Rightarrow> json \<Rightarrow> string" where
  "number_lines dump kind v =
     concat (map (\<lambda>(k, x). ''# TYPE '' @ metric_name k @ '' '' @ kind @ [CHR 0x0A] @ metric_name k @ '' '' @ dump x @ [CHR 0x0A])
       (jentries v))"

definition summary_lines :: "(json \<Rightarrow> string) \<Rightarrow> json \<Rightarrow> string" where
  "summary_lines dump v =
     concat (map (\<lambda>(k, x).
         let n = metric_name k; part = (\<lambda>f. dump (jvalue f JNull x) @ [CHR 0x0A]); q = [CHR 0x22]
         in ''# TYPE '' @ n @ '' summary'' @ [CHR 0x0A] @
            n @ ''{quantile='' @ q @ ''0.5'' @ q @ ''} '' @ part ''p50_ms'' @
            n @ ''{quantile='' @ q @ ''0.99'' @ q @ ''} '' @ part ''p99_ms'' @
            n @ ''_count '' @ part ''count'' @ n @ ''_sum '' @ part ''total_ms'') (jentries v))"

definition prometheus_text :: "(json \<Rightarrow> string) \<Rightarrow> metrics \<Rightarrow> string" where
  "prometheus_text dump m =
     (let j = metrics_json m
      in number_lines dump ''counter'' (jvalue ''counters'' JNull j) @
         number_lines dump ''gauge'' (jvalue ''gauges'' JNull j) @
         summary_lines dump (jvalue ''histograms'' JNull j))"

section \<open>Traces\<close>

record trace_span =
  sp_execution :: string
  sp_node :: string
  sp_type :: string
  sp_outcome :: string
  sp_error_code :: string
  sp_error_message :: string
  sp_start :: int
  sp_end :: int
  sp_duration :: int
  sp_depth :: nat

record recorder =
  tr_logger :: "logger option"
  tr_capacity :: nat
  tr_open :: "trace_span list"
  tr_completed :: "trace_span list"

definition new_recorder :: "logger option \<Rightarrow> nat \<Rightarrow> recorder" where
  "new_recorder g n = \<lparr>tr_logger = g, tr_capacity = n, tr_open = [], tr_completed = []\<rparr>"

definition span_begin :: "trace_span \<Rightarrow> recorder \<Rightarrow> recorder" where
  "span_begin s t = t\<lparr>tr_open := tr_open t @ [s]\<rparr>"

text \<open>The last open span of a node and the others.\<close>

fun take_last :: "('a \<Rightarrow> bool) \<Rightarrow> 'a list \<Rightarrow> ('a \<times> 'a list) option" where
  "take_last p [] = None"
| "take_last p (x # xs) =
     (case take_last p xs of
        Some (y, ys) \<Rightarrow> Some (y, x # ys)
      | None \<Rightarrow> (if p x then Some (x, xs) else None))"

definition text_or_null :: "string \<Rightarrow> json" where
  "text_or_null t = (if t = [] then JNull else JStr t)"

definition span_fields :: "trace_span \<Rightarrow> json" where
  "span_fields s =
     jobj [(''node'', JStr (sp_node s)), (''type'', JStr (sp_type s)), (''outcome'', JStr (sp_outcome s)),
           (''duration_ms'', JInt (sp_duration s)), (''depth'', JInt (int (sp_depth s))),
           (''error_code'', text_or_null (sp_error_code s)), (''error'', text_or_null (sp_error_message s))]"

definition retain :: "nat \<Rightarrow> trace_span list \<Rightarrow> trace_span list" where
  "retain n ss = (if n < length ss then drop (n div 2) ss else ss)"

definition span_end ::
  "(json \<Rightarrow> string) \<Rightarrow> int \<Rightarrow> string \<Rightarrow> string \<Rightarrow> string \<Rightarrow> string \<Rightarrow> string \<Rightarrow> recorder \<Rightarrow> recorder" where
  "span_end dump now execution node outcome code message t =
     (case take_last (\<lambda>s. sp_execution s = execution \<and> sp_node s = node) (tr_open t) of
        None \<Rightarrow> t
      | Some (s, rest) \<Rightarrow>
          (let s' = s\<lparr>sp_outcome := outcome, sp_error_code := code, sp_error_message := message\<rparr>
           in case tr_logger t of
             None \<Rightarrow> t\<lparr>tr_open := rest, tr_completed := retain (tr_capacity t) (tr_completed t @ [s])\<rparr>
           | Some g \<Rightarrow>
               t\<lparr>tr_open := rest,
                 tr_logger := Some (log_message dump now LTrace ''trace'' (''node:'' @ sp_type s') (span_fields s') execution node g),
                 tr_completed := retain (tr_capacity t) (tr_completed t @ [s'])\<rparr>))"

definition spans_for :: "string \<Rightarrow> recorder \<Rightarrow> trace_span list" where
  "spans_for execution t = filter (\<lambda>s. sp_execution s = execution) (tr_completed t)"

definition clear_spans :: "recorder \<Rightarrow> recorder" where
  "clear_spans t = t\<lparr>tr_open := [], tr_completed := []\<rparr>"

section \<open>Redaction hides\<close>

definition occurs :: "string \<Rightarrow> string \<Rightarrow> bool" where
  "occurs x t \<longleftrightarrow> (\<exists>p q. t = p @ x @ q)"

lemma find_sub_occurs: "find_sub x t = None \<longleftrightarrow> \<not> occurs x t"
proof (induction t)
  case Nil
  show ?case by (subst find_sub.simps) (auto simp: occurs_def starts_with_iff)
next
  case (Cons c r)
  have "occurs x (c # r) \<longleftrightarrow> starts_with x (c # r) \<or> occurs x r"
    unfolding occurs_def starts_with_iff by (metis append_Cons append_Nil append_eq_Cons_conv)
  then show ?case using Cons.IH by (subst find_sub.simps) auto
qed

lemma occurs_Cons: "occurs x (c # r) \<longleftrightarrow> starts_with x (c # r) \<or> occurs x r"
  unfolding occurs_def starts_with_iff by (metis append_Cons append_Nil append_eq_Cons_conv)

lemma mask_out_Nil [simp]: "mask_out x [] = []"
  by (simp add: mask_out.simps [of x "[]"] starts_with_iff)

text \<open>A text without the letter \<open>c\<close> lies on one side of it.\<close>

lemma occurs_beside:
  assumes "c \<notin> set x" and "x \<noteq> []" and "occurs x (u @ c # v)"
  shows "occurs x u \<or> occurs x v"
  using assms(3)
proof (induction u)
  case Nil
  then show ?case using assms(1,2) by (auto simp: occurs_Cons starts_with_iff append_eq_Cons_conv Cons_eq_append_conv)
next
  case (Cons d u)
  have "starts_with x (d # u)" if pre: "starts_with x (d # u @ c # v)"
  proof -
    obtain q where q: "(d # u) @ c # v = x @ q" using pre by (auto simp: starts_with_iff)
    from append_eq_append_conv2 [THEN iffD1, OF q] obtain us
      where "d # u = x @ us \<and> us @ c # v = q \<or> (d # u) @ us = x \<and> c # v = us @ q" by blast
    then show ?thesis
    proof
      assume "(d # u) @ us = x \<and> c # v = us @ q"
      with assms(1) show ?thesis by (cases us) (auto simp: starts_with_iff)
    qed (auto simp: starts_with_iff)
  qed
  with Cons show ?case by (auto simp: occurs_Cons)
qed

lemma starts_masked:
  "CHR ''*'' \<notin> set y \<Longrightarrow> starts_with y (mask_out x t) \<Longrightarrow> starts_with y t"
proof (induction x t arbitrary: y rule: mask_out.induct)
  case (1 x t)
  show ?case
  proof (cases "x \<noteq> [] \<and> starts_with x t")
    case True
    with "1.prems" have "y = []"
      by (cases y) (auto simp: mask_out.simps [of x t] mask_out.simps [of x "c # r"] redact_mask_def starts_with_iff)
    then show ?thesis by (simp add: starts_with_iff)
  next
    case False
    show ?thesis
    proof (cases t)
      case Nil
      then show ?thesis using "1.prems" False by (simp add: mask_out.simps [of x t] mask_out.simps [of x "c # r"])
    next
      case (Cons c r)
      show ?thesis
      proof (cases y)
        case (Cons d y')
        with "1.prems" False \<open>t = c # r\<close> have "d = c" "starts_with y' (mask_out x r)" "CHR ''*'' \<notin> set y'"
          by (auto simp: mask_out.simps [of x t] mask_out.simps [of x "c # r"] starts_with_iff)
        with "1.IH"(2) [OF False \<open>t = c # r\<close>] Cons \<open>t = c # r\<close> show ?thesis by (auto simp: starts_with_iff)
      qed (simp add: starts_with_iff)
    qed
  qed
qed

definition hideable :: "string \<Rightarrow> bool" where
  "hideable y \<longleftrightarrow> y \<noteq> [] \<and> CHR ''*'' \<notin> set y \<and> \<not> occurs y ''REDACTED''"

lemma occurs_mask:
  assumes "hideable y" and "occurs y (redact_mask @ r)"
  shows "occurs y r"
proof -
  have star: "CHR ''*'' \<notin> set y" "y \<noteq> []" using assms(1) by (auto simp: hideable_def)
  note beside = occurs_beside [OF star]
  have no: "\<not> occurs y []" using star by (auto simp: occurs_def)
  have "occurs y ([] @ CHR ''*'' # [] @ CHR ''*'' # [] @ CHR ''*'' # ''REDACTED'' @ CHR ''*'' # [] @ CHR ''*'' # [] @ CHR ''*'' # r)"
    using assms(2) by (simp add: redact_mask_def)
  then have "occurs y (''REDACTED'' @ CHR ''*'' # [] @ CHR ''*'' # [] @ CHR ''*'' # r)"
    using no by (blast dest: beside)
  moreover have "\<not> occurs y ''REDACTED''" using assms(1) by (simp add: hideable_def)
  ultimately have "occurs y ([] @ CHR ''*'' # [] @ CHR ''*'' # r)" by (blast dest: beside)
  then show ?thesis using no by (blast dest: beside)
qed

lemma mask_out_adds_nothing: "hideable y \<Longrightarrow> occurs y (mask_out x t) \<Longrightarrow> occurs y t"
proof (induction x t rule: mask_out.induct)
  case (1 x t)
  show ?case
  proof (cases "x \<noteq> [] \<and> starts_with x t")
    case True
    then have "occurs y (mask_out x (drop (length x) t))"
      using "1.prems" by (simp add: mask_out.simps [of x t] mask_out.simps [of x "c # r"] occurs_mask)
    then have "occurs y (drop (length x) t)" by (rule "1.IH"(1) [OF True "1.prems"(1)])
    then show ?thesis unfolding occurs_def by (metis append.assoc append_take_drop_id)
  next
    case False
    show ?thesis
    proof (cases t)
      case Nil
      then show ?thesis using "1.prems" False by (simp add: mask_out.simps [of x t] mask_out.simps [of x "c # r"])
    next
      case (Cons c r)
      have "mask_out x t = c # mask_out x r"
        using False Cons by (auto simp: mask_out.simps [of x "c # r"])
      with "1.prems"(2) have "starts_with y (c # mask_out x r) \<or> occurs y (mask_out x r)" by (simp add: occurs_Cons)
      moreover have "starts_with y t" if "starts_with y (c # mask_out x r)"
        by (rule starts_masked [of y x]) (use "1.prems"(1) that False Cons in \<open>auto simp: hideable_def mask_out.simps [of x t] mask_out.simps [of x "c # r"]\<close>)
      moreover have "occurs y r" if "occurs y (mask_out x r)" by (rule "1.IH"(2) [OF False Cons "1.prems"(1) that])
      ultimately show ?thesis using Cons by (auto simp: occurs_Cons)
    qed
  qed
qed

lemma mask_out_removes: "hideable x \<Longrightarrow> \<not> occurs x (mask_out x t)"
proof (induction x t rule: mask_out.induct)
  case (1 x t)
  show ?case
  proof (cases "x \<noteq> [] \<and> starts_with x t")
    case True
    with "1.IH"(1) [OF True "1.prems"] "1.prems" show ?thesis
      by (auto simp: mask_out.simps [of x t] mask_out.simps [of x "c # r"] dest: occurs_mask)
  next
    case False
    show ?thesis
    proof (cases t)
      case Nil
      then show ?thesis using "1.prems" False by (auto simp: mask_out.simps [of x t] mask_out.simps [of x "c # r"] occurs_def hideable_def)
    next
      case (Cons c r)
      have "\<not> starts_with x (mask_out x t)"
        using starts_masked [of x x t] False "1.prems" by (auto simp: hideable_def)
      then show ?thesis using "1.IH"(2) [OF False Cons "1.prems"] Cons False
        by (auto simp: mask_out.simps [of x t] mask_out.simps [of x "c # r"] occurs_Cons)
    qed
  qed
qed

lemma redact_adds_nothing: "hideable y \<Longrightarrow> occurs y (redact xs t) \<Longrightarrow> occurs y t"
  unfolding redact_def by (induction xs arbitrary: t) (auto dest: mask_out_adds_nothing)

lemma redact_removes: "\<forall>x \<in> set xs. hideable x \<Longrightarrow> y \<in> set xs \<Longrightarrow> \<not> occurs y (redact xs t)"
proof (induction xs arbitrary: t)
  case (Cons x xs)
  show ?case
  proof (cases "y = x")
    case True
    have "\<not> occurs y (redact xs (mask_out x t))"
      using redact_adds_nothing [of y xs] mask_out_removes [of x t] Cons.prems True by auto
    then show ?thesis by (simp add: redact_def)
  next
    case False
    with Cons have "\<not> occurs y (redact xs (mask_out x t))" by simp
    then show ?thesis by (simp add: redact_def)
  qed
qed simp

section \<open>Properties\<close>

text \<open>
  C19: A logged message shows no secret: whatever secrets are registered, in whatever order and however they overlap, none
  of them occurs in the message of a record, as long as they hold no star and are no part of the mask's own word; the
  same is true of every text member of the record's fields.
\<close>

theorem logged_messages_hide_secrets:
  assumes "\<forall>y \<in> set (lg_secrets g). hideable y" and "x \<in> set (lg_secrets g)"
  shows "find_sub x (lr_message (log_line now g l component message extra execution node)) = None \<and>
         (jget k (lr_fields (log_line now g l component message extra execution node)) = Some (JStr t) \<longrightarrow> find_sub x t = None)"
proof -
  note hidden = redact_removes [OF assms]
  have "\<not> occurs x t" if "jget k (redact_fields (lg_secrets g) extra) = Some (JStr t)"
  proof (cases extra)
    case (JObj ob)
    with that have "map_of (rev (map (\<lambda>(k, w). (k, case w of JStr t \<Rightarrow> JStr (redact (lg_secrets g) t) | _ \<Rightarrow> w)) ob)) k = Some (JStr t)"
      by (simp add: redact_fields_def jget_jobj)
    then obtain w where "JStr t = (case w of JStr t \<Rightarrow> JStr (redact (lg_secrets g) t) | _ \<Rightarrow> w)"
      by (auto dest!: map_of_SomeD)
    then show ?thesis using hidden by (cases w) auto
  qed (use that in \<open>simp_all add: redact_fields_def\<close>)
  then show ?thesis using hidden by (simp add: log_line_def find_sub_occurs)
qed

theorem logged_messages_hide_secrets_witness:
  "find_sub ''hunter2'' (lr_message (log_line 0 (new_logger\<lparr>lg_secrets := [''hunter'', ''hunter2'']\<rparr>) LInfo ''vm''
     ''login with hunter2'' (JObj []) [] [])) = None"
proof -
  have "\<not> occurs ''hunter'' ''REDACTED''" "\<not> occurs ''hunter2'' ''REDACTED''"
    unfolding find_sub_occurs [symmetric] by code_simp+
  then have "\<forall>y \<in> set [''hunter'', ''hunter2'']. hideable y" by (simp add: hideable_def)
  with logged_messages_hide_secrets [of "new_logger\<lparr>lg_secrets := [''hunter'', ''hunter2'']\<rparr>" "''hunter2''"]
  show ?thesis by simp
qed

datatype trace_step = Began trace_span | Ended int string string string string string

fun trace_apply :: "(json \<Rightarrow> string) \<Rightarrow> recorder \<Rightarrow> trace_step \<Rightarrow> recorder" where
  "trace_apply dump t (Began s) = span_begin s t"
| "trace_apply dump t (Ended now e n outcome code message) = span_end dump now e n outcome code message t"

lemma retain_bound: "2 \<le> n \<Longrightarrow> length ss \<le> Suc n \<Longrightarrow> length (retain n ss) \<le> n"
  by (auto simp: retain_def)

lemma trace_apply_bound:
  assumes "2 \<le> tr_capacity t" and "length (tr_completed t) \<le> tr_capacity t"
  shows "tr_capacity (trace_apply dump t x) = tr_capacity t \<and> length (tr_completed (trace_apply dump t x)) \<le> tr_capacity t"
  using assms by (cases x) (auto simp: span_begin_def span_end_def Let_def intro!: retain_bound split: option.splits)

text \<open>
  The ring of traces is bounded: with a capacity of two or more, whatever spans begin and end, no more than the
  capacity are kept; with a capacity of one none is ever dropped.
\<close>

theorem trace_ring_is_bounded:
  "(2 \<le> n \<longrightarrow> length (tr_completed (foldl (trace_apply dump) (new_recorder g n) xs)) \<le> n) \<and>
   length (retain 1 ss) = length ss"
proof -
  have "2 \<le> tr_capacity t \<Longrightarrow> length (tr_completed t) \<le> tr_capacity t \<Longrightarrow>
      length (tr_completed (foldl (trace_apply dump) t xs)) \<le> tr_capacity t" for t
  proof (induction xs arbitrary: t)
    case (Cons x xs)
    note now = trace_apply_bound [OF Cons.prems, of dump x]
    from Cons.IH [of "trace_apply dump t x"] now Cons.prems(1) show ?case by simp
  qed simp
  from this [of "new_recorder g n"] show ?thesis by (simp add: new_recorder_def retain_def)
qed

end
