(* ===== verification/Sapo_Loading.thy ===== *)
theory Sapo_Loading
  imports Sapo_WellFormed Sapo_Session
begin

text \<open>
  How blueprints get into the registry (\<open>runtime/WorkflowRegistry.cpp\<close>: \<open>loadJsonText\<close>, \<open>loadFile\<close>,
  \<open>loadDirectory\<close>).  The file system is a parameter: the text of a file, and the regular files of a directory.  The
  text of an exception of the document library is a parameter too (\<open>crash\<close>, from the path that is read).

  The lemmas show that loading keeps the registry well-formed, that a directory's bad files are reported one by one and
  stop no other, and that every good file ends up registered under its stem.
\<close>

section \<open>Paths\<close>

text \<open>\<open>path::filename\<close>, \<open>stem\<close> and \<open>extension\<close>: a dot at the start is part of the stem.\<close>

definition file_name :: "string \<Rightarrow> string" where
  "file_name p = rev (takeWhile (\<lambda>c. c \<noteq> CHR ''/'') (rev p))"

definition last_dot :: "string \<Rightarrow> (string \<times> string) option" where
  "last_dot n =
     (let ext = rev (takeWhile (\<lambda>c. c \<noteq> CHR ''.'') (rev n)); k = length n - length ext
      in if n = ''.'' \<or> n = ''..'' \<or> k \<le> 1 then None else Some (take (k - 1) n, CHR ''.'' # ext))"

definition path_stem :: "string \<Rightarrow> string" where
  "path_stem p = (case last_dot (file_name p) of Some (s, _) \<Rightarrow> s | None \<Rightarrow> file_name p)"

definition path_extension :: "string \<Rightarrow> string" where
  "path_extension p = (case last_dot (file_name p) of Some (_, x) \<Rightarrow> x | None \<Rightarrow> [])"

section \<open>Loading\<close>

text \<open>The handler of \<open>std::exception\<close>: the text of what was thrown, or the value.\<close>

definition attempt :: "string \<Rightarrow> ('a, 's) act \<Rightarrow> (string + 'a, 's) act" where
  "attempt crash m =
     (\<lambda>s. case m s of
        (Val x, t) \<Rightarrow> (Val (Inr x), t)
      | (Thr e, t) \<Rightarrow> (Val (Inl (se_message e)), t)
      | (Crash, t) \<Rightarrow> (Val (Inl crash), t)
      | (Deep, t) \<Rightarrow> (Deep, t))"

text \<open>What loading reads of the world around it.\<close>

record loader =
  ld_read :: "string \<Rightarrow> string option"
  ld_listing :: "string \<Rightarrow> string list option"
  ld_parse :: "string \<Rightarrow> string + json"
  ld_crash :: "string \<Rightarrow> string"
  ld_options :: parse_options

definition load_text :: "loader \<Rightarrow> int \<Rightarrow> string \<Rightarrow> string \<Rightarrow> string \<Rightarrow> (string, registry) act" where
  "load_text ld now t i origin =
     (\<lambda>rg. case parse_workflow (ld_parse ld) (ld_options ld) t of
        Val w \<Rightarrow> (case registry_add now w i origin rg of (rg', i') \<Rightarrow> (Val i', rg'))
      | Thr e \<Rightarrow> (Thr e, rg) | Crash \<Rightarrow> (Crash, rg) | Deep \<Rightarrow> (Deep, rg))"

definition load_file :: "loader \<Rightarrow> int \<Rightarrow> string \<Rightarrow> (string, registry) act" where
  "load_file ld now path =
     (case ld_read ld path of
        None \<Rightarrow> raises (sapo_error Parse (''cannot read blueprint '' @ quoted path) JNull [])
      | Some t \<Rightarrow> load_text ld now t (path_stem path) path)"

fun load_files :: "loader \<Rightarrow> int \<Rightarrow> string list \<Rightarrow> (nat \<times> string list, registry) act" where
  "load_files ld now [] = yields (0, [])"
| "load_files ld now (f # fs) =
     andthen (attempt (ld_crash ld f) (load_file ld now f)) (\<lambda>r.
     andthen (load_files ld now fs) (\<lambda>(n, ps).
       yields (case r of Inl what \<Rightarrow> (n, (f @ '': '' @ what) # ps) | Inr _ \<Rightarrow> (Suc n, ps))))"

definition blueprint_files :: "string list \<Rightarrow> string list" where
  "blueprint_files fs = sort (filter (\<lambda>f. path_extension f = ''.json'') fs)"

definition load_directory :: "loader \<Rightarrow> int \<Rightarrow> string \<Rightarrow> (nat \<times> string list, registry) act" where
  "load_directory ld now d =
     (case ld_listing ld d of
        None \<Rightarrow> yields (0, [quoted d @ '' is not a directory''])
      | Some fs \<Rightarrow> load_files ld now (blueprint_files fs))"

section \<open>What loading does\<close>

text \<open>The workflow a file holds, when it holds one.\<close>

definition readable_blueprint :: "loader \<Rightarrow> string \<Rightarrow> workflow option" where
  "readable_blueprint ld f =
     (case ld_read ld f of
        Some t \<Rightarrow> (case parse_workflow (ld_parse ld) (ld_options ld) t of Val w \<Rightarrow> Some w | _ \<Rightarrow> None) | None \<Rightarrow> None)"

lemma load_file_result:
  "load_file ld now f rg =
     (case readable_blueprint ld f of
        Some w \<Rightarrow> (Val (snd (registry_add now w (path_stem f) f rg)), fst (registry_add now w (path_stem f) f rg))
      | None \<Rightarrow> (fst (load_file ld now f rg), rg))"
  by (auto simp: load_file_def load_text_def readable_blueprint_def raises_def split: option.splits ev.splits prod.splits)

lemma load_file_refused:
  "readable_blueprint ld f = None \<Longrightarrow> \<forall>x. fst (load_file ld now f rg) \<noteq> Val x"
  by (auto simp: load_file_def load_text_def readable_blueprint_def raises_def split: option.splits ev.splits prod.splits)

lemma load_file_wf: "registry_wf rg \<Longrightarrow> registry_wf (snd (load_file ld now f rg))"
  by (subst load_file_result) (auto simp: registry_add_wf split: option.split)

text \<open>A file that loads is registered under its stem; one that does not changes nothing and is reported.\<close>

lemma attempt_load_file:
  "attempt crash (load_file ld now f) rg =
     (case readable_blueprint ld f of
        Some w \<Rightarrow> (Val (Inr (snd (registry_add now w (path_stem f) f rg))), fst (registry_add now w (path_stem f) f rg))
      | None \<Rightarrow> (Val (Inl (case fst (load_file ld now f rg) of Thr e \<Rightarrow> se_message e | _ \<Rightarrow> crash)), rg))"
proof (cases "readable_blueprint ld f")
  case None
  obtain x where x: "load_file ld now f rg = (x, rg)"
    using load_file_result [of ld now f rg] None by simp
  have "fst (load_file ld now f rg) \<noteq> Deep"
    by (auto simp: load_file_def load_text_def raises_def parse_workflow_ends split: option.splits ev.splits prod.splits)
  with None load_file_refused [OF None, of now rg] show ?thesis
    unfolding attempt_def x by (cases x) simp_all
next
  case (Some w)
  then have "load_file ld now f rg =
    (Val (snd (registry_add now w (path_stem f) f rg)), fst (registry_add now w (path_stem f) f rg))"
    using load_file_result [of ld now f rg] by simp
  with Some show ?thesis by (simp add: attempt_def)
qed

lemma json_extension_stem: "path_extension f = ''.json'' \<Longrightarrow> path_stem f \<noteq> []"
  by (auto simp: path_extension_def path_stem_def last_dot_def Let_def split: option.splits if_splits prod.splits)

lemma registry_add_named: "i \<noteq> [] \<Longrightarrow> snd (registry_add now w i origin rg) = i"
  by (simp add: registry_add_def Let_def)

definition renamed :: "string \<Rightarrow> workflow \<Rightarrow> workflow" where
  "renamed i w = w\<lparr>wf_metadata := (wf_metadata w)\<lparr>md_name := i\<rparr>\<rparr>"

lemma registry_find_named:
  "i \<noteq> [] \<Longrightarrow> registry_find k (fst (registry_add now w i origin rg)) = (if k = i then Some (renamed i w) else registry_find k rg)"
  using registry_add_named [of i now w origin rg] by (simp add: registry_find_add Let_def renamed_def)

definition loads_all :: "loader \<Rightarrow> string list \<Rightarrow> registry \<Rightarrow> nat \<times> string list \<Rightarrow> registry \<Rightarrow> bool" where
  "loads_all ld fs rg r rg' \<longleftrightarrow>
     fst r = length (filter (\<lambda>f. readable_blueprint ld f \<noteq> None) fs) \<and> fst r + length (snd r) = length fs \<and>
     (\<forall>f w. f \<in> set fs \<longrightarrow> readable_blueprint ld f = Some w \<longrightarrow>
        registry_find (path_stem f) rg' = Some (renamed (path_stem f) w)) \<and>
     (\<forall>i. i \<notin> path_stem ` set (filter (\<lambda>f. readable_blueprint ld f \<noteq> None) fs) \<longrightarrow> registry_find i rg' = registry_find i rg)"

lemma load_files_all:
  assumes "distinct (map path_stem fs)" and "\<forall>f \<in> set fs. path_stem f \<noteq> []"
  shows "\<exists>r rg'. load_files ld now fs rg = (Val r, rg') \<and> loads_all ld fs rg r rg'"
  using assms
proof (induction fs arbitrary: rg)
  case Nil
  show ?case by (auto simp: loads_all_def)
next
  case (Cons f fs)
  have other: "path_stem f \<notin> path_stem ` set fs" and stem: "path_stem f \<noteq> []" using Cons.prems by auto
  let ?rg = "snd (load_file ld now f rg)"
  from Cons obtain r rg' where r: "load_files ld now fs ?rg = (Val r, rg')" "loads_all ld fs ?rg r rg'" by fastforce
  obtain n ps where np: "r = (n, ps)" by (cases r)
  show ?case
  proof (cases "readable_blueprint ld f")
    case None
    then have same: "?rg = rg" by (subst load_file_result) simp
    obtain what where "attempt (ld_crash ld f) (load_file ld now f) rg = (Val (Inl what), rg)"
      by (simp add: attempt_load_file None)
    then have "load_files ld now (f # fs) rg = (Val (n, (f @ '': '' @ what) # ps), rg')"
      using r(1) same np by simp
    then show ?thesis using r(2) None same np by (auto simp: loads_all_def)
  next
    case (Some w)
    let ?new = "fst (registry_add now w (path_stem f) f rg)"
    have new: "?rg = ?new" by (subst load_file_result) (simp add: Some)
    have "load_files ld now (f # fs) rg = (Val (Suc n, ps), rg')"
      using r(1) new np by (simp add: attempt_load_file Some)
    moreover have "loads_all ld (f # fs) rg (Suc n, ps) rg'"
      using r(2) np other Some unfolding loads_all_def new by (auto simp: registry_find_named [OF stem])
    ultimately show ?thesis by blast
  qed
qed

section \<open>Registered blueprints are ready\<close>

text \<open>
  What the interpreter needs of a blueprint follows from what the validator leaves: every reference names a node.  A
  schedule that starts a workflow of its own is exempt from the validator's check of its targets.
\<close>

lemma body_refs_targets: "i \<in> set (body_refs b) \<Longrightarrow> i = [] \<or> i \<in> set (body_targets b)"
  by (cases b) (auto simp: named_all_def)

lemma named_targets: "t = Some i \<Longrightarrow> i = [] \<or> i \<in> set (named t)"
  by (simp add: named_def)

lemma validated_runs_closed:
  assumes "Sapo_Validator.closed_blueprint w" and "wf_index w = map (\<lambda>n. (nd_id n, n)) (wf_nodes w)"
    and "list_all (\<lambda>n. \<not> own_workflow n) (wf_nodes w)"
  shows "Sapo_Progress.closed_blueprint w"
proof -
  have node: "known w i" if "i = [] \<or> i \<in> set (map nd_id (wf_nodes w))" for i
  proof -
    have "map_of (wf_index w) i \<noteq> None" if "i \<in> set (map nd_id (wf_nodes w))"
      using that unfolding assms(2) map_of_eq_None_iff by (simp add: image_comp comp_def)
    with that show ?thesis by (auto simp: known_def find_node_def)
  qed
  have "node_closed w n" if n: "n \<in> set (wf_nodes w)" for n
  proof -
    have out: "set (outgoing_targets n) \<subseteq> set (map nd_id (wf_nodes w))"
      using assms(1,3) n unfolding Sapo_Validator.closed_blueprint_def list_all_iff by blast
    have "known w i" if "i \<in> set (body_refs (nd_body n))" for i
      using body_refs_targets [OF that] out by (intro node) (auto simp: outgoing_targets_def)
    moreover have "known_opt w (nd_next n)" "known_opt w (nd_on_error n)"
      using out named_targets [of "nd_next n"] named_targets [of "nd_on_error n"]
      by (auto simp: known_opt_def outgoing_targets_def split: option.split intro!: node)
    ultimately show ?thesis by (simp add: node_closed_def list_all_iff)
  qed
  then show ?thesis unfolding Sapo_Progress.closed_blueprint_def assms(2) by (auto simp: list_all_iff)
qed

section \<open>Properties\<close>

text \<open>
  A directory's blueprints are loaded one by one: every file that holds a readable blueprint ends up registered under
  its stem, every other one is reported, none stops another, and the entries under other names stay as they were.
\<close>

theorem directory_loads_every_good_file:
  assumes "ld_listing ld d = Some fs" and "distinct (map path_stem (blueprint_files fs))"
  shows "\<exists>n ps rg'. load_directory ld now d rg = (Val (n, ps), rg') \<and>
     n = length (filter (\<lambda>f. readable_blueprint ld f \<noteq> None) (blueprint_files fs)) \<and> n + length ps = length (blueprint_files fs) \<and>
     (\<forall>f w. f \<in> set (blueprint_files fs) \<longrightarrow> readable_blueprint ld f = Some w \<longrightarrow>
        registry_find (path_stem f) rg' = Some (renamed (path_stem f) w)) \<and>
     (\<forall>i. i \<notin> path_stem ` set (filter (\<lambda>f. readable_blueprint ld f \<noteq> None) (blueprint_files fs)) \<longrightarrow>
        registry_find i rg' = registry_find i rg)"
proof -
  have "\<forall>f \<in> set (blueprint_files fs). path_stem f \<noteq> []"
    using json_extension_stem by (simp add: blueprint_files_def)
  from load_files_all [OF assms(2) this] obtain r rg'
    where r: "load_files ld now (blueprint_files fs) rg = (Val r, rg')" "loads_all ld (blueprint_files fs) rg r rg'" by blast
  have "load_directory ld now d rg = (Val (fst r, snd r), rg')" using assms(1) r(1) by (simp add: load_directory_def)
  with r(2) show ?thesis unfolding loads_all_def by blast
qed

text \<open>A directory with the blueprint of an order, a text that is no document, and a file of another kind.\<close>

definition order_loader :: loader where
  "order_loader =
     \<lparr>ld_read = (\<lambda>p. if p = ''d/order.json'' then Some ''order'' else if p = ''d/bad.json'' then Some ''{'' else None),
      ld_listing = (\<lambda>d. Some [''d/order.json'', ''d/notes.txt'', ''d/bad.json'']),
      ld_parse = (\<lambda>t. if t = ''order'' then Inr order_document else Inl ''unexpected end''),
      ld_crash = (\<lambda>_. ''exception''), ld_options = order_options\<rparr>"

lemma order_files: "blueprint_files [''d/order.json'', ''d/notes.txt'', ''d/bad.json''] = [''d/bad.json'', ''d/order.json'']"
  "path_stem ''d/order.json'' = ''order''" "path_stem ''d/bad.json'' = ''bad''"
  by code_simp+

lemma order_readable:
  obtains w where "readable_blueprint order_loader ''d/order.json'' = Some w"
    and "readable_blueprint order_loader ''d/bad.json'' = None"
proof -
  obtain w where "parse_workflow (\<lambda>_. Inr order_document) order_options [] = Val w" by (rule order_value)
  then have "readable_blueprint order_loader ''d/order.json'' = Some w"
    by (simp add: readable_blueprint_def order_loader_def parse_workflow_def)
  moreover have "readable_blueprint order_loader ''d/bad.json'' = None"
    by (simp add: readable_blueprint_def order_loader_def parse_workflow_def)
  ultimately show thesis by (rule that)
qed

theorem directory_loads_every_good_file_witness:
  "\<exists>ps rg'. load_directory order_loader 0 ''d'' empty_registry = (Val (1, ps), rg') \<and> length ps = 1 \<and>
     registry_find ''order'' rg' \<noteq> None \<and> registry_find ''bad'' rg' = None"
proof -
  obtain w where w: "readable_blueprint order_loader ''d/order.json'' = Some w"
    "readable_blueprint order_loader ''d/bad.json'' = None" by (rule order_readable)
  have "ld_listing order_loader ''d'' = Some [''d/order.json'', ''d/notes.txt'', ''d/bad.json'']"
    by (simp add: order_loader_def)
  from directory_loads_every_good_file [OF this, of 0 empty_registry] w show ?thesis
    by (auto simp: order_files) (auto simp: registry_find_def empty_registry_def)
qed

text \<open>
  C8: Blueprints that load can be run: with validation on, every run of a workflow registered from a text returns (it
  finishes, fails or suspends) under every input and whatever its tasks do, unless it has parallel sections (whose branches may start each other again) or a
  schedule of another workflow (whose successors are not checked).
\<close>

theorem loaded_blueprints_run_to_the_end:
  assumes "load_text ld now t i origin rg = (Val k, rg')" and "registry_find k rg' = Some w"
    and "pq_validate (ld_options ld)" and "sequential w" and "list_all (\<lambda>n. \<not> own_workflow n) (wf_nodes w)"
  shows "\<exists>fuel. run_session fuel sv w input opts h \<noteq> None"
proof -
  from assms(1) obtain v where v: "parse_workflow (ld_parse ld) (ld_options ld) t = Val v"
    and k: "k = snd (registry_add now v i origin rg)" and rg: "rg' = fst (registry_add now v i origin rg)"
    by (auto simp: load_text_def split: ev.splits prod.splits)
  have w: "w = renamed k v" using assms(2) unfolding rg k by (simp add: registry_find_add Let_def renamed_def)
  note p = parsed_well [OF v, unfolded well_parsed_def]
  have "Sapo_Validator.closed_blueprint w"
    using p assms(3) by (simp add: w renamed_def Sapo_Validator.closed_blueprint_def)
  moreover have "wf_index w = map (\<lambda>n. (nd_id n, n)) (wf_nodes w)" using p by (simp add: w renamed_def)
  ultimately have "Sapo_Progress.closed_blueprint w" using assms(5) by (rule validated_runs_closed)
  then show ?thesis using assms(4) by (rule run_session_returns)
qed

definition plain_blueprint :: "workflow ev \<Rightarrow> bool" where
  "plain_blueprint r =
     (case r of Val w \<Rightarrow> sequential w \<and> list_all (\<lambda>n. \<not> own_workflow n) (wf_nodes w) | _ \<Rightarrow> False)"

lemma order_is_plain: "plain_blueprint order_blueprint"
  by code_simp

theorem loaded_blueprints_run_to_the_end_witness:
  "\<exists>w fuel. registry_find ''order'' (snd (load_text order_loader 0 ''order'' ''order'' [] empty_registry)) = Some w \<and>
     run_session fuel (plain_services asking_env) w (JObj []) default_options sample_host \<noteq> None"
proof -
  obtain v where v: "order_blueprint = Val v" using order_value unfolding order_blueprint_def by metis
  then have l: "load_text order_loader 0 ''order'' ''order'' [] empty_registry =
      (Val ''order'', fst (registry_add 0 v ''order'' [] empty_registry))"
    by (simp add: load_text_def order_loader_def parse_workflow_def order_blueprint_def registry_add_def Let_def)
  have f: "registry_find ''order'' (fst (registry_add 0 v ''order'' [] empty_registry)) = Some (renamed ''order'' v)"
    by (simp add: registry_find_named)
  have "sequential (renamed ''order'' v)" "list_all (\<lambda>n. \<not> own_workflow n) (wf_nodes (renamed ''order'' v))"
    using order_is_plain unfolding plain_blueprint_def v by (simp_all add: renamed_def sequential_def)
  moreover have "pq_validate (ld_options order_loader)" by (simp add: order_loader_def order_options_def)
  ultimately show ?thesis using loaded_blueprints_run_to_the_end [OF l f] l f by (metis snd_conv)
qed

end
