(* ===== verification/Sapo_Vm.thy ===== *)
theory Sapo_Vm
  imports Sapo_Loading Sapo_Config Sapo_Observe Sapo_RedisStore
begin

text \<open>
  The facade that puts the engine together (\<open>runtime/VirtualMachine.cpp\<close>, \<open>VirtualMachine.hpp\<close>,
  \<open>runtime/TaskServices.cpp\<close>): starting it from a configuration and a directory of blueprints, the startup audit, and
  the operations a caller has on sessions.  The record \<open>machine\<close> is the host of the interpreter's sessions with what
  the facade keeps beside it; \<open>outside\<close> holds the file system, the environment, the libraries, and the parts of the
  services that do not change.  A store opened on a directory or a server starts with the sessions it finds there
  (\<open>os_sessions\<close>); from then on a session works on it as on the store in memory.

  The flag against re-entering \<open>start\<close> is the split between registering (\<open>register_directory\<close>) and the public calls that
  start the machine first.  The interpreter works on the services as the last \<open>start\<close> left them: when a second
  \<open>start\<close> ends in an exception before it builds a new interpreter, the old one keeps its limits (\<open>vm_installed\<close>).
  The background thread of the scheduler and the counters of the worker pool are left out.
\<close>

section \<open>Outcomes and snapshots\<close>

record exec_outcome =
  oc_session_id :: string
  oc_execution_id :: string
  oc_workflow_id :: string
  oc_status :: string
  oc_ok :: bool
  oc_output :: json
  oc_context :: json
  oc_prompt :: json
  oc_error :: string
  oc_error_code :: string
  oc_error_node :: string
  oc_error_data :: json
  oc_cursor :: string
  oc_warnings :: "string list"
  oc_node_visits :: nat
  oc_elapsed_ms :: int

definition new_outcome :: exec_outcome where
  "new_outcome =
     \<lparr>oc_session_id = [], oc_execution_id = [], oc_workflow_id = [], oc_status = [], oc_ok = True, oc_output = JObj [],
      oc_context = JObj [], oc_prompt = JObj [], oc_error = [], oc_error_code = [], oc_error_node = [],
      oc_error_data = JNull, oc_cursor = [], oc_warnings = [], oc_node_visits = 0, oc_elapsed_ms = 0\<rparr>"

definition failed_outcome :: "string \<Rightarrow> string \<Rightarrow> string \<Rightarrow> exec_outcome" where
  "failed_outcome code message node =
     new_outcome\<lparr>oc_status := ''failed'', oc_ok := False, oc_error_code := code, oc_error := message, oc_error_node := node\<rparr>"

definition outcome_from :: "report \<Rightarrow> exec_outcome" where
  "outcome_from r =
     \<lparr>oc_session_id = rp_session_id r, oc_execution_id = rp_execution_id r, oc_workflow_id = rp_blueprint_id r,
      oc_status = rp_status r, oc_ok = rp_succeeded r, oc_output = rp_output r, oc_context = rp_context r,
      oc_prompt = rp_prompt r, oc_error = rp_error_message r, oc_error_code = rp_error_code r,
      oc_error_node = rp_error_node r, oc_error_data = rp_error_data r, oc_cursor = rp_cursor r,
      oc_warnings = rp_warnings r, oc_node_visits = rp_node_visits r, oc_elapsed_ms = rp_elapsed_ms r\<rparr>"

text \<open>A member that is written when it holds something.\<close>

definition set_filled :: "string \<Rightarrow> json \<Rightarrow> json \<Rightarrow> json" where
  "set_filled k v d = (if jempty v then d else jset k v d)"

definition outcome_error :: "exec_outcome \<Rightarrow> json" where
  "outcome_error x =
     set_filled ''data'' (oc_error_data x) (set_text ''node'' (oc_error_node x)
       (jobj [(''code'', JStr (oc_error_code x)), (''message'', JStr (oc_error x))]))"

definition outcome_to_json :: "exec_outcome \<Rightarrow> json" where
  "outcome_to_json x =
     (let d = jobj [(''session_id'', JStr (oc_session_id x)), (''execution_id'', JStr (oc_execution_id x)),
                    (''workflow_id'', JStr (oc_workflow_id x)), (''status'', JStr (oc_status x)), (''ok'', JBool (oc_ok x)),
                    (''node_visits'', JInt (int (oc_node_visits x))), (''elapsed_ms'', JInt (oc_elapsed_ms x))];
          d1 = set_filled ''prompt'' (oc_prompt x) (set_filled ''context'' (oc_context x) (set_filled ''output'' (oc_output x) d));
          d2 = set_text ''cursor'' (oc_cursor x) d1;
          d3 = (if oc_error x = [] then d2 else jset ''error'' (outcome_error x) d2)
      in set_filled ''warnings'' (JArr (map JStr (oc_warnings x))) d3)"

record session_snapshot =
  sn_session_id :: string
  sn_execution_id :: string
  sn_blueprint_id :: string
  sn_status :: string
  sn_cursor :: string
  sn_pending :: json
  sn_context :: json
  sn_result :: json
  sn_created_ms :: int
  sn_updated_ms :: int
  sn_node_visits :: nat
  sn_error :: string
  sn_resumable :: bool

definition snapshot_from :: "checkpoint \<Rightarrow> session_snapshot" where
  "snapshot_from c =
     \<lparr>sn_session_id = ck_session_id c, sn_execution_id = ck_execution_id c, sn_blueprint_id = ck_blueprint_id c,
      sn_status = status_string (ck_status c), sn_cursor = ck_cursor c, sn_pending = ck_pending c,
      sn_context = ck_context c, sn_result = ck_result c, sn_created_ms = ck_created_ms c, sn_updated_ms = ck_updated_ms c,
      sn_node_visits = ck_node_visits c, sn_error = ck_error c,
      sn_resumable = (ck_status c = AwaitingInput \<or> ck_status c = Waiting)\<rparr>"

definition snapshot_to_json :: "session_snapshot \<Rightarrow> json" where
  "snapshot_to_json s =
     (let d = jobj [(''session_id'', JStr (sn_session_id s)), (''execution_id'', JStr (sn_execution_id s)),
                    (''workflow_id'', JStr (sn_blueprint_id s)), (''status'', JStr (sn_status s)),
                    (''node_visits'', JInt (int (sn_node_visits s))), (''created_at_ms'', JInt (sn_created_ms s)),
                    (''updated_at_ms'', JInt (sn_updated_ms s)), (''resumable'', JBool (sn_resumable s))];
          d1 = set_filled ''pending'' (sn_pending s) (set_text ''cursor'' (sn_cursor s) d)
      in set_text ''error'' (sn_error s) (set_filled ''context'' (sn_context s) (set_filled ''output'' (sn_result s) d1)))"

section \<open>The machine\<close>

record execution_limits =
  lim_visits :: nat
  lim_depth :: nat
  lim_branch :: nat
  lim_timeout :: "int option"
  lim_retry_delay :: int
  lim_inline_wait :: int

definition default_limits :: execution_limits where
  "default_limits =
     \<lparr>lim_visits = 100000, lim_depth = 8, lim_branch = 10000, lim_timeout = None, lim_retry_delay = 5000, lim_inline_wait = 0\<rparr>"

text \<open>Which kind of store holds the sessions; \<open>Injected\<close> is one the embedding program brought.\<close>

datatype backing = InMemory | InDirectory string | InRedis redis_options store_options | Injected

record machine = host +
  vm_started :: bool
  vm_problems :: "string list"
  vm_config_path :: string
  vm_directory :: string
  vm_config :: "json option"
  vm_origin :: string
  vm_limits :: execution_limits
  vm_installed :: execution_limits
  vm_backing :: backing
  vm_logger :: "logger option"
  vm_metrics :: "metrics option"
  vm_traces :: "recorder option"

record ('c, 'd) outside =
  os_loader :: loader
  os_dump :: "json \<Rightarrow> string"
  os_exists :: "string \<Rightarrow> bool"
  os_getenv :: environment
  os_redis :: bool
  os_reaches :: "redis_options \<Rightarrow> bool"
  os_sessions :: "backing \<Rightarrow> memory_store"
  os_tasks :: "execution_limits \<Rightarrow> machine env"
  os_uuid :: "nat \<Rightarrow> string"
  os_capabilities :: "'c cap_provider list option"
  os_sources :: "'d data_provider list option"
  os_threads :: "nat option"

text \<open>\<open>TaskServices::defaults\<close> and the constructor: the services in memory, an empty configuration.\<close>

definition new_machine :: "logger option \<Rightarrow> int \<Rightarrow> machine" where
  "new_machine g now =
     \<lparr>ho_clock = Some now, ho_store = Some [], ho_sched = Some \<lparr>sc_jobs = [], sc_timers = []\<rparr>,
      ho_workflows = Some empty_registry, ho_bus = Some new_bus, ho_subs = [], ho_uuids = 0,
      vm_started = False, vm_problems = [], vm_config_path = [], vm_directory = [], vm_config = Some (JObj []),
      vm_origin = ''<memory>'', vm_limits = default_limits, vm_installed = default_limits, vm_backing = InMemory,
      vm_logger = g, vm_metrics = Some new_metrics, vm_traces = Some (new_recorder g 4096)\<rparr>"

definition noted :: "string list \<Rightarrow> (unit, machine) act" where
  "noted ps = change (\<lambda>m. m\<lparr>vm_problems := vm_problems m @ ps\<rparr>)"

definition judged :: "'a ev \<Rightarrow> ('a, 's) act" where
  "judged r = (\<lambda>s. (r, s))"

section \<open>Starting: the configuration\<close>

definition level_from_name :: "string \<Rightarrow> log_level \<Rightarrow> log_level" where
  "level_from_name n fallback =
     (if n = ''trace'' then LTrace else if n = ''debug'' then LDebug else if n = ''info'' then LInfo
      else if n = ''warn'' \<or> n = ''warning'' then LWarn else if n = ''error'' then LError
      else if n = ''off'' \<or> n = ''none'' then LOff else fallback)"

definition config_path :: "('c, 'd) outside \<Rightarrow> machine \<Rightarrow> string" where
  "config_path ow m =
     (if vm_config_path m \<noteq> [] then vm_config_path m
      else if os_exists ow ''sapo-config.json'' then ''sapo-config.json'' else [])"

definition read_config :: "('c, 'd) outside \<Rightarrow> (json option, machine) act" where
  "read_config ow =
     (\<lambda>m. let path = config_path ow m
          in if path = [] then (Val None, m)
             else case load_config (ld_read (os_loader ow)) (ld_parse (os_loader ow)) path of
               Val d \<Rightarrow> (Val (Some d), m\<lparr>vm_config_path := path, vm_config := Some d, vm_origin := path\<rparr>)
             | Thr e \<Rightarrow> andthen (noted [''config: '' @ se_message e]) (\<lambda>_. yields None) m
             | Crash \<Rightarrow> andthen (noted [''config: '' @ ld_crash (os_loader ow) path]) (\<lambda>_. yields None) m
             | Deep \<Rightarrow> (Deep, m))"

text \<open>Members of the \<open>engine\<close> section by their types; a \<open>size_t\<close> is read modulo its width.\<close>

definition int_member :: "string \<Rightarrow> json \<Rightarrow> int option" where
  "int_member k d = (case jget k d of Some (JInt n) \<Rightarrow> Some n | _ \<Rightarrow> None)"

definition text_of_member :: "string \<Rightarrow> json \<Rightarrow> string option" where
  "text_of_member k d = (case jget k d of Some (JStr s) \<Rightarrow> Some s | _ \<Rightarrow> None)"

definition size_member :: "string \<Rightarrow> json \<Rightarrow> nat \<Rightarrow> nat" where
  "size_member k d old = (case int_member k d of Some n \<Rightarrow> max 1 (nat (n mod 2 ^ 64)) | None \<Rightarrow> old)"

definition engine_limits :: "json \<Rightarrow> execution_limits \<Rightarrow> execution_limits" where
  "engine_limits d l =
     l\<lparr>lim_visits := size_member ''max_node_visits'' d (lim_visits l),
       lim_depth := size_member ''max_depth'' d (lim_depth l),
       lim_branch := size_member ''max_branch_visits'' d (lim_branch l),
       lim_inline_wait := (case int_member ''inline_wait_limit_ms'' d of Some n \<Rightarrow> as_int64 n | None \<Rightarrow> lim_inline_wait l),
       lim_timeout := (case int_member ''default_timeout_ms'' d of
                         Some n \<Rightarrow> (if 0 < as_int64 n then Some (as_int64 n) else lim_timeout l) | None \<Rightarrow> lim_timeout l)\<rparr>"

definition engine_log_level :: "json \<Rightarrow> logger \<Rightarrow> logger" where
  "engine_log_level d g =
     (case text_of_member ''log_level'' d of Some n \<Rightarrow> set_level (level_from_name n (lg_level g)) g | None \<Rightarrow> g)"

definition replaceable :: "machine \<Rightarrow> bool" where
  "replaceable m \<longleftrightarrow> ho_store m \<noteq> None \<and> (case vm_backing m of InMemory \<Rightarrow> True | InDirectory _ \<Rightarrow> True | _ \<Rightarrow> False)"

definition open_store :: "('c, 'd) outside \<Rightarrow> backing \<Rightarrow> machine \<Rightarrow> machine" where
  "open_store ow b m = m\<lparr>vm_backing := b, ho_store := Some (os_sessions ow b)\<rparr>"

definition state_directory :: "('c, 'd) outside \<Rightarrow> json \<Rightarrow> machine \<Rightarrow> machine" where
  "state_directory ow d m =
     (case text_of_member ''state_dir'' d of
        Some dir \<Rightarrow> (if dir \<noteq> [] \<and> replaceable m then open_store ow (InDirectory dir) m else m)
      | None \<Rightarrow> m)"

definition redis_store_options :: "json \<Rightarrow> store_options" where
  "redis_store_options d =
     (let so = default_store_options;
          so1 = (case int_member ''state_redis_ttl'' d of Some n \<Rightarrow> so\<lparr>ro_ttl_seconds := as_int32 n\<rparr> | None \<Rightarrow> so);
          so2 = (case text_of_member ''state_redis_prefix'' d of Some p \<Rightarrow> so1\<lparr>ro_key_prefix := p\<rparr> | None \<Rightarrow> so1)
      in case jget ''state_redis_atomic_index'' d of Some (JBool b) \<Rightarrow> so2\<lparr>ro_atomic_index := b\<rparr> | _ \<Rightarrow> so2)"

definition redis_client_options :: "json \<Rightarrow> redis_options \<Rightarrow> redis_options" where
  "redis_client_options d q =
     (case int_member ''state_redis_pool'' d of Some n \<Rightarrow> q\<lparr>rq_pool_size := nat (max 1 (as_int32 n))\<rparr> | None \<Rightarrow> q)"

definition open_redis :: "('c, 'd) outside \<Rightarrow> json \<Rightarrow> redis_options \<Rightarrow> (unit, machine) act" where
  "open_redis ow d parsed =
     (if \<not> os_redis ow then
        noted [''config: engine.state_redis needs a build with -DSAPO_ENABLE_REDIS=ON (or inject '' @
              ''sapo::redis::RedisStateStore with your own IRedisClient)'']
      else (let q = redis_client_options d parsed; so = redis_store_options d
            in andthen (if os_reaches ow q then yields ()
                        else noted [''config: engine.state_redis cannot reach '' @ describe_options q]) (\<lambda>_.
               case store_complaint so of
                 Some complaint \<Rightarrow> raises (store_error complaint)
               | None \<Rightarrow> change (open_store ow (InRedis q so)))))"

definition state_redis :: "('c, 'd) outside \<Rightarrow> json \<Rightarrow> json \<Rightarrow> (unit, machine) act" where
  "state_redis ow doc d =
     (case jget ''state_redis'' d of
        None \<Rightarrow> yields ()
      | Some v \<Rightarrow>
          (let (resolved, ps) = expand_value (os_getenv ow) doc v ''engine.state_redis''
           in andthen (noted (map (\<lambda>p. ''config: '' @ p) ps)) (\<lambda>_.
              case resolved of
                JStr url \<Rightarrow>
                  (if url = [] then noted [''config: engine.state_redis must be a non-empty redis:// URL string'']
                   else case options_from_url url of
                     Inl problem \<Rightarrow> noted [''config: engine.state_redis: '' @ problem]
                   | Inr parsed \<Rightarrow> open_redis ow d parsed)
              | _ \<Rightarrow> noted [''config: engine.state_redis must be a non-empty redis:// URL string''])))"

definition apply_redaction :: "machine \<Rightarrow> machine" where
  "apply_redaction m =
     (case (vm_config m, vm_logger m) of
        (Some d, Some g) \<Rightarrow> m\<lparr>vm_logger := Some (foldl (\<lambda>g x. if x = [] then g else add_secret x g) g (redact_list d))\<rparr>
      | _ \<Rightarrow> m)"

definition apply_config :: "('c, 'd) outside \<Rightarrow> json \<Rightarrow> (unit, machine) act" where
  "apply_config ow doc =
     (let d = engine_section doc
      in andthen (judged (config_problems (os_getenv ow) doc)) (\<lambda>ps.
         andthen (noted ps) (\<lambda>_.
         andthen (change (\<lambda>m. m\<lparr>vm_logger := map_option (engine_log_level d) (vm_logger m),
                                 vm_limits := engine_limits d (vm_limits m)\<rparr>)) (\<lambda>_.
         andthen (change (state_directory ow d)) (\<lambda>_.
         andthen (state_redis ow doc d) (\<lambda>_.
         change apply_redaction))))))"

section \<open>Starting: the blueprints\<close>

definition in_registry :: "('a, registry) act \<Rightarrow> ('a, machine) act" where
  "in_registry f =
     (\<lambda>m. case ho_workflows m of
        None \<Rightarrow> (Crash, m)
      | Some rg \<Rightarrow> (case f rg of (r, rg') \<Rightarrow> (r, m\<lparr>ho_workflows := Some rg'\<rparr>)))"

definition register_text :: "('c, 'd) outside \<Rightarrow> string \<Rightarrow> string \<Rightarrow> (string, machine) act" where
  "register_text ow t origin = (\<lambda>m. in_registry (load_text (os_loader ow) (now_ms m) t [] origin) m)"

definition register_file :: "('c, 'd) outside \<Rightarrow> string \<Rightarrow> (string, machine) act" where
  "register_file ow path = (\<lambda>m. in_registry (load_file (os_loader ow) (now_ms m) path) m)"

definition register_directory :: "('c, 'd) outside \<Rightarrow> string \<Rightarrow> (nat, machine) act" where
  "register_directory ow d =
     (\<lambda>m. andthen (in_registry (load_directory (os_loader ow) (now_ms m) d)) (\<lambda>(n, ps).
           andthen (noted (map (\<lambda>p. ''workflow: '' @ p) ps)) (\<lambda>_. yields n)) m)"

definition listed_directory :: "('c, 'd) outside \<Rightarrow> string \<Rightarrow> obj \<Rightarrow> (unit, machine) act" where
  "listed_directory ow dir ob =
     (case map_of ob ''directory'' of
        Some (JStr x) \<Rightarrow> (if x \<noteq> [] \<and> x \<noteq> dir then andthen (register_directory ow x) (\<lambda>_. yields ()) else yields ())
      | _ \<Rightarrow> yields ())"

definition listed_file :: "('c, 'd) outside \<Rightarrow> json \<Rightarrow> (unit, machine) act" where
  "listed_file ow f =
     (case f of
        JStr p \<Rightarrow>
          andthen (attempt (ld_crash (os_loader ow) p) (register_file ow p)) (\<lambda>r.
            case r of Inl what \<Rightarrow> noted [''workflows.files: '' @ what] | Inr _ \<Rightarrow> yields ())
      | _ \<Rightarrow> yields ())"

definition listed_files :: "('c, 'd) outside \<Rightarrow> obj \<Rightarrow> (unit, machine) act" where
  "listed_files ow ob = (case map_of ob ''files'' of Some (JArr fs) \<Rightarrow> each (listed_file ow) fs | _ \<Rightarrow> yields ())"

definition register_configured :: "('c, 'd) outside \<Rightarrow> (unit, machine) act" where
  "register_configured ow =
     andthen (observe vm_directory) (\<lambda>dir.
     andthen (if dir = [] then yields 0 else register_directory ow dir) (\<lambda>_.
     andthen (observe vm_config) (\<lambda>c.
       case Option.bind c (section_of ''workflows'') of
         None \<Rightarrow> yields ()
       | Some ob \<Rightarrow> andthen (listed_directory ow dir ob) (\<lambda>_. listed_files ow ob))))"

section \<open>Starting: the audit\<close>

definition deferred_problem :: "string \<Rightarrow> string \<Rightarrow> string" where
  "deferred_problem i t =
     ''provider '' @ quoted i @ '' (type '' @ t @ '') is marked deferred; any capability under it will fail at runtime''"

fun provider_audit :: "json \<Rightarrow> string list \<Rightarrow> string list ev" where
  "provider_audit d [] = Val []"
| "provider_audit d (i # is) =
     (case provider_type d i of
        Val t \<Rightarrow>
          (case (if t = [] then Val False else provider_deferred d i) of
             Val deferred \<Rightarrow>
               (case provider_audit d is of
                  Val ps \<Rightarrow> Val ((if deferred then [deferred_problem i t] else []) @ ps) | r \<Rightarrow> r)
           | Thr e \<Rightarrow> Thr e | Crash \<Rightarrow> Crash | Deep \<Rightarrow> Deep)
      | Thr e \<Rightarrow> Thr e | Crash \<Rightarrow> Crash | Deep \<Rightarrow> Deep)"

definition declared_source :: "string \<Rightarrow> json \<Rightarrow> data_config ev" where
  "declared_source origin e =
     (let text = (\<lambda>k fallback. case e of JObj ob \<Rightarrow> text_value k fallback ob | _ \<Rightarrow> Val fallback)
      in case text ''name'' [] of
           Val n \<Rightarrow>
             (case text ''provider'' [] of
                Val p \<Rightarrow>
                  (case text ''scope'' ''external'' of
                     Val c \<Rightarrow> Val \<lparr>dc_name = n, dc_scope = c, dc_provider = p, dc_config = jvalue ''config'' (JObj []) e, dc_origin = origin\<rparr>
                   | Thr x \<Rightarrow> Thr x | Crash \<Rightarrow> Crash | Deep \<Rightarrow> Deep)
              | Thr x \<Rightarrow> Thr x | Crash \<Rightarrow> Crash | Deep \<Rightarrow> Deep)
         | Thr x \<Rightarrow> Thr x | Crash \<Rightarrow> Crash | Deep \<Rightarrow> Deep)"

definition source_audit :: "('c, 'd) outside \<Rightarrow> string \<Rightarrow> json \<Rightarrow> (string list, machine) act" where
  "source_audit ow origin d =
     (case os_sources ow of
        None \<Rightarrow> yields []
      | Some ps \<Rightarrow>
          andthen (in_turn (map (\<lambda>e. judged (declared_source origin e)) (source_declarations d))) (\<lambda>cs.
            yields (validate_sources ps cs)))"

definition config_audit :: "('c, 'd) outside \<Rightarrow> (string list, machine) act" where
  "config_audit ow =
     andthen (observe vm_config) (\<lambda>c. andthen (observe vm_origin) (\<lambda>origin.
       case c of
         None \<Rightarrow> yields []
       | Some d \<Rightarrow>
           (if jempty d then yields []
            else andthen (judged (config_problems (os_getenv ow) d)) (\<lambda>ps.
                 andthen (judged (provider_audit d (Sapo_Config.provider_ids d))) (\<lambda>qs.
                 andthen (source_audit ow origin d) (\<lambda>rs.
                 yields (map (\<lambda>p. p @ '' (in '' @ origin @ '')'') ps @ qs @ rs)))))))"

definition registry_of :: "machine \<Rightarrow> registry" where
  "registry_of m = (case ho_workflows m of Some rg \<Rightarrow> rg | None \<Rightarrow> empty_registry)"

definition startup_check :: "('c, 'd) outside \<Rightarrow> (string list, machine) act" where
  "startup_check ow =
     andthen (config_audit ow) (\<lambda>ps.
     andthen (observe registry_of) (\<lambda>rg.
     yields ((case os_capabilities ow of Some cs \<Rightarrow> audit cs | None \<Rightarrow> []) @ ps @ unresolved_references rg @
             (if os_threads ow = Some 0 then [''worker pool has no threads configured''] else []))))"

definition workflow_warnings :: "registry \<Rightarrow> string list" where
  "workflow_warnings rg =
     concat (map (\<lambda>(i, e). map (\<lambda>w. ''workflow '' @ quoted i @ '': '' @ w) (wf_warnings (we_workflow e))) (rg_entries rg))"

section \<open>Starting\<close>

text \<open>A new interpreter has no subscriptions of its own yet; those of the old one stay on the bus.\<close>

definition install_interpreter :: "machine \<Rightarrow> machine" where
  "install_interpreter m =
     install_runners (lim_depth (vm_limits m)) (m\<lparr>vm_installed := vm_limits m, ho_subs := []\<rparr>)"

definition ready_message :: "machine \<Rightarrow> string" where
  "ready_message m =
     ''engine ready: '' @ int_str (int (length (rg_entries (registry_of m)))) @ '' workflow(s), '' @
     int_str (int (length (vm_problems m))) @ '' problem(s)''"

definition mark_ready :: "('c, 'd) outside \<Rightarrow> machine \<Rightarrow> machine" where
  "mark_ready ow m =
     m\<lparr>vm_started := True,
       vm_logger := map_option (log_message (os_dump ow) (now_ms m) LInfo ''vm'' (ready_message m) (JObj []) [] []) (vm_logger m),
       vm_metrics := map_option (set_gauge ''sapo.workflows.registered''
         (round_dbl (of_nat (length (rg_entries (registry_of m)))))) (vm_metrics m)\<rparr>"

definition start :: "('c, 'd) outside \<Rightarrow> (string list, machine) act" where
  "start ow =
     andthen (change (\<lambda>m. m\<lparr>vm_problems := []\<rparr>)) (\<lambda>_.
     andthen (read_config ow) (\<lambda>c.
     andthen (case c of Some d \<Rightarrow> apply_config ow d | None \<Rightarrow> yields ()) (\<lambda>_.
     andthen (register_configured ow) (\<lambda>_.
     andthen (change install_interpreter) (\<lambda>_.
     andthen (startup_check ow) (\<lambda>ps.
     andthen (noted ps) (\<lambda>_.
     andthen (observe registry_of) (\<lambda>rg.
     andthen (noted (workflow_warnings rg)) (\<lambda>_.
     andthen (change (mark_ready ow)) (\<lambda>_.
     observe vm_problems))))))))))"

definition stop :: "machine \<Rightarrow> machine" where
  "stop m = m\<lparr>vm_started := False\<rparr>"

definition ensure_started :: "('c, 'd) outside \<Rightarrow> (unit, machine) act" where
  "ensure_started ow = (\<lambda>m. if vm_started m then (Val (), m) else andthen (start ow) (\<lambda>_. yields ()) m)"

definition add_blueprint_text :: "('c, 'd) outside \<Rightarrow> string \<Rightarrow> string \<Rightarrow> (string, machine) act" where
  "add_blueprint_text ow t origin = andthen (ensure_started ow) (\<lambda>_. register_text ow t origin)"

definition add_blueprint_file :: "('c, 'd) outside \<Rightarrow> string \<Rightarrow> (string, machine) act" where
  "add_blueprint_file ow path = andthen (ensure_started ow) (\<lambda>_. register_file ow path)"

definition add_blueprint_directory :: "('c, 'd) outside \<Rightarrow> string \<Rightarrow> (nat, machine) act" where
  "add_blueprint_directory ow d = andthen (ensure_started ow) (\<lambda>_. register_directory ow d)"

definition validate_all :: "machine \<Rightarrow> string list" where
  "validate_all m =
     vm_problems m @ map (\<lambda>r. ''dangling subflow reference: '' @ quoted r @ '' is not registered'')
       (unresolved_references (registry_of m))"

section \<open>Sessions\<close>

text \<open>The services the interpreter works on: the tasks under the installed limits, and the checks of data sources.\<close>

definition source_check :: "'d data_provider list \<Rightarrow> json \<Rightarrow> string list" where
  "source_check ps v =
     validate_sources ps (map (\<lambda>(k, d).
       \<lparr>dc_name = jvalue_str ''name'' k d, dc_scope = jvalue_str ''scope'' ''internal'' d,
        dc_provider = jvalue_str ''provider'' [] d, dc_config = jvalue ''config'' (JObj []) d,
        dc_origin = jvalue_str ''origin'' ''blueprint'' d\<rparr>) (jentries v))"

definition machine_services :: "('c, 'd) outside \<Rightarrow> machine \<Rightarrow> machine services" where
  "machine_services ow m =
     \<lparr>sv_env = (os_tasks ow (vm_installed m))\<lparr>en_max_node_visits := lim_visits (vm_installed m),
        en_max_branch_visits := lim_branch (vm_installed m), en_dump := os_dump ow\<rparr>,
      sv_declarations = map_option source_declarations (vm_config m),
      sv_source_problems = map_option source_check (os_sources ow),
      sv_uuid = os_uuid ow, sv_pool = (os_threads ow \<noteq> None)\<rparr>"

record session_options =
  op_session_id :: string
  op_correlation_id :: string
  op_start_node :: string
  op_persist :: bool
  op_max_node_visits :: nat

definition new_session_options :: session_options where
  "new_session_options =
     \<lparr>op_session_id = [], op_correlation_id = [], op_start_node = [], op_persist = True, op_max_node_visits = 0\<rparr>"

definition run_options_of :: "session_options \<Rightarrow> json \<Rightarrow> run_options" where
  "run_options_of q input =
     default_options\<lparr>ro_session_id := op_session_id q, ro_correlation_id := op_correlation_id q,
       ro_start_node := op_start_node q, ro_input := input, ro_persist := op_persist q,
       ro_max_node_visits := op_max_node_visits q\<rparr>"

definition not_registered :: "('c, 'd) outside \<Rightarrow> string \<Rightarrow> registry \<Rightarrow> exec_outcome" where
  "not_registered ow i rg =
     (failed_outcome ''WORKFLOW_NOT_FOUND''
        (''no workflow named '' @ quoted i @ '' is registered'' @
         (if registry_ids rg = [] then '' (the registry is empty)''
          else ''; available: '' @ os_dump ow (JArr (map JStr (registry_ids rg))))) [])\<lparr>oc_workflow_id := i\<rparr>"

text \<open>A call that runs a session may not return within the fuel (\<open>None\<close>).\<close>

type_synonym 'a call = "('a ev \<times> machine) option"

definition outcome_of_run :: "machine ran \<Rightarrow> exec_outcome call" where
  "outcome_of_run r =
     (case r of
        None \<Rightarrow> None
      | Some (Inl e, m) \<Rightarrow> Some (Thr e, m)
      | Some (Inr x, m) \<Rightarrow> Some (Val (outcome_from x), m))"

definition started_first :: "('c, 'd) outside \<Rightarrow> (machine \<Rightarrow> 'a call) \<Rightarrow> machine \<Rightarrow> 'a call" where
  "started_first ow f m =
     (case ensure_started ow m of
        (Val _, m1) \<Rightarrow> f m1 | (Thr e, m1) \<Rightarrow> Some (Thr e, m1) | (Crash, m1) \<Rightarrow> Some (Crash, m1) | (Deep, m1) \<Rightarrow> Some (Deep, m1))"

definition start_registered ::
  "nat \<Rightarrow> ('c, 'd) outside \<Rightarrow> string \<Rightarrow> json \<Rightarrow> session_options \<Rightarrow> machine \<Rightarrow> exec_outcome call" where
  "start_registered fuel ow i input q m =
     (case workflow_for i m of
        None \<Rightarrow> Some (Val (not_registered ow i (registry_of m)), m)
      | Some w \<Rightarrow> outcome_of_run (run_session fuel (machine_services ow m) w input (run_options_of q input) m))"

definition start_session ::
  "nat \<Rightarrow> ('c, 'd) outside \<Rightarrow> string \<Rightarrow> json \<Rightarrow> session_options \<Rightarrow> machine \<Rightarrow> exec_outcome call" where
  "start_session fuel ow i input q = started_first ow (start_registered fuel ow i input q)"

definition inline_options :: "('c, 'd) outside \<Rightarrow> parse_options" where
  "inline_options ow =
     \<lparr>pq_has = map_option (\<lambda>cs name. has_capability name cs) (os_capabilities ow), pq_validate = True, pq_strict = False,
      pq_max_nodes = 10000, pq_dump = os_dump ow\<rparr>"

text \<open>Under its own name, or under a private one when the name is taken.\<close>

definition register_inline :: "('c, 'd) outside \<Rightarrow> workflow \<Rightarrow> machine \<Rightarrow> string \<times> machine" where
  "register_inline ow w m =
     (let rg = registry_of m; name = md_name (wf_metadata w)
      in if registry_find name rg \<noteq> None then
           (let i = ''inline/'' @ os_uuid ow (ho_uuids m)
            in (i, m\<lparr>ho_uuids := Suc (ho_uuids m), ho_workflows := Some (fst (registry_add (now_ms m) w i ''<inline>'' rg))\<rparr>))
         else (name, m\<lparr>ho_workflows := Some (fst (registry_add (now_ms m) w [] [] rg))\<rparr>))"

definition caught_outcome :: "exec_outcome call \<Rightarrow> exec_outcome call" where
  "caught_outcome r =
     (case r of
        Some (Thr e, m) \<Rightarrow> Some (Val (failed_outcome (error_code_string (se_code e)) (se_message e) (se_node e)), m)
      | _ \<Rightarrow> r)"

definition run_inline :: "nat \<Rightarrow> ('c, 'd) outside \<Rightarrow> json \<Rightarrow> json \<Rightarrow> session_options \<Rightarrow> machine \<Rightarrow> exec_outcome call" where
  "run_inline fuel ow blueprint input q m =
     (case parse_workflow (ld_parse (os_loader ow)) (inline_options ow) (os_dump ow blueprint) of
        Val w \<Rightarrow> (case register_inline ow w m of (i, m1) \<Rightarrow> caught_outcome (start_registered fuel ow i input q m1))
      | Thr e \<Rightarrow> Some (Val (failed_outcome (error_code_string (se_code e)) (se_message e) (se_node e)), m)
      | Crash \<Rightarrow> Some (Val (failed_outcome ''PARSE_ERROR'' (ld_crash (os_loader ow) []) []), m)
      | Deep \<Rightarrow> Some (Deep, m))"

definition run_blueprint ::
  "nat \<Rightarrow> ('c, 'd) outside \<Rightarrow> json \<Rightarrow> json \<Rightarrow> session_options \<Rightarrow> machine \<Rightarrow> exec_outcome call" where
  "run_blueprint fuel ow blueprint input q = started_first ow (run_inline fuel ow blueprint input q)"

definition vm_resume :: "nat \<Rightarrow> ('c, 'd) outside \<Rightarrow> string \<Rightarrow> json \<Rightarrow> machine \<Rightarrow> exec_outcome call" where
  "vm_resume fuel ow sid input =
     started_first ow (\<lambda>m. outcome_of_run (resume_session fuel (machine_services ow m) sid input m))"

definition vm_cancel :: "('c, 'd) outside \<Rightarrow> string \<Rightarrow> string \<Rightarrow> (bool, machine) act" where
  "vm_cancel ow sid reason =
     andthen (ensure_started ow) (\<lambda>_ m. case cancel_session sid reason m of (m1, b) \<Rightarrow> (Val b, m1))"

definition vm_session :: "string \<Rightarrow> machine \<Rightarrow> session_snapshot option" where
  "vm_session sid m = map_option snapshot_from (stored sid m)"

text \<open>The latest first; the source's sort leaves the order of equal instants open.\<close>

definition vm_sessions :: "machine \<Rightarrow> session_snapshot list" where
  "vm_sessions m =
     (case ho_store m of
        None \<Rightarrow> []
      | Some st \<Rightarrow> sort_key (\<lambda>s. - sn_updated_ms s) (map snapshot_from (mem_list st)))"

definition suspended_count :: "machine \<Rightarrow> nat" where
  "suspended_count m = length (filter sn_resumable (vm_sessions m))"

definition vm_publish :: "nat \<Rightarrow> ('c, 'd) outside \<Rightarrow> event \<Rightarrow> machine \<Rightarrow> machine option" where
  "vm_publish fuel ow e m = publish_event fuel (machine_services ow m) e m"

definition vm_tick :: "nat \<Rightarrow> ('c, 'd) outside \<Rightarrow> machine \<Rightarrow> (machine \<times> nat outcome) option" where
  "vm_tick fuel ow m = host_tick fuel (machine_services ow m) m"

section \<open>What the machine tells of itself\<close>

definition vm_metrics_json :: "machine \<Rightarrow> json" where
  "vm_metrics_json m =
     (let number = (\<lambda>n. JInt (int n)); all = vm_sessions m;
          d = (case vm_metrics m of Some x \<Rightarrow> metrics_json x | None \<Rightarrow> JObj []);
          d1 = jset ''sessions'' (jobj [(''total'', number (length all)), (''suspended'', number (length (filter sn_resumable all)))]) d;
          d2 = (case ho_sched m of
                  Some sc \<Rightarrow> jset ''scheduler'' (jobj [(''jobs'', number (length (sc_jobs sc))), (''timers'', number (length (sc_timers sc)))]) d1
                | None \<Rightarrow> d1)
      in case ho_bus m of
           Some b \<Rightarrow> jset ''events'' (jobj [(''subscribers'', number (subscriber_count b)),
                       (''patterns'', JArr (map JStr (bus_patterns b))), (''recent'', JArr (map event_to_json (recent 5 b)))]) d2
         | None \<Rightarrow> d2)"

definition trace_for :: "string \<Rightarrow> machine \<Rightarrow> json" where
  "trace_for eid m =
     (case vm_traces m of
        None \<Rightarrow> JArr []
      | Some t \<Rightarrow> JArr (map (\<lambda>s. jobj [(''node_id'', JStr (sp_node s)), (''node_type'', JStr (sp_type s)),
                    (''outcome'', JStr (sp_outcome s)), (''duration_ms'', JInt (sp_duration s)), (''depth'', JInt (int (sp_depth s))),
                    (''error_code'', JStr (sp_error_code s)), (''error_message'', JStr (sp_error_message s))]) (spans_for eid t)))"

definition capabilities_summary :: "('c, 'd) outside \<Rightarrow> json" where
  "capabilities_summary ow =
     (case os_capabilities ow of
        None \<Rightarrow> JObj []
      | Some cs \<Rightarrow> jobj [(''providers'', JArr (map JStr (Sapo_Capability.provider_ids cs))),
                         (''capabilities'', JInt (int (length (all_capabilities cs)))),
                         (''deferred'', JArr (map (JStr \<circ> cd_name) (filter cd_deferred (all_capabilities cs))))])"

definition data_source_summary :: "('c, 'd) outside \<Rightarrow> json" where
  "data_source_summary ow =
     (case os_sources ow of
        None \<Rightarrow> JArr []
      | Some ps \<Rightarrow> jobj [(''providers'', JArr (map JStr (data_provider_ids ps))),
                         (''deferred'', JArr (map JStr (deferred_providers ps)))])"

definition describe_entry :: "string \<times> workflow_entry \<Rightarrow> json" where
  "describe_entry ie =
     (case ie of (i, e) \<Rightarrow>
        let w = we_workflow e;
            d = jobj [(''id'', JStr i), (''nodes'', JInt (int (length (wf_nodes w)))), (''name'', JStr (md_name (wf_metadata w))),
                      (''version'', JStr (md_version (wf_metadata w)))];
            d1 = set_text ''origin'' (we_origin e) d
        in case md_trigger_event (wf_metadata w) of Some t \<Rightarrow> jset ''trigger_event'' (JStr t) d1 | None \<Rightarrow> d1)"

definition describe_machine :: "('c, 'd) outside \<Rightarrow> machine \<Rightarrow> json" where
  "describe_machine ow m =
     (let l = vm_limits m
      in jobj [(''engine'', JStr ''sapo''), (''ready'', JBool (vm_started m)),
               (''blueprints'', JArr (map describe_entry (rg_entries (registry_of m)))),
               (''capabilities'', capabilities_summary ow), (''data_sources'', data_source_summary ow),
               (''limits'', jobj [(''max_node_visits'', JInt (int (lim_visits l))), (''max_depth'', JInt (int (lim_depth l))),
                                  (''max_branch_visits'', JInt (int (lim_branch l))),
                                  (''inline_wait_limit_ms'', JInt (lim_inline_wait l))]),
               (''problems'', JArr (map JStr (validate_all m)))])"

section \<open>What starting does\<close>

text \<open>How a computation moves the machine, on every way out.\<close>

definition moves :: "('s \<Rightarrow> 's \<Rightarrow> bool) \<Rightarrow> ('a, 's) act \<Rightarrow> bool" where
  "moves R m \<longleftrightarrow> (\<forall>s. R s (snd (m s)))"

named_theorems moves_intros "what the steps of the machine move"

lemma moves_basic [moves_intros]:
  "reflp R \<Longrightarrow> moves R (yields x)" "reflp R \<Longrightarrow> moves R (raises e)" "reflp R \<Longrightarrow> moves R (observe f)"
  "reflp R \<Longrightarrow> moves R (judged v)"
  by (simp_all add: moves_def judged_def reflp_def)

lemma moves_andthen [moves_intros]:
  "transp R \<Longrightarrow> moves R m \<Longrightarrow> (\<And>x. moves R (f x)) \<Longrightarrow> moves R (andthen m f)"
  by (auto simp: moves_def andthen_def split: prod.splits ev.splits) (metis snd_conv transpD)+

lemma moves_change: "(\<And>s. R s (f s)) \<Longrightarrow> moves R (change f)"
  by (simp add: moves_def)

lemma moves_each [moves_intros]: "reflp R \<Longrightarrow> transp R \<Longrightarrow> (\<And>x. moves R (f x)) \<Longrightarrow> moves R (each f xs)"
  by (induction xs) (auto intro!: moves_intros)

lemma moves_in_turn [moves_intros]: "reflp R \<Longrightarrow> transp R \<Longrightarrow> (\<And>m. m \<in> set ms \<Longrightarrow> moves R m) \<Longrightarrow> moves R (in_turn ms)"
  by (induction ms) (auto intro!: moves_intros)

lemma moves_attempt [moves_intros]: "moves R m \<Longrightarrow> moves R (attempt crash m)"
  unfolding moves_def attempt_def by (auto split: prod.splits ev.splits) (metis snd_conv)+

lemma moves_if [moves_intros]: "(c \<Longrightarrow> moves R x) \<Longrightarrow> (\<not> c \<Longrightarrow> moves R y) \<Longrightarrow> moves R (if c then x else y)"
  by simp

lemma moves_case [moves_intros]:
  "(\<And>v. moves R (f v)) \<Longrightarrow> moves R y \<Longrightarrow> moves R (case v of Some x \<Rightarrow> f x | None \<Rightarrow> y)"
  "(\<And>v. moves R (f v)) \<Longrightarrow> (\<And>e. moves R (g e)) \<Longrightarrow> moves R (case r of Inl e \<Rightarrow> g e | Inr v \<Rightarrow> f v)"
  "(\<And>v w. moves R (h v w)) \<Longrightarrow> moves R (case q of (v, w) \<Rightarrow> h v w)"
  by (simp_all split: option.split sum.split prod.split)

lemma moves_text [moves_intros]:
  "(\<And>t. moves R (f t)) \<Longrightarrow> moves R y \<Longrightarrow> moves R (case v of JStr t \<Rightarrow> f t | _ \<Rightarrow> y)"
  by (cases v) simp_all

lemma moves_text_member [moves_intros]:
  "(\<And>t. moves R (f t)) \<Longrightarrow> moves R y \<Longrightarrow> moves R (case u of Some (JStr t) \<Rightarrow> f t | _ \<Rightarrow> y)"
  by (cases u) (simp_all add: moves_text)

lemma moves_array_member [moves_intros]:
  "(\<And>t. moves R (f t)) \<Longrightarrow> moves R y \<Longrightarrow> moves R (case u of Some (JArr t) \<Rightarrow> f t | _ \<Rightarrow> y)"
  by (simp split: option.split json.split)

text \<open>A store that other machines may share stays the one the sessions are in.\<close>

definition shared_store :: "machine \<Rightarrow> bool" where
  "shared_store m = (case vm_backing m of InMemory \<Rightarrow> False | InDirectory _ \<Rightarrow> False | _ \<Rightarrow> True)"

definition same_store :: "machine \<Rightarrow> machine \<Rightarrow> bool" where
  "same_store m m1 \<longleftrightarrow> (shared_store m \<longrightarrow> vm_backing m1 = vm_backing m \<and> ho_store m1 = ho_store m)"

lemma same_store_order: "reflp same_store" "transp same_store"
  by (auto simp: same_store_def shared_store_def reflp_def transp_def)

lemma moves_noted: "moves same_store (noted ps)"
  by (simp add: noted_def moves_def same_store_def)

lemma moves_in_registry: "moves same_store (in_registry f)"
  by (auto simp: moves_def in_registry_def same_store_def split: option.splits prod.splits)

lemma moves_registering:
  "moves same_store (register_file ow p)" "moves same_store (register_directory ow d)"
proof -
  show "moves same_store (register_file ow p)"
    unfolding register_file_def moves_def by (intro allI) (rule moves_in_registry [unfolded moves_def, rule_format])
  have "moves same_store (andthen (in_registry f) (\<lambda>(n, ps). andthen (noted (map g ps)) (\<lambda>_. yields n)))" for f :: "(nat \<times> string list, registry) act" and g
    by (intro moves_intros moves_in_registry moves_noted same_store_order)
  then show "moves same_store (register_directory ow d)"
    unfolding register_directory_def moves_def by blast
qed

lemma moves_register_configured: "moves same_store (register_configured ow)"
  unfolding register_configured_def listed_directory_def listed_files_def listed_file_def
  by (intro moves_intros moves_registering moves_noted same_store_order)

lemma moves_step:
  "transp R \<Longrightarrow> R s (snd (m s)) \<Longrightarrow> (\<And>x t. m s = (Val x, t) \<Longrightarrow> R t (snd (f x t))) \<Longrightarrow> R s (snd (andthen m f s))"
  by (auto simp: andthen_def split: prod.splits ev.splits) (metis snd_conv transpD)+

lemma moves_audit: "reflp R \<Longrightarrow> transp R \<Longrightarrow> moves R (startup_check ow)"
  unfolding startup_check_def config_audit_def source_audit_def
  by (intro moves_intros) (auto intro: moves_basic)

lemma moves_apply_config:
  assumes "jget ''state_redis'' (engine_section d) = None"
  shows "moves same_store (apply_config ow d)"
proof -
  have "moves same_store (change (\<lambda>m. m\<lparr>vm_logger := map_option g (vm_logger m), vm_limits := l (vm_limits m)\<rparr>))" for g l
    by (rule moves_change) (simp add: same_store_def)
  moreover have "moves same_store (change (state_directory ow x))" for x
    by (rule moves_change)
      (auto simp: same_store_def state_directory_def replaceable_def shared_store_def split: option.split backing.splits)
  moreover have "moves same_store (state_redis ow d (engine_section d))"
    unfolding state_redis_def assms by (simp add: moves_def same_store_def)
  moreover have "moves same_store (change apply_redaction)"
    by (rule moves_change) (simp add: same_store_def apply_redaction_def split: option.split)
  ultimately show ?thesis
    unfolding apply_config_def Let_def by (intro moves_intros moves_noted same_store_order)
qed

lemma install_interpreter_store: "same_store m (install_interpreter m)"
  by (simp add: same_store_def install_interpreter_def install_runners_def Let_def split: option.split)

lemma read_config_store: "same_store m (snd (read_config ow m))"
  by (auto simp: read_config_def same_store_def Let_def noted_def split: ev.split)

lemma read_config_document:
  "read_config ow m = (Val (Some d), t) \<Longrightarrow>
     config_path ow m \<noteq> [] \<and> load_config (ld_read (os_loader ow)) (ld_parse (os_loader ow)) (config_path ow m) = Val d"
  by (auto simp: read_config_def Let_def noted_def split: ev.splits if_splits)

lemma moves_rest:
  assumes "moves same_store f"
  shows "moves same_store (andthen f (\<lambda>_.
     andthen (register_configured ow) (\<lambda>_. andthen (change install_interpreter) (\<lambda>_.
     andthen (startup_check ow) (\<lambda>ps. andthen (noted ps) (\<lambda>_. andthen (observe registry_of) (\<lambda>rg.
     andthen (noted (workflow_warnings rg)) (\<lambda>_. andthen (change (mark_ready ow)) (\<lambda>_. observe vm_problems)))))))))"
proof -
  have "moves same_store (change install_interpreter)" "moves same_store (change (mark_ready ow))"
    by (rule moves_change, rule install_interpreter_store) (rule moves_change, simp add: same_store_def mark_ready_def)
  with assms show ?thesis
    by (intro moves_intros moves_register_configured moves_audit moves_noted same_store_order)
qed

lemma start_keeps_store:
  assumes "\<And>d. load_config (ld_read (os_loader ow)) (ld_parse (os_loader ow)) (config_path ow m) = Val d \<Longrightarrow>
             jget ''state_redis'' (engine_section d) = None"
  shows "same_store m (snd (start ow m))"
  unfolding start_def
proof (rule moves_step [OF same_store_order(2)], goal_cases)
  case 1
  show ?case by (simp add: same_store_def)
next
  case (2 x t)
  then have t: "config_path ow t = config_path ow m" by (auto simp: config_path_def)
  show ?case
  proof (rule moves_step [OF same_store_order(2)], rule read_config_store, goal_cases)
    case (1 c t1)
    have first: "moves same_store (case c of Some d \<Rightarrow> apply_config ow d | None \<Rightarrow> yields ())"
      using read_config_document [of ow t _ t1] 1 assms t
      by (cases c) (auto intro!: moves_apply_config moves_basic same_store_order)
    show ?case by (rule moves_rest [OF first, unfolded moves_def, rule_format])
  qed
qed

text \<open>A start without problems has found none in any of its steps.\<close>

lemma startup_check_quiet:
  assumes "startup_check ow m = (Val [], m1)"
  shows "m1 = m \<and> unresolved_references (registry_of m) = [] \<and> (\<forall>cs. os_capabilities ow = Some cs \<longrightarrow> audit cs = []) \<and>
    (\<forall>d. vm_config m = Some d \<longrightarrow> \<not> jempty d \<longrightarrow> config_problems (os_getenv ow) d = Val [])"
proof -
  have still: "moves (=) (startup_check ow)" by (rule moves_audit) (auto simp: reflp_def transp_def)
  then have "m1 = m" using assms unfolding moves_def by (metis snd_conv)
  obtain ps m2 where c: "config_audit ow m = (Val ps, m2)" and
    e: "(case os_capabilities ow of Some cs \<Rightarrow> audit cs | None \<Rightarrow> []) @ ps @ unresolved_references (registry_of m2) @
          (if os_threads ow = Some 0 then [''worker pool has no threads configured''] else []) = []" and "m1 = m2"
    using assms unfolding startup_check_def by (auto simp: andthen_Val simp del: append_is_Nil_conv append_Nil append.assoc)
  from e have parts: "ps = []" "unresolved_references (registry_of m2) = []" "\<forall>cs. os_capabilities ow = Some cs \<longrightarrow> audit cs = []"
    by (auto split: option.splits)
  have "config_problems (os_getenv ow) d = Val []" if "vm_config m = Some d" "\<not> jempty d" for d
    using c that parts(1) unfolding config_audit_def by (auto simp: andthen_Val judged_def)
  with parts \<open>m1 = m2\<close> \<open>m1 = m\<close> show ?thesis by blast
qed

lemma noted_run: "noted ps m = (Val (), m\<lparr>vm_problems := vm_problems m @ ps\<rparr>)"
  by (simp add: noted_def)

lemma start_quiet:
  assumes "start ow m = (Val [], m1)"
  shows "\<exists>s. startup_check ow s = (Val [], s) \<and> workflow_warnings (registry_of s) = [] \<and> m1 = mark_ready ow s"
proof -
  from assms obtain s ps t where s: "startup_check ow s = (Val ps, t)"
    and p: "vm_problems (mark_ready ow (t\<lparr>vm_problems := (vm_problems t @ ps) @ workflow_warnings (registry_of (t\<lparr>vm_problems := vm_problems t @ ps\<rparr>))\<rparr>)) = []"
    and m1: "m1 = mark_ready ow (t\<lparr>vm_problems := (vm_problems t @ ps) @ workflow_warnings (registry_of (t\<lparr>vm_problems := vm_problems t @ ps\<rparr>))\<rparr>)"
    unfolding start_def by (auto simp: andthen_Val noted_run simp del: append_is_Nil_conv append.assoc)
  have reg: "registry_of (t\<lparr>vm_problems := q\<rparr>) = registry_of t" for q by (simp add: registry_of_def)
  from p have none: "ps = []" "workflow_warnings (registry_of t) = []" "vm_problems t = []"
    by (simp_all add: mark_ready_def reg)
  have "t = s" using startup_check_quiet [of ow s t] s none(1) by simp
  moreover have "t\<lparr>vm_problems := []\<rparr> = t" using none(3) by (cases t) simp
  ultimately show ?thesis using s none m1 by (intro exI [of _ s]) (simp add: reg)
qed

section \<open>Properties\<close>

text \<open>
  C16: An empty list of problems means the engine is ready: the machine runs, every subflow and schedule of a registered
  workflow names a registered one, no workflow was loaded with a warning, the configuration passed its checks and the
  capabilities their audit.
\<close>

theorem quiet_start_is_ready:
  assumes "start ow m = (Val [], m1)"
  shows "vm_started m1 \<and>
    (\<forall>i e n b. (i, e) \<in> set (rg_entries (registry_of m1)) \<longrightarrow> n \<in> set (wf_nodes (we_workflow e)) \<longrightarrow>
       nd_body n = Subflow b \<longrightarrow> registry_find (sf_workflow b) (registry_of m1) \<noteq> None) \<and>
    (\<forall>i e n b t. (i, e) \<in> set (rg_entries (registry_of m1)) \<longrightarrow> n \<in> set (wf_nodes (we_workflow e)) \<longrightarrow>
       nd_body n = Schedule b \<longrightarrow> sd_workflow b = Some t \<longrightarrow> registry_find t (registry_of m1) \<noteq> None) \<and>
    (\<forall>i e. (i, e) \<in> set (rg_entries (registry_of m1)) \<longrightarrow> wf_warnings (we_workflow e) = []) \<and>
    (\<forall>d. vm_config m1 = Some d \<longrightarrow> \<not> jempty d \<longrightarrow> config_problems (os_getenv ow) d = Val []) \<and>
    (\<forall>cs. os_capabilities ow = Some cs \<longrightarrow> audit cs = [])"
proof -
  from start_quiet [OF assms] obtain s where s: "startup_check ow s = (Val [], s)"
    "workflow_warnings (registry_of s) = []" "m1 = mark_ready ow s" by blast
  have m1: "registry_of m1 = registry_of s" "vm_config m1 = vm_config s" "vm_started m1"
    by (simp_all add: s(3) mark_ready_def registry_of_def)
  note quiet = startup_check_quiet [OF s(1)]
  have "set (unresolved_references (registry_of s)) = {}" using quiet by simp
  then have "reference_problems (registry_of s) ie = []" if "ie \<in> set (rg_entries (registry_of s))" for ie
    using that by (simp add: unresolved_references_def)
  note none = this
  have "registry_find (sf_workflow b) (registry_of s) \<noteq> None"
    if "(i, e) \<in> set (rg_entries (registry_of s))" "n \<in> set (wf_nodes (we_workflow e))" "nd_body n = Subflow b" for i e n b
    using none that by (force simp: reference_problems_def Let_def registry_find_def split: if_splits)
  moreover have "registry_find t (registry_of s) \<noteq> None"
    if "(i, e) \<in> set (rg_entries (registry_of s))" "n \<in> set (wf_nodes (we_workflow e))" "nd_body n = Schedule b"
      "sd_workflow b = Some t" for i e n b t
    using none that by (force simp: reference_problems_def Let_def registry_find_def split: if_splits)
  moreover have "wf_warnings (we_workflow e) = []" if "(i, e) \<in> set (rg_entries (registry_of s))" for i e
    using s(2) that by (auto simp: workflow_warnings_def)
  ultimately show ?thesis unfolding m1 using m1 quiet by blast
qed

text \<open>A machine with two workflows, one of which calls the other.\<close>

definition calling_node :: node where
  "calling_node =
     Sapo_Progress.plain_node ''call'' None (Subflow \<lparr>sf_workflow = ''w1'', sf_wait_for_completion = True, sf_inputs = JObj [],
        sf_output = None, sf_return_map = JObj [], sf_max_depth = 8\<rparr>)"

definition pair_machine :: machine where
  "pair_machine =
     (new_machine None 0)\<lparr>ho_workflows := Some (fst (registry_add 0 ((triggered ''go'')\<lparr>wf_nodes := [calling_node]\<rparr>) ''w2'' []
        (one_workflow ''run'')))\<rparr>"

definition no_files :: loader where
  "no_files =
     \<lparr>ld_read = (\<lambda>_. None), ld_listing = (\<lambda>_. None), ld_parse = (\<lambda>_. Inl ''unexpected end''), ld_crash = (\<lambda>_. ''exception''),
      ld_options = order_options\<rparr>"

definition plain_outside :: "loader \<Rightarrow> (unit, unit) outside" where
  "plain_outside ld =
     \<lparr>os_loader = ld, os_dump = (\<lambda>_. ''?''), os_exists = (\<lambda>_. False), os_getenv = (\<lambda>_. None), os_redis = True,
      os_reaches = (\<lambda>_. True), os_sessions = (\<lambda>_. []),
      os_tasks = (\<lambda>_. \<lparr>en_task = (\<lambda>_. None), en_eval = (\<lambda>_ _. Inr JNull), en_eval_bool = (\<lambda>_ _. Inr False),
                       en_dump = (\<lambda>_. ''?''), en_max_node_visits = 1, en_max_branch_visits = 1\<rparr>),
      os_uuid = int_str \<circ> int, os_capabilities = Some [], os_sources = Some [], os_threads = Some 2\<rparr>"

definition pair_start :: "string list ev \<times> machine" where
  "pair_start = start (plain_outside no_files) pair_machine"

text \<open>Without a configuration file, a workflow section and a directory, starting installs the interpreter and audits.\<close>

lemma bare_start:
  assumes "config_path ow m = []" and "vm_directory m = []" and "vm_config m = Some (JObj [])"
    and "startup_check ow (install_interpreter (m\<lparr>vm_problems := []\<rparr>)) = (Val [], install_interpreter (m\<lparr>vm_problems := []\<rparr>))"
    and "workflow_warnings (registry_of (install_interpreter (m\<lparr>vm_problems := []\<rparr>))) = []"
    and "vm_problems (install_interpreter (m\<lparr>vm_problems := []\<rparr>)) = []"
  shows "start ow m = (Val [], mark_ready ow (install_interpreter (m\<lparr>vm_problems := []\<rparr>)))"
proof -
  let ?m = "m\<lparr>vm_problems := []\<rparr>"
  let ?i = "install_interpreter ?m"
  have "config_path ow ?m = config_path ow m" by (simp add: config_path_def)
  then have r: "read_config ow ?m = (Val None, ?m)" using assms(1) by (simp add: read_config_def)
  have c: "register_configured ow ?m = (Val (), ?m)"
    using assms(2,3) by (simp add: register_configured_def section_of_def)
  have same: "?i\<lparr>vm_problems := []\<rparr> = ?i" using assms(6) by (cases ?i) simp
  have p: "vm_problems (mark_ready ow ?i) = []" using assms(6) by (simp add: mark_ready_def)
  show ?thesis
    unfolding start_def using assms(6) by (simp add: r c assms(4,5) noted_run same p)
qed

definition pair_ready :: machine where
  "pair_ready = install_interpreter (pair_machine\<lparr>vm_problems := []\<rparr>)"

lemma pair_entries:
  "rg_entries (registry_of pair_ready) =
     [(''w1'', \<lparr>we_id = ''w1'', we_workflow = triggered ''run'', we_origin = ''file'', we_loaded_ms = 0\<rparr>),
      (''w2'', \<lparr>we_id = ''w2'', we_workflow = renamed ''w2'' ((triggered ''go'')\<lparr>wf_nodes := [calling_node]\<rparr>),
               we_origin = ''<inline>'', we_loaded_ms = 0\<rparr>)]"
  by (simp add: pair_ready_def pair_machine_def new_machine_def install_interpreter_def install_runners_def registry_of_def
      registry_add_def one_workflow_entries set_max_depth_def renamed_def default_limits_def Let_def)

lemma pair_ready_fields:
  "vm_problems pair_ready = []" "vm_config pair_ready = Some (JObj [])" "vm_config_path pair_machine = []"
  "vm_directory pair_machine = []" "vm_config pair_machine = Some (JObj [])"
  by (simp_all add: pair_ready_def pair_machine_def new_machine_def install_interpreter_def install_runners_def Let_def)

lemma pair_audit: "startup_check (plain_outside no_files) pair_ready = (Val [], pair_ready)"
proof -
  have "unresolved_references (registry_of pair_ready) = []"
    by (simp add: unresolved_references_def pair_entries reference_problems_def renamed_def triggered_def calling_node_def
        Sapo_Progress.plain_node_def Let_def)
  then show ?thesis
    by (simp add: startup_check_def config_audit_def pair_ready_fields plain_outside_def audit_def)
qed

lemma pair_starts: "pair_start = (Val [], snd pair_start) \<and> length (rg_entries (registry_of (snd pair_start))) = 2"
proof -
  have "config_path (plain_outside no_files) pair_machine = []"
    by (simp add: config_path_def pair_ready_fields plain_outside_def)
  moreover have "workflow_warnings (registry_of pair_ready) = []"
    by (simp add: workflow_warnings_def pair_entries renamed_def triggered_def)
  ultimately have "pair_start = (Val [], mark_ready (plain_outside no_files) pair_ready)"
    using bare_start [of "plain_outside no_files" pair_machine] pair_audit pair_ready_fields
    unfolding pair_start_def pair_ready_def by blast
  moreover have "registry_of (mark_ready (plain_outside no_files) pair_ready) = registry_of pair_ready"
    by (simp add: mark_ready_def registry_of_def)
  moreover have "length (rg_entries (registry_of pair_ready)) = 2" by (simp add: pair_entries)
  ultimately show ?thesis by (metis snd_conv)
qed

theorem quiet_start_is_ready_witness:
  "vm_started (snd pair_start) \<and> length (rg_entries (registry_of (snd pair_start))) = 2"
proof -
  have "start (plain_outside no_files) pair_machine = (Val [], snd pair_start)"
    using pair_starts by (simp add: pair_start_def)
  from quiet_start_is_ready [OF this] have "vm_started (snd pair_start)" by (rule conjunct1)
  with pair_starts show ?thesis by blast
qed

text \<open>
  A shared store is never swapped for a directory: when the sessions are kept on a Redis server or in a store the
  embedding program brought, starting the machine (also when it fails) leaves store and sessions as they are, unless
  the configuration itself names a Redis server.
\<close>

theorem shared_store_is_kept:
  assumes "shared_store m"
    and "\<forall>d. load_config (ld_read (os_loader ow)) (ld_parse (os_loader ow)) (config_path ow m) = Val d \<longrightarrow>
           jget ''state_redis'' (engine_section d) = None"
  shows "vm_backing (snd (start ow m)) = vm_backing m \<and> ho_store (snd (start ow m)) = ho_store m"
  using start_keeps_store [of ow m] assms by (simp add: same_store_def)

definition dir_config :: json where
  "dir_config = jobj [(''engine'', jobj [(''state_dir'', JStr ''/var/sapo'')])]"

definition config_loader :: "json \<Rightarrow> loader" where
  "config_loader d = no_files\<lparr>ld_read := (\<lambda>_. Some ''c''), ld_parse := (\<lambda>_. Inr d)\<rparr>"

definition configured_machine :: "backing \<Rightarrow> machine" where
  "configured_machine b = (new_machine None 0)\<lparr>vm_config_path := ''c.json'', vm_backing := b\<rparr>"

theorem shared_store_is_kept_witness:
  "vm_backing (snd (start (plain_outside (config_loader dir_config)) (configured_machine Injected))) = Injected"
proof -
  have "load_config (ld_read (config_loader dir_config)) (ld_parse (config_loader dir_config)) ''c.json'' = Val dir_config"
    by (simp add: load_config_def config_loader_def open_config_def dir_config_def jobj_def)
  moreover have "jget ''state_redis'' (engine_section dir_config) = None"
    by (simp add: engine_section_def section_of_def dir_config_def jobj_def)
  moreover have "config_path (plain_outside (config_loader dir_config)) (configured_machine Injected) = ''c.json''"
    by (simp add: config_path_def configured_machine_def)
  ultimately show ?thesis
    using shared_store_is_kept [of "configured_machine Injected" "plain_outside (config_loader dir_config)"]
    by (simp add: shared_store_def configured_machine_def plain_outside_def)
qed

lemma register_inline_keeps:
  assumes "registry_find (''inline/'' @ os_uuid ow (ho_uuids m)) (registry_of m) = None" and "md_name (wf_metadata w) \<noteq> []"
    and "register_inline ow w m = (i, m1)"
  shows "registry_find i (registry_of m) = None \<and> registry_find i (registry_of m1) = Some (renamed i w) \<and>
    (\<forall>k v. registry_find k (registry_of m) = Some v \<longrightarrow> registry_find k (registry_of m1) = Some v) \<and>
    ho_workflows m1 = Some (registry_of m1) \<and> vm_started m1 = vm_started m"
proof (cases "registry_find (md_name (wf_metadata w)) (registry_of m) = None")
  case True
  have "snd (registry_add (now_ms m) w [] [] (registry_of m)) = md_name (wf_metadata w)"
    using assms(2) by (simp add: registry_add_def Let_def)
  then show ?thesis using assms(3) True
    by (auto simp: register_inline_def Let_def registry_find_add registry_of_def renamed_def)
next
  case False
  then show ?thesis using assms(1,3)
    by (auto simp: register_inline_def Let_def registry_find_named registry_of_def)
qed


lemma cancel_keeps_running: "vm_started (fst (cancel_session sid reason m)) = vm_started m"
  by (simp add: cancel_session_def cancel_timers_def disarm_wakeup_def Let_def split: option.split)

text \<open>
  A cancelled session shows as cancelled: after a successful cancellation a query answers the status \<open>cancelled\<close>, not
  resumable, and resuming it is answered with a failed outcome that says so and changes nothing.
\<close>

theorem cancelled_session_shows_cancelled:
  assumes "vm_started m" and "vm_cancel ow sid reason m = (Val True, m1)" and "stored sid m = Some ck" and "ck_session_id ck = sid"
  shows "(\<exists>s. vm_session sid m1 = Some s \<and> sn_status s = ''cancelled'' \<and> \<not> sn_resumable s) \<and>
         (\<exists>x. vm_resume fuel ow sid input m1 = Some (Val x, m1) \<and> oc_error_code x = ''SESSION_NOT_SUSPENDED'' \<and> \<not> oc_ok x)"
proof -
  have c: "cancel_session sid reason m = (m1, True)"
    using assms(1,2) by (auto simp: vm_cancel_def ensure_started_def andthen_def split: prod.splits)
  then have run: "vm_started m1" using cancel_keeps_running [of sid reason m] assms(1) by simp
  note st = cancel_session_result [OF c assms(3,4)]
  then have "ho_store m1 \<noteq> None" by (rule stored_store)
  with st run show ?thesis
    by (auto simp: vm_session_def snapshot_from_def cancelled_checkpoint_def vm_resume_def started_first_def ensure_started_def
        resume_session_def outcome_of_run_def outcome_from_def refused_def rp_succeeded_def status_string_def status_names_def)
qed

theorem cancelled_session_shows_cancelled_witness:
  "\<exists>s. vm_session ''s1'' (snd (vm_cancel (plain_outside no_files) ''s1'' ''stop''
        (pair_ready\<lparr>vm_started := True, ho_store := Some [(''s1'', sample_checkpoint\<lparr>ck_status := AwaitingInput\<rparr>)]\<rparr>))) = Some s \<and>
     sn_status s = ''cancelled''"
proof -
  let ?m = "pair_ready\<lparr>vm_started := True, ho_store := Some [(''s1'', sample_checkpoint\<lparr>ck_status := AwaitingInput\<rparr>)]\<rparr>"
  have ck: "stored ''s1'' ?m = Some (sample_checkpoint\<lparr>ck_status := AwaitingInput\<rparr>)" by (simp add: stored_def mem_load_def)
  obtain m1 b where c: "cancel_session ''s1'' ''stop'' ?m = (m1, b)" by fastforce
  have "snd (cancel_session ''s1'' ''stop'' ?m)" using ck by (simp add: cancel_session_iff Sapo_Session.live_def)
  with c have v: "vm_cancel (plain_outside no_files) ''s1'' ''stop'' ?m = (Val True, m1)"
    by (simp add: vm_cancel_def ensure_started_def andthen_def)
  have "vm_started ?m" and "ck_session_id (sample_checkpoint\<lparr>ck_status := AwaitingInput\<rparr>) = ''s1''"
    by (simp_all add: sample_checkpoint_def)
  from cancelled_session_shows_cancelled [OF this(1) v ck this(2)] v show ?thesis by (metis snd_conv)
qed

text \<open>A submitted blueprint that parses: an array of two nodes is below the limit of nodes.\<close>

definition inline_nodes :: "json list" where
  "inline_nodes =
     [jobj [(''type'', JStr ''noop''), (''id'', JStr ''n'')], jobj [(''type'', JStr ''terminate''), (''id'', JStr ''e'')]]"

definition inline_outside :: "(unit, unit) outside" where
  "inline_outside =
     (plain_outside (no_files\<lparr>ld_parse := (\<lambda>_. Inr (JArr inline_nodes))\<rparr>))\<lparr>os_capabilities := None\<rparr>"

lemma parse_array:
  assumes "xs \<noteq> []" and "length xs \<le> pq_max_nodes q"
  shows "parse_workflow_json f q (JArr xs) =
    andthen (parse_nodes f q 0 xs) (\<lambda>tops. andthen (observe ps_hoisted) (\<lambda>hoisted.
      andthen (index_nodes (tops @ hoisted) []) (\<lambda>(ns, ix). andthen (observe ps_warnings) (\<lambda>warnings.
        validated q (assembled blank_metadata (length xs) ns warnings)))))"
  using assms by (simp add: parse_workflow_json_def header_of_def refuse_if_def)

lemma inline_nodes_parse:
  "(case andthen (parse_nodes (Suc (size (JArr inline_nodes))) (inline_options inline_outside) 0 inline_nodes)
      (\<lambda>tops. andthen (observe ps_hoisted) (\<lambda>hoisted.
      andthen (index_nodes (tops @ hoisted) []) (\<lambda>(ns, ix). andthen (observe ps_warnings) (\<lambda>warnings.
        validated (inline_options inline_outside) (assembled blank_metadata (length inline_nodes) ns warnings)))))
      Sapo_Parser.start_state of
      (Val w, t) \<Rightarrow> md_name (wf_metadata w) \<noteq> [] | _ \<Rightarrow> False)"
  by code_simp

lemma inline_parses:
  obtains w where "\<forall>t. parse_workflow (ld_parse (os_loader inline_outside)) (inline_options inline_outside) t = Val w"
    and "md_name (wf_metadata w) \<noteq> []"
proof -
  have "inline_nodes \<noteq> []" "length inline_nodes \<le> pq_max_nodes (inline_options inline_outside)"
    by (simp_all add: inline_nodes_def inline_options_def)
  note r = inline_nodes_parse [folded parse_array [OF this]]
  obtain w where "fst (parse_workflow_json (Suc (size (JArr inline_nodes))) (inline_options inline_outside) (JArr inline_nodes)
      Sapo_Parser.start_state) = Val w" "md_name (wf_metadata w) \<noteq> []"
    using r by (auto split: prod.splits ev.splits)
  then show thesis by (intro that [of w]) (simp_all add: parse_workflow_def inline_outside_def plain_outside_def)
qed


text \<open>
  Options the Redis store refuses (a negative time to live, an empty prefix) are not among the problems \<open>start\<close>
  collects: the store's exception leaves \<open>start\<close>.
\<close>

theorem bad_store_options_stop_the_start:
  assumes "config_path ow m \<noteq> []" and "load_config (ld_read (os_loader ow)) (ld_parse (os_loader ow)) (config_path ow m) = Val d"
    and "config_problems (os_getenv ow) d = Val ps" and "jget ''state_redis'' (engine_section d) = Some (JStr url)" and "url \<noteq> []"
    and "options_from_url url = Inr q" and "os_redis ow" and "store_complaint (redis_store_options (engine_section d)) = Some c"
  shows "\<exists>m1. start ow m = (Thr (store_error c), m1) \<and> vm_started m1 = vm_started m"
proof -
  have p: "config_path ow (m\<lparr>vm_problems := []\<rparr>) = config_path ow m" by (simp add: config_path_def)
  have "vm_started (state_directory ow x m) = vm_started m" for x and m
    by (simp add: state_directory_def open_store_def split: option.split)
  then show ?thesis
    using assms by (simp add: start_def read_config_def p apply_config_def state_redis_def open_redis_def judged_def noted_run Let_def)
qed

end
