(* ===== verification/Spec2Isabelle.thy ===== *)
theory Spec2Isabelle
  imports Sapo_Context Sapo_Core Sapo_Time Sapo_Cron Sapo_Scheduler Sapo_StateStore Sapo_JsonPath
    Sapo_Ast Sapo_RunState Sapo_Advance Sapo_Interpreter Sapo_Progress Sapo_EventBus Sapo_Registry Sapo_Session
    Sapo_Encoding Sapo_Crypto Sapo_Value Sapo_SelSyntax Sapo_Iso Sapo_SelLib Sapo_SelEval
    Sapo_Expression Sapo_Effects Sapo_Http Sapo_Capability Sapo_Data Sapo_TaskBase Sapo_CoreTasks Sapo_ActionTasks
    Sapo_CommandTasks Sapo_Redis Sapo_Resp Sapo_MockRedis Sapo_RedisStore
    Sapo_Validator Sapo_Fields Sapo_Builders Sapo_Parser Sapo_WellFormed Sapo_Config Sapo_Observe
    Sapo_Loading Sapo_Vm
begin

text \<open>
  Verification library for the Sapo workflow engine (\<open>src/src\<close>).

  \<^bold>\<open>The program.\<close>  A blueprint (a graph of nodes) is run by an interpreter: it keeps a cursor, a stack of
  frames (loops, try blocks, condition bodies, parallel branches) and a context of variables, activates one
  node after the other through the task registry, and routes errors to handlers.  A run can suspend: its
  state becomes a checkpoint in a state store, a timer in the scheduler and a subscription on the event bus
  wake it up, and resuming restores the state.  The registry holds the blueprints, starts the ones an event
  triggers and runs subflows.  A blueprint comes from a document: the parser reads it node by node, hoists inline
  bodies, builds the index and has the validator check the graph; the tasks evaluate expressions, call
  capabilities and data sources, send HTTP requests and ask the user.

  \<^bold>\<open>Theories and the code they model.\<close>
  \<^item> \<open>Sapo_Prelude\<close>: generic lemmas and the string primitives of the C++ library the engine uses.
  \<^item> \<open>Sapo_Json\<close>: the documents (\<open>nlohmann::json\<close>, vendored): ordered objects, 64-bit integers, binary64
    numbers; what \<open>value\<close>, \<open>contains\<close>, \<open>operator[]\<close>, \<open>erase\<close> and \<open>==\<close> do.
  \<^item> \<open>Sapo_JsonPath\<close>: \<open>util/JsonPath\<close>.  \<open>Sapo_Core\<close>: \<open>runtime/ControlFlow.hpp\<close>, \<open>runtime/SapoError.hpp\<close>.
    \<open>Sapo_Context\<close>: \<open>runtime/Context.hpp\<close>.  \<open>Sapo_Time\<close>: \<open>util/TimeUtils\<close> and the calendar of
    \<open>runtime/Scheduler.cpp\<close>.  \<open>Sapo_Cron\<close>, \<open>Sapo_Scheduler\<close>: \<open>runtime/Scheduler\<close>.
    \<open>Sapo_StateStore\<close>: \<open>runtime/StateStore\<close>.
  \<^item> \<open>Sapo_Ast\<close>: \<open>parser/AstNodes.hpp\<close>.  \<open>Sapo_RunState\<close>, \<open>Sapo_Advance\<close>, \<open>Sapo_Interpreter\<close>,
    \<open>Sapo_Progress\<close>: the run loop of \<open>runtime/Interpreter.cpp\<close> and why it ends.
  \<^item> \<open>Sapo_EventBus\<close>: \<open>runtime/EventBus\<close>.  \<open>Sapo_Registry\<close>: \<open>runtime/WorkflowRegistry\<close>.
    \<open>Sapo_Session\<close>: \<open>run\<close>, \<open>resume\<close>, \<open>cancel\<close> and the callbacks of \<open>runtime/Interpreter.cpp\<close>.
  \<^item> \<open>Sapo_Encoding\<close>, \<open>Sapo_Crypto\<close>: \<open>util/Encoding\<close>, \<open>util/Crypto\<close> on machine words.
    \<open>Sapo_Iso\<close>: the instants of \<open>util/TimeUtils\<close>.
  \<^item> The expression language of \<open>runtime/expressions\<close>: \<open>Sapo_Value\<close> (\<open>Value.hpp\<close>), \<open>Sapo_SelSyntax\<close>
    (tokens, trees, parser, compile cache), \<open>Sapo_SelLib\<close> (its function library), \<open>Sapo_SelEval\<close> (the
    evaluator).
    \<open>Sapo_Expression\<close>: templates, expression handles and structured conditions (\<open>Sel.cpp\<close>,
    \<open>runtime/ExpressionEvaluator\<close>, \<open>runtime/Bindings.hpp\<close>).  \<open>Sapo_Effects\<close>: computations over the context
    and the outside world, in which the tasks are written.
  \<^item> The tasks of \<open>tasks\<close>: \<open>Sapo_TaskBase\<close> (\<open>Task.cpp\<close>, the services), \<open>Sapo_CoreTasks\<close>,
    \<open>Sapo_ActionTasks\<close>, \<open>Sapo_CommandTasks\<close> (\<open>HttpTasks.cpp\<close>, \<open>ControlFlowTasks.cpp\<close> and the registry of the
    defaults).  \<open>Sapo_Http\<close>: \<open>http/IHttpTransport\<close> with its cassettes.  \<open>Sapo_Capability\<close>:
    \<open>capabilities/CapabilityRegistry\<close>.  \<open>Sapo_Data\<close>: \<open>data/DataSourceProvider\<close>.
  \<^item> Redis: \<open>Sapo_Redis\<close> (replies and addresses, \<open>redis/IRedisClient\<close>), \<open>Sapo_Resp\<close> (wire protocol, retries and
    connection pool, \<open>redis/SocketRedisClient.cpp\<close>), \<open>Sapo_MockRedis\<close> (the in-memory server with the two scripts,
    \<open>redis/MockRedisClient\<close>), \<open>Sapo_RedisStore\<close> (\<open>redis/RedisStateStore\<close>).
  \<^item> Blueprints: \<open>Sapo_Validator\<close> (\<open>parser/BlueprintValidator\<close>), \<open>Sapo_Fields\<close> (the field readers),
    \<open>Sapo_Builders\<close> (one builder per plain node type), \<open>Sapo_Parser\<close> (bodies, actions, nodes, blueprints; all of
    \<open>parser/WorkflowParser.cpp\<close>), \<open>Sapo_WellFormed\<close> (what a parsed blueprint guarantees).
  \<^item> Configuration: \<open>Sapo_Config\<close> (\<open>config/ProviderConfig\<close>).  Logs, metrics and traces: \<open>Sapo_Observe\<close>
    (\<open>observability/Logger\<close>, \<open>observability/Metrics\<close>); the other theories leave their calls out.
  \<^item> \<open>Sapo_Loading\<close>: texts, files and directories of blueprints going into the registry
    (\<open>runtime/WorkflowRegistry\<close>).  \<open>Sapo_Vm\<close>: the facade (\<open>runtime/VirtualMachine\<close>, \<open>runtime/TaskServices\<close>), which
    starts the engine from a configuration, audits it and offers the operations on sessions.

  \<^bold>\<open>Interfaces.\<close>  The stores share the compare-and-swap contract (locale \<open>cas_store\<close>, interpreted by the memory
  store and by the Redis store running its script on the in-memory server), the scheduler's timers the delivery
  contract (locale \<open>timer_queue\<close>, interpreted by \<open>add_timer\<close>, the cancellation and \<open>tick_until\<close>, which may also throw), the steps of a task that
  only read the contract of locale \<open>reading_sources\<close>.  The parser's steps are composed by the rules of \<open>sound_for\<close>, so
  the guarantee of a node is the sum of its readers' guarantees.

  \<^bold>\<open>Undefined behaviour.\<close>  Where an \<open>int\<close> of the code can overflow on an input it accepts, the model has no
  result for it (the counter of a cron field: \<open>step_range\<close>, which makes \<open>parse_cron\<close> a \<open>Throws\<close>), or the width is
  written out.  Not written out: the products of page number and page size of a menu, of a zone offset and 1000, and
  \<open>atoi\<close> beyond the range of \<open>int\<close>.

  \<^bold>\<open>Fuel.\<close>  \<open>drive\<close> takes fuel because a parallel section can reach itself again through a branch; more fuel
  never changes a result (\<open>drive_mono\<close>), and for blueprints without parallel sections some fuel always is
  enough (\<open>run_ends_within_budget\<close>).  \<open>replace_from\<close> gets the length of its text, which is enough
  (\<open>replace_from_enough\<close>).  The parser of the expression language gets three more than the number of tokens,
  the evaluator the length of the text: both are enough (\<open>compile_and_evaluate_end\<close>).  \<open>parse_node\<close> gets one more
  than the size of the document, which is enough (\<open>parser_ends\<close>); the search for cycles one more than the number of
  indexed nodes (\<open>cycle_search_ends\<close>); pruning makes at most the 100000 passes of the code.

  \<^bold>\<open>Not modelled.\<close>  Threads and locks: an operation is the atomic section its mutex protects, a publication
  works on the snapshot of its handlers, parallel branches run on forks of the context one after the other.
  Sending HTTP requests and opening sockets, the clock and random identifiers are environment: the
  clock is a field of the host, identifiers come from a parameter, a connection is the feed of bytes it delivers, a
  transport and the JSON text parser and printer are arguments.  The worker pool, the background thread of the
  scheduler and the command line are not modelled.
\<close>

end
